(* ===== verification/Prelude.thy ===== *)
theory Prelude
  imports Main "HOL-Library.Word"
begin

text \<open>
  The shared vocabulary of the development: machine integers, the outcome of a
  Rust computation, slice access with its panics, the byte order conversions of
  the standard library, and the generic list and word lemmas the component
  theories rest on.

  A Rust function that returns \<open>Result<T, E>\<close> and may panic is a HOL function into
  \<open>('t, 'e) result\<close>: \<open>Ok\<close> and \<open>Err\<close> are the two constructors of the source's
  \<open>Result\<close>, \<open>Panic\<close> is an aborted computation (an index out of range, an
  \<open>expect\<close> on an error). A function the source declares infallible keeps a free
  error type, so \<open>Panic\<close> is its only failure. \<open>usize\<close> values are lengths and
  offsets of buffers held in memory and are modelled as \<open>nat\<close>.
\<close>

unbundle bit_operations_syntax

section \<open>Machine integers\<close>

type_synonym u8 = "8 word"
type_synonym u16 = "16 word"
type_synonym u32 = "32 word"
type_synonym u64 = "64 word"
type_synonym bytes = "u8 list"

named_theorems wire_defs \<open>definitions of the codecs that evaluate a wire format\<close>
named_theorems pdu_defs \<open>definitions that only hand a PDU struct to a shared codec\<close>

section \<open>Outcomes\<close>

datatype ('a, 'e) result = Ok 'a | Err 'e | Panic

text \<open>\<open>and_then\<close> is the \<open>?\<close> operator: an error or a panic ends the computation.\<close>

fun and_then :: "('a, 'e) result \<Rightarrow> ('a \<Rightarrow> ('b, 'e) result) \<Rightarrow> ('b, 'e) result" where
  "and_then (Ok x) f = f x"
| "and_then (Err e) f = Err e"
| "and_then Panic f = Panic"

text \<open>\<open>Result::map_err\<close>, \<open>Result::map\<close> and \<open>Result::expect\<close>.\<close>

fun map_err :: "('e \<Rightarrow> 'f) \<Rightarrow> ('a, 'e) result \<Rightarrow> ('a, 'f) result" where
  "map_err f (Ok x) = Ok x"
| "map_err f (Err e) = Err (f e)"
| "map_err f Panic = Panic"

fun map_ok :: "('a \<Rightarrow> 'b) \<Rightarrow> ('a, 'e) result \<Rightarrow> ('b, 'e) result" where
  "map_ok f (Ok x) = Ok (f x)"
| "map_ok f (Err e) = Err e"
| "map_ok f Panic = Panic"

fun expect :: "('a, 'e) result \<Rightarrow> ('a, 'f) result" where
  "expect (Ok x) = Ok x"
| "expect (Err e) = Panic"
| "expect Panic = Panic"

text \<open>\<open>Option::ok_or\<close>.\<close>

definition ok_or :: "'e \<Rightarrow> 'a option \<Rightarrow> ('a, 'e) result" where
  "ok_or e v = (case v of Some x \<Rightarrow> Ok x | None \<Rightarrow> Err e)"

lemma ok_or_simps [simp]: "ok_or e (Some x) = Ok x" "ok_or e None = Err e" "ok_or e v \<noteq> Panic"
  by (simp_all add: ok_or_def split: option.split)

text \<open>\<open>xs[i]\<close> and \<open>xs[a..b]\<close> on a slice: out of range is a panic.\<close>

definition index :: "'a list \<Rightarrow> nat \<Rightarrow> ('a, 'e) result" where
  "index xs i = (if i < length xs then Ok (xs ! i) else Panic)"

definition slice :: "'a list \<Rightarrow> nat \<Rightarrow> nat \<Rightarrow> ('a list, 'e) result" where
  "slice xs a b = (if a \<le> b \<and> b \<le> length xs then Ok (take (b - a) (drop a xs)) else Panic)"

text \<open>\<open>xs[i] = v\<close> on a slice.\<close>

definition assign :: "'a list \<Rightarrow> nat \<Rightarrow> 'a \<Rightarrow> ('a list, 'e) result" where
  "assign xs i v = (if i < length xs then Ok (xs[i := v]) else Panic)"

text \<open>\<open>xs[a..a + ys.len()].copy_from_slice(ys)\<close>.\<close>

definition copy_from_slice :: "'a list \<Rightarrow> nat \<Rightarrow> 'a list \<Rightarrow> ('a list, 'e) result" where
  "copy_from_slice xs a ys =
     (if a + length ys \<le> length xs then Ok (take a xs @ ys @ drop (a + length ys) xs) else Panic)"

text \<open>A \<open>for\<close> loop whose body may leave with an error or a panic.\<close>

fun for_each :: "('x \<Rightarrow> 's \<Rightarrow> ('s, 'e) result) \<Rightarrow> 'x list \<Rightarrow> 's \<Rightarrow> ('s, 'e) result" where
  "for_each f [] s = Ok s"
| "for_each f (x # xs) s = and_then (f x s) (\<lambda>s'. for_each f xs s')"

lemma and_then_Ok_right [simp]: "and_then r Ok = r"
  by (cases r) simp_all

lemma and_then_assoc: "and_then (and_then r f) g = and_then r (\<lambda>x. and_then (f x) g)"
  by (cases r) simp_all

lemma and_then_eq_Ok_iff: "and_then r f = Ok y \<longleftrightarrow> (\<exists>x. r = Ok x \<and> f x = Ok y)"
  by (cases r) simp_all

lemma and_then_eq_Panic_iff:
  "and_then r f = Panic \<longleftrightarrow> r = Panic \<or> (\<exists>x. r = Ok x \<and> f x = Panic)"
  by (cases r) simp_all

lemma and_then_eq_Err_iff:
  "and_then r f = Err e \<longleftrightarrow> r = Err e \<or> (\<exists>x. r = Ok x \<and> f x = Err e)"
  by (cases r) simp_all

lemma and_then_cong [fundef_cong]:
  assumes "r = r'" and "\<And>x. r' = Ok x \<Longrightarrow> f x = g x"
  shows "and_then r f = and_then r' g"
  using assms by (cases r') simp_all

lemma and_then_if [simp]:
  "and_then (if c then r else s) f = (if c then and_then r f else and_then s f)"
  by simp

lemma map_err_eq_Ok_iff [simp]: "map_err f r = Ok x \<longleftrightarrow> r = Ok x"
  by (cases r) simp_all

lemma map_err_eq_Panic_iff [simp]: "map_err f r = Panic \<longleftrightarrow> r = Panic"
  by (cases r) simp_all

lemma map_ok_eq_Panic_iff [simp]: "map_ok f r = Panic \<longleftrightarrow> r = Panic"
  by (cases r) simp_all

lemma expect_eq_Ok_iff [simp]: "expect r = Ok x \<longleftrightarrow> r = Ok x"
  by (cases r) simp_all

lemma expect_not_Err [simp]: "expect r \<noteq> Err e"
  by (cases r) simp_all

lemma index_ok [simp]: "i < length xs \<Longrightarrow> index xs i = Ok (xs ! i)"
  by (simp add: index_def)

lemma slice_ok [simp]:
  "a \<le> b \<Longrightarrow> b \<le> length xs \<Longrightarrow> slice xs a b = Ok (take (b - a) (drop a xs))"
  by (simp add: slice_def)

lemma assign_ok [simp]: "i < length xs \<Longrightarrow> assign xs i v = Ok (xs[i := v])"
  by (simp add: assign_def)

lemma copy_from_slice_ok [simp]:
  "a + length ys \<le> length xs \<Longrightarrow>
     copy_from_slice xs a ys = Ok (take a xs @ ys @ drop (a + length ys) xs)"
  by (simp add: copy_from_slice_def)

lemma for_each_append:
  "for_each f (xs @ ys) s = and_then (for_each f xs s) (\<lambda>s'. for_each f ys s')"
  by (induction xs arbitrary: s) (auto simp: and_then_assoc intro!: and_then_cong)

lemma for_each_not_Panic:
  assumes "\<And>x s. x \<in> set xs \<Longrightarrow> f x s \<noteq> Panic"
  shows "for_each f xs s \<noteq> Panic"
  using assms by (induction xs arbitrary: s) (auto simp: and_then_eq_Panic_iff)

section \<open>Byte order\<close>

text \<open>\<open>u16::to_be_bytes\<close>, \<open>u16::from_be_bytes\<close> and the little-endian pair.\<close>

definition to_be_bytes :: "u16 \<Rightarrow> bytes" where
  "to_be_bytes w = [ucast (drop_bit 8 w), ucast w]"

definition from_be_bytes :: "u8 \<Rightarrow> u8 \<Rightarrow> u16" where
  "from_be_bytes hi lo = push_bit 8 (ucast hi) OR ucast lo"

definition to_le_bytes :: "u16 \<Rightarrow> bytes" where
  "to_le_bytes w = [ucast w, ucast (drop_bit 8 w)]"

definition from_le_bytes :: "u8 \<Rightarrow> u8 \<Rightarrow> u16" where
  "from_le_bytes lo hi = push_bit 8 (ucast hi) OR ucast lo"

lemma length_to_be_bytes [simp]: "length (to_be_bytes w) = 2"
  by (simp add: to_be_bytes_def)

lemma length_to_le_bytes [simp]: "length (to_le_bytes w) = 2"
  by (simp add: to_le_bytes_def)

lemma from_be_to_be [simp]: "from_be_bytes (ucast (drop_bit 8 w)) (ucast w) = w"
  by (rule bit_word_eqI)
     (auto simp: from_be_bytes_def bit_simps)

lemma from_le_to_le [simp]: "from_le_bytes (ucast w) (ucast (drop_bit 8 w)) = w"
  by (rule bit_word_eqI)
     (auto simp: from_le_bytes_def bit_simps)

lemma to_be_from_be [simp]: "to_be_bytes (from_be_bytes hi lo) = [hi, lo]"
proof -
  have "ucast (drop_bit 8 (from_be_bytes hi lo)) = hi"
    by (rule bit_word_eqI) (auto simp: from_be_bytes_def bit_simps dest: bit_imp_le_length)
  moreover have "ucast (from_be_bytes hi lo) = lo"
    by (rule bit_word_eqI) (auto simp: from_be_bytes_def bit_simps)
  ultimately show ?thesis by (simp add: to_be_bytes_def)
qed

lemma from_be_bytes_inject [simp]:
  "from_be_bytes a b = from_be_bytes c d \<longleftrightarrow> a = c \<and> b = d"
  by (metis list.inject to_be_from_be)

lemma to_be_bytes_inject [simp]: "to_be_bytes a = to_be_bytes b \<longleftrightarrow> a = b"
  by (metis from_be_to_be list.inject to_be_bytes_def)

text \<open>\<open>chunks_exact(2)\<close> mapped by \<open>u16::from_be_bytes\<close>: a trailing odd byte is dropped.\<close>

fun words_be :: "bytes \<Rightarrow> u16 list" where
  "words_be (hi # lo # rest) = from_be_bytes hi lo # words_be rest"
| "words_be [b] = []"
| "words_be [] = []"

text \<open>The bytes of consecutive big-endian words.\<close>

definition bytes_be :: "u16 list \<Rightarrow> bytes" where
  "bytes_be ws = concat (map to_be_bytes ws)"

lemma bytes_be_simps [simp]:
  "bytes_be [] = []"
  "bytes_be (w # ws) = to_be_bytes w @ bytes_be ws"
  by (simp_all add: bytes_be_def)

lemma bytes_be_append: "bytes_be (vs @ ws) = bytes_be vs @ bytes_be ws"
  by (simp add: bytes_be_def)

lemma length_bytes_be [simp]: "length (bytes_be ws) = 2 * length ws"
  by (induction ws) simp_all

lemma words_be_bytes_be [simp]: "words_be (bytes_be ws) = ws"
  by (induction ws) (simp_all add: to_be_bytes_def)

lemma length_words_be [simp]: "length (words_be bs) = length bs div 2"
  by (induction bs rule: words_be.induct) simp_all

lemma bytes_be_words_be: "even (length bs) \<Longrightarrow> bytes_be (words_be bs) = bs"
  by (induction bs rule: words_be.induct) simp_all

section \<open>Numbers\<close>

text \<open>\<open>n.div_ceil(8)\<close> and its relatives on \<open>usize\<close>.\<close>

definition div_ceil :: "nat \<Rightarrow> nat \<Rightarrow> nat" where
  "div_ceil n d = (n + d - 1) div d"

lemma div_ceil_8_bounds: "n \<le> 8 * div_ceil n 8" "8 * div_ceil n 8 \<le> n + 7"
  by (simp_all add: div_ceil_def)

lemma div_ceil_8_mult [simp]: "div_ceil (n * 8) 8 = n" "div_ceil (8 * n) 8 = n"
  by (simp_all add: div_ceil_def)

lemma div_ceil_8_le: "n \<le> 8 * k \<Longrightarrow> div_ceil n 8 \<le> k"
  by (simp add: div_ceil_def)

lemma unat_of_nat_u8 [simp]: "n < 256 \<Longrightarrow> unat (of_nat n :: u8) = n"
  by (simp add: unat_of_nat take_bit_nat_eq_self)

lemma unat_of_nat_u16 [simp]: "n < 65536 \<Longrightarrow> unat (of_nat n :: u16) = n"
  by (simp add: unat_of_nat take_bit_nat_eq_self)

text \<open>
  The casts \<open>(n * k) as u8\<close> and \<open>(1 + n) as u8\<close> of a byte count, in the form the
  simplifier gives them.
\<close>

lemma unat_byte_count_mult [simp]:
  "n * numeral k < 256 \<Longrightarrow> unat (of_nat n * numeral k :: u8) = n * numeral k"
  using unat_of_nat_u8 [of "n * numeral k"] by simp

lemma unat_byte_count_Suc [simp]: "n < 255 \<Longrightarrow> unat (1 + of_nat n :: u8) = Suc n"
  using unat_of_nat_u8 [of "Suc n"] by simp

lemma unat_u8_less [simp]: "unat (w :: u8) < 256"
  using unsigned_less [of w, where ?'a = nat] by simp

lemma unat_u16_less [simp]: "unat (w :: u16) < 65536"
  using unsigned_less [of w, where ?'a = nat] by simp

lemma unat_u8_le [simp]: "unat (w :: u8) \<le> 255"
  using unat_u8_less [of w] by linarith

section \<open>Lists\<close>

text \<open>
  Bounds on slices are kept as inequalities on lengths, so that linear arithmetic
  discharges the range conditions of \<open>index\<close> and \<open>slice\<close>.
\<close>

declare length_greater_0_conv [simp del]

text \<open>\<open>iter().find(..)\<close>.\<close>

lemma find_Some_set: "List.find P xs = Some x \<Longrightarrow> x \<in> set xs \<and> P x"
  by (auto simp: find_Some_iff)

lemma nth_append_right [simp]: "(xs @ ys) ! (length xs + n) = ys ! n"
  by (simp add: nth_append)

end
