(* ===== verification/Wire_Types.thy ===== *)
theory Wire_Types
  imports Prelude
begin

text \<open>
  The vocabulary of the Modbus application layer, from \<open>protocol/src/lib.rs\<close> and the
  top of \<open>protocol/src/pdu.rs\<close>: the decode and encode errors, the function, exception
  and field-offset constants, and one record per PDU struct. \<open>protocol-core/src/pdu.rs\<close>
  repeats the same constants and the same fixed-size structs; the codecs of both crates
  refer to the ones declared here.
\<close>

section \<open>Errors\<close>

datatype DecodeError =
    TooShort
  | UnexpectedFunctionCode u8 u8
  | OddByteCount u8
  | NotAnExceptionResponse u8
  | InvalidCoilValue u16
  | QuantityByteCountMismatch u16 u8
  | UnexpectedMeiType u8 u8
  | UnexpectedProtocolId u16
  | InvalidAduLength u16
  | CrcMismatch u16 u16
  | InvalidFileRecordByteCount u8
  | InvalidFileRecordReferenceType u8
  | InvalidFileRecordSubResponseLength u8

datatype EncodeError =
    TooManyRegisters nat nat
  | OddFileRecordDataLength u16 u16 nat

section \<open>Constants\<close>

definition FUNCTION_CODE_READ_COILS :: u8 where [simp]: "FUNCTION_CODE_READ_COILS = 0x01"
definition FUNCTION_CODE_READ_DISCRETE_INPUTS :: u8 where [simp]: "FUNCTION_CODE_READ_DISCRETE_INPUTS = 0x02"
definition FUNCTION_CODE_WRITE_SINGLE_COIL :: u8 where [simp]: "FUNCTION_CODE_WRITE_SINGLE_COIL = 0x05"
definition FUNCTION_CODE_WRITE_MULTIPLE_COILS :: u8 where [simp]: "FUNCTION_CODE_WRITE_MULTIPLE_COILS = 0x0F"
definition FUNCTION_CODE_READ_HOLDING_REGISTERS :: u8 where [simp]: "FUNCTION_CODE_READ_HOLDING_REGISTERS = 0x03"
definition FUNCTION_CODE_READ_INPUT_REGISTERS :: u8 where [simp]: "FUNCTION_CODE_READ_INPUT_REGISTERS = 0x04"
definition FUNCTION_CODE_WRITE_SINGLE_REGISTER :: u8 where [simp]: "FUNCTION_CODE_WRITE_SINGLE_REGISTER = 0x06"
definition FUNCTION_CODE_WRITE_MULTIPLE_REGISTERS :: u8 where [simp]: "FUNCTION_CODE_WRITE_MULTIPLE_REGISTERS = 0x10"
definition FUNCTION_CODE_MASK_WRITE_REGISTER :: u8 where [simp]: "FUNCTION_CODE_MASK_WRITE_REGISTER = 0x16"
definition FUNCTION_CODE_REPORT_SERVER_ID :: u8 where [simp]: "FUNCTION_CODE_REPORT_SERVER_ID = 0x11"
definition FUNCTION_CODE_READ_WRITE_MULTIPLE_REGISTERS :: u8 where [simp]: "FUNCTION_CODE_READ_WRITE_MULTIPLE_REGISTERS = 0x17"
definition FUNCTION_CODE_READ_FILE_RECORD :: u8 where [simp]: "FUNCTION_CODE_READ_FILE_RECORD = 0x14"
definition FUNCTION_CODE_WRITE_FILE_RECORD :: u8 where [simp]: "FUNCTION_CODE_WRITE_FILE_RECORD = 0x15"
definition FUNCTION_CODE_ENCAPSULATED_INTERFACE_TRANSPORT :: u8 where [simp]: "FUNCTION_CODE_ENCAPSULATED_INTERFACE_TRANSPORT = 0x2B"

definition MEI_TYPE_READ_DEVICE_IDENTIFICATION :: u8 where [simp]: "MEI_TYPE_READ_DEVICE_IDENTIFICATION = 0x0E"

definition READ_DEVICE_ID_BASIC :: u8 where [simp]: "READ_DEVICE_ID_BASIC = 0x01"
definition READ_DEVICE_ID_REGULAR :: u8 where [simp]: "READ_DEVICE_ID_REGULAR = 0x02"
definition READ_DEVICE_ID_EXTENDED :: u8 where [simp]: "READ_DEVICE_ID_EXTENDED = 0x03"
definition READ_DEVICE_ID_INDIVIDUAL :: u8 where [simp]: "READ_DEVICE_ID_INDIVIDUAL = 0x04"

definition EXCEPTION_ILLEGAL_FUNCTION :: u8 where [simp]: "EXCEPTION_ILLEGAL_FUNCTION = 0x01"
definition EXCEPTION_ILLEGAL_DATA_ADDRESS :: u8 where [simp]: "EXCEPTION_ILLEGAL_DATA_ADDRESS = 0x02"
definition EXCEPTION_ILLEGAL_DATA_VALUE :: u8 where [simp]: "EXCEPTION_ILLEGAL_DATA_VALUE = 0x03"
definition EXCEPTION_SERVER_DEVICE_FAILURE :: u8 where [simp]: "EXCEPTION_SERVER_DEVICE_FAILURE = 0x04"

definition FUNCTION_CODE_BYTE :: nat where [simp]: "FUNCTION_CODE_BYTE = 0"
definition ADDRESS_FIELD_BYTE :: nat where [simp]: "ADDRESS_FIELD_BYTE = 1"
definition QUANTITY_OR_VALUE_FIELD_BYTE :: nat where [simp]: "QUANTITY_OR_VALUE_FIELD_BYTE = 3"
definition TWO_FIELD_PDU_LEN :: nat where [simp]: "TWO_FIELD_PDU_LEN = 5"
definition OR_MASK_FIELD_BYTE :: nat where [simp]: "OR_MASK_FIELD_BYTE = 5"
definition MASK_WRITE_REGISTER_PDU_LEN :: nat where [simp]: "MASK_WRITE_REGISTER_PDU_LEN = 7"
definition REPORT_SERVER_ID_BYTE_COUNT_BYTE :: nat where [simp]: "REPORT_SERVER_ID_BYTE_COUNT_BYTE = 1"
definition REPORT_SERVER_ID_DATA_START :: nat where [simp]: "REPORT_SERVER_ID_DATA_START = 2"
definition REPORT_SERVER_ID_RESPONSE_HEADER_LEN :: nat where [simp]: "REPORT_SERVER_ID_RESPONSE_HEADER_LEN = 2"
definition RUN_INDICATOR_ON :: u8 where [simp]: "RUN_INDICATOR_ON = 0xFF"
definition RUN_INDICATOR_OFF :: u8 where [simp]: "RUN_INDICATOR_OFF = 0x00"
definition READ_WRITE_WRITE_STARTING_ADDRESS_BYTE :: nat where [simp]: "READ_WRITE_WRITE_STARTING_ADDRESS_BYTE = 5"
definition READ_WRITE_BYTE_COUNT_BYTE :: nat where [simp]: "READ_WRITE_BYTE_COUNT_BYTE = 9"
definition READ_WRITE_VALUES_START :: nat where [simp]: "READ_WRITE_VALUES_START = 10"
definition READ_WRITE_REQUEST_HEADER_LEN :: nat where [simp]: "READ_WRITE_REQUEST_HEADER_LEN = 10"
definition BYTE_COUNT_BYTE :: nat where [simp]: "BYTE_COUNT_BYTE = 1"
definition RESPONSE_DATA_START :: nat where [simp]: "RESPONSE_DATA_START = 2"
definition RESPONSE_HEADER_LEN :: nat where [simp]: "RESPONSE_HEADER_LEN = 2"
definition COIL_VALUE_ON :: u16 where [simp]: "COIL_VALUE_ON = 0xFF00"
definition COIL_VALUE_OFF :: u16 where [simp]: "COIL_VALUE_OFF = 0x0000"
definition FILE_RECORD_REFERENCE_TYPE :: u8 where [simp]: "FILE_RECORD_REFERENCE_TYPE = 6"
definition FILE_RECORD_SUB_REQUEST_LEN :: nat where [simp]: "FILE_RECORD_SUB_REQUEST_LEN = 7"
definition WRITE_MULTIPLE_BYTE_COUNT_BYTE :: nat where [simp]: "WRITE_MULTIPLE_BYTE_COUNT_BYTE = 5"
definition WRITE_MULTIPLE_VALUES_START :: nat where [simp]: "WRITE_MULTIPLE_VALUES_START = 6"
definition WRITE_MULTIPLE_REQUEST_HEADER_LEN :: nat where [simp]: "WRITE_MULTIPLE_REQUEST_HEADER_LEN = 6"
definition EXCEPTION_RESPONSE_FUNCTION_CODE_BIT :: u8 where [simp]: "EXCEPTION_RESPONSE_FUNCTION_CODE_BIT = 0x80"
definition EXCEPTION_CODE_BYTE :: nat where [simp]: "EXCEPTION_CODE_BYTE = 1"
definition EXCEPTION_RESPONSE_LEN :: nat where [simp]: "EXCEPTION_RESPONSE_LEN = 2"
definition MEI_TYPE_BYTE :: nat where [simp]: "MEI_TYPE_BYTE = 1"
definition READ_DEVICE_ID_CODE_BYTE :: nat where [simp]: "READ_DEVICE_ID_CODE_BYTE = 2"
definition REQUEST_OBJECT_ID_BYTE :: nat where [simp]: "REQUEST_OBJECT_ID_BYTE = 3"
definition READ_DEVICE_IDENTIFICATION_REQUEST_LEN :: nat where [simp]: "READ_DEVICE_IDENTIFICATION_REQUEST_LEN = 4"
definition CONFORMITY_LEVEL_BYTE :: nat where [simp]: "CONFORMITY_LEVEL_BYTE = 3"
definition MORE_FOLLOWS_BYTE :: nat where [simp]: "MORE_FOLLOWS_BYTE = 4"
definition NEXT_OBJECT_ID_BYTE :: nat where [simp]: "NEXT_OBJECT_ID_BYTE = 5"
definition NUMBER_OF_OBJECTS_BYTE :: nat where [simp]: "NUMBER_OF_OBJECTS_BYTE = 6"
definition RESPONSE_OBJECTS_START :: nat where [simp]: "RESPONSE_OBJECTS_START = 7"
definition READ_DEVICE_IDENTIFICATION_RESPONSE_HEADER_LEN :: nat where [simp]: "READ_DEVICE_IDENTIFICATION_RESPONSE_HEADER_LEN = 7"
definition MORE_FOLLOWS_YES :: u8 where [simp]: "MORE_FOLLOWS_YES = 0xFF"
definition MORE_FOLLOWS_NO :: u8 where [simp]: "MORE_FOLLOWS_NO = 0x00"

section \<open>PDU structs\<close>

record ReadCoilsRequest =
  starting_address :: u16
  quantity :: u16

record ReadDiscreteInputsRequest =
  starting_address :: u16
  quantity :: u16

record ReadHoldingRegistersRequest =
  starting_address :: u16
  quantity :: u16

record ReadInputRegistersRequest =
  starting_address :: u16
  quantity :: u16

record ReadCoilsResponse =
  coil_values :: "bool list"

record ReadDiscreteInputsResponse =
  discrete_input_values :: "bool list"

record ReadHoldingRegistersResponse =
  register_values :: "u16 list"

record ReadInputRegistersResponse =
  register_values :: "u16 list"

record WriteSingleCoilRequest =
  coil_address :: u16
  coil_value :: bool

record WriteSingleCoilResponse =
  coil_address :: u16
  coil_value :: bool

record WriteSingleRegisterRequest =
  register_address :: u16
  register_value :: u16

record WriteSingleRegisterResponse =
  register_address :: u16
  register_value :: u16

record MaskWriteRegisterRequest =
  reference_address :: u16
  and_mask :: u16
  or_mask :: u16

record MaskWriteRegisterResponse =
  reference_address :: u16
  and_mask :: u16
  or_mask :: u16

datatype ReportServerIdRequest = ReportServerIdRequest

record ReportServerIdResponse =
  server_id :: bytes
  run_indicator_status :: bool

record ReadWriteMultipleRegistersRequest =
  read_starting_address :: u16
  read_quantity :: u16
  write_starting_address :: u16
  write_values :: "u16 list"

record ReadWriteMultipleRegistersResponse =
  register_values :: "u16 list"

record WriteMultipleCoilsRequest =
  starting_address :: u16
  coil_values :: "bool list"

record WriteMultipleCoilsResponse =
  starting_address :: u16
  quantity :: u16

record WriteMultipleRegistersRequest =
  starting_address :: u16
  register_values :: "u16 list"

record WriteMultipleRegistersResponse =
  starting_address :: u16
  quantity :: u16

record FileRecordSubRequest =
  file_number :: u16
  record_number :: u16
  record_length :: u16

record ReadFileRecordRequest =
  sub_requests :: "FileRecordSubRequest list"

record ReadFileRecordResponse =
  records :: "bytes list"

record WriteFileRecordSubRequest =
  file_number :: u16
  record_number :: u16
  record_data :: bytes

record WriteFileRecordRequest =
  sub_requests :: "WriteFileRecordSubRequest list"

record WriteFileRecordResponse =
  sub_requests :: "WriteFileRecordSubRequest list"

record ExceptionResponse =
  function_code :: u8
  exception_code :: u8

record ReadDeviceIdentificationRequest =
  read_device_id_code :: u8
  object_id :: u8

record DeviceIdentificationObject =
  id_byte :: u8
  object_value :: bytes

record ReadDeviceIdentificationResponse =
  read_device_id_code :: u8
  conformity_level :: u8
  more_follows :: bool
  next_object_id :: u8
  objects :: "DeviceIdentificationObject list"

record AddressAndQuantity =
  starting_address :: u16
  quantity :: u16

end
