(* ===== verification/Bit_Packing.thy ===== *)
theory Bit_Packing
  imports Prelude
begin

text \<open>
  Reference semantics of the packed-bit payload: bit \<open>i\<close> of a list lives in bit
  \<open>i mod 8\<close> of byte \<open>i div 8\<close>, least significant first, and the last byte is padded
  with zeroes. \<open>bits_of\<close> reads a payload, \<open>packed_bits\<close> builds one; the loops of the
  codecs, which set bits one at a time in a zeroed buffer, are compared with them.
\<close>

section \<open>Reading and building a payload\<close>

definition bits_of :: "bytes \<Rightarrow> bool list" where
  "bits_of bs = concat (map (\<lambda>b. map (bit b) [0..<8]) bs)"

definition packed_bits :: "bool list \<Rightarrow> bytes" where
  "packed_bits vs =
     map (\<lambda>j. horner_sum of_bool 2 (take 8 (drop (8 * j) vs))) [0..<div_ceil (length vs) 8]"

lemma and_shifted_one_iff: "(b :: u8) AND push_bit n 1 \<noteq> 0 \<longleftrightarrow> bit b n"
  by (simp add: push_bit_of_1 and_exp_eq_0_iff_not_bit)

lemma bits_of_Nil [simp]: "bits_of [] = []"
  by (simp add: bits_of_def)

lemma bits_of_Cons: "bits_of (b # bs) = map (bit b) [0..<8] @ bits_of bs"
  by (simp add: bits_of_def)

lemma length_bits_of [simp]: "length (bits_of bs) = 8 * length bs"
  by (induction bs) (simp_all add: bits_of_Cons)

lemma nth_bits_of: "i < 8 * length bs \<Longrightarrow> bits_of bs ! i = bit (bs ! (i div 8)) (i mod 8)"
proof (induction bs arbitrary: i)
  case Nil
  then show ?case by simp
next
  case (Cons b bs)
  show ?case
  proof (cases "i < 8")
    case True
    then show ?thesis by (simp add: bits_of_Cons nth_append)
  next
    case False
    then obtain j where j: "i = j + 8" by (metis add.commute le_Suc_ex not_less)
    with Cons.prems have "j < 8 * length bs" by simp
    moreover have "(j + 8) div 8 = Suc (j div 8)" by simp
    ultimately show ?thesis using Cons.IH [of j] by (simp add: j bits_of_Cons nth_append)
  qed
qed

lemma length_packed_bits [simp]: "length (packed_bits vs) = div_ceil (length vs) 8"
  by (simp add: packed_bits_def)

lemma bit_packed_bits:
  assumes "i < 8 * div_ceil (length vs) 8"
  shows "bit (packed_bits vs ! (i div 8)) (i mod 8) \<longleftrightarrow> i < length vs \<and> vs ! i"
proof -
  have "i div 8 < div_ceil (length vs) 8" using assms by linarith
  moreover have "8 * (i div 8) + i mod 8 = i" by simp
  moreover have "i mod 8 < 8" by simp
  moreover have "i mod 8 < length vs - 8 * (i div 8) \<longleftrightarrow> i < length vs" by presburger
  ultimately show ?thesis
    by (auto simp: packed_bits_def bit_horner_sum_bit_word_iff)
qed

lemma bits_of_packed_bits:
  "bits_of (packed_bits vs) = vs @ replicate (8 * div_ceil (length vs) 8 - length vs) False"
proof (rule nth_equalityI)
  show "length (bits_of (packed_bits vs)) =
      length (vs @ replicate (8 * div_ceil (length vs) 8 - length vs) False)"
    using div_ceil_8_bounds [of "length vs"] by simp
next
  fix i assume "i < length (bits_of (packed_bits vs))"
  then have i: "i < 8 * div_ceil (length vs) 8" by simp
  then have "bits_of (packed_bits vs) ! i = (i < length vs \<and> vs ! i)"
    by (simp add: nth_bits_of bit_packed_bits)
  with i show "bits_of (packed_bits vs) ! i =
      (vs @ replicate (8 * div_ceil (length vs) 8 - length vs) False) ! i"
    by (auto simp: nth_append)
qed

lemma packed_bits_bits_of [simp]: "packed_bits (bits_of bs) = bs"
proof (rule nth_equalityI)
  show len: "length (packed_bits (bits_of bs)) = length bs" by simp
  fix j assume "j < length (packed_bits (bits_of bs))"
  then have j: "j < length bs" by simp
  show "packed_bits (bits_of bs) ! j = bs ! j"
  proof (rule bit_word_eqI)
    fix n assume "n < LENGTH(8)"
    then have n: "n < 8" by simp
    with j have "8 * j + n < 8 * length bs" by linarith
    with n show "bit (packed_bits (bits_of bs) ! j) n = bit (bs ! j) n"
      using bit_packed_bits [of "8 * j + n" "bits_of bs"] nth_bits_of [of "8 * j + n" bs]
      by simp
  qed
qed

section \<open>Setting bits in a buffer\<close>

definition or_bit :: "nat \<Rightarrow> nat \<Rightarrow> bytes \<Rightarrow> bytes" where
  "or_bit start i buf =
     buf[start + i div 8 := buf ! (start + i div 8) OR push_bit (i mod 8) 1]"

fun set_bits :: "nat \<Rightarrow> nat \<Rightarrow> bool list \<Rightarrow> bytes \<Rightarrow> bytes" where
  "set_bits start n [] buf = buf"
| "set_bits start n (v # vs) buf = set_bits start (Suc n) vs (if v then or_bit start n buf else buf)"

lemma length_or_bit [simp]: "length (or_bit start i buf) = length buf"
  by (simp add: or_bit_def)

lemma length_set_bits [simp]: "length (set_bits start n vs buf) = length buf"
  by (induction vs arbitrary: n buf) simp_all

lemma take_set_bits [simp]: "take start (set_bits start n vs buf) = take start buf"
  by (induction vs arbitrary: n buf) (simp_all add: or_bit_def)

lemma bit_or_bit:
  assumes "start + i div 8 < length buf"
  shows "bit (or_bit start i buf ! (start + j div 8)) (j mod 8) \<longleftrightarrow>
     bit (buf ! (start + j div 8)) (j mod 8) \<or> j = i"
proof (cases "j div 8 = i div 8")
  case True
  moreover have "j mod 8 = i mod 8 \<longleftrightarrow> j = i" using True by (metis div_mult_mod_eq)
  ultimately show ?thesis
    using assms by (auto simp: or_bit_def bit_or_iff push_bit_of_1 bit_exp_iff)
next
  case False
  then show ?thesis by (auto simp: or_bit_def)
qed

lemma bit_set_bits:
  assumes "n + length vs \<le> 8 * (length buf - start)" and "start \<le> length buf"
  shows "bit (set_bits start n vs buf ! (start + j div 8)) (j mod 8) \<longleftrightarrow>
     bit (buf ! (start + j div 8)) (j mod 8) \<or> (n \<le> j \<and> j < n + length vs \<and> vs ! (j - n))"
  using assms
proof (induction vs arbitrary: n buf)
  case Nil
  then show ?case by auto
next
  case (Cons v vs)
  have "start + n div 8 < length buf" using Cons.prems by simp
  then show ?case
    using Cons.prems Cons.IH [of "Suc n" "if v then or_bit start n buf else buf"]
    by (cases "j = n") (auto simp: bit_or_bit nth_Cons' Suc_le_eq)
qed

lemma set_bits_zeroed:
  "set_bits (length hdr) 0 vs (hdr @ replicate (div_ceil (length vs) 8) 0) = hdr @ packed_bits vs"
    (is "?lhs = _")
proof -
  let ?buf = "hdr @ replicate (div_ceil (length vs) 8) (0 :: u8)"
  have "drop (length hdr) ?lhs = packed_bits vs"
  proof (rule nth_equalityI)
    show "length (drop (length hdr) ?lhs) = length (packed_bits vs)" by simp
    fix k assume "k < length (drop (length hdr) ?lhs)"
    then have k: "k < div_ceil (length vs) 8" by simp
    show "drop (length hdr) ?lhs ! k = packed_bits vs ! k"
    proof (rule bit_word_eqI)
      fix b assume "b < LENGTH(8)"
      then have b: "b < 8" by simp
      with k have kb: "8 * k + b < 8 * div_ceil (length vs) 8" by linarith
      have "bit (?lhs ! (length hdr + k)) b \<longleftrightarrow> 8 * k + b < length vs \<and> vs ! (8 * k + b)"
        using bit_set_bits [of 0 vs ?buf "length hdr" "8 * k + b"] k b
          div_ceil_8_bounds(1) [of "length vs"]
        by simp
      then show "bit (drop (length hdr) ?lhs ! k) b = bit (packed_bits vs ! k) b"
        using bit_packed_bits [OF kb] b by simp
    qed
  qed
  moreover have "take (length hdr) ?lhs = hdr" by simp
  ultimately show ?thesis by (metis append_take_drop_id)
qed

end
