(* ===== verification/Pdu.thy ===== *)
theory Pdu
  imports Wire_Types Bit_Packing
begin

text \<open>
  The PDU codec of the \<open>protocol\<close> crate (\<open>protocol/src/pdu.rs\<close>), the one client and
  server run: an \<open>encode\<close> and a \<open>decode\<close> for every request and response, over growable
  byte vectors. Each \<open>impl\<close> of the source is a pair of definitions named
  \<open><Struct>_encode\<close> and \<open><Struct>_decode\<close>; the private helpers keep their names. The
  checks of a decoder stand in the source's order, so the first failing one decides the
  error; every slice access of the source is an access that can panic here.
\<close>

section \<open>Address and quantity\<close>

definition read_u16_be :: "bytes \<Rightarrow> nat \<Rightarrow> (u16, 'e) result" where
  "read_u16_be bs offset =
     and_then (index bs offset) (\<lambda>hi.
     and_then (index bs (offset + 1)) (\<lambda>lo.
     Ok (from_be_bytes hi lo)))"

text \<open>The check every decoder makes on the first byte.\<close>

definition check_function_code :: "u8 \<Rightarrow> bytes \<Rightarrow> (unit, DecodeError) result" where
  "check_function_code fc bs =
     and_then (index bs FUNCTION_CODE_BYTE) (\<lambda>actual.
     if actual \<noteq> fc then Err (UnexpectedFunctionCode fc actual) else Ok ())"

definition encode_address_and_quantity :: "u8 \<Rightarrow> u16 \<Rightarrow> u16 \<Rightarrow> bytes" where
  "encode_address_and_quantity fc address q = [fc] @ to_be_bytes address @ to_be_bytes q"

definition decode_address_and_quantity ::
    "bytes \<Rightarrow> u8 \<Rightarrow> (AddressAndQuantity, DecodeError) result" where
  "decode_address_and_quantity bs fc =
     (if length bs < TWO_FIELD_PDU_LEN then Err TooShort
      else and_then (check_function_code fc bs) (\<lambda>_.
      and_then (read_u16_be bs ADDRESS_FIELD_BYTE) (\<lambda>address.
      and_then (read_u16_be bs QUANTITY_OR_VALUE_FIELD_BYTE) (\<lambda>q.
      Ok \<lparr>AddressAndQuantity.starting_address = address, quantity = q\<rparr>))))"

definition ReadCoilsRequest_encode :: "ReadCoilsRequest \<Rightarrow> bytes" where
  "ReadCoilsRequest_encode r =
     encode_address_and_quantity FUNCTION_CODE_READ_COILS
       (ReadCoilsRequest.starting_address r) (ReadCoilsRequest.quantity r)"

definition ReadCoilsRequest_decode :: "bytes \<Rightarrow> (ReadCoilsRequest, DecodeError) result" where
  "ReadCoilsRequest_decode bs =
     and_then (decode_address_and_quantity bs FUNCTION_CODE_READ_COILS) (\<lambda>aq.
     Ok \<lparr>ReadCoilsRequest.starting_address = AddressAndQuantity.starting_address aq,
         quantity = AddressAndQuantity.quantity aq\<rparr>)"

definition ReadDiscreteInputsRequest_encode :: "ReadDiscreteInputsRequest \<Rightarrow> bytes" where
  "ReadDiscreteInputsRequest_encode r =
     encode_address_and_quantity FUNCTION_CODE_READ_DISCRETE_INPUTS
       (ReadDiscreteInputsRequest.starting_address r) (ReadDiscreteInputsRequest.quantity r)"

definition ReadDiscreteInputsRequest_decode ::
    "bytes \<Rightarrow> (ReadDiscreteInputsRequest, DecodeError) result" where
  "ReadDiscreteInputsRequest_decode bs =
     and_then (decode_address_and_quantity bs FUNCTION_CODE_READ_DISCRETE_INPUTS) (\<lambda>aq.
     Ok \<lparr>ReadDiscreteInputsRequest.starting_address = AddressAndQuantity.starting_address aq,
         quantity = AddressAndQuantity.quantity aq\<rparr>)"

definition ReadHoldingRegistersRequest_encode :: "ReadHoldingRegistersRequest \<Rightarrow> bytes" where
  "ReadHoldingRegistersRequest_encode r =
     encode_address_and_quantity FUNCTION_CODE_READ_HOLDING_REGISTERS
       (ReadHoldingRegistersRequest.starting_address r) (ReadHoldingRegistersRequest.quantity r)"

definition ReadHoldingRegistersRequest_decode ::
    "bytes \<Rightarrow> (ReadHoldingRegistersRequest, DecodeError) result" where
  "ReadHoldingRegistersRequest_decode bs =
     and_then (decode_address_and_quantity bs FUNCTION_CODE_READ_HOLDING_REGISTERS) (\<lambda>aq.
     Ok \<lparr>ReadHoldingRegistersRequest.starting_address = AddressAndQuantity.starting_address aq,
         quantity = AddressAndQuantity.quantity aq\<rparr>)"

definition ReadInputRegistersRequest_encode :: "ReadInputRegistersRequest \<Rightarrow> bytes" where
  "ReadInputRegistersRequest_encode r =
     encode_address_and_quantity FUNCTION_CODE_READ_INPUT_REGISTERS
       (ReadInputRegistersRequest.starting_address r) (ReadInputRegistersRequest.quantity r)"

definition ReadInputRegistersRequest_decode ::
    "bytes \<Rightarrow> (ReadInputRegistersRequest, DecodeError) result" where
  "ReadInputRegistersRequest_decode bs =
     and_then (decode_address_and_quantity bs FUNCTION_CODE_READ_INPUT_REGISTERS) (\<lambda>aq.
     Ok \<lparr>ReadInputRegistersRequest.starting_address = AddressAndQuantity.starting_address aq,
         quantity = AddressAndQuantity.quantity aq\<rparr>)"

section \<open>Packed bits\<close>

text \<open>\<open>packed\<close> is the \<open>&mut [u8]\<close> argument; the updated slice is returned.\<close>

definition pack_bit :: "bytes \<Rightarrow> nat \<Rightarrow> (bytes, 'e) result" where
  "pack_bit packed bit_index =
     and_then (index packed (bit_index div 8)) (\<lambda>byte.
     assign packed (bit_index div 8) (byte OR push_bit (bit_index mod 8) 1))"

definition unpack_bit :: "bytes \<Rightarrow> nat \<Rightarrow> (bool, 'e) result" where
  "unpack_bit packed bit_index =
     and_then (index packed (bit_index div 8)) (\<lambda>byte.
     Ok (byte AND push_bit (bit_index mod 8) 1 \<noteq> 0))"

text \<open>
  The \<open>for (bit_index, &value) in values.iter().enumerate()\<close> loop both bit encoders
  run, on the part of the buffer that starts at \<open>start\<close>.
\<close>

definition pack_bits_from :: "nat \<Rightarrow> bool list \<Rightarrow> bytes \<Rightarrow> (bytes, 'e) result" where
  "pack_bits_from start values buffer =
     for_each (\<lambda>(bit_index, v) buf.
         if v then and_then (pack_bit (drop start buf) bit_index) (\<lambda>tail. Ok (take start buf @ tail))
         else Ok buf)
       (enumerate 0 values) buffer"

text \<open>\<open>(0..n).map(|i| unpack_bit(packed, i)).collect()\<close>.\<close>

fun unpack_bits :: "bytes \<Rightarrow> nat list \<Rightarrow> (bool list, 'e) result" where
  "unpack_bits packed [] = Ok []"
| "unpack_bits packed (i # is) =
     and_then (unpack_bit packed i) (\<lambda>b.
     and_then (unpack_bits packed is) (\<lambda>bs. Ok (b # bs)))"

definition encode_bitfield_response :: "u8 \<Rightarrow> bool list \<Rightarrow> (bytes, 'e) result" where
  "encode_bitfield_response fc values =
     (let byte_count = div_ceil (length values) 8;
          buffer = replicate (RESPONSE_HEADER_LEN + byte_count) 0 in
      and_then (assign buffer FUNCTION_CODE_BYTE fc) (\<lambda>buffer.
      and_then (assign buffer BYTE_COUNT_BYTE (of_nat byte_count)) (\<lambda>buffer.
      pack_bits_from RESPONSE_DATA_START values buffer)))"

definition decode_bitfield_response :: "bytes \<Rightarrow> u8 \<Rightarrow> (bool list, DecodeError) result" where
  "decode_bitfield_response bs fc =
     (if length bs < RESPONSE_HEADER_LEN then Err TooShort
      else and_then (check_function_code fc bs) (\<lambda>_.
      and_then (index bs BYTE_COUNT_BYTE) (\<lambda>count_byte.
      let byte_count = unat count_byte in
      if length bs < RESPONSE_DATA_START + byte_count then Err TooShort
      else and_then (slice bs RESPONSE_DATA_START (RESPONSE_DATA_START + byte_count)) (\<lambda>packed.
      unpack_bits packed [0..<byte_count * 8]))))"

definition ReadCoilsResponse_encode :: "ReadCoilsResponse \<Rightarrow> (bytes, 'e) result" where
  "ReadCoilsResponse_encode r =
     encode_bitfield_response FUNCTION_CODE_READ_COILS (ReadCoilsResponse.coil_values r)"

definition ReadCoilsResponse_decode :: "bytes \<Rightarrow> (ReadCoilsResponse, DecodeError) result" where
  "ReadCoilsResponse_decode bs =
     and_then (decode_bitfield_response bs FUNCTION_CODE_READ_COILS) (\<lambda>vs.
     Ok \<lparr>ReadCoilsResponse.coil_values = vs\<rparr>)"

definition ReadDiscreteInputsResponse_encode ::
    "ReadDiscreteInputsResponse \<Rightarrow> (bytes, 'e) result" where
  "ReadDiscreteInputsResponse_encode r =
     encode_bitfield_response FUNCTION_CODE_READ_DISCRETE_INPUTS
       (ReadDiscreteInputsResponse.discrete_input_values r)"

definition ReadDiscreteInputsResponse_decode ::
    "bytes \<Rightarrow> (ReadDiscreteInputsResponse, DecodeError) result" where
  "ReadDiscreteInputsResponse_decode bs =
     and_then (decode_bitfield_response bs FUNCTION_CODE_READ_DISCRETE_INPUTS) (\<lambda>vs.
     Ok \<lparr>ReadDiscreteInputsResponse.discrete_input_values = vs\<rparr>)"

section \<open>Register arrays\<close>

definition encode_register_array_response :: "u8 \<Rightarrow> u16 list \<Rightarrow> bytes" where
  "encode_register_array_response fc values =
     [fc, of_nat (length values * 2)] @ concat (map to_be_bytes values)"

definition decode_register_array_response ::
    "bytes \<Rightarrow> u8 \<Rightarrow> (u16 list, DecodeError) result" where
  "decode_register_array_response bs fc =
     (if length bs < RESPONSE_HEADER_LEN then Err TooShort
      else and_then (check_function_code fc bs) (\<lambda>_.
      and_then (index bs BYTE_COUNT_BYTE) (\<lambda>byte_count.
      if odd (unat byte_count) then Err (OddByteCount byte_count)
      else if length bs < RESPONSE_DATA_START + unat byte_count then Err TooShort
      else and_then (slice bs RESPONSE_DATA_START (RESPONSE_DATA_START + unat byte_count))
        (\<lambda>payload. Ok (words_be payload)))))"

definition ReadHoldingRegistersResponse_encode :: "ReadHoldingRegistersResponse \<Rightarrow> bytes" where
  "ReadHoldingRegistersResponse_encode r =
     encode_register_array_response FUNCTION_CODE_READ_HOLDING_REGISTERS
       (ReadHoldingRegistersResponse.register_values r)"

definition ReadHoldingRegistersResponse_decode ::
    "bytes \<Rightarrow> (ReadHoldingRegistersResponse, DecodeError) result" where
  "ReadHoldingRegistersResponse_decode bs =
     and_then (decode_register_array_response bs FUNCTION_CODE_READ_HOLDING_REGISTERS) (\<lambda>vs.
     Ok \<lparr>ReadHoldingRegistersResponse.register_values = vs\<rparr>)"

definition ReadInputRegistersResponse_encode :: "ReadInputRegistersResponse \<Rightarrow> bytes" where
  "ReadInputRegistersResponse_encode r =
     encode_register_array_response FUNCTION_CODE_READ_INPUT_REGISTERS
       (ReadInputRegistersResponse.register_values r)"

definition ReadInputRegistersResponse_decode ::
    "bytes \<Rightarrow> (ReadInputRegistersResponse, DecodeError) result" where
  "ReadInputRegistersResponse_decode bs =
     and_then (decode_register_array_response bs FUNCTION_CODE_READ_INPUT_REGISTERS) (\<lambda>vs.
     Ok \<lparr>ReadInputRegistersResponse.register_values = vs\<rparr>)"

section \<open>Single writes\<close>

definition encode_write_single_coil :: "u16 \<Rightarrow> bool \<Rightarrow> bytes" where
  "encode_write_single_coil address v =
     encode_address_and_quantity FUNCTION_CODE_WRITE_SINGLE_COIL address
       (if v then COIL_VALUE_ON else COIL_VALUE_OFF)"

definition decode_write_single_coil :: "bytes \<Rightarrow> (u16 \<times> bool, DecodeError) result" where
  "decode_write_single_coil bs =
     and_then (decode_address_and_quantity bs FUNCTION_CODE_WRITE_SINGLE_COIL) (\<lambda>aq.
     let address = AddressAndQuantity.starting_address aq;
         wire_value = AddressAndQuantity.quantity aq in
     if wire_value = COIL_VALUE_ON then Ok (address, True)
     else if wire_value = COIL_VALUE_OFF then Ok (address, False)
     else Err (InvalidCoilValue wire_value))"

definition WriteSingleCoilRequest_encode :: "WriteSingleCoilRequest \<Rightarrow> bytes" where
  "WriteSingleCoilRequest_encode r =
     encode_write_single_coil (WriteSingleCoilRequest.coil_address r)
       (WriteSingleCoilRequest.coil_value r)"

definition WriteSingleCoilRequest_decode ::
    "bytes \<Rightarrow> (WriteSingleCoilRequest, DecodeError) result" where
  "WriteSingleCoilRequest_decode bs =
     and_then (decode_write_single_coil bs) (\<lambda>(address, v).
     Ok \<lparr>WriteSingleCoilRequest.coil_address = address, coil_value = v\<rparr>)"

definition WriteSingleCoilResponse_encode :: "WriteSingleCoilResponse \<Rightarrow> bytes" where
  "WriteSingleCoilResponse_encode r =
     encode_write_single_coil (WriteSingleCoilResponse.coil_address r)
       (WriteSingleCoilResponse.coil_value r)"

definition WriteSingleCoilResponse_decode ::
    "bytes \<Rightarrow> (WriteSingleCoilResponse, DecodeError) result" where
  "WriteSingleCoilResponse_decode bs =
     and_then (decode_write_single_coil bs) (\<lambda>(address, v).
     Ok \<lparr>WriteSingleCoilResponse.coil_address = address, coil_value = v\<rparr>)"

definition WriteSingleRegisterRequest_encode :: "WriteSingleRegisterRequest \<Rightarrow> bytes" where
  "WriteSingleRegisterRequest_encode r =
     encode_address_and_quantity FUNCTION_CODE_WRITE_SINGLE_REGISTER
       (WriteSingleRegisterRequest.register_address r)
       (WriteSingleRegisterRequest.register_value r)"

definition WriteSingleRegisterRequest_decode ::
    "bytes \<Rightarrow> (WriteSingleRegisterRequest, DecodeError) result" where
  "WriteSingleRegisterRequest_decode bs =
     and_then (decode_address_and_quantity bs FUNCTION_CODE_WRITE_SINGLE_REGISTER) (\<lambda>aq.
     Ok \<lparr>WriteSingleRegisterRequest.register_address = AddressAndQuantity.starting_address aq,
         register_value = AddressAndQuantity.quantity aq\<rparr>)"

definition WriteSingleRegisterResponse_encode :: "WriteSingleRegisterResponse \<Rightarrow> bytes" where
  "WriteSingleRegisterResponse_encode r =
     encode_address_and_quantity FUNCTION_CODE_WRITE_SINGLE_REGISTER
       (WriteSingleRegisterResponse.register_address r)
       (WriteSingleRegisterResponse.register_value r)"

definition WriteSingleRegisterResponse_decode ::
    "bytes \<Rightarrow> (WriteSingleRegisterResponse, DecodeError) result" where
  "WriteSingleRegisterResponse_decode bs =
     and_then (decode_address_and_quantity bs FUNCTION_CODE_WRITE_SINGLE_REGISTER) (\<lambda>aq.
     Ok \<lparr>WriteSingleRegisterResponse.register_address = AddressAndQuantity.starting_address aq,
         register_value = AddressAndQuantity.quantity aq\<rparr>)"

section \<open>Mask Write Register\<close>

definition encode_mask_write_register :: "u16 \<Rightarrow> u16 \<Rightarrow> u16 \<Rightarrow> bytes" where
  "encode_mask_write_register address am om =
     [FUNCTION_CODE_MASK_WRITE_REGISTER] @ to_be_bytes address @ to_be_bytes am @ to_be_bytes om"

definition decode_mask_write_register :: "bytes \<Rightarrow> (u16 \<times> u16 \<times> u16, DecodeError) result" where
  "decode_mask_write_register bs =
     (if length bs < MASK_WRITE_REGISTER_PDU_LEN then Err TooShort
      else and_then (check_function_code FUNCTION_CODE_MASK_WRITE_REGISTER bs) (\<lambda>_.
      and_then (read_u16_be bs ADDRESS_FIELD_BYTE) (\<lambda>address.
      and_then (read_u16_be bs QUANTITY_OR_VALUE_FIELD_BYTE) (\<lambda>am.
      and_then (read_u16_be bs OR_MASK_FIELD_BYTE) (\<lambda>om.
      Ok (address, am, om))))))"

definition MaskWriteRegisterRequest_encode :: "MaskWriteRegisterRequest \<Rightarrow> bytes" where
  "MaskWriteRegisterRequest_encode r =
     encode_mask_write_register (MaskWriteRegisterRequest.reference_address r)
       (MaskWriteRegisterRequest.and_mask r) (MaskWriteRegisterRequest.or_mask r)"

definition MaskWriteRegisterRequest_decode ::
    "bytes \<Rightarrow> (MaskWriteRegisterRequest, DecodeError) result" where
  "MaskWriteRegisterRequest_decode bs =
     and_then (decode_mask_write_register bs) (\<lambda>(address, am, om).
     Ok \<lparr>MaskWriteRegisterRequest.reference_address = address, and_mask = am, or_mask = om\<rparr>)"

definition MaskWriteRegisterResponse_encode :: "MaskWriteRegisterResponse \<Rightarrow> bytes" where
  "MaskWriteRegisterResponse_encode r =
     encode_mask_write_register (MaskWriteRegisterResponse.reference_address r)
       (MaskWriteRegisterResponse.and_mask r) (MaskWriteRegisterResponse.or_mask r)"

definition MaskWriteRegisterResponse_decode ::
    "bytes \<Rightarrow> (MaskWriteRegisterResponse, DecodeError) result" where
  "MaskWriteRegisterResponse_decode bs =
     and_then (decode_mask_write_register bs) (\<lambda>(address, am, om).
     Ok \<lparr>MaskWriteRegisterResponse.reference_address = address, and_mask = am, or_mask = om\<rparr>)"

section \<open>Report Server ID\<close>

definition ReportServerIdRequest_encode :: "ReportServerIdRequest \<Rightarrow> bytes" where
  "ReportServerIdRequest_encode r = [FUNCTION_CODE_REPORT_SERVER_ID]"

definition ReportServerIdRequest_decode ::
    "bytes \<Rightarrow> (ReportServerIdRequest, DecodeError) result" where
  "ReportServerIdRequest_decode bs =
     (case bs of
        [] \<Rightarrow> Err TooShort
      | fc # _ \<Rightarrow>
          if fc \<noteq> FUNCTION_CODE_REPORT_SERVER_ID
          then Err (UnexpectedFunctionCode FUNCTION_CODE_REPORT_SERVER_ID fc)
          else Ok ReportServerIdRequest)"

definition ReportServerIdResponse_encode :: "ReportServerIdResponse \<Rightarrow> bytes" where
  "ReportServerIdResponse_encode r =
     (let byte_count = length (ReportServerIdResponse.server_id r) + 1 in
      [FUNCTION_CODE_REPORT_SERVER_ID, of_nat byte_count] @ ReportServerIdResponse.server_id r
        @ [if ReportServerIdResponse.run_indicator_status r then RUN_INDICATOR_ON
           else RUN_INDICATOR_OFF])"

definition ReportServerIdResponse_decode ::
    "bytes \<Rightarrow> (ReportServerIdResponse, DecodeError) result" where
  "ReportServerIdResponse_decode bs =
     (if length bs < REPORT_SERVER_ID_RESPONSE_HEADER_LEN then Err TooShort
      else and_then (check_function_code FUNCTION_CODE_REPORT_SERVER_ID bs) (\<lambda>_.
      and_then (index bs REPORT_SERVER_ID_BYTE_COUNT_BYTE) (\<lambda>count_byte.
      let byte_count = unat count_byte in
      if byte_count = 0 then Err TooShort
      else if length bs < REPORT_SERVER_ID_DATA_START + byte_count then Err TooShort
      else let server_id_end = REPORT_SERVER_ID_DATA_START + byte_count - 1 in
      and_then (slice bs REPORT_SERVER_ID_DATA_START server_id_end) (\<lambda>sid.
      and_then (index bs server_id_end) (\<lambda>status.
      Ok \<lparr>ReportServerIdResponse.server_id = sid,
          run_indicator_status = (status \<noteq> RUN_INDICATOR_OFF)\<rparr>)))))"

section \<open>Read/Write Multiple Registers\<close>

definition MAX_READ_WRITE_MULTIPLE_REGISTERS_WRITE_COUNT :: nat where
  [simp]: "MAX_READ_WRITE_MULTIPLE_REGISTERS_WRITE_COUNT = 121"

definition ReadWriteMultipleRegistersRequest_encode ::
    "ReadWriteMultipleRegistersRequest \<Rightarrow> (bytes, EncodeError) result" where
  "ReadWriteMultipleRegistersRequest_encode r =
     (let values = ReadWriteMultipleRegistersRequest.write_values r in
      if length values > MAX_READ_WRITE_MULTIPLE_REGISTERS_WRITE_COUNT
      then Err (TooManyRegisters (length values) MAX_READ_WRITE_MULTIPLE_REGISTERS_WRITE_COUNT)
      else Ok ([FUNCTION_CODE_READ_WRITE_MULTIPLE_REGISTERS]
        @ to_be_bytes (ReadWriteMultipleRegistersRequest.read_starting_address r)
        @ to_be_bytes (ReadWriteMultipleRegistersRequest.read_quantity r)
        @ to_be_bytes (ReadWriteMultipleRegistersRequest.write_starting_address r)
        @ to_be_bytes (of_nat (length values))
        @ [of_nat (length values * 2)]
        @ concat (map to_be_bytes values)))"

definition ReadWriteMultipleRegistersRequest_decode ::
    "bytes \<Rightarrow> (ReadWriteMultipleRegistersRequest, DecodeError) result" where
  "ReadWriteMultipleRegistersRequest_decode bs =
     (if length bs < READ_WRITE_REQUEST_HEADER_LEN then Err TooShort
      else and_then (check_function_code FUNCTION_CODE_READ_WRITE_MULTIPLE_REGISTERS bs) (\<lambda>_.
      and_then (read_u16_be bs ADDRESS_FIELD_BYTE) (\<lambda>read_address.
      and_then (read_u16_be bs QUANTITY_OR_VALUE_FIELD_BYTE) (\<lambda>read_q.
      and_then (read_u16_be bs READ_WRITE_WRITE_STARTING_ADDRESS_BYTE) (\<lambda>write_address.
      and_then (index bs READ_WRITE_BYTE_COUNT_BYTE) (\<lambda>byte_count.
      if odd (unat byte_count) then Err (OddByteCount byte_count)
      else if length bs < READ_WRITE_VALUES_START + unat byte_count then Err TooShort
      else and_then (slice bs READ_WRITE_VALUES_START (READ_WRITE_VALUES_START + unat byte_count))
        (\<lambda>payload.
      Ok \<lparr>ReadWriteMultipleRegistersRequest.read_starting_address = read_address,
          read_quantity = read_q,
          write_starting_address = write_address,
          write_values = words_be payload\<rparr>)))))))"

definition ReadWriteMultipleRegistersResponse_encode ::
    "ReadWriteMultipleRegistersResponse \<Rightarrow> bytes" where
  "ReadWriteMultipleRegistersResponse_encode r =
     encode_register_array_response FUNCTION_CODE_READ_WRITE_MULTIPLE_REGISTERS
       (ReadWriteMultipleRegistersResponse.register_values r)"

definition ReadWriteMultipleRegistersResponse_decode ::
    "bytes \<Rightarrow> (ReadWriteMultipleRegistersResponse, DecodeError) result" where
  "ReadWriteMultipleRegistersResponse_decode bs =
     and_then (decode_register_array_response bs FUNCTION_CODE_READ_WRITE_MULTIPLE_REGISTERS)
       (\<lambda>vs. Ok \<lparr>ReadWriteMultipleRegistersResponse.register_values = vs\<rparr>)"

section \<open>Write Multiple Coils\<close>

definition WriteMultipleCoilsRequest_encode :: "WriteMultipleCoilsRequest \<Rightarrow> (bytes, 'e) result" where
  "WriteMultipleCoilsRequest_encode r =
     (let values = WriteMultipleCoilsRequest.coil_values r;
          byte_count = div_ceil (length values) 8;
          buffer = replicate (WRITE_MULTIPLE_REQUEST_HEADER_LEN + byte_count) 0 in
      and_then (assign buffer FUNCTION_CODE_BYTE FUNCTION_CODE_WRITE_MULTIPLE_COILS) (\<lambda>buffer.
      and_then (copy_from_slice buffer ADDRESS_FIELD_BYTE
        (to_be_bytes (WriteMultipleCoilsRequest.starting_address r))) (\<lambda>buffer.
      and_then (copy_from_slice buffer QUANTITY_OR_VALUE_FIELD_BYTE
        (to_be_bytes (of_nat (length values)))) (\<lambda>buffer.
      and_then (assign buffer WRITE_MULTIPLE_BYTE_COUNT_BYTE (of_nat byte_count)) (\<lambda>buffer.
      for_each (\<lambda>(i, v) buf.
          if v then
            and_then (index buf (WRITE_MULTIPLE_VALUES_START + i div 8)) (\<lambda>byte.
            assign buf (WRITE_MULTIPLE_VALUES_START + i div 8) (byte OR push_bit (i mod 8) 1))
          else Ok buf)
        (enumerate 0 values) buffer)))))"

definition WriteMultipleCoilsRequest_decode ::
    "bytes \<Rightarrow> (WriteMultipleCoilsRequest, DecodeError) result" where
  "WriteMultipleCoilsRequest_decode bs =
     (if length bs < WRITE_MULTIPLE_REQUEST_HEADER_LEN then Err TooShort
      else and_then (check_function_code FUNCTION_CODE_WRITE_MULTIPLE_COILS bs) (\<lambda>_.
      and_then (read_u16_be bs ADDRESS_FIELD_BYTE) (\<lambda>address.
      and_then (read_u16_be bs QUANTITY_OR_VALUE_FIELD_BYTE) (\<lambda>q.
      and_then (index bs WRITE_MULTIPLE_BYTE_COUNT_BYTE) (\<lambda>count_byte.
      if unat count_byte \<noteq> div_ceil (unat q) 8 then Err (QuantityByteCountMismatch q count_byte)
      else let byte_count = unat count_byte in
      if length bs < WRITE_MULTIPLE_VALUES_START + byte_count then Err TooShort
      else and_then (slice bs WRITE_MULTIPLE_VALUES_START (WRITE_MULTIPLE_VALUES_START + byte_count))
        (\<lambda>payload.
      Ok \<lparr>WriteMultipleCoilsRequest.starting_address = address,
          coil_values = take (unat q)
            (concat (map (\<lambda>byte. map (\<lambda>b. byte AND push_bit b 1 \<noteq> 0) [0..<8]) payload))\<rparr>))))))"

definition WriteMultipleCoilsResponse_encode :: "WriteMultipleCoilsResponse \<Rightarrow> bytes" where
  "WriteMultipleCoilsResponse_encode r =
     encode_address_and_quantity FUNCTION_CODE_WRITE_MULTIPLE_COILS
       (WriteMultipleCoilsResponse.starting_address r) (WriteMultipleCoilsResponse.quantity r)"

definition WriteMultipleCoilsResponse_decode ::
    "bytes \<Rightarrow> (WriteMultipleCoilsResponse, DecodeError) result" where
  "WriteMultipleCoilsResponse_decode bs =
     and_then (decode_address_and_quantity bs FUNCTION_CODE_WRITE_MULTIPLE_COILS) (\<lambda>aq.
     Ok \<lparr>WriteMultipleCoilsResponse.starting_address = AddressAndQuantity.starting_address aq,
         quantity = AddressAndQuantity.quantity aq\<rparr>)"

section \<open>Write Multiple Registers\<close>

definition MAX_WRITE_MULTIPLE_REGISTERS_COUNT :: nat where
  [simp]: "MAX_WRITE_MULTIPLE_REGISTERS_COUNT = 123"

definition WriteMultipleRegistersRequest_encode ::
    "WriteMultipleRegistersRequest \<Rightarrow> (bytes, EncodeError) result" where
  "WriteMultipleRegistersRequest_encode r =
     (let values = WriteMultipleRegistersRequest.register_values r in
      if length values > MAX_WRITE_MULTIPLE_REGISTERS_COUNT
      then Err (TooManyRegisters (length values) MAX_WRITE_MULTIPLE_REGISTERS_COUNT)
      else Ok ([FUNCTION_CODE_WRITE_MULTIPLE_REGISTERS]
        @ to_be_bytes (WriteMultipleRegistersRequest.starting_address r)
        @ to_be_bytes (of_nat (length values))
        @ [of_nat (length values * 2)]
        @ concat (map to_be_bytes values)))"

definition WriteMultipleRegistersRequest_decode ::
    "bytes \<Rightarrow> (WriteMultipleRegistersRequest, DecodeError) result" where
  "WriteMultipleRegistersRequest_decode bs =
     (if length bs < WRITE_MULTIPLE_REQUEST_HEADER_LEN then Err TooShort
      else and_then (check_function_code FUNCTION_CODE_WRITE_MULTIPLE_REGISTERS bs) (\<lambda>_.
      and_then (read_u16_be bs ADDRESS_FIELD_BYTE) (\<lambda>address.
      and_then (index bs WRITE_MULTIPLE_BYTE_COUNT_BYTE) (\<lambda>byte_count.
      if odd (unat byte_count) then Err (OddByteCount byte_count)
      else if length bs < WRITE_MULTIPLE_VALUES_START + unat byte_count then Err TooShort
      else and_then (slice bs WRITE_MULTIPLE_VALUES_START
          (WRITE_MULTIPLE_VALUES_START + unat byte_count)) (\<lambda>payload.
      Ok \<lparr>WriteMultipleRegistersRequest.starting_address = address,
          register_values = words_be payload\<rparr>)))))"

definition WriteMultipleRegistersResponse_encode :: "WriteMultipleRegistersResponse \<Rightarrow> bytes" where
  "WriteMultipleRegistersResponse_encode r =
     encode_address_and_quantity FUNCTION_CODE_WRITE_MULTIPLE_REGISTERS
       (WriteMultipleRegistersResponse.starting_address r)
       (WriteMultipleRegistersResponse.quantity r)"

definition WriteMultipleRegistersResponse_decode ::
    "bytes \<Rightarrow> (WriteMultipleRegistersResponse, DecodeError) result" where
  "WriteMultipleRegistersResponse_decode bs =
     and_then (decode_address_and_quantity bs FUNCTION_CODE_WRITE_MULTIPLE_REGISTERS) (\<lambda>aq.
     Ok \<lparr>WriteMultipleRegistersResponse.starting_address = AddressAndQuantity.starting_address aq,
         quantity = AddressAndQuantity.quantity aq\<rparr>)"

section \<open>Read Device Identification\<close>

definition ReadDeviceIdentificationRequest_encode :: "ReadDeviceIdentificationRequest \<Rightarrow> bytes" where
  "ReadDeviceIdentificationRequest_encode r =
     [FUNCTION_CODE_ENCAPSULATED_INTERFACE_TRANSPORT,
      MEI_TYPE_READ_DEVICE_IDENTIFICATION,
      ReadDeviceIdentificationRequest.read_device_id_code r,
      ReadDeviceIdentificationRequest.object_id r]"

text \<open>The check both decoders of this function code make on the MEI type.\<close>

definition check_mei_type :: "bytes \<Rightarrow> (unit, DecodeError) result" where
  "check_mei_type bs =
     and_then (index bs MEI_TYPE_BYTE) (\<lambda>actual.
     if actual \<noteq> MEI_TYPE_READ_DEVICE_IDENTIFICATION
     then Err (UnexpectedMeiType MEI_TYPE_READ_DEVICE_IDENTIFICATION actual) else Ok ())"

definition ReadDeviceIdentificationRequest_decode ::
    "bytes \<Rightarrow> (ReadDeviceIdentificationRequest, DecodeError) result" where
  "ReadDeviceIdentificationRequest_decode bs =
     (if length bs < READ_DEVICE_IDENTIFICATION_REQUEST_LEN then Err TooShort
      else and_then (check_function_code FUNCTION_CODE_ENCAPSULATED_INTERFACE_TRANSPORT bs) (\<lambda>_.
      and_then (check_mei_type bs) (\<lambda>_.
      and_then (index bs READ_DEVICE_ID_CODE_BYTE) (\<lambda>code.
      and_then (index bs REQUEST_OBJECT_ID_BYTE) (\<lambda>oid.
      Ok \<lparr>ReadDeviceIdentificationRequest.read_device_id_code = code, object_id = oid\<rparr>)))))"

definition encode_object :: "DeviceIdentificationObject \<Rightarrow> bytes" where
  "encode_object obj =
     [DeviceIdentificationObject.id_byte obj,
      of_nat (length (DeviceIdentificationObject.object_value obj))]
       @ DeviceIdentificationObject.object_value obj"

definition ReadDeviceIdentificationResponse_encode ::
    "ReadDeviceIdentificationResponse \<Rightarrow> bytes" where
  "ReadDeviceIdentificationResponse_encode r =
     [FUNCTION_CODE_ENCAPSULATED_INTERFACE_TRANSPORT,
      MEI_TYPE_READ_DEVICE_IDENTIFICATION,
      ReadDeviceIdentificationResponse.read_device_id_code r,
      ReadDeviceIdentificationResponse.conformity_level r,
      (if ReadDeviceIdentificationResponse.more_follows r then MORE_FOLLOWS_YES else MORE_FOLLOWS_NO),
      ReadDeviceIdentificationResponse.next_object_id r,
      of_nat (length (ReadDeviceIdentificationResponse.objects r))]
       @ concat (map encode_object (ReadDeviceIdentificationResponse.objects r))"

text \<open>
  The \<open>for _ in 0..number_of_objects\<close> loop; the last argument is the \<open>objects\<close> vector
  built so far.
\<close>

fun decode_objects ::
    "bytes \<Rightarrow> nat \<Rightarrow> nat \<Rightarrow> DeviceIdentificationObject list
       \<Rightarrow> (DeviceIdentificationObject list, DecodeError) result" where
  "decode_objects bs 0 offset objs = Ok objs"
| "decode_objects bs (Suc n) offset objs =
     (if length bs < offset + 2 then Err TooShort
      else and_then (index bs offset) (\<lambda>oid.
      and_then (index bs (offset + 1)) (\<lambda>length_byte.
      let value_start = offset + 2; len = unat length_byte in
      if length bs < value_start + len then Err TooShort
      else and_then (slice bs value_start (value_start + len)) (\<lambda>v.
      decode_objects bs n (value_start + len)
        (objs @ [\<lparr>DeviceIdentificationObject.id_byte = oid, object_value = v\<rparr>])))))"

definition ReadDeviceIdentificationResponse_decode ::
    "bytes \<Rightarrow> (ReadDeviceIdentificationResponse, DecodeError) result" where
  "ReadDeviceIdentificationResponse_decode bs =
     (if length bs < READ_DEVICE_IDENTIFICATION_RESPONSE_HEADER_LEN then Err TooShort
      else and_then (check_function_code FUNCTION_CODE_ENCAPSULATED_INTERFACE_TRANSPORT bs) (\<lambda>_.
      and_then (check_mei_type bs) (\<lambda>_.
      and_then (index bs READ_DEVICE_ID_CODE_BYTE) (\<lambda>code.
      and_then (index bs CONFORMITY_LEVEL_BYTE) (\<lambda>level.
      and_then (index bs MORE_FOLLOWS_BYTE) (\<lambda>more.
      and_then (index bs NEXT_OBJECT_ID_BYTE) (\<lambda>next_id.
      and_then (index bs NUMBER_OF_OBJECTS_BYTE) (\<lambda>number_of_objects.
      and_then (decode_objects bs (unat number_of_objects) RESPONSE_OBJECTS_START []) (\<lambda>objs.
      Ok \<lparr>ReadDeviceIdentificationResponse.read_device_id_code = code,
          conformity_level = level,
          more_follows = (more \<noteq> MORE_FOLLOWS_NO),
          next_object_id = next_id,
          objects = objs\<rparr>)))))))))"

section \<open>Read File Record\<close>

definition encode_file_record_sub_request :: "FileRecordSubRequest \<Rightarrow> bytes" where
  "encode_file_record_sub_request sr =
     [FILE_RECORD_REFERENCE_TYPE] @ to_be_bytes (FileRecordSubRequest.file_number sr)
       @ to_be_bytes (FileRecordSubRequest.record_number sr)
       @ to_be_bytes (FileRecordSubRequest.record_length sr)"

definition ReadFileRecordRequest_encode :: "ReadFileRecordRequest \<Rightarrow> bytes" where
  "ReadFileRecordRequest_encode r =
     [FUNCTION_CODE_READ_FILE_RECORD,
      of_nat (length (ReadFileRecordRequest.sub_requests r) * FILE_RECORD_SUB_REQUEST_LEN)]
       @ concat (map encode_file_record_sub_request (ReadFileRecordRequest.sub_requests r))"

text \<open>The \<open>for _ in 0..sub_request_count\<close> loop.\<close>

fun decode_sub_requests ::
    "bytes \<Rightarrow> nat \<Rightarrow> nat \<Rightarrow> FileRecordSubRequest list
       \<Rightarrow> (FileRecordSubRequest list, DecodeError) result" where
  "decode_sub_requests bs 0 offset srs = Ok srs"
| "decode_sub_requests bs (Suc n) offset srs =
     and_then (index bs offset) (\<lambda>reference_type.
     if reference_type \<noteq> FILE_RECORD_REFERENCE_TYPE
     then Err (InvalidFileRecordReferenceType reference_type)
     else and_then (read_u16_be bs (offset + 1)) (\<lambda>f.
     and_then (read_u16_be bs (offset + 3)) (\<lambda>rn.
     and_then (read_u16_be bs (offset + 5)) (\<lambda>rl.
     decode_sub_requests bs n (offset + FILE_RECORD_SUB_REQUEST_LEN)
       (srs @ [\<lparr>FileRecordSubRequest.file_number = f, record_number = rn, record_length = rl\<rparr>])))))"

definition ReadFileRecordRequest_decode :: "bytes \<Rightarrow> (ReadFileRecordRequest, DecodeError) result" where
  "ReadFileRecordRequest_decode bs =
     (if length bs < RESPONSE_DATA_START then Err TooShort
      else and_then (check_function_code FUNCTION_CODE_READ_FILE_RECORD bs) (\<lambda>_.
      and_then (index bs BYTE_COUNT_BYTE) (\<lambda>byte_count.
      if byte_count = 0 \<or> unat byte_count mod FILE_RECORD_SUB_REQUEST_LEN \<noteq> 0
      then Err (InvalidFileRecordByteCount byte_count)
      else if length bs < RESPONSE_DATA_START + unat byte_count then Err TooShort
      else and_then (decode_sub_requests bs (unat byte_count div FILE_RECORD_SUB_REQUEST_LEN)
             RESPONSE_DATA_START []) (\<lambda>srs.
      Ok \<lparr>ReadFileRecordRequest.sub_requests = srs\<rparr>))))"

definition encode_file_record :: "bytes \<Rightarrow> bytes" where
  "encode_file_record rec = [of_nat (1 + length rec), FILE_RECORD_REFERENCE_TYPE] @ rec"

definition ReadFileRecordResponse_encode :: "ReadFileRecordResponse \<Rightarrow> bytes" where
  "ReadFileRecordResponse_encode r =
     (let data_len = sum_list (map (\<lambda>rec. 2 + length rec) (ReadFileRecordResponse.records r)) in
      [FUNCTION_CODE_READ_FILE_RECORD, of_nat data_len]
        @ concat (map encode_file_record (ReadFileRecordResponse.records r)))"

text \<open>
  The \<open>while offset < end\<close> loop. The subtraction \<open>sub_response_length as usize - 1\<close>
  is reached with a length of at least one only.
\<close>

function decode_file_records ::
    "bytes \<Rightarrow> nat \<Rightarrow> nat \<Rightarrow> bytes list \<Rightarrow> (bytes list, DecodeError) result" where
  "decode_file_records bs end_offset offset recs =
     (if offset < end_offset then
        if length bs < offset + 1 then Err TooShort
        else and_then (index bs offset) (\<lambda>sub_response_length.
        if sub_response_length = 0 then Err (InvalidFileRecordSubResponseLength sub_response_length)
        else let reference_type_offset = offset + 1 in
        if length bs < reference_type_offset + 1 then Err TooShort
        else and_then (index bs reference_type_offset) (\<lambda>reference_type.
        if reference_type \<noteq> FILE_RECORD_REFERENCE_TYPE
        then Err (InvalidFileRecordReferenceType reference_type)
        else let data_start = reference_type_offset + 1; data_len = unat sub_response_length - 1 in
        if length bs < data_start + data_len then Err TooShort
        else and_then (slice bs data_start (data_start + data_len)) (\<lambda>rec.
        decode_file_records bs end_offset (data_start + data_len) (recs @ [rec]))))
      else Ok recs)"
  by pat_completeness auto
termination
  by (relation "measure (\<lambda>(bs, end_offset, offset, recs). end_offset - offset)") auto

definition ReadFileRecordResponse_decode ::
    "bytes \<Rightarrow> (ReadFileRecordResponse, DecodeError) result" where
  "ReadFileRecordResponse_decode bs =
     (if length bs < RESPONSE_DATA_START then Err TooShort
      else and_then (check_function_code FUNCTION_CODE_READ_FILE_RECORD bs) (\<lambda>_.
      and_then (index bs BYTE_COUNT_BYTE) (\<lambda>count_byte.
      let byte_count = unat count_byte in
      if length bs < RESPONSE_DATA_START + byte_count then Err TooShort
      else and_then (decode_file_records bs (RESPONSE_DATA_START + byte_count) RESPONSE_DATA_START [])
        (\<lambda>recs. Ok \<lparr>ReadFileRecordResponse.records = recs\<rparr>))))"

section \<open>Write File Record\<close>

text \<open>The loop that rejects record data of odd length.\<close>

fun check_even_record_data :: "WriteFileRecordSubRequest list \<Rightarrow> (unit, EncodeError) result" where
  "check_even_record_data [] = Ok ()"
| "check_even_record_data (sr # srs) =
     (if length (WriteFileRecordSubRequest.record_data sr) mod 2 \<noteq> 0
      then Err (OddFileRecordDataLength (WriteFileRecordSubRequest.file_number sr)
                  (WriteFileRecordSubRequest.record_number sr)
                  (length (WriteFileRecordSubRequest.record_data sr)))
      else check_even_record_data srs)"

definition encode_write_sub_request :: "WriteFileRecordSubRequest \<Rightarrow> bytes" where
  "encode_write_sub_request sr =
     [FILE_RECORD_REFERENCE_TYPE] @ to_be_bytes (WriteFileRecordSubRequest.file_number sr)
       @ to_be_bytes (WriteFileRecordSubRequest.record_number sr)
       @ to_be_bytes (of_nat (length (WriteFileRecordSubRequest.record_data sr) div 2))
       @ WriteFileRecordSubRequest.record_data sr"

definition encode_write_file_record ::
    "u8 \<Rightarrow> WriteFileRecordSubRequest list \<Rightarrow> (bytes, EncodeError) result" where
  "encode_write_file_record fc srs =
     and_then (check_even_record_data srs) (\<lambda>_.
     let data_len = sum_list (map (\<lambda>sr. FILE_RECORD_SUB_REQUEST_LEN
                                + length (WriteFileRecordSubRequest.record_data sr)) srs) in
     Ok ([fc, of_nat data_len] @ concat (map encode_write_sub_request srs)))"

text \<open>The \<open>while offset < end\<close> loop.\<close>

function decode_write_sub_requests ::
    "bytes \<Rightarrow> nat \<Rightarrow> nat \<Rightarrow> WriteFileRecordSubRequest list
       \<Rightarrow> (WriteFileRecordSubRequest list, DecodeError) result" where
  "decode_write_sub_requests bs end_offset offset srs =
     (if offset < end_offset then
        if length bs < offset + FILE_RECORD_SUB_REQUEST_LEN then Err TooShort
        else and_then (index bs offset) (\<lambda>reference_type.
        if reference_type \<noteq> FILE_RECORD_REFERENCE_TYPE
        then Err (InvalidFileRecordReferenceType reference_type)
        else and_then (read_u16_be bs (offset + 1)) (\<lambda>f.
        and_then (read_u16_be bs (offset + 3)) (\<lambda>rn.
        and_then (read_u16_be bs (offset + 5)) (\<lambda>rl.
        let data_start = offset + FILE_RECORD_SUB_REQUEST_LEN; data_len = unat rl * 2 in
        if length bs < data_start + data_len then Err TooShort
        else and_then (slice bs data_start (data_start + data_len)) (\<lambda>d.
        decode_write_sub_requests bs end_offset (data_start + data_len)
          (srs @ [\<lparr>WriteFileRecordSubRequest.file_number = f, record_number = rn,
                   record_data = d\<rparr>]))))))
      else Ok srs)"
  by pat_completeness auto
termination
  by (relation "measure (\<lambda>(bs, end_offset, offset, srs). end_offset - offset)") auto

definition decode_write_file_record ::
    "bytes \<Rightarrow> u8 \<Rightarrow> (WriteFileRecordSubRequest list, DecodeError) result" where
  "decode_write_file_record bs fc =
     (if length bs < RESPONSE_DATA_START then Err TooShort
      else and_then (check_function_code fc bs) (\<lambda>_.
      and_then (index bs BYTE_COUNT_BYTE) (\<lambda>count_byte.
      let byte_count = unat count_byte in
      if length bs < RESPONSE_DATA_START + byte_count then Err TooShort
      else decode_write_sub_requests bs (RESPONSE_DATA_START + byte_count) RESPONSE_DATA_START [])))"

definition WriteFileRecordRequest_encode ::
    "WriteFileRecordRequest \<Rightarrow> (bytes, EncodeError) result" where
  "WriteFileRecordRequest_encode r =
     encode_write_file_record FUNCTION_CODE_WRITE_FILE_RECORD (WriteFileRecordRequest.sub_requests r)"

definition WriteFileRecordRequest_decode ::
    "bytes \<Rightarrow> (WriteFileRecordRequest, DecodeError) result" where
  "WriteFileRecordRequest_decode bs =
     and_then (decode_write_file_record bs FUNCTION_CODE_WRITE_FILE_RECORD) (\<lambda>srs.
     Ok \<lparr>WriteFileRecordRequest.sub_requests = srs\<rparr>)"

definition WriteFileRecordResponse_encode ::
    "WriteFileRecordResponse \<Rightarrow> (bytes, EncodeError) result" where
  "WriteFileRecordResponse_encode r =
     encode_write_file_record FUNCTION_CODE_WRITE_FILE_RECORD (WriteFileRecordResponse.sub_requests r)"

definition WriteFileRecordResponse_decode ::
    "bytes \<Rightarrow> (WriteFileRecordResponse, DecodeError) result" where
  "WriteFileRecordResponse_decode bs =
     and_then (decode_write_file_record bs FUNCTION_CODE_WRITE_FILE_RECORD) (\<lambda>srs.
     Ok \<lparr>WriteFileRecordResponse.sub_requests = srs\<rparr>)"

section \<open>Exceptions\<close>

definition ExceptionResponse_encode :: "ExceptionResponse \<Rightarrow> bytes" where
  "ExceptionResponse_encode r =
     [ExceptionResponse.function_code r OR EXCEPTION_RESPONSE_FUNCTION_CODE_BIT,
      ExceptionResponse.exception_code r]"

definition ExceptionResponse_decode :: "bytes \<Rightarrow> (ExceptionResponse, DecodeError) result" where
  "ExceptionResponse_decode bs =
     (if length bs < EXCEPTION_RESPONSE_LEN then Err TooShort
      else and_then (index bs FUNCTION_CODE_BYTE) (\<lambda>raw_function_code.
      if raw_function_code AND EXCEPTION_RESPONSE_FUNCTION_CODE_BIT = 0
      then Err (NotAnExceptionResponse raw_function_code)
      else and_then (index bs EXCEPTION_CODE_BYTE) (\<lambda>code.
      Ok \<lparr>ExceptionResponse.function_code =
            raw_function_code AND NOT EXCEPTION_RESPONSE_FUNCTION_CODE_BIT,
          exception_code = code\<rparr>)))"

text \<open>The definitions the evaluation of a codec unfolds.\<close>

lemmas [wire_defs] =
  read_u16_be_def check_function_code_def encode_address_and_quantity_def
  decode_address_and_quantity_def encode_bitfield_response_def decode_bitfield_response_def
  encode_register_array_response_def decode_register_array_response_def
  encode_write_single_coil_def decode_write_single_coil_def encode_mask_write_register_def
  decode_mask_write_register_def ReportServerIdRequest_encode_def
  ReportServerIdRequest_decode_def ReportServerIdResponse_encode_def
  ReportServerIdResponse_decode_def ReadWriteMultipleRegistersRequest_encode_def
  ReadWriteMultipleRegistersRequest_decode_def WriteMultipleCoilsRequest_encode_def
  WriteMultipleCoilsRequest_decode_def WriteMultipleRegistersRequest_encode_def
  WriteMultipleRegistersRequest_decode_def ReadDeviceIdentificationRequest_encode_def
  check_mei_type_def ReadDeviceIdentificationRequest_decode_def encode_object_def
  ReadDeviceIdentificationResponse_encode_def ReadDeviceIdentificationResponse_decode_def
  encode_file_record_sub_request_def ReadFileRecordRequest_encode_def
  ReadFileRecordRequest_decode_def encode_file_record_def ReadFileRecordResponse_encode_def
  ReadFileRecordResponse_decode_def encode_write_sub_request_def encode_write_file_record_def
  decode_write_file_record_def ExceptionResponse_encode_def ExceptionResponse_decode_def

lemmas [pdu_defs] =
  ReadCoilsRequest_encode_def ReadCoilsRequest_decode_def ReadDiscreteInputsRequest_encode_def
  ReadDiscreteInputsRequest_decode_def ReadHoldingRegistersRequest_encode_def
  ReadHoldingRegistersRequest_decode_def ReadInputRegistersRequest_encode_def
  ReadInputRegistersRequest_decode_def ReadCoilsResponse_encode_def ReadCoilsResponse_decode_def
  ReadDiscreteInputsResponse_encode_def ReadDiscreteInputsResponse_decode_def
  ReadHoldingRegistersResponse_encode_def ReadHoldingRegistersResponse_decode_def
  ReadInputRegistersResponse_encode_def ReadInputRegistersResponse_decode_def
  WriteSingleCoilRequest_encode_def WriteSingleCoilRequest_decode_def
  WriteSingleCoilResponse_encode_def WriteSingleCoilResponse_decode_def
  WriteSingleRegisterRequest_encode_def WriteSingleRegisterRequest_decode_def
  WriteSingleRegisterResponse_encode_def WriteSingleRegisterResponse_decode_def
  MaskWriteRegisterRequest_encode_def MaskWriteRegisterRequest_decode_def
  MaskWriteRegisterResponse_encode_def MaskWriteRegisterResponse_decode_def
  ReadWriteMultipleRegistersResponse_encode_def ReadWriteMultipleRegistersResponse_decode_def
  WriteMultipleCoilsResponse_encode_def WriteMultipleCoilsResponse_decode_def
  WriteMultipleRegistersResponse_encode_def WriteMultipleRegistersResponse_decode_def
  WriteFileRecordRequest_encode_def WriteFileRecordRequest_decode_def
  WriteFileRecordResponse_encode_def WriteFileRecordResponse_decode_def

declare decode_file_records.simps [simp del] decode_write_sub_requests.simps [simp del]

end
