(* ===== verification/Codec.thy ===== *)
theory Codec
  imports Prelude
begin

text \<open>
  The contract between a PDU codec and the layers that carry its bytes. A codec has an
  encoder, a decoder and the set of values that fit the wire format. The laws: a value
  that fits is encoded, its bytes decode back to it whatever follows them, and the
  decoder never panics, whatever bytes it is given. The lemmas below hold for every codec
  that meets the contract; \<open>Pdu_Codec\<close> discharges it for each PDU of the protocol.
\<close>

locale wire_codec =
  fixes encode :: "'p \<Rightarrow> (bytes, 'e) result"
    and decode :: "bytes \<Rightarrow> ('p, 'd) result"
    and valid :: "'p \<Rightarrow> bool"
  assumes encode_valid: "valid p \<Longrightarrow> \<exists>bs. encode p = Ok bs"
    and decode_encode: "valid p \<Longrightarrow> encode p = Ok bs \<Longrightarrow> decode (bs @ rest) = Ok p"
    and decode_total: "decode bs \<noteq> Panic"
begin

lemma round_trip: "valid p \<Longrightarrow> \<exists>bs. encode p = Ok bs \<and> decode bs = Ok p"
  using encode_valid [of p] decode_encode [of p _ "[]"] by auto

lemma encode_inject: "valid p \<Longrightarrow> valid q \<Longrightarrow> encode p = encode q \<Longrightarrow> p = q"
  by (metis round_trip result.inject(1))

text \<open>No encoding of one value is a prefix of an encoding of another.\<close>

lemma self_delimiting:
  assumes "valid p" "valid q" and "encode p = Ok bs" "encode q = Ok cs" and "bs @ r = cs @ s"
  shows "p = q"
  using assms decode_encode [of p bs r] decode_encode [of q cs s] by simp

lemma decode_answers: "(\<exists>p. decode bs = Ok p) \<or> (\<exists>e. decode bs = Err e)"
  using decode_total [of bs] by (cases "decode bs") auto

end

end
