(* ===== verification/Pdu_Codec.thy ===== *)
theory Pdu_Codec
  imports Pdu Codec
begin

text \<open>
  Correctness of the \<open>protocol\<close> crate's PDU codec: no decoder panics on any input, the bit
  packing loops compute the reference packing, and every PDU decodes back from its own
  encoding, also when other bytes follow it. Each codec is an interpretation of
  \<open>wire_codec\<close>; the predicate handed to it says which values fit the wire format.
\<close>

section \<open>Decoders never panic\<close>

lemma decode_objects_not_Panic: "decode_objects bs n offset objs \<noteq> Panic"
  by (induction bs n offset objs rule: decode_objects.induct) (simp_all add: Let_def)

lemma decode_file_records_not_Panic: "decode_file_records bs e offset recs \<noteq> Panic"
  by (induction bs e offset recs rule: decode_file_records.induct)
     (subst decode_file_records.simps, simp add: Let_def)

lemma decode_write_sub_requests_not_Panic: "decode_write_sub_requests bs e offset srs \<noteq> Panic"
  by (induction bs e offset srs rule: decode_write_sub_requests.induct)
     (subst decode_write_sub_requests.simps, simp add: Let_def read_u16_be_def)

lemma decode_sub_requests_not_Panic:
  "offset + 7 * n \<le> length bs \<Longrightarrow> decode_sub_requests bs n offset srs \<noteq> Panic"
  by (induction bs n offset srs rule: decode_sub_requests.induct) (simp_all add: read_u16_be_def)

lemma unpack_bit_ok: "i < 8 * length packed \<Longrightarrow> unpack_bit packed i = Ok (bits_of packed ! i)"
  by (simp add: unpack_bit_def nth_bits_of and_exp_eq_0_iff_not_bit less_mult_imp_div_less
      mult.commute)

lemma unpack_bits_ok: "\<forall>i \<in> set is. i < 8 * length packed \<Longrightarrow>
  unpack_bits packed is = Ok (map (nth (bits_of packed)) is)"
  by (induction "is") (simp_all add: unpack_bit_ok)

lemma unpack_bits_all: "unpack_bits packed [0..<8 * length packed] = Ok (bits_of packed)"
  by (simp add: unpack_bits_ok) (metis length_bits_of map_nth)

section \<open>Bit packing loops\<close>

lemma pack_loop:
  assumes body: "\<And>i v buf. start + i div 8 < length buf \<Longrightarrow>
      body (i, v) buf = Ok (if v then or_bit start i buf else buf)"
    and "n + length vs \<le> 8 * (length buf - start)" and "start \<le> length buf"
  shows "for_each body (enumerate n vs) buf = Ok (set_bits start n vs buf)"
  using assms(2,3)
proof (induction vs arbitrary: n buf)
  case Nil
  then show ?case by simp
next
  case (Cons v vs)
  then have "start + n div 8 < length buf" by simp
  with Cons show ?case by (simp add: body)
qed

lemma pack_bits_from_ok:
  assumes "length vs \<le> 8 * (length buf - start)" and "start \<le> length buf"
  shows "pack_bits_from start vs buf = Ok (set_bits start 0 vs buf)"
  unfolding pack_bits_from_def
proof (rule pack_loop)
  fix i v and buf :: bytes
  assume "start + i div 8 < length buf"
  then show "(case (i, v) of (bit_index, v) \<Rightarrow> \<lambda>buf.
       if v then and_then (pack_bit (drop start buf) bit_index) (\<lambda>tail. Ok (take start buf @ tail))
       else Ok buf) buf = Ok (if v then or_bit start i buf else buf)"
    by (simp add: pack_bit_def or_bit_def upd_conv_take_nth_drop take_add add.commute)
qed (use assms in simp_all)

lemma encode_bitfield_response_eq:
  "encode_bitfield_response fc vs = Ok ([fc, of_nat (div_ceil (length vs) 8)] @ packed_bits vs)"
proof -
  let ?hdr = "[fc, of_nat (div_ceil (length vs) 8)] :: bytes"
  have hdr: "length ?hdr = 2" by simp
  have "encode_bitfield_response fc vs =
      pack_bits_from 2 vs (?hdr @ replicate (div_ceil (length vs) 8) 0)"
    by (simp add: encode_bitfield_response_def Let_def)
  also have "\<dots> = Ok (?hdr @ packed_bits vs)"
    using set_bits_zeroed [of ?hdr vs] div_ceil_8_bounds(1) [of "length vs"]
    unfolding hdr by (simp add: pack_bits_from_ok)
  finally show ?thesis by simp
qed

lemma WriteMultipleCoilsRequest_encode_eq:
  "WriteMultipleCoilsRequest_encode r =
     (let vs = WriteMultipleCoilsRequest.coil_values r in
      Ok ([FUNCTION_CODE_WRITE_MULTIPLE_COILS]
        @ to_be_bytes (WriteMultipleCoilsRequest.starting_address r)
        @ to_be_bytes (of_nat (length vs))
        @ [of_nat (div_ceil (length vs) 8)] @ packed_bits vs))"
proof -
  let ?vs = "WriteMultipleCoilsRequest.coil_values r"
  let ?hdr = "[FUNCTION_CODE_WRITE_MULTIPLE_COILS]
        @ to_be_bytes (WriteMultipleCoilsRequest.starting_address r)
        @ to_be_bytes (of_nat (length ?vs)) @ [of_nat (div_ceil (length ?vs) 8)] :: bytes"
  have hdr: "length ?hdr = 6" by simp
  have six: "replicate (6 + n) (0::u8) = 0 # 0 # 0 # 0 # 0 # 0 # replicate n 0" for n
    by (simp add: eval_nat_numeral)
  have "WriteMultipleCoilsRequest_encode r =
     for_each (\<lambda>(i, v) buf.
          if v then
            and_then (index buf (6 + i div 8)) (\<lambda>byte.
            assign buf (6 + i div 8) (byte OR push_bit (i mod 8) 1))
          else Ok buf)
        (enumerate 0 ?vs) (?hdr @ replicate (div_ceil (length ?vs) 8) 0)"
    by (simp add: WriteMultipleCoilsRequest_encode_def Let_def to_be_bytes_def six
        WRITE_MULTIPLE_VALUES_START_def [abs_def] cong: if_cong)
  also have "\<dots> = Ok (set_bits 6 0 ?vs (?hdr @ replicate (div_ceil (length ?vs) 8) 0))"
    using div_ceil_8_bounds(1) [of "length ?vs"]
    by (intro pack_loop) (simp_all add: or_bit_def)
  finally show ?thesis
    using set_bits_zeroed [of ?hdr ?vs] unfolding hdr by (simp add: Let_def)
qed

section \<open>Totality of every decoder\<close>

lemma decode_bitfield_response_not_Panic: "decode_bitfield_response bs fc \<noteq> Panic"
  by (simp add: wire_defs Let_def unpack_bits_ok)

lemma ReadFileRecordRequest_decode_not_Panic: "ReadFileRecordRequest_decode bs \<noteq> Panic"
proof -
  have "decode_sub_requests bs (unat (bs ! 1) div 7) 2 [] \<noteq> Panic"
    if "2 + unat (bs ! 1) \<le> length bs" 
    by (rule decode_sub_requests_not_Panic) (use that in linarith)
  then show ?thesis
    by (auto simp: wire_defs and_then_eq_Panic_iff not_less)
qed

lemma leaf_decoders_not_Panic:
  "decode_address_and_quantity bs fc \<noteq> Panic"
  "decode_register_array_response bs fc \<noteq> Panic"
  "decode_write_single_coil bs \<noteq> Panic"
  "decode_mask_write_register bs \<noteq> Panic"
  "decode_write_file_record bs fc \<noteq> Panic"
  "ReportServerIdRequest_decode bs \<noteq> Panic"
  "ReportServerIdResponse_decode bs \<noteq> Panic"
  "ReadWriteMultipleRegistersRequest_decode bs \<noteq> Panic"
  "WriteMultipleCoilsRequest_decode bs \<noteq> Panic"
  "WriteMultipleRegistersRequest_decode bs \<noteq> Panic"
  "ReadDeviceIdentificationRequest_decode bs \<noteq> Panic"
  "ReadDeviceIdentificationResponse_decode bs \<noteq> Panic"
  "ReadFileRecordResponse_decode bs \<noteq> Panic"
  "ExceptionResponse_decode bs \<noteq> Panic"
  by (simp_all add: wire_defs Let_def and_then_eq_Panic_iff decode_objects_not_Panic
      decode_file_records_not_Panic decode_write_sub_requests_not_Panic split: list.splits)

lemmas decoder_totality = decode_bitfield_response_not_Panic
  ReadFileRecordRequest_decode_not_Panic leaf_decoders_not_Panic

lemma pdu_decoders_not_Panic:
  "ReadCoilsRequest_decode bs \<noteq> Panic"
  "ReadCoilsResponse_decode bs \<noteq> Panic"
  "ReadDiscreteInputsRequest_decode bs \<noteq> Panic"
  "ReadDiscreteInputsResponse_decode bs \<noteq> Panic"
  "ReadHoldingRegistersRequest_decode bs \<noteq> Panic"
  "ReadHoldingRegistersResponse_decode bs \<noteq> Panic"
  "ReadInputRegistersRequest_decode bs \<noteq> Panic"
  "ReadInputRegistersResponse_decode bs \<noteq> Panic"
  "WriteSingleCoilRequest_decode bs \<noteq> Panic"
  "WriteSingleCoilResponse_decode bs \<noteq> Panic"
  "WriteSingleRegisterRequest_decode bs \<noteq> Panic"
  "WriteSingleRegisterResponse_decode bs \<noteq> Panic"
  "MaskWriteRegisterRequest_decode bs \<noteq> Panic"
  "MaskWriteRegisterResponse_decode bs \<noteq> Panic"
  "ReadWriteMultipleRegistersResponse_decode bs \<noteq> Panic"
  "WriteMultipleCoilsResponse_decode bs \<noteq> Panic"
  "WriteMultipleRegistersResponse_decode bs \<noteq> Panic"
  "WriteFileRecordRequest_decode bs \<noteq> Panic"
  "WriteFileRecordResponse_decode bs \<noteq> Panic"
  by (simp_all add: pdu_defs decoder_totality and_then_eq_Panic_iff split_def)

text \<open>
  C16: no decoder of the PDU codec panics. Whatever bytes a peer sends, every slice access of
  every \<open>decode\<close> is in range: each decoder answers with a value or with a decode error.
\<close>

theorem decoders_never_panic:
  "ReadCoilsRequest_decode bs \<noteq> Panic \<and> ReadCoilsResponse_decode bs \<noteq> Panic
   \<and> ReadDiscreteInputsRequest_decode bs \<noteq> Panic \<and> ReadDiscreteInputsResponse_decode bs \<noteq> Panic
   \<and> ReadHoldingRegistersRequest_decode bs \<noteq> Panic \<and> ReadHoldingRegistersResponse_decode bs \<noteq> Panic
   \<and> ReadInputRegistersRequest_decode bs \<noteq> Panic \<and> ReadInputRegistersResponse_decode bs \<noteq> Panic
   \<and> WriteSingleCoilRequest_decode bs \<noteq> Panic \<and> WriteSingleCoilResponse_decode bs \<noteq> Panic
   \<and> WriteSingleRegisterRequest_decode bs \<noteq> Panic \<and> WriteSingleRegisterResponse_decode bs \<noteq> Panic
   \<and> MaskWriteRegisterRequest_decode bs \<noteq> Panic \<and> MaskWriteRegisterResponse_decode bs \<noteq> Panic
   \<and> ReportServerIdRequest_decode bs \<noteq> Panic \<and> ReportServerIdResponse_decode bs \<noteq> Panic
   \<and> ReadWriteMultipleRegistersRequest_decode bs \<noteq> Panic
   \<and> ReadWriteMultipleRegistersResponse_decode bs \<noteq> Panic
   \<and> WriteMultipleCoilsRequest_decode bs \<noteq> Panic \<and> WriteMultipleCoilsResponse_decode bs \<noteq> Panic
   \<and> WriteMultipleRegistersRequest_decode bs \<noteq> Panic \<and> WriteMultipleRegistersResponse_decode bs \<noteq> Panic
   \<and> ReadDeviceIdentificationRequest_decode bs \<noteq> Panic
   \<and> ReadDeviceIdentificationResponse_decode bs \<noteq> Panic
   \<and> ReadFileRecordRequest_decode bs \<noteq> Panic \<and> ReadFileRecordResponse_decode bs \<noteq> Panic
   \<and> WriteFileRecordRequest_decode bs \<noteq> Panic \<and> WriteFileRecordResponse_decode bs \<noteq> Panic
   \<and> ExceptionResponse_decode bs \<noteq> Panic"
  by (simp add: pdu_decoders_not_Panic decoder_totality)

section \<open>Round trips\<close>

subsection \<open>Fixed-size PDUs\<close>

lemma fixed_size_decode_encode:
  "ReadCoilsRequest_decode (ReadCoilsRequest_encode r0 @ rest) = Ok r0"
  "ReadDiscreteInputsRequest_decode (ReadDiscreteInputsRequest_encode r1 @ rest) = Ok r1"
  "ReadHoldingRegistersRequest_decode (ReadHoldingRegistersRequest_encode r2 @ rest) = Ok r2"
  "ReadInputRegistersRequest_decode (ReadInputRegistersRequest_encode r3 @ rest) = Ok r3"
  "WriteSingleCoilRequest_decode (WriteSingleCoilRequest_encode r4 @ rest) = Ok r4"
  "WriteSingleCoilResponse_decode (WriteSingleCoilResponse_encode r5 @ rest) = Ok r5"
  "WriteSingleRegisterRequest_decode (WriteSingleRegisterRequest_encode r6 @ rest) = Ok r6"
  "WriteSingleRegisterResponse_decode (WriteSingleRegisterResponse_encode r7 @ rest) = Ok r7"
  "MaskWriteRegisterRequest_decode (MaskWriteRegisterRequest_encode r8 @ rest) = Ok r8"
  "MaskWriteRegisterResponse_decode (MaskWriteRegisterResponse_encode r9 @ rest) = Ok r9"
  "WriteMultipleCoilsResponse_decode (WriteMultipleCoilsResponse_encode r10 @ rest) = Ok r10"
  "WriteMultipleRegistersResponse_decode (WriteMultipleRegistersResponse_encode r11 @ rest) = Ok r11"
  "ReportServerIdRequest_decode (ReportServerIdRequest_encode r12 @ rest) = Ok r12"
  "ReadDeviceIdentificationRequest_decode (ReadDeviceIdentificationRequest_encode r13 @ rest) = Ok r13"
  by (simp_all add: pdu_defs wire_defs to_be_bytes_def)
     (cases r12; simp)

text \<open>
  the fixed-size PDUs. Each of these requests and responses decodes back from its own
  encoding, also when other bytes follow it in the buffer.
\<close>

theorem fixed_size_pdus_round_trip:
  "ReadCoilsRequest_decode (ReadCoilsRequest_encode a @ rest) = Ok a
   \<and> ReadDiscreteInputsRequest_decode (ReadDiscreteInputsRequest_encode b @ rest) = Ok b
   \<and> ReadHoldingRegistersRequest_decode (ReadHoldingRegistersRequest_encode c @ rest) = Ok c
   \<and> ReadInputRegistersRequest_decode (ReadInputRegistersRequest_encode d @ rest) = Ok d
   \<and> WriteSingleCoilRequest_decode (WriteSingleCoilRequest_encode e @ rest) = Ok e
   \<and> WriteSingleCoilResponse_decode (WriteSingleCoilResponse_encode f @ rest) = Ok f
   \<and> WriteSingleRegisterRequest_decode (WriteSingleRegisterRequest_encode g @ rest) = Ok g
   \<and> WriteSingleRegisterResponse_decode (WriteSingleRegisterResponse_encode h @ rest) = Ok h
   \<and> MaskWriteRegisterRequest_decode (MaskWriteRegisterRequest_encode i @ rest) = Ok i
   \<and> MaskWriteRegisterResponse_decode (MaskWriteRegisterResponse_encode j @ rest) = Ok j
   \<and> WriteMultipleCoilsResponse_decode (WriteMultipleCoilsResponse_encode k @ rest) = Ok k
   \<and> WriteMultipleRegistersResponse_decode (WriteMultipleRegistersResponse_encode l @ rest) = Ok l
   \<and> ReportServerIdRequest_decode (ReportServerIdRequest_encode m @ rest) = Ok m
   \<and> ReadDeviceIdentificationRequest_decode (ReadDeviceIdentificationRequest_encode n @ rest) = Ok n"
  by (simp add: fixed_size_decode_encode)

interpretation ReadCoilsRequest_codec: wire_codec
    "\<lambda>r. Ok (ReadCoilsRequest_encode r)" ReadCoilsRequest_decode "\<lambda>_. True"
  by unfold_locales (auto simp: fixed_size_decode_encode pdu_decoders_not_Panic decoder_totality)

interpretation ReadDiscreteInputsRequest_codec: wire_codec
    "\<lambda>r. Ok (ReadDiscreteInputsRequest_encode r)" ReadDiscreteInputsRequest_decode "\<lambda>_. True"
  by unfold_locales (auto simp: fixed_size_decode_encode pdu_decoders_not_Panic decoder_totality)

interpretation ReadHoldingRegistersRequest_codec: wire_codec
    "\<lambda>r. Ok (ReadHoldingRegistersRequest_encode r)" ReadHoldingRegistersRequest_decode "\<lambda>_. True"
  by unfold_locales (auto simp: fixed_size_decode_encode pdu_decoders_not_Panic decoder_totality)

interpretation ReadInputRegistersRequest_codec: wire_codec
    "\<lambda>r. Ok (ReadInputRegistersRequest_encode r)" ReadInputRegistersRequest_decode "\<lambda>_. True"
  by unfold_locales (auto simp: fixed_size_decode_encode pdu_decoders_not_Panic decoder_totality)

interpretation WriteSingleCoilRequest_codec: wire_codec
    "\<lambda>r. Ok (WriteSingleCoilRequest_encode r)" WriteSingleCoilRequest_decode "\<lambda>_. True"
  by unfold_locales (auto simp: fixed_size_decode_encode pdu_decoders_not_Panic decoder_totality)

interpretation WriteSingleCoilResponse_codec: wire_codec
    "\<lambda>r. Ok (WriteSingleCoilResponse_encode r)" WriteSingleCoilResponse_decode "\<lambda>_. True"
  by unfold_locales (auto simp: fixed_size_decode_encode pdu_decoders_not_Panic decoder_totality)

interpretation WriteSingleRegisterRequest_codec: wire_codec
    "\<lambda>r. Ok (WriteSingleRegisterRequest_encode r)" WriteSingleRegisterRequest_decode "\<lambda>_. True"
  by unfold_locales (auto simp: fixed_size_decode_encode pdu_decoders_not_Panic decoder_totality)

interpretation WriteSingleRegisterResponse_codec: wire_codec
    "\<lambda>r. Ok (WriteSingleRegisterResponse_encode r)" WriteSingleRegisterResponse_decode "\<lambda>_. True"
  by unfold_locales (auto simp: fixed_size_decode_encode pdu_decoders_not_Panic decoder_totality)

interpretation MaskWriteRegisterRequest_codec: wire_codec
    "\<lambda>r. Ok (MaskWriteRegisterRequest_encode r)" MaskWriteRegisterRequest_decode "\<lambda>_. True"
  by unfold_locales (auto simp: fixed_size_decode_encode pdu_decoders_not_Panic decoder_totality)

interpretation MaskWriteRegisterResponse_codec: wire_codec
    "\<lambda>r. Ok (MaskWriteRegisterResponse_encode r)" MaskWriteRegisterResponse_decode "\<lambda>_. True"
  by unfold_locales (auto simp: fixed_size_decode_encode pdu_decoders_not_Panic decoder_totality)

interpretation WriteMultipleCoilsResponse_codec: wire_codec
    "\<lambda>r. Ok (WriteMultipleCoilsResponse_encode r)" WriteMultipleCoilsResponse_decode "\<lambda>_. True"
  by unfold_locales (auto simp: fixed_size_decode_encode pdu_decoders_not_Panic decoder_totality)

interpretation WriteMultipleRegistersResponse_codec: wire_codec
    "\<lambda>r. Ok (WriteMultipleRegistersResponse_encode r)" WriteMultipleRegistersResponse_decode "\<lambda>_. True"
  by unfold_locales (auto simp: fixed_size_decode_encode pdu_decoders_not_Panic decoder_totality)

interpretation ReportServerIdRequest_codec: wire_codec
    "\<lambda>r. Ok (ReportServerIdRequest_encode r)" ReportServerIdRequest_decode "\<lambda>_. True"
  by unfold_locales (auto simp: fixed_size_decode_encode pdu_decoders_not_Panic decoder_totality)

interpretation ReadDeviceIdentificationRequest_codec: wire_codec
    "\<lambda>r. Ok (ReadDeviceIdentificationRequest_encode r)" ReadDeviceIdentificationRequest_decode "\<lambda>_. True"
  by unfold_locales (auto simp: fixed_size_decode_encode pdu_decoders_not_Panic decoder_totality)

subsection \<open>Packed bits\<close>

lemma decode_bitfield_response_packed:
  assumes "length vs \<le> 2040"
  shows "decode_bitfield_response ([fc, of_nat (div_ceil (length vs) 8)] @ packed_bits vs @ rest) fc
    = Ok (vs @ replicate (8 * div_ceil (length vs) 8 - length vs) False)"
proof -
  have "div_ceil (length vs) 8 < 256" using div_ceil_8_le [of "length vs" 255] assms by simp
  then show ?thesis
    using unpack_bits_all [of "packed_bits vs"]
    by (simp add: decode_bitfield_response_def check_function_code_def Let_def bits_of_packed_bits
        mult.commute)
qed

lemma decode_bitfield_response_exact:
  assumes "8 dvd length vs" and "length vs \<le> 2040"
    and "encode_bitfield_response fc vs = Ok bs"
  shows "decode_bitfield_response (bs @ rest) fc = Ok vs"
proof -
  have "8 * div_ceil (length vs) 8 = length vs" using assms(1) by (auto simp: dvd_def)
  with assms(3) decode_bitfield_response_packed [OF assms(2), of fc rest] show ?thesis
    by (auto simp: encode_bitfield_response_eq)
qed

text \<open>
  bit responses. The encoder of Read Coils and Read Discrete Inputs never fails, and for
  up to 2040 values the decoder returns exactly the values sent, followed by the zero bits that
  pad the last byte.
\<close>

theorem bit_responses_round_trip:
  assumes "length vs \<le> 2040"
  shows "\<exists>bs cs. ReadCoilsResponse_encode \<lparr>ReadCoilsResponse.coil_values = vs\<rparr> = Ok bs
     \<and> ReadDiscreteInputsResponse_encode \<lparr>ReadDiscreteInputsResponse.discrete_input_values = vs\<rparr> = Ok cs
     \<and> ReadCoilsResponse_decode (bs @ rest) = Ok \<lparr>ReadCoilsResponse.coil_values =
          vs @ replicate (8 * div_ceil (length vs) 8 - length vs) False\<rparr>
     \<and> ReadDiscreteInputsResponse_decode (cs @ rest) = Ok \<lparr>ReadDiscreteInputsResponse.discrete_input_values =
          vs @ replicate (8 * div_ceil (length vs) 8 - length vs) False\<rparr>"
  using decode_bitfield_response_packed [OF assms]
  by (simp add: pdu_defs encode_bitfield_response_eq)

theorem bit_responses_round_trip_witness:
  "\<exists>bs. ReadCoilsResponse_encode \<lparr>ReadCoilsResponse.coil_values = [True, False, True]\<rparr> = Ok bs
     \<and> ReadCoilsResponse_decode bs = Ok \<lparr>ReadCoilsResponse.coil_values =
          [True, False, True] @ replicate 5 False\<rparr>"
proof -
  have "8 * div_ceil (length [True, False, True]) 8 - length [True, False, True] = 5"
    by (simp add: div_ceil_def)
  then show ?thesis using bit_responses_round_trip [of "[True, False, True]" "[]"] by auto
qed

lemma ReadCoilsResponse_decode_encode:
  assumes "8 dvd length (ReadCoilsResponse.coil_values r)"
    and "length (ReadCoilsResponse.coil_values r) \<le> 2040"
    and "ReadCoilsResponse_encode r = Ok bs"
  shows "ReadCoilsResponse_decode (bs @ rest) = Ok r"
  using decode_bitfield_response_exact [OF assms(1,2) assms(3) [unfolded ReadCoilsResponse_encode_def]]
  by (simp add: ReadCoilsResponse_decode_def)

lemma ReadDiscreteInputsResponse_decode_encode:
  assumes "8 dvd length (ReadDiscreteInputsResponse.discrete_input_values r)"
    and "length (ReadDiscreteInputsResponse.discrete_input_values r) \<le> 2040"
    and "ReadDiscreteInputsResponse_encode r = Ok bs"
  shows "ReadDiscreteInputsResponse_decode (bs @ rest) = Ok r"
  using decode_bitfield_response_exact [OF assms(1,2) assms(3) [unfolded ReadDiscreteInputsResponse_encode_def]]
  by (simp add: ReadDiscreteInputsResponse_decode_def)

interpretation ReadCoilsResponse_codec: wire_codec ReadCoilsResponse_encode ReadCoilsResponse_decode
    "\<lambda>r. 8 dvd length (ReadCoilsResponse.coil_values r)
       \<and> length (ReadCoilsResponse.coil_values r) \<le> 2040"
  by unfold_locales
     (simp_all add: ReadCoilsResponse_decode_encode pdu_decoders_not_Panic,
      simp add: pdu_defs encode_bitfield_response_eq)

interpretation ReadDiscreteInputsResponse_codec: wire_codec
    ReadDiscreteInputsResponse_encode ReadDiscreteInputsResponse_decode
    "\<lambda>r. 8 dvd length (ReadDiscreteInputsResponse.discrete_input_values r)
       \<and> length (ReadDiscreteInputsResponse.discrete_input_values r) \<le> 2040"
  by unfold_locales
     (simp_all add: ReadDiscreteInputsResponse_decode_encode pdu_decoders_not_Panic,
      simp add: pdu_defs encode_bitfield_response_eq)

lemma WriteMultipleCoilsRequest_decode_encode:
  assumes "length (WriteMultipleCoilsRequest.coil_values r) \<le> 2040"
    and "WriteMultipleCoilsRequest_encode r = Ok bs"
  shows "WriteMultipleCoilsRequest_decode (bs @ rest) = Ok r"
proof -
  let ?vs = "WriteMultipleCoilsRequest.coil_values r"
  have "div_ceil (length ?vs) 8 < 256" using div_ceil_8_le [of "length ?vs" 255] assms(1) by simp
  moreover have "concat (map (\<lambda>byte. map (\<lambda>b. byte AND push_bit b 1 \<noteq> 0) [0..<8]) p) = bits_of p"
    for p :: bytes
    by (simp add: bits_of_def and_exp_eq_0_iff_not_bit)
  ultimately show ?thesis
    using assms
    by (auto simp: WriteMultipleCoilsRequest_encode_eq WriteMultipleCoilsRequest_decode_def
        check_function_code_def read_u16_be_def Let_def to_be_bytes_def bits_of_packed_bits)
qed

lemma WriteMultipleCoilsRequest_encode_ok:
  "\<exists>bs. WriteMultipleCoilsRequest_encode r = Ok bs
     \<and> length bs = 6 + div_ceil (length (WriteMultipleCoilsRequest.coil_values r)) 8"
  by (simp add: WriteMultipleCoilsRequest_encode_eq Let_def)

text \<open>
  Write Multiple Coils. The encoder never fails, and for up to 2040 coils the decoder
  recovers the address and exactly the coils sent: the quantity field, not the padded byte
  count, decides how many bits are read.
\<close>

theorem write_multiple_coils_round_trip:
  assumes "length (WriteMultipleCoilsRequest.coil_values r) \<le> 2040"
  shows "\<exists>bs. WriteMultipleCoilsRequest_encode r = Ok bs
     \<and> length bs = 6 + div_ceil (length (WriteMultipleCoilsRequest.coil_values r)) 8
     \<and> WriteMultipleCoilsRequest_decode (bs @ rest) = Ok r"
  using WriteMultipleCoilsRequest_encode_ok [of r] WriteMultipleCoilsRequest_decode_encode [OF assms]
  by blast

theorem write_multiple_coils_round_trip_witness:
  "\<exists>bs. WriteMultipleCoilsRequest_encode
       \<lparr>WriteMultipleCoilsRequest.starting_address = 19, coil_values = replicate 10 True\<rparr> = Ok bs
     \<and> length bs = 8
     \<and> WriteMultipleCoilsRequest_decode (bs @ [7]) =
         Ok \<lparr>WriteMultipleCoilsRequest.starting_address = 19, coil_values = replicate 10 True\<rparr>"
  using write_multiple_coils_round_trip [of
      "\<lparr>WriteMultipleCoilsRequest.starting_address = 19, coil_values = replicate 10 True\<rparr>" "[7]"]
  by (simp add: div_ceil_def)

interpretation WriteMultipleCoilsRequest_codec: wire_codec
    WriteMultipleCoilsRequest_encode WriteMultipleCoilsRequest_decode
    "\<lambda>r. length (WriteMultipleCoilsRequest.coil_values r) \<le> 2040"
  using WriteMultipleCoilsRequest_encode_ok
  by unfold_locales (blast, simp_all add: WriteMultipleCoilsRequest_decode_encode decoder_totality)

subsection \<open>Register arrays\<close>

lemma decode_encode_register_array:
  "length vs \<le> 127 \<Longrightarrow>
     decode_register_array_response (encode_register_array_response fc vs @ rest) fc = Ok vs"
  by (simp add: wire_defs flip: bytes_be_def)

text \<open>
  register responses. The responses of Read Holding Registers, Read Input Registers and
  Read/Write Multiple Registers decode back from their encoding for up to 127 registers, the
  most the one-byte count can carry.
\<close>

theorem register_responses_round_trip:
  assumes "length vs \<le> 127"
  shows "ReadHoldingRegistersResponse_decode
      (ReadHoldingRegistersResponse_encode \<lparr>ReadHoldingRegistersResponse.register_values = vs\<rparr> @ rest)
        = Ok \<lparr>ReadHoldingRegistersResponse.register_values = vs\<rparr>
    \<and> ReadInputRegistersResponse_decode
      (ReadInputRegistersResponse_encode \<lparr>ReadInputRegistersResponse.register_values = vs\<rparr> @ rest)
        = Ok \<lparr>ReadInputRegistersResponse.register_values = vs\<rparr>
    \<and> ReadWriteMultipleRegistersResponse_decode
      (ReadWriteMultipleRegistersResponse_encode
         \<lparr>ReadWriteMultipleRegistersResponse.register_values = vs\<rparr> @ rest)
        = Ok \<lparr>ReadWriteMultipleRegistersResponse.register_values = vs\<rparr>"
  using assms by (simp add: pdu_defs decode_encode_register_array)

theorem register_responses_round_trip_witness:
  "ReadHoldingRegistersResponse_decode
     (ReadHoldingRegistersResponse_encode \<lparr>ReadHoldingRegistersResponse.register_values = [1, 0xABCD]\<rparr>)
       = Ok \<lparr>ReadHoldingRegistersResponse.register_values = [1, 0xABCD]\<rparr>"
  using register_responses_round_trip [of "[1, 0xABCD]" "[]"] by simp

interpretation ReadHoldingRegistersResponse_codec: wire_codec
    "\<lambda>r. Ok (ReadHoldingRegistersResponse_encode r)" ReadHoldingRegistersResponse_decode
    "\<lambda>r. length (ReadHoldingRegistersResponse.register_values r) \<le> 127"
  by unfold_locales
     (auto simp: pdu_defs decode_encode_register_array decoder_totality and_then_eq_Panic_iff)

interpretation ReadInputRegistersResponse_codec: wire_codec
    "\<lambda>r. Ok (ReadInputRegistersResponse_encode r)" ReadInputRegistersResponse_decode
    "\<lambda>r. length (ReadInputRegistersResponse.register_values r) \<le> 127"
  by unfold_locales
     (auto simp: pdu_defs decode_encode_register_array decoder_totality and_then_eq_Panic_iff)

interpretation ReadWriteMultipleRegistersResponse_codec: wire_codec
    "\<lambda>r. Ok (ReadWriteMultipleRegistersResponse_encode r)" ReadWriteMultipleRegistersResponse_decode
    "\<lambda>r. length (ReadWriteMultipleRegistersResponse.register_values r) \<le> 127"
  by unfold_locales
     (auto simp: pdu_defs decode_encode_register_array decoder_totality and_then_eq_Panic_iff)

lemma ReadWriteMultipleRegistersRequest_decode_encode:
  "ReadWriteMultipleRegistersRequest_encode r = Ok bs \<Longrightarrow>
     ReadWriteMultipleRegistersRequest_decode (bs @ rest) = Ok r"
  by (auto simp: wire_defs Let_def to_be_bytes_def split: if_splits simp flip: bytes_be_def)

lemma WriteMultipleRegistersRequest_decode_encode:
  "WriteMultipleRegistersRequest_encode r = Ok bs \<Longrightarrow>
     WriteMultipleRegistersRequest_decode (bs @ rest) = Ok r"
  by (auto simp: wire_defs Let_def to_be_bytes_def split: if_splits simp flip: bytes_be_def)

lemma WriteMultipleRegistersRequest_encode_cases:
  "case WriteMultipleRegistersRequest_encode w of
     Ok bs \<Rightarrow> length (WriteMultipleRegistersRequest.register_values w) \<le> 123 \<and> length bs \<le> 253
   | Err e \<Rightarrow> length (WriteMultipleRegistersRequest.register_values w) > 123
       \<and> e = TooManyRegisters (length (WriteMultipleRegistersRequest.register_values w)) 123
   | Panic \<Rightarrow> False"
  by (simp add: WriteMultipleRegistersRequest_encode_def Let_def flip: bytes_be_def)

lemma ReadWriteMultipleRegistersRequest_encode_cases:
  "case ReadWriteMultipleRegistersRequest_encode rw of
     Ok bs \<Rightarrow> length (ReadWriteMultipleRegistersRequest.write_values rw) \<le> 121 \<and> length bs \<le> 253
   | Err e \<Rightarrow> length (ReadWriteMultipleRegistersRequest.write_values rw) > 121
       \<and> e = TooManyRegisters (length (ReadWriteMultipleRegistersRequest.write_values rw)) 121
   | Panic \<Rightarrow> False"
  by (simp add: ReadWriteMultipleRegistersRequest_encode_def Let_def flip: bytes_be_def)

text \<open>
  multi-register writes. Write Multiple Registers and Read/Write Multiple Registers encode
  exactly the requests with at most 123 and 121 values and refuse longer ones with the count
  and the limit; what is encoded fits the 253 bytes of a PDU and decodes back to the request.
\<close>

theorem multi_register_writes_round_trip:
  "(case WriteMultipleRegistersRequest_encode w of
     Ok bs \<Rightarrow> length (WriteMultipleRegistersRequest.register_values w) \<le> 123 \<and> length bs \<le> 253
       \<and> WriteMultipleRegistersRequest_decode (bs @ rest) = Ok w
   | Err e \<Rightarrow> length (WriteMultipleRegistersRequest.register_values w) > 123
       \<and> e = TooManyRegisters (length (WriteMultipleRegistersRequest.register_values w)) 123
   | Panic \<Rightarrow> False)
   \<and> (case ReadWriteMultipleRegistersRequest_encode rw of
     Ok bs \<Rightarrow> length (ReadWriteMultipleRegistersRequest.write_values rw) \<le> 121 \<and> length bs \<le> 253
       \<and> ReadWriteMultipleRegistersRequest_decode (bs @ rest) = Ok rw
   | Err e \<Rightarrow> length (ReadWriteMultipleRegistersRequest.write_values rw) > 121
       \<and> e = TooManyRegisters (length (ReadWriteMultipleRegistersRequest.write_values rw)) 121
   | Panic \<Rightarrow> False)"
  using WriteMultipleRegistersRequest_encode_cases [of w]
    ReadWriteMultipleRegistersRequest_encode_cases [of rw]
    WriteMultipleRegistersRequest_decode_encode [of w _ rest]
    ReadWriteMultipleRegistersRequest_decode_encode [of rw _ rest]
  by (simp split: result.splits)

interpretation WriteMultipleRegistersRequest_codec: wire_codec
    WriteMultipleRegistersRequest_encode WriteMultipleRegistersRequest_decode
    "\<lambda>r. length (WriteMultipleRegistersRequest.register_values r) \<le> 123"
  by unfold_locales
     (simp_all add: WriteMultipleRegistersRequest_decode_encode decoder_totality,
      simp add: WriteMultipleRegistersRequest_encode_def Let_def)

interpretation ReadWriteMultipleRegistersRequest_codec: wire_codec
    ReadWriteMultipleRegistersRequest_encode ReadWriteMultipleRegistersRequest_decode
    "\<lambda>r. length (ReadWriteMultipleRegistersRequest.write_values r) \<le> 121"
  by unfold_locales
     (simp_all add: ReadWriteMultipleRegistersRequest_decode_encode decoder_totality,
      simp add: ReadWriteMultipleRegistersRequest_encode_def Let_def)

subsection \<open>Report Server ID and exceptions\<close>

lemma ReportServerIdResponse_decode_encode:
  "length (ReportServerIdResponse.server_id r) < 255 \<Longrightarrow>
     ReportServerIdResponse_decode (ReportServerIdResponse_encode r @ rest) = Ok r"
  by (simp add: wire_defs Let_def nth_append)

interpretation ReportServerIdResponse_codec: wire_codec
    "\<lambda>r. Ok (ReportServerIdResponse_encode r)" ReportServerIdResponse_decode
    "\<lambda>r. length (ReportServerIdResponse.server_id r) < 255"
  by unfold_locales (auto simp: ReportServerIdResponse_decode_encode decoder_totality)

lemma or_and_not_cancel:
  fixes a b :: "'a :: len word"
  assumes "a AND b = 0"
  shows "(a OR b) AND NOT b = a"
proof (rule bit_word_eqI)
  fix n assume n: "n < LENGTH('a)"
  have "\<not> (bit a n \<and> bit b n)" using assms by (metis bit_and_iff bit_0_eq bot_apply bot_bool_def)
  with n show "bit ((a OR b) AND NOT b) n = bit a n" by (auto simp: bit_simps)
qed

lemma or_and_self: "((a :: 'a :: len word) OR b) AND b = b"
  by (rule bit_word_eqI) (auto simp: bit_simps)

lemma ExceptionResponse_decode_encode:
  "ExceptionResponse.function_code r AND EXCEPTION_RESPONSE_FUNCTION_CODE_BIT = 0 \<Longrightarrow>
     ExceptionResponse_decode (ExceptionResponse_encode r @ rest) = Ok r"
  using or_and_not_cancel [of "ExceptionResponse.function_code r" EXCEPTION_RESPONSE_FUNCTION_CODE_BIT]
    or_and_self [of "ExceptionResponse.function_code r" EXCEPTION_RESPONSE_FUNCTION_CODE_BIT]
  by (simp add: wire_defs)

interpretation ExceptionResponse_codec: wire_codec
    "\<lambda>r. Ok (ExceptionResponse_encode r)" ExceptionResponse_decode
    "\<lambda>r. ExceptionResponse.function_code r AND EXCEPTION_RESPONSE_FUNCTION_CODE_BIT = 0"
  by unfold_locales (auto simp: ExceptionResponse_decode_encode decoder_totality
      simp del: EXCEPTION_RESPONSE_FUNCTION_CODE_BIT_def)

subsection \<open>Device identification\<close>

lemma decode_objects_encode:
  assumes "\<forall>obj \<in> set objs. length (DeviceIdentificationObject.object_value obj) < 256"
    and "offset = length pre"
  shows "decode_objects (pre @ concat (map encode_object objs) @ rest) (length objs) offset acc
    = Ok (acc @ objs)"
  using assms
proof (induction objs arbitrary: pre offset acc)
  case Nil
  then show ?case by simp
next
  case (Cons obj objs)
  obtain oid v where obj: "obj = \<lparr>DeviceIdentificationObject.id_byte = oid, object_value = v\<rparr>"
    by (cases obj)
  have enc: "encode_object obj = [oid, of_nat (length v)] @ v"
    by (simp add: encode_object_def obj)
  have "length v < 256" using Cons.prems obj by simp
  then show ?case
    using Cons.IH [of "length pre + length (encode_object obj)" "pre @ encode_object obj"
        "acc @ [obj]"] Cons.prems
    by (simp add: enc Let_def nth_append flip: obj)
qed

lemma ReadDeviceIdentificationResponse_decode_encode:
  assumes "length (ReadDeviceIdentificationResponse.objects r) < 256"
    and "\<forall>obj \<in> set (ReadDeviceIdentificationResponse.objects r).
           length (DeviceIdentificationObject.object_value obj) < 256"
  shows "ReadDeviceIdentificationResponse_decode (ReadDeviceIdentificationResponse_encode r @ rest) = Ok r"
  using decode_objects_encode [of "ReadDeviceIdentificationResponse.objects r" 7
      "take 7 (ReadDeviceIdentificationResponse_encode r)" rest "[]"] assms
  by (cases "ReadDeviceIdentificationResponse.more_follows r")
     (simp_all add: ReadDeviceIdentificationResponse_decode_def
       ReadDeviceIdentificationResponse_encode_def check_function_code_def check_mei_type_def)

text \<open>
  Read Device Identification. A response with fewer than 256 objects, each of fewer than
  256 bytes, decodes back from its encoding: the object walk of the decoder visits every object
  and stops after the last one.
\<close>

theorem device_identification_round_trip:
  assumes "length (ReadDeviceIdentificationResponse.objects r) < 256"
    and "\<forall>obj \<in> set (ReadDeviceIdentificationResponse.objects r).
           length (DeviceIdentificationObject.object_value obj) < 256"
  shows "ReadDeviceIdentificationResponse_decode (ReadDeviceIdentificationResponse_encode r @ rest) = Ok r"
  using assms by (rule ReadDeviceIdentificationResponse_decode_encode)

theorem device_identification_round_trip_witness:
  "ReadDeviceIdentificationResponse_decode (ReadDeviceIdentificationResponse_encode
     \<lparr>ReadDeviceIdentificationResponse.read_device_id_code = 3, conformity_level = 3,
      more_follows = True, next_object_id = 0x82,
      objects = [\<lparr>id_byte = 0x80, object_value = [1]\<rparr>, \<lparr>id_byte = 0x81, object_value = [65, 66]\<rparr>]\<rparr>)
   = Ok \<lparr>ReadDeviceIdentificationResponse.read_device_id_code = 3, conformity_level = 3,
      more_follows = True, next_object_id = 0x82,
      objects = [\<lparr>id_byte = 0x80, object_value = [1]\<rparr>, \<lparr>id_byte = 0x81, object_value = [65, 66]\<rparr>]\<rparr>"
  by (rule device_identification_round_trip [where rest = "[]", simplified]) simp_all

interpretation ReadDeviceIdentificationResponse_codec: wire_codec
    "\<lambda>r. Ok (ReadDeviceIdentificationResponse_encode r)" ReadDeviceIdentificationResponse_decode
    "\<lambda>r. length (ReadDeviceIdentificationResponse.objects r) < 256
       \<and> (\<forall>obj \<in> set (ReadDeviceIdentificationResponse.objects r).
            length (DeviceIdentificationObject.object_value obj) < 256)"
  by unfold_locales (auto simp: ReadDeviceIdentificationResponse_decode_encode decoder_totality)

subsection \<open>File records\<close>

lemma decode_sub_requests_encode:
  assumes "offset = length pre"
  shows "decode_sub_requests (pre @ concat (map encode_file_record_sub_request srs) @ rest)
     (length srs) offset acc = Ok (acc @ srs)"
  using assms
proof (induction srs arbitrary: pre offset acc)
  case Nil
  then show ?case by simp
next
  case (Cons sr srs)
  obtain f rn rl where sr: "sr = \<lparr>FileRecordSubRequest.file_number = f, record_number = rn,
      record_length = rl\<rparr>" by (cases sr)
  have enc: "encode_file_record_sub_request sr =
      [FILE_RECORD_REFERENCE_TYPE] @ to_be_bytes f @ to_be_bytes rn @ to_be_bytes rl"
    by (simp add: encode_file_record_sub_request_def sr)
  have seven: "length pre + 7 = Suc (Suc (Suc (Suc (Suc (Suc (Suc (length pre)))))))" by simp
  show ?case
    using Cons.IH [of "length pre + 7" "pre @ encode_file_record_sub_request sr" "acc @ [sr]"]
      Cons.prems
    by (simp add: enc read_u16_be_def to_be_bytes_def nth_append seven flip: sr)
qed

lemma Suc_of_nat_u8_neq_0: "n < 255 \<Longrightarrow> (1 + of_nat n :: u8) \<noteq> 0"
  by (metis unat_byte_count_Suc unat_0 nat.distinct(1))

lemma decode_file_records_encode:
  assumes "\<forall>rec \<in> set recs. length rec < 255" and "offset = length pre"
  shows "decode_file_records (pre @ concat (map encode_file_record recs) @ rest)
     (offset + sum_list (map (\<lambda>rec. 2 + length rec) recs)) offset acc = Ok (acc @ recs)"
  using assms
proof (induction recs arbitrary: pre offset acc)
  case Nil
  then show ?case by (simp add: decode_file_records.simps)
next
  case (Cons rc recs)
  show ?case
    using Cons.IH [of "length pre + length (encode_file_record rc)" "pre @ encode_file_record rc" "acc @ [rc]"] Cons.prems
    by (subst decode_file_records.simps)
       (simp add: encode_file_record_def [of rc] Let_def nth_append add.assoc Suc_of_nat_u8_neq_0)
qed

lemma decode_write_sub_requests_encode:
  assumes "\<forall>sr \<in> set srs. even (length (WriteFileRecordSubRequest.record_data sr))
        \<and> length (WriteFileRecordSubRequest.record_data sr) < 131072"
     and "offset = length pre"
  shows "decode_write_sub_requests (pre @ concat (map encode_write_sub_request srs) @ rest)
     (offset + sum_list (map (\<lambda>sr. 7 + length (WriteFileRecordSubRequest.record_data sr)) srs)) offset acc = Ok (acc @ srs)"
  using assms
proof (induction srs arbitrary: pre offset acc)
  case Nil
  then show ?case by (simp add: decode_write_sub_requests.simps)
next
  case (Cons sr srs)
  obtain f rn d where sr: "sr = \<lparr>WriteFileRecordSubRequest.file_number = f, record_number = rn, record_data = d\<rparr>"
    by (cases sr)
  from Cons.prems sr have "length d < 131072" by simp
  then have "length d div 2 < 65536" by linarith
  moreover have enc: "encode_write_sub_request sr = [FILE_RECORD_REFERENCE_TYPE] @ to_be_bytes f
      @ to_be_bytes rn @ to_be_bytes (of_nat (length d div 2)) @ d"
    by (simp add: encode_write_sub_request_def sr)
  moreover have "WriteFileRecordSubRequest.record_data sr = d" by (simp add: sr)
  moreover have seven: "length pre + (7 + n) = Suc (Suc (Suc (Suc (Suc (Suc (Suc (length pre + n)))))))"
    for n by simp
  ultimately show ?case
    using Cons.IH [of "length pre + length (encode_write_sub_request sr)" "pre @ encode_write_sub_request sr" "acc @ [sr]"] Cons.prems
    by (subst decode_write_sub_requests.simps)
       (simp add: enc seven Let_def nth_append add.assoc read_u16_be_def to_be_bytes_def flip: sr)
qed

lemma length_encode_sub [simp]: "length (encode_file_record_sub_request sr) = 7"
  by (simp add: encode_file_record_sub_request_def)

lemma length_encode_subs [simp]: "length (concat (map encode_file_record_sub_request srs)) = length srs * 7"
  by (induction srs) simp_all

lemma ReadFileRecordRequest_decode_encode: 
  assumes "0 < length (ReadFileRecordRequest.sub_requests r)" "length (ReadFileRecordRequest.sub_requests r) \<le> 36"
  shows "ReadFileRecordRequest_decode (ReadFileRecordRequest_encode r @ rest) = Ok r"
proof -
  let ?n = "length (ReadFileRecordRequest.sub_requests r)"
  let ?hdr = "[FUNCTION_CODE_READ_FILE_RECORD, of_nat (?n * FILE_RECORD_SUB_REQUEST_LEN)] :: bytes"
  have n: "unat (of_nat ?n * 7 :: u8) = ?n * 7" using assms by simp
  with assms have "(of_nat ?n * 7 :: u8) \<noteq> 0" by (metis mult_is_0 unat_0 less_numeral_extra(3) zero_neq_numeral)
  with n decode_sub_requests_encode [of 2 ?hdr "ReadFileRecordRequest.sub_requests r" rest "[]"] show ?thesis
    by (simp add: ReadFileRecordRequest_decode_def ReadFileRecordRequest_encode_def check_function_code_def)
qed

lemma length_encode_recs [simp]: "length (concat (map encode_file_record recs)) = sum_list (map (\<lambda>rec. 2 + length rec) recs)"
  by (induction recs) (simp_all add: encode_file_record_def)

lemma length_encode_wrecs [simp]: "length (concat (map encode_write_sub_request srs)) = sum_list (map (\<lambda>sr. 7 + length (WriteFileRecordSubRequest.record_data sr)) srs)"
  by (induction srs) (simp_all add: encode_write_sub_request_def)

lemma sum_list_member_le: "x \<in> set xs \<Longrightarrow> f x \<le> sum_list (map f xs)" for f :: "'a \<Rightarrow> nat"
  by (induction xs) auto

lemma ReadFileRecordResponse_decode_encode:
  assumes "sum_list (map (\<lambda>rec. 2 + length rec) (ReadFileRecordResponse.records r)) < 256"
  shows "ReadFileRecordResponse_decode (ReadFileRecordResponse_encode r @ rest) = Ok r"
proof -
  let ?recs = "ReadFileRecordResponse.records r" 
  let ?n = "sum_list (map (\<lambda>rec. 2 + length rec) (ReadFileRecordResponse.records r))"
  have "length rc < 255" if "rc \<in> set ?recs" for rc
    using sum_list_member_le [OF that, of "\<lambda>rec. 2 + length rec"] assms by linarith
  moreover have n: "unat (of_nat ?n :: u8) = ?n" using assms by (rule unat_of_nat_u8)
  ultimately show ?thesis
    using decode_file_records_encode [of ?recs 2 "[FUNCTION_CODE_READ_FILE_RECORD, of_nat ?n]" rest "[]"]
    by (simp add: ReadFileRecordResponse_decode_def ReadFileRecordResponse_encode_def check_function_code_def Let_def)
qed

lemma check_even_record_data_iff: "check_even_record_data srs = Ok () \<longleftrightarrow> (\<forall>sr \<in> set srs. even (length (WriteFileRecordSubRequest.record_data sr)))"
  by (induction srs) (auto simp: even_iff_mod_2_eq_zero)

lemma check_even_record_data_not_Panic: "check_even_record_data srs \<noteq> Panic"
  by (induction srs) auto

lemma encode_write_file_record_cases:
  "case encode_write_file_record fc srs of
     Ok bs \<Rightarrow> \<forall>sr \<in> set srs. even (length (WriteFileRecordSubRequest.record_data sr))
   | Err e \<Rightarrow> \<exists>sr \<in> set srs. odd (length (WriteFileRecordSubRequest.record_data sr))
   | Panic \<Rightarrow> False"
  using check_even_record_data_iff [of srs] check_even_record_data_not_Panic [of srs]
  by (cases "check_even_record_data srs") (auto simp: encode_write_file_record_def Let_def)

lemma encode_write_file_record_even:
  assumes "\<forall>sr \<in> set srs. even (length (WriteFileRecordSubRequest.record_data sr))"
  shows "\<exists>bs. encode_write_file_record fc srs = Ok bs"
  using encode_write_file_record_cases [where fc = fc and srs = srs] assms by (auto split: result.splits)

lemma decode_encode_write_file_record:
  assumes "sum_list (map (\<lambda>sr. 7 + length (WriteFileRecordSubRequest.record_data sr)) srs) < 256"
    and "encode_write_file_record fc srs = Ok bs"
  shows "decode_write_file_record (bs @ rest) fc = Ok srs"
proof -
  let ?n = "sum_list (map (\<lambda>sr. 7 + length (WriteFileRecordSubRequest.record_data sr)) srs)"
  have "length (WriteFileRecordSubRequest.record_data sr) < 131072" if "sr \<in> set srs" for sr
    using sum_list_member_le [OF that, of "\<lambda>sr. 7 + length (WriteFileRecordSubRequest.record_data sr)"] assms by linarith
  moreover have "\<forall>sr \<in> set srs. even (length (WriteFileRecordSubRequest.record_data sr))"
    and bs: "bs = [fc, of_nat ?n] @ concat (map encode_write_sub_request srs)"
    using assms(2) by (auto simp: encode_write_file_record_def and_then_eq_Ok_iff check_even_record_data_iff)
  ultimately have "decode_write_sub_requests ([fc, of_nat ?n] @
      concat (map encode_write_sub_request srs) @ rest) (2 + ?n) 2 [] = Ok ([] @ srs)"
    by (intro decode_write_sub_requests_encode) simp_all
  moreover have "unat (of_nat ?n :: u8) = ?n" using assms(1) by (rule unat_of_nat_u8)
  ultimately show ?thesis
    by (simp add: decode_write_file_record_def check_function_code_def Let_def bs)
qed

text \<open>
  Read File Record. A request of 1 to 36 sub-requests and a response whose records, with
  their two header bytes each, take fewer than 256 bytes decode back from their encodings.
\<close>

theorem read_file_record_round_trip:
  assumes "0 < length (ReadFileRecordRequest.sub_requests q)"
    and "length (ReadFileRecordRequest.sub_requests q) \<le> 36"
    and "sum_list (map (\<lambda>rec. 2 + length rec) (ReadFileRecordResponse.records r)) < 256"
  shows "ReadFileRecordRequest_decode (ReadFileRecordRequest_encode q @ rest) = Ok q
     \<and> ReadFileRecordResponse_decode (ReadFileRecordResponse_encode r @ rest) = Ok r"
  using assms ReadFileRecordRequest_decode_encode ReadFileRecordResponse_decode_encode by blast

theorem read_file_record_round_trip_witness:
  "ReadFileRecordRequest_decode (ReadFileRecordRequest_encode \<lparr>ReadFileRecordRequest.sub_requests =
      [\<lparr>FileRecordSubRequest.file_number = 4, record_number = 1, record_length = 2\<rparr>]\<rparr> @ [9])
     = Ok \<lparr>ReadFileRecordRequest.sub_requests =
      [\<lparr>FileRecordSubRequest.file_number = 4, record_number = 1, record_length = 2\<rparr>]\<rparr>
   \<and> ReadFileRecordResponse_decode
      (ReadFileRecordResponse_encode \<lparr>ReadFileRecordResponse.records = [[0x0D, 0xFE], [0, 0x20]]\<rparr> @ [9])
     = Ok \<lparr>ReadFileRecordResponse.records = [[0x0D, 0xFE], [0, 0x20]]\<rparr>"
  by (rule read_file_record_round_trip) simp_all

interpretation ReadFileRecordRequest_codec: wire_codec
    "\<lambda>r. Ok (ReadFileRecordRequest_encode r)" ReadFileRecordRequest_decode
    "\<lambda>r. 0 < length (ReadFileRecordRequest.sub_requests r)
       \<and> length (ReadFileRecordRequest.sub_requests r) \<le> 36"
  by unfold_locales (simp_all add: decoder_totality, use ReadFileRecordRequest_decode_encode in blast)

interpretation ReadFileRecordResponse_codec: wire_codec
    "\<lambda>r. Ok (ReadFileRecordResponse_encode r)" ReadFileRecordResponse_decode
    "\<lambda>r. sum_list (map (\<lambda>rec. 2 + length rec) (ReadFileRecordResponse.records r)) < 256"
  by unfold_locales (auto simp: ReadFileRecordResponse_decode_encode decoder_totality)

text \<open>
  Write File Record. A request or response is refused exactly when some record has an odd
  number of bytes, and never panics; one that is encoded and whose sub-requests take fewer than
  256 bytes decodes back to the same sub-requests.
\<close>

theorem write_file_record_round_trip:
  assumes "sum_list (map (\<lambda>sr. 7 + length (WriteFileRecordSubRequest.record_data sr)) srs) < 256"
  shows "case WriteFileRecordRequest_encode \<lparr>WriteFileRecordRequest.sub_requests = srs\<rparr> of
     Ok bs \<Rightarrow> (\<forall>sr \<in> set srs. even (length (WriteFileRecordSubRequest.record_data sr)))
       \<and> WriteFileRecordResponse_encode \<lparr>WriteFileRecordResponse.sub_requests = srs\<rparr> = Ok bs
       \<and> WriteFileRecordRequest_decode (bs @ rest) = Ok \<lparr>WriteFileRecordRequest.sub_requests = srs\<rparr>
       \<and> WriteFileRecordResponse_decode (bs @ rest) = Ok \<lparr>WriteFileRecordResponse.sub_requests = srs\<rparr>
   | Err e \<Rightarrow> (\<exists>sr \<in> set srs. odd (length (WriteFileRecordSubRequest.record_data sr)))
   | Panic \<Rightarrow> False"
  using decode_encode_write_file_record [OF assms, of FUNCTION_CODE_WRITE_FILE_RECORD _ rest]
    encode_write_file_record_cases [where fc = FUNCTION_CODE_WRITE_FILE_RECORD and srs = srs]
  by (simp add: pdu_defs split: result.splits)

theorem write_file_record_round_trip_witness:
  "WriteFileRecordRequest_decode [0x15, 9, 6, 0, 4, 0, 7, 0, 1, 0xAB, 0xCD] =
     Ok \<lparr>WriteFileRecordRequest.sub_requests = [\<lparr>WriteFileRecordSubRequest.file_number = 4,
        record_number = 7, record_data = [0xAB, 0xCD]\<rparr>]\<rparr>"
proof -
  let ?srs = "[\<lparr>WriteFileRecordSubRequest.file_number = 4, record_number = 7,
      record_data = [0xAB, 0xCD]\<rparr>]"
  have "WriteFileRecordRequest_encode \<lparr>WriteFileRecordRequest.sub_requests = ?srs\<rparr> =
      Ok [0x15, 9, 6, 0, 4, 0, 7, 0, 1, 0xAB, 0xCD]"
    by (simp add: pdu_defs wire_defs to_be_bytes_def)
  then show ?thesis using write_file_record_round_trip [of ?srs "[]"] by simp
qed

interpretation WriteFileRecordRequest_codec: wire_codec
    WriteFileRecordRequest_encode WriteFileRecordRequest_decode
    "\<lambda>r. sum_list (map (\<lambda>sr. 7 + length (WriteFileRecordSubRequest.record_data sr))
            (WriteFileRecordRequest.sub_requests r)) < 256
       \<and> (\<forall>sr \<in> set (WriteFileRecordRequest.sub_requests r).
            even (length (WriteFileRecordSubRequest.record_data sr)))"
  by unfold_locales
     (simp_all add: pdu_decoders_not_Panic,
      simp_all add: pdu_defs encode_write_file_record_even,
      use decode_encode_write_file_record in fastforce)

interpretation WriteFileRecordResponse_codec: wire_codec
    WriteFileRecordResponse_encode WriteFileRecordResponse_decode
    "\<lambda>r. sum_list (map (\<lambda>sr. 7 + length (WriteFileRecordSubRequest.record_data sr))
            (WriteFileRecordResponse.sub_requests r)) < 256
       \<and> (\<forall>sr \<in> set (WriteFileRecordResponse.sub_requests r).
            even (length (WriteFileRecordSubRequest.record_data sr)))"
  by unfold_locales
     (simp_all add: pdu_decoders_not_Panic,
      simp_all add: pdu_defs encode_write_file_record_even,
      use decode_encode_write_file_record in fastforce)

end
