(* ===== verification/Adu.thy ===== *)
theory Adu
  imports Codec Pdu "HOL-Library.Sublist"
begin

text \<open>
  Application data units (\<open>protocol/src/adu.rs\<close>): the MBAP frame of Modbus TCP and the
  CRC-protected frame of Modbus RTU. The TCP decoder accepts exactly the byte strings
  that start with the encoding of an ADU of at most 253 PDU bytes; the RTU decoder accepts
  exactly the encodings. The CRC register is a linear and injective function of its input,
  which is what detects every corruption confined to two adjacent bytes.
\<close>

section \<open>Modbus TCP\<close>

definition MBAP_PROTOCOL_ID :: u16 where [simp]: "MBAP_PROTOCOL_ID = 0x0000"
definition MBAP_TRANSACTION_ID_BYTE :: nat where [simp]: "MBAP_TRANSACTION_ID_BYTE = 0"
definition MBAP_PROTOCOL_ID_BYTE :: nat where [simp]: "MBAP_PROTOCOL_ID_BYTE = 2"
definition MBAP_LENGTH_BYTE :: nat where [simp]: "MBAP_LENGTH_BYTE = 4"
definition MBAP_UNIT_ID_BYTE :: nat where [simp]: "MBAP_UNIT_ID_BYTE = 6"
definition MBAP_HEADER_LEN :: nat where [simp]: "MBAP_HEADER_LEN = 7"
definition MBAP_MAX_LENGTH :: u16 where [simp]: "MBAP_MAX_LENGTH = 254"

record TcpAdu =
  transaction_id :: u16
  unit_id :: u8
  pdu :: bytes

definition TcpAdu_encode :: "TcpAdu \<Rightarrow> bytes" where
  "TcpAdu_encode adu =
     to_be_bytes (TcpAdu.transaction_id adu)
     @ to_be_bytes MBAP_PROTOCOL_ID
     @ to_be_bytes (of_nat (length (TcpAdu.pdu adu) + 1))
     @ [TcpAdu.unit_id adu]
     @ TcpAdu.pdu adu"

definition TcpAdu_decode :: "bytes \<Rightarrow> (TcpAdu, DecodeError) result" where
  "TcpAdu_decode bs =
     (if length bs < MBAP_HEADER_LEN then Err TooShort
      else and_then (read_u16_be bs MBAP_PROTOCOL_ID_BYTE) (\<lambda>protocol_id.
      if protocol_id \<noteq> MBAP_PROTOCOL_ID then Err (UnexpectedProtocolId protocol_id)
      else and_then (read_u16_be bs MBAP_LENGTH_BYTE) (\<lambda>len.
      if len = 0 \<or> MBAP_MAX_LENGTH < len then Err (InvalidAduLength len)
      else let pdu_len = unat len - 1 in
      if length bs < MBAP_HEADER_LEN + pdu_len then Err TooShort
      else and_then (read_u16_be bs MBAP_TRANSACTION_ID_BYTE) (\<lambda>tid.
      and_then (index bs MBAP_UNIT_ID_BYTE) (\<lambda>uid.
      and_then (slice bs MBAP_HEADER_LEN (MBAP_HEADER_LEN + pdu_len)) (\<lambda>body.
      Ok \<lparr>TcpAdu.transaction_id = tid, unit_id = uid, pdu = body\<rparr>))))))"

section \<open>Modbus RTU\<close>

definition RTU_UNIT_ID_BYTE :: nat where [simp]: "RTU_UNIT_ID_BYTE = 0"
definition RTU_CRC_LEN :: nat where [simp]: "RTU_CRC_LEN = 2"
definition RTU_MIN_FRAME_LEN :: nat where [simp]: "RTU_MIN_FRAME_LEN = 1 + RTU_CRC_LEN"

record RtuAdu =
  unit_id :: u8
  pdu :: bytes

text \<open>The body of the inner \<open>for _ in 0..8\<close> loop, and the body of the outer loop.\<close>

definition crc16_shift :: "u16 \<Rightarrow> u16" where
  "crc16_shift crc = (if crc AND 0x0001 \<noteq> 0 then drop_bit 1 crc XOR 0xA001 else drop_bit 1 crc)"

definition crc16_byte :: "u16 \<Rightarrow> u8 \<Rightarrow> u16" where
  "crc16_byte crc byte = (crc16_shift ^^ 8) (crc XOR ucast byte)"

definition crc16_modbus :: "bytes \<Rightarrow> u16" where
  "crc16_modbus data = foldl crc16_byte 0xFFFF data"

definition RtuAdu_encode :: "RtuAdu \<Rightarrow> bytes" where
  "RtuAdu_encode adu =
     (let buffer = [RtuAdu.unit_id adu] @ RtuAdu.pdu adu
      in buffer @ to_le_bytes (crc16_modbus buffer))"

definition RtuAdu_decode :: "bytes \<Rightarrow> (RtuAdu, DecodeError) result" where
  "RtuAdu_decode bs =
     (if length bs < RTU_MIN_FRAME_LEN then Err TooShort
      else let crc_start = length bs - RTU_CRC_LEN in
      and_then (slice bs 0 crc_start) (\<lambda>unit_id_and_pdu.
      let expected_crc = crc16_modbus unit_id_and_pdu in
      and_then (index bs crc_start) (\<lambda>lo.
      and_then (index bs (crc_start + 1)) (\<lambda>hi.
      let actual_crc = from_le_bytes lo hi in
      if actual_crc \<noteq> expected_crc then Err (CrcMismatch expected_crc actual_crc)
      else and_then (index bs RTU_UNIT_ID_BYTE) (\<lambda>uid.
      and_then (slice unit_id_and_pdu 1 (length unit_id_and_pdu)) (\<lambda>body.
      Ok \<lparr>RtuAdu.unit_id = uid, pdu = body\<rparr>))))))"

section \<open>The MBAP frame\<close>

lemma length_TcpAdu_encode [simp]: "length (TcpAdu_encode adu) = 7 + length (TcpAdu.pdu adu)"
  by (simp add: TcpAdu_encode_def)

lemma from_be_bytes_0 [simp]: "from_be_bytes 0 0 = 0"
  by (simp add: from_be_bytes_def)

lemma unat_mbap_length: "length p \<le> 253 \<Longrightarrow> unat (1 + of_nat (length p) :: u16) = Suc (length p)"
  using unat_of_nat_u16 [of "Suc (length p)"] by simp

lemma TcpAdu_decode_encode:
  assumes "length (TcpAdu.pdu adu) \<le> 253"
  shows "TcpAdu_decode (TcpAdu_encode adu @ rest) = Ok adu"
proof -
  let ?len = "1 + of_nat (length (TcpAdu.pdu adu)) :: u16"
  have "\<not> (?len = 0 \<or> 254 < ?len)"
    using assms unat_mbap_length [OF assms] by (auto simp: word_less_nat_alt unat_eq_zero)
  then show ?thesis
    using assms unat_mbap_length [OF assms]
    by (simp add: TcpAdu_decode_def TcpAdu_encode_def read_u16_be_def to_be_bytes_def Let_def)
qed

lemma split_mbap_header:
  assumes "7 \<le> length (bs :: bytes)"
  obtains t1 t0 p1 p0 l1 l0 u body where "bs = t1 # t0 # p1 # p0 # l1 # l0 # u # body"
  using assms by (auto simp: numeral_eq_Suc Suc_le_length_iff)

lemma TcpAdu_decode_Ok_prefix:
  assumes "TcpAdu_decode bs = Ok adu"
  shows "length (TcpAdu.pdu adu) \<le> 253 \<and> prefix (TcpAdu_encode adu) bs"
proof -
  from assms have "7 \<le> length bs"
    by (auto simp: TcpAdu_decode_def split: if_splits)
  then obtain t1 t0 p1 p0 l1 l0 u body where bs: "bs = t1 # t0 # p1 # p0 # l1 # l0 # u # body"
    by (rule split_mbap_header)
  let ?len = "from_be_bytes l1 l0"
  from assms have pid: "from_be_bytes p1 p0 = 0" and len: "?len \<noteq> 0" "\<not> 254 < ?len"
    and enough: "unat ?len - 1 \<le> length body"
    and adu: "adu = \<lparr>TcpAdu.transaction_id = from_be_bytes t1 t0, unit_id = u,
                    pdu = take (unat ?len - 1) body\<rparr>"
    by (auto simp: bs TcpAdu_decode_def read_u16_be_def Let_def split: if_splits)
  have bound: "0 < unat ?len" "unat ?len \<le> 254"
    using len by (simp_all add: word_less_nat_alt unat_gt_0)
  have "of_nat (length (TcpAdu.pdu adu) + 1) = ?len"
    using bound enough by (simp add: adu min_def flip: of_nat_Suc)
  moreover have "to_be_bytes 0 = [p1, p0]"
    using pid by (metis to_be_from_be)
  ultimately have "TcpAdu_encode adu @ drop (unat ?len - 1) body = bs"
    by (simp add: TcpAdu_encode_def bs adu)
  then show ?thesis
    using bound enough by (auto simp: adu prefix_def)
qed

lemma TcpAdu_decode_iff:
  "TcpAdu_decode bs = Ok adu \<longleftrightarrow>
     length (TcpAdu.pdu adu) \<le> 253 \<and> prefix (TcpAdu_encode adu) bs"
  using TcpAdu_decode_Ok_prefix TcpAdu_decode_encode by (auto simp: prefix_def)

lemma TcpAdu_decode_not_Panic: "TcpAdu_decode bs \<noteq> Panic"
  by (auto simp: TcpAdu_decode_def read_u16_be_def Let_def and_then_eq_Panic_iff index_def slice_def)

interpretation tcp_adu: wire_codec "\<lambda>a. Ok (TcpAdu_encode a)" TcpAdu_decode
    "\<lambda>a. length (TcpAdu.pdu a) \<le> 253"
  by unfold_locales (auto simp: TcpAdu_decode_encode TcpAdu_decode_not_Panic)

section \<open>The CRC register\<close>

text \<open>One shift is linear over exclusive or, and the new top bit tells which case it took.\<close>

lemma bit_crc16_shift:
  "bit (crc16_shift a) n \<longleftrightarrow> n < 16 \<and> bit a (Suc n) \<noteq> (bit a 0 \<and> bit (0xA001 :: u16) n)"
proof -
  have "a AND 1 \<noteq> 0 \<longleftrightarrow> bit a 0"
    by (simp add: and_one_eq bit_0 mod_2_eq_odd)
  then show ?thesis
    by (auto simp: crc16_shift_def bit_simps dest: bit_imp_le_length)
qed

lemma crc16_shift_xor: "crc16_shift (a XOR b) = crc16_shift a XOR crc16_shift b"
  by (rule bit_word_eqI) (auto simp: bit_crc16_shift bit_xor_iff simp del: bit_0)

lemma crc16_shift_eq_0 [simp]: "crc16_shift a = 0 \<longleftrightarrow> a = 0"
proof
  assume 0: "crc16_shift a = 0"
  have low: "\<not> bit a 0"
    using arg_cong [OF 0, where f = "\<lambda>w. bit w 15"]
    by (auto simp: bit_crc16_shift simp del: bit_0 dest: bit_imp_le_length)
  have high: "\<not> bit a (Suc n)" for n
    using arg_cong [OF 0, where f = "\<lambda>w. bit w n"] low
    by (auto simp: bit_crc16_shift simp del: bit_0 dest: bit_imp_le_length)
  have "\<not> bit a n" for n
    using low high by (cases n) (simp_all del: bit_0)
  then show "a = 0"
    by (intro bit_word_eqI) simp
qed (simp add: crc16_shift_def)

lemma crc16_shift_pow_xor: "(crc16_shift ^^ n) (a XOR b) = (crc16_shift ^^ n) a XOR (crc16_shift ^^ n) b"
  by (induction n) (simp_all add: crc16_shift_xor)

lemma crc16_shift_pow_eq_0 [simp]: "(crc16_shift ^^ n) a = 0 \<longleftrightarrow> a = 0"
  by (induction n) simp_all

lemma xor_eq_0_iff_eq: "a XOR b = 0 \<longleftrightarrow> a = (b :: 'a :: len word)"
  by (metis bit.xor_left_self xor.right_neutral)

lemma xor_left_inject [simp]: "c XOR a = c XOR b \<longleftrightarrow> a = (b :: 'a :: len word)"
  by (metis bit.xor_left_self)

lemma xor_right_inject [simp]: "a XOR c = b XOR c \<longleftrightarrow> a = (b :: 'a :: len word)"
  by (simp add: xor.commute [of _ c])

lemma crc16_shift_pow_inject [simp]: "(crc16_shift ^^ n) a = (crc16_shift ^^ n) b \<longleftrightarrow> a = b"
  by (metis crc16_shift_pow_eq_0 crc16_shift_pow_xor xor_eq_0_iff_eq)

text \<open>Eight shifts move a byte from the top of the register to its bottom.\<close>

lemma crc16_shift8_push: "(crc16_shift ^^ 8) (push_bit 8 (ucast (b :: u8))) = ucast b"
proof -
  have "(crc16_shift ^^ k) (push_bit 8 (ucast b)) = push_bit (8 - k) (ucast b)" if "k \<le> 8" for k
    using that
  proof (induction k)
    case (Suc k)
    then have "(crc16_shift ^^ Suc k) (push_bit 8 (ucast b)) = crc16_shift (push_bit (8 - k) (ucast b))"
      by simp
    also have "\<dots> = push_bit (8 - Suc k) (ucast b)"
      using Suc.prems
      by (intro bit_word_eqI) (auto simp: bit_crc16_shift bit_simps simp del: bit_0 dest: bit_imp_le_length)
    finally show ?case .
  qed simp
  from this [of 8] show ?thesis by simp
qed

lemma ucast_u8_inject [simp]: "(ucast x :: u16) = ucast y \<longleftrightarrow> x = (y :: u8)"
proof -
  have "ucast (ucast b :: u16) = b" for b :: u8
    by (rule bit_word_eqI) (simp add: bit_simps)
  then show ?thesis by metis
qed

lemma crc16_byte_inject [simp]:
  "crc16_byte c x = crc16_byte c y \<longleftrightarrow> x = y"
  "crc16_byte c x = crc16_byte d x \<longleftrightarrow> c = d"
  by (simp_all add: crc16_byte_def)

lemma crc16_byte_diff_low:
  assumes "crc16_byte c x XOR crc16_byte c y = ucast (b :: u8)"
  shows "x = y"
proof -
  have "(crc16_shift ^^ 8) (ucast x XOR ucast y) = crc16_byte c x XOR crc16_byte c y"
    by (simp add: crc16_byte_def flip: crc16_shift_pow_xor)
       (metis (no_types, lifting) bit.xor_left_self xor.assoc xor.commute)
  also have "\<dots> = (crc16_shift ^^ 8) (push_bit 8 (ucast b))"
    by (simp add: assms crc16_shift8_push)
  finally have eq: "ucast x XOR ucast y = (push_bit 8 (ucast b) :: u16)"
    by (simp only: crc16_shift_pow_inject)
  have "x XOR y = 0"
  proof (rule bit_word_eqI)
    fix n
    assume "n < LENGTH(8)"
    then show "bit (x XOR y) n \<longleftrightarrow> bit (0 :: u8) n"
      using arg_cong [OF eq, where f = "\<lambda>w. bit w n"] by (auto simp: bit_simps)
  qed
  then show ?thesis
    by (simp add: xor_eq_0_iff_eq)
qed

lemma crc16_two_bytes_inject [simp]:
  "crc16_byte (crc16_byte c x) y = crc16_byte (crc16_byte c x') y' \<longleftrightarrow> x = x' \<and> y = y'"
proof
  assume eq: "crc16_byte (crc16_byte c x) y = crc16_byte (crc16_byte c x') y'"
  then have "crc16_byte c x XOR ucast y = crc16_byte c x' XOR ucast y'"
    by (simp add: crc16_byte_def)
  then have "crc16_byte c x XOR crc16_byte c x' = ucast (y XOR y')"
    by (metis (no_types, opaque_lifting) bit.xor_left_self unsigned_xor_eq xor.assoc xor.commute)
  then have "x = x'"
    by (rule crc16_byte_diff_low)
  with eq show "x = x' \<and> y = y'" by simp
qed simp

lemma foldl_crc16_byte_inject [simp]:
  "foldl crc16_byte c bs = foldl crc16_byte d bs \<longleftrightarrow> c = d"
  by (induction bs arbitrary: c d) simp_all

section \<open>The RTU frame\<close>

lemma from_le_bytes_eq: "from_le_bytes lo hi = from_be_bytes hi lo"
  by (simp add: from_le_bytes_def from_be_bytes_def)

lemma to_le_bytes_eq: "to_le_bytes w = rev (to_be_bytes w)"
  by (simp add: to_le_bytes_def to_be_bytes_def)

lemma from_le_bytes_eq_iff: "from_le_bytes lo hi = w \<longleftrightarrow> [lo, hi] = to_le_bytes w"
proof -
  have "to_le_bytes (from_le_bytes lo hi) = [lo, hi]"
    by (simp add: from_le_bytes_eq to_le_bytes_eq)
  moreover have "to_le_bytes v = to_le_bytes w \<longleftrightarrow> v = w" for v
    by (simp add: to_le_bytes_eq)
  ultimately show ?thesis by metis
qed

lemma RtuAdu_decode_frame:
  assumes "body \<noteq> []"
  shows "RtuAdu_decode (body @ [lo, hi]) =
     (if from_le_bytes lo hi \<noteq> crc16_modbus body
      then Err (CrcMismatch (crc16_modbus body) (from_le_bytes lo hi))
      else Ok \<lparr>RtuAdu.unit_id = hd body, pdu = tl body\<rparr>)"
  using assms
  by (cases body) (auto simp: RtuAdu_decode_def Let_def nth_append)

lemma split_rtu_frame:
  assumes "3 \<le> length (bs :: bytes)"
  obtains u p lo hi where "bs = (u # p) @ [lo, hi]"
proof -
  from assms obtain cs hi where cs: "bs = cs @ [hi]"
    by (cases bs rule: rev_cases) auto
  with assms obtain ds lo where ds: "cs = ds @ [lo]"
    by (cases cs rule: rev_cases) auto
  with cs assms obtain u p where "ds = u # p"
    by (cases ds) auto
  with cs ds show thesis using that by simp
qed

lemma RtuAdu_decode_iff: "RtuAdu_decode bs = Ok adu \<longleftrightarrow> bs = RtuAdu_encode adu"
proof
  assume ok: "RtuAdu_decode bs = Ok adu"
  then have "3 \<le> length bs"
    by (auto simp: RtuAdu_decode_def split: if_splits)
  then obtain u p lo hi where bs: "bs = (u # p) @ [lo, hi]"
    by (rule split_rtu_frame)
  with ok show "bs = RtuAdu_encode adu"
    using RtuAdu_decode_frame [of "u # p" lo hi]
    by (auto simp: RtuAdu_encode_def Let_def from_le_bytes_eq_iff split: if_splits)
next
  assume "bs = RtuAdu_encode adu"
  then show "RtuAdu_decode bs = Ok adu"
    using RtuAdu_decode_frame [of "RtuAdu.unit_id adu # RtuAdu.pdu adu"]
    by (simp add: RtuAdu_encode_def Let_def to_le_bytes_def)
qed

lemma RtuAdu_decode_not_Panic: "RtuAdu_decode bs \<noteq> Panic"
proof (cases "3 \<le> length bs")
  case True
  then obtain u p lo hi where "bs = (u # p) @ [lo, hi]"
    by (rule split_rtu_frame)
  then show ?thesis
    using RtuAdu_decode_frame [of "u # p" lo hi] by simp
qed (simp add: RtuAdu_decode_def)

text \<open>
  A pair of adjacent bytes is inside the part the CRC covers, is the CRC itself, or
  straddles the two.
\<close>

lemma crc16_corrupted:
  assumes "body \<noteq> []" and "body' \<noteq> []" and "from_le_bytes lo hi = crc16_modbus body"
    and "xs @ [a, b] @ ys = body @ [lo, hi]" and "xs @ [c, d] @ ys = body' @ [lo', hi']"
    and "[a, b] \<noteq> [c, d]"
  shows "from_le_bytes lo' hi' \<noteq> crc16_modbus body'"
proof (cases ys rule: rev_cases)
  case Nil
  with assms(4-5) have "body' = body" "a = lo" "b = hi" "c = lo'" "d = hi'" by auto
  with assms(3,6) show ?thesis
    by (metis from_be_bytes_inject from_le_bytes_eq)
next
  case (snoc zs h)
  show ?thesis
  proof (cases zs rule: rev_cases)
    case Nil
    with snoc assms have body: "body = xs @ [a]" "lo = b" "hi = h"
      and body': "body' = xs @ [c]" "lo' = d" "hi' = h"
      by auto
    show ?thesis
    proof
      assume "from_le_bytes lo' hi' = crc16_modbus body'"
      moreover have "from_le_bytes b h XOR from_le_bytes d h = ucast (b XOR d)"
        by (rule bit_word_eqI) (auto simp: from_le_bytes_def bit_simps dest: bit_imp_le_length)
      ultimately have "crc16_byte (foldl crc16_byte 0xFFFF xs) a
           XOR crc16_byte (foldl crc16_byte 0xFFFF xs) c = ucast (b XOR d)"
        using assms(3) by (simp add: body body' crc16_modbus_def)
      then have "a = c"
        by (rule crc16_byte_diff_low)
      with \<open>from_le_bytes lo' hi' = crc16_modbus body'\<close> assms(3,6) show False
        by (simp add: body body') (metis from_be_bytes_inject from_le_bytes_eq)
    qed
  next
    case (snoc ws l)
    with \<open>ys = zs @ [h]\<close> assms(4-5) have "body = xs @ [a, b] @ ws" "body' = xs @ [c, d] @ ws"
      and "lo' = lo" "hi' = hi"
      by auto
    with assms(3,6) show ?thesis
      by (auto simp: crc16_modbus_def)
  qed
qed

section \<open>Properties\<close>

text \<open>
  \<open>TcpAdu::decode\<close> accepts a byte string exactly when it begins with the encoding of an
  ADU whose PDU has at most 253 bytes, and then returns that ADU. In particular a frame
  decodes to the unit, transaction and PDU it was built from, whatever follows it in the
  buffer, and no accepted frame claims a longer PDU than Modbus allows.
\<close>

theorem tcp_adu_decode_exact:
  "TcpAdu_decode bs = Ok adu \<longleftrightarrow> length (TcpAdu.pdu adu) \<le> 253 \<and> prefix (TcpAdu_encode adu) bs"
  by (rule TcpAdu_decode_iff)

text \<open>
  C17: \<open>RtuAdu::decode\<close> inverts \<open>RtuAdu::encode\<close> exactly: the frames it accepts are the
  encodings, each accepted as the ADU it encodes, and it never panics.
\<close>

theorem rtu_adu_decode_exact:
  "(RtuAdu_decode bs = Ok adu \<longleftrightarrow> bs = RtuAdu_encode adu) \<and> RtuAdu_decode bs \<noteq> Panic"
  by (simp add: RtuAdu_decode_iff RtuAdu_decode_not_Panic)

text \<open>
  The RTU checksum detects every corruption confined to two adjacent bytes, wherever in
  the frame it falls: if a frame decodes, the same frame with two adjacent bytes changed in
  any way (also just one of them) is refused with a CRC mismatch.
\<close>

theorem rtu_crc_detects_adjacent_corruption:
  assumes "RtuAdu_decode (xs @ [a, b] @ ys) = Ok adu" and "[c, d] \<noteq> [a, b]"
  shows "\<exists>expected actual. RtuAdu_decode (xs @ [c, d] @ ys) = Err (CrcMismatch expected actual)"
proof -
  let ?body = "RtuAdu.unit_id adu # RtuAdu.pdu adu"
  from assms(1) have frame: "xs @ [a, b] @ ys = ?body @ to_le_bytes (crc16_modbus ?body)"
    by (simp add: RtuAdu_decode_iff RtuAdu_encode_def)
  then have "length (xs @ [c, d] @ ys) \<ge> 3"
    by (drule_tac arg_cong [where f = length]) simp
  then obtain u p lo hi where frame': "xs @ [c, d] @ ys = (u # p) @ [lo, hi]"
    by (rule split_rtu_frame)
  obtain l h where lh: "to_le_bytes (crc16_modbus ?body) = [l, h]"
    by (simp add: to_le_bytes_def)
  then have "from_le_bytes l h = crc16_modbus ?body"
    by (simp add: from_le_bytes_eq_iff)
  with frame frame' lh assms(2) have "from_le_bytes lo hi \<noteq> crc16_modbus (u # p)"
    by (intro crc16_corrupted [of ?body "u # p" l h xs a b ys c d]) auto
  with frame' show ?thesis
    using RtuAdu_decode_frame [of "u # p" lo hi] by simp
qed

theorem rtu_crc_detects_adjacent_corruption_witness:
  "\<exists>expected actual.
     RtuAdu_decode ([0x11] @ [0x02, 0x04] @ [0x0F, 0xB5, 0x1C]) = Err (CrcMismatch expected actual)"
proof (rule rtu_crc_detects_adjacent_corruption)
  show "RtuAdu_decode ([0x11] @ [0x03, 0x00] @ [0x0F, 0xB5, 0x1C])
          = Ok \<lparr>RtuAdu.unit_id = 0x11, pdu = [0x03, 0x00, 0x0F]\<rparr>"
    by code_simp
qed simp

end
