(* ===== verification/Transport.thy ===== *)
theory Transport
  imports Adu
begin

text \<open>
  The two transports (\<open>protocol/src/tcp.rs\<close>, \<open>protocol/src/rtu.rs\<close> and \<open>with_timeout\<close> of
  \<open>protocol/src/lib.rs\<close>): one ADU read off a stream, one request sent and its response
  read, one request served by a handler.

  The peer and the clock are the environment. A stream carries what they will do: for
  every poll of a read, the next \<open>read_event\<close> (a byte, the end of the stream, an I/O
  error, or the step's timer running out first; a stream with no event left is silent, so
  the timer runs out), and for every \<open>write_all\<close> the next \<open>write_event\<close>. Durations
  therefore do not appear: a theorem about all event lists is a theorem about all timings.
  An I/O error keeps the place it was created at and its arguments instead of the text.
\<close>

section \<open>Streams and time\<close>

datatype ErrorKind = UnexpectedEof | InvalidData | TimedOut | OsErrorKind nat

datatype io_error =
    EarlyEof
  | InvalidMbapLengthField u16
  | UndecodableFrame DecodeError
  | TransactionIdMismatch u16 u16
  | ClosedBeforeRtuFrame
  | RtuFrameTooLong
  | OperationTimedOut
  | OsError nat

fun kind :: "io_error \<Rightarrow> ErrorKind" where
  "kind EarlyEof = UnexpectedEof"
| "kind (InvalidMbapLengthField _) = InvalidData"
| "kind (UndecodableFrame _) = InvalidData"
| "kind (TransactionIdMismatch _ _) = InvalidData"
| "kind ClosedBeforeRtuFrame = UnexpectedEof"
| "kind RtuFrameTooLong = InvalidData"
| "kind OperationTimedOut = TimedOut"
| "kind (OsError k) = OsErrorKind k"

datatype read_event = Byte u8 | Eof | ReadFails io_error | Elapsed

text \<open>A failing or abandoned write may have put some bytes on the wire already.\<close>

datatype write_event = Accepted | WriteFails nat io_error | WriteElapsed nat

record stream =
  reads :: "read_event list"
  writes :: "write_event list"
  written :: bytes

text \<open>A future that is dropped because its timer ran out is \<open>Pending\<close>.\<close>

datatype poll_error = Failed io_error | Pending

type_synonym ('s, 'a, 'e) io = "'s \<Rightarrow> ('a, 'e) result \<times> 's"

fun io_then :: "('s, 'a, 'e) io \<Rightarrow> ('a \<Rightarrow> ('s, 'b, 'e) io) \<Rightarrow> ('s, 'b, 'e) io" where
  "io_then m f s =
     (case m s of
        (Ok x, s') \<Rightarrow> f x s'
      | (Err e, s') \<Rightarrow> (Err e, s')
      | (Panic, s') \<Rightarrow> (Panic, s'))"

definition io_return :: "('a, 'e) result \<Rightarrow> ('s, 'a, 'e) io" where
  "io_return r s = (r, s)"

definition with_timeout :: "('s, 'a, poll_error) io \<Rightarrow> ('s, 'a, io_error) io" where
  "with_timeout future s =
     (let (r, s') = future s
      in (map_err (\<lambda>e. case e of Failed io \<Rightarrow> io | Pending \<Rightarrow> OperationTimedOut) r, s'))"

text \<open>One poll of a one-byte read. A closed stream stays closed.\<close>

definition next_read :: "stream \<Rightarrow> read_event \<times> stream" where
  "next_read s =
     (case reads s of
        [] \<Rightarrow> (Elapsed, s)
      | Eof # es \<Rightarrow> (Eof, s)
      | e # es \<Rightarrow> (e, s\<lparr>reads := es\<rparr>))"

text \<open>\<open>AsyncReadExt::read_exact\<close> into a buffer of \<open>n\<close> bytes, and \<open>AsyncWriteExt::write_all\<close>.\<close>

fun read_exact :: "nat \<Rightarrow> (stream, bytes, poll_error) io" where
  "read_exact 0 s = (Ok [], s)"
| "read_exact (Suc n) s =
     (case next_read s of
        (Byte b, s') \<Rightarrow>
          (case read_exact n s' of
             (Ok bs, s'') \<Rightarrow> (Ok (b # bs), s'')
           | (Err e, s'') \<Rightarrow> (Err e, s'')
           | (Panic, s'') \<Rightarrow> (Panic, s''))
      | (Eof, s') \<Rightarrow> (Err (Failed EarlyEof), s')
      | (ReadFails e, s') \<Rightarrow> (Err (Failed e), s')
      | (Elapsed, s') \<Rightarrow> (Err Pending, s'))"

definition write_all :: "bytes \<Rightarrow> (stream, unit, poll_error) io" where
  "write_all bs s =
     (case writes s of
        [] \<Rightarrow> (Err Pending, s)
      | Accepted # ws \<Rightarrow> (Ok (), s\<lparr>writes := ws, written := written s @ bs\<rparr>)
      | WriteFails n e # ws \<Rightarrow>
          (Err (Failed e), s\<lparr>writes := ws, written := written s @ take n bs\<rparr>)
      | WriteElapsed n # ws \<Rightarrow> (Err Pending, s\<lparr>writes := ws, written := written s @ take n bs\<rparr>))"

section \<open>Modbus TCP\<close>

definition read_adu :: "(stream, TcpAdu, poll_error) io" where
  "read_adu =
     io_then (read_exact MBAP_HEADER_LEN) (\<lambda>header.
     io_then (io_return (read_u16_be header MBAP_LENGTH_BYTE)) (\<lambda>len.
     if len = 0 \<or> MBAP_MAX_LENGTH < len then io_return (Err (Failed (InvalidMbapLengthField len)))
     else io_then (read_exact (unat len - 1)) (\<lambda>body.
     io_return (map_err (\<lambda>e. Failed (UndecodableFrame e)) (TcpAdu_decode (header @ body))))))"

definition tcp_send_request :: "TcpAdu \<Rightarrow> (stream, TcpAdu, io_error) io" where
  "tcp_send_request request =
     io_then (with_timeout (write_all (TcpAdu_encode request))) (\<lambda>_.
     io_then (with_timeout read_adu) (\<lambda>response.
     if TcpAdu.transaction_id response \<noteq> TcpAdu.transaction_id request
     then io_return (Err (TransactionIdMismatch (TcpAdu.transaction_id request)
                            (TcpAdu.transaction_id response)))
     else io_return (Ok response)))"

text \<open>
  The handler is the caller's closure, \<open>AsyncFnMut(u8, &[u8]) -> Option<Vec<u8>>\<close>: a state
  transformer on a state of its own.
\<close>

type_synonym 'h handler = "u8 \<Rightarrow> bytes \<Rightarrow> 'h \<Rightarrow> (bytes option, io_error) result \<times> 'h"

text \<open>An action on the stream, and the handler, on the pair of stream and handler state.\<close>

definition on_stream :: "(stream, 'a, 'e) io \<Rightarrow> (stream \<times> 'h, 'a, 'e) io" where
  "on_stream m p = (let (r, s') = m (fst p) in (r, (s', snd p)))"

definition run_handler ::
    "'h handler \<Rightarrow> u8 \<Rightarrow> bytes \<Rightarrow> (stream \<times> 'h, bytes option, io_error) io" where
  "run_handler handler uid body p = (let (r, h') = handler uid body (snd p) in (r, (fst p, h')))"

definition tcp_serve_request :: "'h handler \<Rightarrow> (stream \<times> 'h, unit, io_error) io" where
  "tcp_serve_request handler =
     io_then (on_stream (with_timeout read_adu)) (\<lambda>request.
     io_then (run_handler handler (TcpAdu.unit_id request) (TcpAdu.pdu request)) (\<lambda>answer.
     case answer of
       None \<Rightarrow> io_return (Ok ())
     | Some response_pdu \<Rightarrow>
         on_stream (with_timeout (write_all (TcpAdu_encode
           \<lparr>TcpAdu.transaction_id = TcpAdu.transaction_id request,
            unit_id = TcpAdu.unit_id request, pdu = response_pdu\<rparr>)))))"

section \<open>Modbus RTU\<close>

definition RTU_MAX_FRAME_LEN :: nat where [simp]: "RTU_MAX_FRAME_LEN = 256"

text \<open>The \<open>loop\<close> of \<open>read_rtu_frame\<close>; \<open>frame\<close> is the buffer it has filled so far.\<close>

function read_rtu_frame :: "bytes \<Rightarrow> (stream, bytes, io_error) io" where
  "read_rtu_frame frame s =
     (case next_read s of
        (Eof, s') \<Rightarrow> if frame = [] then (Err ClosedBeforeRtuFrame, s') else (Ok frame, s')
      | (Byte b, s') \<Rightarrow>
          let frame' = frame @ [b]
          in if RTU_MAX_FRAME_LEN < length frame' then (Err RtuFrameTooLong, s')
             else read_rtu_frame frame' s'
      | (ReadFails e, s') \<Rightarrow> (Err e, s')
      | (Elapsed, s') \<Rightarrow> if frame = [] then (Err OperationTimedOut, s') else (Ok frame, s'))"
  by pat_completeness auto
termination
  by (relation "measure (\<lambda>(frame, s). length (reads s))")
     (auto simp: next_read_def split: list.splits read_event.splits)

declare read_rtu_frame.simps [simp del]

definition rtu_send_request :: "RtuAdu \<Rightarrow> (stream, RtuAdu, io_error) io" where
  "rtu_send_request request =
     io_then (with_timeout (write_all (RtuAdu_encode request))) (\<lambda>_.
     io_then (read_rtu_frame []) (\<lambda>frame.
     io_return (map_err UndecodableFrame (RtuAdu_decode frame))))"

definition rtu_serve_request :: "'h handler \<Rightarrow> (stream \<times> 'h, unit, io_error) io" where
  "rtu_serve_request handler =
     io_then (on_stream (read_rtu_frame [])) (\<lambda>frame.
     io_then (io_return (map_err UndecodableFrame (RtuAdu_decode frame))) (\<lambda>request.
     io_then (run_handler handler (RtuAdu.unit_id request) (RtuAdu.pdu request)) (\<lambda>answer.
     case answer of
       None \<Rightarrow> io_return (Ok ())
     | Some response_pdu \<Rightarrow>
         on_stream (with_timeout (write_all (RtuAdu_encode
           \<lparr>RtuAdu.unit_id = RtuAdu.unit_id request, pdu = response_pdu\<rparr>))))))"

text \<open>
  \<open>frame_silence_for_baud_rate\<close>, in nanoseconds. The division of the source panics on a
  zero divisor; its multiplication is on \<open>u64\<close>.
\<close>

definition frame_silence_for_baud_rate :: "u32 \<Rightarrow> (u64, 'e) result" where
  "frame_silence_for_baud_rate baud_rate =
     (if 19200 \<le> baud_rate then Ok (1750 * 1000)
      else if (ucast baud_rate :: u64) = 0 then Panic
      else let char_time_nanos = 11000000000 div (ucast baud_rate :: u64)
           in Ok (char_time_nanos * 7 div 2))"

section \<open>Reading\<close>

lemma next_read_simps [simp]:
  "reads s = Byte b # es \<Longrightarrow> next_read s = (Byte b, s\<lparr>reads := es\<rparr>)"
  "reads s = Elapsed # es \<Longrightarrow> next_read s = (Elapsed, s\<lparr>reads := es\<rparr>)"
  "reads s = ReadFails e # es \<Longrightarrow> next_read s = (ReadFails e, s\<lparr>reads := es\<rparr>)"
  "reads s = Eof # es \<Longrightarrow> next_read s = (Eof, s)"
  "reads s = [] \<Longrightarrow> next_read s = (Elapsed, s)"
  by (simp_all add: next_read_def)

lemma read_exact_bytes:
  "reads s = map Byte bs @ es \<Longrightarrow> n = length bs \<Longrightarrow> read_exact n s = (Ok bs, s\<lparr>reads := es\<rparr>)"
proof (induction bs arbitrary: n s)
  case (Cons b bs)
  then show ?case using Cons.IH [of "s\<lparr>reads := map Byte bs @ es\<rparr>"] by simp
qed simp

text \<open>What a read leaves of the stream: at most \<open>n\<close> events are consumed, nothing is written.\<close>

definition consumes_at_most :: "nat \<Rightarrow> stream \<Rightarrow> stream \<Rightarrow> bool" where
  "consumes_at_most n s s' \<longleftrightarrow> (\<exists>k \<le> n. s' = s\<lparr>reads := drop k (reads s)\<rparr>)"

lemma consumes_refl [simp]: "consumes_at_most n s s"
  unfolding consumes_at_most_def by (rule exI [of _ 0]) simp

lemma consumes_trans:
  "consumes_at_most m s s' \<Longrightarrow> consumes_at_most n s' s'' \<Longrightarrow> consumes_at_most (m + n) s s''"
  unfolding consumes_at_most_def
  by clarsimp (metis add.commute add_mono drop_drop)

lemma consumes_mono: "consumes_at_most m s s' \<Longrightarrow> m \<le> n \<Longrightarrow> consumes_at_most n s s'"
  unfolding consumes_at_most_def by (auto intro: order_trans)

lemma next_read_consumes: "consumes_at_most 1 s (snd (next_read s))"
proof (cases "reads s")
  case (Cons e es)
  then have "next_read s = (e, s) \<or> next_read s = (e, s\<lparr>reads := drop 1 (reads s)\<rparr>)"
    by (cases e) (auto simp: next_read_def)
  then show ?thesis
    unfolding consumes_at_most_def
    by (metis consumes_at_most_def consumes_refl le_refl snd_conv)
qed simp

lemma read_exact_consumes:
  "consumes_at_most n s (snd (read_exact n s)) \<and> fst (read_exact n s) \<noteq> Panic
   \<and> (\<forall>bs. fst (read_exact n s) = Ok bs \<longrightarrow> length bs = n)"
proof (induction n arbitrary: s)
  case (Suc n)
  obtain e s1 where e: "next_read s = (e, s1)" by fastforce
  then have "consumes_at_most 1 s s1"
    using next_read_consumes [of s] by simp
  then show ?case
    using Suc.IH [of s1] consumes_trans [of 1 s s1 n] consumes_mono [of 1 s s1 "Suc n"]
    by (cases e; cases "read_exact n s1"; cases "fst (read_exact n s1)") (auto simp: e)
qed simp

lemma read_adu_cases:
  assumes "read_adu s = (r, s')"
  shows "consumes_at_most 260 s s' \<and> r \<noteq> Panic"
proof -
  obtain h s1 where h: "read_exact 7 s = (h, s1)" by fastforce
  note c1 = read_exact_consumes [of 7 s, unfolded h, simplified]
  show ?thesis
  proof (cases h)
    case (Ok header)
    with c1 have "length header = 7" by simp
    then obtain len where len: "read_u16_be header 4 = (Ok len :: (u16, poll_error) result)"
      by (auto simp: read_u16_be_def)
    show ?thesis
    proof (cases "len = 0 \<or> 254 < len")
      case True
      with assms h Ok len c1 show ?thesis
        by (auto simp: read_adu_def io_return_def intro: consumes_mono)
    next
      case False
      then have "unat len - 1 \<le> 253" by (simp add: word_less_nat_alt) linarith
      moreover obtain b s2 where b: "read_exact (unat len - 1) s1 = (b, s2)" by fastforce
      note c2 = read_exact_consumes [of "unat len - 1" s1, unfolded b, simplified]
      ultimately have "consumes_at_most 260 s s2"
        using consumes_mono [OF consumes_trans [of 7 s s1 "unat len - 1" s2], of 260] c1 c2 by simp
      moreover have "s' = s2 \<and> r \<noteq> Panic"
        using assms h Ok len False b c2
        by (cases b) (auto simp: read_adu_def io_return_def TcpAdu_decode_not_Panic)
      ultimately show ?thesis by simp
    qed
  next
    case (Err e)
    with assms h c1 show ?thesis
      by (auto simp: read_adu_def intro: consumes_mono)
  next
    case Panic
    with c1 show ?thesis by simp
  qed
qed

text \<open>A frame that has arrived is read off the stream whole, and nothing after it.\<close>

lemma TcpAdu_encode_split:
  obtains header body where "TcpAdu_encode adu = header @ body" "length header = 7"
    "body = TcpAdu.pdu adu"
    "read_u16_be header 4 = Ok (1 + of_nat (length (TcpAdu.pdu adu)))"
proof
  let ?h = "take 7 (TcpAdu_encode adu)"
  show "TcpAdu_encode adu = ?h @ TcpAdu.pdu adu"
    by (simp add: TcpAdu_encode_def to_be_bytes_def)
  show "read_u16_be ?h 4 = Ok (1 + of_nat (length (TcpAdu.pdu adu)))"
    by (simp add: TcpAdu_encode_def to_be_bytes_def read_u16_be_def)
qed simp_all

lemma read_adu_delivered:
  assumes "reads s = map Byte (TcpAdu_encode adu) @ es" and "length (TcpAdu.pdu adu) \<le> 253"
  shows "read_adu s = (Ok adu, s\<lparr>reads := es\<rparr>)"
proof -
  obtain header body where split: "TcpAdu_encode adu = header @ body" "length header = 7"
    "body = TcpAdu.pdu adu"
    "read_u16_be header 4 = (Ok (1 + of_nat (length (TcpAdu.pdu adu))) :: (u16, poll_error) result)"
    by (rule TcpAdu_encode_split)
  have h: "read_exact 7 s = (Ok header, s\<lparr>reads := map Byte body @ es\<rparr>)"
    using assms(1) split by (intro read_exact_bytes) simp_all
  let ?len = "1 + of_nat (length body) :: u16"
  have len: "unat ?len = Suc (length body)"
    using unat_mbap_length assms(2) split(3) by simp
  then have "\<not> (?len = 0 \<or> 254 < ?len)"
    using assms(2) split(3) by (auto simp: word_less_nat_alt unat_eq_zero)
  moreover have "read_exact (length body) (s\<lparr>reads := map Byte body @ es\<rparr>) = (Ok body, s\<lparr>reads := es\<rparr>)"
    by (subst read_exact_bytes [where bs = body and es = es]) simp_all
  ultimately show ?thesis
    using h len split TcpAdu_decode_encode [of adu "[]"] assms(2)
    by (simp add: read_adu_def io_return_def)
qed

text \<open>The RTU reader fills its buffer byte by byte until the line falls silent.\<close>

lemma read_rtu_frame_cases:
  assumes "read_rtu_frame frame s = (r, s')" and "length frame \<le> 256"
  shows "consumes_at_most (257 - length frame) s s' \<and> r \<noteq> Panic
         \<and> (\<forall>f. r = Ok f \<longrightarrow> prefix frame f \<and> f \<noteq> [] \<and> length f \<le> 256)"
  using assms
proof (induction frame s arbitrary: r s' rule: read_rtu_frame.induct)
  case (1 frame s)
  obtain e s1 where e: "next_read s = (e, s1)" by fastforce
  then have c: "consumes_at_most 1 s s1"
    using next_read_consumes [of s] by simp
  with "1.prems" have short: "consumes_at_most (257 - length frame) s s1"
    by (elim consumes_mono) simp
  show ?case
  proof (cases "\<exists>b. e = Byte b \<and> length frame < 256")
    case True
    then obtain b where b: "e = Byte b" "length frame < 256" by auto
    with e "1.prems" have rec: "read_rtu_frame (frame @ [b]) s1 = (r, s')"
      by (subst (asm) read_rtu_frame.simps) simp
    have ih: "consumes_at_most (257 - length (frame @ [b])) s1 s' \<and> r \<noteq> Panic
        \<and> (\<forall>f. r = Ok f \<longrightarrow> prefix (frame @ [b]) f \<and> f \<noteq> [] \<and> length f \<le> 256)"
      using b by (intro "1.IH" [OF e [symmetric] _ refl _ rec]) simp_all
    then have "consumes_at_most (257 - length frame) s s'"
      using consumes_mono [OF consumes_trans [OF c]] b by fastforce
    with ih show ?thesis by (auto dest: append_prefixD)
  next
    case False
    with short "1.prems" e show ?thesis
      by (subst (asm) (1) read_rtu_frame.simps) (auto split: read_event.splits if_splits)
  qed
qed

lemma read_rtu_frame_delivered:
  assumes "reads s = map Byte bs @ Elapsed # es" and "frame @ bs \<noteq> []"
    and "length frame + length bs \<le> 256"
  shows "read_rtu_frame frame s = (Ok (frame @ bs), s\<lparr>reads := es\<rparr>)"
  using assms
proof (induction bs arbitrary: frame s)
  case Nil
  then show ?case by (subst read_rtu_frame.simps) simp
next
  case (Cons b bs)
  from Cons.IH [of "s\<lparr>reads := map Byte bs @ Elapsed # es\<rparr>" "frame @ [b]"] Cons.prems
  show ?case by (subst read_rtu_frame.simps) simp
qed

section \<open>The transport contract\<close>

text \<open>
  What both transports promise the code above them. \<open>arrival\<close> is how a sent byte string
  shows up at the receiver: byte by byte on TCP, byte by byte followed by silence on RTU.
\<close>

fun receive_n :: "('s, 'a, 'e) io \<Rightarrow> nat \<Rightarrow> ('s, 'a list, 'e) io" where
  "receive_n receive 0 = io_return (Ok [])"
| "receive_n receive (Suc n) =
     io_then receive (\<lambda>a. io_then (receive_n receive n) (\<lambda>as. io_return (Ok (a # as))))"

locale frame_transport =
  fixes receive :: "(stream, 'adu, io_error) io"
    and encode :: "'adu \<Rightarrow> bytes"
    and arrival :: "bytes \<Rightarrow> read_event list"
    and fits :: "'adu \<Rightarrow> bool"
  assumes receive_arrived:
      "fits a \<Longrightarrow> reads s = arrival (encode a) @ es \<Longrightarrow> receive s = (Ok a, s\<lparr>reads := es\<rparr>)"
    and receive_no_panic: "fst (receive s) \<noteq> Panic"
    and receive_bounded: "consumes_at_most 260 s (snd (receive s))"
begin

lemma receive_in_order:
  assumes "\<forall>a \<in> set as. fits a" and "reads s = concat (map (\<lambda>a. arrival (encode a)) as) @ es"
  shows "receive_n receive (length as) s = (Ok as, s\<lparr>reads := es\<rparr>)"
  using assms
proof (induction as arbitrary: s)
  case (Cons a as)
  then have "receive s = (Ok a, s\<lparr>reads := concat (map (\<lambda>a. arrival (encode a)) as) @ es\<rparr>)"
    by (intro receive_arrived) simp_all
  then show ?case
    using Cons.IH [of "s\<lparr>reads := concat (map (\<lambda>a. arrival (encode a)) as) @ es\<rparr>"] Cons.prems
    by (simp add: io_return_def)
qed (simp add: io_return_def)

lemma receive_n_bounded:
  "fst (receive_n receive n s) \<noteq> Panic \<and> consumes_at_most (n * 260) s (snd (receive_n receive n s))"
proof (induction n arbitrary: s)
  case (Suc n)
  obtain r s1 where r: "receive s = (r, s1)" by fastforce
  then have c: "r \<noteq> Panic" "consumes_at_most 260 s s1"
    using receive_no_panic [of s] receive_bounded [of s] by simp_all
  show ?case
    using Suc.IH [of s1] r c consumes_trans [of 260 s s1 "n * 260"]
      consumes_mono [of 260 s s1 "260 + n * 260"]
    by (cases r; cases "receive_n receive n s1"; cases "fst (receive_n receive n s1)")
       (auto simp: io_return_def)
qed (simp add: io_return_def)

lemma receive_leaves_output: "written (snd (receive s)) = written s"
  using receive_bounded [of s] by (auto simp: consumes_at_most_def)

end

definition receive_tcp :: "(stream, TcpAdu, io_error) io" where
  "receive_tcp = with_timeout read_adu"

definition receive_rtu :: "(stream, RtuAdu, io_error) io" where
  "receive_rtu =
     io_then (read_rtu_frame []) (\<lambda>frame. io_return (map_err UndecodableFrame (RtuAdu_decode frame)))"

interpretation tcp: frame_transport receive_tcp TcpAdu_encode "map Byte"
    "\<lambda>a. length (TcpAdu.pdu a) \<le> 253"
proof
  fix s
  obtain r s' where r: "read_adu s = (r, s')" by fastforce
  then show "fst (receive_tcp s) \<noteq> Panic" "consumes_at_most 260 s (snd (receive_tcp s))"
    using read_adu_cases [OF r] by (simp_all add: receive_tcp_def with_timeout_def)
qed (simp add: receive_tcp_def with_timeout_def read_adu_delivered)

interpretation rtu: frame_transport receive_rtu RtuAdu_encode "\<lambda>bs. map Byte bs @ [Elapsed]"
    "\<lambda>a. length (RtuAdu.pdu a) \<le> 253"
proof
  fix s :: stream
  obtain r s' where r: "read_rtu_frame [] s = (r, s')" by fastforce
  with read_rtu_frame_cases [OF r]
  show "fst (receive_rtu s) \<noteq> Panic" "consumes_at_most 260 s (snd (receive_rtu s))"
    by (cases r; auto simp: receive_rtu_def io_return_def RtuAdu_decode_not_Panic
        intro: consumes_mono)+
next
  fix a :: RtuAdu and s :: stream and es
  assume "length (RtuAdu.pdu a) \<le> 253" and "reads s = (map Byte (RtuAdu_encode a) @ [Elapsed]) @ es"
  then have "read_rtu_frame [] s = (Ok (RtuAdu_encode a), s\<lparr>reads := es\<rparr>)"
    using read_rtu_frame_delivered [of s "RtuAdu_encode a" es "[]"]
    by (simp add: RtuAdu_encode_def Let_def)
  moreover have "RtuAdu_decode (RtuAdu_encode a) = Ok a"
    by (simp add: RtuAdu_decode_iff)
  ultimately show "receive_rtu s = (Ok a, s\<lparr>reads := es\<rparr>)"
    by (simp add: receive_rtu_def io_return_def)
qed

section \<open>Requests and responses\<close>

lemma with_timeout_write_accepted:
  "writes s = Accepted # ws \<Longrightarrow>
     with_timeout (write_all bs) s = (Ok (), s\<lparr>writes := ws, written := written s @ bs\<rparr>)"
  by (simp add: with_timeout_def write_all_def)

lemma with_timeout_write_all_cases:
  assumes "with_timeout (write_all bs) s = (r, s')"
  shows "r \<noteq> Panic \<and> reads s' = reads s
         \<and> (\<exists>n. written s' = written s @ take n bs) \<and> (r = Ok () \<longrightarrow> written s' = written s @ bs)"
  using assms
  by (auto simp: with_timeout_def write_all_def split: list.splits write_event.splits
      intro: exI [of _ 0] exI [of _ "length bs"])

lemma response_adu:
  "\<lparr>TcpAdu.transaction_id = TcpAdu.transaction_id a, unit_id = TcpAdu.unit_id a, pdu = p\<rparr>
     = a\<lparr>TcpAdu.pdu := p\<rparr>"
  "\<lparr>RtuAdu.unit_id = RtuAdu.unit_id b, pdu = p\<rparr> = b\<lparr>RtuAdu.pdu := p\<rparr>"
  by (cases a, simp, cases b, simp)

lemma tcp_serve_request_eq:
  "tcp_serve_request handler =
     io_then (on_stream receive_tcp) (\<lambda>request.
     io_then (run_handler handler (TcpAdu.unit_id request) (TcpAdu.pdu request)) (\<lambda>answer.
     case answer of
       None \<Rightarrow> io_return (Ok ())
     | Some p \<Rightarrow> on_stream (with_timeout (write_all (TcpAdu_encode (request\<lparr>TcpAdu.pdu := p\<rparr>))))))"
  unfolding tcp_serve_request_def receive_tcp_def
  by (simp add: response_adu)

lemma rtu_send_request_eq:
  "rtu_send_request request =
     io_then (with_timeout (write_all (RtuAdu_encode request))) (\<lambda>_. receive_rtu)"
  by (simp add: rtu_send_request_def receive_rtu_def)

lemma rtu_serve_request_eq:
  "rtu_serve_request handler =
     io_then (on_stream receive_rtu) (\<lambda>request.
     io_then (run_handler handler (RtuAdu.unit_id request) (RtuAdu.pdu request)) (\<lambda>answer.
     case answer of
       None \<Rightarrow> io_return (Ok ())
     | Some p \<Rightarrow> on_stream (with_timeout (write_all (RtuAdu_encode (request\<lparr>RtuAdu.pdu := p\<rparr>))))))"
  by (rule ext)
     (auto simp: rtu_serve_request_def receive_rtu_def on_stream_def io_return_def Let_def response_adu
        split: prod.splits result.splits option.splits)

text \<open>
  C18: A Modbus TCP exchange delivers what was said. The client's request, written to the
  wire, is what the server's handler is called with; the handler's reply PDU comes back
  to the client under the request's own transaction and unit ID. Each side writes exactly
  one frame and leaves whatever else is on its stream untouched.
\<close>

theorem tcp_exchange:
  assumes "length (TcpAdu.pdu request) \<le> 253" and "length reply \<le> 253"
    and "handler (TcpAdu.unit_id request) (TcpAdu.pdu request) h = (Ok (Some reply), h')"
    and "response = request\<lparr>TcpAdu.pdu := reply\<rparr>"
  shows "tcp_serve_request handler
           (\<lparr>reads = map Byte (TcpAdu_encode request) @ es, writes = Accepted # ws, written = out\<rparr>, h)
         = (Ok (), (\<lparr>reads = es, writes = ws, written = out @ TcpAdu_encode response\<rparr>, h'))
     \<and> tcp_send_request request
           \<lparr>reads = map Byte (TcpAdu_encode response) @ es, writes = Accepted # ws, written = out\<rparr>
         = (Ok response, \<lparr>reads = es, writes = ws, written = out @ TcpAdu_encode request\<rparr>)"
proof
  let ?in = "\<lparr>reads = map Byte (TcpAdu_encode request) @ es, writes = Accepted # ws, written = out\<rparr>"
  have "receive_tcp ?in = (Ok request, \<lparr>reads = es, writes = Accepted # ws, written = out\<rparr>)"
    using tcp.receive_arrived [of request] assms(1) by simp
  then show "tcp_serve_request handler (?in, h)
         = (Ok (), (\<lparr>reads = es, writes = ws, written = out @ TcpAdu_encode response\<rparr>, h'))"
    using assms
    by (simp add: tcp_serve_request_eq on_stream_def run_handler_def with_timeout_write_accepted)
  show "tcp_send_request request
           \<lparr>reads = map Byte (TcpAdu_encode response) @ es, writes = Accepted # ws, written = out\<rparr>
         = (Ok response, \<lparr>reads = es, writes = ws, written = out @ TcpAdu_encode request\<rparr>)"
    using assms(2,4) tcp.receive_arrived [of response]
    by (simp add: tcp_send_request_def with_timeout_write_accepted io_return_def
        flip: receive_tcp_def)
qed

theorem tcp_exchange_witness:
  "tcp_serve_request (\<lambda>u p h. (Ok (Some (rev p)), Suc h))
     (\<lparr>reads = map Byte (TcpAdu_encode \<lparr>transaction_id = 7, unit_id = 1, pdu = [3, 0]\<rparr>) @ [],
       writes = [Accepted], written = []\<rparr>, 0)
   = (Ok (), (\<lparr>reads = [], writes = [],
       written = [] @ TcpAdu_encode \<lparr>transaction_id = 7, unit_id = 1, pdu = [0, 3]\<rparr>\<rparr>, 1))"
  using tcp_exchange [of "\<lparr>transaction_id = 7, unit_id = 1, pdu = [3, 0]\<rparr>" "[0, 3]"
      "\<lambda>u p h. (Ok (Some (rev p)), Suc h)" 0 1
      "\<lparr>transaction_id = 7, unit_id = 1, pdu = [0, 3]\<rparr>" "[]" "[]" "[]"]
  by simp

text \<open>
  The same for Modbus RTU, where silence on the line ends each frame: the handler is
  called with the client's PDU and the client receives the handler's, under the same
  unit ID.
\<close>

theorem rtu_exchange:
  assumes "length (RtuAdu.pdu request) \<le> 253" and "length reply \<le> 253"
    and "handler (RtuAdu.unit_id request) (RtuAdu.pdu request) h = (Ok (Some reply), h')"
    and "response = request\<lparr>RtuAdu.pdu := reply\<rparr>"
  shows "rtu_serve_request handler
           (\<lparr>reads = map Byte (RtuAdu_encode request) @ [Elapsed] @ es, writes = Accepted # ws,
             written = out\<rparr>, h)
         = (Ok (), (\<lparr>reads = es, writes = ws, written = out @ RtuAdu_encode response\<rparr>, h'))
     \<and> rtu_send_request request
           \<lparr>reads = map Byte (RtuAdu_encode response) @ [Elapsed] @ es, writes = Accepted # ws,
             written = out\<rparr>
         = (Ok response, \<lparr>reads = es, writes = ws, written = out @ RtuAdu_encode request\<rparr>)"
proof
  let ?in = "\<lambda>a. \<lparr>reads = map Byte (RtuAdu_encode a) @ [Elapsed] @ es, writes = Accepted # ws,
                  written = out\<rparr>"
  have "receive_rtu (?in request) = (Ok request, \<lparr>reads = es, writes = Accepted # ws, written = out\<rparr>)"
    using rtu.receive_arrived [of request] assms(1) by simp
  then show "rtu_serve_request handler (?in request, h)
         = (Ok (), (\<lparr>reads = es, writes = ws, written = out @ RtuAdu_encode response\<rparr>, h'))"
    using assms
    by (simp add: rtu_serve_request_eq on_stream_def run_handler_def with_timeout_write_accepted)
  show "rtu_send_request request (?in response)
         = (Ok response, \<lparr>reads = es, writes = ws, written = out @ RtuAdu_encode request\<rparr>)"
    using assms(2,4) rtu.receive_arrived [of response]
    by (simp add: rtu_send_request_eq with_timeout_write_accepted io_return_def)
qed

theorem rtu_exchange_witness:
  "rtu_serve_request (\<lambda>u p h. (Ok (Some (rev p)), Suc h))
     (\<lparr>reads = map Byte (RtuAdu_encode \<lparr>unit_id = 1, pdu = [3, 0]\<rparr>) @ [Elapsed] @ [],
       writes = [Accepted], written = []\<rparr>, 0)
   = (Ok (), (\<lparr>reads = [], writes = [],
       written = [] @ RtuAdu_encode \<lparr>unit_id = 1, pdu = [0, 3]\<rparr>\<rparr>, 1))"
  using rtu_exchange [of "\<lparr>unit_id = 1, pdu = [3, 0]\<rparr>" "[0, 3]"
      "\<lambda>u p h. (Ok (Some (rev p)), Suc h)" 0 1 "\<lparr>unit_id = 1, pdu = [0, 3]\<rparr>" "[]" "[]" "[]"]
  by simp

text \<open>
  Whatever a peer sends and however it times it, reading a frame returns an ADU or an
  I/O error and never panics. It takes at most 260 events off a TCP stream and at most 257
  off a serial line, so no peer can make the reader buffer more than a maximal frame, and
  it writes nothing. A sequence of frames that arrive back to back is read as that sequence.
\<close>

theorem frame_reading_is_bounded_and_ordered:
  "fst (receive_tcp s) \<noteq> Panic \<and> consumes_at_most 260 s (snd (receive_tcp s))
   \<and> fst (receive_rtu s) \<noteq> Panic \<and> consumes_at_most 257 s (snd (receive_rtu s))
   \<and> ((\<forall>a \<in> set as. length (TcpAdu.pdu a) \<le> 253) \<longrightarrow>
        receive_n receive_tcp (length as)
          \<lparr>reads = concat (map (\<lambda>a. map Byte (TcpAdu_encode a)) as) @ es, writes = ws, written = out\<rparr>
        = (Ok as, \<lparr>reads = es, writes = ws, written = out\<rparr>))"
proof -
  obtain r s' where r: "read_rtu_frame [] s = (r, s')" by fastforce
  then have "consumes_at_most 257 s (snd (receive_rtu s))"
    using read_rtu_frame_cases [OF r]
    by (cases r) (auto simp: receive_rtu_def io_return_def)
  then show ?thesis
    using tcp.receive_no_panic tcp.receive_bounded rtu.receive_no_panic tcp.receive_in_order [of as]
    by simp
qed

theorem frame_reading_is_bounded_and_ordered_witness:
  "receive_n receive_tcp (length [\<lparr>transaction_id = 7, unit_id = 1, pdu = [3, 0]\<rparr>])
     \<lparr>reads = concat (map (\<lambda>a. map Byte (TcpAdu_encode a)) [\<lparr>transaction_id = 7, unit_id = 1, pdu = [3, 0]\<rparr>]) @ [Eof],
       writes = [], written = []\<rparr>
   = (Ok [\<lparr>transaction_id = 7, unit_id = 1, pdu = [3, 0]\<rparr>], \<lparr>reads = [Eof], writes = [], written = []\<rparr>)"
  using frame_reading_is_bounded_and_ordered
    [of _ "[\<lparr>transaction_id = 7, unit_id = 1, pdu = [3, 0]\<rparr>]" "[Eof]" "[]" "[]"]
  by simp

text \<open>
  A server answers at most one request per call and only what its handler said. On any
  stream, \<open>serve_request\<close> either leaves the output as it was, or one ADU was received, the
  handler answered it with some PDU, and what was written is the frame of that PDU under
  the request's own transaction and unit ID: all of it when the call succeeds, some part of
  it when the write failed.
\<close>

theorem tcp_serve_request_answers_own_request:
  assumes "tcp_serve_request handler (s, h) = (r, (s', h'))"
  shows "written s' = written s \<or>
     (\<exists>a s1 p n. receive_tcp s = (Ok a, s1)
        \<and> handler (TcpAdu.unit_id a) (TcpAdu.pdu a) h = (Ok (Some p), h')
        \<and> written s' = written s @ take n (TcpAdu_encode (a\<lparr>TcpAdu.pdu := p\<rparr>))
        \<and> (r = Ok () \<longrightarrow> written s' = written s @ TcpAdu_encode (a\<lparr>TcpAdu.pdu := p\<rparr>)))"
proof -
  obtain ra s1 where ra: "receive_tcp s = (ra, s1)" by fastforce
  then have w1: "written s1 = written s"
    using tcp.receive_leaves_output [of s] by simp
  show ?thesis
  proof (cases "\<exists>a p. ra = Ok a \<and> fst (handler (TcpAdu.unit_id a) (TcpAdu.pdu a) h) = Ok (Some p)")
    case True
    then obtain a p h1 where a: "ra = Ok a"
      and p: "handler (TcpAdu.unit_id a) (TcpAdu.pdu a) h = (Ok (Some p), h1)"
      by (metis prod.collapse)
    let ?frame = "TcpAdu_encode (a\<lparr>TcpAdu.pdu := p\<rparr>)"
    have sent: "with_timeout (write_all ?frame) s1 = (r, s')" and h: "h1 = h'"
      using assms ra a p
      by (auto simp: tcp_serve_request_eq on_stream_def run_handler_def split: prod.splits)
    show ?thesis
      using with_timeout_write_all_cases [OF sent] ra a p h w1 by auto
  next
    case False
    then have "written s' = written s1"
      using assms ra
      by (cases ra) (auto simp: tcp_serve_request_eq on_stream_def run_handler_def io_return_def
          split: prod.splits result.splits option.splits)
    with w1 show ?thesis by simp
  qed
qed

theorem tcp_serve_request_answers_own_request_witness:
  "let s = \<lparr>reads = map Byte (TcpAdu_encode \<lparr>transaction_id = 7, unit_id = 1, pdu = [3, 0]\<rparr>),
            writes = [WriteElapsed 3], written = []\<rparr>
   in \<exists>a s1 p n. receive_tcp s = (Ok a, s1) \<and> (Ok (Some (TcpAdu.pdu a)), ()) = (Ok (Some p), ())
           \<and> [0, 7, 0] = [] @ take n (TcpAdu_encode (a\<lparr>TcpAdu.pdu := p\<rparr>))"
proof -
  let ?s = "\<lparr>reads = map Byte (TcpAdu_encode \<lparr>transaction_id = 7, unit_id = 1, pdu = [3, 0]\<rparr>),
            writes = [WriteElapsed 3], written = []\<rparr>"
  let ?s' = "\<lparr>reads = [], writes = [], written = [0, 7, 0 :: u8]\<rparr>"
  have "tcp_serve_request (\<lambda>u p h. (Ok (Some p), h)) (?s, ()) = (Err OperationTimedOut, (?s', ()))"
    by code_simp
  from tcp_serve_request_answers_own_request [OF this] show ?thesis
    by (simp add: Let_def)
qed

text \<open>
  What the client's \<open>send_request\<close> accepts is a response to the request it sent: its
  transaction ID is the request's and its PDU has at most 253 bytes. A reply frame built
  around a longer PDU is refused by its length field before any of the PDU is read.
\<close>

theorem tcp_client_checks_response:
  "(tcp_send_request request s = (Ok response, s') \<longrightarrow>
      TcpAdu.transaction_id response = TcpAdu.transaction_id request
      \<and> length (TcpAdu.pdu response) \<le> 253)
   \<and> (253 < length (TcpAdu.pdu reply) \<and> length (TcpAdu.pdu reply) < 65535 \<longrightarrow>
      tcp_send_request request
          \<lparr>reads = map Byte (TcpAdu_encode reply) @ es, writes = Accepted # ws, written = out\<rparr>
      = (Err (InvalidMbapLengthField (of_nat (length (TcpAdu.pdu reply) + 1))),
         \<lparr>reads = map Byte (TcpAdu.pdu reply) @ es, writes = ws, written = out @ TcpAdu_encode request\<rparr>))"
  (is "?accepted \<and> (?long \<longrightarrow> ?refused)")
proof
  have "length (TcpAdu.pdu a) \<le> 253" if "read_adu s1 = (Ok a, s2)" for a s1 s2
    using that
    by (auto simp: read_adu_def io_return_def TcpAdu_decode_iff
        split: prod.splits result.splits if_splits)
  then show ?accepted
    by (auto simp: tcp_send_request_def with_timeout_def io_return_def
        split: prod.splits result.splits if_splits)
next
  show "?long \<longrightarrow> ?refused"
  proof
    assume long: ?long
    obtain header body where split: "TcpAdu_encode reply = header @ body" "length header = 7"
      "body = TcpAdu.pdu reply"
      "read_u16_be header 4 = (Ok (1 + of_nat (length (TcpAdu.pdu reply))) :: (u16, poll_error) result)"
      by (rule TcpAdu_encode_split)
    let ?s = "\<lparr>reads = map Byte (TcpAdu_encode reply) @ es, writes = ws,
               written = out @ TcpAdu_encode request\<rparr>"
    have "unat (1 + of_nat (length body) :: u16) = Suc (length body)"
      using long split(3) unat_of_nat_u16 [of "Suc (length body)"] by simp
    then have "254 < (1 + of_nat (length body) :: u16)"
      using long split(3) by (simp add: word_less_nat_alt)
    moreover have "read_exact 7 ?s = (Ok header, ?s\<lparr>reads := map Byte body @ es\<rparr>)"
      using split by (intro read_exact_bytes) simp_all
    ultimately have "read_adu ?s = (Err (Failed (InvalidMbapLengthField (1 + of_nat (length body)))),
        ?s\<lparr>reads := map Byte body @ es\<rparr>)"
      using split by (simp add: read_adu_def io_return_def)
    then show ?refused
      using split by (simp add: tcp_send_request_def with_timeout_write_accepted)
        (simp add: with_timeout_def)
  qed
qed

theorem tcp_client_checks_response_witness:
  "let reply = \<lparr>transaction_id = 7, unit_id = 1, pdu = replicate 254 0\<rparr>;
       request = \<lparr>transaction_id = 7, unit_id = 1, pdu = [3, 0]\<rparr>
   in tcp_send_request request \<lparr>reads = map Byte (TcpAdu_encode reply) @ [], writes = [Accepted], written = []\<rparr>
      = (Err (InvalidMbapLengthField 255),
         \<lparr>reads = map Byte (replicate 254 0) @ [], writes = [], written = [] @ TcpAdu_encode request\<rparr>)"
  using tcp_client_checks_response
    [of "\<lparr>transaction_id = 7, unit_id = 1, pdu = [3, 0]\<rparr>" _ _ _
        "\<lparr>transaction_id = 7, unit_id = 1, pdu = replicate 254 0\<rparr>" "[]" "[]" "[]"]
  by (simp add: Let_def)

lemma silence_rounding:
  assumes "0 < b" "b < (19200::nat)"
  defines "c \<equiv> 11000000000 div b"
  shows "1750000 \<le> c * 7 div 2 \<and> 2 * b * (c * 7 div 2) \<le> 77000000000
     \<and> 77000000000 < 2 * b * (c * 7 div 2 + 5)"
proof -
  have "572946 \<le> c"
    unfolding c_def using assms(1,2) by (simp add: less_eq_div_iff_mult_less_eq)
  then have "1750000 \<le> c * 7 div 2" by simp
  have low: "b * c \<le> 11000000000" 
    unfolding c_def by simp
  have high: "11000000000 < b * (c + 1)"
    unfolding c_def using assms(1) by (metis add.commute dividend_less_times_div plus_1_eq_Suc mult.commute mult_Suc_right)
  define n where "n = c * 7 div 2"
  have n: "2 * n \<le> 7 * c" "7 * c \<le> 2 * n + 1" unfolding n_def by auto
  have "2 * b * n \<le> 7 * (b * c)" using mult_le_mono2 [OF n(1), of b] by (simp only: mult_ac)
  with low have A: "2 * b * n \<le> 77000000000" by linarith
  have "7 * (b * c) \<le> 2 * b * n + b" using mult_le_mono2 [OF n(2), of b] by (simp only: distrib_left mult_ac mult_1_right)
  with high assms(1) have "77000000000 < 2 * b * (n + 5)"
    unfolding distrib_left by linarith
  with A \<open>1750000 \<le> c * 7 div 2\<close> show ?thesis by (simp add: n_def)
qed

text \<open>
  The silence that ends an RTU frame. Below 19200 baud it is three and a half character
  times of eleven bits, rounded down by less than five nanoseconds and computed without
  overflow; from 19200 baud on it is 1.75 ms, and it is never shorter than that. A baud
  rate of zero aborts the computation with a division by zero.
\<close>

theorem frame_silence_spec:
  "(baud_rate = 0 \<longrightarrow> frame_silence_for_baud_rate baud_rate = Panic)
   \<and> (baud_rate \<noteq> 0 \<longrightarrow> (\<exists>ns. frame_silence_for_baud_rate baud_rate = Ok ns \<and> 1750000 \<le> unat ns
        \<and> (if baud_rate < 19200
           then 2 * unat baud_rate * unat ns \<le> 77000000000
                \<and> 77000000000 < 2 * unat baud_rate * (unat ns + 5)
           else unat ns = 1750000)))"
proof -
  have "\<exists>ns. frame_silence_for_baud_rate baud_rate = (Ok ns :: (u64, 'e) result) \<and> 1750000 \<le> unat ns
        \<and> 2 * unat baud_rate * unat ns \<le> 77000000000
        \<and> 77000000000 < 2 * unat baud_rate * (unat ns + 5)"
    if "baud_rate \<noteq> 0" "baud_rate < 19200"
  proof -
    let ?b = "unat baud_rate" and ?c = "11000000000 div (ucast baud_rate :: u64)"
    have b: "0 < ?b" "?b < 19200"
      using that by (simp_all add: word_less_nat_alt unat_gt_0)
    have ub: "unat (ucast baud_rate :: u64) = ?b"
      by transfer simp
    then have c: "unat ?c = 11000000000 div ?b"
      by (simp add: unat_div_distrib)
    have c_le: "11000000000 div ?b \<le> (11000000000 :: nat)" by (rule div_le_dividend)
    have "unat (?c * 7) = unat ?c * unat (7 :: u64)"
      using c c_le by (intro iffD1 [OF unat_mult_lem]) (simp del: div_le_dividend)
    then have n: "unat (?c * 7 div 2) = (11000000000 div ?b) * 7 div 2"
      using c by (simp add: unat_div_distrib)
    have "frame_silence_for_baud_rate baud_rate = (Ok (?c * 7 div 2) :: (u64, 'e) result)"
    proof -
      have "(ucast baud_rate :: u64) \<noteq> 0"
        using ub b by (metis less_numeral_extra(3) unsigned_0)
      moreover have "\<not> 19200 \<le> baud_rate"
        using that(2) by (simp add: not_le)
      ultimately show ?thesis by (simp add: frame_silence_for_baud_rate_def Let_def)
    qed
    then show ?thesis
      using silence_rounding [OF b] unfolding n [symmetric] by blast
  qed
  moreover have "frame_silence_for_baud_rate 0 = (Panic :: (u64, 'e) result)"
    by (simp add: frame_silence_for_baud_rate_def)
  moreover have "frame_silence_for_baud_rate baud_rate = (Ok 1750000 :: (u64, 'e) result)"
    if "19200 \<le> baud_rate"
    using that by (simp add: frame_silence_for_baud_rate_def)
  ultimately show ?thesis
    by (cases "baud_rate < 19200") (auto simp: not_less)
qed

theorem frame_silence_spec_witness:
  "\<exists>ns. frame_silence_for_baud_rate 9600 = (Ok ns :: (u64, unit) result) \<and> 1750000 \<le> unat ns
     \<and> 77000000000 < 2 * unat (9600 :: u32) * (unat ns + 5)"
  using frame_silence_spec [of 9600, where ?'a = unit] by (simp del: unsigned_numeral) fastforce

end
