(* ===== verification/Text.thy ===== *)
theory Text
  imports Prelude
begin

text \<open>
  Text as the Rust standard library handles it. A \<open>str\<close> is the list of the bytes of its
  UTF-8 encoding, so lengths and slice offsets are byte counts as in Rust, and slicing
  inside a character is a panic. The integer parsers follow \<open>from_str_radix\<close>: an optional
  sign (a minus sign only for signed types), at least one digit, and no value outside the
  type's range; the kind of \<open>ParseIntError\<close> is not kept. \<open>show_nat\<close> and \<open>show_int\<close> are the
  \<open>Display\<close> of integers.
\<close>

section \<open>Characters of a string\<close>

definition is_continuation :: "char \<Rightarrow> bool" where
  "is_continuation c \<longleftrightarrow> 128 \<le> (of_char c :: nat) \<and> (of_char c :: nat) < 192"

text \<open>\<open>str::chars\<close>: each character as the bytes that encode it.\<close>

function str_chars :: "string \<Rightarrow> string list" where
  "str_chars [] = []"
| "str_chars (c # cs) = (c # takeWhile is_continuation cs) # str_chars (dropWhile is_continuation cs)"
  by pat_completeness auto
termination by (relation "measure length") (auto simp: length_dropWhile_le le_imp_less_Suc)

text \<open>\<open>char::is_whitespace\<close>: the encodings of the characters with the White\_Space property.\<close>

definition whitespace_chars :: "string list" where
  "whitespace_chars =
     map (map char_of)
       ([[9], [10], [11], [12], [13], [32], [0xC2, 0x85], [0xC2, 0xA0], [0xE1, 0x9A, 0x80]]
        @ map (\<lambda>n. [0xE2, 0x80, 0x80 + n]) [0..<11]
        @ [[0xE2, 0x80, 0xA8], [0xE2, 0x80, 0xA9], [0xE2, 0x80, 0xAF], [0xE2, 0x81, 0x9F],
           [0xE3, 0x80, 0x80 :: nat]])"

definition is_whitespace :: "string \<Rightarrow> bool" where
  "is_whitespace c \<longleftrightarrow> c \<in> set whitespace_chars"

definition trim :: "string \<Rightarrow> string" where
  "trim s = concat (rev (dropWhile is_whitespace (rev (dropWhile is_whitespace (str_chars s)))))"

definition is_char_boundary :: "string \<Rightarrow> nat \<Rightarrow> bool" where
  "is_char_boundary s i \<longleftrightarrow> i = length s \<or> i < length s \<and> \<not> is_continuation (s ! i)"

definition str_slice :: "string \<Rightarrow> nat \<Rightarrow> nat \<Rightarrow> (string, 'e) result" where
  "str_slice s a b =
     (if a \<le> b \<and> is_char_boundary s a \<and> is_char_boundary s b
      then Ok (take (b - a) (drop a s)) else Panic)"

section \<open>Splitting\<close>

definition strip_prefix :: "string \<Rightarrow> string \<Rightarrow> string option" where
  "strip_prefix p s = (if take (length p) s = p then Some (drop (length p) s) else None)"

text \<open>\<open>split_once\<close> and \<open>rsplit_once\<close> at an ASCII character.\<close>

definition split_once :: "char \<Rightarrow> string \<Rightarrow> (string \<times> string) option" where
  "split_once c s =
     (if c \<in> set s then Some (takeWhile (\<lambda>x. x \<noteq> c) s, tl (dropWhile (\<lambda>x. x \<noteq> c) s)) else None)"

definition rsplit_once :: "char \<Rightarrow> string \<Rightarrow> (string \<times> string) option" where
  "rsplit_once c s =
     (case split_once c (rev s) of None \<Rightarrow> None | Some (after, before) \<Rightarrow> Some (rev before, rev after))"

section \<open>Integers\<close>

definition to_digit :: "nat \<Rightarrow> char \<Rightarrow> nat option" where
  "to_digit radix c =
     (let n = of_char c :: nat;
          d = if 48 \<le> n \<and> n \<le> 57 then n - 48
              else if 97 \<le> n \<and> n \<le> 122 then n - 87
              else if 65 \<le> n \<and> n \<le> 90 then n - 55
              else 36
      in if d < radix then Some d else None)"

fun digits_value :: "nat \<Rightarrow> string \<Rightarrow> nat \<Rightarrow> nat option" where
  "digits_value radix [] acc = Some acc"
| "digits_value radix (c # cs) acc =
     (case to_digit radix c of None \<Rightarrow> None | Some d \<Rightarrow> digits_value radix cs (acc * radix + d))"

definition magnitude :: "nat \<Rightarrow> string \<Rightarrow> nat option" where
  "magnitude radix s = (if s = [] then None else digits_value radix s 0)"

definition strip_plus :: "string \<Rightarrow> string" where
  "strip_plus s = (if s \<noteq> [] \<and> hd s = CHR ''+'' then tl s else s)"

definition from_str_radix_unsigned :: "nat \<Rightarrow> nat \<Rightarrow> string \<Rightarrow> nat option" where
  "from_str_radix_unsigned bits radix s =
     (case magnitude radix (strip_plus s) of
        None \<Rightarrow> None
      | Some n \<Rightarrow> if n < 2 ^ bits then Some n else None)"

definition parse_signed :: "nat \<Rightarrow> string \<Rightarrow> int option" where
  "parse_signed bits s =
     (if s \<noteq> [] \<and> hd s = CHR ''-''
      then (case magnitude 10 (tl s) of
              None \<Rightarrow> None | Some n \<Rightarrow> if n \<le> 2 ^ (bits - 1) then Some (- int n) else None)
      else (case magnitude 10 (strip_plus s) of
              None \<Rightarrow> None | Some n \<Rightarrow> if n < 2 ^ (bits - 1) then Some (int n) else None))"

definition digit_char :: "nat \<Rightarrow> char" where
  "digit_char d = char_of (if d < 10 then 48 + d else 55 + d)"

fun show_nat :: "nat \<Rightarrow> string" where
  "show_nat n = (if n < 10 then [digit_char n] else show_nat (n div 10) @ [digit_char (n mod 10)])"

declare show_nat.simps [simp del]

definition show_int :: "int \<Rightarrow> string" where
  "show_int i = (if i < 0 then CHR ''-'' # show_nat (nat (- i)) else show_nat (nat i))"

text \<open>\<open>{:02X}\<close> of a byte.\<close>

definition show_hex_byte :: "u8 \<Rightarrow> string" where
  "show_hex_byte b = [digit_char (unat b div 16), digit_char (unat b mod 16)]"

section \<open>Facts\<close>

lemma strip_prefix_iff: "strip_prefix p s = Some r \<longleftrightarrow> s = p @ r"
  by (auto simp: strip_prefix_def) (metis append_take_drop_id)

lemma strip_prefix_None_iff: "strip_prefix p s = None \<longleftrightarrow> (\<forall>r. s \<noteq> p @ r)"
  by (metis not_None_eq strip_prefix_iff)

lemma split_once_iff: "split_once c s = Some (a, b) \<longleftrightarrow> s = a @ c # b \<and> c \<notin> set a"
proof
  assume "split_once c s = Some (a, b)"
  then have c: "c \<in> set s" and a: "a = takeWhile (\<lambda>x. x \<noteq> c) s" and b: "b = tl (dropWhile (\<lambda>x. x \<noteq> c) s)"
    by (auto simp: split_once_def split: if_splits)
  from c have "dropWhile (\<lambda>x. x \<noteq> c) s = c # b"
    unfolding b by (induction s) auto
  then show "s = a @ c # b \<and> c \<notin> set a"
    unfolding a by (metis (mono_tags, lifting) set_takeWhileD takeWhile_dropWhile_id)
next
  assume "s = a @ c # b \<and> c \<notin> set a"
  then show "split_once c s = Some (a, b)"
    by (auto simp: split_once_def takeWhile_append dropWhile_append)
qed

lemma rsplit_once_iff: "rsplit_once c s = Some (a, b) \<longleftrightarrow> s = a @ c # b \<and> c \<notin> set b"
proof -
  have "rsplit_once c s = Some (a, b) \<longleftrightarrow> split_once c (rev s) = Some (rev b, rev a)"
    by (auto simp: rsplit_once_def split: option.splits)
  also have "\<dots> \<longleftrightarrow> rev s = rev b @ c # rev a \<and> c \<notin> set b"
    by (simp add: split_once_iff)
  also have "rev s = rev b @ c # rev a \<longleftrightarrow> s = a @ c # b"
    by (metis append.assoc append_Cons append_Nil rev_append rev_rev_ident rev_singleton_conv rev.simps(2))
  finally show ?thesis .
qed

lemma to_digit_digit_char [simp]:
  "d < radix \<Longrightarrow> radix \<le> 16 \<Longrightarrow> to_digit radix (digit_char d) = Some d"
  by (auto simp: to_digit_def digit_char_def Let_def)

lemma digits_value_append:
  "digits_value radix (s @ t) acc =
     (case digits_value radix s acc of None \<Rightarrow> None | Some n \<Rightarrow> digits_value radix t n)"
  by (induction s arbitrary: acc) (auto split: option.splits)

lemma digits_value_show_nat [simp]: "digits_value 10 (show_nat n) 0 = Some n"
  by (induction n rule: show_nat.induct) (subst show_nat.simps, auto simp: digits_value_append)

lemma show_nat_nonempty [simp]: "show_nat n \<noteq> []"
  by (subst show_nat.simps) simp

lemma magnitude_show_nat [simp]: "magnitude 10 (show_nat n) = Some n"
  by (simp add: magnitude_def)

lemma hd_show_nat: "\<exists>d < 10. hd (show_nat n) = digit_char d"
proof (induction n rule: show_nat.induct)
  case (1 n)
  then show ?case
    by (subst show_nat.simps) (auto simp: not_less hd_append)
qed

lemma digit_char_not_sign [simp]: "d < 16 \<Longrightarrow> digit_char d \<noteq> CHR ''+''" "d < 16 \<Longrightarrow> digit_char d \<noteq> CHR ''-''"
proof -
  have "of_char (digit_char d) \<noteq> (43 :: nat) \<and> of_char (digit_char d) \<noteq> (45 :: nat)" if "d < 16"
    using that by (auto simp: digit_char_def)
  then show "d < 16 \<Longrightarrow> digit_char d \<noteq> CHR ''+''" "d < 16 \<Longrightarrow> digit_char d \<noteq> CHR ''-''"
    by force+
qed

lemma hd_show_nat_not_sign [simp]: "hd (show_nat n) \<noteq> CHR ''+''" "hd (show_nat n) \<noteq> CHR ''-''"
proof -
  from hd_show_nat obtain d where "d < 10" "hd (show_nat n) = digit_char d" by blast
  then show "hd (show_nat n) \<noteq> CHR ''+''" "hd (show_nat n) \<noteq> CHR ''-''" by simp_all
qed

lemma parse_unsigned_show_nat:
  "n < 2 ^ bits \<Longrightarrow> from_str_radix_unsigned bits 10 (show_nat n) = Some n"
  by (simp add: from_str_radix_unsigned_def strip_plus_def)

lemma parse_signed_show_int:
  "- (2 ^ (bits - 1)) \<le> i \<Longrightarrow> i < 2 ^ (bits - 1) \<Longrightarrow> parse_signed bits (show_int i) = Some i"
  by (auto simp: parse_signed_def show_int_def strip_plus_def nat_less_iff nat_le_iff)

lemma parse_signed_range:
  assumes "parse_signed bits s = Some i"
  shows "- (2 ^ (bits - 1)) \<le> i \<and> i < 2 ^ (bits - 1)"
proof -
  from assms consider n where "i = - int n" "n \<le> 2 ^ (bits - 1)" | n where "i = int n" "n < 2 ^ (bits - 1)"
    by (auto simp: parse_signed_def split: if_splits option.splits)
  then show ?thesis
  proof cases
    case 1
    then have "int n \<le> 2 ^ (bits - 1)" by (metis of_nat_le_iff of_nat_numeral of_nat_power)
    moreover have "(0 :: int) < 2 ^ (bits - 1)" by simp
    ultimately show ?thesis using 1 by linarith
  next
    case 2
    then have "int n < 2 ^ (bits - 1)" by (metis of_nat_less_iff of_nat_numeral of_nat_power)
    moreover have "(0 :: int) < 2 ^ (bits - 1)" by simp
    ultimately show ?thesis using 2 by linarith
  qed
qed

text \<open>Two hexadecimal digits are a byte.\<close>

lemma parse_show_hex_byte: "from_str_radix_unsigned 8 16 (show_hex_byte b) = Some (unat b)"
proof -
  have "unat b div 16 < 16" using unat_u8_less [of b] by linarith
  then show ?thesis
    by (simp add: from_str_radix_unsigned_def strip_plus_def show_hex_byte_def magnitude_def)
qed

text \<open>Text without continuation bytes: every character is one byte.\<close>

lemma str_chars_ascii: "\<forall>c \<in> set s. \<not> is_continuation c \<Longrightarrow> str_chars s = map (\<lambda>c. [c]) s"
  by (induction s) (auto simp: takeWhile_eq_Nil_iff dropWhile_eq_self_iff hd_in_set)

section \<open>UTF-8\<close>

text \<open>\<open>str::as_bytes\<close>, and the string with given bytes.\<close>

definition as_bytes :: "string \<Rightarrow> bytes" where
  "as_bytes s = map (\<lambda>c. of_nat (of_char c)) s"

definition string_of_bytes :: "bytes \<Rightarrow> string" where
  "string_of_bytes bs = map (\<lambda>b. char_of (unat b)) bs"

lemma string_of_as_bytes [simp]: "string_of_bytes (as_bytes s) = s"
  by (simp add: string_of_bytes_def as_bytes_def comp_def unat_of_nat)

lemma length_as_bytes [simp]: "length (as_bytes s) = length s"
  by (simp add: as_bytes_def)

text \<open>
  The next character of a byte string that is not empty: how many bytes it takes and whether
  they are one well-formed character. Of an ill-formed sequence the longest prefix that could
  begin a character is taken, at least one byte, as the standard library does.
\<close>

abbreviation continuation :: "u8 \<Rightarrow> bool" where
  "continuation b \<equiv> 0x80 \<le> b \<and> b \<le> 0xBF"

definition second_byte_ok :: "u8 \<Rightarrow> u8 \<Rightarrow> bool" where
  "second_byte_ok a b \<longleftrightarrow>
     (if a = 0xE0 then 0xA0 \<le> b \<and> b \<le> 0xBF
      else if a = 0xED then 0x80 \<le> b \<and> b \<le> 0x9F
      else if a = 0xF0 then 0x90 \<le> b \<and> b \<le> 0xBF
      else if a = 0xF4 then 0x80 \<le> b \<and> b \<le> 0x8F
      else continuation b)"

definition char_width :: "u8 \<Rightarrow> nat" where
  "char_width a =
     (if a < 0x80 then 1 else if 0xC2 \<le> a \<and> a \<le> 0xDF then 2 else if 0xE0 \<le> a \<and> a \<le> 0xEF then 3
      else if 0xF0 \<le> a \<and> a \<le> 0xF4 then 4 else 0)"

definition utf8_char :: "bytes \<Rightarrow> nat \<times> bool" where
  "utf8_char bs =
     (case bs of
        [] \<Rightarrow> (1, False)
      | a # rest \<Rightarrow>
          let w = char_width a;
              n = (case rest of
                     [] \<Rightarrow> 1
                   | b # cs \<Rightarrow> if w < 2 \<or> \<not> second_byte_ok a b then 1
                              else 2 + length (takeWhile continuation (take (w - 2) cs)))
          in (n, n = w))"

lemma utf8_char_positive [simp]: "0 < fst (utf8_char bs)"
  by (auto simp: utf8_char_def Let_def split: list.splits)

lemma utf8_rest_shorter: "bs \<noteq> [] \<Longrightarrow> length bs - fst (utf8_char bs) < length bs"
  using utf8_char_positive [of bs] by (cases bs) auto

text \<open>\<open>String::from_utf8\<close> and \<open>String::from_utf8_lossy\<close>.\<close>

function valid_utf8 :: "bytes \<Rightarrow> bool" where
  "valid_utf8 bs =
     (if bs = [] then True
      else if snd (utf8_char bs) then valid_utf8 (drop (fst (utf8_char bs)) bs) else False)"
  by pat_completeness auto
termination by (relation "measure length") (simp_all add: utf8_rest_shorter)

declare valid_utf8.simps [simp del]

definition from_utf8 :: "bytes \<Rightarrow> (string, unit) result" where
  "from_utf8 bs = (if valid_utf8 bs then Ok (string_of_bytes bs) else Err ())"

definition replacement_character :: bytes where
  "replacement_character = [0xEF, 0xBF, 0xBD]"

function utf8_lossy :: "bytes \<Rightarrow> bytes" where
  "utf8_lossy bs =
     (if bs = [] then []
      else let (n, ok) = utf8_char bs
           in (if ok then take n bs else replacement_character) @ utf8_lossy (drop n bs))"
  by pat_completeness auto
termination
  by (relation "measure length") (auto simp: prod_eq_iff utf8_rest_shorter)

declare utf8_lossy.simps [simp del]

definition from_utf8_lossy :: "bytes \<Rightarrow> string" where
  "from_utf8_lossy bs = string_of_bytes (utf8_lossy bs)"

lemma utf8_lossy_valid: "valid_utf8 bs \<Longrightarrow> utf8_lossy bs = bs"
proof (induction bs rule: valid_utf8.induct)
  case (1 bs)
  show ?case
  proof (cases "bs = []")
    case False
    with 1 have "snd (utf8_char bs)" "valid_utf8 (drop (fst (utf8_char bs)) bs)"
      by (metis valid_utf8.simps)+
    with 1 False show ?thesis
      by (subst utf8_lossy.simps) (simp add: split_def Let_def)
  qed (simp add: utf8_lossy.simps)
qed

lemma from_utf8_lossy_as_bytes [simp]: "valid_utf8 (as_bytes s) \<Longrightarrow> from_utf8_lossy (as_bytes s) = s"
  by (simp add: from_utf8_lossy_def utf8_lossy_valid)

lemma valid_utf8_ascii: "\<forall>b \<in> set bs. b < 0x80 \<Longrightarrow> valid_utf8 bs"
proof (induction bs)
  case (Cons b bs)
  then have "utf8_char (b # bs) = (1, True)"
    by (auto simp: utf8_char_def char_width_def split: list.splits)
  with Cons show ?case by (subst valid_utf8.simps) simp
qed (simp add: valid_utf8.simps)

end
