(* ===== verification/Connection_String.thy ===== *)
theory Connection_String
  imports Text Transport
begin

text \<open>
  Connection strings (\<open>protocol/src/connection_string.rs\<close>): which transport a
  \<open>tcp://\<close>, \<open>tls+tcp://\<close> or \<open>rtu://\<close> string names and with which parameters. The error
  values keep the text of the offending string; the prose around it is not modelled.
\<close>

datatype ConnectionTarget =
    Tcp string
  | Rtu string u32
  | TlsTcp string

datatype connection_string_error =
    MissingBaudRate string
  | InvalidBaudRate string
  | UnknownScheme string

definition parse_connection_string ::
    "string \<Rightarrow> (ConnectionTarget, connection_string_error) result" where
  "parse_connection_string s =
     (case strip_prefix ''tls+tcp://'' s of
        Some address \<Rightarrow> Ok (TlsTcp address)
      | None \<Rightarrow>
     (case strip_prefix ''tcp://'' s of
        Some address \<Rightarrow> Ok (Tcp address)
      | None \<Rightarrow>
     (case strip_prefix ''rtu://'' s of
        Some rest \<Rightarrow>
          (case rsplit_once CHR '':'' rest of
             None \<Rightarrow> Err (MissingBaudRate s)
           | Some (path, baud_rate) \<Rightarrow>
               (case from_str_radix_unsigned 32 10 baud_rate of
                  None \<Rightarrow> Err (InvalidBaudRate baud_rate)
                | Some n \<Rightarrow> Ok (Rtu path (of_nat n))))
      | None \<Rightarrow> Err (UnknownScheme s))))"

lemma from_str_radix_unsigned_bound: "from_str_radix_unsigned bits radix s = Some n \<Longrightarrow> n < 2 ^ bits"
  by (auto simp: from_str_radix_unsigned_def split: option.splits if_splits)

lemma schemes_exclusive:
  "strip_prefix ''tls+tcp://'' s = Some a \<Longrightarrow> strip_prefix ''tcp://'' s = None \<and> strip_prefix ''rtu://'' s = None"
  "strip_prefix ''tcp://'' s = Some a \<Longrightarrow> strip_prefix ''tls+tcp://'' s = None \<and> strip_prefix ''rtu://'' s = None"
  unfolding strip_prefix_iff strip_prefix_None_iff by auto

lemma rtu_baud_rate_iff:
  assumes "from_str_radix_unsigned 32 10 d = Some n"
  shows "of_nat n = (baud :: u32) \<longleftrightarrow> n = unat baud"
  using from_str_radix_unsigned_bound [OF assms] by (auto simp: unat_of_nat take_bit_nat_eq_self)

lemma parse_connection_string_Rtu_iff:
  "parse_connection_string s = Ok (Rtu path baud) \<longleftrightarrow>
     (\<exists>r digits. strip_prefix ''rtu://'' s = Some r \<and> rsplit_once CHR '':'' r = Some (path, digits)
        \<and> from_str_radix_unsigned 32 10 digits = Some (unat baud))"
  using schemes_exclusive [of s]
  by (auto simp: parse_connection_string_def rtu_baud_rate_iff split: option.splits)

text \<open>
  A connection string is read as its scheme says: the address after \<open>tcp://\<close> or
  \<open>tls+tcp://\<close> is taken verbatim, and an \<open>rtu://\<close> string is split at its last colon into a
  path, which may itself contain colons, and a decimal baud rate of 32 bits. Nothing else
  is accepted.
\<close>

theorem parse_connection_string_exact:
  "(parse_connection_string s = Ok (Tcp a) \<longleftrightarrow> s = ''tcp://'' @ a)
   \<and> (parse_connection_string s = Ok (TlsTcp a) \<longleftrightarrow> s = ''tls+tcp://'' @ a)
   \<and> (parse_connection_string s = Ok (Rtu path baud) \<longleftrightarrow>
        (\<exists>digits. s = ''rtu://'' @ path @ '':'' @ digits \<and> CHR '':'' \<notin> set digits
           \<and> from_str_radix_unsigned 32 10 digits = Some (unat baud)))
   \<and> parse_connection_string s \<noteq> Panic"
proof (intro conjI)
  show "parse_connection_string s = Ok (Tcp a) \<longleftrightarrow> s = ''tcp://'' @ a"
    using schemes_exclusive [of s a] unfolding strip_prefix_iff [symmetric]
    by (auto simp: parse_connection_string_def split: option.splits)
  show "parse_connection_string s = Ok (TlsTcp a) \<longleftrightarrow> s = ''tls+tcp://'' @ a"
    unfolding strip_prefix_iff [symmetric]
    by (auto simp: parse_connection_string_def split: option.splits)
  show "parse_connection_string s = Ok (Rtu path baud) \<longleftrightarrow>
        (\<exists>digits. s = ''rtu://'' @ path @ '':'' @ digits \<and> CHR '':'' \<notin> set digits
           \<and> from_str_radix_unsigned 32 10 digits = Some (unat baud))"
    by (auto simp: parse_connection_string_Rtu_iff strip_prefix_iff rsplit_once_iff)
  show "parse_connection_string s \<noteq> Panic"
    by (auto simp: parse_connection_string_def split: option.splits)
qed

text \<open>A baud rate of zero is a valid connection string, and the frame silence it asks for aborts.\<close>

theorem rtu_zero_baud_rate_aborts:
  "parse_connection_string ''rtu:///dev/ttyS0:0'' = Ok (Rtu ''/dev/ttyS0'' 0)
   \<and> frame_silence_for_baud_rate 0 = (Panic :: (u64, 'e) result)"
proof
  have "from_str_radix_unsigned 32 10 ''0'' = Some (unat (0 :: u32))"
    by (simp add: from_str_radix_unsigned_def strip_plus_def magnitude_def to_digit_def)
  moreover have "strip_prefix ''rtu://'' ''rtu:///dev/ttyS0:0'' = Some ''/dev/ttyS0:0''"
    and "rsplit_once CHR '':'' ''/dev/ttyS0:0'' = Some (''/dev/ttyS0'', ''0'')"
    by (simp_all add: strip_prefix_iff rsplit_once_iff)
  ultimately show "parse_connection_string ''rtu:///dev/ttyS0:0'' = Ok (Rtu ''/dev/ttyS0'' 0)"
    unfolding parse_connection_string_Rtu_iff by blast
qed (simp add: frame_silence_for_baud_rate_def)

end
