(* ===== verification/Unit_Of_Measure.thy ===== *)
theory Unit_Of_Measure
  imports Main "HOL-Library.Char_ord" "HOL-Library.List_Lexorder"
begin

text \<open>
  The lookup of UN/ECE unit codes (\<open>protocol/src/unit_of_measure.rs\<close>). The table of codes
  is data; it is an argument here, and the hypothesis on it is the order its own comment
  and test require (\<open>Unit_Table\<close> has the table itself). \<open>binary_search_by_key\<close> is the standard library's halving search.
\<close>

function search_base :: "('k :: linorder) list \<Rightarrow> 'k \<Rightarrow> nat \<Rightarrow> nat \<Rightarrow> nat" where
  "search_base keys k base len =
     (if 1 < len
      then let half = len div 2; mid = base + half
           in search_base keys k (if k < keys ! mid then base else mid) (len - half)
      else base)"
  by pat_completeness auto
termination by (relation "measure (\<lambda>(keys, k, base, len). len)") auto

declare search_base.simps [simp del]

definition binary_search_by_key :: "('a \<Rightarrow> 'k :: linorder) \<Rightarrow> 'a list \<Rightarrow> 'k \<Rightarrow> nat option" where
  "binary_search_by_key key xs k =
     (if xs = [] then None
      else let i = search_base (map key xs) k 0 (length xs)
           in if key (xs ! i) = k then Some i else None)"

definition unit_name :: "(string \<times> string) list \<Rightarrow> string \<Rightarrow> string option" where
  "unit_name UNIT_CODES code =
     map_option (\<lambda>i. snd (UNIT_CODES ! i)) (binary_search_by_key fst UNIT_CODES code)"

definition is_valid_unit_code :: "(string \<times> string) list \<Rightarrow> string \<Rightarrow> bool" where
  "is_valid_unit_code UNIT_CODES code \<longleftrightarrow> unit_name UNIT_CODES code \<noteq> None"

lemma search_base_found:
  assumes "sorted_wrt (<) keys" and "base + len \<le> length keys"
    and "base \<le> i" and "i < base + len" and "keys ! i = k"
  shows "search_base keys k base len = i"
  using assms
proof (induction keys k base len rule: search_base.induct)
  case (1 keys k base len)
  show ?case
  proof (cases "1 < len")
    case True
    define half where "half = len div 2"
    let ?base = "if k < keys ! (base + half) then base else base + half"
    have range: "?base \<le> i \<and> i < ?base + (len - half)"
    proof (cases "k < keys ! (base + half)")
      case True
      have "i < base + half"
      proof (rule ccontr)
        assume "\<not> i < base + half"
        then have "keys ! (base + half) \<le> keys ! i"
          using "1.prems" by (metis le_neq_implies_less less_imp_le not_le_imp_less
              order_refl order_less_le_trans sorted_wrt_nth_less)
        with True "1.prems" show False by simp
      qed
      with True "1.prems" show ?thesis by (simp add: half_def)
    next
      case False
      have "base + half \<le> i"
      proof (rule ccontr)
        assume "\<not> base + half \<le> i"
        then have "keys ! i < keys ! (base + half)"
          using "1.prems" \<open>1 < len\<close> by (intro sorted_wrt_nth_less [of "(<)"]) (auto simp: half_def)
        with False "1.prems" show False by simp
      qed
      with False "1.prems" show ?thesis by (simp add: half_def)
    qed
    have "search_base keys k ?base (len - half) = i"
      using True "1.prems" range
      by (intro "1.IH" [OF True half_def refl]) (auto simp: half_def split: if_splits)
    then show ?thesis
      unfolding half_def using True by (subst search_base.simps) (auto simp: Let_def)
  next
    case False
    with "1.prems" show ?thesis by (subst search_base.simps) auto
  qed
qed

lemma search_base_bound:
  "0 < len \<Longrightarrow> search_base keys k base len < base + len"
proof (induction keys k base len rule: search_base.induct)
  case (1 keys k base len)
  show ?case
  proof (cases "1 < len")
    case True
    let ?base = "if k < keys ! (base + len div 2) then base else base + len div 2"
    have "search_base keys k ?base (len - len div 2) < ?base + (len - len div 2)"
      using True by (intro "1.IH" [OF True refl refl]) simp
    also have "\<dots> \<le> base + len" by auto
    finally show ?thesis
      using True by (subst search_base.simps) (simp add: Let_def)
  qed (use "1.prems" in \<open>subst search_base.simps, simp\<close>)
qed

text \<open>
  Looking a unit up by binary search gives what a scan of the whole table gives, for
  every code, provided the table is in strictly increasing order of codes.
\<close>

theorem unit_name_is_table_lookup:
  assumes "sorted_wrt (<) (map fst UNIT_CODES)"
  shows "unit_name UNIT_CODES code = map_of UNIT_CODES code"
proof (cases "map_of UNIT_CODES code")
  case None
  then have "fst (UNIT_CODES ! i) \<noteq> code" if "i < length UNIT_CODES" for i
    using that by (auto simp: map_of_eq_None_iff image_iff)
  then show ?thesis
    using None search_base_bound [of "length UNIT_CODES" "map fst UNIT_CODES" code 0]
    by (auto simp: unit_name_def binary_search_by_key_def Let_def)
next
  case (Some name)
  then have "(code, name) \<in> set UNIT_CODES" by (rule map_of_SomeD)
  then obtain i where i: "i < length UNIT_CODES" "UNIT_CODES ! i = (code, name)"
    by (auto simp: in_set_conv_nth)
  have "search_base (map fst UNIT_CODES) code 0 (length UNIT_CODES) = i"
    using assms i by (intro search_base_found) auto
  then show ?thesis
    using Some i by (auto simp: unit_name_def binary_search_by_key_def Let_def)
qed

theorem unit_name_is_table_lookup_witness:
  "unit_name [(''10'', ''group''), (''2N'', ''decibel''), (''CEL'', ''degree Celsius'')] ''2N'' = Some ''decibel''"
  using unit_name_is_table_lookup
    [of "[(''10'', ''group''), (''2N'', ''decibel''), (''CEL'', ''degree Celsius'')]" "''2N''"]
  by (simp add: less_char_def)

end
