(* ===== verification/Device_Description.thy ===== *)
theory Device_Description
  imports Text Unit_Of_Measure
begin

text \<open>
  Device descriptions (\<open>protocol/src/device_description.rs\<close>): the machines on a link, their
  registers, coils, inputs and file records with absolute addresses, resolved from the raw
  sections of the TOML source and validated. The TOML parser is the external \<open>toml\<close>
  crate: it is the argument \<open>from_toml\<close> of \<open>DeviceDescription_parse\<close>, any function from
  the source text to the raw structs or to an error of its own. The table of unit codes is
  the argument \<open>UNIT_CODES\<close>. \<open>bulk_transfer_chunk_range\<close> of
  \<open>protocol/src/device_description_manifest.rs\<close> is here too.
\<close>

section \<open>Descriptions\<close>

datatype DataType = U8 | I8 | U16 | I16 | U24 | I24 | U32 | I32 | U64 | I64 | F32 | F64

fun register_count :: "DataType \<Rightarrow> u16" where
  "register_count U8 = 1"
| "register_count I8 = 1"
| "register_count U16 = 1"
| "register_count I16 = 1"
| "register_count U24 = 2"
| "register_count I24 = 2"
| "register_count U32 = 2"
| "register_count I32 = 2"
| "register_count F32 = 2"
| "register_count U64 = 4"
| "register_count I64 = 4"
| "register_count F64 = 4"

datatype MemLayout = Abcd | Badc | Cdab | Dcba

datatype AccessRight = ReadOnly | ReadWrite

record RegisterDescription =
  name :: string
  address :: u16
  data_type :: DataType
  access :: AccessRight
  unit :: "string option"

record InputRegisterDescription =
  name :: string
  address :: u16
  data_type :: DataType
  unit :: "string option"

record CoilDescription =
  name :: string
  address :: u16

record DiscreteInputDescription =
  name :: string
  address :: u16

record FileRecordDescription =
  file_number :: u16
  record_number :: u16
  record_length :: u16

definition RESERVED_DEVICE_DESCRIPTION_FILE_NUMBER :: u16 where
  [simp]: "RESERVED_DEVICE_DESCRIPTION_FILE_NUMBER = 0xFFFF"

record MachineDescription =
  name :: string
  unit_id :: u8
  registers :: "RegisterDescription list"
  coils :: "CoilDescription list"
  discrete_inputs :: "DiscreteInputDescription list"
  input_registers :: "InputRegisterDescription list"
  file_records :: "FileRecordDescription list"
  mem_layout :: MemLayout
  input_register_mem_layout :: MemLayout
  server_id :: "string option"

record DeviceDescription =
  machines :: "MachineDescription list"

section \<open>The raw sections\<close>

record RawRegisterEntry =
  name :: string
  offset :: u16
  data_type :: DataType
  access :: AccessRight
  unit :: "string option"

record RawRegisterSection =
  base_address :: u16
  mem_layout :: MemLayout
  entries :: "RawRegisterEntry list"

record RawInputRegisterEntry =
  name :: string
  offset :: u16
  data_type :: DataType
  unit :: "string option"

record RawInputRegisterSection =
  base_address :: u16
  mem_layout :: MemLayout
  entries :: "RawInputRegisterEntry list"

record RawBitEntry =
  name :: string
  offset :: u16

record RawBitSection =
  base_address :: u16
  entries :: "RawBitEntry list"

record RawFileRecordEntry =
  file_number :: u16
  record_number :: u16
  record_length :: u16

record RawMachine =
  name :: string
  unit_id :: u8
  registers :: RawRegisterSection
  coils :: RawBitSection
  discrete_inputs :: RawBitSection
  input_registers :: RawInputRegisterSection
  file_records :: "RawFileRecordEntry list"
  server_id :: "string option"

record RawDeviceDescription =
  machines :: "RawMachine list"

datatype 'toml DeviceDescriptionError =
    Toml 'toml
  | AddressOverflow string string u16 u16
  | InvalidMachineName string
  | DuplicateMachineName string
  | ReservedFileNumber string u16
  | InvalidUnitCode string string string

section \<open>Resolution\<close>

definition is_ascii_alphanumeric :: "char \<Rightarrow> bool" where
  "is_ascii_alphanumeric c \<longleftrightarrow>
     (let n = of_char c :: nat
      in 48 \<le> n \<and> n \<le> 57 \<or> 65 \<le> n \<and> n \<le> 90 \<or> 97 \<le> n \<and> n \<le> 122)"

definition validate_machine_name :: "string \<Rightarrow> (unit, 'toml DeviceDescriptionError) result" where
  "validate_machine_name s =
     (if s \<noteq> [] \<and> (\<forall>c \<in> set s. is_ascii_alphanumeric c \<or> c = CHR ''_'' \<or> c = CHR ''-'')
      then Ok () else Err (InvalidMachineName s))"

text \<open>\<open>iter().map(..).collect::<Result<Vec<_>, _>>()\<close>: the first error ends the collection.\<close>

fun collect_results :: "('a \<Rightarrow> ('b, 'e) result) \<Rightarrow> 'a list \<Rightarrow> ('b list, 'e) result" where
  "collect_results f [] = Ok []"
| "collect_results f (x # xs) =
     and_then (f x) (\<lambda>y. and_then (collect_results f xs) (\<lambda>ys. Ok (y # ys)))"

text \<open>\<open>u16::checked_add\<close>.\<close>

definition checked_add_u16 :: "u16 \<Rightarrow> u16 \<Rightarrow> u16 option" where
  "checked_add_u16 a b = (if unat a + unat b < 65536 then Some (a + b) else None)"

definition resolve_addresses ::
    "string \<Rightarrow> u16 \<Rightarrow> 'entry list \<Rightarrow> ('entry \<Rightarrow> u16) \<Rightarrow> ('entry \<Rightarrow> string)
     \<Rightarrow> (('entry \<times> u16) list, 'toml DeviceDescriptionError) result" where
  "resolve_addresses machine_name base es offset_of name_of =
     collect_results (\<lambda>entry.
       case checked_add_u16 base (offset_of entry) of
         None \<Rightarrow> Err (AddressOverflow machine_name (name_of entry) base (offset_of entry))
       | Some a \<Rightarrow> Ok (entry, a)) es"

definition validate_unit_code ::
    "(string \<times> string) list \<Rightarrow> string \<Rightarrow> string \<Rightarrow> string option
     \<Rightarrow> (unit, 'toml DeviceDescriptionError) result" where
  "validate_unit_code UNIT_CODES machine_name nm u =
     (case u of
        Some code \<Rightarrow>
          if \<not> is_valid_unit_code UNIT_CODES code then Err (InvalidUnitCode machine_name nm code)
          else Ok ()
      | None \<Rightarrow> Ok ())"

definition bit_entry_offset :: "RawBitEntry \<Rightarrow> u16" where
  "bit_entry_offset entry = RawBitEntry.offset entry"

definition bit_entry_name :: "RawBitEntry \<Rightarrow> string" where
  "bit_entry_name entry = RawBitEntry.name entry"

definition register_of_entry :: "RawRegisterEntry \<times> u16 \<Rightarrow> RegisterDescription" where
  "register_of_entry = (\<lambda>(entry, a).
     \<lparr>RegisterDescription.name = RawRegisterEntry.name entry, address = a,
      data_type = RawRegisterEntry.data_type entry, access = RawRegisterEntry.access entry,
      unit = RawRegisterEntry.unit entry\<rparr>)"

definition input_register_of_entry :: "RawInputRegisterEntry \<times> u16 \<Rightarrow> InputRegisterDescription" where
  "input_register_of_entry = (\<lambda>(entry, a).
     \<lparr>InputRegisterDescription.name = RawInputRegisterEntry.name entry, address = a,
      data_type = RawInputRegisterEntry.data_type entry, unit = RawInputRegisterEntry.unit entry\<rparr>)"

definition coil_of_entry :: "RawBitEntry \<times> u16 \<Rightarrow> CoilDescription" where
  "coil_of_entry = (\<lambda>(entry, a). \<lparr>CoilDescription.name = RawBitEntry.name entry, address = a\<rparr>)"

definition discrete_input_of_entry :: "RawBitEntry \<times> u16 \<Rightarrow> DiscreteInputDescription" where
  "discrete_input_of_entry =
     (\<lambda>(entry, a). \<lparr>DiscreteInputDescription.name = RawBitEntry.name entry, address = a\<rparr>)"

definition file_record_of_entry :: "RawFileRecordEntry \<Rightarrow> FileRecordDescription" where
  "file_record_of_entry entry =
     \<lparr>FileRecordDescription.file_number = RawFileRecordEntry.file_number entry,
      record_number = RawFileRecordEntry.record_number entry,
      record_length = RawFileRecordEntry.record_length entry\<rparr>"

definition resolve_machine ::
    "(string \<times> string) list \<Rightarrow> RawMachine \<Rightarrow> (MachineDescription, 'toml DeviceDescriptionError) result" where
  "resolve_machine UNIT_CODES raw =
     (let machine_name = RawMachine.name raw;
          raw_registers = RawMachine.registers raw;
          raw_coils = RawMachine.coils raw;
          raw_inputs = RawMachine.input_registers raw;
          raw_discrete = RawMachine.discrete_inputs raw
      in
      and_then (resolve_addresses machine_name (RawRegisterSection.base_address raw_registers)
          (RawRegisterSection.entries raw_registers) RawRegisterEntry.offset RawRegisterEntry.name)
        (\<lambda>resolved_registers.
      let rs = map register_of_entry resolved_registers in
      and_then (for_each (\<lambda>r _. validate_unit_code UNIT_CODES machine_name
          (RegisterDescription.name r) (RegisterDescription.unit r)) rs ()) (\<lambda>_.
      and_then (resolve_addresses machine_name (RawBitSection.base_address raw_coils)
          (RawBitSection.entries raw_coils) bit_entry_offset bit_entry_name) (\<lambda>resolved_coils.
      and_then (resolve_addresses machine_name (RawInputRegisterSection.base_address raw_inputs)
          (RawInputRegisterSection.entries raw_inputs) RawInputRegisterEntry.offset
          RawInputRegisterEntry.name) (\<lambda>resolved_inputs.
      let irs = map input_register_of_entry resolved_inputs in
      and_then (for_each (\<lambda>r _. validate_unit_code UNIT_CODES machine_name
          (InputRegisterDescription.name r) (InputRegisterDescription.unit r)) irs ()) (\<lambda>_.
      and_then (resolve_addresses machine_name (RawBitSection.base_address raw_discrete)
          (RawBitSection.entries raw_discrete) bit_entry_offset bit_entry_name) (\<lambda>resolved_discrete.
      and_then (for_each (\<lambda>e _.
          if RawFileRecordEntry.file_number e = RESERVED_DEVICE_DESCRIPTION_FILE_NUMBER
          then Err (ReservedFileNumber machine_name (RawFileRecordEntry.file_number e))
          else Ok ()) (RawMachine.file_records raw) ()) (\<lambda>_.
      Ok \<lparr>MachineDescription.name = RawMachine.name raw, unit_id = RawMachine.unit_id raw,
          registers = rs, coils = map coil_of_entry resolved_coils,
          discrete_inputs = map discrete_input_of_entry resolved_discrete,
          input_registers = irs,
          file_records = map file_record_of_entry (RawMachine.file_records raw),
          mem_layout = RawRegisterSection.mem_layout raw_registers,
          input_register_mem_layout = RawInputRegisterSection.mem_layout raw_inputs,
          server_id = RawMachine.server_id raw\<rparr>))))))))"

text \<open>The loop of \<open>DeviceDescription::parse\<close>, with the set of names seen so far.\<close>

fun resolve_machines ::
    "(string \<times> string) list \<Rightarrow> string set \<Rightarrow> RawMachine list
     \<Rightarrow> (MachineDescription list, 'toml DeviceDescriptionError) result" where
  "resolve_machines UNIT_CODES seen_names [] = Ok []"
| "resolve_machines UNIT_CODES seen_names (raw # raws) =
     and_then (validate_machine_name (RawMachine.name raw)) (\<lambda>_.
     if RawMachine.name raw \<in> seen_names then Err (DuplicateMachineName (RawMachine.name raw))
     else and_then (resolve_machine UNIT_CODES raw) (\<lambda>machine.
     and_then (resolve_machines UNIT_CODES (insert (RawMachine.name raw) seen_names) raws) (\<lambda>ms.
     Ok (machine # ms))))"

definition DeviceDescription_parse ::
    "(string \<times> string) list \<Rightarrow> (string \<Rightarrow> (RawDeviceDescription, 'toml) result)
     \<Rightarrow> string \<Rightarrow> (DeviceDescription, 'toml DeviceDescriptionError) result" where
  "DeviceDescription_parse UNIT_CODES from_toml toml_source =
     and_then (map_err Toml (from_toml toml_source)) (\<lambda>raw.
     and_then (resolve_machines UNIT_CODES {} (RawDeviceDescription.machines raw)) (\<lambda>ms.
     Ok \<lparr>DeviceDescription.machines = ms\<rparr>))"

section \<open>Bulk transfer chunks\<close>

definition BULK_TRANSFER_CHUNK_BYTES :: nat where [simp]: "BULK_TRANSFER_CHUNK_BYTES = 248"

definition bulk_transfer_chunk_range :: "nat \<Rightarrow> u16 \<Rightarrow> (nat \<times> nat) option" where
  "bulk_transfer_chunk_range compressed_length number =
     (let start = unat number * BULK_TRANSFER_CHUNK_BYTES
      in if compressed_length \<le> start then None
         else Some (start, min (start + BULK_TRANSFER_CHUNK_BYTES) compressed_length))"

section \<open>What a description is resolved to\<close>

text \<open>
  The specification: a raw machine is acceptable when every address fits sixteen bits,
  every unit is a known code and no file record uses the reserved file number; it then
  stands for the machine whose addresses are base plus offset.
\<close>

definition section_fits :: "u16 \<Rightarrow> u16 list \<Rightarrow> bool" where
  "section_fits base offsets \<longleftrightarrow> (\<forall>off \<in> set offsets. unat base + unat off < 65536)"

definition units_known :: "(string \<times> string) list \<Rightarrow> string option list \<Rightarrow> bool" where
  "units_known UNIT_CODES us \<longleftrightarrow> (\<forall>code. Some code \<in> set us \<longrightarrow> is_valid_unit_code UNIT_CODES code)"

definition acceptable_machine :: "(string \<times> string) list \<Rightarrow> RawMachine \<Rightarrow> bool" where
  "acceptable_machine UNIT_CODES raw \<longleftrightarrow>
     section_fits (RawRegisterSection.base_address (RawMachine.registers raw))
       (map RawRegisterEntry.offset (RawRegisterSection.entries (RawMachine.registers raw)))
     \<and> units_known UNIT_CODES
       (map RawRegisterEntry.unit (RawRegisterSection.entries (RawMachine.registers raw)))
     \<and> section_fits (RawBitSection.base_address (RawMachine.coils raw))
       (map RawBitEntry.offset (RawBitSection.entries (RawMachine.coils raw)))
     \<and> section_fits (RawInputRegisterSection.base_address (RawMachine.input_registers raw))
       (map RawInputRegisterEntry.offset (RawInputRegisterSection.entries (RawMachine.input_registers raw)))
     \<and> units_known UNIT_CODES
       (map RawInputRegisterEntry.unit (RawInputRegisterSection.entries (RawMachine.input_registers raw)))
     \<and> section_fits (RawBitSection.base_address (RawMachine.discrete_inputs raw))
       (map RawBitEntry.offset (RawBitSection.entries (RawMachine.discrete_inputs raw)))
     \<and> RESERVED_DEVICE_DESCRIPTION_FILE_NUMBER
         \<notin> set (map RawFileRecordEntry.file_number (RawMachine.file_records raw))"

definition resolved_machine :: "RawMachine \<Rightarrow> MachineDescription" where
  "resolved_machine raw =
     \<lparr>MachineDescription.name = RawMachine.name raw, unit_id = RawMachine.unit_id raw,
      registers = map (\<lambda>e. register_of_entry (e, RawRegisterSection.base_address (RawMachine.registers raw)
          + RawRegisterEntry.offset e)) (RawRegisterSection.entries (RawMachine.registers raw)),
      coils = map (\<lambda>e. coil_of_entry (e, RawBitSection.base_address (RawMachine.coils raw)
          + RawBitEntry.offset e)) (RawBitSection.entries (RawMachine.coils raw)),
      discrete_inputs = map (\<lambda>e. discrete_input_of_entry (e,
          RawBitSection.base_address (RawMachine.discrete_inputs raw) + RawBitEntry.offset e))
          (RawBitSection.entries (RawMachine.discrete_inputs raw)),
      input_registers = map (\<lambda>e. input_register_of_entry (e,
          RawInputRegisterSection.base_address (RawMachine.input_registers raw)
          + RawInputRegisterEntry.offset e)) (RawInputRegisterSection.entries (RawMachine.input_registers raw)),
      file_records = map file_record_of_entry (RawMachine.file_records raw),
      mem_layout = RawRegisterSection.mem_layout (RawMachine.registers raw),
      input_register_mem_layout = RawInputRegisterSection.mem_layout (RawMachine.input_registers raw),
      server_id = RawMachine.server_id raw\<rparr>"

definition valid_machine_name :: "string \<Rightarrow> bool" where
  "valid_machine_name s \<longleftrightarrow>
     s \<noteq> [] \<and> (\<forall>c \<in> set s. is_ascii_alphanumeric c \<or> c = CHR ''_'' \<or> c = CHR ''-'')"

lemma validate_machine_name_iff:
  "validate_machine_name s = (if valid_machine_name s then Ok () else Err (InvalidMachineName s))"
  by (simp add: validate_machine_name_def valid_machine_name_def)

lemma collect_results_Ok_iff:
  "collect_results f xs = Ok ys \<longleftrightarrow> list_all2 (\<lambda>x y. f x = Ok y) xs ys"
  by (induction xs arbitrary: ys) (auto simp: and_then_eq_Ok_iff list_all2_Cons1)

lemma collect_results_not_Panic: "(\<And>x. f x \<noteq> Panic) \<Longrightarrow> collect_results f xs \<noteq> Panic"
  by (induction xs) (auto simp: and_then_eq_Panic_iff)

lemma resolve_addresses_Ok_iff:
  "resolve_addresses m base es offset_of name_of = Ok rs \<longleftrightarrow>
     section_fits base (map offset_of es) \<and> rs = map (\<lambda>e. (e, base + offset_of e)) es"
  unfolding resolve_addresses_def collect_results_Ok_iff
  by (induction es arbitrary: rs)
     (auto simp: section_fits_def checked_add_u16_def list_all2_Cons1 split: if_splits)

lemma resolve_addresses_not_Panic: "resolve_addresses m base es offset_of name_of \<noteq> Panic"
  unfolding resolve_addresses_def
  by (rule collect_results_not_Panic) (simp split: option.splits)

lemma for_each_validate_unit_code_Ok_iff:
  "for_each (\<lambda>x _. validate_unit_code UNIT_CODES m (nm x) (u x)) xs () = Ok () \<longleftrightarrow>
     units_known UNIT_CODES (map u xs)"
  by (induction xs)
     (auto simp: units_known_def validate_unit_code_def and_then_eq_Ok_iff split: option.splits)

lemma for_each_validate_unit_code_not_Panic:
  "for_each (\<lambda>x _. validate_unit_code UNIT_CODES m (nm x) (u x)) xs () \<noteq> Panic"
  by (rule for_each_not_Panic) (auto simp: validate_unit_code_def split: option.splits)

lemma for_each_reserved:
  "for_each (\<lambda>e _. if RawFileRecordEntry.file_number e = r
       then Err (ReservedFileNumber m (RawFileRecordEntry.file_number e)) else Ok ()) es ()
   = (if r \<in> set (map RawFileRecordEntry.file_number es) then Err (ReservedFileNumber m r) else Ok ())"
  by (induction es) auto

lemma register_of_entry_fields [simp]:
  "RegisterDescription.unit (register_of_entry (e, a)) = RawRegisterEntry.unit e"
  "RegisterDescription.name (register_of_entry (e, a)) = RawRegisterEntry.name e"
  "InputRegisterDescription.unit (input_register_of_entry (f, a)) = RawInputRegisterEntry.unit f"
  "InputRegisterDescription.name (input_register_of_entry (f, a)) = RawInputRegisterEntry.name f"
  by (simp_all add: register_of_entry_def input_register_of_entry_def)

lemmas bit_entry_defs = bit_entry_offset_def [abs_def] bit_entry_name_def [abs_def]

lemma resolve_machine_Ok_iff:
  "resolve_machine UNIT_CODES raw = Ok m \<longleftrightarrow> acceptable_machine UNIT_CODES raw \<and> m = resolved_machine raw"
  by (auto simp: resolve_machine_def acceptable_machine_def resolved_machine_def Let_def
      and_then_eq_Ok_iff for_each_reserved bit_entry_defs comp_def resolve_addresses_Ok_iff
      for_each_validate_unit_code_Ok_iff split: if_splits)

lemma resolve_machine_not_Panic: "resolve_machine UNIT_CODES raw \<noteq> Panic"
  by (auto simp: resolve_machine_def Let_def and_then_eq_Panic_iff for_each_reserved
      resolve_addresses_not_Panic for_each_validate_unit_code_not_Panic split: if_splits)

lemma resolve_machines_Ok_iff:
  "resolve_machines UNIT_CODES seen raws = Ok ms \<longleftrightarrow>
     (\<forall>raw \<in> set raws. valid_machine_name (RawMachine.name raw) \<and> acceptable_machine UNIT_CODES raw)
     \<and> distinct (map RawMachine.name raws) \<and> set (map RawMachine.name raws) \<inter> seen = {}
     \<and> ms = map resolved_machine raws"
  by (induction raws arbitrary: seen ms)
     (auto simp: validate_machine_name_iff and_then_eq_Ok_iff resolve_machine_Ok_iff split: if_splits)

lemma resolve_machines_not_Panic: "resolve_machines UNIT_CODES seen raws \<noteq> Panic"
  by (induction raws arbitrary: seen)
     (auto simp: validate_machine_name_iff and_then_eq_Panic_iff resolve_machine_not_Panic split: if_splits)

section \<open>Properties\<close>

text \<open>
  C19: A description is accepted exactly when its TOML parses, its machines have pairwise
  distinct names of ASCII letters, digits, underscores and hyphens, every base address plus
  offset fits sixteen bits, every unit is a known code and no file record uses the file
  number reserved for the bulk transfer; the accepted description has the machines of the
  file in order, each address the sum of base and offset. Parsing never panics unless the
  TOML parser does.
\<close>

theorem device_description_parse_exact:
  "(DeviceDescription_parse UNIT_CODES from_toml source = Ok d \<longleftrightarrow>
     (\<exists>raw. from_toml source = Ok raw
        \<and> list_all (\<lambda>m. valid_machine_name (RawMachine.name m) \<and> acceptable_machine UNIT_CODES m)
             (RawDeviceDescription.machines raw)
        \<and> distinct (map RawMachine.name (RawDeviceDescription.machines raw))
        \<and> d = \<lparr>DeviceDescription.machines = map resolved_machine (RawDeviceDescription.machines raw)\<rparr>))
   \<and> (DeviceDescription_parse UNIT_CODES from_toml source = Panic \<longleftrightarrow> from_toml source = Panic)"
  by (auto simp: DeviceDescription_parse_def and_then_eq_Ok_iff and_then_eq_Panic_iff
      resolve_machines_Ok_iff resolve_machines_not_Panic list_all_iff)

lemma chunk_range_within:
  assumes "k < div_ceil n 248" and "n \<le> 65536 * 248"
  shows "bulk_transfer_chunk_range n (of_nat k) = Some (248 * k, min (248 * k + 248) n)"
    and "248 * k < n"
proof -
  from assms have "k < 65536" and n: "248 * k < n"
    by (auto simp: div_ceil_def less_eq_div_iff_mult_less_eq)
  then show "bulk_transfer_chunk_range n (of_nat k) = Some (248 * k, min (248 * k + 248) n)" "248 * k < n"
    by (simp_all add: bulk_transfer_chunk_range_def Let_def mult.commute)
qed

lemma chunks_prefix:
  assumes "k \<le> div_ceil (length blob) 248" and "length blob \<le> 65536 * 248"
  shows "concat (map (\<lambda>k. case bulk_transfer_chunk_range (length blob) (of_nat k) of
            None \<Rightarrow> [] | Some (a, b) \<Rightarrow> take (b - a) (drop a blob)) [0..<k]) = take (248 * k) blob"
  using assms(1)
proof (induction k)
  case (Suc k)
  then have k: "k < div_ceil (length blob) 248" by simp
  have "take (min (248 * k + 248) (length blob) - 248 * k) (drop (248 * k) blob)
      = take 248 (drop (248 * k) blob)"
    by (simp add: min_def)
  with Suc k chunk_range_within [OF k assms(2)] show ?case
    by (simp add: take_add [symmetric] add.commute)
qed simp

text \<open>
  The chunks of a bulk transfer tile the compressed description. For a blob of at most
  65536 chunks, the records numbered from zero cover it in order without gap or overlap,
  each of at least one and at most 248 bytes, and every later record number is refused; so
  what a client assembles from them is the blob.
\<close>

theorem bulk_transfer_chunks_tile_the_blob:
  assumes "length blob \<le> 65536 * 248"
  shows "concat (map (\<lambda>k. case bulk_transfer_chunk_range (length blob) (of_nat k) of
            None \<Rightarrow> [] | Some (a, b) \<Rightarrow> take (b - a) (drop a blob)) [0..<div_ceil (length blob) 248]) = blob
         \<and> (\<forall>k < div_ceil (length blob) 248. \<exists>a b. bulk_transfer_chunk_range (length blob) (of_nat k) = Some (a, b)
              \<and> a < b \<and> b \<le> length blob \<and> b - a \<le> 248)
         \<and> (\<forall>k. div_ceil (length blob) 248 \<le> unat k \<longrightarrow> bulk_transfer_chunk_range (length blob) k = None)"
proof (intro conjI allI impI)
  let ?n = "length blob"
  have "take (248 * div_ceil ?n 248) blob = blob"
    by (simp add: div_ceil_def)
  with chunks_prefix [OF order_refl assms]
  show "concat (map (\<lambda>k. case bulk_transfer_chunk_range ?n (of_nat k) of
            None \<Rightarrow> [] | Some (a, b) \<Rightarrow> take (b - a) (drop a blob)) [0..<div_ceil ?n 248]) = blob"
    by simp
  show "\<exists>a b. bulk_transfer_chunk_range ?n (of_nat k) = Some (a, b) \<and> a < b \<and> b \<le> ?n \<and> b - a \<le> 248"
    if "k < div_ceil ?n 248" for k
    using chunk_range_within [OF that assms] by auto
  show "bulk_transfer_chunk_range ?n k = None" if "div_ceil ?n 248 \<le> unat k" for k
    using that by (auto simp: bulk_transfer_chunk_range_def div_ceil_def Let_def)
qed

theorem bulk_transfer_chunks_tile_the_blob_witness:
  "length (replicate 300 (7 :: u8)) \<le> 65536 * 248
   \<and> concat (map (\<lambda>k. case bulk_transfer_chunk_range (length (replicate 300 (7 :: u8))) (of_nat k) of
            None \<Rightarrow> [] | Some (a, b) \<Rightarrow> take (b - a) (drop a (replicate 300 (7 :: u8))))
        [0..<div_ceil (length (replicate 300 (7 :: u8))) 248]) = replicate 300 (7 :: u8)"
  using bulk_transfer_chunks_tile_the_blob [of "replicate 300 (7 :: u8)"] by simp

end
