(* ===== verification/Register_Encoding.thy ===== *)
theory Register_Encoding
  imports Device_Description
begin

text \<open>
  Register values and their wire words (\<open>datafs/src/register_encoding.rs\<close> and the
  \<open>RegisterValue\<close> of \<open>datafs/src/lib.rs\<close>). A value of a signed type is the word with that
  two's complement reading, a floating-point value is its IEEE bit pattern: the code only
  ever moves their bytes. \<open>MemLayout\<close> rearranges the words of a value; the rearrangement
  is its own inverse, which is what makes encoding and decoding inverse to each other.
\<close>

section \<open>Values\<close>

datatype RegisterValue =
    RegU8 u8 | RegI8 u8 | RegU16 u16 | RegI16 u16 | RegU24 u32 | RegI24 u32
  | RegU32 u32 | RegI32 u32 | RegU64 u64 | RegI64 u64 | RegF32 u32 | RegF64 u64

fun data_type_of :: "RegisterValue \<Rightarrow> DataType" where
  "data_type_of (RegU8 _) = U8"
| "data_type_of (RegI8 _) = I8"
| "data_type_of (RegU16 _) = U16"
| "data_type_of (RegI16 _) = I16"
| "data_type_of (RegU24 _) = U24"
| "data_type_of (RegI24 _) = I24"
| "data_type_of (RegU32 _) = U32"
| "data_type_of (RegI32 _) = I32"
| "data_type_of (RegU64 _) = U64"
| "data_type_of (RegI64 _) = I64"
| "data_type_of (RegF32 _) = F32"
| "data_type_of (RegF64 _) = F64"

fun default_register_value :: "DataType \<Rightarrow> RegisterValue" where
  "default_register_value U8 = RegU8 0"
| "default_register_value I8 = RegI8 0"
| "default_register_value U16 = RegU16 0"
| "default_register_value I16 = RegI16 0"
| "default_register_value U24 = RegU24 0"
| "default_register_value I24 = RegI24 0"
| "default_register_value U32 = RegU32 0"
| "default_register_value I32 = RegI32 0"
| "default_register_value U64 = RegU64 0"
| "default_register_value I64 = RegI64 0"
| "default_register_value F32 = RegF32 0"
| "default_register_value F64 = RegF64 0"

section \<open>Bytes of wider integers\<close>

text \<open>\<open>to_be_bytes\<close> of a \<open>k\<close>-byte integer and \<open>from_be_bytes\<close>.\<close>

definition be_bytes :: "nat \<Rightarrow> 'a :: len word \<Rightarrow> bytes" where
  "be_bytes k w = map (\<lambda>i. ucast (drop_bit (8 * (k - 1 - i)) w)) [0..<k]"

definition of_be_bytes :: "bytes \<Rightarrow> 'a :: len word" where
  "of_be_bytes bs = foldl (\<lambda>acc b. push_bit 8 acc OR ucast b) 0 bs"

text \<open>\<open>v.try_into().expect(..)\<close> into an array of \<open>k\<close> bytes, then \<open>from_be_bytes\<close>.\<close>

definition be_array :: "nat \<Rightarrow> bytes \<Rightarrow> ('a :: len word, 'e) result" where
  "be_array k bs = (if length bs = k then Ok (of_be_bytes bs) else Panic)"

section \<open>Encoding\<close>

definition swap_bytes :: "u16 \<Rightarrow> u16" where
  "swap_bytes w = push_bit 8 w OR drop_bit 8 w"

definition apply_mem_layout :: "u16 list \<Rightarrow> MemLayout \<Rightarrow> u16 list" where
  "apply_mem_layout words layout =
     (let (reverse_word_order, swap_bytes_within_word) =
        (case layout of
           Abcd \<Rightarrow> (False, False)
         | Badc \<Rightarrow> (False, True)
         | Cdab \<Rightarrow> (True, False)
         | Dcba \<Rightarrow> (True, True));
        words' = (if swap_bytes_within_word then map swap_bytes words else words)
      in if reverse_word_order then rev words' else words')"

definition words_from_natural_bytes :: "bytes \<Rightarrow> MemLayout \<Rightarrow> u16 list" where
  "words_from_natural_bytes bs layout = apply_mem_layout (words_be bs) layout"

definition natural_bytes_from_words :: "u16 list \<Rightarrow> MemLayout \<Rightarrow> bytes" where
  "natural_bytes_from_words words layout = bytes_be (apply_mem_layout words layout)"

fun register_value_to_words :: "RegisterValue \<Rightarrow> MemLayout \<Rightarrow> u16 list" where
  "register_value_to_words (RegU8 v) layout = [ucast v]"
| "register_value_to_words (RegI8 v) layout = [scast v]"
| "register_value_to_words (RegU16 v) layout = [v]"
| "register_value_to_words (RegI16 v) layout = [v]"
| "register_value_to_words (RegU24 v) layout = words_from_natural_bytes (be_bytes 4 v) layout"
| "register_value_to_words (RegU32 v) layout = words_from_natural_bytes (be_bytes 4 v) layout"
| "register_value_to_words (RegI24 v) layout = words_from_natural_bytes (be_bytes 4 v) layout"
| "register_value_to_words (RegI32 v) layout = words_from_natural_bytes (be_bytes 4 v) layout"
| "register_value_to_words (RegF32 v) layout = words_from_natural_bytes (be_bytes 4 v) layout"
| "register_value_to_words (RegU64 v) layout = words_from_natural_bytes (be_bytes 8 v) layout"
| "register_value_to_words (RegI64 v) layout = words_from_natural_bytes (be_bytes 8 v) layout"
| "register_value_to_words (RegF64 v) layout = words_from_natural_bytes (be_bytes 8 v) layout"

definition register_value_from_words ::
    "DataType \<Rightarrow> u16 list \<Rightarrow> MemLayout \<Rightarrow> (RegisterValue option, 'e) result" where
  "register_value_from_words dt words layout =
     (if length words \<noteq> unat (register_count dt) then Ok None
      else let bs = natural_bytes_from_words words layout in
      map_ok Some (case dt of
        U8 \<Rightarrow> map_ok (\<lambda>w. RegU8 (ucast w)) (index words 0)
      | I8 \<Rightarrow> map_ok (\<lambda>w. RegI8 (ucast w)) (index words 0)
      | U16 \<Rightarrow> map_ok RegU16 (index words 0)
      | I16 \<Rightarrow> map_ok RegI16 (index words 0)
      | U24 \<Rightarrow> map_ok RegU24 (be_array 4 bs)
      | I24 \<Rightarrow> map_ok RegI24 (be_array 4 bs)
      | U32 \<Rightarrow> map_ok RegU32 (be_array 4 bs)
      | I32 \<Rightarrow> map_ok RegI32 (be_array 4 bs)
      | F32 \<Rightarrow> map_ok RegF32 (be_array 4 bs)
      | U64 \<Rightarrow> map_ok RegU64 (be_array 8 bs)
      | I64 \<Rightarrow> map_ok RegI64 (be_array 8 bs)
      | F64 \<Rightarrow> map_ok RegF64 (be_array 8 bs)))"

section \<open>Round trips\<close>

lemma length_be_bytes [simp]: "length (be_bytes k w) = k"
  by (simp add: be_bytes_def)

lemma of_be_bytes_snoc: "of_be_bytes (bs @ [b]) = push_bit 8 (of_be_bytes bs) OR ucast b"
  by (simp add: of_be_bytes_def)

lemma bit_of_be_bytes:
  "n < LENGTH('a) \<Longrightarrow>
     bit (of_be_bytes bs :: 'a :: len word) n \<longleftrightarrow>
       n < 8 * length bs \<and> bit (bs ! (length bs - 1 - n div 8)) (n mod 8)"
proof (induction bs arbitrary: n rule: rev_induct)
  case Nil
  then show ?case by (simp add: of_be_bytes_def)
next
  case (snoc b bs)
  show ?case
  proof (cases "n < 8")
    case True
    with snoc.prems show ?thesis
      by (auto simp: of_be_bytes_snoc bit_simps nth_append)
  next
    case False
    then have n: "n div 8 = Suc ((n - 8) div 8)" "n mod 8 = (n - 8) mod 8"
      by (simp_all add: le_div_geq le_mod_geq)
    show ?thesis
      using False snoc.prems snoc.IH [of "n - 8"]
      by (auto simp: of_be_bytes_snoc bit_simps nth_append n dest: bit_imp_le_length)
  qed
qed

lemma bit_be_bytes:
  "i < k \<Longrightarrow> bit (be_bytes k w ! i) j \<longleftrightarrow> j < 8 \<and> bit w (8 * (k - 1 - i) + j)"
  by (auto simp: be_bytes_def bit_simps add.commute dest: bit_imp_le_length)

lemma of_be_bytes_be_bytes:
  assumes "LENGTH('a) = 8 * k"
  shows "of_be_bytes (be_bytes k w) = (w :: 'a :: len word)"
proof (rule bit_word_eqI)
  fix n
  assume "n < LENGTH('a)"
  with assms have n: "n div 8 < k" "n < 8 * k" by auto
  then have "8 * (k - 1 - (k - 1 - n div 8)) + n mod 8 = n" by simp
  then show "bit (of_be_bytes (be_bytes k w) :: 'a word) n = bit w n"
    using n \<open>n < LENGTH('a)\<close> by (simp add: bit_of_be_bytes bit_be_bytes)
qed

lemma be_bytes_of_be_bytes:
  assumes "LENGTH('a) = 8 * length bs"
  shows "be_bytes (length bs) (of_be_bytes bs :: 'a :: len word) = bs"
proof (rule nth_equalityI)
  fix i
  assume i: "i < length (be_bytes (length bs) (of_be_bytes bs :: 'a word))"
  show "be_bytes (length bs) (of_be_bytes bs :: 'a word) ! i = bs ! i"
  proof (rule bit_word_eqI)
    fix j
    assume "j < LENGTH(8)"
    then have j: "j < 8" by simp
    let ?n = "8 * (length bs - 1 - i) + j"
    have n: "?n < 8 * length bs" "?n div 8 = length bs - 1 - i" "?n mod 8 = j"
      using i j by auto
    then show "bit (be_bytes (length bs) (of_be_bytes bs :: 'a word) ! i) j = bit (bs ! i) j"
      using i j assms by (simp add: bit_be_bytes bit_of_be_bytes)
  qed
qed simp

lemma swap_bytes_swap_bytes [simp]: "swap_bytes (swap_bytes w) = w"
  by (rule bit_word_eqI) (auto simp: swap_bytes_def bit_simps dest: bit_imp_le_length)

lemma apply_mem_layout_layouts:
  "apply_mem_layout ws Abcd = ws"
  "apply_mem_layout ws Badc = map swap_bytes ws"
  "apply_mem_layout ws Cdab = rev ws"
  "apply_mem_layout ws Dcba = rev (map swap_bytes ws)"
  by (simp_all add: apply_mem_layout_def)

lemma apply_mem_layout_involution [simp]: "apply_mem_layout (apply_mem_layout ws l) l = ws"
  by (cases l) (simp_all add: apply_mem_layout_def rev_map comp_def)

lemma length_apply_mem_layout [simp]: "length (apply_mem_layout ws l) = length ws"
  by (cases l) (simp_all add: apply_mem_layout_def)

lemma length_words_from_natural_bytes [simp]:
  "length (words_from_natural_bytes bs l) = length bs div 2"
  by (simp add: words_from_natural_bytes_def)

lemma length_natural_bytes_from_words [simp]:
  "length (natural_bytes_from_words ws l) = 2 * length ws"
  by (simp add: natural_bytes_from_words_def)

lemma natural_bytes_from_words_from [simp]:
  "even (length bs) \<Longrightarrow> natural_bytes_from_words (words_from_natural_bytes bs l) l = bs"
  by (simp add: natural_bytes_from_words_def words_from_natural_bytes_def bytes_be_words_be)

lemma words_from_natural_bytes_natural [simp]:
  "words_from_natural_bytes (natural_bytes_from_words ws l) l = ws"
  by (simp add: natural_bytes_from_words_def words_from_natural_bytes_def)

lemma length_register_value_to_words [simp]:
  "length (register_value_to_words v l) = unat (register_count (data_type_of v))"
  by (cases v) simp_all

lemma data_type_of_default [simp]: "data_type_of (default_register_value dt) = dt"
  by (cases dt) simp_all

lemma ucast_narrow [simp]:
  "ucast (ucast b :: u16) = (b :: u8)" "ucast (scast b :: u16) = (b :: u8)"
  by (rule bit_word_eqI, simp add: bit_simps)+

lemma register_value_from_to_words:
  "register_value_from_words (data_type_of v) (register_value_to_words v l) l = Ok (Some v)"
  by (cases v)
     (simp_all add: register_value_from_words_def be_array_def of_be_bytes_be_bytes)

lemma words_of_natural_value:
  "length ws = 2 \<Longrightarrow>
     words_from_natural_bytes (be_bytes 4 (of_be_bytes (natural_bytes_from_words ws l) :: u32)) l = ws"
  "length ws = 4 \<Longrightarrow>
     words_from_natural_bytes (be_bytes 8 (of_be_bytes (natural_bytes_from_words ws l) :: u64)) l = ws"
  using be_bytes_of_be_bytes [where ?'a = 32, of "natural_bytes_from_words ws l"]
    be_bytes_of_be_bytes [where ?'a = 64, of "natural_bytes_from_words ws l"]
  by simp_all

lemma singleton_nth: "length ws = Suc 0 \<Longrightarrow> [ws ! 0] = ws"
  by (cases ws) simp_all

lemma register_value_from_words_cases:
  "register_value_from_words dt ws l = Ok None \<and> length ws \<noteq> unat (register_count dt)
   \<or> (\<exists>v. register_value_from_words dt ws l = Ok (Some v) \<and> data_type_of v = dt
        \<and> length ws = unat (register_count dt)
        \<and> (dt \<noteq> U8 \<and> dt \<noteq> I8 \<longrightarrow> register_value_to_words v l = ws))"
  by (cases dt)
     (auto simp: register_value_from_words_def be_array_def words_of_natural_value singleton_nth Let_def)

section \<open>Properties\<close>

text \<open>
  C20: Register encoding is faithful in both directions. Every value, of every type and in
  every memory layout, is written as exactly the number of registers its type declares and
  decodes back from them; and any block of registers of the right length decodes to a value
  of the declared type which, except for the 8-bit types that use half of their register,
  encodes back to the same registers. A block of another length is refused, and no input
  makes the decoder panic.
\<close>

theorem register_encoding_round_trip:
  "length (register_value_to_words v layout) = unat (register_count (data_type_of v))
   \<and> register_value_from_words (data_type_of v) (register_value_to_words v layout) layout
       = (Ok (Some v) :: (RegisterValue option, 'e) result)
   \<and> (register_value_from_words dt words layout = (Ok None :: (RegisterValue option, 'e) result)
        \<and> length words \<noteq> unat (register_count dt)
      \<or> (\<exists>w. register_value_from_words dt words layout = (Ok (Some w) :: (RegisterValue option, 'e) result)
           \<and> data_type_of w = dt \<and> length words = unat (register_count dt)
           \<and> (if dt = U8 \<or> dt = I8 then True else register_value_to_words w layout = words)))"
  using register_value_from_words_cases [of dt words layout]
  by (auto simp: register_value_from_to_words)

text \<open>
  The memory layouts are self-inverse rearrangements of the same words: applying a
  layout twice gives the words back, the number of words never changes, the word-reversing
  layouts send word \<open>i\<close> to the mirrored position, and the byte-swapping ones exchange the two
  bytes of every word.
\<close>

theorem mem_layout_involution:
  "apply_mem_layout (apply_mem_layout words layout) layout = words
   \<and> apply_mem_layout words Abcd = words
   \<and> apply_mem_layout words Cdab = rev words
   \<and> bytes_be (apply_mem_layout words Dcba) = rev (bytes_be words)
   \<and> apply_mem_layout words Badc = rev (apply_mem_layout words Dcba)"
proof -
  have "bytes_be (rev (map swap_bytes words)) = rev (bytes_be words)"
  proof (induction words)
    case (Cons w words)
    have "to_be_bytes (swap_bytes w) = rev (to_be_bytes w)"
      by (auto simp: to_be_bytes_def swap_bytes_def intro!: bit_word_eqI)
        (auto simp: bit_simps dest: bit_imp_le_length)
    with Cons show ?case by (simp add: bytes_be_append)
  qed simp
  then show ?thesis by (simp add: apply_mem_layout_layouts)
qed

text \<open>
  The wire path does not confine a 24-bit value to 24 bits: two registers with a nonzero
  top byte decode to a \<open>U24\<close> outside its range.
\<close>

theorem u24_range_not_enforced:
  "register_value_from_words U24 [0x0100, 0] Abcd = Ok (Some (RegU24 0x01000000))"
  by (simp add: register_value_from_words_def be_array_def natural_bytes_from_words_def
      apply_mem_layout_def to_be_bytes_def of_be_bytes_def)

end
