(* ===== verification/Data_Stores.thy ===== *)
theory Data_Stores
  imports Register_Encoding
begin

text \<open>
  The data layer (\<open>datafs/src/lib.rs\<close>): the five value stores of a machine and its write
  report, staged values and pending transactions, and the text forms of values. A
  \<open>HashMap\<close> is a map; the stores of one machine, which the source shares behind
  \<open>Arc<Mutex<_>>\<close> handles, are one record, and an operation that holds the lock is one
  step on it. The decimal text of floating-point values is the standard library's
  conversion and an argument of the functions that use it.
\<close>

section \<open>Stores\<close>

record RegisterStore =
  "values" :: "string \<rightharpoonup> RegisterValue"

definition RegisterStore_new :: RegisterStore where
  "RegisterStore_new = \<lparr>RegisterStore.values = Map.empty\<rparr>"

definition RegisterStore_get :: "RegisterStore \<Rightarrow> string \<Rightarrow> RegisterValue option" where
  "RegisterStore_get s nm = RegisterStore.values s nm"

definition RegisterStore_set :: "string \<Rightarrow> RegisterValue \<Rightarrow> RegisterStore \<Rightarrow> RegisterStore" where
  "RegisterStore_set nm v s = s\<lparr>RegisterStore.values := (RegisterStore.values s)(nm \<mapsto> v)\<rparr>"

record InputRegisterStore =
  "values" :: "string \<rightharpoonup> RegisterValue"

definition InputRegisterStore_new :: InputRegisterStore where
  "InputRegisterStore_new = \<lparr>InputRegisterStore.values = Map.empty\<rparr>"

definition InputRegisterStore_get :: "InputRegisterStore \<Rightarrow> string \<Rightarrow> RegisterValue option" where
  "InputRegisterStore_get s nm = InputRegisterStore.values s nm"

definition InputRegisterStore_set ::
    "string \<Rightarrow> RegisterValue \<Rightarrow> InputRegisterStore \<Rightarrow> InputRegisterStore" where
  "InputRegisterStore_set nm v s =
     s\<lparr>InputRegisterStore.values := (InputRegisterStore.values s)(nm \<mapsto> v)\<rparr>"

datatype CoilValue = CoilValue bool

fun CoilValue_display :: "CoilValue \<Rightarrow> string" where
  "CoilValue_display (CoilValue b) = (if b then ''1'' else ''0'')"

record CoilStore =
  "values" :: "string \<rightharpoonup> CoilValue"

definition CoilStore_new :: CoilStore where
  "CoilStore_new = \<lparr>CoilStore.values = Map.empty\<rparr>"

definition CoilStore_get :: "CoilStore \<Rightarrow> string \<Rightarrow> CoilValue option" where
  "CoilStore_get s nm = CoilStore.values s nm"

definition CoilStore_set :: "string \<Rightarrow> CoilValue \<Rightarrow> CoilStore \<Rightarrow> CoilStore" where
  "CoilStore_set nm v s = s\<lparr>CoilStore.values := (CoilStore.values s)(nm \<mapsto> v)\<rparr>"

record DiscreteInputStore =
  "values" :: "string \<rightharpoonup> CoilValue"

definition DiscreteInputStore_new :: DiscreteInputStore where
  "DiscreteInputStore_new = \<lparr>DiscreteInputStore.values = Map.empty\<rparr>"

definition DiscreteInputStore_get :: "DiscreteInputStore \<Rightarrow> string \<Rightarrow> CoilValue option" where
  "DiscreteInputStore_get s nm = DiscreteInputStore.values s nm"

definition DiscreteInputStore_set ::
    "string \<Rightarrow> CoilValue \<Rightarrow> DiscreteInputStore \<Rightarrow> DiscreteInputStore" where
  "DiscreteInputStore_set nm v s =
     s\<lparr>DiscreteInputStore.values := (DiscreteInputStore.values s)(nm \<mapsto> v)\<rparr>"

record FileRecordStore =
  "values" :: "u16 \<times> u16 \<rightharpoonup> bytes"

definition FileRecordStore_new :: FileRecordStore where
  "FileRecordStore_new = \<lparr>FileRecordStore.values = Map.empty\<rparr>"

definition FileRecordStore_get :: "FileRecordStore \<Rightarrow> u16 \<times> u16 \<Rightarrow> bytes option" where
  "FileRecordStore_get s k = FileRecordStore.values s k"

definition FileRecordStore_set :: "u16 \<times> u16 \<Rightarrow> bytes \<Rightarrow> FileRecordStore \<Rightarrow> FileRecordStore" where
  "FileRecordStore_set k v s = s\<lparr>FileRecordStore.values := (FileRecordStore.values s)(k \<mapsto> v)\<rparr>"

section \<open>Write outcomes and staged values\<close>

datatype WriteStatus = WriteOk | WriteFailed string

fun WriteStatus_display :: "WriteStatus \<Rightarrow> string" where
  "WriteStatus_display WriteOk = ''OK''"
| "WriteStatus_display (WriteFailed reason) = ''FAILED: '' @ reason"

record WriteReport =
  statuses :: "string \<rightharpoonup> WriteStatus"

definition WriteReport_new :: WriteReport where
  "WriteReport_new = \<lparr>statuses = Map.empty\<rparr>"

definition WriteReport_get :: "WriteReport \<Rightarrow> string \<Rightarrow> WriteStatus option" where
  "WriteReport_get s nm = statuses s nm"

definition WriteReport_set :: "string \<Rightarrow> WriteStatus \<Rightarrow> WriteReport \<Rightarrow> WriteReport" where
  "WriteReport_set nm v s = s\<lparr>statuses := (statuses s)(nm \<mapsto> v)\<rparr>"

datatype StagedValue =
    StagedRegister RegisterValue
  | StagedCoil CoilValue
  | StagedDiscreteInput CoilValue
  | StagedInputRegister RegisterValue
  | MaskedRegister u16 u16
  | StagedFileRecord u16 u16 bytes

record PendingTransaction =
  staged :: "string \<rightharpoonup> StagedValue"

definition PendingTransaction_new :: PendingTransaction where
  "PendingTransaction_new = \<lparr>staged = Map.empty\<rparr>"

definition PendingTransaction_stage :: "string \<Rightarrow> StagedValue \<Rightarrow> PendingTransaction \<Rightarrow> PendingTransaction" where
  "PendingTransaction_stage nm v t = t\<lparr>staged := (staged t)(nm \<mapsto> v)\<rparr>"

definition PendingTransaction_get :: "PendingTransaction \<Rightarrow> string \<Rightarrow> StagedValue option" where
  "PendingTransaction_get t nm = staged t nm"

definition PendingTransaction_unstage ::
    "string \<Rightarrow> PendingTransaction \<Rightarrow> StagedValue option \<times> PendingTransaction" where
  "PendingTransaction_unstage nm t = (staged t nm, t\<lparr>staged := (staged t)(nm := None)\<rparr>)"

definition PendingTransaction_is_empty :: "PendingTransaction \<Rightarrow> bool" where
  "PendingTransaction_is_empty t \<longleftrightarrow> staged t = Map.empty"

definition PendingTransaction_drain ::
    "PendingTransaction \<Rightarrow> (string \<rightharpoonup> StagedValue) \<times> PendingTransaction" where
  "PendingTransaction_drain t = (staged t, t\<lparr>staged := Map.empty\<rparr>)"

section \<open>Machines\<close>

record MachineStores =
  registers :: RegisterStore
  coils :: CoilStore
  discrete_inputs :: DiscreteInputStore
  input_registers :: InputRegisterStore
  file_records :: FileRecordStore
  report :: WriteReport

definition MachineStores_new :: MachineStores where
  "MachineStores_new =
     \<lparr>MachineStores.registers = RegisterStore_new, coils = CoilStore_new,
      discrete_inputs = DiscreteInputStore_new, input_registers = InputRegisterStore_new,
      file_records = FileRecordStore_new, report = WriteReport_new\<rparr>"

definition build_machine_stores :: "MachineDescription list \<Rightarrow> (string \<rightharpoonup> MachineStores)" where
  "build_machine_stores ms =
     foldl (\<lambda>stores machine. stores(MachineDescription.name machine \<mapsto> MachineStores_new)) Map.empty ms"

section \<open>Text forms\<close>

definition U24_MAX :: u32 where [simp]: "U24_MAX = 0x00FFFFFF"
definition I24_MIN :: int where [simp]: "I24_MIN = - 0x00800000"
definition I24_MAX :: int where [simp]: "I24_MAX = 0x007FFFFF"

definition RegisterValue_display :: "(u32 \<Rightarrow> string) \<Rightarrow> (u64 \<Rightarrow> string) \<Rightarrow> RegisterValue \<Rightarrow> string" where
  "RegisterValue_display show_f32 show_f64 v =
     (case v of
        RegU8 w \<Rightarrow> show_nat (unat w)
      | RegI8 w \<Rightarrow> show_int (sint w)
      | RegU16 w \<Rightarrow> show_nat (unat w)
      | RegI16 w \<Rightarrow> show_int (sint w)
      | RegU24 w \<Rightarrow> show_nat (unat w)
      | RegI24 w \<Rightarrow> show_int (sint w)
      | RegU32 w \<Rightarrow> show_nat (unat w)
      | RegI32 w \<Rightarrow> show_int (sint w)
      | RegU64 w \<Rightarrow> show_nat (unat w)
      | RegI64 w \<Rightarrow> show_int (sint w)
      | RegF32 w \<Rightarrow> show_f32 w
      | RegF64 w \<Rightarrow> show_f64 w)"

definition parse_hex_or_decimal ::
    "string \<Rightarrow> (string \<Rightarrow> 'a option) \<Rightarrow> (string \<Rightarrow> 'a option) \<Rightarrow> 'a option" where
  "parse_hex_or_decimal text from_hex from_decimal =
     (case (case strip_prefix ''0x'' text of Some h \<Rightarrow> Some h | None \<Rightarrow> strip_prefix ''0X'' text) of
        Some hex \<Rightarrow> from_hex hex
      | None \<Rightarrow> from_decimal text)"

definition parse_unsigned :: "nat \<Rightarrow> string \<Rightarrow> 'a :: len word option" where
  "parse_unsigned bits text =
     map_option of_nat (parse_hex_or_decimal text
       (from_str_radix_unsigned bits 16) (from_str_radix_unsigned bits 10))"

definition parse_register_value ::
    "(string \<Rightarrow> u32 option) \<Rightarrow> (string \<Rightarrow> u64 option) \<Rightarrow> DataType \<Rightarrow> string \<Rightarrow> RegisterValue option" where
  "parse_register_value parse_f32 parse_f64 dt txt =
     (let s = trim txt in
      case dt of
        U8 \<Rightarrow> map_option RegU8 (parse_unsigned 8 s)
      | I8 \<Rightarrow> map_option (\<lambda>i. RegI8 (word_of_int i)) (parse_signed 8 s)
      | U16 \<Rightarrow> map_option RegU16 (parse_unsigned 16 s)
      | I16 \<Rightarrow> map_option (\<lambda>i. RegI16 (word_of_int i)) (parse_signed 16 s)
      | U24 \<Rightarrow>
          (case parse_unsigned 32 s of
             None \<Rightarrow> None | Some v \<Rightarrow> if v \<le> U24_MAX then Some (RegU24 v) else None)
      | I24 \<Rightarrow>
          (case parse_signed 32 s of
             None \<Rightarrow> None
           | Some i \<Rightarrow> if I24_MIN \<le> i \<and> i \<le> I24_MAX then Some (RegI24 (word_of_int i)) else None)
      | U32 \<Rightarrow> map_option RegU32 (parse_unsigned 32 s)
      | I32 \<Rightarrow> map_option (\<lambda>i. RegI32 (word_of_int i)) (parse_signed 32 s)
      | U64 \<Rightarrow> map_option RegU64 (parse_unsigned 64 s)
      | I64 \<Rightarrow> map_option (\<lambda>i. RegI64 (word_of_int i)) (parse_signed 64 s)
      | F32 \<Rightarrow> map_option RegF32 (parse_f32 s)
      | F64 \<Rightarrow> map_option RegF64 (parse_f64 s))"

definition parse_coil_value :: "string \<Rightarrow> CoilValue option" where
  "parse_coil_value txt =
     (if trim txt = ''0'' then Some (CoilValue False)
      else if trim txt = ''1'' then Some (CoilValue True) else None)"

definition parse_file_record_name :: "string \<Rightarrow> (u16 \<times> u16) option" where
  "parse_file_record_name nm =
     (case split_once CHR '':'' nm of
        None \<Rightarrow> None
      | Some (f, r) \<Rightarrow>
          (case from_str_radix_unsigned 16 10 f of
             None \<Rightarrow> None
           | Some fn \<Rightarrow>
               (case from_str_radix_unsigned 16 10 r of
                  None \<Rightarrow> None
                | Some rn \<Rightarrow> Some (of_nat fn, of_nat rn))))"

text \<open>The lazy \<open>map(..).collect::<Option<Vec<u8>>>()\<close>, which stops at the first pair that is no number.\<close>

fun parse_hex_pairs :: "string \<Rightarrow> nat list \<Rightarrow> (bytes option, 'e) result" where
  "parse_hex_pairs cleaned [] = Ok (Some [])"
| "parse_hex_pairs cleaned (start # starts) =
     and_then (str_slice cleaned start (start + 2)) (\<lambda>pair.
     case from_str_radix_unsigned 8 16 pair of
       None \<Rightarrow> Ok None
     | Some n \<Rightarrow>
         and_then (parse_hex_pairs cleaned starts) (\<lambda>rest. Ok (map_option ((#) (of_nat n)) rest)))"

definition parse_file_record_value :: "string \<Rightarrow> (bytes option, 'e) result" where
  "parse_file_record_value txt =
     (let cleaned = concat (filter (\<lambda>c. \<not> is_whitespace c) (str_chars txt))
      in if cleaned = [] \<or> odd (length cleaned) then Ok None
         else parse_hex_pairs cleaned (map (\<lambda>i. 2 * i) [0..<length cleaned div 2]))"

text \<open>\<open>{:04X}\<close> of a mask.\<close>

definition show_hex_word :: "u16 \<Rightarrow> string" where
  "show_hex_word w = concat (map show_hex_byte (to_be_bytes w))"

definition StagedValue_display :: "(u32 \<Rightarrow> string) \<Rightarrow> (u64 \<Rightarrow> string) \<Rightarrow> StagedValue \<Rightarrow> string" where
  "StagedValue_display show_f32 show_f64 v =
     (case v of
        StagedRegister r \<Rightarrow> RegisterValue_display show_f32 show_f64 r
      | StagedCoil c \<Rightarrow> CoilValue_display c
      | StagedDiscreteInput c \<Rightarrow> CoilValue_display c
      | StagedInputRegister r \<Rightarrow> RegisterValue_display show_f32 show_f64 r
      | MaskedRegister and_mask or_mask \<Rightarrow>
          ''MASK 0x'' @ show_hex_word and_mask @ '' 0x'' @ show_hex_word or_mask
      | StagedFileRecord _ _ bs \<Rightarrow> concat (map (\<lambda>b. show_hex_byte b @ '' '') bs))"

section \<open>The store contract\<close>

text \<open>
  What every store promises its callers: a new one is empty, and a write is seen by the
  next read of the same key and by no read of another. What a sequence of writes leaves
  behind follows once for all of them.
\<close>

locale keyed_store =
  fixes new :: 's
    and get :: "'s \<Rightarrow> 'k \<Rightarrow> 'v option"
    and set_value :: "'k \<Rightarrow> 'v \<Rightarrow> 's \<Rightarrow> 's"
  assumes get_new: "get new k = None"
    and get_set: "get (set_value k v s) j = (if j = k then Some v else get s j)"
begin

lemma get_fold:
  "get (fold (\<lambda>(k, v). set_value k v) kvs s) j =
     (case map_of (rev kvs) j of None \<Rightarrow> get s j | Some v \<Rightarrow> Some v)"
  by (induction kvs rule: rev_induct) (auto simp: get_set)

lemma get_fold_untouched:
  "j \<notin> fst ` set kvs \<Longrightarrow> get (fold (\<lambda>(k, v). set_value k v) kvs s) j = get s j"
  by (simp add: get_fold map_of_eq_None_iff split: option.splits)
     (metis map_of_eq_None_iff set_rev option.distinct(1))

lemma get_fold_distinct:
  "distinct (map fst kvs) \<Longrightarrow> (j, v) \<in> set kvs \<Longrightarrow>
     get (fold (\<lambda>(k, v). set_value k v) kvs s) j = Some v"
  by (simp add: get_fold rev_map [symmetric] del: rev_map)

end

lemmas store_defs =
  RegisterStore_new_def RegisterStore_get_def RegisterStore_set_def
  InputRegisterStore_new_def InputRegisterStore_get_def InputRegisterStore_set_def
  CoilStore_new_def CoilStore_get_def CoilStore_set_def
  DiscreteInputStore_new_def DiscreteInputStore_get_def DiscreteInputStore_set_def
  FileRecordStore_new_def FileRecordStore_get_def FileRecordStore_set_def
  WriteReport_new_def WriteReport_get_def WriteReport_set_def
  PendingTransaction_new_def PendingTransaction_get_def PendingTransaction_stage_def

interpretation register_store: keyed_store RegisterStore_new RegisterStore_get RegisterStore_set
  by unfold_locales (simp_all add: store_defs)

interpretation input_register_store:
  keyed_store InputRegisterStore_new InputRegisterStore_get InputRegisterStore_set
  by unfold_locales (simp_all add: store_defs)

interpretation coil_store: keyed_store CoilStore_new CoilStore_get CoilStore_set
  by unfold_locales (simp_all add: store_defs)

interpretation discrete_input_store:
  keyed_store DiscreteInputStore_new DiscreteInputStore_get DiscreteInputStore_set
  by unfold_locales (simp_all add: store_defs)

interpretation file_record_store: keyed_store FileRecordStore_new FileRecordStore_get FileRecordStore_set
  by unfold_locales (simp_all add: store_defs)

interpretation write_report: keyed_store WriteReport_new WriteReport_get WriteReport_set
  by unfold_locales (simp_all add: store_defs)

interpretation pending_transaction:
  keyed_store PendingTransaction_new PendingTransaction_get PendingTransaction_stage
  by unfold_locales (simp_all add: store_defs)

lemma build_machine_stores_eq:
  "build_machine_stores ms = (\<lambda>nm. if nm \<in> MachineDescription.name ` set ms then Some MachineStores_new else None)"
proof -
  have "foldl (\<lambda>stores machine. stores(MachineDescription.name machine \<mapsto> MachineStores_new)) m ms
      = (\<lambda>nm. if nm \<in> MachineDescription.name ` set ms then Some MachineStores_new else m nm)" for m
    by (induction ms arbitrary: m) (auto simp: fun_eq_iff)
  then show ?thesis by (simp add: build_machine_stores_def)
qed

section \<open>Text\<close>

definition plain :: "char \<Rightarrow> bool" where
  "plain c \<longleftrightarrow> \<not> is_continuation c \<and> \<not> is_whitespace [c]"

lemma is_whitespace_single:
  "is_whitespace [c] \<longleftrightarrow> (of_char c :: nat) \<in> {9, 10, 11, 12, 13, 32}"
proof -
  have "c = char_of n \<longleftrightarrow> of_char c = n" if "n < 256" for n :: nat
    using that by auto
  then show ?thesis
    by (auto simp: is_whitespace_def whitespace_chars_def)
qed

lemma plain_digit_char: "d < 16 \<Longrightarrow> plain (digit_char d)"
  by (auto simp: plain_def is_continuation_def is_whitespace_single digit_char_def)

lemma show_nat_digits: "c \<in> set (show_nat n) \<Longrightarrow> \<exists>d < 10. c = digit_char d"
proof (induction n rule: show_nat.induct)
  case (1 n)
  then show ?case
    by (subst (asm) (2) show_nat.simps) (auto split: if_splits intro: exI [of _ "n mod 10"])
qed

lemma plain_show_nat: "c \<in> set (show_nat n) \<Longrightarrow> plain c"
  using show_nat_digits [of c n] plain_digit_char by fastforce

lemma plain_show_int: "c \<in> set (show_int i) \<Longrightarrow> plain c"
  by (auto simp: show_int_def plain_show_nat split: if_splits)
     (simp add: plain_def is_continuation_def is_whitespace_single)

definition ascii_space :: "char \<Rightarrow> bool" where
  "ascii_space c \<longleftrightarrow> (of_char c :: nat) \<in> {9, 10, 11, 12, 13, 32}"

lemma trim_plain:
  assumes "\<forall>c \<in> set s. plain c" and "\<forall>c \<in> set before. ascii_space c" and "\<forall>c \<in> set after. ascii_space c"
  shows "trim (before @ s @ after) = s"
proof -
  have chars: "str_chars (before @ s @ after) = map (\<lambda>c. [c]) (before @ s @ after)"
    using assms by (intro str_chars_ascii) (auto simp: plain_def ascii_space_def is_continuation_def)
  have space: "dropWhile is_whitespace (map (\<lambda>c. [c]) w @ t) = dropWhile is_whitespace t"
    if "\<forall>c \<in> set w. ascii_space c" for w t
    using that by (auto simp: dropWhile_append is_whitespace_single ascii_space_def)
  have keep: "dropWhile is_whitespace (map (\<lambda>c. [c]) w @ t) = map (\<lambda>c. [c]) w @ t"
    if "\<forall>c \<in> set w. plain c" "w \<noteq> []" for w t
    using that by (cases w) (auto simp: plain_def)
  show ?thesis
  proof (cases "s = []")
    case True
    then have none: "dropWhile is_whitespace (str_chars (before @ s @ after)) = []"
      unfolding chars using assms by (auto simp: is_whitespace_single ascii_space_def)
    show ?thesis
      unfolding trim_def none using True by simp
  next
    case False
    then have "dropWhile is_whitespace (str_chars (before @ s @ after)) = map (\<lambda>c. [c]) s @ map (\<lambda>c. [c]) after"
      using space [of before] keep [of s] assms by (simp add: chars)
    moreover have "dropWhile is_whitespace (rev (map (\<lambda>c. [c]) s @ map (\<lambda>c. [c]) after)) = rev (map (\<lambda>c. [c]) s)"
      using space [of "rev after" "map (\<lambda>c. [c]) (rev s)"] keep [of "rev s" "[]"] assms False
      by (simp add: rev_map)
    ultimately show ?thesis
      by (simp add: trim_def)
  qed
qed

lemma strip_0x_plain_digits:
  assumes "\<forall>c \<in> set s. \<exists>d < 10. c = digit_char d"
  shows "parse_hex_or_decimal s f g = g s"
proof -
  have "digit_char d \<noteq> CHR ''x'' \<and> digit_char d \<noteq> CHR ''X''" if "d < 10" for d
  proof -
    have "of_char (digit_char d) \<noteq> (120 :: nat) \<and> of_char (digit_char d) \<noteq> (88 :: nat)"
      using that by (auto simp: digit_char_def)
    then show ?thesis by force
  qed
  with assms have "CHR ''x'' \<notin> set s" "CHR ''X'' \<notin> set s" by metis+
  then have "strip_prefix ''0x'' s = None" "strip_prefix ''0X'' s = None"
    by (auto simp: strip_prefix_None_iff)
  then show ?thesis by (simp add: parse_hex_or_decimal_def)
qed

lemma parse_unsigned_show:
  fixes w :: "'a :: len word"
  assumes "LENGTH('a) = bits"
  shows "parse_unsigned bits (show_nat (unat w)) = Some w"
proof -
  have "\<forall>c \<in> set (show_nat (unat w)). \<exists>d < 10. c = digit_char d"
    using show_nat_digits by blast
  moreover have "unat w < 2 ^ bits"
    using unsigned_less [of w, where ?'a = nat] assms by simp
  ultimately show ?thesis
    by (simp add: parse_unsigned_def parse_unsigned_show_nat strip_0x_plain_digits)
qed

lemma parse_signed_show:
  fixes w :: "'a :: len word"
  assumes "LENGTH('a) = bits"
  shows "parse_signed bits (show_int (sint w)) = Some (sint w)"
  using assms sint_range_size [of w] by (intro parse_signed_show_int) (auto simp: word_size)

text \<open>The values a register may hold: the 24-bit types are confined to their range.\<close>

fun value_in_range :: "RegisterValue \<Rightarrow> bool" where
  "value_in_range (RegU24 w) \<longleftrightarrow> w \<le> U24_MAX"
| "value_in_range (RegI24 w) \<longleftrightarrow> I24_MIN \<le> sint w \<and> sint w \<le> I24_MAX"
| "value_in_range _ \<longleftrightarrow> True"

section \<open>Properties\<close>

text \<open>
  An integer register value survives its text form: what \<open>Display\<close> prints for an
  in-range value, with any ASCII white space around it, parses back to the same value of
  the same type. The text of floating-point values is the standard library's conversion.
\<close>

theorem register_value_text_round_trip:
  assumes "value_in_range v" and "data_type_of v \<noteq> F32" and "data_type_of v \<noteq> F64"
    and "\<forall>c \<in> set before. ascii_space c" and "\<forall>c \<in> set after. ascii_space c"
  shows "parse_register_value parse_f32 parse_f64 (data_type_of v)
           (before @ RegisterValue_display show_f32 show_f64 v @ after) = Some v"
proof -
  have "\<forall>c \<in> set (RegisterValue_display show_f32 show_f64 v). plain c"
    using assms(2,3) plain_show_nat plain_show_int by (cases v) (auto simp: RegisterValue_display_def)
  then have "trim (before @ RegisterValue_display show_f32 show_f64 v @ after)
      = RegisterValue_display show_f32 show_f64 v"
    using assms(4,5) by (rule trim_plain)
  then show ?thesis
    using assms(1-3)
    by (cases v) (simp_all add: parse_register_value_def RegisterValue_display_def Let_def
        parse_unsigned_show parse_signed_show)
qed

theorem register_value_text_round_trip_witness:
  "parse_register_value (\<lambda>_. None) (\<lambda>_. None) I24
     ('' '' @ RegisterValue_display (\<lambda>_. []) (\<lambda>_. []) (RegI24 (- 5)) @ [CHR 0x0A]) = Some (RegI24 (- 5))"
  using register_value_text_round_trip [of "RegI24 (- 5)" "'' ''" "[CHR 0x0A]"]
  by (simp add: ascii_space_def)

text \<open>
  C21: Text never puts a register out of the range of its type: whatever \<open>parse_register_value\<close>
  accepts is a value of the requested type, and a 24-bit value lies within 24 bits.
\<close>

theorem parsed_register_value_in_range:
  assumes "parse_register_value parse_f32 parse_f64 dt txt = Some v"
  shows "data_type_of v = dt \<and> value_in_range v"
proof -
  have "sint (word_of_int i :: u32) = i" if "- 0x00800000 \<le> i" "i \<le> 0x007FFFFF" for i
    using that by (simp add: sint_sbintrunc' signed_take_bit_int_eq_self)
  then show ?thesis
    using assms
    by (cases dt) (auto simp: parse_register_value_def Let_def split: option.splits if_splits)
qed

theorem parsed_register_value_in_range_witness:
  "data_type_of (RegU24 0xFFFFFF) = U24 \<and> value_in_range (RegU24 0xFFFFFF)"
proof (rule parsed_register_value_in_range)
  have "trim '' 0xffFFff'' = ''0xffFFff''"
    using trim_plain [of "''0xffFFff''" "'' ''" "[]"]
    by (simp add: plain_def is_continuation_def is_whitespace_single ascii_space_def)
  moreover have "magnitude 16 ''ffFFff'' = Some 0xFFFFFF"
    by (simp add: magnitude_def to_digit_def)
  ultimately show "parse_register_value (\<lambda>_. None) (\<lambda>_. None) U24 '' 0xffFFff'' = Some (RegU24 0xFFFFFF)"
    by (simp add: parse_register_value_def parse_unsigned_def parse_hex_or_decimal_def strip_prefix_def
        from_str_radix_unsigned_def strip_plus_def)
qed

lemma length_concat_hex [simp]: "length (concat (map show_hex_byte bs)) = 2 * length bs"
  by (induction bs) (simp_all add: show_hex_byte_def)

lemma plain_show_hex_byte: "c \<in> set (show_hex_byte b) \<Longrightarrow> plain c"
proof -
  have "unat b div 16 < 16" using unat_u8_less [of b] by linarith
  then show "c \<in> set (show_hex_byte b) \<Longrightarrow> plain c"
    by (auto simp: show_hex_byte_def intro: plain_digit_char)
qed

lemma take_drop_concat_hex:
  "k < length bs \<Longrightarrow> take 2 (drop (2 * k) (concat (map show_hex_byte bs))) = show_hex_byte (bs ! k)"
proof (induction bs arbitrary: k)
  case (Cons b bs)
  then show ?case by (cases k) (simp_all add: show_hex_byte_def)
qed simp

lemma parse_hex_pairs_hex:
  assumes "k \<le> length bs"
  shows "parse_hex_pairs (concat (map show_hex_byte bs)) (map (\<lambda>i. 2 * i) [k..<length bs])
         = (Ok (Some (drop k bs)) :: (bytes option, 'e) result)"
  using assms
proof (induction "length bs - k" arbitrary: k)
  case (Suc n)
  then have k: "k < length bs" by simp
  let ?hex = "concat (map show_hex_byte bs)"
  have "is_char_boundary ?hex i" if "i \<le> length ?hex" for i
  proof (cases "i = length ?hex")
    case False
    with that have "?hex ! i \<in> set ?hex" by (intro nth_mem) simp
    then have "plain (?hex ! i)"
      using plain_show_hex_byte by (metis (no_types, lifting) UN_E set_concat set_map imageE)
    with that False show ?thesis by (simp add: is_char_boundary_def plain_def)
  qed (simp add: is_char_boundary_def)
  then have "str_slice ?hex (2 * k) (2 * k + 2) = (Ok (show_hex_byte (bs ! k)) :: (string, 'e) result)"
    using k take_drop_concat_hex [OF k] by (simp add: str_slice_def)
  moreover have "parse_hex_pairs ?hex (map (\<lambda>i. 2 * i) [Suc k..<length bs])
      = (Ok (Some (drop (Suc k) bs)) :: (bytes option, 'e) result)"
    using Suc.hyps(2) k by (intro Suc.hyps(1)) simp_all
  ultimately show ?case
    using k by (simp add: upt_conv_Cons parse_show_hex_byte Cons_nth_drop_Suc)
qed simp

text \<open>
  The hex dump of a file record survives its text form: what \<open>Display\<close> prints for a
  staged, nonempty record parses back to its bytes.
\<close>

theorem file_record_text_round_trip:
  assumes "bs \<noteq> []"
  shows "parse_file_record_value (StagedValue_display show_f32 show_f64 (StagedFileRecord file record bs))
         = (Ok (Some bs) :: (bytes option, 'e) result)"
proof -
  let ?text = "concat (map (\<lambda>b. show_hex_byte b @ '' '') bs)"
  have ascii: "str_chars ?text = map (\<lambda>c. [c]) ?text"
    by (rule str_chars_ascii)
       (auto simp: plain_def is_continuation_def dest!: plain_show_hex_byte)
  have "filter (\<lambda>c. \<not> is_whitespace [c]) (show_hex_byte b) = show_hex_byte b" for b
    using plain_show_hex_byte [of _ b] by (auto simp: plain_def intro!: filter_True)
  then have "concat (filter (\<lambda>c. \<not> is_whitespace c) (map (\<lambda>c. [c]) ?text)) = concat (map show_hex_byte bs)"
    by (induction bs) (auto simp: filter_map comp_def is_whitespace_single)
  moreover have "concat (map show_hex_byte bs) \<noteq> []"
    using assms by (cases bs) (simp_all add: show_hex_byte_def)
  ultimately show ?thesis
    using parse_hex_pairs_hex [of 0 bs]
    by (auto simp: parse_file_record_value_def StagedValue_display_def ascii Let_def)
qed

theorem file_record_text_round_trip_witness:
  "parse_file_record_value (StagedValue_display (\<lambda>_. []) (\<lambda>_. []) (StagedFileRecord 4 1 [0x0D, 0xFE]))
     = (Ok (Some [0x0D, 0xFE]) :: (bytes option, unit) result)"
  by (rule file_record_text_round_trip) simp

text \<open>
  Text with a character of several bytes can make the parser of file records slice inside
  it and panic: the letter \<open>a\<close>, a two-byte character and the digit \<open>1\<close>.
\<close>

theorem file_record_text_can_panic:
  "parse_file_record_value [CHR ''a'', CHR 0xC3, CHR 0xA9, CHR ''1''] = (Panic :: (bytes option, unit) result)"
  by code_simp

end
