(* ===== verification/Server_Options.thy ===== *)
theory Server_Options
  imports Wire_Types
begin

text \<open>
  Which function codes a server answers (\<open>server/src/server_options.rs\<close>). The TOML parser
  is external and an argument of \<open>ServerOptions_parse\<close>.
\<close>

record RawFunctionCodes =
  read_coils :: bool
  read_discrete_inputs :: bool
  read_holding_registers :: bool
  read_input_registers :: bool
  write_single_coil :: bool
  write_single_register :: bool
  write_multiple_coils :: bool
  write_multiple_registers :: bool
  report_server_id :: bool
  read_file_record :: bool
  write_file_record :: bool
  mask_write_register :: bool
  read_write_multiple_registers :: bool
  read_fifo_queue :: bool
  read_device_identification :: bool

record RawServerOptions =
  detect_machine_layout :: bool
  function_codes :: RawFunctionCodes

record ServerOptions =
  detect_machine_layout :: bool
  read_coils :: bool
  read_discrete_inputs :: bool
  read_holding_registers :: bool
  read_input_registers :: bool
  write_single_coil :: bool
  write_single_register :: bool
  write_multiple_coils :: bool
  write_multiple_registers :: bool
  report_server_id :: bool
  read_file_record :: bool
  write_file_record :: bool
  mask_write_register :: bool
  read_write_multiple_registers :: bool
  read_fifo_queue :: bool
  read_device_identification :: bool

definition ServerOptions_from :: "RawFunctionCodes \<Rightarrow> ServerOptions" where
  "ServerOptions_from raw =
     \<lparr>ServerOptions.detect_machine_layout = False,
      read_coils = RawFunctionCodes.read_coils raw,
      read_discrete_inputs = RawFunctionCodes.read_discrete_inputs raw,
      read_holding_registers = RawFunctionCodes.read_holding_registers raw,
      read_input_registers = RawFunctionCodes.read_input_registers raw,
      write_single_coil = RawFunctionCodes.write_single_coil raw,
      write_single_register = RawFunctionCodes.write_single_register raw,
      write_multiple_coils = RawFunctionCodes.write_multiple_coils raw,
      write_multiple_registers = RawFunctionCodes.write_multiple_registers raw,
      report_server_id = RawFunctionCodes.report_server_id raw,
      read_file_record = RawFunctionCodes.read_file_record raw,
      write_file_record = RawFunctionCodes.write_file_record raw,
      mask_write_register = RawFunctionCodes.mask_write_register raw,
      read_write_multiple_registers = RawFunctionCodes.read_write_multiple_registers raw,
      read_fifo_queue = RawFunctionCodes.read_fifo_queue raw,
      read_device_identification = RawFunctionCodes.read_device_identification raw\<rparr>"

definition ServerOptions_parse ::
    "(string \<Rightarrow> (RawServerOptions, 'toml) result) \<Rightarrow> string \<Rightarrow> (ServerOptions, 'toml) result" where
  "ServerOptions_parse from_toml toml_source =
     and_then (from_toml toml_source) (\<lambda>raw.
     Ok ((ServerOptions_from (RawServerOptions.function_codes raw))
           \<lparr>ServerOptions.detect_machine_layout := RawServerOptions.detect_machine_layout raw\<rparr>))"

definition is_enabled :: "ServerOptions \<Rightarrow> u8 \<Rightarrow> bool" where
  "is_enabled opts fc =
     (if fc = FUNCTION_CODE_READ_COILS then ServerOptions.read_coils opts
      else if fc = FUNCTION_CODE_READ_DISCRETE_INPUTS then ServerOptions.read_discrete_inputs opts
      else if fc = FUNCTION_CODE_READ_HOLDING_REGISTERS then ServerOptions.read_holding_registers opts
      else if fc = FUNCTION_CODE_READ_INPUT_REGISTERS then ServerOptions.read_input_registers opts
      else if fc = FUNCTION_CODE_WRITE_SINGLE_COIL then ServerOptions.write_single_coil opts
      else if fc = FUNCTION_CODE_WRITE_SINGLE_REGISTER then ServerOptions.write_single_register opts
      else if fc = FUNCTION_CODE_WRITE_MULTIPLE_COILS then ServerOptions.write_multiple_coils opts
      else if fc = FUNCTION_CODE_WRITE_MULTIPLE_REGISTERS then ServerOptions.write_multiple_registers opts
      else if fc = FUNCTION_CODE_REPORT_SERVER_ID then ServerOptions.report_server_id opts
      else if fc = FUNCTION_CODE_MASK_WRITE_REGISTER then ServerOptions.mask_write_register opts
      else if fc = FUNCTION_CODE_READ_WRITE_MULTIPLE_REGISTERS
           then ServerOptions.read_write_multiple_registers opts
      else if fc = FUNCTION_CODE_ENCAPSULATED_INTERFACE_TRANSPORT
           then ServerOptions.read_device_identification opts
      else if fc = FUNCTION_CODE_READ_FILE_RECORD then ServerOptions.read_file_record opts
      else if fc = FUNCTION_CODE_WRITE_FILE_RECORD then ServerOptions.write_file_record opts
      else False)"

definition any_enabled :: "ServerOptions \<Rightarrow> bool" where
  "any_enabled opts \<longleftrightarrow>
     ServerOptions.read_coils opts \<or> ServerOptions.read_discrete_inputs opts
     \<or> ServerOptions.read_holding_registers opts \<or> ServerOptions.read_input_registers opts
     \<or> ServerOptions.write_single_coil opts \<or> ServerOptions.write_single_register opts
     \<or> ServerOptions.write_multiple_coils opts \<or> ServerOptions.write_multiple_registers opts
     \<or> ServerOptions.report_server_id opts \<or> ServerOptions.read_file_record opts
     \<or> ServerOptions.write_file_record opts \<or> ServerOptions.mask_write_register opts
     \<or> ServerOptions.read_write_multiple_registers opts \<or> ServerOptions.read_fifo_queue opts
     \<or> ServerOptions.read_device_identification opts"

text \<open>A server none of whose options is set answers no function code.\<close>

lemma is_enabled_any_enabled: "is_enabled opts fc \<Longrightarrow> any_enabled opts"
  by (auto simp: is_enabled_def any_enabled_def split: if_splits)

text \<open>Options with everything enabled, to instantiate the claims at.\<close>

definition all_options :: ServerOptions where
  "all_options =
     \<lparr>ServerOptions.detect_machine_layout = True, read_coils = True, read_discrete_inputs = True,
      read_holding_registers = True, read_input_registers = True, write_single_coil = True,
      write_single_register = True, write_multiple_coils = True, write_multiple_registers = True,
      report_server_id = True, read_file_record = True, write_file_record = True,
      mask_write_register = True, read_write_multiple_registers = True, read_fifo_queue = True,
      read_device_identification = True\<rparr>"

end
