(* ===== verification/Device_Identification.thy ===== *)
theory Device_Identification
  imports Pdu_Codec
begin

text \<open>
  Read Device Identification on the server (\<open>server/src/device_identification.rs\<close>): the
  description text cut into private objects, and the paged answer to a request.
\<close>

definition PRESENCE_OBJECT_ID :: u8 where [simp]: "PRESENCE_OBJECT_ID = 0x80"
definition FIRST_TOML_CHUNK_OBJECT_ID :: u8 where [simp]: "FIRST_TOML_CHUNK_OBJECT_ID = 0x81"
definition EXTENDED_STREAM_CONFORMITY_LEVEL :: u8 where [simp]: "EXTENDED_STREAM_CONFORMITY_LEVEL = 0x03"
definition MAX_PDU_LEN :: nat where [simp]: "MAX_PDU_LEN = 253"
definition MAX_TOML_CHUNK_LEN :: nat where [simp]: "MAX_TOML_CHUNK_LEN = 244"

record TooLargeForFc43 =
  chunks_needed :: nat
  chunks_available :: nat

text \<open>\<open>slice::chunks\<close>.\<close>

function chunks :: "nat \<Rightarrow> 'a list \<Rightarrow> 'a list list" where
  "chunks n xs = (if xs = [] \<or> n = 0 then [] else take n xs # chunks n (drop n xs))"
  by pat_completeness auto
termination by (relation "measure (\<lambda>(n, xs). length xs)") (auto intro: diff_less simp: length_greater_0_conv)

declare chunks.simps [simp del]

text \<open>The \<open>for\<close> loop over the enumerated chunks.\<close>

fun push_chunks ::
    "nat \<Rightarrow> nat \<Rightarrow> bytes list \<Rightarrow> DeviceIdentificationObject list
     \<Rightarrow> (DeviceIdentificationObject list, TooLargeForFc43) result" where
  "push_chunks source_len k [] objs = Ok objs"
| "push_chunks source_len k (chunk # rest) objs =
     (let id_number = unat FIRST_TOML_CHUNK_OBJECT_ID + k in
      if 0xFF < id_number
      then Err \<lparr>chunks_needed = div_ceil source_len MAX_TOML_CHUNK_LEN,
                chunks_available = 0xFF - unat FIRST_TOML_CHUNK_OBJECT_ID + 1\<rparr>
      else push_chunks source_len (Suc k) rest
             (objs @ [\<lparr>id_byte = of_nat id_number, object_value = chunk\<rparr>]))"

definition build_objects :: "bytes \<Rightarrow> (DeviceIdentificationObject list, TooLargeForFc43) result" where
  "build_objects toml_source =
     push_chunks (length toml_source) 0 (chunks MAX_TOML_CHUNK_LEN toml_source)
       [\<lparr>id_byte = PRESENCE_OBJECT_ID, object_value = [0x01]\<rparr>]"

text \<open>\<open>iter().position(..)\<close>.\<close>

fun position :: "('a \<Rightarrow> bool) \<Rightarrow> 'a list \<Rightarrow> nat option" where
  "position P [] = None"
| "position P (x # xs) = (if P x then Some 0 else map_option Suc (position P xs))"

definition extended_response ::
    "bool \<Rightarrow> u8 \<Rightarrow> DeviceIdentificationObject list \<Rightarrow> ReadDeviceIdentificationResponse" where
  "extended_response mf nid objs =
     \<lparr>ReadDeviceIdentificationResponse.read_device_id_code = READ_DEVICE_ID_EXTENDED,
      conformity_level = EXTENDED_STREAM_CONFORMITY_LEVEL, more_follows = mf,
      next_object_id = nid, objects = objs\<rparr>"

text \<open>The \<open>while\<close> loop that fills one response.\<close>

function fill_response ::
    "DeviceIdentificationObject list \<Rightarrow> nat \<Rightarrow> DeviceIdentificationObject list
     \<Rightarrow> nat \<times> DeviceIdentificationObject list" where
  "fill_response all_objects next_index objs =
     (if next_index < length all_objects
      then let objs' = objs @ [all_objects ! next_index];
               next_id = (if next_index + 1 < length all_objects
                          then id_byte (all_objects ! (next_index + 1)) else 0)
           in if MAX_PDU_LEN
                 < length (ReadDeviceIdentificationResponse_encode (extended_response True next_id objs'))
              then (next_index, objs)
              else fill_response all_objects (next_index + 1) objs'
      else (next_index, objs))"
  by pat_completeness auto
termination by (relation "measure (\<lambda>(os, i, _). length os - i)") auto

declare fill_response.simps [simp del]

definition handle_read_device_identification ::
    "ReadDeviceIdentificationRequest \<Rightarrow> DeviceIdentificationObject list \<Rightarrow> bytes" where
  "handle_read_device_identification request all_objects =
     (if ReadDeviceIdentificationRequest.read_device_id_code request \<noteq> READ_DEVICE_ID_EXTENDED
      then ExceptionResponse_encode
             \<lparr>ExceptionResponse.function_code = FUNCTION_CODE_ENCAPSULATED_INTERFACE_TRANSPORT,
              exception_code = EXCEPTION_ILLEGAL_FUNCTION\<rparr>
      else case position (\<lambda>obj. id_byte obj = ReadDeviceIdentificationRequest.object_id request) all_objects of
        None \<Rightarrow>
          ExceptionResponse_encode
            \<lparr>ExceptionResponse.function_code = FUNCTION_CODE_ENCAPSULATED_INTERFACE_TRANSPORT,
             exception_code = EXCEPTION_ILLEGAL_DATA_ADDRESS\<rparr>
      | Some start_index \<Rightarrow>
          let (next_index, objs) = fill_response all_objects start_index [];
              mf = next_index < length all_objects;
              next_id = (if mf then id_byte (all_objects ! next_index) else 0)
          in ReadDeviceIdentificationResponse_encode (extended_response mf next_id objs))"

section \<open>Chunks and pages\<close>

lemma chunks_simps [simp]:
  "chunks n [] = []"
  "xs \<noteq> [] \<Longrightarrow> 0 < n \<Longrightarrow> chunks n xs = take n xs # chunks n (drop n xs)"
  by (subst chunks.simps, simp)+

lemma concat_chunks: "0 < n \<Longrightarrow> concat (chunks n xs) = xs"
proof (induction n xs rule: chunks.induct)
  case (1 n xs)
  then show ?case by (cases "xs = []") simp_all
qed

lemma length_chunks: "0 < n \<Longrightarrow> length (chunks n xs) = div_ceil (length xs) n"
proof (induction n xs rule: chunks.induct)
  case (1 n xs)
  show ?case
  proof (cases "xs = []")
    case False
    with "1.prems" have "length (chunks n (drop n xs)) = div_ceil (length xs - n) n"
      using "1.IH" by simp
    with False "1.prems" show ?thesis
    proof (cases "length xs \<le> n")
      case True
      with False "1.prems" show ?thesis
        by (auto simp: div_ceil_def simp flip: length_greater_0_conv intro!: div_nat_eqI [symmetric])
    next
      case longer: False
      then have "div_ceil (length xs) n = Suc (div_ceil (length xs - n) n)"
        using "1.prems" le_div_geq [of n "length xs + n - 1"] by (simp add: div_ceil_def)
      with False "1.prems" \<open>length (chunks n (drop n xs)) = div_ceil (length xs - n) n\<close>
      show ?thesis by (subst chunks_simps) simp_all
    qed
  qed (use "1.prems" in \<open>simp add: div_ceil_def\<close>)
qed

lemma chunks_bounds: "c \<in> set (chunks n xs) \<Longrightarrow> 0 < n \<Longrightarrow> 0 < length c \<and> length c \<le> n"
proof (induction n xs rule: chunks.induct)
  case (1 n xs)
  then show ?case by (cases "xs = []") (auto simp flip: length_greater_0_conv)
qed

definition chunk_objects :: "nat \<Rightarrow> bytes list \<Rightarrow> DeviceIdentificationObject list" where
  "chunk_objects k cs =
     map (\<lambda>(i, c). \<lparr>id_byte = of_nat (0x81 + i), object_value = c\<rparr>) (enumerate k cs)"

lemma push_chunks_eq:
  "push_chunks len k cs objs =
     (if k + length cs \<le> 127 \<or> cs = [] then Ok (objs @ chunk_objects k cs)
      else Err \<lparr>chunks_needed = div_ceil len 244, chunks_available = 127\<rparr>)"
  by (induction cs arbitrary: k objs) (auto simp: chunk_objects_def)

lemma build_objects_eq:
  "build_objects src =
     (if length src \<le> 127 * 244
      then Ok (\<lparr>id_byte = 0x80, object_value = [1]\<rparr> # chunk_objects 0 (chunks 244 src))
      else Err \<lparr>chunks_needed = div_ceil (length src) 244, chunks_available = 127\<rparr>)"
proof -
  have "div_ceil (length src) 244 \<le> 127 \<longleftrightarrow> length src \<le> 127 * 244"
    by (auto simp: div_ceil_def)
  moreover have "chunks 244 src = [] \<longleftrightarrow> src = []"
    by (cases "src = []") simp_all
  ultimately show ?thesis
    by (auto simp: build_objects_def push_chunks_eq length_chunks chunk_objects_def)
qed

lemma map_object_value_chunk_objects [simp]: "map object_value (chunk_objects i cs) = cs"
  by (simp add: chunk_objects_def comp_def split_def)

definition objects_size :: "DeviceIdentificationObject list \<Rightarrow> nat" where
  "objects_size objs = sum_list (map (\<lambda>obj. 2 + length (object_value obj)) objs)"

lemma objects_size_simps [simp]:
  "objects_size [] = 0"
  "objects_size (obj # objs) = 2 + length (object_value obj) + objects_size objs"
  "objects_size (objs @ objs') = objects_size objs + objects_size objs'"
  by (simp_all add: objects_size_def)

lemma length_extended_response:
  "length (ReadDeviceIdentificationResponse_encode (extended_response mf nid objs)) = 7 + objects_size objs"
proof -
  have "length (concat (map encode_object objs)) = objects_size objs"
    by (induction objs) (simp_all add: encode_object_def)
  then show ?thesis
    by (simp add: ReadDeviceIdentificationResponse_encode_def extended_response_def)
qed

lemma fill_response_spec:
  assumes "fill_response all_objs i objs = (j, objs')" and "objects_size objs \<le> 246"
  shows "i \<le> j \<and> objs' = objs @ take (j - i) (drop i all_objs) \<and> objects_size objs' \<le> 246
         \<and> (j < length all_objs \<longrightarrow> 246 < objects_size objs' + 2 + length (object_value (all_objs ! j)))
         \<and> (i < length all_objs \<longrightarrow> j \<le> length all_objs)"
  using assms
proof (induction all_objs i objs arbitrary: j objs' rule: fill_response.induct)
  case (1 all_objs i objs)
  show ?case
  proof (cases "i < length all_objs \<and> objects_size (objs @ [all_objs ! i]) \<le> 246")
    case True
    then have rec: "fill_response all_objs (i + 1) (objs @ [all_objs ! i]) = (j, objs')"
      using "1.prems" by (subst (asm) fill_response.simps) (simp add: length_extended_response Let_def)
    have IH: "i + 1 \<le> j \<and> objs' = (objs @ [all_objs ! i]) @ take (j - (i + 1)) (drop (i + 1) all_objs)
        \<and> objects_size objs' \<le> 246
        \<and> (j < length all_objs \<longrightarrow> 246 < objects_size objs' + 2 + length (object_value (all_objs ! j)))
        \<and> (i + 1 < length all_objs \<longrightarrow> j \<le> length all_objs)"
      using True by (intro "1.IH" [OF _ refl refl _ rec]) (simp_all add: length_extended_response)
    have "take (j - i) (drop i all_objs) = all_objs ! i # take (j - (i + 1)) (drop (i + 1) all_objs)"
      using True IH by (simp add: take_Cons' flip: Cons_nth_drop_Suc) 
    moreover have "j \<le> length all_objs"
    proof (cases "i + 1 < length all_objs")
      case False
      with True have "i + 1 = length all_objs" by simp
      with rec show ?thesis by (subst (asm) fill_response.simps) simp
    qed (use IH in simp)
    ultimately show ?thesis using IH by auto
  next
    case False
    with "1.prems" show ?thesis
      by (subst (asm) fill_response.simps) (auto simp: length_extended_response Let_def split: if_splits)
  qed
qed

text \<open>Some object always fits, so every page makes progress.\<close>

lemma fill_response_page:
  assumes "i < length all_objs" and "\<forall>obj \<in> set all_objs. length (object_value obj) \<le> 244"
    and "fill_response all_objs i [] = (j, objs)"
  shows "i < j \<and> j \<le> length all_objs \<and> objs = take (j - i) (drop i all_objs) \<and> objects_size objs \<le> 246"
proof -
  note spec = fill_response_spec [OF assms(3), simplified]
  have "i \<noteq> j"
  proof
    assume "i = j"
    with spec assms(1) have "objs = []" "246 < objects_size objs + 2 + length (object_value (all_objs ! i))"
      by auto
    then have "246 < 2 + length (object_value (all_objs ! i))" by simp
    moreover have "length (object_value (all_objs ! i)) \<le> 244"
      using assms(1,2) by (simp add: nth_mem)
    ultimately show False by simp
  qed
  with spec assms(1) show ?thesis by auto
qed

lemma position_distinct:
  assumes "distinct (map f xs)" and "i < length xs"
  shows "position (\<lambda>x. f x = f (xs ! i)) xs = Some i"
  using assms by (induction xs arbitrary: i) (auto simp: nth_Cons split: nat.splits)

lemma length_take_objects_bound:
  "objects_size objs \<le> 246 \<Longrightarrow> length objs < 256"
proof -
  have "2 * length objs \<le> objects_size objs"
    by (induction objs) simp_all
  then show "objects_size objs \<le> 246 \<Longrightarrow> length objs < 256" by simp
qed

text \<open>One page of an answer, in the terms of the claim below.\<close>

lemma identification_page:
  assumes "i < length objs" and "distinct (map id_byte objs)"
    and "\<forall>obj \<in> set objs. length (object_value obj) \<le> 244"
  shows "\<exists>j r. i < j \<and> j \<le> length objs
     \<and> length (handle_read_device_identification
           \<lparr>ReadDeviceIdentificationRequest.read_device_id_code = READ_DEVICE_ID_EXTENDED, object_id = id_byte (objs ! i)\<rparr> objs) \<le> 253
     \<and> ReadDeviceIdentificationResponse_decode (handle_read_device_identification
           \<lparr>ReadDeviceIdentificationRequest.read_device_id_code = READ_DEVICE_ID_EXTENDED, object_id = id_byte (objs ! i)\<rparr> objs) = Ok r
     \<and> ReadDeviceIdentificationResponse.objects r = take (j - i) (drop i objs)
     \<and> ReadDeviceIdentificationResponse.more_follows r = (j < length objs)
     \<and> (j < length objs \<longrightarrow> ReadDeviceIdentificationResponse.next_object_id r = id_byte (objs ! j))"
proof -
  obtain j page where page: "fill_response objs i [] = (j, page)" by fastforce
  note spec = fill_response_page [OF assms(1,3) page]
  let ?next = "if j < length objs then id_byte (objs ! j) else 0"
  let ?r = "extended_response (j < length objs) ?next page"
  have answer: "handle_read_device_identification
      \<lparr>ReadDeviceIdentificationRequest.read_device_id_code = READ_DEVICE_ID_EXTENDED, object_id = id_byte (objs ! i)\<rparr> objs
      = ReadDeviceIdentificationResponse_encode ?r"
    using position_distinct [OF assms(2,1)] page
    by (simp add: handle_read_device_identification_def)
  have "set page \<subseteq> set objs"
    using spec by (metis order_trans set_drop_subset set_take_subset)
  then have "\<forall>obj \<in> set page. length (object_value obj) < 256"
    using assms(3) by fastforce
  moreover have "length page < 256"
    using spec length_take_objects_bound by blast
  ultimately have "ReadDeviceIdentificationResponse_decode (ReadDeviceIdentificationResponse_encode ?r @ []) = Ok ?r"
    by (intro ReadDeviceIdentificationResponse_decode_encode) (simp_all add: extended_response_def)
  moreover have "length (ReadDeviceIdentificationResponse_encode ?r) \<le> 253"
    unfolding length_extended_response using spec by linarith
  ultimately show ?thesis
    unfolding answer using spec
    by (intro exI [of _ j] exI [of _ ?r]) (simp add: extended_response_def)
qed

section \<open>Properties\<close>

text \<open>
  The description is cut into objects without loss. A description of at most 30988
  bytes becomes the presence flag followed by one object per chunk, under increasing ids
  from 0x81, whose values put together are the description; a longer one is refused with
  the number of chunks it would need.
\<close>

theorem build_objects_lossless:
  "if length src \<le> 30988
   then \<exists>objs. build_objects src = Ok (\<lparr>id_byte = 0x80, object_value = [1]\<rparr> # objs)
          \<and> concat (map object_value objs) = src
          \<and> map id_byte objs = map (\<lambda>i. of_nat (0x81 + i)) [0..<length objs]
          \<and> length objs \<le> 127
          \<and> list_all (\<lambda>obj. 0 < length (object_value obj) \<and> length (object_value obj) \<le> 244) objs
   else build_objects src = Err \<lparr>chunks_needed = div_ceil (length src) 244, chunks_available = 127\<rparr>"
proof (cases "length src \<le> 30988")
  case True
  let ?objs = "chunk_objects 0 (chunks 244 src)"
  have "list_all (\<lambda>obj. 0 < length (object_value obj) \<and> length (object_value obj) \<le> 244) ?objs"
  proof -
    have "\<forall>c \<in> set (map object_value ?objs). 0 < length c \<and> length c \<le> 244"
      using chunks_bounds [of _ 244 src] unfolding map_object_value_chunk_objects by simp
    then show ?thesis by (simp add: list_all_iff del: map_object_value_chunk_objects)
  qed
  moreover have "length ?objs \<le> 127"
    using True by (simp add: chunk_objects_def length_chunks div_ceil_def)
  moreover have "map id_byte ?objs = map (\<lambda>i. of_nat (0x81 + i)) [0..<length ?objs]"
    by (rule nth_equalityI) (simp_all add: chunk_objects_def nth_enumerate_eq split_def)
  moreover have "build_objects src = Ok (\<lparr>id_byte = 0x80, object_value = [1]\<rparr> # ?objs)"
    using True by (simp add: build_objects_eq)
  ultimately show ?thesis
    using True concat_chunks [of 244 src] by auto
qed (simp add: build_objects_eq)

text \<open>
  One page of a Read Device Identification answer. For a request that names object \<open>i\<close>
  of a list with distinct ids whose values have at most 244 bytes, the response fits a PDU,
  decodes to a nonempty run of the objects from \<open>i\<close> on, and says that more follow, and from
  which id, exactly when the list goes on; so a client that asks again from there gets every
  object once and the requests come to an end.
\<close>

theorem device_identification_page:
  assumes "i < length objs" and "distinct (map id_byte objs)"
    and "\<forall>obj \<in> set objs. length (object_value obj) \<le> 244"
  shows "\<exists>j r. i < j \<and> j \<le> length objs
     \<and> length (handle_read_device_identification
           \<lparr>ReadDeviceIdentificationRequest.read_device_id_code = READ_DEVICE_ID_EXTENDED, object_id = id_byte (objs ! i)\<rparr> objs) \<le> 253
     \<and> ReadDeviceIdentificationResponse_decode (handle_read_device_identification
           \<lparr>ReadDeviceIdentificationRequest.read_device_id_code = READ_DEVICE_ID_EXTENDED, object_id = id_byte (objs ! i)\<rparr> objs) = Ok r
     \<and> ReadDeviceIdentificationResponse.objects r = take (j - i) (drop i objs)
     \<and> ReadDeviceIdentificationResponse.more_follows r = (j < length objs)
     \<and> (j < length objs \<longrightarrow> ReadDeviceIdentificationResponse.next_object_id r = id_byte (objs ! j))"
  using identification_page [OF assms] .

theorem device_identification_page_witness:
  "\<exists>j r. 0 < j \<and> j \<le> 2
     \<and> ReadDeviceIdentificationResponse_decode (handle_read_device_identification
           \<lparr>ReadDeviceIdentificationRequest.read_device_id_code = READ_DEVICE_ID_EXTENDED, object_id = 0x80\<rparr>
           [\<lparr>id_byte = 0x80, object_value = [1]\<rparr>, \<lparr>id_byte = 0x81, object_value = [7, 8]\<rparr>]) = Ok r
     \<and> ReadDeviceIdentificationResponse.objects r
         = take j [\<lparr>id_byte = 0x80, object_value = [1]\<rparr>, \<lparr>id_byte = 0x81, object_value = [7, 8]\<rparr>]"
  using device_identification_page
    [of 0 "[\<lparr>id_byte = 0x80, object_value = [1]\<rparr>, \<lparr>id_byte = 0x81, object_value = [7, 8]\<rparr>]"]
  by (auto simp: numeral_2_eq_2)

end
