(* ===== verification/Handler.thy ===== *)
theory Handler
  imports Data_Stores Server_Options Device_Identification
begin

text \<open>
  The server's request handlers (\<open>server/src/handler.rs\<close>) and the bulk-transfer state they
  serve (\<open>server/src/fc43_bulk_transfer.rs\<close>). A handler takes the request PDU, the static
  descriptions and the store it locks, and returns the response PDU; one that writes also
  returns the store. The locks of the source recover from poisoning, so taking one never
  fails; a handler holds its lock across every read and write it makes, so it is one step
  on the store.
\<close>

section \<open>State\<close>

definition HANDLER_MAX_PDU_LEN :: nat where [simp]: "HANDLER_MAX_PDU_LEN = 253"

definition exception :: "u8 \<Rightarrow> u8 \<Rightarrow> bytes" where
  "exception fc code =
     ExceptionResponse_encode \<lparr>ExceptionResponse.function_code = fc, exception_code = code\<rparr>"

record ServerMachineState =
  registers :: "RegisterDescription list"
  store :: RegisterStore
  coils :: "CoilDescription list"
  coil_store :: CoilStore
  discrete_inputs :: "DiscreteInputDescription list"
  discrete_input_store :: DiscreteInputStore
  input_registers :: "InputRegisterDescription list"
  input_register_store :: InputRegisterStore
  file_records :: "FileRecordDescription list"
  file_record_store :: FileRecordStore
  mem_layout :: MemLayout
  input_register_mem_layout :: MemLayout
  server_id :: "string option"

record ManifestMachine =
  name :: string
  unit_id :: u8

record DeviceDescriptionManifest =
  file_number :: u16
  compressed_length :: u32
  machines :: "ManifestMachine list"

record Fc43BulkTransfer =
  compressed_toml :: bytes
  manifest_toml :: string

text \<open>Compression and TOML rendering are external; they are the first two arguments.\<close>

definition Fc43BulkTransfer_build ::
    "(string \<Rightarrow> bytes) \<Rightarrow> (DeviceDescriptionManifest \<Rightarrow> string) \<Rightarrow> string \<Rightarrow> ManifestMachine list
     \<Rightarrow> Fc43BulkTransfer" where
  "Fc43BulkTransfer_build compress to_toml_string toml_source ms =
     (let compressed = compress toml_source;
          manifest = \<lparr>DeviceDescriptionManifest.file_number = RESERVED_DEVICE_DESCRIPTION_FILE_NUMBER,
                      compressed_length = of_nat (length compressed), machines = ms\<rparr>
      in \<lparr>compressed_toml = compressed, manifest_toml = to_toml_string manifest\<rparr>)"

text \<open>\<open>expect\<close> on an optional value.\<close>

fun expect_some :: "('a option, 'e) result \<Rightarrow> ('a, 'e) result" where
  "expect_some (Ok (Some x)) = Ok x"
| "expect_some (Ok None) = Panic"
| "expect_some (Err e) = Err e"
| "expect_some Panic = Panic"

section \<open>Device description\<close>

definition handle_encapsulated_interface_transport ::
    "bytes \<Rightarrow> string \<Rightarrow> bool \<Rightarrow> Fc43BulkTransfer \<Rightarrow> (bytes, 'e) result" where
  "handle_encapsulated_interface_transport pdu toml_source detect bulk =
     (case ReadDeviceIdentificationRequest_decode pdu of
        Panic \<Rightarrow> Panic
      | Err _ \<Rightarrow> Ok (exception FUNCTION_CODE_ENCAPSULATED_INTERFACE_TRANSPORT EXCEPTION_ILLEGAL_FUNCTION)
      | Ok request \<Rightarrow>
         (case build_objects (as_bytes toml_source) of
            Panic \<Rightarrow> Panic
          | Ok objs \<Rightarrow> Ok (handle_read_device_identification request objs)
          | Err _ \<Rightarrow>
              if detect
              then (case build_objects (as_bytes (manifest_toml bulk)) of
                      Panic \<Rightarrow> Panic
                    | Ok objs \<Rightarrow> Ok (handle_read_device_identification request objs)
                    | Err _ \<Rightarrow>
                        Ok (exception FUNCTION_CODE_ENCAPSULATED_INTERFACE_TRANSPORT
                              EXCEPTION_SERVER_DEVICE_FAILURE))
              else Ok (exception FUNCTION_CODE_ENCAPSULATED_INTERFACE_TRANSPORT
                         EXCEPTION_SERVER_DEVICE_FAILURE)))"

text \<open>The loop over the sub-requests: the records, or the exception code it returns with.\<close>

fun bulk_records ::
    "bytes \<Rightarrow> FileRecordSubRequest list \<Rightarrow> (bytes list, u8) result" where
  "bulk_records compressed [] = Ok []"
| "bulk_records compressed (sr # srs) =
     (case bulk_transfer_chunk_range (length compressed) (FileRecordSubRequest.record_number sr) of
        None \<Rightarrow> Err EXCEPTION_ILLEGAL_DATA_ADDRESS
      | Some (a, b) \<Rightarrow>
          and_then (slice compressed a b) (\<lambda>chunk.
          if FileRecordSubRequest.record_length sr \<noteq> of_nat (div_ceil (length chunk) 2)
          then Err EXCEPTION_ILLEGAL_DATA_VALUE
          else let data = (if odd (length chunk) then chunk @ [0] else chunk) in
          and_then (bulk_records compressed srs) (\<lambda>rest. Ok (data # rest))))"

definition handle_read_device_description_bulk_transfer ::
    "ReadFileRecordRequest \<Rightarrow> bytes \<Rightarrow> (bytes, 'e) result" where
  "handle_read_device_description_bulk_transfer request compressed =
     (case bulk_records compressed (ReadFileRecordRequest.sub_requests request) of
        Panic \<Rightarrow> Panic
      | Err code \<Rightarrow> Ok (exception FUNCTION_CODE_READ_FILE_RECORD code)
      | Ok rs \<Rightarrow>
          let encoded = ReadFileRecordResponse_encode \<lparr>ReadFileRecordResponse.records = rs\<rparr>
          in if HANDLER_MAX_PDU_LEN < length encoded
             then Ok (exception FUNCTION_CODE_READ_FILE_RECORD EXCEPTION_ILLEGAL_DATA_VALUE)
             else Ok encoded)"

section \<open>File records\<close>

definition find_file_record ::
    "FileRecordDescription list \<Rightarrow> u16 \<Rightarrow> u16 \<Rightarrow> FileRecordDescription option" where
  "find_file_record descriptions f r =
     List.find (\<lambda>d. FileRecordDescription.file_number d = f \<and> FileRecordDescription.record_number d = r)
       descriptions"

fun resolve_file_reads ::
    "FileRecordDescription list \<Rightarrow> FileRecordSubRequest list \<Rightarrow> (FileRecordDescription list, u8) result" where
  "resolve_file_reads descriptions [] = Ok []"
| "resolve_file_reads descriptions (sr # srs) =
     (case find_file_record descriptions (FileRecordSubRequest.file_number sr)
             (FileRecordSubRequest.record_number sr) of
        None \<Rightarrow> Err EXCEPTION_ILLEGAL_DATA_ADDRESS
      | Some d \<Rightarrow>
          if FileRecordDescription.record_length d \<noteq> FileRecordSubRequest.record_length sr
          then Err EXCEPTION_ILLEGAL_DATA_VALUE
          else and_then (resolve_file_reads descriptions srs) (\<lambda>rest. Ok (d # rest)))"

definition stored_record :: "FileRecordStore \<Rightarrow> FileRecordDescription \<Rightarrow> bytes" where
  "stored_record st d =
     (case FileRecordStore_get st (FileRecordDescription.file_number d, FileRecordDescription.record_number d) of
        Some bs \<Rightarrow> bs
      | None \<Rightarrow> replicate (unat (FileRecordDescription.record_length d) * 2) 0)"

definition handle_read_file_record ::
    "bytes \<Rightarrow> FileRecordDescription list \<Rightarrow> FileRecordStore \<Rightarrow> (bytes, 'e) result" where
  "handle_read_file_record pdu descriptions st =
     (case ReadFileRecordRequest_decode pdu of
        Panic \<Rightarrow> Panic
      | Err _ \<Rightarrow> Ok (exception FUNCTION_CODE_READ_FILE_RECORD EXCEPTION_ILLEGAL_DATA_VALUE)
      | Ok request \<Rightarrow>
         (case resolve_file_reads descriptions (ReadFileRecordRequest.sub_requests request) of
            Panic \<Rightarrow> Panic
          | Err code \<Rightarrow> Ok (exception FUNCTION_CODE_READ_FILE_RECORD code)
          | Ok resolved \<Rightarrow>
              let encoded = ReadFileRecordResponse_encode
                    \<lparr>ReadFileRecordResponse.records = map (stored_record st) resolved\<rparr>
              in if HANDLER_MAX_PDU_LEN < length encoded
                 then Ok (exception FUNCTION_CODE_READ_FILE_RECORD EXCEPTION_ILLEGAL_DATA_VALUE)
                 else Ok encoded))"

fun check_file_writes ::
    "FileRecordDescription list \<Rightarrow> WriteFileRecordSubRequest list \<Rightarrow> (unit, u8) result" where
  "check_file_writes descriptions [] = Ok ()"
| "check_file_writes descriptions (sr # srs) =
     (case find_file_record descriptions (WriteFileRecordSubRequest.file_number sr)
             (WriteFileRecordSubRequest.record_number sr) of
        None \<Rightarrow> Err EXCEPTION_ILLEGAL_DATA_ADDRESS
      | Some d \<Rightarrow>
          if length (WriteFileRecordSubRequest.record_data sr)
             \<noteq> unat (FileRecordDescription.record_length d) * 2
          then Err EXCEPTION_ILLEGAL_DATA_VALUE
          else check_file_writes descriptions srs)"

definition apply_file_writes :: "WriteFileRecordSubRequest list \<Rightarrow> FileRecordStore \<Rightarrow> FileRecordStore" where
  "apply_file_writes srs st =
     fold (\<lambda>(k, v). FileRecordStore_set k v)
       (map (\<lambda>sr. ((WriteFileRecordSubRequest.file_number sr, WriteFileRecordSubRequest.record_number sr),
                  WriteFileRecordSubRequest.record_data sr)) srs) st"

definition handle_write_file_record ::
    "bytes \<Rightarrow> FileRecordDescription list \<Rightarrow> FileRecordStore \<Rightarrow> (bytes, 'e) result \<times> FileRecordStore" where
  "handle_write_file_record pdu descriptions st =
     (case WriteFileRecordRequest_decode pdu of
        Panic \<Rightarrow> (Panic, st)
      | Err _ \<Rightarrow> (Ok (exception FUNCTION_CODE_WRITE_FILE_RECORD EXCEPTION_ILLEGAL_DATA_VALUE), st)
      | Ok request \<Rightarrow>
         (case check_file_writes descriptions (WriteFileRecordRequest.sub_requests request) of
            Panic \<Rightarrow> (Panic, st)
          | Err code \<Rightarrow> (Ok (exception FUNCTION_CODE_WRITE_FILE_RECORD code), st)
          | Ok _ \<Rightarrow>
              (expect (WriteFileRecordResponse_encode
                 \<lparr>WriteFileRecordResponse.sub_requests = WriteFileRecordRequest.sub_requests request\<rparr>),
               apply_file_writes (WriteFileRecordRequest.sub_requests request) st)))"

section \<open>Registers\<close>

text \<open>The value a register is read as: what is stored, if it has the declared type.\<close>

definition current_value ::
    "(string \<Rightarrow> RegisterValue option) \<Rightarrow> string \<Rightarrow> DataType \<Rightarrow> RegisterValue" where
  "current_value get nm dt =
     (case get nm of
        Some v \<Rightarrow> if data_type_of v = dt then v else default_register_value dt
      | None \<Rightarrow> default_register_value dt)"

text \<open>
  The \<open>while address != end_address\<close> loop of the two register reads, which differ in the
  type of the descriptions only; \<open>None\<close> is the address exception.
\<close>

lemma register_count_positive [simp]: "0 < unat (register_count dt)"
  by (cases dt) simp_all

lemma register_count_le [simp]: "unat (register_count dt) \<le> 4"
  by (cases dt) simp_all

lemma data_type_of_current_value [simp]: "data_type_of (current_value get nm dt) = dt"
  by (auto simp: current_value_def split: option.splits)

lemma walk_progress:
  "\<not> q < n + unat (register_count dt) \<Longrightarrow> q - (n + unat (register_count dt)) < q - n"
  using register_count_positive [of dt] by linarith

function read_words ::
    "('r \<Rightarrow> u16) \<Rightarrow> ('r \<Rightarrow> string) \<Rightarrow> ('r \<Rightarrow> DataType) \<Rightarrow> 'r list \<Rightarrow> (string \<Rightarrow> RegisterValue option)
     \<Rightarrow> MemLayout \<Rightarrow> nat \<Rightarrow> u16 \<Rightarrow> u16 \<Rightarrow> u16 list \<Rightarrow> u16 list option" where
  "read_words address_of name_of type_of rs get layout q a end_address acc =
     (if a = end_address then Some acc
      else case List.find (\<lambda>r. address_of r = a) rs of
        None \<Rightarrow> None
      | Some r \<Rightarrow>
          let words = register_value_to_words (current_value get (name_of r) (type_of r)) layout in
          if q < length acc + length words then None
          else read_words address_of name_of type_of rs get layout q
                 (a + register_count (type_of r)) end_address (acc @ words))"
  by pat_completeness auto
termination
  by (relation "measure (\<lambda>(_, _, _, _, _, _, q, _, _, acc). q - length acc)")
     (auto intro: walk_progress)

declare read_words.simps [simp del]

definition handle_read ::
    "bytes \<Rightarrow> RegisterDescription list \<Rightarrow> RegisterStore \<Rightarrow> MemLayout \<Rightarrow> (bytes, 'e) result" where
  "handle_read pdu rs st layout =
     (case ReadHoldingRegistersRequest_decode pdu of
        Panic \<Rightarrow> Panic
      | Err _ \<Rightarrow> Ok (exception FUNCTION_CODE_READ_HOLDING_REGISTERS EXCEPTION_ILLEGAL_DATA_VALUE)
      | Ok request \<Rightarrow>
         (case read_words RegisterDescription.address RegisterDescription.name RegisterDescription.data_type
                 rs (RegisterStore_get st) layout
                 (unat (ReadHoldingRegistersRequest.quantity request))
                 (ReadHoldingRegistersRequest.starting_address request)
                 (ReadHoldingRegistersRequest.starting_address request
                    + ReadHoldingRegistersRequest.quantity request) [] of
            None \<Rightarrow> Ok (exception FUNCTION_CODE_READ_HOLDING_REGISTERS EXCEPTION_ILLEGAL_DATA_ADDRESS)
          | Some ws \<Rightarrow>
              Ok (ReadHoldingRegistersResponse_encode
                    \<lparr>ReadHoldingRegistersResponse.register_values = ws\<rparr>)))"

definition find_single_word_read_write_register ::
    "RegisterDescription list \<Rightarrow> u16 \<Rightarrow> RegisterDescription option" where
  "find_single_word_read_write_register rs a =
     List.find (\<lambda>r. RegisterDescription.address r = a
       \<and> register_count (RegisterDescription.data_type r) = 1
       \<and> RegisterDescription.access r = ReadWrite) rs"

definition handle_write_single ::
    "bytes \<Rightarrow> RegisterDescription list \<Rightarrow> MemLayout \<Rightarrow> RegisterStore
     \<Rightarrow> (bytes, 'e) result \<times> RegisterStore" where
  "handle_write_single pdu rs layout st =
     (case WriteSingleRegisterRequest_decode pdu of
        Panic \<Rightarrow> (Panic, st)
      | Err _ \<Rightarrow> (Ok (exception FUNCTION_CODE_WRITE_SINGLE_REGISTER EXCEPTION_ILLEGAL_DATA_VALUE), st)
      | Ok request \<Rightarrow>
         (case find_single_word_read_write_register rs
                 (WriteSingleRegisterRequest.register_address request) of
            Some r \<Rightarrow>
              (case expect_some (register_value_from_words (RegisterDescription.data_type r)
                      [WriteSingleRegisterRequest.register_value request] layout) of
                 Ok v \<Rightarrow>
                   (Ok (WriteSingleRegisterResponse_encode
                      \<lparr>WriteSingleRegisterResponse.register_address =
                         WriteSingleRegisterRequest.register_address request,
                       register_value = WriteSingleRegisterRequest.register_value request\<rparr>),
                    RegisterStore_set (RegisterDescription.name r) v st)
               | Err e \<Rightarrow> (Err e, st)
               | Panic \<Rightarrow> (Panic, st))
          | None \<Rightarrow>
              (Ok (exception FUNCTION_CODE_WRITE_SINGLE_REGISTER EXCEPTION_ILLEGAL_DATA_ADDRESS), st)))"

definition handle_mask_write_register ::
    "bytes \<Rightarrow> RegisterDescription list \<Rightarrow> MemLayout \<Rightarrow> RegisterStore
     \<Rightarrow> (bytes, 'e) result \<times> RegisterStore" where
  "handle_mask_write_register pdu rs layout st =
     (case MaskWriteRegisterRequest_decode pdu of
        Panic \<Rightarrow> (Panic, st)
      | Err _ \<Rightarrow> (Ok (exception FUNCTION_CODE_MASK_WRITE_REGISTER EXCEPTION_ILLEGAL_DATA_VALUE), st)
      | Ok request \<Rightarrow>
         (case find_single_word_read_write_register rs
                 (MaskWriteRegisterRequest.reference_address request) of
            Some r \<Rightarrow>
              (let v = current_value (RegisterStore_get st) (RegisterDescription.name r)
                         (RegisterDescription.data_type r) in
               case and_then (index (register_value_to_words v layout) 0) (\<lambda>current_word.
                    let new_word = (current_word AND MaskWriteRegisterRequest.and_mask request)
                          OR (MaskWriteRegisterRequest.or_mask request
                              AND NOT (MaskWriteRegisterRequest.and_mask request))
                    in expect_some (register_value_from_words (RegisterDescription.data_type r)
                         [new_word] layout)) of
                 Ok new_value \<Rightarrow>
                   (Ok (MaskWriteRegisterResponse_encode
                      \<lparr>MaskWriteRegisterResponse.reference_address =
                         MaskWriteRegisterRequest.reference_address request,
                       and_mask = MaskWriteRegisterRequest.and_mask request,
                       or_mask = MaskWriteRegisterRequest.or_mask request\<rparr>),
                    RegisterStore_set (RegisterDescription.name r) new_value st)
               | Err e \<Rightarrow> (Err e, st)
               | Panic \<Rightarrow> (Panic, st))
          | None \<Rightarrow>
              (Ok (exception FUNCTION_CODE_MASK_WRITE_REGISTER EXCEPTION_ILLEGAL_DATA_ADDRESS), st)))"

definition handle_report_server_id :: "bytes \<Rightarrow> string option \<Rightarrow> (bytes, 'e) result" where
  "handle_report_server_id pdu sid =
     (case ReportServerIdRequest_decode pdu of
        Panic \<Rightarrow> Panic
      | Err _ \<Rightarrow> Ok (exception FUNCTION_CODE_REPORT_SERVER_ID EXCEPTION_ILLEGAL_FUNCTION)
      | Ok _ \<Rightarrow>
         (case sid of
            Some text \<Rightarrow>
              Ok (ReportServerIdResponse_encode
                    \<lparr>ReportServerIdResponse.server_id = as_bytes text, run_indicator_status = True\<rparr>)
          | None \<Rightarrow> Ok (exception FUNCTION_CODE_REPORT_SERVER_ID EXCEPTION_ILLEGAL_FUNCTION)))"

text \<open>The loop of \<open>resolve_register_writes\<close>; \<open>Err ()\<close> is its error.\<close>

function resolve_writes ::
    "RegisterDescription list \<Rightarrow> u16 list \<Rightarrow> MemLayout \<Rightarrow> u16 \<Rightarrow> u16 \<Rightarrow> nat
     \<Rightarrow> (RegisterDescription \<times> RegisterValue) list
     \<Rightarrow> ((RegisterDescription \<times> RegisterValue) list, unit) result" where
  "resolve_writes rs vals layout a end_address off resolved =
     (if a = end_address then Ok resolved
      else case List.find (\<lambda>r. RegisterDescription.address r = a
             \<and> RegisterDescription.access r = ReadWrite) rs of
        None \<Rightarrow> Err ()
      | Some r \<Rightarrow>
          let count = unat (register_count (RegisterDescription.data_type r)) in
          if length vals < off + count then Err ()
          else and_then (slice vals off (off + count)) (\<lambda>words.
               and_then (expect_some (register_value_from_words (RegisterDescription.data_type r)
                   words layout)) (\<lambda>v.
               resolve_writes rs vals layout
                 (a + register_count (RegisterDescription.data_type r)) end_address
                 (off + count) (resolved @ [(r, v)]))))"
  by pat_completeness auto
termination
  by (relation "measure (\<lambda>(_, vals, _, _, _, off, _). length vals - off)")
     (auto intro: walk_progress)

declare resolve_writes.simps [simp del]

definition resolve_register_writes ::
    "RegisterDescription list \<Rightarrow> u16 \<Rightarrow> u16 list \<Rightarrow> MemLayout
     \<Rightarrow> ((RegisterDescription \<times> RegisterValue) list, unit) result" where
  "resolve_register_writes rs start vals layout =
     resolve_writes rs vals layout start (start + of_nat (length vals)) 0 []"

definition apply_register_writes ::
    "(RegisterDescription \<times> RegisterValue) list \<Rightarrow> RegisterStore \<Rightarrow> RegisterStore" where
  "apply_register_writes resolved st =
     fold (\<lambda>(k, v). RegisterStore_set k v) (map (\<lambda>(r, v). (RegisterDescription.name r, v)) resolved) st"

definition handle_write_multiple_registers ::
    "bytes \<Rightarrow> RegisterDescription list \<Rightarrow> MemLayout \<Rightarrow> RegisterStore
     \<Rightarrow> (bytes, 'e) result \<times> RegisterStore" where
  "handle_write_multiple_registers pdu rs layout st =
     (case WriteMultipleRegistersRequest_decode pdu of
        Panic \<Rightarrow> (Panic, st)
      | Err _ \<Rightarrow> (Ok (exception FUNCTION_CODE_WRITE_MULTIPLE_REGISTERS EXCEPTION_ILLEGAL_DATA_VALUE), st)
      | Ok request \<Rightarrow>
         (case resolve_register_writes rs (WriteMultipleRegistersRequest.starting_address request)
                 (WriteMultipleRegistersRequest.register_values request) layout of
            Panic \<Rightarrow> (Panic, st)
          | Err _ \<Rightarrow>
              (Ok (exception FUNCTION_CODE_WRITE_MULTIPLE_REGISTERS EXCEPTION_ILLEGAL_DATA_ADDRESS), st)
          | Ok resolved \<Rightarrow>
              (Ok (WriteMultipleRegistersResponse_encode
                 \<lparr>WriteMultipleRegistersResponse.starting_address =
                    WriteMultipleRegistersRequest.starting_address request,
                  quantity = of_nat (length (WriteMultipleRegistersRequest.register_values request))\<rparr>),
               apply_register_writes resolved st)))"

text \<open>The loop that resolves the read half of Read/Write Multiple Registers.\<close>

function resolve_reads ::
    "RegisterDescription list \<Rightarrow> nat \<Rightarrow> u16 \<Rightarrow> u16 \<Rightarrow> nat \<Rightarrow> RegisterDescription list
     \<Rightarrow> RegisterDescription list option" where
  "resolve_reads rs q a end_address word_count acc =
     (if a = end_address then Some acc
      else case List.find (\<lambda>r. RegisterDescription.address r = a) rs of
        None \<Rightarrow> None
      | Some r \<Rightarrow>
          let word_count' = word_count + unat (register_count (RegisterDescription.data_type r)) in
          if q < word_count' then None
          else resolve_reads rs q (a + register_count (RegisterDescription.data_type r)) end_address
                 word_count' (acc @ [r]))"
  by pat_completeness auto
termination
  by (relation "measure (\<lambda>(_, q, _, _, n, _). q - n)") (auto intro: walk_progress)

declare resolve_reads.simps [simp del]

definition handle_read_write_multiple_registers ::
    "bytes \<Rightarrow> RegisterDescription list \<Rightarrow> MemLayout \<Rightarrow> RegisterStore
     \<Rightarrow> (bytes, 'e) result \<times> RegisterStore" where
  "handle_read_write_multiple_registers pdu rs layout st =
     (case ReadWriteMultipleRegistersRequest_decode pdu of
        Panic \<Rightarrow> (Panic, st)
      | Err _ \<Rightarrow>
          (Ok (exception FUNCTION_CODE_READ_WRITE_MULTIPLE_REGISTERS EXCEPTION_ILLEGAL_DATA_VALUE), st)
      | Ok request \<Rightarrow>
         (case resolve_register_writes rs
                 (ReadWriteMultipleRegistersRequest.write_starting_address request)
                 (ReadWriteMultipleRegistersRequest.write_values request) layout of
            Panic \<Rightarrow> (Panic, st)
          | Err _ \<Rightarrow>
              (Ok (exception FUNCTION_CODE_READ_WRITE_MULTIPLE_REGISTERS EXCEPTION_ILLEGAL_DATA_ADDRESS), st)
          | Ok resolved_writes \<Rightarrow>
             (case resolve_reads rs
                     (unat (ReadWriteMultipleRegistersRequest.read_quantity request))
                     (ReadWriteMultipleRegistersRequest.read_starting_address request)
                     (ReadWriteMultipleRegistersRequest.read_starting_address request
                        + ReadWriteMultipleRegistersRequest.read_quantity request) 0 [] of
                None \<Rightarrow>
                  (Ok (exception FUNCTION_CODE_READ_WRITE_MULTIPLE_REGISTERS
                         EXCEPTION_ILLEGAL_DATA_ADDRESS), st)
              | Some read_registers \<Rightarrow>
                  (let st' = apply_register_writes resolved_writes st;
                       ws = concat (map (\<lambda>r. register_value_to_words
                              (current_value (RegisterStore_get st') (RegisterDescription.name r)
                                 (RegisterDescription.data_type r)) layout) read_registers)
                   in (Ok (ReadWriteMultipleRegistersResponse_encode
                         \<lparr>ReadWriteMultipleRegistersResponse.register_values = ws\<rparr>), st')))))"

definition handle_read_input_registers ::
    "bytes \<Rightarrow> InputRegisterDescription list \<Rightarrow> InputRegisterStore \<Rightarrow> MemLayout \<Rightarrow> (bytes, 'e) result" where
  "handle_read_input_registers pdu rs st layout =
     (case ReadInputRegistersRequest_decode pdu of
        Panic \<Rightarrow> Panic
      | Err _ \<Rightarrow> Ok (exception FUNCTION_CODE_READ_INPUT_REGISTERS EXCEPTION_ILLEGAL_DATA_VALUE)
      | Ok request \<Rightarrow>
         (case read_words InputRegisterDescription.address InputRegisterDescription.name
                 InputRegisterDescription.data_type rs (InputRegisterStore_get st) layout
                 (unat (ReadInputRegistersRequest.quantity request))
                 (ReadInputRegistersRequest.starting_address request)
                 (ReadInputRegistersRequest.starting_address request
                    + ReadInputRegistersRequest.quantity request) [] of
            None \<Rightarrow> Ok (exception FUNCTION_CODE_READ_INPUT_REGISTERS EXCEPTION_ILLEGAL_DATA_ADDRESS)
          | Some ws \<Rightarrow>
              Ok (ReadInputRegistersResponse_encode \<lparr>ReadInputRegistersResponse.register_values = ws\<rparr>)))"

section \<open>Bits\<close>

text \<open>The \<open>for offset in 0..quantity\<close> loop of the two bit reads.\<close>

fun read_bits ::
    "('r \<Rightarrow> u16) \<Rightarrow> ('r \<Rightarrow> string) \<Rightarrow> 'r list \<Rightarrow> (string \<Rightarrow> CoilValue option) \<Rightarrow> u16 \<Rightarrow> nat list
     \<Rightarrow> bool list option" where
  "read_bits address_of name_of bs get start [] = Some []"
| "read_bits address_of name_of bs get start (off # offs) =
     (case List.find (\<lambda>b. address_of b = start + of_nat off) bs of
        None \<Rightarrow> None
      | Some b \<Rightarrow>
          (let v = (case get (name_of b) of Some (CoilValue x) \<Rightarrow> x | None \<Rightarrow> False)
           in map_option ((#) v) (read_bits address_of name_of bs get start offs)))"

definition handle_read_coils ::
    "bytes \<Rightarrow> CoilDescription list \<Rightarrow> CoilStore \<Rightarrow> (bytes, 'e) result" where
  "handle_read_coils pdu cs st =
     (case ReadCoilsRequest_decode pdu of
        Panic \<Rightarrow> Panic
      | Err _ \<Rightarrow> Ok (exception FUNCTION_CODE_READ_COILS EXCEPTION_ILLEGAL_DATA_VALUE)
      | Ok request \<Rightarrow>
         (case read_bits CoilDescription.address CoilDescription.name cs (CoilStore_get st)
                 (ReadCoilsRequest.starting_address request)
                 [0..<unat (ReadCoilsRequest.quantity request)] of
            None \<Rightarrow> Ok (exception FUNCTION_CODE_READ_COILS EXCEPTION_ILLEGAL_DATA_ADDRESS)
          | Some vs \<Rightarrow> ReadCoilsResponse_encode \<lparr>ReadCoilsResponse.coil_values = vs\<rparr>))"

definition handle_read_discrete_inputs ::
    "bytes \<Rightarrow> DiscreteInputDescription list \<Rightarrow> DiscreteInputStore \<Rightarrow> (bytes, 'e) result" where
  "handle_read_discrete_inputs pdu ds st =
     (case ReadDiscreteInputsRequest_decode pdu of
        Panic \<Rightarrow> Panic
      | Err _ \<Rightarrow> Ok (exception FUNCTION_CODE_READ_DISCRETE_INPUTS EXCEPTION_ILLEGAL_DATA_VALUE)
      | Ok request \<Rightarrow>
         (case read_bits DiscreteInputDescription.address DiscreteInputDescription.name ds
                 (DiscreteInputStore_get st)
                 (ReadDiscreteInputsRequest.starting_address request)
                 [0..<unat (ReadDiscreteInputsRequest.quantity request)] of
            None \<Rightarrow> Ok (exception FUNCTION_CODE_READ_DISCRETE_INPUTS EXCEPTION_ILLEGAL_DATA_ADDRESS)
          | Some vs \<Rightarrow>
              ReadDiscreteInputsResponse_encode
                \<lparr>ReadDiscreteInputsResponse.discrete_input_values = vs\<rparr>))"

definition handle_write_single_coil ::
    "bytes \<Rightarrow> CoilDescription list \<Rightarrow> CoilStore \<Rightarrow> (bytes, 'e) result \<times> CoilStore" where
  "handle_write_single_coil pdu cs st =
     (case WriteSingleCoilRequest_decode pdu of
        Panic \<Rightarrow> (Panic, st)
      | Err _ \<Rightarrow> (Ok (exception FUNCTION_CODE_WRITE_SINGLE_COIL EXCEPTION_ILLEGAL_DATA_VALUE), st)
      | Ok request \<Rightarrow>
         (case List.find (\<lambda>c. CoilDescription.address c = WriteSingleCoilRequest.coil_address request) cs of
            Some c \<Rightarrow>
              (Ok (WriteSingleCoilResponse_encode
                 \<lparr>WriteSingleCoilResponse.coil_address = WriteSingleCoilRequest.coil_address request,
                  coil_value = WriteSingleCoilRequest.coil_value request\<rparr>),
               CoilStore_set (CoilDescription.name c)
                 (CoilValue (WriteSingleCoilRequest.coil_value request)) st)
          | None \<Rightarrow>
              (Ok (exception FUNCTION_CODE_WRITE_SINGLE_COIL EXCEPTION_ILLEGAL_DATA_ADDRESS), st)))"

text \<open>The loop that resolves the coils of Write Multiple Coils.\<close>

fun resolve_coil_writes ::
    "CoilDescription list \<Rightarrow> u16 \<Rightarrow> (nat \<times> bool) list \<Rightarrow> (CoilDescription \<times> bool) list option" where
  "resolve_coil_writes cs start [] = Some []"
| "resolve_coil_writes cs start ((off, v) # rest) =
     (case List.find (\<lambda>c. CoilDescription.address c = start + of_nat off) cs of
        None \<Rightarrow> None
      | Some c \<Rightarrow> map_option ((#) (c, v)) (resolve_coil_writes cs start rest))"

definition apply_coil_writes :: "(CoilDescription \<times> bool) list \<Rightarrow> CoilStore \<Rightarrow> CoilStore" where
  "apply_coil_writes resolved st =
     fold (\<lambda>(k, v). CoilStore_set k v)
       (map (\<lambda>(c, v). (CoilDescription.name c, CoilValue v)) resolved) st"

definition handle_write_multiple_coils ::
    "bytes \<Rightarrow> CoilDescription list \<Rightarrow> CoilStore \<Rightarrow> (bytes, 'e) result \<times> CoilStore" where
  "handle_write_multiple_coils pdu cs st =
     (case WriteMultipleCoilsRequest_decode pdu of
        Panic \<Rightarrow> (Panic, st)
      | Err _ \<Rightarrow> (Ok (exception FUNCTION_CODE_WRITE_MULTIPLE_COILS EXCEPTION_ILLEGAL_DATA_VALUE), st)
      | Ok request \<Rightarrow>
         (case resolve_coil_writes cs (WriteMultipleCoilsRequest.starting_address request)
                 (enumerate 0 (WriteMultipleCoilsRequest.coil_values request)) of
            None \<Rightarrow>
              (Ok (exception FUNCTION_CODE_WRITE_MULTIPLE_COILS EXCEPTION_ILLEGAL_DATA_ADDRESS), st)
          | Some resolved \<Rightarrow>
              (Ok (WriteMultipleCoilsResponse_encode
                 \<lparr>WriteMultipleCoilsResponse.starting_address =
                    WriteMultipleCoilsRequest.starting_address request,
                  quantity = of_nat (length (WriteMultipleCoilsRequest.coil_values request))\<rparr>),
               apply_coil_writes resolved st)))"

section \<open>Dispatch\<close>

text \<open>
  The condition under which a Read File Record request is answered from the compressed
  description: the decoded request, when every sub-request names the reserved file.
\<close>

definition bulk_transfer_request ::
    "u8 \<Rightarrow> ServerOptions \<Rightarrow> bytes \<Rightarrow> (ReadFileRecordRequest option, 'e) result" where
  "bulk_transfer_request fc opts pdu =
     (if fc = FUNCTION_CODE_READ_FILE_RECORD \<and> ServerOptions.detect_machine_layout opts
      then (case ReadFileRecordRequest_decode pdu of
              Panic \<Rightarrow> Panic
            | Err _ \<Rightarrow> Ok None
            | Ok request \<Rightarrow>
                Ok (if ReadFileRecordRequest.sub_requests request \<noteq> []
                      \<and> (\<forall>sr \<in> set (ReadFileRecordRequest.sub_requests request).
                           FileRecordSubRequest.file_number sr = RESERVED_DEVICE_DESCRIPTION_FILE_NUMBER)
                    then Some request else None))
      else Ok None)"

text \<open>The \<open>match function_code\<close> on the machine the request is addressed to.\<close>

definition handle_machine_request ::
    "u8 \<Rightarrow> bytes \<Rightarrow> ServerMachineState \<Rightarrow> (bytes, 'e) result \<times> ServerMachineState" where
  "handle_machine_request fc pdu m =
     (let on_store = (\<lambda>h. let (r, s) = h (ServerMachineState.store m) in (r, m\<lparr>store := s\<rparr>));
          on_coils = (\<lambda>h. let (r, s) = h (coil_store m) in (r, m\<lparr>coil_store := s\<rparr>))
      in
      if fc = FUNCTION_CODE_READ_HOLDING_REGISTERS then
        (handle_read pdu (ServerMachineState.registers m) (store m) (ServerMachineState.mem_layout m), m)
      else if fc = FUNCTION_CODE_WRITE_SINGLE_REGISTER then
        on_store (handle_write_single pdu (ServerMachineState.registers m) (ServerMachineState.mem_layout m))
      else if fc = FUNCTION_CODE_WRITE_MULTIPLE_REGISTERS then
        on_store (handle_write_multiple_registers pdu (ServerMachineState.registers m)
          (ServerMachineState.mem_layout m))
      else if fc = FUNCTION_CODE_MASK_WRITE_REGISTER then
        on_store (handle_mask_write_register pdu (ServerMachineState.registers m)
          (ServerMachineState.mem_layout m))
      else if fc = FUNCTION_CODE_READ_WRITE_MULTIPLE_REGISTERS then
        on_store (handle_read_write_multiple_registers pdu (ServerMachineState.registers m)
          (ServerMachineState.mem_layout m))
      else if fc = FUNCTION_CODE_REPORT_SERVER_ID then
        (handle_report_server_id pdu (ServerMachineState.server_id m), m)
      else if fc = FUNCTION_CODE_READ_COILS then
        (handle_read_coils pdu (ServerMachineState.coils m) (coil_store m), m)
      else if fc = FUNCTION_CODE_WRITE_SINGLE_COIL then
        on_coils (handle_write_single_coil pdu (ServerMachineState.coils m))
      else if fc = FUNCTION_CODE_WRITE_MULTIPLE_COILS then
        on_coils (handle_write_multiple_coils pdu (ServerMachineState.coils m))
      else if fc = FUNCTION_CODE_READ_DISCRETE_INPUTS then
        (handle_read_discrete_inputs pdu (ServerMachineState.discrete_inputs m) (discrete_input_store m), m)
      else if fc = FUNCTION_CODE_READ_INPUT_REGISTERS then
        (handle_read_input_registers pdu (ServerMachineState.input_registers m) (input_register_store m)
          (ServerMachineState.input_register_mem_layout m), m)
      else if fc = FUNCTION_CODE_READ_FILE_RECORD then
        (handle_read_file_record pdu (ServerMachineState.file_records m) (file_record_store m), m)
      else if fc = FUNCTION_CODE_WRITE_FILE_RECORD then
        (let (r, s) = handle_write_file_record pdu (ServerMachineState.file_records m) (file_record_store m)
         in (r, m\<lparr>file_record_store := s\<rparr>))
      else (Ok (exception fc EXCEPTION_ILLEGAL_FUNCTION), m))"

type_synonym machines = "u8 \<rightharpoonup> ServerMachineState"

definition handle_request ::
    "ServerOptions \<Rightarrow> string \<Rightarrow> Fc43BulkTransfer \<Rightarrow> u8 \<Rightarrow> bytes \<Rightarrow> machines
     \<Rightarrow> (bytes option, 'e) result \<times> machines" where
  "handle_request opts toml_source bulk uid pdu ms =
     (case pdu of
        [] \<Rightarrow> (Ok (Some (exception 0 EXCEPTION_ILLEGAL_FUNCTION)), ms)
      | fc # _ \<Rightarrow>
          if \<not> is_enabled opts fc then (Ok (Some (exception fc EXCEPTION_ILLEGAL_FUNCTION)), ms)
          else if fc = FUNCTION_CODE_ENCAPSULATED_INTERFACE_TRANSPORT then
            (map_ok Some (handle_encapsulated_interface_transport pdu toml_source
               (ServerOptions.detect_machine_layout opts) bulk), ms)
          else (case bulk_transfer_request fc opts pdu of
             Panic \<Rightarrow> (Panic, ms)
           | Err e \<Rightarrow> (Err e, ms)
           | Ok (Some request) \<Rightarrow>
               (map_ok Some (handle_read_device_description_bulk_transfer request (compressed_toml bulk)), ms)
           | Ok None \<Rightarrow>
              (case ms uid of
                 None \<Rightarrow> (Ok None, ms)
               | Some m \<Rightarrow>
                   (let (r, m') = handle_machine_request fc pdu m
                    in (map_ok Some r, ms(uid \<mapsto> m'))))))"

end
