(* ===== verification/Handler_Registers.thy ===== *)
theory Handler_Registers
  imports Handler
begin

text \<open>
  What the server's handlers do. The register handlers walk the address range of a request
  register by register; \<open>register_run\<close> says which registers such a walk visits, and the
  loops of the handlers are shown to succeed exactly when a run fills the requested range.
  From this follow what a read returns, that a write is all or nothing, and that what was
  written is read back.
\<close>

section \<open>Runs of registers\<close>

fun register_run ::
    "('r \<Rightarrow> u16) \<Rightarrow> ('r \<Rightarrow> DataType) \<Rightarrow> ('r \<Rightarrow> bool) \<Rightarrow> 'r list \<Rightarrow> u16 \<Rightarrow> 'r list \<Rightarrow> bool" where
  "register_run address_of type_of P rs a [] \<longleftrightarrow> True"
| "register_run address_of type_of P rs a (r # run) \<longleftrightarrow>
     List.find (\<lambda>x. address_of x = a \<and> P x) rs = Some r
     \<and> register_run address_of type_of P rs (a + register_count (type_of r)) run"

definition run_width :: "('r \<Rightarrow> DataType) \<Rightarrow> 'r list \<Rightarrow> nat" where
  "run_width type_of run = sum_list (map (\<lambda>r. unat (register_count (type_of r))) run)"

lemma run_width_simps [simp]:
  "run_width t [] = 0"
  "run_width t (r # run) = unat (register_count (t r)) + run_width t run"
  by (simp_all add: run_width_def)

lemma run_width_eq_0 [simp]: "run_width t run = 0 \<longleftrightarrow> run = []"
  using register_count_positive by (cases run) (auto simp: neq0_conv [symmetric] simp del: neq0_conv)

text \<open>A walk has arrived exactly when it has covered the requested number of words.\<close>

lemma of_nat_u16_eq_0: "k < 65536 \<Longrightarrow> (of_nat k :: u16) = 0 \<longleftrightarrow> k = 0"
  using unat_of_nat_u16 [of k] by (auto simp del: unat_of_nat_u16)

lemma walk_arrived:
  assumes "n \<le> q" and "q < 65536" and "end_address = (a :: u16) + of_nat (q - n)"
  shows "a = end_address \<longleftrightarrow> n = q"
proof -
  have "a = end_address \<longleftrightarrow> (of_nat (q - n) :: u16) = 0"
    by (simp add: assms(3))
  also have "\<dots> \<longleftrightarrow> q - n = 0"
    using assms(2) by (intro of_nat_u16_eq_0) simp
  finally show ?thesis using assms(1) by auto
qed

lemma walk_step:
  assumes "n + unat c \<le> q" and "end_address = a + of_nat (q - n)"
  shows "end_address = (a + c) + of_nat (q - (n + unat (c :: u16)))"
proof -
  have "q - n = unat c + (q - (n + unat c))" using assms(1) by simp
  then have "(of_nat (q - n) :: u16) = of_nat (unat c + (q - (n + unat c)))" by simp
  also have "\<dots> = c + of_nat (q - (n + unat c))" by (simp only: of_nat_add) simp
  finally have "(of_nat (q - n) :: u16) = c + of_nat (q - (n + unat c))" .
  then show ?thesis by (simp add: assms(2) add.assoc)
qed

lemma read_words_iff:
  assumes "length acc \<le> q" and "q < 65536" and "end_address = a + of_nat (q - length acc)"
  shows "read_words address_of name_of type_of rs get layout q a end_address acc = Some ws \<longleftrightarrow>
     (\<exists>run. register_run address_of type_of (\<lambda>_. True) rs a run \<and> length acc + run_width type_of run = q
        \<and> ws = acc @ concat (map (\<lambda>r. register_value_to_words
              (current_value get (name_of r) (type_of r)) layout) run))"
  using assms
proof (induction address_of name_of type_of rs get layout q a end_address acc arbitrary: ws rule: read_words.induct)
  case (1 address_of name_of type_of rs get layout q a end_address acc)
  show ?case
  proof (cases "a = end_address")
    case True
    then have "length acc = q" using walk_arrived "1.prems" by metis
    with True show ?thesis
      by (subst read_words.simps) (auto intro: exI [of _ "[]"])
  next
    case False
    then have short: "length acc < q" using walk_arrived "1.prems" by (metis le_neq_implies_less)
    show ?thesis
    proof (cases "List.find (\<lambda>r. address_of r = a) rs")
      case None
      have "register_run address_of type_of (\<lambda>_. True) rs a run \<longleftrightarrow> run = []" for run
        using None by (cases run) auto
      with False None short show ?thesis
        by (subst read_words.simps) auto
    next
      case (Some r)
      let ?words = "register_value_to_words (current_value get (name_of r) (type_of r)) layout"
      have runs: "register_run address_of type_of (\<lambda>_. True) rs a run \<longleftrightarrow>
          run = [] \<or> (\<exists>run'. run = r # run' \<and>
            register_run address_of type_of (\<lambda>_. True) rs (a + register_count (type_of r)) run')" for run
        using Some by (cases run) auto
      show ?thesis
      proof (cases "q < length acc + length ?words")
        case True
        with False Some short runs show ?thesis
          by (subst read_words.simps) auto
      next
        case le: False
        have "read_words address_of name_of type_of rs get layout q (a + register_count (type_of r))
            end_address (acc @ ?words) = Some ws \<longleftrightarrow>
          (\<exists>run. register_run address_of type_of (\<lambda>_. True) rs (a + register_count (type_of r)) run
             \<and> length (acc @ ?words) + run_width type_of run = q
             \<and> ws = (acc @ ?words) @ concat (map (\<lambda>r. register_value_to_words
                   (current_value get (name_of r) (type_of r)) layout) run))"
          using False Some le "1.prems" walk_step
          by (intro "1.IH" [OF False Some refl]) simp_all
        with False Some le short show ?thesis
          by (subst read_words.simps) (auto simp: runs)
      qed
    qed
  qed
qed

lemma resolve_reads_iff:
  assumes "n \<le> q" and "q < 65536" and "end_address = a + of_nat (q - n)"
  shows "resolve_reads rs q a end_address n acc = Some res \<longleftrightarrow>
     (\<exists>run. register_run RegisterDescription.address RegisterDescription.data_type (\<lambda>_. True) rs a run
        \<and> n + run_width RegisterDescription.data_type run = q \<and> res = acc @ run)"
  using assms
proof (induction rs q a end_address n acc arbitrary: res rule: resolve_reads.induct)
  case (1 rs q a end_address n acc)
  let ?run = "register_run RegisterDescription.address RegisterDescription.data_type (\<lambda>_. True) rs"
  let ?type = RegisterDescription.data_type
  show ?case
  proof (cases "a = end_address")
    case True
    then have "n = q" using walk_arrived "1.prems" by metis
    with True show ?thesis
      by (subst resolve_reads.simps) (auto intro: exI [of _ "[]"])
  next
    case False
    then have short: "n < q" using walk_arrived "1.prems" by (metis le_neq_implies_less)
    show ?thesis
    proof (cases "List.find (\<lambda>r. RegisterDescription.address r = a) rs")
      case None
      have "?run a run \<longleftrightarrow> run = []" for run
        using None by (cases run) auto
      with False None short show ?thesis
        by (subst resolve_reads.simps) auto
    next
      case (Some r)
      have runs: "?run a run \<longleftrightarrow> run = [] \<or> (\<exists>run'. run = r # run' \<and> ?run (a + register_count (?type r)) run')" for run
        using Some by (cases run) auto
      show ?thesis
      proof (cases "q < n + unat (register_count (?type r))")
        case True
        with False Some short runs show ?thesis
          by (subst resolve_reads.simps) auto
      next
        case le: False
        have "resolve_reads rs q (a + register_count (?type r)) end_address
            (n + unat (register_count (?type r))) (acc @ [r]) = Some res \<longleftrightarrow>
          (\<exists>run. ?run (a + register_count (?type r)) run
             \<and> n + unat (register_count (?type r)) + run_width ?type run = q \<and> res = (acc @ [r]) @ run)"
          using False Some le "1.prems" walk_step
          by (intro "1.IH" [OF False Some refl]) simp_all
        with False Some le short show ?thesis
          by (subst resolve_reads.simps) (auto simp: runs)
      qed
    qed
  qed
qed

text \<open>
  The words a register keeps of what is written to it: all of them, except that the 8-bit
  types keep the low byte and show it zero- or sign-extended.
\<close>

definition wire_view :: "DataType \<Rightarrow> u16 list \<Rightarrow> u16 list" where
  "wire_view dt ws =
     (if dt = U8 then map (\<lambda>w. ucast (ucast w :: u8)) ws
      else if dt = I8 then map (\<lambda>w. scast (ucast w :: u8)) ws
      else ws)"

lemma from_words_wire_view:
  assumes "length ws = unat (register_count dt)"
  obtains v where "register_value_from_words dt ws layout = (Ok (Some v) :: (RegisterValue option, 'e) result)"
    "data_type_of v = dt" "register_value_to_words v layout = wire_view dt ws"
proof -
  from assms register_value_from_words_cases [where ?'a = 'e, of dt ws layout]
  obtain v where v: "register_value_from_words dt ws layout = (Ok (Some v) :: (RegisterValue option, 'e) result)"
    "data_type_of v = dt" "dt \<noteq> U8 \<and> dt \<noteq> I8 \<longrightarrow> register_value_to_words v layout = ws"
    by auto
  have "register_value_to_words v layout = wire_view dt ws"
  proof (cases "dt = U8 \<or> dt = I8")
    case True
    with assms v(1) show ?thesis
      by (auto simp: register_value_from_words_def wire_view_def length_Suc_conv)
  qed (use v(3) in \<open>simp add: wire_view_def\<close>)
  with v(1,2) show thesis by (rule that)
qed

text \<open>The words read back from a run after \<open>vals\<close> was written to it.\<close>

fun view_run :: "('r \<Rightarrow> DataType) \<Rightarrow> 'r list \<Rightarrow> u16 list \<Rightarrow> u16 list" where
  "view_run type_of [] vals = []"
| "view_run type_of (r # run) vals =
     (let n = unat (register_count (type_of r))
      in wire_view (type_of r) (take n vals) @ view_run type_of run (drop n vals))"

lemma view_run_wide:
  assumes "\<forall>r \<in> set run. type_of r \<noteq> U8 \<and> type_of r \<noteq> I8" and "run_width type_of run = length vals"
  shows "view_run type_of run vals = vals"
  using assms by (induction run arbitrary: vals) (auto simp: wire_view_def Let_def)

abbreviation writable_run :: "RegisterDescription list \<Rightarrow> u16 \<Rightarrow> RegisterDescription list \<Rightarrow> bool" where
  "writable_run \<equiv> register_run RegisterDescription.address RegisterDescription.data_type
     (\<lambda>r. RegisterDescription.access r = ReadWrite)"

abbreviation width :: "RegisterDescription list \<Rightarrow> nat" where
  "width \<equiv> run_width RegisterDescription.data_type"

text \<open>What the write loop adds to its result for a run that takes \<open>vals\<close> from an offset on.\<close>

definition run_values ::
    "MemLayout \<Rightarrow> u16 list \<Rightarrow> RegisterDescription list \<Rightarrow> (RegisterDescription \<times> RegisterValue) list \<Rightarrow> bool" where
  "run_values layout vals run res \<longleftrightarrow>
     map fst res = run \<and> (\<forall>(r, v) \<in> set res. data_type_of v = RegisterDescription.data_type r)
     \<and> concat (map (\<lambda>(r, v). register_value_to_words v layout) res)
         = view_run RegisterDescription.data_type run vals"

lemma resolve_writes_cases:
  assumes "off \<le> length vals" and "length vals < 65536"
    and "end_address = a + of_nat (length vals - off)"
  shows "(\<exists>run res. writable_run rs a run \<and> off + width run = length vals
             \<and> run_values layout (drop off vals) run res
             \<and> resolve_writes rs vals layout a end_address off acc = Ok (acc @ res))
         \<or> (\<nexists>run. writable_run rs a run \<and> off + width run = length vals)
           \<and> resolve_writes rs vals layout a end_address off acc = Err ()"
  using assms
proof (induction rs vals layout a end_address off acc rule: resolve_writes.induct)
  case (1 rs vals layout a end_address off acc)
  let ?type = RegisterDescription.data_type
  show ?case
  proof (cases "a = end_address")
    case True
    then have "off = length vals" using walk_arrived "1.prems" by metis
    with True show ?thesis
      by (subst (1) resolve_writes.simps) (auto simp: run_values_def intro!: exI [of _ "[]"])
  next
    case False
    then have short: "off < length vals" using walk_arrived "1.prems" by (metis le_neq_implies_less)
    show ?thesis
    proof (cases "List.find (\<lambda>r. RegisterDescription.address r = a \<and> RegisterDescription.access r = ReadWrite) rs")
      case None
      have "writable_run rs a run \<longleftrightarrow> run = []" for run
        using None by (cases run) auto
      with False None short show ?thesis
        by (subst (2) resolve_writes.simps) auto
    next
      case (Some r)
      let ?n = "unat (register_count (?type r))" and ?a = "a + register_count (?type r)"
      have runs: "writable_run rs a run \<longleftrightarrow> run = [] \<or> (\<exists>run'. run = r # run' \<and> writable_run rs ?a run')" for run
        using Some by (cases run) auto
      show ?thesis
      proof (cases "length vals < off + ?n")
        case True
        with False Some short runs show ?thesis
          by (subst (2) resolve_writes.simps) auto
      next
        case le: False
        let ?words = "take ?n (drop off vals)"
        have len: "length ?words = ?n" using le by simp
        obtain v where v: "register_value_from_words (?type r) ?words layout
              = (Ok (Some v) :: (RegisterValue option, unit) result)"
          "data_type_of v = ?type r" "register_value_to_words v layout = wire_view (?type r) ?words"
          using from_words_wire_view [OF len] by blast
        have slice: "slice vals off (off + ?n) = (Ok ?words :: (u16 list, unit) result)"
          using le by simp
        have ex: "expect_some (register_value_from_words (?type r) ?words layout) = (Ok v :: (RegisterValue, unit) result)"
          by (simp add: v(1))
        have step: "resolve_writes rs vals layout a end_address off acc
            = resolve_writes rs vals layout ?a end_address (off + ?n) (acc @ [(r, v)])"
          using False Some le slice ex by (subst resolve_writes.simps) (simp add: Let_def)
        have IH: "(\<exists>run res. writable_run rs ?a run \<and> off + ?n + width run = length vals
             \<and> run_values layout (drop (off + ?n) vals) run res
             \<and> resolve_writes rs vals layout ?a end_address (off + ?n) (acc @ [(r, v)]) = Ok ((acc @ [(r, v)]) @ res))
         \<or> (\<nexists>run. writable_run rs ?a run \<and> off + ?n + width run = length vals)
           \<and> resolve_writes rs vals layout ?a end_address (off + ?n) (acc @ [(r, v)]) = Err ()"
          using le "1.prems" walk_step by (intro "1.IH" [OF False Some refl le slice ex]) simp_all
        have extend: "run_values layout (drop off vals) (r # run) ((r, v) # res)"
          if "run_values layout (drop (off + ?n) vals) run res" for run res
          using that v by (auto simp: run_values_def Let_def add.commute)
        from IH show ?thesis
        proof
          assume "\<exists>run res. writable_run rs ?a run \<and> off + ?n + width run = length vals
             \<and> run_values layout (drop (off + ?n) vals) run res
             \<and> resolve_writes rs vals layout ?a end_address (off + ?n) (acc @ [(r, v)]) = Ok ((acc @ [(r, v)]) @ res)"
          then obtain run res where "writable_run rs a (r # run)" "off + width (r # run) = length vals"
            "run_values layout (drop off vals) (r # run) ((r, v) # res)"
            "resolve_writes rs vals layout a end_address off acc = Ok (acc @ (r, v) # res)"
            using extend Some step by fastforce
          then show ?thesis by blast
        next
          assume "(\<nexists>run. writable_run rs ?a run \<and> off + ?n + width run = length vals)
           \<and> resolve_writes rs vals layout ?a end_address (off + ?n) (acc @ [(r, v)]) = Err ()"
          then show ?thesis
            using short step by (auto simp: runs)
        qed
      qed
    qed
  qed
qed

lemma resolve_register_writes_cases:
  assumes "length vals < 65536"
  obtains (run) run res where "writable_run rs a run" "width run = length vals"
      "run_values layout vals run res" "resolve_register_writes rs a vals layout = Ok res"
  | (none) "\<nexists>run. writable_run rs a run \<and> width run = length vals"
      "resolve_register_writes rs a vals layout = Err ()"
  using resolve_writes_cases [of 0 vals "a + of_nat (length vals)" a rs layout "[]"] assms
  by (auto simp: resolve_register_writes_def)

section \<open>Which registers a run visits\<close>

lemma run_subset: "register_run address_of type_of P rs a run \<Longrightarrow> set run \<subseteq> set rs"
  by (induction run arbitrary: a) (auto dest: find_Some_set)

lemma run_address:
  assumes "register_run address_of type_of P rs a run" and "r \<in> set run"
  shows "\<exists>k < run_width type_of run. address_of r = a + of_nat k"
  using assms
proof (induction run arbitrary: a)
  case (Cons r' run)
  show ?case
  proof (cases "r = r'")
    case True
    with Cons.prems have "address_of r = a" by (auto dest!: find_Some_set)
    with register_count_positive [of "type_of r'"] show ?thesis by (intro exI [of _ 0]) simp
  next
    case False
    with Cons obtain k where "k < run_width type_of run"
      "address_of r = (a + register_count (type_of r')) + of_nat k"
      by auto
    then show ?thesis
      by (intro exI [of _ "unat (register_count (type_of r')) + k"]) (simp add: add.assoc)
  qed
qed simp

lemma run_distinct_addresses:
  assumes "register_run address_of type_of P rs a run" and "run_width type_of run < 65536"
  shows "distinct (map address_of run)"
  using assms
proof (induction run arbitrary: a)
  case (Cons r run)
  let ?c = "unat (register_count (type_of r))"
  have "address_of r \<noteq> address_of r'" if "r' \<in> set run" for r'
  proof -
    from Cons.prems that obtain k where k: "k < run_width type_of run"
      "address_of r' = (a + register_count (type_of r)) + of_nat k"
      using run_address [of address_of type_of P rs "a + register_count (type_of r)" run r'] by auto
    have "address_of r = a" using Cons.prems by (auto dest!: find_Some_set)
    moreover have "address_of r' = a + of_nat (?c + k)" using k by (simp add: add.assoc)
    moreover have "(of_nat (?c + k) :: u16) \<noteq> 0"
      using k(1) Cons.prems(2) register_count_positive [of "type_of r"]
      by (subst of_nat_u16_eq_0) auto
    ultimately show ?thesis by (metis add.right_neutral add_left_imp_eq)
  qed
  with Cons show ?case by auto
qed simp

lemma find_with_access:
  assumes "distinct (map address_of rs)" and "List.find (\<lambda>x. address_of x = a \<and> P x) rs = Some r"
  shows "List.find (\<lambda>x. address_of x = a) rs = Some r"
  using assms
proof (induction rs)
  case (Cons x rs)
  show ?case
  proof (cases "address_of x = a")
    case True
    show ?thesis
    proof (cases "P x")
      case False
      with Cons.prems(2) True have "List.find (\<lambda>x. address_of x = a \<and> P x) rs = Some r" by simp
      then have "r \<in> set rs" "address_of r = a" by (auto dest: find_Some_set)
      with Cons.prems(1) True show ?thesis by (metis distinct.simps(2) image_eqI list.simps(9) set_map)
    qed (use Cons.prems(2) True in simp)
  qed (use Cons in simp)
qed simp

lemma run_any_access:
  "distinct (map address_of rs) \<Longrightarrow> register_run address_of type_of P rs a run \<Longrightarrow>
     register_run address_of type_of (\<lambda>_. True) rs a run"
  by (induction run arbitrary: a) (auto dest: find_with_access)

text \<open>Values applied to distinct registers are what the registers then hold.\<close>

lemma apply_register_writes_get:
  assumes "distinct (map RegisterDescription.name (map fst res))" and "(r, v) \<in> set res"
  shows "RegisterStore_get (apply_register_writes res st) (RegisterDescription.name r) = Some v"
  unfolding apply_register_writes_def using assms
  by (intro register_store.get_fold_distinct) (auto simp: comp_def split_def intro: rev_image_eqI)

lemma apply_register_writes_other:
  assumes "nm \<notin> RegisterDescription.name ` set (map fst res)"
  shows "RegisterStore_get (apply_register_writes res st) nm = RegisterStore_get st nm"
  unfolding apply_register_writes_def using assms
  by (intro register_store.get_fold_untouched) (auto simp: image_image split_def)

lemma run_words_after_write:
  assumes "distinct (map RegisterDescription.name (map fst res))" and "run_values layout vals run res"
  shows "concat (map (\<lambda>r. register_value_to_words (current_value
             (RegisterStore_get (apply_register_writes res st)) (RegisterDescription.name r)
             (RegisterDescription.data_type r)) layout) run)
         = view_run RegisterDescription.data_type run vals"
proof -
  have "current_value (RegisterStore_get (apply_register_writes res st)) (RegisterDescription.name r)
      (RegisterDescription.data_type r) = v" if "(r, v) \<in> set res" for r v
    using apply_register_writes_get [OF assms(1) that] assms(2) that
    by (auto simp: current_value_def run_values_def)
  then have "map (\<lambda>r. register_value_to_words (current_value
             (RegisterStore_get (apply_register_writes res st)) (RegisterDescription.name r)
             (RegisterDescription.data_type r)) layout) (map fst res)
      = map (\<lambda>(r, v). register_value_to_words v layout) res"
    by (auto simp: comp_def)
  with assms(2) show ?thesis by (simp add: run_values_def)
qed

lemma run_distinct_names:
  assumes "writable_run rs a run" and "width run < 65536" and "distinct (map RegisterDescription.name rs)"
  shows "distinct (map RegisterDescription.name run)"
proof -
  have "distinct run"
    using run_distinct_addresses [OF assms(1,2)] by (simp add: distinct_map)
  moreover have "inj_on RegisterDescription.name (set run)"
    using run_subset [OF assms(1)] assms(3) by (metis distinct_map inj_on_subset)
  ultimately show ?thesis by (simp add: distinct_map)
qed

section \<open>Register reads\<close>

abbreviation readable_run :: "RegisterDescription list \<Rightarrow> u16 \<Rightarrow> RegisterDescription list \<Rightarrow> bool" where
  "readable_run \<equiv> register_run RegisterDescription.address RegisterDescription.data_type (\<lambda>_. True)"

abbreviation stored_words :: "RegisterStore \<Rightarrow> MemLayout \<Rightarrow> RegisterDescription list \<Rightarrow> u16 list" where
  "stored_words st layout run \<equiv>
     concat (map (\<lambda>r. register_value_to_words (current_value (RegisterStore_get st)
       (RegisterDescription.name r) (RegisterDescription.data_type r)) layout) run)"

lemma request_round_trips [simp]:
  "ReadHoldingRegistersRequest_decode (ReadHoldingRegistersRequest_encode r1) = Ok r1"
  "ReadInputRegistersRequest_decode (ReadInputRegistersRequest_encode r2) = Ok r2"
  "ReadCoilsRequest_decode (ReadCoilsRequest_encode r3) = Ok r3"
  "ReadDiscreteInputsRequest_decode (ReadDiscreteInputsRequest_encode r4) = Ok r4"
  "WriteSingleRegisterRequest_decode (WriteSingleRegisterRequest_encode r5) = Ok r5"
  "WriteSingleCoilRequest_decode (WriteSingleCoilRequest_encode r6) = Ok r6"
  "MaskWriteRegisterRequest_decode (MaskWriteRegisterRequest_encode r7) = Ok r7"
  using ReadHoldingRegistersRequest_codec.round_trip [of r1] ReadInputRegistersRequest_codec.round_trip [of r2]
    ReadCoilsRequest_codec.round_trip [of r3] ReadDiscreteInputsRequest_codec.round_trip [of r4]
    WriteSingleRegisterRequest_codec.round_trip [of r5] WriteSingleCoilRequest_codec.round_trip [of r6]
    MaskWriteRegisterRequest_codec.round_trip [of r7]
  by simp_all

lemma handle_read_run:
  assumes "ReadHoldingRegistersRequest_decode pdu
             = Ok \<lparr>ReadHoldingRegistersRequest.starting_address = a, quantity = q\<rparr>"
  shows "readable_run rs a run \<Longrightarrow> width run = unat q \<Longrightarrow>
      handle_read pdu rs st layout
        = Ok (ReadHoldingRegistersResponse_encode
                \<lparr>ReadHoldingRegistersResponse.register_values = stored_words st layout run\<rparr>)"
    and "\<nexists>run. readable_run rs a run \<and> width run = unat q \<Longrightarrow>
      handle_read pdu rs st layout
        = Ok (exception FUNCTION_CODE_READ_HOLDING_REGISTERS EXCEPTION_ILLEGAL_DATA_ADDRESS)"
proof -
  let ?read = "read_words RegisterDescription.address RegisterDescription.name RegisterDescription.data_type
      rs (RegisterStore_get st) layout (unat q) a (a + q) []"
  have iff: "?read = Some ws \<longleftrightarrow>
      (\<exists>run. readable_run rs a run \<and> width run = unat q \<and> ws = stored_words st layout run)" for ws
    by (subst read_words_iff) auto
  show "handle_read pdu rs st layout
        = Ok (ReadHoldingRegistersResponse_encode
                \<lparr>ReadHoldingRegistersResponse.register_values = stored_words st layout run\<rparr>)"
    if "readable_run rs a run" "width run = unat q"
  proof -
    have "?read = Some (stored_words st layout run)" using that iff by blast
    then show ?thesis by (simp add: handle_read_def assms)
  qed
  show "handle_read pdu rs st layout
        = Ok (exception FUNCTION_CODE_READ_HOLDING_REGISTERS EXCEPTION_ILLEGAL_DATA_ADDRESS)"
    if "\<nexists>run. readable_run rs a run \<and> width run = unat q"
  proof -
    have "?read = None" using that iff by (metis not_None_eq)
    then show ?thesis by (simp add: handle_read_def assms)
  qed
qed

text \<open>
  C9: Read Holding Registers answers a request for \<open>q\<close> words at \<open>a\<close> exactly when registers
  of the description follow one another from \<open>a\<close> on and fill the range; the answer is the
  words they hold, a typed zero for one that was never written, in order. Any other range
  (a gap, an address inside a wide register, an end inside one) is refused with an address
  exception. The loop over the range ends on every request, also one that wraps around the
  address space.
\<close>

theorem read_holding_registers_exact:
  "if \<exists>run. readable_run rs a run \<and> width run = unat q
   then \<exists>run. readable_run rs a run \<and> width run = unat q
          \<and> handle_read (ReadHoldingRegistersRequest_encode
                \<lparr>ReadHoldingRegistersRequest.starting_address = a, quantity = q\<rparr>) rs st layout
            = Ok (ReadHoldingRegistersResponse_encode \<lparr>ReadHoldingRegistersResponse.register_values =
                    stored_words st layout run\<rparr>)
          \<and> length (stored_words st layout run) = unat q
   else handle_read (ReadHoldingRegistersRequest_encode
                \<lparr>ReadHoldingRegistersRequest.starting_address = a, quantity = q\<rparr>) rs st layout
        = Ok (exception FUNCTION_CODE_READ_HOLDING_REGISTERS EXCEPTION_ILLEGAL_DATA_ADDRESS)"
proof -
  have len: "length (stored_words st layout run) = width run" for run
    by (induction run) simp_all
  show ?thesis
  proof (cases "\<exists>run. readable_run rs a run \<and> width run = unat q")
    case True
    then obtain run where run: "readable_run rs a run" "width run = unat q" by blast
    from handle_read_run(1) [OF request_round_trips(1) run] run len [of run] show ?thesis by auto
  next
    case False
    then show ?thesis
      by (simp only: if_False handle_read_run(2) [OF request_round_trips(1) False])
  qed
qed

section \<open>Register writes\<close>

lemma handle_write_multiple_cases:
  assumes "WriteMultipleRegistersRequest_decode pdu
             = Ok \<lparr>WriteMultipleRegistersRequest.starting_address = a, register_values = vals\<rparr>"
    and "length vals < 65536"
  obtains (applied) run res where "writable_run rs a run" "width run = length vals"
      "run_values layout vals run res"
      "(handle_write_multiple_registers pdu rs layout st :: (bytes, 'e) result \<times> RegisterStore)
         = (Ok (WriteMultipleRegistersResponse_encode
              \<lparr>WriteMultipleRegistersResponse.starting_address = a, quantity = of_nat (length vals)\<rparr>),
            apply_register_writes res st)"
  | (refused) "\<nexists>run. writable_run rs a run \<and> width run = length vals"
      "(handle_write_multiple_registers pdu rs layout st :: (bytes, 'e) result \<times> RegisterStore)
         = (Ok (exception FUNCTION_CODE_WRITE_MULTIPLE_REGISTERS EXCEPTION_ILLEGAL_DATA_ADDRESS), st)"
proof (cases rule: resolve_register_writes_cases [OF assms(2), of rs a layout])
  case (1 run res)
  then show thesis
    by (intro that(1) [of run res]) (simp_all add: handle_write_multiple_registers_def assms(1))
next
  case 2
  then show thesis
    by (intro that(2)) (simp_all add: handle_write_multiple_registers_def assms(1))
qed

text \<open>
  C8: Write Multiple Registers is all or nothing, and what it writes is read back. If
  writable registers fill the requested range, the request is acknowledged, reading the same
  range returns the words that were written (an 8-bit register shows the low byte of its
  word, extended), and no register outside the range changes. Otherwise the request is
  refused and the store is as before. Addresses and names of the description must be
  distinct, so that an address and a name each stand for one register.
\<close>

theorem write_multiple_registers_read_back:
  fixes response :: "(bytes, 'e) result"
  assumes "distinct (map RegisterDescription.address rs)" and "distinct (map RegisterDescription.name rs)"
    and "WriteMultipleRegistersRequest_decode pdu
           = Ok \<lparr>WriteMultipleRegistersRequest.starting_address = a, register_values = vals\<rparr>"
    and "length vals < 65536"
    and "handle_write_multiple_registers pdu rs layout st = (response, st')"
  shows "if \<exists>run. writable_run rs a run \<and> width run = length vals
     then \<exists>run. writable_run rs a run \<and> width run = length vals
        \<and> response = Ok (WriteMultipleRegistersResponse_encode
             \<lparr>WriteMultipleRegistersResponse.starting_address = a, quantity = of_nat (length vals)\<rparr>)
        \<and> handle_read (ReadHoldingRegistersRequest_encode
             \<lparr>ReadHoldingRegistersRequest.starting_address = a, quantity = of_nat (length vals)\<rparr>) rs st' layout
          = Ok (ReadHoldingRegistersResponse_encode \<lparr>ReadHoldingRegistersResponse.register_values =
                  view_run RegisterDescription.data_type run vals\<rparr>)
        \<and> (\<forall>r \<in> set rs - set run. RegisterStore_get st' (RegisterDescription.name r)
             = RegisterStore_get st (RegisterDescription.name r))
     else response = Ok (exception FUNCTION_CODE_WRITE_MULTIPLE_REGISTERS EXCEPTION_ILLEGAL_DATA_ADDRESS)
        \<and> st' = st"
proof (cases rule: handle_write_multiple_cases [OF assms(3,4), where ?'e = 'e, of rs layout st])
  case (1 run res)
  note applied = this
  have fst_res: "map fst res = run" using applied(3) by (simp add: run_values_def)
  have st': "st' = apply_register_writes res st" using applied(4) assms(5) by simp
  have names: "distinct (map RegisterDescription.name run)"
    using run_distinct_names [OF applied(1) _ assms(2)] applied(2) assms(4) by simp
  have "readable_run rs a run" using run_any_access [OF assms(1) applied(1)] .
  then have "handle_read (ReadHoldingRegistersRequest_encode
        \<lparr>ReadHoldingRegistersRequest.starting_address = a, quantity = of_nat (length vals)\<rparr>) rs st' layout
      = Ok (ReadHoldingRegistersResponse_encode
          \<lparr>ReadHoldingRegistersResponse.register_values = stored_words st' layout run\<rparr>)"
    using applied(2) assms(4) by (intro handle_read_run [OF request_round_trips(1)]) simp_all
  moreover have "stored_words st' layout run = view_run RegisterDescription.data_type run vals"
    unfolding st' using names fst_res applied(3) by (intro run_words_after_write) simp_all
  moreover have "RegisterStore_get st' (RegisterDescription.name r) = RegisterStore_get st (RegisterDescription.name r)"
    if "r \<in> set rs - set run" for r
  proof -
    have "inj_on RegisterDescription.name (set rs)" using assms(2) by (simp add: distinct_map)
    then have "RegisterDescription.name r \<notin> RegisterDescription.name ` set run"
      using that run_subset [OF applied(1)] by (auto simp: inj_on_def)
    then show ?thesis unfolding st' by (intro apply_register_writes_other) (simp only: fst_res not_False_eq_True)
  qed
  ultimately show ?thesis
    using applied assms(5) by auto
next
  case 2
  with assms(5) show ?thesis by auto
qed

definition sample_registers :: "RegisterDescription list" where
  "sample_registers =
     [\<lparr>RegisterDescription.name = ''level'', address = 0, data_type = U16, access = ReadWrite, unit = None\<rparr>,
      \<lparr>RegisterDescription.name = ''flow'', address = 1, data_type = F32, access = ReadWrite, unit = None\<rparr>]"

theorem write_multiple_registers_read_back_witness:
  "handle_read (ReadHoldingRegistersRequest_encode
       \<lparr>ReadHoldingRegistersRequest.starting_address = 0, quantity = of_nat (length [7, 8, 9 :: u16])\<rparr>)
     sample_registers
     (snd (handle_write_multiple_registers [16, 0, 0, 0, 3, 6, 0, 7, 0, 8, 0, 9] sample_registers Cdab
             RegisterStore_new :: (bytes, unit) result \<times> RegisterStore)) Cdab
   = (Ok (ReadHoldingRegistersResponse_encode
            \<lparr>ReadHoldingRegistersResponse.register_values = [7, 8, 9]\<rparr>) :: (bytes, unit) result)"
proof -
  let ?rs = sample_registers and ?vals = "[7, 8, 9 :: u16]"
  obtain r st' where h: "handle_write_multiple_registers [16, 0, 0, 0, 3, 6, 0, 7, 0, 8, 0, 9] ?rs Cdab
      RegisterStore_new = (r :: (bytes, unit) result, st')"
    by fastforce
  have decode: "WriteMultipleRegistersRequest_decode [16, 0, 0, 0, 3, 6, 0, 7, 0, 8, 0, 9]
      = Ok \<lparr>WriteMultipleRegistersRequest.starting_address = 0, register_values = ?vals\<rparr>"
    by code_simp
  have "writable_run ?rs 0 ?rs \<and> width ?rs = length ?vals"
    by (simp add: sample_registers_def)
  then have ex: "\<exists>run. writable_run ?rs 0 run \<and> width run = length ?vals" by blast
  have dist: "distinct (map RegisterDescription.address ?rs)" "distinct (map RegisterDescription.name ?rs)"
    and lt: "length ?vals < 65536"
    by (simp_all add: sample_registers_def)
  from write_multiple_registers_read_back [OF dist decode lt h, unfolded if_P [OF ex]]
  obtain run where run: "writable_run ?rs 0 run" "width run = length ?vals"
    and read: "handle_read (ReadHoldingRegistersRequest_encode
       \<lparr>ReadHoldingRegistersRequest.starting_address = 0, quantity = of_nat (length ?vals)\<rparr>) ?rs st' Cdab
     = (Ok (ReadHoldingRegistersResponse_encode \<lparr>ReadHoldingRegistersResponse.register_values =
                  view_run RegisterDescription.data_type run ?vals\<rparr>) :: (bytes, unit) result)"
    by blast
  have "view_run RegisterDescription.data_type run ?vals = ?vals"
    using run run_subset [OF run(1)] by (intro view_run_wide) (auto simp: sample_registers_def)
  with read h show ?thesis by simp
qed

lemma find_single_word_register:
  "find_single_word_read_write_register rs a = Some r \<Longrightarrow>
     r \<in> set rs \<and> RegisterDescription.address r = a \<and> RegisterDescription.access r = ReadWrite
     \<and> unat (register_count (RegisterDescription.data_type r)) = 1"
  by (auto simp: find_single_word_read_write_register_def dest!: find_Some_set)

text \<open>The one word a single-word register shows.\<close>

definition register_word :: "MemLayout \<Rightarrow> RegisterStore \<Rightarrow> RegisterDescription \<Rightarrow> u16" where
  "register_word layout st r =
     hd (register_value_to_words (current_value (RegisterStore_get st) (RegisterDescription.name r)
           (RegisterDescription.data_type r)) layout)"

lemma register_word_after_set:
  assumes "unat (register_count (RegisterDescription.data_type r)) = 1"
  obtains v where
    "expect_some (register_value_from_words (RegisterDescription.data_type r) [w] layout)
       = (Ok v :: (RegisterValue, 'e) result)"
    "register_word layout (RegisterStore_set (RegisterDescription.name r) v st) r
       = hd (wire_view (RegisterDescription.data_type r) [w])"
proof -
  have "length [w] = unat (register_count (RegisterDescription.data_type r))" using assms by simp
  then obtain v where v: "register_value_from_words (RegisterDescription.data_type r) [w] layout
        = (Ok (Some v) :: (RegisterValue option, 'e) result)"
    "data_type_of v = RegisterDescription.data_type r"
    "register_value_to_words v layout = wire_view (RegisterDescription.data_type r) [w]"
    by (rule from_words_wire_view)
  then show thesis
    by (intro that [of v]) (simp_all add: register_word_def current_value_def register_store.get_set)
qed

text \<open>A read of one register at the address of a single-word register gives its word.\<close>

lemma read_single_word:
  assumes "find_single_word_read_write_register rs a = Some r" and "distinct (map RegisterDescription.address rs)"
  shows "handle_read (ReadHoldingRegistersRequest_encode
        \<lparr>ReadHoldingRegistersRequest.starting_address = a, quantity = 1\<rparr>) rs st layout
    = Ok (ReadHoldingRegistersResponse_encode
        \<lparr>ReadHoldingRegistersResponse.register_values = [register_word layout st r]\<rparr>)"
proof -
  note r = find_single_word_register [OF assms(1)]
  have "List.find (\<lambda>x. RegisterDescription.address x = a) rs = Some r"
    using assms(1) by (intro find_with_access [OF assms(2)]) (simp add: find_single_word_read_write_register_def)
  then have "readable_run rs a [r]" by simp
  moreover have "width [r] = unat (1 :: u16)" using r by simp
  moreover have "stored_words st layout [r] = [register_word layout st r]"
    using r by (simp add: register_word_def) (metis data_type_of_current_value hd_conv_nth length_0_conv
        length_Suc_conv length_register_value_to_words list.sel(1) One_nat_def)
  ultimately show ?thesis using handle_read_run(1) [OF request_round_trips(1), of rs a "[r]" 1 st layout] by simp
qed

text \<open>
  C7: The two single-register writes. On an address with a writable one-word register,
  Write Single Register writes its word and Mask Write Register writes
  \<open>(current AND and_mask) OR (or_mask AND NOT and_mask)\<close> of the word the register showed;
  both are echoed and change that register only, and a Read Holding Registers request then returns
  what was written: the word itself, or for an 8-bit register, which keeps only the low byte, that byte
  extended to a word. (For the read no two registers may share an address.) On any other
  address, a wide or read-only register included, the writes are refused and nothing changes.
\<close>

theorem single_register_writes:
  fixes response :: "(bytes, 'e) result"
  assumes "handle_write_single (WriteSingleRegisterRequest_encode
               \<lparr>WriteSingleRegisterRequest.register_address = a, register_value = w\<rparr>) rs layout st = (response, st1)"
    and "handle_mask_write_register (MaskWriteRegisterRequest_encode
               \<lparr>MaskWriteRegisterRequest.reference_address = a, and_mask = am, or_mask = om\<rparr>) rs layout st
           = (response2 :: (bytes, 'e) result, st2)"
  shows "case find_single_word_read_write_register rs a of
       Some r \<Rightarrow>
         (let written = hd (wire_view (RegisterDescription.data_type r) [w]);
              masked = hd (wire_view (RegisterDescription.data_type r)
                [(register_word layout st r AND am) OR (om AND NOT am)]);
              reads = (\<lambda>st' shown. handle_read (ReadHoldingRegistersRequest_encode
                  \<lparr>ReadHoldingRegistersRequest.starting_address = a, quantity = 1\<rparr>) rs st' layout
                = (Ok (ReadHoldingRegistersResponse_encode
                    \<lparr>ReadHoldingRegistersResponse.register_values = [shown]\<rparr>) :: (bytes, 'e) result))
          in response = Ok (WriteSingleRegisterResponse_encode
               \<lparr>WriteSingleRegisterResponse.register_address = a, register_value = w\<rparr>)
             \<and> register_word layout st1 r = written
             \<and> response2 = Ok (MaskWriteRegisterResponse_encode
               \<lparr>MaskWriteRegisterResponse.reference_address = a, and_mask = am, or_mask = om\<rparr>)
             \<and> register_word layout st2 r = masked
             \<and> (distinct (map RegisterDescription.address rs) \<longrightarrow>
                  reads st (register_word layout st r) \<and> reads st1 written \<and> reads st2 masked)
             \<and> (RegisterDescription.data_type r \<notin> {U8, I8} \<longrightarrow>
                  written = w \<and> masked = (register_word layout st r AND am) OR (om AND NOT am))
             \<and> (\<forall>nm. nm \<noteq> RegisterDescription.name r \<longrightarrow>
                  RegisterStore_get st1 nm = RegisterStore_get st nm \<and> RegisterStore_get st2 nm = RegisterStore_get st nm))
     | None \<Rightarrow>
         response = Ok (exception FUNCTION_CODE_WRITE_SINGLE_REGISTER EXCEPTION_ILLEGAL_DATA_ADDRESS) \<and> st1 = st
         \<and> response2 = Ok (exception FUNCTION_CODE_MASK_WRITE_REGISTER EXCEPTION_ILLEGAL_DATA_ADDRESS) \<and> st2 = st"
proof (cases "find_single_word_read_write_register rs a")
  case None
  with assms show ?thesis
    by (auto simp: handle_write_single_def handle_mask_write_register_def)
next
  case (Some r)
  let ?new = "(register_word layout st r AND am) OR (om AND NOT am)"
  have one: "unat (register_count (RegisterDescription.data_type r)) = 1"
    using find_single_word_register [OF Some] by simp
  obtain v where v: "expect_some (register_value_from_words (RegisterDescription.data_type r) [w] layout)
       = (Ok v :: (RegisterValue, 'e) result)"
    "register_word layout (RegisterStore_set (RegisterDescription.name r) v st) r
       = hd (wire_view (RegisterDescription.data_type r) [w])"
    using register_word_after_set [OF one] by blast
  obtain u where u: "expect_some (register_value_from_words (RegisterDescription.data_type r) [?new] layout)
       = (Ok u :: (RegisterValue, 'e) result)"
    "register_word layout (RegisterStore_set (RegisterDescription.name r) u st) r
       = hd (wire_view (RegisterDescription.data_type r) [?new])"
    using register_word_after_set [OF one] by blast
  let ?cur = "register_value_to_words (current_value (RegisterStore_get st) (RegisterDescription.name r)
           (RegisterDescription.data_type r)) layout"
  have "?cur \<noteq> []" using one by (metis data_type_of_current_value length_0_conv length_register_value_to_words zero_neq_one)
  then have cur: "index ?cur 0 = (Ok (register_word layout st r) :: (u16, 'e) result)"
    by (simp add: register_word_def index_def hd_conv_nth)
  have "st1 = RegisterStore_set (RegisterDescription.name r) v st"
    and "response = Ok (WriteSingleRegisterResponse_encode
           \<lparr>WriteSingleRegisterResponse.register_address = a, register_value = w\<rparr>)"
    using assms(1) Some v(1) by (simp_all add: handle_write_single_def)
  moreover have "st2 = RegisterStore_set (RegisterDescription.name r) u st"
    and "response2 = Ok (MaskWriteRegisterResponse_encode
           \<lparr>MaskWriteRegisterResponse.reference_address = a, and_mask = am, or_mask = om\<rparr>)"
    using assms(2) Some u(1) cur by (simp_all add: handle_mask_write_register_def Let_def)
  ultimately show ?thesis
    using Some u(2) v(2) read_single_word [OF Some, where 'a = 'e, of _ layout]
    by (simp add: register_store.get_set wire_view_def Let_def)
qed

theorem single_register_writes_witness:
  "case find_single_word_read_write_register sample_registers 0 of
     Some r \<Rightarrow> handle_read (ReadHoldingRegistersRequest_encode
          \<lparr>ReadHoldingRegistersRequest.starting_address = 0, quantity = 1\<rparr>) sample_registers
          (snd (handle_mask_write_register (MaskWriteRegisterRequest_encode
            \<lparr>MaskWriteRegisterRequest.reference_address = 0, and_mask = 0xF2, or_mask = 0x25\<rparr>)
            sample_registers Abcd RegisterStore_new :: (bytes, unit) result \<times> RegisterStore)) Abcd
        = (Ok (ReadHoldingRegistersResponse_encode \<lparr>ReadHoldingRegistersResponse.register_values =
             [(register_word Abcd RegisterStore_new r AND 0xF2) OR (0x25 AND NOT 0xF2)]\<rparr>) :: (bytes, unit) result)
   | None \<Rightarrow> False"
proof -
  obtain r1 st1 where h1: "handle_write_single (WriteSingleRegisterRequest_encode
      \<lparr>WriteSingleRegisterRequest.register_address = 0, register_value = 7\<rparr>) sample_registers Abcd
      RegisterStore_new = (r1 :: (bytes, unit) result, st1)" by fastforce
  obtain r2 st2 where h2: "handle_mask_write_register (MaskWriteRegisterRequest_encode
      \<lparr>MaskWriteRegisterRequest.reference_address = 0, and_mask = 0xF2, or_mask = 0x25\<rparr>)
      sample_registers Abcd RegisterStore_new = (r2 :: (bytes, unit) result, st2)" by fastforce
  have found: "find_single_word_read_write_register sample_registers 0 = Some (hd sample_registers)"
    by (simp add: find_single_word_read_write_register_def sample_registers_def)
  have "distinct (map RegisterDescription.address sample_registers)"
    "RegisterDescription.data_type (hd sample_registers) \<notin> {U8, I8}"
    by (simp_all add: sample_registers_def)
  with single_register_writes [OF h1 h2] h2 show ?thesis
    by (simp add: found Let_def)
qed

text \<open>
  Read/Write Multiple Registers is a write and a read in one step. When writable
  registers fill the write range and registers fill the read range, the store becomes what
  Write Multiple Registers would make it and the reply carries the words Read Holding
  Registers would then return, so a request reads its own write; otherwise it is refused
  and the store is as before.
\<close>

theorem read_write_multiple_registers_exact:
  fixes response :: "(bytes, 'e) result"
  assumes "ReadWriteMultipleRegistersRequest_decode pdu
             = Ok \<lparr>ReadWriteMultipleRegistersRequest.read_starting_address = a, read_quantity = q,
                   write_starting_address = wa, write_values = vals\<rparr>"
    and "WriteMultipleRegistersRequest_decode write_pdu
           = Ok \<lparr>WriteMultipleRegistersRequest.starting_address = wa, register_values = vals\<rparr>"
    and "length vals < 65536"
    and "handle_read_write_multiple_registers pdu rs layout st = (response, st')"
  shows "if (\<exists>run. writable_run rs wa run \<and> width run = length vals)
            \<and> (\<exists>run. readable_run rs a run \<and> width run = unat q)
     then st' = snd (handle_write_multiple_registers write_pdu rs layout st :: (bytes, 'e) result \<times> RegisterStore)
        \<and> (\<exists>ws. response = Ok (ReadWriteMultipleRegistersResponse_encode
                 \<lparr>ReadWriteMultipleRegistersResponse.register_values = ws\<rparr>)
             \<and> handle_read (ReadHoldingRegistersRequest_encode
                 \<lparr>ReadHoldingRegistersRequest.starting_address = a, quantity = q\<rparr>) rs st' layout
               = (Ok (ReadHoldingRegistersResponse_encode
                   \<lparr>ReadHoldingRegistersResponse.register_values = ws\<rparr>) :: (bytes, 'e) result))
     else response = Ok (exception FUNCTION_CODE_READ_WRITE_MULTIPLE_REGISTERS EXCEPTION_ILLEGAL_DATA_ADDRESS)
        \<and> st' = st"
proof (cases rule: resolve_register_writes_cases [OF assms(3), of rs wa layout])
  case (1 wrun res)
  let ?reads = "resolve_reads rs (unat q) a (a + q) 0 []"
  have iff: "?reads = Some run \<longleftrightarrow> readable_run rs a run \<and> width run = unat q" for run
    by (subst resolve_reads_iff) auto
  show ?thesis
  proof (cases ?reads)
    case None
    then have "\<nexists>run. readable_run rs a run \<and> width run = unat q"
      using iff by (metis option.distinct(1))
    with None 1 assms show ?thesis
      by (auto simp: handle_read_write_multiple_registers_def)
  next
    case (Some run)
    then have run: "readable_run rs a run" "width run = unat q" using iff by auto
    have st': "st' = apply_register_writes res st"
      and response: "response = Ok (ReadWriteMultipleRegistersResponse_encode
        \<lparr>ReadWriteMultipleRegistersResponse.register_values = stored_words st' layout run\<rparr>)"
      using Some 1 assms(1,4) by (auto simp: handle_read_write_multiple_registers_def Let_def)
    have "st' = snd (handle_write_multiple_registers write_pdu rs layout st :: (bytes, 'e) result \<times> RegisterStore)"
      using 1 assms(2) st' by (simp add: handle_write_multiple_registers_def)
    moreover note handle_read_run(1) [OF request_round_trips(1) run]
    ultimately show ?thesis
      using response run 1(1,2) by auto
  qed
next
  case 2
  with assms show ?thesis
    by (auto simp: handle_read_write_multiple_registers_def)
qed

theorem read_write_multiple_registers_exact_witness:
  "\<exists>response st'. handle_read_write_multiple_registers
       [23, 0, 0, 0, 3, 0, 1, 0, 2, 4, 0, 8, 0, 9] sample_registers Abcd RegisterStore_new
       = (response :: (bytes, unit) result, st')
     \<and> (\<exists>ws. response = Ok (ReadWriteMultipleRegistersResponse_encode
                 \<lparr>ReadWriteMultipleRegistersResponse.register_values = ws\<rparr>)
             \<and> handle_read (ReadHoldingRegistersRequest_encode
                 \<lparr>ReadHoldingRegistersRequest.starting_address = 0, quantity = 3\<rparr>) sample_registers st' Abcd
               = (Ok (ReadHoldingRegistersResponse_encode
                   \<lparr>ReadHoldingRegistersResponse.register_values = ws\<rparr>) :: (bytes, unit) result))"
proof -
  let ?rs = sample_registers
  obtain response st' where h: "handle_read_write_multiple_registers
      [23, 0, 0, 0, 3, 0, 1, 0, 2, 4, 0, 8, 0, 9] ?rs Abcd RegisterStore_new
      = (response :: (bytes, unit) result, st')" by fastforce
  have decode: "ReadWriteMultipleRegistersRequest_decode [23, 0, 0, 0, 3, 0, 1, 0, 2, 4, 0, 8, 0, 9]
      = Ok \<lparr>ReadWriteMultipleRegistersRequest.read_starting_address = 0, read_quantity = 3,
            write_starting_address = 1, write_values = [8, 9]\<rparr>"
    and decode2: "WriteMultipleRegistersRequest_decode [16, 0, 1, 0, 2, 4, 0, 8, 0, 9]
      = Ok \<lparr>WriteMultipleRegistersRequest.starting_address = 1, register_values = [8, 9]\<rparr>"
    by code_simp+
  have "writable_run ?rs 1 (tl ?rs) \<and> width (tl ?rs) = length [8, 9 :: u16]"
    and "readable_run ?rs 0 ?rs \<and> width ?rs = unat (3 :: u16)"
    by (simp_all add: sample_registers_def)
  then have ex: "(\<exists>run. writable_run ?rs 1 run \<and> width run = length [8, 9 :: u16])
      \<and> (\<exists>run. readable_run ?rs 0 run \<and> width run = unat (3 :: u16))" by blast
  have "length [8, 9 :: u16] < 65536" by simp
  note fact = read_write_multiple_registers_exact [OF decode decode2 this h, unfolded if_P [OF ex]]
  show ?thesis
    by (intro exI [of _ response] exI [of _ st'] conjI) (rule h, rule conjunct2 [OF fact])
qed

end
