(* ===== verification/Handler_Coils.thy ===== *)
theory Handler_Coils
  imports Handler_Registers
begin

text \<open>
  What the coil handlers do: reading a range needs a coil at every address of it, writing
  one is all or nothing, and what was written is read back.
\<close>

section \<open>Coils\<close>

abbreviation coil_at :: "CoilDescription list \<Rightarrow> u16 \<Rightarrow> CoilDescription option" where
  "coil_at cs a \<equiv> List.find (\<lambda>c. CoilDescription.address c = a) cs"

definition coil_state :: "CoilStore \<Rightarrow> CoilDescription \<Rightarrow> bool" where
  "coil_state st c = (case CoilStore_get st (CoilDescription.name c) of Some (CoilValue x) \<Rightarrow> x | None \<Rightarrow> False)"

lemma read_bits_coils:
  "read_bits CoilDescription.address CoilDescription.name cs (CoilStore_get st) start offs =
     (if \<forall>off \<in> set offs. coil_at cs (start + of_nat off) \<noteq> None
      then Some (map (\<lambda>off. coil_state st (the (coil_at cs (start + of_nat off)))) offs) else None)"
  by (induction offs) (auto simp: coil_state_def Let_def split: option.splits CoilValue.splits)

lemma resolve_coil_writes_eq:
  "resolve_coil_writes cs start ps =
     (if \<forall>p \<in> set ps. coil_at cs (start + of_nat (fst p)) \<noteq> None
      then Some (map (\<lambda>p. (the (coil_at cs (start + of_nat (fst p))), snd p)) ps) else None)"
proof (induction ps)
  case (Cons p ps)
  then show ?case
    by (cases p; cases "coil_at cs (start + of_nat (fst p))") auto
qed simp

lemma resolve_coil_writes_enumerate:
  "resolve_coil_writes cs a (enumerate 0 vals) =
     (if \<forall>off < length vals. coil_at cs (a + of_nat off) \<noteq> None
      then Some (map (\<lambda>off. (the (coil_at cs (a + of_nat off)), vals ! off)) [0..<length vals]) else None)"
proof -
  have "(\<forall>p \<in> set (enumerate 0 vals). coil_at cs (a + of_nat (fst p)) \<noteq> None) \<longleftrightarrow>
      (\<forall>off < length vals. coil_at cs (a + of_nat off) \<noteq> None)" (is "?l = ?r")
  proof
    assume ?l
    show ?r
    proof (intro allI impI)
      fix off assume "off < length vals"
      then have "(off, vals ! off) \<in> set (enumerate 0 vals)" by (simp add: in_set_enumerate_eq)
      with \<open>?l\<close> show "coil_at cs (a + of_nat off) \<noteq> None" by fastforce
    qed
  qed (simp add: in_set_enumerate_eq split_paired_all)
  moreover have "map (\<lambda>p. (the (coil_at cs (a + of_nat (fst p))), snd p)) (enumerate 0 vals)
      = map (\<lambda>off. (the (coil_at cs (a + of_nat off)), vals ! off)) [0..<length vals]"
    by (rule nth_equalityI) (simp_all add: nth_enumerate_eq)
  ultimately show ?thesis
    by (simp only: resolve_coil_writes_eq)
qed

lemma read_bits_coils_range:
  "read_bits CoilDescription.address CoilDescription.name cs (CoilStore_get st) start [0..<n] =
     (if \<forall>off < n. coil_at cs (start + of_nat off) \<noteq> None
      then Some (map (\<lambda>off. coil_state st (the (coil_at cs (start + of_nat off)))) [0..<n]) else None)"
  unfolding read_bits_coils by (simp only: set_upt atLeast0LessThan lessThan_iff Ball_def)

lemma of_nat_u16_inject: "i < 65536 \<Longrightarrow> j < 65536 \<Longrightarrow> (of_nat i :: u16) = of_nat j \<longleftrightarrow> i = j"
  by (metis unat_of_nat_u16)

text \<open>
  C10: Coils are read and written bit by bit. Write Multiple Coils succeeds exactly when
  every address of the range has a coil; reading the range back then returns the values
  written and every other coil keeps its state. A range with a missing coil is refused, for
  reading and for writing, and nothing changes. Coil names must be distinct.
\<close>

theorem coils_read_back:
  fixes response :: "(bytes, 'e) result"
  assumes "distinct (map CoilDescription.name cs)" and "length vals < 65536"
    and "WriteMultipleCoilsRequest_decode pdu
           = Ok \<lparr>WriteMultipleCoilsRequest.starting_address = a, coil_values = vals\<rparr>"
    and "handle_write_multiple_coils pdu cs st = (response, st')"
    and "read_pdu = ReadCoilsRequest_encode
           \<lparr>ReadCoilsRequest.starting_address = a, quantity = of_nat (length vals)\<rparr>"
  shows "if \<forall>off < length vals. coil_at cs (a + of_nat off) \<noteq> None
     then response = Ok (WriteMultipleCoilsResponse_encode
             \<lparr>WriteMultipleCoilsResponse.starting_address = a, quantity = of_nat (length vals)\<rparr>)
        \<and> handle_read_coils read_pdu cs st' = (ReadCoilsResponse_encode \<lparr>ReadCoilsResponse.coil_values = vals\<rparr> :: (bytes, 'e) result)
        \<and> (\<forall>c \<in> set cs. (\<forall>off < length vals. coil_at cs (a + of_nat off) \<noteq> Some c) \<longrightarrow>
             coil_state st' c = coil_state st c)
     else response = Ok (exception FUNCTION_CODE_WRITE_MULTIPLE_COILS EXCEPTION_ILLEGAL_DATA_ADDRESS)
        \<and> st' = st
        \<and> handle_read_coils read_pdu cs st = (Ok (exception FUNCTION_CODE_READ_COILS EXCEPTION_ILLEGAL_DATA_ADDRESS) :: (bytes, 'e) result)"
proof -
  let ?coil = "\<lambda>off. the (coil_at cs (a + of_nat off))"
  have offsets: "unat (of_nat (length vals) :: u16) = length vals"
    using assms(2) by simp
  note unfold = handle_write_multiple_coils_def handle_read_coils_def resolve_coil_writes_enumerate
    read_bits_coils_range apply_coil_writes_def
  show ?thesis
  proof (cases "\<forall>off < length vals. coil_at cs (a + of_nat off) \<noteq> None")
    case False
    then have missing: "\<not> (\<forall>off < length vals. coil_at cs (a + of_nat off) \<noteq> None)" .
    have "handle_read_coils read_pdu cs st = (Ok (exception FUNCTION_CODE_READ_COILS EXCEPTION_ILLEGAL_DATA_ADDRESS) :: (bytes, 'e) result)"
      by (simp only: unfold assms(5) request_round_trips result.case ReadCoilsRequest.select_convs
          offsets missing if_False option.case)
    moreover have "response = Ok (exception FUNCTION_CODE_WRITE_MULTIPLE_COILS EXCEPTION_ILLEGAL_DATA_ADDRESS) \<and> st' = st"
      using assms(4) by (simp only: unfold assms(3) result.case WriteMultipleCoilsRequest.select_convs
          missing if_False option.case prod.inject)
    ultimately show ?thesis by (simp only: missing if_False simp_thms)
  next
    case True
    define kvs where "kvs = map (\<lambda>off. (CoilDescription.name (?coil off), CoilValue (vals ! off))) [0..<length vals]"
    have found: "?coil off \<in> set cs \<and> CoilDescription.address (?coil off) = a + of_nat off" if "off < length vals" for off
    proof -
      obtain c where "coil_at cs (a + of_nat off) = Some c" using True \<open>off < length vals\<close> by blast
      then show ?thesis by (auto dest: find_Some_set)
    qed
    have inj: "inj_on CoilDescription.name (set cs)" using assms(1) by (simp add: distinct_map)
    have "distinct (map fst kvs)"
    proof -
      have "map fst kvs = map (\<lambda>off. CoilDescription.name (?coil off)) [0..<length vals]"
        by (simp add: kvs_def comp_def)
      moreover have "inj_on (\<lambda>off. CoilDescription.name (?coil off)) {0..<length vals}"
      proof (rule inj_onI)
        fix i j
        assume ij: "i \<in> {0..<length vals}" "j \<in> {0..<length vals}"
          "CoilDescription.name (?coil i) = CoilDescription.name (?coil j)"
        then have i: "?coil i \<in> set cs" "CoilDescription.address (?coil i) = a + of_nat i"
          and j: "?coil j \<in> set cs" "CoilDescription.address (?coil j) = a + of_nat j"
          using found by simp_all
        have "?coil i = ?coil j" by (rule inj_onD [OF inj ij(3) i(1) j(1)])
        then have "a + of_nat i = a + (of_nat j :: u16)" using i(2) j(2) by metis
        then have "(of_nat i :: u16) = of_nat j" by (simp only: add_left_cancel)
        moreover have "i < 65536" "j < 65536" using ij(1,2) assms(2) by auto
        ultimately show "i = j" by (simp only: of_nat_u16_inject)
      qed
      ultimately show ?thesis by (simp add: distinct_map)
    qed
    note distinct = this
    have st': "st' = fold (\<lambda>(k, v). CoilStore_set k v) kvs st"
      and response: "response = Ok (WriteMultipleCoilsResponse_encode
             \<lparr>WriteMultipleCoilsResponse.starting_address = a, quantity = of_nat (length vals)\<rparr>)"
      using assms(4) by (simp_all only: unfold assms(3) result.case WriteMultipleCoilsRequest.select_convs
          if_P [OF True] option.case prod.inject) (auto simp: kvs_def comp_def)
    have "coil_state st' (?coil off) = vals ! off" if "off < length vals" for off
    proof -
      have "(CoilDescription.name (?coil off), CoilValue (vals ! off)) \<in> set kvs"
        using that by (auto simp: kvs_def)
      then have "CoilStore_get st' (CoilDescription.name (?coil off)) = Some (CoilValue (vals ! off))"
        unfolding st' using distinct by (intro coil_store.get_fold_distinct)
      then show ?thesis by (simp add: coil_state_def)
    qed
    then have "map (\<lambda>off. coil_state st' (?coil off)) [0..<length vals] = vals"
      by (intro nth_equalityI) simp_all
    then have "handle_read_coils read_pdu cs st' = (ReadCoilsResponse_encode \<lparr>ReadCoilsResponse.coil_values = vals\<rparr> :: (bytes, 'e) result)"
      by (simp only: unfold assms(5) request_round_trips result.case ReadCoilsRequest.select_convs
          offsets if_P [OF True] option.case)
    moreover have "coil_state st' c = coil_state st c"
      if c: "c \<in> set cs" "\<forall>off < length vals. coil_at cs (a + of_nat off) \<noteq> Some c" for c
    proof -
      have "CoilDescription.name c \<notin> fst ` set kvs"
      proof
        assume "CoilDescription.name c \<in> fst ` set kvs"
        then obtain off where off: "off < length vals" "CoilDescription.name c = CoilDescription.name (?coil off)"
          by (auto simp: kvs_def)
        then have "c = ?coil off" using found c(1) by (intro inj_onD [OF inj off(2)]) simp_all
        with off c(2) True show False by (metis option.collapse)
      qed
      then show ?thesis
        unfolding st' coil_state_def by (simp add: coil_store.get_fold_untouched)
    qed
    ultimately show ?thesis
      using response by (simp only: if_P [OF True]) blast
  qed
qed

theorem coils_read_back_witness:
  "handle_read_coils (ReadCoilsRequest_encode
       \<lparr>ReadCoilsRequest.starting_address = 4, quantity = of_nat (length [True, False])\<rparr>)
     [\<lparr>CoilDescription.name = ''pump'', address = 4\<rparr>, \<lparr>CoilDescription.name = ''fan'', address = 5\<rparr>]
     (snd (handle_write_multiple_coils [15, 0, 4, 0, 2, 1, 1]
        [\<lparr>CoilDescription.name = ''pump'', address = 4\<rparr>, \<lparr>CoilDescription.name = ''fan'', address = 5\<rparr>]
        CoilStore_new :: (bytes, unit) result \<times> CoilStore))
   = (ReadCoilsResponse_encode \<lparr>ReadCoilsResponse.coil_values = [True, False]\<rparr> :: (bytes, unit) result)"
proof -
  let ?cs = "[\<lparr>CoilDescription.name = ''pump'', address = 4\<rparr>, \<lparr>CoilDescription.name = ''fan'', address = 5\<rparr>]"
  obtain r st' where h: "handle_write_multiple_coils [15, 0, 4, 0, 2, 1, 1] ?cs CoilStore_new
      = (r :: (bytes, unit) result, st')" by fastforce
  have decode: "WriteMultipleCoilsRequest_decode [15, 0, 4, 0, 2, 1, 1]
      = Ok \<lparr>WriteMultipleCoilsRequest.starting_address = 4, coil_values = [True, False]\<rparr>"
    by code_simp
  have dist: "distinct (map CoilDescription.name ?cs)" and lt: "length [True, False] < 65536"
    by simp_all
  have all: "\<forall>off < length [True, False]. coil_at ?cs (4 + of_nat off) \<noteq> None"
    by (simp add: less_Suc_eq numeral_2_eq_2)
  note fact = coils_read_back [OF dist lt decode h refl, unfolded if_P [OF all]]
  show ?thesis using conjunct1 [OF conjunct2 [OF fact]] by (simp only: h snd_conv)
qed

end
