(* ===== verification/Server_Machine.thy ===== *)
theory Server_Machine
  imports Handler_Coils
begin

text \<open>
  What one request can do to the server: every handler answers, whatever the bytes of the
  request, and every store it changes is changed only at described points, with values of
  the described type.
\<close>

section \<open>What a request may change\<close>

text \<open>
  Every handler that writes resolves the whole request against the descriptions first and
  then sets the stored values of described points. These three relations say so for the
  three stores a request can write.
\<close>

definition register_writes :: "RegisterDescription list \<Rightarrow> (RegisterDescription \<times> RegisterValue) list \<Rightarrow> bool" where
  "register_writes rs res \<longleftrightarrow>
     (\<forall>(r, v) \<in> set res. r \<in> set rs \<and> RegisterDescription.access r = ReadWrite
        \<and> data_type_of v = RegisterDescription.data_type r)"

definition register_update :: "RegisterDescription list \<Rightarrow> RegisterStore \<Rightarrow> RegisterStore \<Rightarrow> bool" where
  "register_update rs st st' \<longleftrightarrow> (\<exists>res. register_writes rs res \<and> st' = apply_register_writes res st)"

definition coil_update :: "CoilDescription list \<Rightarrow> CoilStore \<Rightarrow> CoilStore \<Rightarrow> bool" where
  "coil_update cs st st' \<longleftrightarrow> (\<exists>res. fst ` set res \<subseteq> set cs \<and> st' = apply_coil_writes res st)"

definition file_update :: "FileRecordDescription list \<Rightarrow> FileRecordStore \<Rightarrow> FileRecordStore \<Rightarrow> bool" where
  "file_update ds st st' \<longleftrightarrow> (\<exists>srs. check_file_writes ds srs = Ok () \<and> st' = apply_file_writes srs st)"

lemma update_refl [simp]:
  "register_update rs st st" "coil_update cs cst cst" "file_update ds fs fs"
proof -
  show "register_update rs st st"
    unfolding register_update_def
    by (intro exI [of _ "[]"]) (simp add: register_writes_def apply_register_writes_def)
  show "coil_update cs cst cst"
    unfolding coil_update_def by (intro exI [of _ "[]"]) (simp add: apply_coil_writes_def)
  show "file_update ds fs fs"
    unfolding file_update_def by (intro exI [of _ "[]"]) (simp add: apply_file_writes_def)
qed

lemma register_update_set:
  assumes "r \<in> set rs" "RegisterDescription.access r = ReadWrite" "data_type_of v = RegisterDescription.data_type r"
  shows "register_update rs st (RegisterStore_set (RegisterDescription.name r) v st)"
  unfolding register_update_def using assms
  by (intro exI [of _ "[(r, v)]"]) (simp add: register_writes_def apply_register_writes_def)

text \<open>A handler answers when it returns a PDU, whatever the request.\<close>

abbreviation answers :: "('a, 'e) result \<Rightarrow> bool" where
  "answers r \<equiv> \<exists>x. r = Ok x"

section \<open>The register handlers\<close>

lemma answers_exception [simp]: "answers (Ok x)" by simp

lemma handle_read_answers: "answers (handle_read pdu rs st layout)"
  using pdu_decoders_not_Panic [of pdu]
  by (auto simp: handle_read_def split: result.splits option.splits)

lemma handle_read_input_registers_answers: "answers (handle_read_input_registers pdu rs st layout)"
  using pdu_decoders_not_Panic [of pdu]
  by (auto simp: handle_read_input_registers_def split: result.splits option.splits)

lemma expect_some_from_words:
  assumes "length ws = unat (register_count dt)"
  obtains v where "expect_some (register_value_from_words dt ws layout) = (Ok v :: (RegisterValue, 'e) result)"
    "data_type_of v = dt"
proof -
  obtain v where "register_value_from_words dt ws layout = (Ok (Some v) :: (RegisterValue option, 'e) result)"
    "data_type_of v = dt"
    using from_words_wire_view [OF assms] by blast
  then show thesis by (intro that [of v]) simp_all
qed

lemma find_single_word_register_facts:
  "find_single_word_read_write_register rs a = Some r \<Longrightarrow>
     r \<in> set rs \<and> RegisterDescription.access r = ReadWrite
       \<and> unat (register_count (RegisterDescription.data_type r)) = 1"
  by (auto simp: find_single_word_read_write_register_def dest: find_Some_set)

lemma handle_write_single_effect:
  fixes r :: "(bytes, 'e) result"
  assumes "handle_write_single pdu rs layout st = (r, st')"
  shows "answers r \<and> register_update rs st st'"
proof (cases "WriteSingleRegisterRequest_decode pdu")
  case (Ok request)
  show ?thesis
  proof (cases "find_single_word_read_write_register rs (WriteSingleRegisterRequest.register_address request)")
    case None with Ok assms show ?thesis by (auto simp: handle_write_single_def)
  next
    case (Some d)
    note d = find_single_word_register_facts [OF Some]
    then obtain v where "expect_some (register_value_from_words (RegisterDescription.data_type d)
        [WriteSingleRegisterRequest.register_value request] layout) = (Ok v :: (RegisterValue, 'e) result)"
      "data_type_of v = RegisterDescription.data_type d"
      using expect_some_from_words [where ?'e = 'e, of "[WriteSingleRegisterRequest.register_value request]"]
      by (metis One_nat_def length_Cons list.size(3))
    with Ok Some assms d show ?thesis
      by (auto simp: handle_write_single_def intro!: register_update_set)
  qed
qed (use assms pdu_decoders_not_Panic in \<open>auto simp: handle_write_single_def\<close>)


lemma handle_mask_write_register_effect:
  fixes r :: "(bytes, 'e) result"
  assumes "handle_mask_write_register pdu rs layout st = (r, st')"
  shows "answers r \<and> register_update rs st st'"
proof (cases "MaskWriteRegisterRequest_decode pdu")
  case (Ok request)
  show ?thesis
  proof (cases "find_single_word_read_write_register rs (MaskWriteRegisterRequest.reference_address request)")
    case None with Ok assms show ?thesis by (auto simp: handle_mask_write_register_def)
  next
    case (Some d)
    note d = find_single_word_register_facts [OF Some]
    let ?ws = "register_value_to_words (current_value (RegisterStore_get st) (RegisterDescription.name d)
        (RegisterDescription.data_type d)) layout"
    have "length ?ws = 1" using d by simp
    then obtain w where w: "?ws = [w]" by (metis One_nat_def length_0_conv length_Suc_conv)
    define w' where "w' = (w AND MaskWriteRegisterRequest.and_mask request)
        OR (MaskWriteRegisterRequest.or_mask request AND NOT (MaskWriteRegisterRequest.and_mask request))"
    obtain v where "expect_some (register_value_from_words (RegisterDescription.data_type d) [w'] layout)
          = (Ok v :: (RegisterValue, 'e) result)"
      "data_type_of v = RegisterDescription.data_type d"
      using expect_some_from_words [where ?'e = 'e, of "[w']"] d by (metis One_nat_def length_Cons list.size(3))
    with Ok Some assms d w show ?thesis
      by (auto simp: handle_mask_write_register_def Let_def w'_def intro!: register_update_set)
  qed
qed (use assms pdu_decoders_not_Panic in \<open>auto simp: handle_mask_write_register_def\<close>)

lemma resolve_writes_typed:
  "register_writes rs acc \<Longrightarrow>
     (\<exists>res. resolve_writes rs vals layout a e off acc = Ok res \<and> register_writes rs res)
     \<or> resolve_writes rs vals layout a e off acc = Err ()"
proof (induction rs vals layout a e off acc rule: resolve_writes.induct)
  case (1 rs vals layout a e off acc)
  let ?P = "\<lambda>r. RegisterDescription.address r = a \<and> RegisterDescription.access r = ReadWrite"
  show ?case
  proof (cases "a = e \<or> List.find ?P rs = None
      \<or> (\<exists>r. List.find ?P rs = Some r \<and> length vals < off + unat (register_count (RegisterDescription.data_type r)))")
    case True
    then have "resolve_writes rs vals layout a e off acc = (if a = e then Ok acc else Err ())"
      by (subst resolve_writes.simps) (auto simp: Let_def split: option.splits)
    with "1.prems" show ?thesis by simp
  next
    case False
    then obtain r where r: "List.find ?P rs = Some r" and ne: "a \<noteq> e"
      and le: "\<not> length vals < off + unat (register_count (RegisterDescription.data_type r))" by auto
    let ?n = "unat (register_count (RegisterDescription.data_type r))"
    let ?ws = "take ?n (drop off vals)"
    have slice: "slice vals off (off + ?n) = (Ok ?ws :: (u16 list, unit) result)" using le by simp
    obtain v where v: "expect_some (register_value_from_words (RegisterDescription.data_type r) ?ws layout)
        = (Ok v :: (RegisterValue, unit) result)" "data_type_of v = RegisterDescription.data_type r"
      using expect_some_from_words [where ?'e = unit, of ?ws "RegisterDescription.data_type r" layout] le by auto
    have "register_writes rs (acc @ [(r, v)])"
      using "1.prems" find_Some_set [OF r] v(2) by (auto simp: register_writes_def)
    note IH = "1.IH" [OF ne r refl le slice v(1) this]
    have "resolve_writes rs vals layout a e off acc
        = resolve_writes rs vals layout (a + register_count (RegisterDescription.data_type r)) e (off + ?n) (acc @ [(r, v)])"
      using ne r le slice v(1) by (subst resolve_writes.simps) (simp add: Let_def)
    with IH show ?thesis by simp
  qed
qed

lemma resolve_register_writes_typed:
  "(\<exists>res. resolve_register_writes rs a vals layout = Ok res \<and> register_writes rs res)
     \<or> resolve_register_writes rs a vals layout = Err ()"
  unfolding resolve_register_writes_def
  by (rule resolve_writes_typed) (simp add: register_writes_def)

lemma handle_write_multiple_registers_effect:
  fixes r :: "(bytes, 'e) result"
  assumes "handle_write_multiple_registers pdu rs layout st = (r, st')"
  shows "answers r \<and> register_update rs st st'"
proof (cases "WriteMultipleRegistersRequest_decode pdu")
  case (Ok request)
  with resolve_register_writes_typed [of rs "WriteMultipleRegistersRequest.starting_address request"
      "WriteMultipleRegistersRequest.register_values request" layout] assms
  show ?thesis
    by (auto simp: handle_write_multiple_registers_def register_update_def intro: update_refl(1)[unfolded register_update_def])
qed (use assms decoder_totality in \<open>auto simp: handle_write_multiple_registers_def\<close>)

lemma handle_read_write_multiple_registers_effect:
  fixes r :: "(bytes, 'e) result"
  assumes "handle_read_write_multiple_registers pdu rs layout st = (r, st')"
  shows "answers r \<and> register_update rs st st'"
proof (cases "ReadWriteMultipleRegistersRequest_decode pdu")
  case (Ok request)
  with resolve_register_writes_typed [of rs "ReadWriteMultipleRegistersRequest.write_starting_address request"
      "ReadWriteMultipleRegistersRequest.write_values request" layout] assms
  show ?thesis
    by (auto simp: handle_read_write_multiple_registers_def register_update_def Let_def split: option.splits
        intro: update_refl(1)[unfolded register_update_def])
qed (use assms decoder_totality in \<open>auto simp: handle_read_write_multiple_registers_def\<close>)

section \<open>The bit and file handlers\<close>

lemma handle_read_coils_answers: "answers (handle_read_coils pdu cs st)"
  using pdu_decoders_not_Panic [of pdu]
  by (auto simp: handle_read_coils_def ReadCoilsResponse_encode_def encode_bitfield_response_eq
      split: result.splits option.splits)

lemma handle_read_discrete_inputs_answers: "answers (handle_read_discrete_inputs pdu ds st)"
  using pdu_decoders_not_Panic [of pdu]
  by (auto simp: handle_read_discrete_inputs_def ReadDiscreteInputsResponse_encode_def
      encode_bitfield_response_eq split: result.splits option.splits)

lemma handle_report_server_id_answers: "answers (handle_report_server_id pdu sid)"
  using decoder_totality
  by (auto simp: handle_report_server_id_def split: result.splits option.splits)

lemma handle_write_single_coil_effect:
  fixes r :: "(bytes, 'e) result"
  assumes "handle_write_single_coil pdu cs st = (r, st')"
  shows "answers r \<and> coil_update cs st st'"
proof (cases "WriteSingleCoilRequest_decode pdu")
  case (Ok request)
  have "coil_update cs st (CoilStore_set (CoilDescription.name c) (CoilValue v) st)" if "c \<in> set cs" for c v
    unfolding coil_update_def using that
    by (intro exI [of _ "[(c, v)]"]) (simp add: apply_coil_writes_def)
  with Ok assms show ?thesis
    by (auto simp: handle_write_single_coil_def split: option.splits dest: find_Some_set)
qed (use assms pdu_decoders_not_Panic in \<open>auto simp: handle_write_single_coil_def\<close>)

lemma resolve_coil_writes_subset:
  "resolve_coil_writes cs start ps = Some res \<Longrightarrow> fst ` set res \<subseteq> set cs"
  by (induction cs start ps arbitrary: res rule: resolve_coil_writes.induct)
     (force split: option.splits dest: find_Some_set)+

lemma handle_write_multiple_coils_effect:
  fixes r :: "(bytes, 'e) result"
  assumes "handle_write_multiple_coils pdu cs st = (r, st')"
  shows "answers r \<and> coil_update cs st st'"
proof (cases "WriteMultipleCoilsRequest_decode pdu")
  case (Ok request)
  with assms show ?thesis
    by (auto simp: handle_write_multiple_coils_def coil_update_def split: option.splits
        dest: resolve_coil_writes_subset intro: update_refl(2)[unfolded coil_update_def])
qed (use assms decoder_totality in \<open>auto simp: handle_write_multiple_coils_def\<close>)

lemma resolve_file_reads_not_Panic: "resolve_file_reads ds srs \<noteq> Panic"
  by (induction srs) (auto simp: and_then_eq_Panic_iff split: option.splits)

lemma handle_read_file_record_answers: "answers (handle_read_file_record pdu ds st)"
  using decoder_totality resolve_file_reads_not_Panic
  by (auto simp: handle_read_file_record_def Let_def split: result.splits)

lemma check_file_writes_not_Panic: "check_file_writes ds srs \<noteq> Panic"
  by (induction srs) (auto split: option.splits)

lemma check_file_writes_iff:
  "check_file_writes ds srs = Ok () \<longleftrightarrow>
     (\<forall>sr \<in> set srs. \<exists>d. find_file_record ds (WriteFileRecordSubRequest.file_number sr)
          (WriteFileRecordSubRequest.record_number sr) = Some d
        \<and> length (WriteFileRecordSubRequest.record_data sr) = unat (FileRecordDescription.record_length d) * 2)"
  by (induction srs) (auto split: option.splits)

lemma write_file_record_echo:
  assumes "check_file_writes ds srs = Ok ()"
  shows "answers (expect (WriteFileRecordResponse_encode \<lparr>WriteFileRecordResponse.sub_requests = srs\<rparr>))"
proof -
  have "check_even_record_data srs = Ok ()"
    using assms by (auto simp: check_even_record_data_iff check_file_writes_iff)
  then show ?thesis
    by (simp add: WriteFileRecordResponse_encode_def encode_write_file_record_def Let_def)
qed

lemma handle_write_file_record_effect:
  fixes r :: "(bytes, 'e) result"
  assumes "handle_write_file_record pdu ds st = (r, st')"
  shows "answers r \<and> file_update ds st st'"
proof (cases "WriteFileRecordRequest_decode pdu")
  case (Ok request)
  show ?thesis
  proof (cases "check_file_writes ds (WriteFileRecordRequest.sub_requests request)")
    case checked: (Ok u)
    with write_file_record_echo [where ?'a = 'e, of ds "WriteFileRecordRequest.sub_requests request"]
    have "answers (expect (WriteFileRecordResponse_encode
        \<lparr>WriteFileRecordResponse.sub_requests = WriteFileRecordRequest.sub_requests request\<rparr>) :: (bytes, 'e) result)"
      by simp
    with Ok checked assms show ?thesis
      by (auto simp: handle_write_file_record_def file_update_def)
  qed (use Ok assms check_file_writes_not_Panic in \<open>auto simp: handle_write_file_record_def\<close>)
qed (use assms pdu_decoders_not_Panic in \<open>auto simp: handle_write_file_record_def\<close>)

section \<open>The device description\<close>

lemma build_objects_not_Panic: "build_objects src \<noteq> Panic"
  by (simp add: build_objects_eq)

lemma handle_encapsulated_interface_transport_answers:
  "answers (handle_encapsulated_interface_transport pdu src detect bulk)"
  using decoder_totality build_objects_not_Panic
  by (auto simp: handle_encapsulated_interface_transport_def split: result.splits)

lemma bulk_records_not_Panic: "bulk_records compressed srs \<noteq> Panic"
  by (induction srs)
     (auto simp: and_then_eq_Panic_iff bulk_transfer_chunk_range_def Let_def split: option.splits if_splits)

lemma handle_bulk_transfer_answers: "answers (handle_read_device_description_bulk_transfer request compressed)"
  using bulk_records_not_Panic
  by (auto simp: handle_read_device_description_bulk_transfer_def Let_def split: result.splits)

section \<open>One request on one machine\<close>

text \<open>
  The descriptions, the layouts and the two input stores are fixed for a request, whatever
  it is: only the register, coil and file stores may be updated.
\<close>

definition same_layout :: "ServerMachineState \<Rightarrow> ServerMachineState \<Rightarrow> bool" where
  "same_layout m m' \<longleftrightarrow>
     ServerMachineState.registers m' = ServerMachineState.registers m
     \<and> ServerMachineState.coils m' = ServerMachineState.coils m
     \<and> ServerMachineState.discrete_inputs m' = ServerMachineState.discrete_inputs m
     \<and> ServerMachineState.input_registers m' = ServerMachineState.input_registers m
     \<and> ServerMachineState.file_records m' = ServerMachineState.file_records m
     \<and> ServerMachineState.mem_layout m' = ServerMachineState.mem_layout m
     \<and> ServerMachineState.input_register_mem_layout m' = ServerMachineState.input_register_mem_layout m
     \<and> ServerMachineState.server_id m' = ServerMachineState.server_id m
     \<and> discrete_input_store m' = discrete_input_store m
     \<and> input_register_store m' = input_register_store m"

definition machine_update :: "ServerMachineState \<Rightarrow> ServerMachineState \<Rightarrow> bool" where
  "machine_update m m' \<longleftrightarrow>
     same_layout m m'
     \<and> register_update (ServerMachineState.registers m) (store m) (store m')
     \<and> coil_update (ServerMachineState.coils m) (coil_store m) (coil_store m')
     \<and> file_update (ServerMachineState.file_records m) (file_record_store m) (file_record_store m')"

lemma machine_update_refl [simp]: "machine_update m m"
  by (simp add: machine_update_def same_layout_def)

lemma machine_update_stores:
  "register_update (ServerMachineState.registers m) (store m) rst \<Longrightarrow> machine_update m (m\<lparr>store := rst\<rparr>)"
  "coil_update (ServerMachineState.coils m) (coil_store m) cst \<Longrightarrow> machine_update m (m\<lparr>coil_store := cst\<rparr>)"
  "file_update (ServerMachineState.file_records m) (file_record_store m) frs \<Longrightarrow>
     machine_update m (m\<lparr>file_record_store := frs\<rparr>)"
  by (simp_all add: machine_update_def same_layout_def)

lemma handle_machine_request_effect:
  fixes r :: "(bytes, 'e) result"
  assumes "handle_machine_request fc pdu m = (r, m')"
  shows "answers r \<and> machine_update m m'"
proof -
  note effects = handle_write_single_effect handle_mask_write_register_effect
    handle_write_multiple_registers_effect handle_read_write_multiple_registers_effect
    handle_write_single_coil_effect handle_write_multiple_coils_effect handle_write_file_record_effect
  show ?thesis
    using assms
    by (auto simp: handle_machine_request_def Let_def machine_update_stores handle_read_answers
        handle_read_input_registers_answers handle_read_coils_answers handle_read_discrete_inputs_answers
        handle_report_server_id_answers handle_read_file_record_answers
        split: if_splits prod.splits dest!: effects)
qed

section \<open>The server\<close>

lemma bulk_transfer_request_answers: "answers (bulk_transfer_request fc opts pdu)"
  using decoder_totality by (auto simp: bulk_transfer_request_def split: result.splits)

lemma handle_request_effect:
  fixes r :: "(bytes option, 'e) result"
  assumes "handle_request opts src bulk uid pdu ms = (r, ms')"
  shows "answers r"
    and "ms' = ms \<or> (\<exists>m m'. ms uid = Some m \<and> machine_update m m' \<and> ms' = ms(uid \<mapsto> m'))"
proof -
  have map_ok: "answers (map_ok f x)" if "answers x" for f :: "bytes \<Rightarrow> bytes option" and x :: "(bytes, 'e) result"
    using that by auto
  obtain b where "bulk_transfer_request (hd pdu) opts pdu = (Ok b :: (ReadFileRecordRequest option, 'e) result)"
    using bulk_transfer_request_answers by blast
  then have "answers r \<and> (ms' = ms \<or> (\<exists>m m'. ms uid = Some m \<and> machine_update m m' \<and> ms' = ms(uid \<mapsto> m')))"
    using assms
    by (auto simp: handle_request_def map_ok handle_encapsulated_interface_transport_answers
        handle_bulk_transfer_answers split: list.splits if_splits option.splits prod.splits
        dest!: handle_machine_request_effect)
  then show "answers r"
    and "ms' = ms \<or> (\<exists>m m'. ms uid = Some m \<and> machine_update m m' \<and> ms' = ms(uid \<mapsto> m'))"
    by blast+
qed

end
