(* ===== verification/Server.thy ===== *)
theory Server
  imports Server_Machine Transport
begin

text \<open>
  The running server: the invariant of its machines under any interleaving of requests, who
  is answered, and the two connection loops of \<open>server/src/connection.rs\<close> composed from the
  transport and the request handler.
\<close>

section \<open>Invariants\<close>

text \<open>The type invariant of the stores.\<close>

definition stores_typed :: "ServerMachineState \<Rightarrow> bool" where
  "stores_typed m \<longleftrightarrow>
     (\<forall>r \<in> set (ServerMachineState.registers m). \<forall>v.
        RegisterStore_get (store m) (RegisterDescription.name r) = Some v \<longrightarrow>
        data_type_of v = RegisterDescription.data_type r)
     \<and> (\<forall>d \<in> set (ServerMachineState.file_records m). \<forall>bs.
        FileRecordStore_get (file_record_store m)
          (FileRecordDescription.file_number d, FileRecordDescription.record_number d) = Some bs \<longrightarrow>
        length bs = 2 * unat (FileRecordDescription.record_length d))"

definition well_described :: "ServerMachineState \<Rightarrow> bool" where
  "well_described m \<longleftrightarrow>
     distinct (map RegisterDescription.name (ServerMachineState.registers m))
     \<and> distinct (map (\<lambda>d. (FileRecordDescription.file_number d, FileRecordDescription.record_number d))
          (ServerMachineState.file_records m))"

definition read_only_unchanged :: "ServerMachineState \<Rightarrow> ServerMachineState \<Rightarrow> bool" where
  "read_only_unchanged m m' \<longleftrightarrow>
     (\<forall>r \<in> set (ServerMachineState.registers m). RegisterDescription.access r \<noteq> ReadWrite \<longrightarrow>
        RegisterStore_get (store m') (RegisterDescription.name r)
          = RegisterStore_get (store m) (RegisterDescription.name r))"

lemma inj_on_distinct_map: "distinct (map f xs) \<Longrightarrow> x \<in> set xs \<Longrightarrow> y \<in> set xs \<Longrightarrow> f x = f y \<Longrightarrow> x = y"
  by (simp add: distinct_map inj_on_def)

lemma register_update_value:
  assumes "register_update rs st st'" and "distinct (map RegisterDescription.name rs)" and "r \<in> set rs"
  shows "RegisterStore_get st' (RegisterDescription.name r) = RegisterStore_get st (RegisterDescription.name r)
     \<or> RegisterDescription.access r = ReadWrite
       \<and> (\<exists>v. RegisterStore_get st' (RegisterDescription.name r) = Some v
            \<and> data_type_of v = RegisterDescription.data_type r)"
proof -
  obtain res where res: "register_writes rs res" and st': "st' = apply_register_writes res st"
    using assms(1) by (auto simp: register_update_def)
  let ?kvs = "map (\<lambda>(r, v). (RegisterDescription.name r, v)) res"
  have get: "RegisterStore_get st' (RegisterDescription.name r)
      = (case map_of (rev ?kvs) (RegisterDescription.name r) of
           None \<Rightarrow> RegisterStore_get st (RegisterDescription.name r) | Some v \<Rightarrow> Some v)"
    unfolding st' apply_register_writes_def by (rule register_store.get_fold)
  show ?thesis
  proof (cases "map_of (rev ?kvs) (RegisterDescription.name r)")
    case None with get show ?thesis by simp
  next
    case (Some v)
    then have "(RegisterDescription.name r, v) \<in> set ?kvs" by (auto dest!: map_of_SomeD)
    then obtain r' where r': "(r', v) \<in> set res" "RegisterDescription.name r' = RegisterDescription.name r" by auto
    with res have "r' \<in> set rs" "RegisterDescription.access r' = ReadWrite"
      "data_type_of v = RegisterDescription.data_type r'"
      by (auto simp: register_writes_def)
    moreover have "r' = r" using inj_on_distinct_map [OF assms(2)] calculation(1) assms(3) r'(2) by blast
    ultimately show ?thesis using get Some by simp
  qed
qed

lemma file_update_length:
  assumes "file_update ds st st'"
    and "distinct (map (\<lambda>d. (FileRecordDescription.file_number d, FileRecordDescription.record_number d)) ds)"
    and "d \<in> set ds"
    and "FileRecordStore_get st' (FileRecordDescription.file_number d, FileRecordDescription.record_number d) = Some bs"
  shows "FileRecordStore_get st (FileRecordDescription.file_number d, FileRecordDescription.record_number d) = Some bs
     \<or> length bs = 2 * unat (FileRecordDescription.record_length d)"
proof -
  obtain srs where srs: "check_file_writes ds srs = Ok ()" and st': "st' = apply_file_writes srs st"
    using assms(1) by (auto simp: file_update_def)
  let ?key = "(FileRecordDescription.file_number d, FileRecordDescription.record_number d)"
  let ?kvs = "map (\<lambda>sr. ((WriteFileRecordSubRequest.file_number sr, WriteFileRecordSubRequest.record_number sr),
                  WriteFileRecordSubRequest.record_data sr)) srs"
  have get: "FileRecordStore_get st' ?key
      = (case map_of (rev ?kvs) ?key of None \<Rightarrow> FileRecordStore_get st ?key | Some v \<Rightarrow> Some v)"
    unfolding st' apply_file_writes_def by (rule file_record_store.get_fold)
  show ?thesis
  proof (cases "map_of (rev ?kvs) ?key")
    case None with get assms(4) show ?thesis by simp
  next
    case (Some v)
    then have "(?key, v) \<in> set ?kvs" by (auto dest!: map_of_SomeD)
    then obtain sr where sr: "sr \<in> set srs" "WriteFileRecordSubRequest.file_number sr = FileRecordDescription.file_number d"
      "WriteFileRecordSubRequest.record_number sr = FileRecordDescription.record_number d"
      "WriteFileRecordSubRequest.record_data sr = v" by auto
    then obtain d' where d': "find_file_record ds (FileRecordDescription.file_number d)
        (FileRecordDescription.record_number d) = Some d'"
      "length v = unat (FileRecordDescription.record_length d') * 2"
      using srs unfolding check_file_writes_iff by force
    then have "d' \<in> set ds" "(FileRecordDescription.file_number d', FileRecordDescription.record_number d') = ?key"
      by (auto simp: find_file_record_def dest: find_Some_set)
    then have "d' = d" using inj_on_distinct_map [OF assms(2)] assms(3) by blast
    with d' get Some assms(4) show ?thesis by simp
  qed
qed

lemma machine_update_invariant:
  assumes "machine_update m m'" and "well_described m"
  shows "same_layout m m' \<and> read_only_unchanged m m' \<and> well_described m' \<and> (stores_typed m \<longrightarrow> stores_typed m')"
proof -
  have layout: "same_layout m m'" using assms(1) by (simp add: machine_update_def)
  have regs: "register_update (ServerMachineState.registers m) (store m) (store m')"
    and files: "file_update (ServerMachineState.file_records m) (file_record_store m) (file_record_store m')"
    using assms(1) by (simp_all add: machine_update_def)
  have "read_only_unchanged m m'"
    using register_update_value [OF regs] assms(2) by (auto simp: read_only_unchanged_def well_described_def)
  moreover have "stores_typed m'" if "stores_typed m"
    unfolding stores_typed_def
  proof (intro conjI ballI allI impI)
    fix r v
    assume "r \<in> set (ServerMachineState.registers m')"
      and v: "RegisterStore_get (store m') (RegisterDescription.name r) = Some v"
    then have r: "r \<in> set (ServerMachineState.registers m)" using layout by (simp add: same_layout_def)
    have "distinct (map RegisterDescription.name (ServerMachineState.registers m))"
      using assms(2) by (simp add: well_described_def)
    from register_update_value [OF regs this r] v that r
    show "data_type_of v = RegisterDescription.data_type r"
      by (auto simp: stores_typed_def)
  next
    fix d bs
    assume "d \<in> set (ServerMachineState.file_records m')"
      and bs: "FileRecordStore_get (file_record_store m')
        (FileRecordDescription.file_number d, FileRecordDescription.record_number d) = Some bs"
    then have d: "d \<in> set (ServerMachineState.file_records m)" using layout by (simp add: same_layout_def)
    have "distinct (map (\<lambda>d. (FileRecordDescription.file_number d, FileRecordDescription.record_number d))
        (ServerMachineState.file_records m))"
      using assms(2) by (simp add: well_described_def)
    from file_update_length [OF files this d bs] that d
    show "length bs = 2 * unat (FileRecordDescription.record_length d)"
      by (auto simp: stores_typed_def)
  qed
  ultimately show ?thesis
    using layout assms(2) by (simp add: well_described_def same_layout_def)
qed

section \<open>Reachable states\<close>

text \<open>
  The states of a running server: any requests to any units, in any order, on any number of
  connections. Every connection calls \<open>handle_request\<close> on the shared machines, and a call is
  one step on them.
\<close>

inductive served ::
    "ServerOptions \<Rightarrow> string \<Rightarrow> Fc43BulkTransfer \<Rightarrow> machines \<Rightarrow> machines \<Rightarrow> bool"
  for opts src bulk ms where
  start: "served opts src bulk ms ms"
| request: "served opts src bulk ms ms' \<Longrightarrow>
     handle_request opts src bulk uid req ms' = ((reply :: (bytes option, io_error) result), ms'') \<Longrightarrow>
     served opts src bulk ms ms''"


lemma handle_request_invariant:
  fixes r :: "(bytes option, 'e) result"
  assumes "handle_request opts src bulk uid' req ms = (r, ms')" and "ms uid = Some m" and "well_described m"
  obtains m' where "ms' uid = Some m'" "same_layout m m'" "read_only_unchanged m m'" "well_described m'"
    "stores_typed m \<Longrightarrow> stores_typed m'"
proof -
  have "\<exists>m'. ms' uid = Some m' \<and> machine_update m m'"
    using handle_request_effect(2) [OF assms(1)] assms(2) by auto
  then show thesis using that machine_update_invariant assms(3) by blast
qed

text \<open>
  C1: The server keeps its invariant. Whatever requests arrive, from whom and in which order,
  a machine keeps its descriptions, layouts and input stores, a register that is not declared
  read-write keeps its value, every stored register value has the declared type and every
  stored file record the declared length. Names of registers and keys of file records must
  be distinct in the machine's description.
\<close>

theorem served_machines_keep_invariant:
  assumes "served opts src bulk ms ms'" and "ms uid = Some m" and "well_described m" and "stores_typed m"
  shows "\<exists>m'. ms' uid = Some m' \<and> same_layout m m' \<and> read_only_unchanged m m' \<and> stores_typed m'"
proof -
  from assms(1) have "\<exists>m'. ms' uid = Some m' \<and> same_layout m m' \<and> read_only_unchanged m m'
      \<and> well_described m' \<and> stores_typed m'"
  proof induction
    case start
    with assms(2-) show ?case by (simp add: same_layout_def read_only_unchanged_def)
  next
    case (request ms' uid' req reply ms'')
    then obtain m' where m': "ms' uid = Some m'" "same_layout m m'" "read_only_unchanged m m'"
      "well_described m'" "stores_typed m'" by blast
    obtain m'' where "ms'' uid = Some m''" "same_layout m' m''" "read_only_unchanged m' m''"
      "well_described m''" "stores_typed m''"
      using handle_request_invariant [OF request.hyps(2) m'(1,4)] m'(5) by metis
    moreover from this m' have "same_layout m m''" "read_only_unchanged m m''"
      by (simp_all add: same_layout_def read_only_unchanged_def)
    ultimately show ?case by blast
  qed
  then show ?thesis by blast
qed

definition sample_machine :: ServerMachineState where
  "sample_machine =
     \<lparr>ServerMachineState.registers =
        [\<lparr>RegisterDescription.name = ''level'', address = 0, data_type = U16, access = ReadWrite, unit = None\<rparr>,
         \<lparr>RegisterDescription.name = ''serial'', address = 1, data_type = U16, access = ReadOnly, unit = None\<rparr>],
      store = RegisterStore_new, coils = [], coil_store = CoilStore_new,
      discrete_inputs = [], discrete_input_store = DiscreteInputStore_new,
      input_registers = [], input_register_store = InputRegisterStore_new,
      file_records = [], file_record_store = FileRecordStore_new,
      mem_layout = Abcd, input_register_mem_layout = Abcd, server_id = None\<rparr>"

lemma sample_machine_ok: "well_described sample_machine" "stores_typed sample_machine"
  by (simp_all add: sample_machine_def well_described_def stores_typed_def register_store.get_new)

abbreviation no_bulk :: Fc43BulkTransfer where
  "no_bulk \<equiv> \<lparr>compressed_toml = [], manifest_toml = []\<rparr>"

theorem served_machines_keep_invariant_witness:
  "\<exists>m'. snd (handle_request all_options [] no_bulk 1 [6, 0, 0, 0, 9] [1 \<mapsto> sample_machine]
            :: (bytes option, io_error) result \<times> machines) 1 = Some m'
     \<and> same_layout sample_machine m' \<and> read_only_unchanged sample_machine m' \<and> stores_typed m'"
proof -
  obtain r ms' where h: "handle_request all_options [] no_bulk 1 [6, 0, 0, 0, 9] [1 \<mapsto> sample_machine]
      = (r :: (bytes option, io_error) result, ms')" by fastforce
  have "served all_options [] no_bulk [1 \<mapsto> sample_machine] ms'"
    by (rule served.request [OF served.start h])
  from served_machines_keep_invariant [OF this, of 1 sample_machine] h sample_machine_ok
  show ?thesis by simp
qed

section \<open>Who is answered\<close>

definition names_reserved_file :: "bytes \<Rightarrow> bool" where
  "names_reserved_file req =
     (case ReadFileRecordRequest_decode req of
        Ok r \<Rightarrow> ReadFileRecordRequest.sub_requests r \<noteq> []
          \<and> list_all (\<lambda>sr. FileRecordSubRequest.file_number sr = 0xFFFF) (ReadFileRecordRequest.sub_requests r)
      | _ \<Rightarrow> False)"

text \<open>
  C2: Every request is answered, and none panics the server. There is no reply exactly when
  an enabled function code that needs a machine is sent to a unit that has none. A disabled
  function code gets the same exception as an unknown one; the answer then does not depend
  on the machines, and they do not change.
\<close>

theorem every_request_is_answered:
  "if req \<noteq> [] \<and> is_enabled opts (hd req)
   then \<exists>reply. fst (handle_request opts src bulk uid req ms :: (bytes option, 'e) result \<times> machines) = Ok reply
      \<and> (reply = None \<longleftrightarrow> ms uid = None \<and> hd req \<noteq> 43
           \<and> \<not> (hd req = 20 \<and> ServerOptions.detect_machine_layout opts \<and> names_reserved_file req))
   else handle_request opts src bulk uid req ms
          = (Ok (Some (exception (if req = [] then 0 else hd req) EXCEPTION_ILLEGAL_FUNCTION))
               :: (bytes option, 'e) result, ms)"
proof (cases "req \<noteq> [] \<and> is_enabled opts (hd req)")
  case False
  then show ?thesis by (cases req) (auto simp: handle_request_def)
next
  case True
  then obtain fc rest where req: "req = fc # rest" and enabled: "is_enabled opts fc" by (cases req) auto
  have bulk_iff: "bulk_transfer_request fc opts req
      = (Ok (if fc = 20 \<and> ServerOptions.detect_machine_layout opts \<and> names_reserved_file req
             then Some (case ReadFileRecordRequest_decode req of Ok x \<Rightarrow> x) else None)
           :: (ReadFileRecordRequest option, 'e) result)"
    using decoder_totality
    by (auto simp: bulk_transfer_request_def names_reserved_file_def list_all_iff split: result.splits)
  have some: "\<exists>x. map_ok Some r = Ok (Some x)" if "answers r" for r :: "(bytes, 'e) result"
    using that by auto
  show ?thesis
    using enabled True req bulk_iff
    some [OF handle_encapsulated_interface_transport_answers [of req src "ServerOptions.detect_machine_layout opts" bulk]]
    some [OF handle_bulk_transfer_answers [of "case ReadFileRecordRequest_decode req of Ok x \<Rightarrow> x" "compressed_toml bulk"]]
    by (auto simp: handle_request_def split: option.splits prod.splits dest!: handle_machine_request_effect)
qed

section \<open>Serving a connection\<close>

text \<open>
  \<open>serve_tcp_connection\<close> serves requests until one fails. Each one served takes bytes off the
  stream, so the loop ends.
\<close>

lemma read_exact_takes:
  "read_exact n s = (Ok bs, s') \<Longrightarrow> length (reads s') + n = length (reads s)"
  by (induction n arbitrary: s bs s')
     (auto simp: next_read_def split: list.splits read_event.splits prod.splits result.splits)

lemma read_adu_takes:
  assumes "read_adu s = (Ok a, s')"
  shows "length (reads s') < length (reads s)"
proof -
  obtain h s1 where h: "read_exact 7 s = (Ok h, s1)"
    using assms by (auto simp: read_adu_def split: prod.splits result.splits)
  then have "length (reads s1) < length (reads s)" using read_exact_takes by fastforce
  moreover have "length (reads s') \<le> length (reads s1)"
    using assms h
    by (auto simp: read_adu_def io_return_def split: prod.splits result.splits if_splits
        dest!: read_exact_takes)
  ultimately show ?thesis by simp
qed

lemma tcp_serve_request_takes:
  assumes "tcp_serve_request handler p = (Ok (), p')"
  shows "length (reads (fst p')) < length (reads (fst p))"
proof -
  obtain r s1 where r: "with_timeout read_adu (fst p) = (r, s1)" by fastforce
  with assms obtain a where a: "r = Ok a" 
    by (cases r) (auto simp: tcp_serve_request_def on_stream_def)
  then have "length (reads s1) < length (reads (fst p))"
    using r read_adu_takes by (auto simp: with_timeout_def split: prod.splits elim!: map_err.elims)
  moreover have "reads (fst p') = reads s1"
    using assms r a with_timeout_write_all_cases
    by (auto simp: tcp_serve_request_def on_stream_def run_handler_def io_return_def
        split: prod.splits result.splits option.splits)
  ultimately show ?thesis by simp
qed

function serve_tcp_connection :: "'h handler \<Rightarrow> stream \<times> 'h \<Rightarrow> stream \<times> 'h" where
  "serve_tcp_connection handler p =
     (case tcp_serve_request handler p of
        (Ok u, p') \<Rightarrow> serve_tcp_connection handler p'
      | (Err e, p') \<Rightarrow> p'
      | (Panic, p') \<Rightarrow> p')"
  by pat_completeness auto
termination
  by (relation "measure (\<lambda>(_, p). length (reads (fst p)))") (auto dest: tcp_serve_request_takes [OF sym])

declare serve_tcp_connection.simps [simp del]

text \<open>
  \<open>serve_rtu_connection\<close> never ends: a failed request is logged and the next one served. The
  model is the state after a given number of turns.
\<close>

fun serve_rtu_connection :: "nat \<Rightarrow> 'h handler \<Rightarrow> stream \<times> 'h \<Rightarrow> stream \<times> 'h" where
  "serve_rtu_connection 0 handler p = p"
| "serve_rtu_connection (Suc n) handler p =
     (case rtu_serve_request handler p of
        (Panic, p') \<Rightarrow> p'
      | (_, p') \<Rightarrow> serve_rtu_connection n handler p')"

text \<open>
  What a connection should do with the requests that arrive: answer each one in turn, under
  its own transaction and unit ID.
\<close>

fun respond :: "'h handler \<Rightarrow> TcpAdu list \<Rightarrow> 'h \<Rightarrow> bytes \<times> 'h" where
  "respond handler [] h = ([], h)"
| "respond handler (a # as) h =
     (let (r, h') = handler (TcpAdu.unit_id a) (TcpAdu.pdu a) h;
          (out, h'') = respond handler as h'
      in ((case r of Ok (Some reply) \<Rightarrow> TcpAdu_encode (a\<lparr>TcpAdu.pdu := reply\<rparr>) | _ \<Rightarrow> []) @ out, h''))"

abbreviation arrivals :: "TcpAdu list \<Rightarrow> read_event list" where
  "arrivals as \<equiv> concat (map (\<lambda>a. map Byte (TcpAdu_encode a)) as)"

lemma tcp_serve_request_arrived:
  assumes "length (TcpAdu.pdu a) \<le> 253" and "handler (TcpAdu.unit_id a) (TcpAdu.pdu a) h = (Ok answer, h')"
    and "reads s = map Byte (TcpAdu_encode a) @ es" and "writes s = replicate (Suc n) Accepted"
  obtains ws where "ws = n \<or> ws = Suc n" "tcp_serve_request handler (s, h)
      = (Ok (), (\<lparr>reads = es, writes = replicate ws Accepted,
           written = written s @ (case answer of Some reply \<Rightarrow> TcpAdu_encode (a\<lparr>TcpAdu.pdu := reply\<rparr>) | None \<Rightarrow> [])\<rparr>, h'))"
proof -
  have received: "receive_tcp s = (Ok a, s\<lparr>reads := es\<rparr>)"
    using assms(1,3) by (rule tcp.receive_arrived)
  show thesis
  proof (cases answer)
    case None
    with received assms show thesis
      by (intro that [of "Suc n"])
         (simp_all add: tcp_serve_request_eq on_stream_def run_handler_def io_return_def)
  next
    case (Some reply)
    with received assms show thesis
      by (intro that [of n])
         (simp_all add: tcp_serve_request_eq on_stream_def run_handler_def with_timeout_write_accepted)
  qed
qed

lemma serve_tcp_connection_eof:
  "reads s = [Eof] \<Longrightarrow> serve_tcp_connection handler (s, h) = (s, h)"
  by (subst serve_tcp_connection.simps)
     (simp add: tcp_serve_request_def on_stream_def with_timeout_def read_adu_def next_read_def eval_nat_numeral)

lemma serve_tcp_connection_respond:
  assumes "\<And>uid req h. answers (fst (handler uid req h))" and "\<forall>a \<in> set as. length (TcpAdu.pdu a) \<le> 253"
    and "length as \<le> n"
  shows "\<exists>ws. serve_tcp_connection handler
       (\<lparr>reads = arrivals as @ [Eof], writes = replicate n Accepted, written = out\<rparr>, h)
     = (\<lparr>reads = [Eof], writes = ws, written = out @ fst (respond handler as h)\<rparr>, snd (respond handler as h))"
  using assms(2-)
proof (induction as arbitrary: n out h)
  case Nil
  then show ?case by (simp add: serve_tcp_connection_eof)
next
  case (Cons a as)
  obtain answer h' where handler: "handler (TcpAdu.unit_id a) (TcpAdu.pdu a) h = (Ok answer, h')"
    using assms(1) [of "TcpAdu.unit_id a" "TcpAdu.pdu a" h] by (metis fst_conv surj_pair)
  obtain k where n: "n = Suc k" using Cons.prems(2) by (cases n) simp_all
  let ?s = "\<lparr>reads = arrivals (a # as) @ [Eof], writes = replicate n Accepted, written = out\<rparr>"
  let ?out = "out @ (case answer of Some reply \<Rightarrow> TcpAdu_encode (a\<lparr>TcpAdu.pdu := reply\<rparr>) | None \<Rightarrow> [])"
  obtain ws where ws: "ws = k \<or> ws = Suc k" and step: "tcp_serve_request handler (?s, h)
      = (Ok (), (\<lparr>reads = arrivals as @ [Eof], writes = replicate ws Accepted, written = ?out\<rparr>, h'))"
    using tcp_serve_request_arrived [of a handler h answer h' ?s "arrivals as @ [Eof]" k] handler Cons.prems n
    by auto
  have "length as \<le> ws" using ws Cons.prems(2) n by auto
  then obtain ws' where "serve_tcp_connection handler
       (\<lparr>reads = arrivals as @ [Eof], writes = replicate ws Accepted, written = ?out\<rparr>, h')
     = (\<lparr>reads = [Eof], writes = ws', written = ?out @ fst (respond handler as h')\<rparr>, snd (respond handler as h'))"
    using Cons.IH [of ws ?out h'] Cons.prems(1) by auto
  with step handler show ?case
    by (subst serve_tcp_connection.simps) (cases answer; simp add: split_def Let_def)
qed

lemma served_trans: "served opts src bulk ms' ms'' \<Longrightarrow> served opts src bulk ms ms' \<Longrightarrow> served opts src bulk ms ms''"
  by (induction rule: served.induct) (auto intro: served.request)

lemma respond_served:
  "served opts src bulk ms (snd (respond (handle_request opts src bulk) as ms))"
proof (induction as arbitrary: ms)
  case (Cons a as)
  obtain r ms' where h: "handle_request opts src bulk (TcpAdu.unit_id a) (TcpAdu.pdu a) ms
      = (r :: (bytes option, io_error) result, ms')"
    by fastforce
  have "served opts src bulk ms ms'" by (rule served.request [OF served.start h])
  from served_trans [OF Cons.IH [of ms'] this] h show ?case by (simp add: split_def Let_def)
qed (simp add: served.start)

text \<open>
  C22: A TCP connection answers every request in order. When requests arrive one after another
  and the peer then closes, the loop ends, its output is exactly the replies of the handler
  to each request on the machines as the earlier ones left them, each under its own
  transaction and unit ID, and the machines end in a state reached by those requests.
\<close>

theorem tcp_connection_answers_in_order:
  assumes "\<forall>a \<in> set as. length (TcpAdu.pdu a) \<le> 253"
    and "respond (handle_request opts src bulk) as ms = (replies, ms')"
  shows "(\<exists>ws. serve_tcp_connection (handle_request opts src bulk)
             (\<lparr>reads = arrivals as @ [Eof], writes = replicate (length as) Accepted, written = []\<rparr>, ms)
           = (\<lparr>reads = [Eof], writes = ws, written = replies\<rparr>, ms'))
     \<and> served opts src bulk ms ms'"
proof
  have "answers (fst (handle_request opts src bulk uid req ms :: (bytes option, io_error) result \<times> machines))"
    for uid req ms
    using handle_request_effect(1) by (metis prod.collapse)
  from serve_tcp_connection_respond [where handler = "handle_request opts src bulk" and out = "[]" and h = ms,
      OF this assms(1) order_refl] assms(2)
  show "\<exists>ws. serve_tcp_connection (handle_request opts src bulk)
             (\<lparr>reads = arrivals as @ [Eof], writes = replicate (length as) Accepted, written = []\<rparr>, ms)
           = (\<lparr>reads = [Eof], writes = ws, written = replies\<rparr>, ms')" by simp
  show "served opts src bulk ms ms'" using respond_served [of opts src bulk ms as] assms(2) by simp
qed

theorem tcp_connection_answers_in_order_witness:
  "\<exists>replies ms' ws. serve_tcp_connection (handle_request all_options [] no_bulk)
       (\<lparr>reads = arrivals [\<lparr>transaction_id = 7, unit_id = 1, pdu = [3, 0, 0, 0, 1]\<rparr>] @ [Eof],
         writes = replicate (length [\<lparr>transaction_id = 7, unit_id = 1, pdu = [3, 0, 0, 0, 1]\<rparr>]) Accepted, written = []\<rparr>,
        [1 \<mapsto> sample_machine])
     = (\<lparr>reads = [Eof], writes = ws, written = replies\<rparr>, ms')"
proof -
  let ?as = "[\<lparr>transaction_id = 7, unit_id = 1, pdu = [3, 0, 0, 0, 1]\<rparr>]"
  obtain replies ms' where r: "respond (handle_request all_options [] no_bulk) ?as [1 \<mapsto> sample_machine] = (replies, ms')"
    by fastforce
  have "\<forall>a \<in> set ?as. length (TcpAdu.pdu a) \<le> 253" by simp
  from conjunct1 [OF tcp_connection_answers_in_order [OF this r]] show ?thesis by blast
qed

end
