(* ===== verification/Handler_Files.thy ===== *)
theory Handler_Files
  imports Server_Machine Transport
begin

text \<open>
  File records: a Write File Record request is all or nothing and what it wrote is read
  back. And the bound the register reads do not keep: they answer with as many registers as
  were asked for.
\<close>

section \<open>Writing and reading records\<close>

abbreviation write_key :: "WriteFileRecordSubRequest \<Rightarrow> u16 \<times> u16" where
  "write_key sr \<equiv> (WriteFileRecordSubRequest.file_number sr, WriteFileRecordSubRequest.record_number sr)"

text \<open>The sub-request that reads what a sub-request wrote.\<close>

definition read_back :: "WriteFileRecordSubRequest \<Rightarrow> FileRecordSubRequest" where
  "read_back sr =
     \<lparr>FileRecordSubRequest.file_number = WriteFileRecordSubRequest.file_number sr,
      record_number = WriteFileRecordSubRequest.record_number sr,
      record_length = of_nat (length (WriteFileRecordSubRequest.record_data sr) div 2)\<rparr>"

lemma resolve_file_reads_ok:
  assumes "check_file_writes ds srs = Ok ()"
  shows "resolve_file_reads ds (map read_back srs)
     = Ok (map (\<lambda>sr. the (find_file_record ds (WriteFileRecordSubRequest.file_number sr)
                         (WriteFileRecordSubRequest.record_number sr))) srs)"
  using assms unfolding check_file_writes_iff
  by (induction srs) (auto simp: read_back_def)

lemma find_file_record_key:
  "find_file_record ds f r = Some d \<Longrightarrow>
     FileRecordDescription.file_number d = f \<and> FileRecordDescription.record_number d = r"
  by (auto simp: find_file_record_def dest: find_Some_set)

lemma stored_after_writes:
  assumes "check_file_writes ds srs = Ok ()" and "distinct (map write_key srs)" and "sr \<in> set srs"
  shows "stored_record (apply_file_writes srs st)
     (the (find_file_record ds (WriteFileRecordSubRequest.file_number sr)
        (WriteFileRecordSubRequest.record_number sr)))
     = WriteFileRecordSubRequest.record_data sr"
proof -
  obtain d where d: "find_file_record ds (WriteFileRecordSubRequest.file_number sr)
      (WriteFileRecordSubRequest.record_number sr) = Some d"
    using assms(1,3) unfolding check_file_writes_iff by blast
  have "FileRecordStore_get (apply_file_writes srs st) (write_key sr)
      = Some (WriteFileRecordSubRequest.record_data sr)"
    unfolding apply_file_writes_def using assms(2,3)
    by (intro file_record_store.get_fold_distinct) (auto simp: comp_def)
  then show ?thesis
    using d find_file_record_key [OF d] by (simp add: stored_record_def)
qed

text \<open>
  C11: File record writes. A Write File Record request whose sub-requests all name described
  records and carry exactly the described number of bytes is applied and echoed; reading the
  same records then returns the bytes written, unless they do not fit one PDU. Any other
  request is answered with an exception and changes nothing. The sub-requests must name
  different records.
\<close>

theorem file_records_read_back:
  fixes response :: "(bytes, 'e) result"
  assumes "WriteFileRecordRequest_decode req = Ok \<lparr>WriteFileRecordRequest.sub_requests = srs\<rparr>"
    and "distinct (map write_key srs)" and "0 < length srs" and "length srs \<le> 36"
    and "handle_write_file_record req ds st = (response, st')"
  shows "case check_file_writes ds srs of
       Ok _ \<Rightarrow> response = expect (WriteFileRecordResponse_encode \<lparr>WriteFileRecordResponse.sub_requests = srs\<rparr>)
         \<and> (let encoded = ReadFileRecordResponse_encode
                 \<lparr>ReadFileRecordResponse.records = map WriteFileRecordSubRequest.record_data srs\<rparr>
            in handle_read_file_record
                 (ReadFileRecordRequest_encode \<lparr>ReadFileRecordRequest.sub_requests = map read_back srs\<rparr>) ds st'
               = (Ok (if 253 < length encoded
                      then exception FUNCTION_CODE_READ_FILE_RECORD EXCEPTION_ILLEGAL_DATA_VALUE else encoded)
                    :: (bytes, 'e) result))
     | Err code \<Rightarrow> response = Ok (exception FUNCTION_CODE_WRITE_FILE_RECORD code) \<and> st' = st
     | Panic \<Rightarrow> False"
proof (cases "check_file_writes ds srs")
  case (Ok u)
  then have checked: "check_file_writes ds srs = Ok ()" by simp
  have st': "st' = apply_file_writes srs st"
    and response: "response = expect (WriteFileRecordResponse_encode \<lparr>WriteFileRecordResponse.sub_requests = srs\<rparr>)"
    using assms(1,5) checked by (auto simp: handle_write_file_record_def)
  have decode: "ReadFileRecordRequest_decode
      (ReadFileRecordRequest_encode \<lparr>ReadFileRecordRequest.sub_requests = map read_back srs\<rparr>)
      = Ok \<lparr>ReadFileRecordRequest.sub_requests = map read_back srs\<rparr>"
    using ReadFileRecordRequest_decode_encode [of "\<lparr>ReadFileRecordRequest.sub_requests = map read_back srs\<rparr>" "[]"]
      assms(3,4) by simp
  have "map (stored_record st') (map (\<lambda>sr. the (find_file_record ds (WriteFileRecordSubRequest.file_number sr)
      (WriteFileRecordSubRequest.record_number sr))) srs) = map WriteFileRecordSubRequest.record_data srs"
    using stored_after_writes [OF checked assms(2)] unfolding st' by simp
  with checked decode response show ?thesis
    by (simp add: handle_read_file_record_def resolve_file_reads_ok [OF checked] Let_def del: map_map)
next
  case (Err code)
  with assms(1,5) show ?thesis by (auto simp: handle_write_file_record_def)
qed (use check_file_writes_not_Panic in simp)

theorem file_records_read_back_witness:
  "handle_read_file_record
     (ReadFileRecordRequest_encode \<lparr>ReadFileRecordRequest.sub_requests = map read_back
        [\<lparr>WriteFileRecordSubRequest.file_number = 4, record_number = 7, record_data = [0xAB, 0xCD]\<rparr>]\<rparr>)
     [\<lparr>FileRecordDescription.file_number = 4, record_number = 7, record_length = 1\<rparr>]
     (snd (handle_write_file_record [0x15, 9, 6, 0, 4, 0, 7, 0, 1, 0xAB, 0xCD]
        [\<lparr>FileRecordDescription.file_number = 4, record_number = 7, record_length = 1\<rparr>] FileRecordStore_new
        :: (bytes, unit) result \<times> FileRecordStore))
   = (Ok (ReadFileRecordResponse_encode \<lparr>ReadFileRecordResponse.records = [[0xAB, 0xCD]]\<rparr>) :: (bytes, unit) result)"
proof -
  let ?ds = "[\<lparr>FileRecordDescription.file_number = 4, record_number = 7, record_length = 1\<rparr>]"
  let ?srs = "[\<lparr>WriteFileRecordSubRequest.file_number = 4, record_number = 7, record_data = [0xAB, 0xCD]\<rparr>]"
  obtain r st' where h: "handle_write_file_record [0x15, 9, 6, 0, 4, 0, 7, 0, 1, 0xAB, 0xCD] ?ds FileRecordStore_new
      = (r :: (bytes, unit) result, st')" by fastforce
  have decode: "WriteFileRecordRequest_decode [0x15, 9, 6, 0, 4, 0, 7, 0, 1, 0xAB, 0xCD]
      = Ok \<lparr>WriteFileRecordRequest.sub_requests = ?srs\<rparr>"
    by code_simp
  have small: "distinct (map write_key ?srs)" "0 < length ?srs" "length ?srs \<le> 36" by simp_all
  have "check_file_writes ?ds ?srs = Ok ()" by (simp add: find_file_record_def)
  with file_records_read_back [OF decode small h] show ?thesis
    by (simp add: h ReadFileRecordResponse_encode_def Let_def encode_file_record_def)
qed

section \<open>Replies that do not fit\<close>

definition u16_registers :: "nat \<Rightarrow> RegisterDescription list" where
  "u16_registers n =
     map (\<lambda>i. \<lparr>RegisterDescription.name = replicate i CHR ''x'', address = of_nat i, data_type = U16,
               access = ReadOnly, unit = None\<rparr>) [0..<n]"

lemma find_u16_register:
  assumes "i < n" "n \<le> 65536"
  shows "List.find (\<lambda>r. RegisterDescription.address r = of_nat i) (u16_registers n) = Some (u16_registers n ! i)"
proof -
  have "\<forall>j < i. RegisterDescription.address (u16_registers n ! j) \<noteq> (of_nat i :: u16)"
    using assms by (auto simp: u16_registers_def of_nat_u16_inject)
  then show ?thesis
    using assms by (auto simp: find_Some_iff u16_registers_def intro!: exI [of _ i])
qed

lemma readable_u16_registers:
  "n \<le> 65536 \<Longrightarrow> k \<le> n \<Longrightarrow> readable_run (u16_registers n) (of_nat k) (drop k (u16_registers n))"
proof (induction "n - k" arbitrary: k)
  case (Suc m)
  then have k: "k < length (u16_registers n)" by (simp add: u16_registers_def)
  then have "drop k (u16_registers n) = u16_registers n ! k # drop (Suc k) (u16_registers n)"
    by (simp add: Cons_nth_drop_Suc)
  moreover have "of_nat k + register_count (RegisterDescription.data_type (u16_registers n ! k)) = (of_nat (Suc k) :: u16)"
    using k by (simp add: u16_registers_def)
  moreover have "readable_run (u16_registers n) (of_nat (Suc k)) (drop (Suc k) (u16_registers n))"
    using Suc.hyps(2) Suc.prems by (intro Suc.hyps(1)) simp_all
  moreover have "List.find (\<lambda>r. RegisterDescription.address r = of_nat k \<and> True) (u16_registers n)
      = Some (u16_registers n ! k)"
    using find_u16_register [of k n] k Suc.prems by (simp add: u16_registers_def)
  ultimately show ?case by (simp only: register_run.simps simp_thms)
qed (simp add: u16_registers_def)

text \<open>
  A register read is not limited to the 125 registers of the specification. On a machine
  with 126 adjacent one-word registers the server answers a request for all of them with a
  PDU of 254 bytes, one more than a PDU may have, and the frame it sends is refused by the
  decoder of the client.
\<close>

theorem register_read_reply_can_exceed_pdu:
  "\<exists>reply. handle_read (ReadHoldingRegistersRequest_encode
        \<lparr>ReadHoldingRegistersRequest.starting_address = 0, quantity = 126\<rparr>) (u16_registers 126) st Abcd
      = (Ok reply :: (bytes, 'e) result)
    \<and> length reply = 254
    \<and> TcpAdu_decode (TcpAdu_encode \<lparr>transaction_id = t, unit_id = u, pdu = reply\<rparr>) = Err (InvalidAduLength 255)"
proof -
  have "readable_run (u16_registers 126) 0 (u16_registers 126)"
    using readable_u16_registers [of 126 0] by simp
  moreover have width: "width (u16_registers 126) = 126"
    by (simp add: run_width_def u16_registers_def comp_def sum_list_triv)
  ultimately have "handle_read (ReadHoldingRegistersRequest_encode
        \<lparr>ReadHoldingRegistersRequest.starting_address = 0, quantity = 126\<rparr>) (u16_registers 126) st Abcd
      = (Ok (ReadHoldingRegistersResponse_encode
          \<lparr>ReadHoldingRegistersResponse.register_values = stored_words st Abcd (u16_registers 126)\<rparr>) :: (bytes, 'e) result)"
    by (intro handle_read_run [OF request_round_trips(1)]) simp_all
  moreover have "length (stored_words st Abcd (u16_registers 126)) = 126"
    using width by (simp add: length_concat comp_def run_width_def)
  then have "length (ReadHoldingRegistersResponse_encode
          \<lparr>ReadHoldingRegistersResponse.register_values = stored_words st Abcd (u16_registers 126)\<rparr>) = 254"
    by (simp add: ReadHoldingRegistersResponse_encode_def encode_register_array_response_def length_concat
        comp_def sum_list_triv)
  moreover have ff: "from_be_bytes 0 255 = (255 :: u16)" by code_simp
  have "TcpAdu_decode (TcpAdu_encode \<lparr>transaction_id = t, unit_id = u, pdu = reply\<rparr>) = Err (InvalidAduLength 255)"
    if "length reply = 254" for reply
    using that ff by (simp add: TcpAdu_decode_def TcpAdu_encode_def read_u16_be_def to_be_bytes_def Let_def)
  ultimately show ?thesis by blast
qed

end
