(* ===== verification/Discovery.thy ===== *)
theory Discovery
  imports Server_Machine Transport Text
begin

text \<open>
  The client's discovery of a device description (\<open>client/src/device_identification.rs\<close>,
  \<open>client/src/device_description_bulk_transfer.rs\<close>, the exchange of
  \<open>client/src/connection.rs\<close>, the compression wrappers of
  \<open>server/src/device_description_compression.rs\<close> and the manifest of
  \<open>protocol/src/device_description_manifest.rs\<close>), composed with the server's handlers: what
  the server was given is what the client ends up with, directly or through the bulk transfer.
\<close>

section \<open>Connections\<close>

text \<open>
  \<open>Connection\<close> of \<open>client/src/connection.rs\<close>: a stream and, for the MBAP transports, the last
  transaction ID used. The TLS stream carries the same frames as the plain one; a silence is
  a timing and is not part of the model.
\<close>

datatype Connection =
    ConnectionTcp stream u16
  | ConnectionRtu stream
  | ConnectionTls stream u16

type_synonym 's link = "u8 \<Rightarrow> bytes \<Rightarrow> 's \<Rightarrow> (bytes, io_error) result \<times> 's"

definition mbap_request :: "u8 \<Rightarrow> bytes \<Rightarrow> stream \<times> u16 \<Rightarrow> (bytes, io_error) result \<times> stream \<times> u16" where
  "mbap_request uid body c =
     (let tid = snd c + 1;
          (r, s') = tcp_send_request \<lparr>TcpAdu.transaction_id = tid, unit_id = uid, pdu = body\<rparr> (fst c)
      in (map_ok TcpAdu.pdu r, (s', tid)))"

fun connection_request :: "Connection link" where
  "connection_request uid body (ConnectionTcp s tid) =
     (let (r, (s', tid')) = mbap_request uid body (s, tid) in (r, ConnectionTcp s' tid'))"
| "connection_request uid body (ConnectionRtu s) =
     (let (r, s') = rtu_send_request \<lparr>RtuAdu.unit_id = uid, pdu = body\<rparr> s
      in (map_ok RtuAdu.pdu r, ConnectionRtu s'))"
| "connection_request uid body (ConnectionTls s tid) =
     (let (r, (s', tid')) = mbap_request uid body (s, tid) in (r, ConnectionTls s' tid'))"

section \<open>Compression and the manifest\<close>

text \<open>
  DEFLATE is a third-party crate: \<open>deflate\<close> and \<open>inflate\<close> are arguments (the data and the
  level, the data and the size limit).
\<close>

definition COMPRESSION_LEVEL :: u8 where [simp]: "COMPRESSION_LEVEL = 10"
definition MAX_DECOMPRESSED_LEN :: nat where "MAX_DECOMPRESSED_LEN = 64 * 1024 * 1024"

datatype 'd DecompressTomlSourceError = Decompress 'd | InvalidUtf8

definition compress_toml_source :: "(bytes \<Rightarrow> u8 \<Rightarrow> bytes) \<Rightarrow> string \<Rightarrow> bytes" where
  "compress_toml_source deflate toml_source = deflate (as_bytes toml_source) COMPRESSION_LEVEL"

definition decompress_toml_source ::
    "(bytes \<Rightarrow> nat \<Rightarrow> (bytes, 'd) result) \<Rightarrow> bytes \<Rightarrow> (string, 'd DecompressTomlSourceError) result" where
  "decompress_toml_source inflate compressed =
     and_then (map_err Decompress (inflate compressed MAX_DECOMPRESSED_LEN)) (\<lambda>decompressed.
     map_err (\<lambda>_. InvalidUtf8) (from_utf8 decompressed))"

text \<open>\<open>str::lines\<close> and \<open>join\<close>.\<close>

fun split_lines :: "string \<Rightarrow> string \<Rightarrow> string list" where
  "split_lines acc [] = (if acc = [] then [] else [acc])"
| "split_lines acc (c # cs) =
     (if c = CHR 0x0A then (if acc \<noteq> [] \<and> last acc = CHR 0x0D then butlast acc else acc) # split_lines [] cs
      else split_lines (acc @ [c]) cs)"

fun join :: "string \<Rightarrow> string list \<Rightarrow> string" where
  "join sep [] = []"
| "join sep [x] = x"
| "join sep (x # xs) = x @ sep @ join sep xs"

text \<open>The TOML serializer is the argument \<open>to_string\<close>; it never fails on a name and a number.\<close>

definition machine_to_inline_toml :: "(ManifestMachine \<Rightarrow> string) \<Rightarrow> ManifestMachine \<Rightarrow> string" where
  "machine_to_inline_toml to_string m =
     ''{ '' @ join '', '' (split_lines [] (to_string m)) @ '' }''"

definition DeviceDescriptionManifest_to_toml_string ::
    "(ManifestMachine \<Rightarrow> string) \<Rightarrow> DeviceDescriptionManifest \<Rightarrow> string" where
  "DeviceDescriptionManifest_to_toml_string to_string manifest =
     (let ms = join '', '' (map (machine_to_inline_toml to_string) (DeviceDescriptionManifest.machines manifest))
      in ''file_number = '' @ show_nat (unat (DeviceDescriptionManifest.file_number manifest)) @ [CHR 0x0A]
         @ ''compressed_length = '' @ show_nat (unat (compressed_length manifest)) @ [CHR 0x0A]
         @ ''machines = ['' @ ms @ '']'' @ [CHR 0x0A])"

definition DeviceDescriptionManifest_parse ::
    "(string \<Rightarrow> (DeviceDescriptionManifest, 't) result) \<Rightarrow> string \<Rightarrow> (DeviceDescriptionManifest, 't) result" where
  "DeviceDescriptionManifest_parse from_str toml_source = from_str toml_source"

section \<open>The bulk transfer\<close>

text \<open>
  The loop of \<open>fetch_compressed_device_description\<close>. \<open>Err ()\<close> is the \<open>None\<close> with which it falls
  back to the local description; \<open>record_number += 1\<close> is checked.
\<close>

lemma unat_next_record: "(n :: u16) \<noteq> 0xFFFF \<Longrightarrow> unat (n + 1) = Suc (unat n)"
proof -
  assume "n \<noteq> 0xFFFF"
  then have "unat n \<noteq> 65535" by (simp add: word_unat_eq_iff)
  moreover have "unat n < 65536" using unsigned_less [of n, where ?'a = nat] by simp
  ultimately have "Suc (unat n) < 65536" by linarith
  then show ?thesis by (simp add: unat_word_ariths)
qed

lemma next_record_decreases: "(n :: u16) \<noteq> 0xFFFF \<Longrightarrow> 65536 - unat (n + 1) < 65536 - unat n"
proof -
  assume "n \<noteq> 0xFFFF"
  moreover have "unat n < 65536" using unsigned_less [of n, where ?'a = nat] by simp
  ultimately show ?thesis using unat_next_record [of n] by linarith
qed

function fetch_records ::
    "'s link \<Rightarrow> u8 \<Rightarrow> u16 \<Rightarrow> nat \<Rightarrow> u16 \<Rightarrow> bytes \<Rightarrow> 's \<Rightarrow> (bytes, unit) result \<times> 's" where
  "fetch_records request uid file len n compressed s =
     (case bulk_transfer_chunk_range len n of
        None \<Rightarrow> (Ok compressed, s)
      | Some (a, b) \<Rightarrow>
          (case request uid (ReadFileRecordRequest_encode \<lparr>ReadFileRecordRequest.sub_requests =
                  [\<lparr>FileRecordSubRequest.file_number = file, record_number = n,
                    record_length = of_nat (div_ceil (b - a) 2)\<rparr>]\<rparr>) s of
             (Panic, s') \<Rightarrow> (Panic, s')
           | (Err e, s') \<Rightarrow> (Err (), s')
           | (Ok response_pdu, s') \<Rightarrow>
               (case ExceptionResponse_decode response_pdu of
                  Panic \<Rightarrow> (Panic, s')
                | Ok ex \<Rightarrow> (Err (), s')
                | Err d \<Rightarrow>
                    (case ReadFileRecordResponse_decode response_pdu of
                       Panic \<Rightarrow> (Panic, s')
                     | Err d \<Rightarrow> (Err (), s')
                     | Ok response \<Rightarrow>
                         (case ReadFileRecordResponse.records response of
                            [] \<Rightarrow> (Err (), s')
                          | r # rs \<Rightarrow>
                              if n = 0xFFFF then (Panic, s')
                              else fetch_records request uid file len (n + 1) (compressed @ r) s')))))"
  by pat_completeness auto
termination
  by (relation "measure (\<lambda>(_, _, _, _, n, _). 65536 - unat n)") (auto intro: next_record_decreases)

declare fetch_records.simps [simp del]

definition fetch_compressed_device_description ::
    "(bytes \<Rightarrow> nat \<Rightarrow> (bytes, 'd) result) \<Rightarrow> 's link \<Rightarrow> u8 \<Rightarrow> DeviceDescriptionManifest \<Rightarrow> 's
     \<Rightarrow> (string, unit) result \<times> 's" where
  "fetch_compressed_device_description inflate request uid manifest s =
     (let len = unat (compressed_length manifest) in
      case fetch_records request uid (DeviceDescriptionManifest.file_number manifest) len 0 [] s of
        (Panic, s') \<Rightarrow> (Panic, s')
      | (Err u, s') \<Rightarrow> (Err (), s')
      | (Ok compressed, s') \<Rightarrow>
          (map_err (\<lambda>_. ()) (decompress_toml_source inflate (take len compressed)), s'))"

section \<open>Device identification\<close>

definition CLIENT_PRESENCE_OBJECT_ID :: u8 where [simp]: "CLIENT_PRESENCE_OBJECT_ID = 0x80"
definition CLIENT_FIRST_TOML_CHUNK_OBJECT_ID :: u8 where [simp]: "CLIENT_FIRST_TOML_CHUNK_OBJECT_ID = 0x81"

text \<open>The \<open>for object in response.objects\<close> loop; \<open>None\<close> when the presence flag is not set.\<close>

fun scan_objects :: "DeviceIdentificationObject list \<Rightarrow> bytes list \<Rightarrow> bytes list option" where
  "scan_objects [] received = Some received"
| "scan_objects (obj # objs) received =
     (if id_byte obj = CLIENT_PRESENCE_OBJECT_ID then
        (if object_value obj = [] \<or> hd (object_value obj) \<noteq> 1 then None else scan_objects objs received)
      else if CLIENT_FIRST_TOML_CHUNK_OBJECT_ID \<le> id_byte obj
      then scan_objects objs (received @ [object_value obj])
      else scan_objects objs received)"

text \<open>
  The \<open>loop\<close> of \<open>fetch_device_description\<close>. It ends when the server says so: \<open>None\<close> of the
  outer option is a loop that never does.
\<close>

partial_function (option) fetch_pages ::
    "'s link \<Rightarrow> u8 \<Rightarrow> u8 \<Rightarrow> bytes list \<Rightarrow> 's \<Rightarrow> ((bytes list, unit) result \<times> 's) option" where
  "fetch_pages request uid oid received s =
     (case request uid (ReadDeviceIdentificationRequest_encode
             \<lparr>ReadDeviceIdentificationRequest.read_device_id_code = READ_DEVICE_ID_EXTENDED, object_id = oid\<rparr>) s of
        (Panic, s') \<Rightarrow> Some (Panic, s')
      | (Err e, s') \<Rightarrow> Some (Err (), s')
      | (Ok response_pdu, s') \<Rightarrow>
          (case ExceptionResponse_decode response_pdu of
             Panic \<Rightarrow> Some (Panic, s')
           | Ok ex \<Rightarrow> Some (Err (), s')
           | Err d \<Rightarrow>
               (case ReadDeviceIdentificationResponse_decode response_pdu of
                  Panic \<Rightarrow> Some (Panic, s')
                | Err d \<Rightarrow> Some (Err (), s')
                | Ok response \<Rightarrow>
                    (case scan_objects (ReadDeviceIdentificationResponse.objects response) received of
                       None \<Rightarrow> Some (Err (), s')
                     | Some received' \<Rightarrow>
                         if ReadDeviceIdentificationResponse.more_follows response
                         then fetch_pages request uid
                                (ReadDeviceIdentificationResponse.next_object_id response) received' s'
                         else Some (Ok received', s')))))"

definition fetch_device_description ::
    "(string \<Rightarrow> (DeviceDescriptionManifest, 't) result) \<Rightarrow> (bytes \<Rightarrow> nat \<Rightarrow> (bytes, 'd) result)
     \<Rightarrow> 's link \<Rightarrow> u8 \<Rightarrow> 's \<Rightarrow> ((string, unit) result \<times> 's) option" where
  "fetch_device_description from_str inflate request uid s =
     (case fetch_pages request uid CLIENT_PRESENCE_OBJECT_ID [] s of
        None \<Rightarrow> None
      | Some (Panic, s') \<Rightarrow> Some (Panic, s')
      | Some (Err u, s') \<Rightarrow> Some (Err (), s')
      | Some (Ok received, s') \<Rightarrow>
          (case from_utf8 (concat received) of
             Panic \<Rightarrow> Some (Panic, s')
           | Err u \<Rightarrow> Some (Err (), s')
           | Ok toml_source \<Rightarrow>
               (case DeviceDescriptionManifest_parse from_str toml_source of
                  Ok manifest \<Rightarrow> Some (fetch_compressed_device_description inflate request uid manifest s')
                | Err e \<Rightarrow> Some (Ok toml_source, s')
                | Panic \<Rightarrow> Some (Panic, s'))))"

section \<open>The server's side of an exchange\<close>

text \<open>
  A client whose requests reach the server directly: \<open>tcp_exchange\<close> and \<open>rtu_exchange\<close> say
  that a wire that delivers does the same. A unit that is not there stays silent.
\<close>

definition loopback :: "ServerOptions \<Rightarrow> string \<Rightarrow> Fc43BulkTransfer \<Rightarrow> machines link" where
  "loopback opts src bulk uid req ms =
     (case handle_request opts src bulk uid req ms of
        (Ok (Some reply), ms') \<Rightarrow> (Ok reply, ms')
      | (Ok None, ms') \<Rightarrow> (Err OperationTimedOut, ms')
      | (Err e, ms') \<Rightarrow> (Err e, ms')
      | (Panic, ms') \<Rightarrow> (Panic, ms'))"

text \<open>The objects a server answers device identification requests from, if it does.\<close>

definition served_objects ::
    "ServerOptions \<Rightarrow> string \<Rightarrow> Fc43BulkTransfer \<Rightarrow> DeviceIdentificationObject list option" where
  "served_objects opts src bulk =
     (if \<not> is_enabled opts 43 then None
      else case build_objects (as_bytes src) of
        Ok objs \<Rightarrow> Some objs
      | _ \<Rightarrow> if ServerOptions.detect_machine_layout opts
             then (case build_objects (as_bytes (manifest_toml bulk)) of Ok objs \<Rightarrow> Some objs | _ \<Rightarrow> None)
             else None)"

lemma loopback_identification:
  assumes "served_objects opts src bulk = Some objs"
  shows "loopback opts src bulk uid (ReadDeviceIdentificationRequest_encode request) ms
     = (Ok (handle_read_device_identification request objs), ms)"
proof -
  have decode: "ReadDeviceIdentificationRequest_decode (ReadDeviceIdentificationRequest_encode request) = Ok request"
    using ReadDeviceIdentificationRequest_codec.round_trip [of request] by simp
  obtain rest where req: "ReadDeviceIdentificationRequest_encode request = 43 # rest"
    by (simp add: ReadDeviceIdentificationRequest_encode_def)
  have "handle_encapsulated_interface_transport (ReadDeviceIdentificationRequest_encode request) src
      (ServerOptions.detect_machine_layout opts) bulk
      = (Ok (handle_read_device_identification request objs) :: (bytes, io_error) result)"
    using assms build_objects_not_Panic
    by (auto simp: handle_encapsulated_interface_transport_def served_objects_def decode
        split: if_splits result.splits)
  moreover have "is_enabled opts 43" using assms by (simp add: served_objects_def split: if_splits)
  ultimately show ?thesis
    using req by (simp add: loopback_def handle_request_def)
qed

text \<open>The text the objects of a server carry.\<close>

definition object_text :: "DeviceIdentificationObject list \<Rightarrow> bytes" where
  "object_text objs = concat (map object_value (tl objs))"

lemma build_objects_shape:
  assumes "build_objects bs = Ok objs"
  shows "object_text objs = bs" and "distinct (map id_byte objs)" and "objs \<noteq> []"
    and "id_byte (objs ! 0) = 0x80"
    and "\<forall>obj \<in> set objs. length (object_value obj) \<le> 244"
    and "scan_objects objs received = Some (received @ map object_value (tl objs))"
proof -
  let ?objs = "chunk_objects 0 (chunks 244 bs)"
  have objs: "objs = \<lparr>id_byte = 0x80, object_value = [1]\<rparr> # ?objs" and len: "length bs \<le> 127 * 244"
    using assms by (auto simp: build_objects_eq split: if_splits)
  show "object_text objs = bs" by (simp add: object_text_def objs concat_chunks)
  have n: "length ?objs \<le> 127" using len by (simp add: chunk_objects_def length_chunks div_ceil_def)
  have ids: "map id_byte ?objs = map (\<lambda>i. of_nat (0x81 + i)) [0..<length ?objs]"
    by (rule nth_equalityI) (simp_all add: chunk_objects_def nth_enumerate_eq split_def)
  have big: "unat (of_nat (0x81 + i) :: u8) = 0x81 + i" if "i < length ?objs" for i
    using that n by (simp only: unat_of_nat) simp
  then have "inj_on (\<lambda>i. of_nat (0x81 + i) :: u8) {0..<length ?objs}"
    by (intro inj_onI) (metis add_left_cancel atLeastLessThan_iff)
  moreover have "(0x80 :: u8) \<noteq> of_nat (0x81 + i)" if "i < length ?objs" for i
  proof
    assume "(0x80 :: u8) = of_nat (0x81 + i)"
    then have "unat (0x80 :: u8) = 0x81 + i" using big [OF that] by metis
    then show False by simp
  qed
  ultimately show "distinct (map id_byte objs)"
    by (auto simp: objs ids distinct_map simp del: of_nat_add)
  show "objs \<noteq> []" "id_byte (objs ! 0) = 0x80" by (simp_all add: objs)
  show "\<forall>obj \<in> set objs. length (object_value obj) \<le> 244"
  proof -
    have "\<forall>c \<in> set (map object_value ?objs). length c \<le> 244"
      using chunks_bounds [of _ 244 bs] unfolding map_object_value_chunk_objects by simp
    then show ?thesis by (simp add: objs del: map_object_value_chunk_objects)
  qed
  have "0x81 \<le> id_byte obj" if "obj \<in> set ?objs" for obj
  proof -
    have "id_byte obj \<in> set (map id_byte ?objs)" using that by simp
    then obtain i where "i < length ?objs" "id_byte obj = of_nat (0x81 + i)" unfolding ids by auto
    with big [of i] show ?thesis by (simp add: word_le_nat_alt)
  qed
  then have "scan_objects xs received = Some (received @ map object_value xs)" if "set xs \<subseteq> set ?objs" for xs received
    using that
  proof (induction xs arbitrary: received)
    case (Cons x xs)
    then have "0x81 \<le> id_byte x" by simp
    moreover from this have "id_byte x \<noteq> 0x80" by (auto simp: word_le_nat_alt)
    ultimately show ?case using Cons by simp
  qed simp
  then show "scan_objects objs received = Some (received @ map object_value (tl objs))"
    by (simp add: objs)
qed

section \<open>The client against a server\<close>

text \<open>
  What the client needs of the server: objects that a page can carry, and one page of them as
  the answer to every identification request. \<open>offered\<close> is \<open>None\<close> when the server does not
  answer such requests.
\<close>

locale identification_server =
  fixes request :: "'s link"
    and uid :: u8
    and offered :: "DeviceIdentificationObject list option"
  assumes pageable: "offered = Some objs \<Longrightarrow>
      distinct (map id_byte objs) \<and> (\<forall>obj \<in> set objs. length (object_value obj) \<le> 244)"
    and page: "offered = Some objs \<Longrightarrow>
      request uid (ReadDeviceIdentificationRequest_encode r) s = (Ok (handle_read_device_identification r objs), s)"
begin

lemma scan_objects_append:
  "scan_objects (xs @ ys) received
     = (case scan_objects xs received of None \<Rightarrow> None | Some mid \<Rightarrow> scan_objects ys mid)"
  by (induction xs arbitrary: received) auto

lemma not_exception:
  "ReadDeviceIdentificationResponse_decode bs = Ok r \<Longrightarrow> \<exists>e. ExceptionResponse_decode bs = Err e"
  by (auto simp: ReadDeviceIdentificationResponse_decode_def ExceptionResponse_decode_def
      check_function_code_def and_then_eq_Ok_iff index_def split: if_splits)

lemma fetch_pages_from:
  assumes "offered = Some objs" and "i < length objs"
    and "scan_objects (drop i objs) received = Some all"
  shows "fetch_pages request uid (id_byte (objs ! i)) received s = Some (Ok all, s)"
  using assms(2,3)
proof (induction "length objs - i" arbitrary: i received rule: less_induct)
  case less
  let ?req = "\<lparr>ReadDeviceIdentificationRequest.read_device_id_code = READ_DEVICE_ID_EXTENDED, object_id = id_byte (objs ! i)\<rparr>"
  let ?page = "handle_read_device_identification ?req objs"
  have d: "distinct (map id_byte objs)" "\<forall>obj \<in> set objs. length (object_value obj) \<le> 244"
    using pageable [OF assms(1)] by simp_all
  obtain j r where j: "i < j" "j \<le> length objs"
    and r: "ReadDeviceIdentificationResponse_decode ?page = Ok r"
      "ReadDeviceIdentificationResponse.objects r = take (j - i) (drop i objs)"
      "ReadDeviceIdentificationResponse.more_follows r = (j < length objs)"
      "j < length objs \<Longrightarrow> ReadDeviceIdentificationResponse.next_object_id r = id_byte (objs ! j)"
    using identification_page [OF less.prems(1) d] by blast
  obtain e where e: "ExceptionResponse_decode ?page = Err e" using not_exception [OF r(1)] by blast
  have split: "drop i objs = take (j - i) (drop i objs) @ drop j objs"
    using j append_take_drop_id [of "j - i" "drop i objs"] by simp
  then obtain mid where mid: "scan_objects (take (j - i) (drop i objs)) received = Some mid"
    "scan_objects (drop j objs) mid = Some all"
    using less.prems(2) scan_objects_append [of "take (j - i) (drop i objs)" "drop j objs" received]
    by (auto split: option.splits)
  show ?case
  proof (cases "j < length objs")
    case True
    have "fetch_pages request uid (id_byte (objs ! j)) mid s = Some (Ok all, s)"
      using less.hyps [of j mid] True j less.prems(1) mid(2) by simp
    then show ?thesis
      using True page [OF assms(1), of ?req s] e r mid(1)
      by (subst fetch_pages.simps) simp
  next
    case False
    then have "drop j objs = []" by simp
    with False page [OF assms(1), of ?req s] e r mid show ?thesis
      by (subst fetch_pages.simps) simp
  qed
qed

end

interpretation loop: identification_server "loopback opts src bulk" uid "served_objects opts src bulk"
  for opts src bulk uid
proof
  fix objs
  assume "served_objects opts src bulk = Some objs"
  then obtain bs where "build_objects bs = Ok objs"
    by (auto simp: served_objects_def split: if_splits result.splits)
  from build_objects_shape [OF this]
  show "distinct (map id_byte objs) \<and> (\<forall>obj \<in> set objs. length (object_value obj) \<le> 244)" by blast
qed (rule loopback_identification)

lemma fetch_pages_served:
  assumes "served_objects opts src bulk = Some objs" and "build_objects text = Ok objs"
  shows "\<exists>parts. fetch_pages (loopback opts src bulk) uid 0x80 [] ms = Some (Ok parts, ms) \<and> concat parts = text"
proof -
  note shape = build_objects_shape [OF assms(2)]
  have "fetch_pages (loopback opts src bulk) uid (id_byte (objs ! 0)) [] ms
      = Some (Ok (map object_value (tl objs)), ms)"
    using shape(3) shape(6) [of "[]"] by (intro loop.fetch_pages_from [OF assms(1)]) simp_all
  then show ?thesis using shape(1,4) by (simp add: object_text_def)
qed

text \<open>
  A description that fits reaches the client. If the server answers identification
  requests and its description has at most 30988 bytes, the client's loop ends after
  finitely many pages and returns the description, byte for byte; the server's machines do
  not change. A description must not read as a manifest.
\<close>

theorem description_reaches_client:
  assumes "is_enabled opts 43" and "length src \<le> 30988" and "valid_utf8 (as_bytes src)"
    and "from_str src = Err e"
  shows "fetch_device_description from_str inflate (loopback opts src bulk) uid ms = Some (Ok src, ms)"
proof -
  have "length (as_bytes src) \<le> 127 * 244" using assms(2) by (simp add: as_bytes_def)
  then obtain objs where "build_objects (as_bytes src) = Ok objs" by (simp add: build_objects_eq)
  moreover from this have "served_objects opts src bulk = Some objs"
    using assms(1) by (simp add: served_objects_def)
  ultimately obtain parts where "fetch_pages (loopback opts src bulk) uid 0x80 [] ms = Some (Ok parts, ms)"
    "concat parts = as_bytes src"
    using fetch_pages_served by blast
  then show ?thesis
    using assms(3,4)
    by (simp add: fetch_device_description_def from_utf8_def DeviceDescriptionManifest_parse_def)
qed

text \<open>ASCII texts, to instantiate the claims at.\<close>

lemma valid_utf8_ascii_text: "\<forall>c \<in> set s. (of_char c :: nat) < 128 \<Longrightarrow> valid_utf8 (as_bytes s)"
  by (rule valid_utf8_ascii) (auto simp: as_bytes_def word_less_nat_alt unat_of_nat)

theorem description_reaches_client_witness:
  "fetch_device_description (\<lambda>_. Err () :: (DeviceDescriptionManifest, unit) result) (\<lambda>_ _. Err ())
     (loopback all_options ''[[machines]]'' \<lparr>compressed_toml = [], manifest_toml = []\<rparr>) 1 Map.empty
     = Some (Ok ''[[machines]]'', Map.empty)"
  by (rule description_reaches_client) (simp_all add: all_options_def is_enabled_def valid_utf8_ascii_text)

section \<open>The bulk transfer against a server\<close>

definition padded :: "bytes \<Rightarrow> bytes" where
  "padded chunk = (if odd (length chunk) then chunk @ [0] else chunk)"

definition chunk_request :: "u16 \<Rightarrow> nat \<Rightarrow> ReadFileRecordRequest" where
  "chunk_request n len =
     \<lparr>ReadFileRecordRequest.sub_requests =
        [\<lparr>FileRecordSubRequest.file_number = RESERVED_DEVICE_DESCRIPTION_FILE_NUMBER, record_number = n,
          record_length = of_nat (div_ceil len 2)\<rparr>]\<rparr>"

lemma chunk_request_decode [simp]:
  "ReadFileRecordRequest_decode (ReadFileRecordRequest_encode (chunk_request n len)) = Ok (chunk_request n len)"
  using ReadFileRecordRequest_decode_encode [of "chunk_request n len" "[]"] by (simp add: chunk_request_def)

lemma loopback_chunk:
  assumes "is_enabled opts 20" and "ServerOptions.detect_machine_layout opts"
    and range: "bulk_transfer_chunk_range (length (compressed_toml bulk)) n = Some (a, b)"
  shows "loopback opts src bulk uid (ReadFileRecordRequest_encode (chunk_request n (b - a))) ms
     = (Ok (ReadFileRecordResponse_encode
          \<lparr>ReadFileRecordResponse.records = [padded (take (b - a) (drop a (compressed_toml bulk)))]\<rparr>), ms)"
proof -
  let ?blob = "compressed_toml bulk" and ?req = "chunk_request n (b - a)"
  have ab: "a < b" "b \<le> length ?blob" "b - a \<le> 248"
    using range by (auto simp: bulk_transfer_chunk_range_def Let_def split: if_splits)
  obtain rest where req: "ReadFileRecordRequest_encode ?req = 20 # rest"
    by (simp add: ReadFileRecordRequest_encode_def)
  have len: "length (take (b - a) (drop a ?blob)) = b - a" using ab by simp
  have "bulk_records ?blob (ReadFileRecordRequest.sub_requests ?req)
      = Ok [padded (take (b - a) (drop a ?blob))]"
    using range ab len by (simp add: chunk_request_def padded_def)
  moreover have "length (ReadFileRecordResponse_encode
      \<lparr>ReadFileRecordResponse.records = [padded (take (b - a) (drop a ?blob))]\<rparr>) \<le> 253"
    using ab len by (simp add: ReadFileRecordResponse_encode_def encode_file_record_def padded_def)
  moreover have "bulk_transfer_request 20 opts (20 # rest)
      = (Ok (Some ?req) :: (ReadFileRecordRequest option, io_error) result)"
    using assms(2) by (simp add: bulk_transfer_request_def flip: req) (simp add: chunk_request_def)
  ultimately show ?thesis
    using assms(1) req
    by (simp add: loopback_def handle_request_def handle_read_device_description_bulk_transfer_def Let_def)
qed

text \<open>What the client needs of a server of the compressed description \<open>blob\<close>.\<close>

locale bulk_server =
  fixes request :: "'s link"
    and uid :: u8
    and blob :: "bytes option"
  assumes chunk: "blob = Some bs \<Longrightarrow> bulk_transfer_chunk_range (length bs) n = Some (a, b) \<Longrightarrow>
      request uid (ReadFileRecordRequest_encode (chunk_request n (b - a))) s
        = (Ok (ReadFileRecordResponse_encode
             \<lparr>ReadFileRecordResponse.records = [padded (take (b - a) (drop a bs))]\<rparr>), s)"
begin

lemma record_received:
  assumes "length part \<le> 248"
  shows "ReadFileRecordResponse_decode (ReadFileRecordResponse_encode \<lparr>ReadFileRecordResponse.records = [padded part]\<rparr>)
      = Ok \<lparr>ReadFileRecordResponse.records = [padded part]\<rparr>"
    and "\<exists>e. ExceptionResponse_decode (ReadFileRecordResponse_encode \<lparr>ReadFileRecordResponse.records = [padded part]\<rparr>) = Err e"
proof -
  show "ReadFileRecordResponse_decode (ReadFileRecordResponse_encode \<lparr>ReadFileRecordResponse.records = [padded part]\<rparr>)
      = Ok \<lparr>ReadFileRecordResponse.records = [padded part]\<rparr>"
    using ReadFileRecordResponse_decode_encode [of "\<lparr>ReadFileRecordResponse.records = [padded part]\<rparr>" "[]"] assms
    by (simp add: padded_def)
  show "\<exists>e. ExceptionResponse_decode (ReadFileRecordResponse_encode \<lparr>ReadFileRecordResponse.records = [padded part]\<rparr>) = Err e"
    by (simp add: ReadFileRecordResponse_encode_def ExceptionResponse_decode_def)
qed

lemma fetch_records_from:
  assumes "blob = Some bs" and "length bs \<le> 65535 * 248" and "unat n * 248 \<le> length bs"
    and "acc = (if unat n * 248 = length bs then padded bs else take (unat n * 248) bs)"
  shows "fetch_records request uid 0xFFFF (length bs) n acc s = (Ok (padded bs), s)"
  using assms(3,4)
proof (induction "length bs - unat n * 248" arbitrary: n acc rule: less_induct)
  case less
  let ?a = "unat n * 248" let ?b = "min (?a + 248) (length bs)"
  show ?case
  proof (cases "?a = length bs")
    case True
    then have "bulk_transfer_chunk_range (length bs) n = None"
      by (simp add: bulk_transfer_chunk_range_def)
    with True less.prems show ?thesis by (subst fetch_records.simps) simp
  next
    case False
    with less.prems have lt: "?a < length bs" by simp
    then have range: "bulk_transfer_chunk_range (length bs) n = Some (?a, ?b)"
      by (simp add: bulk_transfer_chunk_range_def Let_def)
    let ?part = "take (?b - ?a) (drop ?a bs)"
    have part: "length ?part \<le> 248" by simp
    have "unat n < 65535" using lt assms(2) by linarith
    then have max: "n \<noteq> 0xFFFF" by auto
    obtain e where e: "ExceptionResponse_decode (ReadFileRecordResponse_encode
        \<lparr>ReadFileRecordResponse.records = [padded ?part]\<rparr>) = Err e"
      using record_received(2) [OF part] by blast
    have step: "fetch_records request uid 0xFFFF (length bs) n acc s
        = fetch_records request uid 0xFFFF (length bs) (n + 1) (acc @ padded ?part) s"
      using chunk [OF assms(1) range, of s] record_received(1) [OF part] e max range
      by (subst fetch_records.simps) (simp add: chunk_request_def)
    have acc: "acc = take ?a bs" using less.prems(2) False by simp
    show ?thesis
    proof (cases "?a + 248 \<le> length bs")
      case True
      have even: "?a + 248 = length bs \<Longrightarrow> even (length bs)" by (drule sym) simp
      from True have next_part: "acc @ padded ?part = (if unat (n + 1) * 248 = length bs then padded bs else take (unat (n + 1) * 248) bs)"
        using unat_next_record [OF max] acc even
        by (auto simp: padded_def add.commute take_add [symmetric])
      show ?thesis
        unfolding step using next_part True unat_next_record [OF max]
        by (intro less.hyps) simp_all
    next
      case last: False
      have "acc @ padded ?part = padded bs"
        using last lt acc by (auto simp: padded_def)
      moreover have "bulk_transfer_chunk_range (length bs) (n + 1) = None"
        using last unat_next_record [OF max] by (simp add: bulk_transfer_chunk_range_def Let_def)
      ultimately show ?thesis
        unfolding step by (subst fetch_records.simps) simp
    qed
  qed
qed

lemma fetch_compressed:
  assumes "blob = Some bs" and "length bs \<le> 65535 * 248"
    and "DeviceDescriptionManifest.file_number manifest = 0xFFFF" and "compressed_length manifest = of_nat (length bs)"
  shows "fetch_compressed_device_description inflate request uid manifest s
      = (map_err (\<lambda>_. ()) (decompress_toml_source inflate bs), s)"
proof -
  have len: "unat (of_nat (length bs) :: u32) = length bs"
    using assms(2) by (subst unat_of_nat) simp
  have "fetch_records request uid 0xFFFF (length bs) 0 [] s = (Ok (padded bs), s)"
    using assms(1,2) by (intro fetch_records_from) (simp_all add: padded_def)
  then show ?thesis
    using assms(3,4) len by (simp add: fetch_compressed_device_description_def padded_def Let_def)
qed

end

interpretation bulk_loop: bulk_server "loopback opts src bulk" uid
    "if is_enabled opts 20 \<and> ServerOptions.detect_machine_layout opts then Some (compressed_toml bulk) else None"
  for opts src bulk uid
  by unfold_locales (auto intro: loopback_chunk split: if_splits)

text \<open>
  C6: A description too large for identification objects reaches the client through the bulk
  transfer. The server then offers its manifest; the client reads the compressed description
  record by record, strips the padding and decompresses it to the description itself. This
  needs the two function codes and \<open>detect_machine_layout\<close> enabled, a manifest that fits and
  reads back, and at most 65535 records; decompression must invert compression.
\<close>

theorem large_description_reaches_client:
  assumes "bulk = Fc43BulkTransfer_build (compress_toml_source deflate)
             (DeviceDescriptionManifest_to_toml_string to_string) src ms'"
    and "is_enabled opts 43" and "is_enabled opts 20" and "ServerOptions.detect_machine_layout opts"
    and "30988 < length src" and "valid_utf8 (as_bytes src)"
    and "length (manifest_toml bulk) \<le> 30988" and "valid_utf8 (as_bytes (manifest_toml bulk))"
    and "from_str (manifest_toml bulk)
           = Ok \<lparr>DeviceDescriptionManifest.file_number = 0xFFFF,
                 compressed_length = of_nat (length (compressed_toml bulk)), machines = ms'\<rparr>"
    and "length (compressed_toml bulk) \<le> 65535 * 248"
    and "inflate (deflate (as_bytes src) 10) (64 * 1024 * 1024) = Ok (as_bytes src)"
  shows "fetch_device_description from_str inflate (loopback opts src bulk) uid ms = Some (Ok src, ms)"
proof -
  have "\<not> length (as_bytes src) \<le> 127 * 244" using assms(5) by (simp add: as_bytes_def)
  moreover have "length (as_bytes (manifest_toml bulk)) \<le> 127 * 244" using assms(7) by (simp add: as_bytes_def)
  then obtain objs where objs: "build_objects (as_bytes (manifest_toml bulk)) = Ok objs"
    by (simp add: build_objects_eq)
  ultimately have "served_objects opts src bulk = Some objs"
    using assms(2,4) by (simp add: served_objects_def build_objects_eq)
  with objs obtain parts where pages: "fetch_pages (loopback opts src bulk) uid 0x80 [] ms = Some (Ok parts, ms)"
    "concat parts = as_bytes (manifest_toml bulk)"
    using fetch_pages_served by blast
  have blob: "compressed_toml bulk = deflate (as_bytes src) 10"
    by (simp add: assms(1) Fc43BulkTransfer_build_def compress_toml_source_def Let_def)
  have "decompress_toml_source inflate (compressed_toml bulk) = Ok src"
    using assms(6,11) by (simp add: blob decompress_toml_source_def MAX_DECOMPRESSED_LEN_def from_utf8_def)
  moreover have "fetch_compressed_device_description inflate (loopback opts src bulk) uid
      \<lparr>DeviceDescriptionManifest.file_number = 0xFFFF,
       compressed_length = of_nat (length (compressed_toml bulk)), machines = ms'\<rparr> ms
      = (map_err (\<lambda>_. ()) (decompress_toml_source inflate (compressed_toml bulk)), ms)"
    using assms(3,4,10) by (intro bulk_loop.fetch_compressed) simp_all
  ultimately show ?thesis
    using pages assms(8,9)
    by (simp add: fetch_device_description_def from_utf8_def DeviceDescriptionManifest_parse_def)
qed

definition sample_text :: string where
  "sample_text = replicate 31000 CHR ''#''"

theorem large_description_reaches_client_witness:
  "fetch_device_description
     (\<lambda>_. Ok \<lparr>DeviceDescriptionManifest.file_number = 0xFFFF, compressed_length = 3, machines = []\<rparr>
        :: (DeviceDescriptionManifest, unit) result)
     (\<lambda>_ _. Ok (as_bytes sample_text) :: (bytes, unit) result)
     (loopback all_options sample_text
        (Fc43BulkTransfer_build (compress_toml_source (\<lambda>_ _. [1, 2, 3]))
           (DeviceDescriptionManifest_to_toml_string (\<lambda>_. [])) sample_text [])) 1 Map.empty
     = Some (Ok sample_text, Map.empty)"
proof (rule large_description_reaches_client [OF refl])
  let ?bulk = "Fc43BulkTransfer_build (compress_toml_source (\<lambda>_ _. [1, 2, 3]))
           (DeviceDescriptionManifest_to_toml_string (\<lambda>_. [])) sample_text []"
  have compressed: "compressed_toml ?bulk = [1, 2, 3]"
    by (simp add: Fc43BulkTransfer_build_def compress_toml_source_def Let_def)
  have digits: "show_nat 65535 = ''65535''" "show_nat 3 = ''3''"
    by (simp_all add: show_nat.simps digit_char_def char_of_def bit_iff_odd)
  have manifest: "manifest_toml ?bulk = ''file_number = 65535'' @ [CHR 0x0A] @ ''compressed_length = 3'' @ [CHR 0x0A]
      @ ''machines = []'' @ [CHR 0x0A]"
    by (simp add: Fc43BulkTransfer_build_def compress_toml_source_def DeviceDescriptionManifest_to_toml_string_def
        Let_def digits)
  show "is_enabled all_options 43" "is_enabled all_options 20" "ServerOptions.detect_machine_layout all_options"
    by (simp_all add: all_options_def is_enabled_def)
  show "30988 < length sample_text" by (simp add: sample_text_def)
  show "valid_utf8 (as_bytes sample_text)" by (rule valid_utf8_ascii_text) (simp add: sample_text_def)
  show "length (manifest_toml ?bulk) \<le> 30988" by (simp add: manifest)
  show "valid_utf8 (as_bytes (manifest_toml ?bulk))" by (rule valid_utf8_ascii_text) (simp add: manifest)
  show "Ok \<lparr>DeviceDescriptionManifest.file_number = 0xFFFF, compressed_length = 3, machines = []\<rparr>
     = (Ok \<lparr>DeviceDescriptionManifest.file_number = 0xFFFF,
            compressed_length = of_nat (length (compressed_toml ?bulk)), machines = []\<rparr>
        :: (DeviceDescriptionManifest, unit) result)"
    by (simp add: compressed)
  show "length (compressed_toml ?bulk) \<le> 65535 * 248" by (simp add: compressed)
qed (rule refl)

section \<open>A server that never ends\<close>

text \<open>
  The client's loop has no bound of its own. Against a peer that answers every request
  with the same well-formed page and says that more follow, \<open>fetch_device_description\<close> does
  not return.
\<close>

theorem description_fetch_can_run_forever:
  "fetch_device_description from_str inflate
     (\<lambda>uid req s. (Ok (ReadDeviceIdentificationResponse_encode
        (extended_response True 0x80 [\<lparr>id_byte = 0x80, object_value = [1]\<rparr>])), s)) uid s = None"
proof -
  let ?link = "\<lambda>uid req s. (Ok (ReadDeviceIdentificationResponse_encode
        (extended_response True 0x80 [\<lparr>id_byte = 0x80, object_value = [1]\<rparr>])), s) :: (bytes, io_error) result \<times> 's"
  have decode: "ReadDeviceIdentificationResponse_decode (ReadDeviceIdentificationResponse_encode
        (extended_response True 0x80 [\<lparr>id_byte = 0x80, object_value = [1]\<rparr>]))
      = Ok (extended_response True 0x80 [\<lparr>id_byte = 0x80, object_value = [1]\<rparr>])"
    and no_exception: "ExceptionResponse_decode (ReadDeviceIdentificationResponse_encode
        (extended_response True 0x80 [\<lparr>id_byte = 0x80, object_value = [1]\<rparr>])) = Err (NotAnExceptionResponse 43)"
    by code_simp+
  have fields: "scan_objects (ReadDeviceIdentificationResponse.objects
        (extended_response True 0x80 [\<lparr>id_byte = 0x80, object_value = [1]\<rparr>])) received = Some received"
      "ReadDeviceIdentificationResponse.more_follows
        (extended_response True 0x80 [\<lparr>id_byte = 0x80, object_value = [1]\<rparr>])"
      "ReadDeviceIdentificationResponse.next_object_id
        (extended_response True 0x80 [\<lparr>id_byte = 0x80, object_value = [1]\<rparr>]) = 0x80" for received
    by (simp_all add: extended_response_def)
  have "request = ?link \<longrightarrow> oid = 0x80 \<longrightarrow> False"
    if "fetch_pages request uid oid received s = Some y"
    for request :: "'s link" and uid oid :: u8 and received s y
  proof (rule fetch_pages.raw_induct [where P = "\<lambda>request uid oid received s y.
      request = ?link \<longrightarrow> oid = 0x80 \<longrightarrow> False", OF _ that], intro impI)
    fix pages :: "'s link \<Rightarrow> u8 \<Rightarrow> u8 \<Rightarrow> bytes list \<Rightarrow> 's \<Rightarrow> ((bytes list, unit) result \<times> 's) option"
      and request :: "'s link" and uid oid :: u8 and received s y
    assume IH: "\<And>request uid oid received s y. pages request uid oid received s = Some y \<Longrightarrow>
        request = ?link \<longrightarrow> oid = 0x80 \<longrightarrow> False"
    assume link: "request = ?link" and oid: "oid = 0x80"
    assume "(case request uid (ReadDeviceIdentificationRequest_encode
             \<lparr>ReadDeviceIdentificationRequest.read_device_id_code = READ_DEVICE_ID_EXTENDED, object_id = oid\<rparr>) s of
        (Ok response_pdu, s') \<Rightarrow>
          (case ExceptionResponse_decode response_pdu of
             Ok ex \<Rightarrow> Some (Err (), s')
           | Err d \<Rightarrow>
               (case ReadDeviceIdentificationResponse_decode response_pdu of
                  Ok response \<Rightarrow>
                    (case scan_objects (ReadDeviceIdentificationResponse.objects response) received of
                       None \<Rightarrow> Some (Err (), s')
                     | Some received' \<Rightarrow>
                         if ReadDeviceIdentificationResponse.more_follows response
                         then pages request uid
                                (ReadDeviceIdentificationResponse.next_object_id response) received' s'
                         else Some (Ok received', s'))
                | Err d \<Rightarrow> Some (Err (), s')
                | Panic \<Rightarrow> Some (Panic, s'))
           | Panic \<Rightarrow> Some (Panic, s'))
      | (Err e, s') \<Rightarrow> Some (Err (), s')
      | (Panic, s') \<Rightarrow> Some (Panic, s')) = Some y"
    then have "pages request uid 0x80 received s = Some y"
      by (simp add: link oid decode no_exception fields)
    with IH [of request uid "0x80" received s y] link show False by blast
  qed
  then have "fetch_pages ?link uid 0x80 [] s = None" by (metis not_None_eq)
  then show ?thesis by (simp add: fetch_device_description_def)
qed

end
