(* ===== verification/Sparkplug_Wire.thy ===== *)
theory Sparkplug_Wire
  imports Text
begin

text \<open>
  The protobuf wire format of the Sparkplug payloads (\<open>sparkplug/src/wire.rs\<close>): varints, tags,
  length-delimited and fixed-width fields, and the loop every message decoder of the crate
  runs over the fields of a message. An \<open>encode\<close> function appends to the buffer it is given.
\<close>

section \<open>Varints\<close>

definition MAX_VARINT_BYTES :: nat where [simp]: "MAX_VARINT_BYTES = 10"

datatype WireError =
    TooShort
  | VarintOverflow
  | UnsupportedWireType u64
  | FieldNumberOverflow
  | InvalidFieldNumber
  | LengthOverflow

datatype WireType = Varint | Fixed64 | LengthDelimited | Fixed32

fun wire_type_bits :: "WireType \<Rightarrow> u64" where
  "wire_type_bits Varint = 0"
| "wire_type_bits Fixed64 = 1"
| "wire_type_bits LengthDelimited = 2"
| "wire_type_bits Fixed32 = 5"

definition wire_type_of_bits :: "u64 \<Rightarrow> (WireType, WireError) result" where
  "wire_type_of_bits bits =
     (if bits = 0 then Ok Varint
      else if bits = 1 then Ok Fixed64
      else if bits = 2 then Ok LengthDelimited
      else if bits = 5 then Ok Fixed32
      else Err (UnsupportedWireType bits))"

record Tag =
  field_number :: u32
  wire_type :: WireType

lemma drop_bit_7_less:
  assumes "drop_bit 7 (v :: u64) \<noteq> 0"
  shows "unat (drop_bit 7 v) < unat v"
proof -
  have "v \<noteq> 0" using assms by auto
  then have "0 < unat v" by (simp add: unat_gt_0)
  then show ?thesis unfolding unat_drop_bit_eq by (simp add: drop_bit_eq_div)
qed

function encode_varint :: "u64 \<Rightarrow> bytes \<Rightarrow> bytes" where
  "encode_varint v buffer =
     (let byte = ucast (v AND 0x7F) :: u8; v' = drop_bit 7 v
      in if v' = 0 then buffer @ [byte] else encode_varint v' (buffer @ [byte OR 0x80]))"
  by pat_completeness auto
termination
  by (relation "measure (\<lambda>(v, _). unat v)") (auto simp: drop_bit_7_less)

declare encode_varint.simps [simp del]

text \<open>
  The \<open>for\<close> loop of \<open>decode_varint\<close> over the first ten bytes, and what it returns when they
  end without a last byte.
\<close>

fun varint_bytes :: "nat \<Rightarrow> u64 \<Rightarrow> bytes \<Rightarrow> ((u64 \<times> nat) option, WireError) result" where
  "varint_bytes i v [] = Ok None"
| "varint_bytes i v (byte # bs) =
     (let payload = ucast (byte AND 0x7F) :: u64 in
      if i = MAX_VARINT_BYTES - 1 \<and> 1 < payload then Err VarintOverflow
      else let v' = v OR push_bit (i * 7) payload in
      if byte AND 0x80 = 0 then Ok (Some (v', i + 1)) else varint_bytes (i + 1) v' bs)"

definition decode_varint :: "bytes \<Rightarrow> (u64 \<times> nat, WireError) result" where
  "decode_varint bs =
     and_then (varint_bytes 0 0 (take MAX_VARINT_BYTES bs)) (\<lambda>r.
     case r of
       Some result \<Rightarrow> Ok result
     | None \<Rightarrow> if MAX_VARINT_BYTES \<le> length bs then Err VarintOverflow else Err TooShort)"

section \<open>Tags and fields\<close>

definition encode_tag :: "Tag \<Rightarrow> bytes \<Rightarrow> bytes" where
  "encode_tag tag buffer =
     encode_varint (push_bit 3 (ucast (field_number tag)) OR wire_type_bits (wire_type tag)) buffer"

definition decode_tag :: "bytes \<Rightarrow> (Tag \<times> nat, WireError) result" where
  "decode_tag bs =
     and_then (decode_varint bs) (\<lambda>(value, consumed).
     and_then (wire_type_of_bits (value AND 0x7)) (\<lambda>wt.
     let number = drop_bit 3 value in
     if 2 ^ 32 \<le> unat number then Err FieldNumberOverflow
     else let field_number = ucast number :: u32 in
     if field_number = 0 then Err InvalidFieldNumber
     else Ok (\<lparr>Tag.field_number = field_number, wire_type = wt\<rparr>, consumed)))"

definition encode_length_delimited :: "bytes \<Rightarrow> bytes \<Rightarrow> bytes" where
  "encode_length_delimited value buffer = encode_varint (of_nat (length value)) buffer @ value"

text \<open>\<open>&bytes[offset..]\<close>, and \<open>usize::try_from\<close> of a 64-bit length, which never fails on a
  64-bit target.\<close>

definition slice_from :: "'a list \<Rightarrow> nat \<Rightarrow> ('a list, 'e) result" where
  "slice_from xs i = (if i \<le> length xs then Ok (drop i xs) else Panic)"

definition decode_length_delimited :: "bytes \<Rightarrow> (bytes \<times> nat, WireError) result" where
  "decode_length_delimited bs =
     and_then (decode_varint bs) (\<lambda>(len, length_consumed).
     and_then (slice_from bs length_consumed) (\<lambda>remaining.
     if length remaining < unat len then Err TooShort
     else and_then (slice remaining 0 (unat len)) (\<lambda>value.
     Ok (value, length_consumed + unat len))))"

text \<open>\<open>to_le_bytes\<close> and \<open>from_le_bytes\<close> of a word of \<open>n\<close> bytes.\<close>

definition le_bytes :: "nat \<Rightarrow> 'a :: len word \<Rightarrow> bytes" where
  "le_bytes n w = map (\<lambda>i. ucast (drop_bit (8 * i) w)) [0..<n]"

definition of_le_bytes :: "bytes \<Rightarrow> 'a :: len word" where
  "of_le_bytes bs = foldr (\<lambda>b w. ucast b OR push_bit 8 w) bs 0"

definition encode_fixed32 :: "u32 \<Rightarrow> bytes \<Rightarrow> bytes" where
  "encode_fixed32 value buffer = buffer @ le_bytes 4 value"

definition decode_fixed32 :: "bytes \<Rightarrow> (u32 \<times> nat, WireError) result" where
  "decode_fixed32 bs = (if length bs < 4 then Err TooShort else Ok (of_le_bytes (take 4 bs), 4))"

definition encode_fixed64 :: "u64 \<Rightarrow> bytes \<Rightarrow> bytes" where
  "encode_fixed64 value buffer = buffer @ le_bytes 8 value"

definition decode_fixed64 :: "bytes \<Rightarrow> (u64 \<times> nat, WireError) result" where
  "decode_fixed64 bs = (if length bs < 8 then Err TooShort else Ok (of_le_bytes (take 8 bs), 8))"

fun skip_field :: "WireType \<Rightarrow> bytes \<Rightarrow> (nat, WireError) result" where
  "skip_field Varint bs = map_ok snd (decode_varint bs)"
| "skip_field Fixed32 bs = map_ok snd (decode_fixed32 bs)"
| "skip_field Fixed64 bs = map_ok snd (decode_fixed64 bs)"
| "skip_field LengthDelimited bs = map_ok snd (decode_length_delimited bs)"

section \<open>Varints round trip\<close>

lemma encode_varint_prefix: "encode_varint v (xs @ buffer) = xs @ encode_varint v buffer"
proof (induction v buffer rule: encode_varint.induct)
  case (1 v buffer)
  then show ?case
    by (subst (1 2) encode_varint.simps) (simp add: Let_def)
qed

lemma encode_varint_append: "encode_varint v buffer = buffer @ encode_varint v []"
  using encode_varint_prefix [of v buffer "[]"] by simp

lemma encode_varint_unfold:
  "encode_varint v [] =
     (if drop_bit 7 v = 0 then [ucast (v AND 0x7F)]
      else (ucast (v AND 0x7F) OR 0x80) # encode_varint (drop_bit 7 v) [])"
  by (subst encode_varint.simps) (simp add: Let_def encode_varint_append [of _ "[_]"])

text \<open>The payload bits of a byte, and its continuation bit.\<close>

lemma low_mask: "(0x7F :: u8) = mask 7" "(0x7F :: u64) = mask 7"
  by (simp_all add: mask_eq_exp_minus_1)

lemma bit_high: "bit (128 :: int) n \<longleftrightarrow> n = 7"
proof -
  have "(128 :: int) = push_bit 7 1" by (simp add: push_bit_eq_mult)
  then show ?thesis by (simp only: bit_push_bit_iff bit_1_iff) auto
qed

lemma varint_byte:
  fixes v :: u64
  shows "ucast ((ucast (v AND 0x7F) :: u8) AND 0x7F) = v AND 0x7F"
    and "ucast (((ucast (v AND 0x7F) :: u8) OR 0x80) AND 0x7F) = v AND 0x7F"
    and "(ucast (v AND 0x7F) :: u8) AND 0x80 = 0"
    and "((ucast (v AND 0x7F) :: u8) OR 0x80) AND 0x80 \<noteq> 0"
proof -
  show "ucast ((ucast (v AND 0x7F) :: u8) AND 0x7F) = v AND 0x7F"
    "ucast (((ucast (v AND 0x7F) :: u8) OR 0x80) AND 0x7F) = v AND 0x7F"
    "(ucast (v AND 0x7F) :: u8) AND 0x80 = 0"
    unfolding low_mask by (rule bit_word_eqI; auto simp: bit_simps bit_high)+
  have "bit (((ucast (v AND 0x7F) :: u8) OR 0x80) AND 0x80) 7"
    by (simp add: bit_simps bit_high)
  then show "((ucast (v AND 0x7F) :: u8) OR 0x80) AND 0x80 \<noteq> 0" by (metis bit_0_eq bot_apply bot_bool_def)
qed

lemma varint_split: "push_bit k (v AND 0x7F) OR push_bit (k + 7) (drop_bit 7 v) = push_bit k (v :: u64)"
  unfolding low_mask
proof (rule bit_word_eqI)
  fix n assume "n < LENGTH(64)"
  then show "bit (push_bit k (v AND mask 7) OR push_bit (k + 7) (drop_bit 7 v)) n = bit (push_bit k v) n"
    by (cases "n < k + 7") (auto simp: bit_simps)
qed

lemma drop_bit_zero_small: "drop_bit k (v :: u64) = 0 \<Longrightarrow> k < 64 \<Longrightarrow> unat v < 2 ^ k"
proof -
  assume "drop_bit k v = 0"
  then have "unat v div 2 ^ k = 0" by (metis drop_bit_eq_div unat_0 unat_drop_bit_eq)
  then show "unat v < 2 ^ k" by (simp add: div_eq_0_iff)
qed

lemma varint_bytes_more:
  fixes v :: u64
  assumes "i \<noteq> 9"
  shows "varint_bytes i acc ((ucast (v AND 0x7F) OR 0x80) # bs)
     = varint_bytes (Suc i) (acc OR push_bit (7 * i) (v AND 0x7F)) bs"
proof -
  have "\<not> (i = MAX_VARINT_BYTES - 1 \<and> 1 < v AND 0x7F)" using assms by simp
  then show ?thesis
    by (simp only: varint_bytes.simps Let_def varint_byte if_False mult.commute) simp
qed

lemma varint_bytes_encode:
  assumes "drop_bit (64 - 7 * i) v = 0" and "i \<le> 9"
  shows "varint_bytes i acc (take (10 - i) (encode_varint v [] @ rest))
    = Ok (Some (acc OR push_bit (7 * i) v, i + length (encode_varint v []))) \<and> i + length (encode_varint v []) \<le> 10"
  using assms
proof (induction "unat v" arbitrary: i v acc rule: less_induct)
  case less
  obtain k where k: "10 - i = Suc k" "k = 9 - i" using less.prems(2) by (cases "10 - i") auto
  show ?case
  proof (cases "drop_bit 7 v = 0")
    case True
    have v: "v AND 0x7F = v"
      using varint_split [of 0 v] True by simp
    have "\<not> (i = 9 \<and> 1 < v AND 0x7F)"
      using less.prems(1) drop_bit_zero_small [of 1 v] by (auto simp: v word_less_nat_alt)
    with True k less.prems(2)
    have "varint_bytes i acc (take (10 - i) (encode_varint v [] @ rest))
        = Ok (Some (acc OR push_bit (7 * i) (v AND 0x7F), i + 1))"
      by (simp add: encode_varint_unfold [of v] varint_byte mult.commute Let_def)
    with True less.prems(2) v show ?thesis by (simp add: encode_varint_unfold [of v])
  next
    case False
    have "i \<noteq> 9"
    proof
      assume "i = 9"
      then have "drop_bit 1 v = 0" using less.prems(1) by simp
      then have "drop_bit (6 + 1) v = 0" by (simp only: drop_bit_drop_bit [symmetric] drop_bit_of_0)
      with False show False by simp
    qed
    then have i: "Suc i \<le> 9" using less.prems(2) by simp
    have "drop_bit (64 - 7 * Suc i) (drop_bit 7 v) = 0" using less.prems(1) i by simp
    note IH = less.hyps [OF drop_bit_7_less [OF False] this i, of "acc OR push_bit (7 * i) (v AND 0x7F)"]
    have "(acc OR push_bit (7 * i) (v AND 0x7F)) OR push_bit (7 * Suc i) (drop_bit 7 v) = acc OR push_bit (7 * i) v"
      using varint_split [of "7 * i" v] by (simp add: or.assoc add.commute)
    moreover have "10 - i = Suc (10 - Suc i)" using i by simp
    ultimately show ?thesis
      using False IH
      by (simp only: encode_varint_unfold [of v] if_False append_Cons take_Suc_Cons length_Cons add_Suc_right
          add_Suc varint_bytes_more [OF \<open>i \<noteq> 9\<close>])
  qed
qed

lemma length_encode_varint: "0 < length (encode_varint v []) \<and> length (encode_varint v []) \<le> 10"
  using varint_bytes_encode [of 0 v 0 "[]"] by (auto simp: encode_varint_unfold [of v])

lemma decode_varint_encode [simp]:
  "decode_varint (encode_varint v [] @ rest) = Ok (v, length (encode_varint v []))"
  using varint_bytes_encode [of 0 v 0 rest] by (simp add: decode_varint_def del: take_append)

lemma varint_bytes_bounds:
  "varint_bytes i acc bs = Ok (Some (v, n)) \<Longrightarrow> i < n \<and> n \<le> i + length bs"
  by (induction i acc bs rule: varint_bytes.induct) (fastforce simp: Let_def split: if_splits)+

lemma varint_bytes_not_Panic: "varint_bytes i acc bs \<noteq> Panic"
  by (induction i acc bs rule: varint_bytes.induct) (auto simp: Let_def)

lemma decode_varint_bounds: "decode_varint bs = Ok (v, n) \<Longrightarrow> 0 < n \<and> n \<le> length bs"
  using varint_bytes_bounds [of 0 0 "take 10 bs" v n]
  by (auto simp: decode_varint_def and_then_eq_Ok_iff split: option.splits if_splits)

lemma decode_varint_not_Panic: "decode_varint bs \<noteq> Panic"
  by (auto simp: decode_varint_def and_then_eq_Panic_iff varint_bytes_not_Panic split: option.splits)

section \<open>Fields round trip\<close>

lemma bit_of_le_bytes:
  "n < LENGTH('a) \<Longrightarrow>
     bit (of_le_bytes bs :: 'a :: len word) n \<longleftrightarrow> n div 8 < length bs \<and> bit (bs ! (n div 8)) (n mod 8)"
proof (induction bs arbitrary: n)
  case (Cons b bs)
  show ?case
  proof (cases "n < 8")
    case True
    with Cons.prems show ?thesis by (simp add: of_le_bytes_def bit_simps)
  next
    case False
    then have "n div 8 = Suc ((n - 8) div 8)" "(n - 8) mod 8 = n mod 8"
      by (simp_all add: le_div_geq le_mod_geq)
    moreover have "\<not> bit b n" using False by (auto dest: bit_imp_le_length)
    ultimately show ?thesis
      using False Cons by (simp add: of_le_bytes_def bit_simps)
  qed
qed (simp add: of_le_bytes_def)

lemma length_le_bytes [simp]: "length (le_bytes n w) = n"
  by (simp add: le_bytes_def)

lemma of_le_bytes_le_bytes:
  assumes "LENGTH('a) = 8 * k"
  shows "of_le_bytes (le_bytes k w) = (w :: 'a :: len word)"
proof (rule bit_word_eqI)
  fix n assume n: "n < LENGTH('a)"
  then have "n div 8 < k" using assms by (simp add: less_mult_imp_div_less mult.commute)
  then show "bit (of_le_bytes (le_bytes k w) :: 'a word) n = bit w n"
    using n by (simp add: bit_of_le_bytes le_bytes_def bit_simps add.commute) linarith
qed

lemma decode_fixed_encode [simp]:
  "decode_fixed32 (encode_fixed32 v [] @ rest) = Ok (v, 4)"
  "decode_fixed64 (encode_fixed64 w [] @ rest) = Ok (w, 8)"
  by (simp_all add: decode_fixed32_def encode_fixed32_def decode_fixed64_def encode_fixed64_def
      of_le_bytes_le_bytes)

lemma length_encode_fixed [simp]:
  "length (encode_fixed32 v []) = 4" "length (encode_fixed64 w []) = 8"
  by (simp_all add: encode_fixed32_def encode_fixed64_def)

lemma decode_length_delimited_encode [simp]:
  assumes "length value < 2 ^ 64"
  shows "decode_length_delimited (encode_length_delimited value [] @ rest)
     = Ok (value, length (encode_length_delimited value []))"
proof -
  have "unat (of_nat (length value) :: u64) = length value"
    using assms by (simp add: unat_of_nat)
  then show ?thesis
    by (simp add: decode_length_delimited_def encode_length_delimited_def slice_from_def)
qed

lemma wire_type_of_bits_bits [simp]: "wire_type_of_bits (wire_type_bits wt) = Ok wt"
  by (cases wt) (simp_all add: wire_type_of_bits_def)

lemma tag_bits:
  fixes f :: u32
  shows "(push_bit 3 (ucast f) OR wire_type_bits wt) AND 0x7 = wire_type_bits wt"
    and "drop_bit 3 (push_bit 3 (ucast f) OR wire_type_bits wt) = (ucast f :: u64)"
proof -
  have seven: "(0x7 :: u64) = mask 3" by (simp add: mask_eq_exp_minus_1)
  have high: "drop_bit 3 (wire_type_bits wt) = 0" and low: "wire_type_bits wt AND mask 3 = wire_type_bits wt"
    by (cases wt; simp add: drop_bit_eq_div mask_eq_exp_minus_1)+
  have "push_bit 3 (ucast f :: u64) AND mask 3 = 0"
    by (rule bit_word_eqI) (auto simp: bit_simps)
  then show "(push_bit 3 (ucast f) OR wire_type_bits wt) AND 0x7 = wire_type_bits wt"
    unfolding seven using low by (simp add: bit.conj_disj_distrib2)
  have "drop_bit 3 (push_bit 3 (ucast f :: u64)) = ucast f"
    by (rule bit_word_eqI) (auto simp: bit_simps dest: bit_imp_le_length)
  then show "drop_bit 3 (push_bit 3 (ucast f) OR wire_type_bits wt) = (ucast f :: u64)"
    using high by (simp add: drop_bit_or)
qed

lemma decode_tag_encode [simp]:
  assumes "field_number t \<noteq> 0"
  shows "decode_tag (encode_tag t [] @ rest) = Ok (t, length (encode_tag t []))"
proof -
  have less: "unat (field_number t) < 2 ^ 32" using unsigned_less [of "field_number t", where ?'a = nat] by simp
  then have "take_bit 64 (unat (field_number t)) = unat (field_number t)"
    by (intro take_bit_nat_eq_self) simp
  with less have "\<not> 2 ^ 32 \<le> unat (ucast (field_number t) :: u64)" by (simp add: unsigned_ucast_eq)
  moreover have "ucast (ucast (field_number t) :: u64) = field_number t"
    by (rule bit_word_eqI) (auto simp: bit_simps)
  moreover define v where "v = (push_bit 3 (ucast (field_number t)) OR wire_type_bits (wire_type t) :: u64)"
  then have "v AND 0x7 = wire_type_bits (wire_type t)" "drop_bit 3 v = ucast (field_number t)"
    using tag_bits [of "field_number t" "wire_type t"] by simp_all
  ultimately show ?thesis
    using assms by (simp add: decode_tag_def encode_tag_def Let_def flip: v_def)
qed

section \<open>No field reads past the end\<close>

lemma slice_from_ok [simp]: "i \<le> length xs \<Longrightarrow> slice_from xs i = Ok (drop i xs)"
  by (simp add: slice_from_def)

lemma decode_tag_bounds: "decode_tag bs = Ok (t, n) \<Longrightarrow> 0 < n \<and> n \<le> length bs"
  by (auto simp: decode_tag_def and_then_eq_Ok_iff Let_def dest: decode_varint_bounds split: if_splits)

lemma decode_length_delimited_bounds:
  "decode_length_delimited bs = Ok (value, n) \<Longrightarrow> 0 < n \<and> n \<le> length bs \<and> length value < n"
  by (auto simp: decode_length_delimited_def and_then_eq_Ok_iff slice_from_def dest!: decode_varint_bounds
      split: if_splits)

lemma decode_fixed_bounds:
  "decode_fixed32 bs = Ok (x, n) \<Longrightarrow> 0 < n \<and> n \<le> length bs"
  "decode_fixed64 bs = Ok (y, n) \<Longrightarrow> 0 < n \<and> n \<le> length bs"
  by (auto simp: decode_fixed32_def decode_fixed64_def split: if_splits)

lemma wire_decoders_not_Panic:
  "decode_tag bs \<noteq> Panic" "decode_length_delimited bs \<noteq> Panic"
  "decode_fixed32 bs \<noteq> Panic" "decode_fixed64 bs \<noteq> Panic" "skip_field wt bs \<noteq> Panic"
proof -
  show t: "decode_tag bs \<noteq> Panic"
    by (auto simp: decode_tag_def and_then_eq_Panic_iff decode_varint_not_Panic wire_type_of_bits_def Let_def)
  show l: "decode_length_delimited bs \<noteq> Panic"
    by (auto simp: decode_length_delimited_def and_then_eq_Panic_iff decode_varint_not_Panic
        dest!: decode_varint_bounds)
  show f: "decode_fixed32 bs \<noteq> Panic" "decode_fixed64 bs \<noteq> Panic"
    by (simp_all add: decode_fixed32_def decode_fixed64_def)
  show "skip_field wt bs \<noteq> Panic"
    using l f decode_varint_not_Panic [of bs]
    by (cases wt; cases "decode_varint bs"; cases "decode_length_delimited bs";
        cases "decode_fixed32 bs"; cases "decode_fixed64 bs"; simp)
qed

lemma skip_field_bounds: "skip_field wt bs = Ok n \<Longrightarrow> n \<le> length bs"
proof -
  assume "skip_field wt bs = Ok n"
  then show ?thesis
    by (cases wt; cases "decode_varint bs"; cases "decode_length_delimited bs";
        cases "decode_fixed32 bs"; cases "decode_fixed64 bs";
        auto dest: decode_varint_bounds decode_length_delimited_bounds decode_fixed_bounds)
qed

section \<open>The loop of a message decoder\<close>

text \<open>
  Every message decoder runs \<open>while offset < bytes.len()\<close>: it decodes a tag at the offset,
  lets the field's arm of the \<open>match\<close> read the field behind it, and advances. The arm gets the
  tag, the bytes from its offset and what was collected so far, and says how much it read.
  \<open>from_wire\<close> is the \<open>From\<close> conversion of the \<open>?\<close> operator.
\<close>

type_synonym ('acc, 'e) field = "Tag \<Rightarrow> bytes \<Rightarrow> 'acc \<Rightarrow> ('acc \<times> nat, 'e) result"

function decode_fields ::
    "(WireError \<Rightarrow> 'e) \<Rightarrow> ('acc, 'e) field \<Rightarrow> bytes \<Rightarrow> nat \<Rightarrow> 'acc \<Rightarrow> ('acc, 'e) result" where
  "decode_fields from_wire field bs offset acc =
     (if offset < length bs then
        and_then (slice_from bs offset) (\<lambda>at_tag.
        and_then (map_err from_wire (decode_tag at_tag)) (\<lambda>(tag, tag_len).
        if tag_len = 0 then Panic else
        and_then (slice_from bs (offset + tag_len)) (\<lambda>at_field.
        and_then (field tag at_field acc) (\<lambda>(acc', consumed).
        decode_fields from_wire field bs (offset + tag_len + consumed) acc'))))
      else Ok acc)"
  by pat_completeness auto
termination
  by (relation "measure (\<lambda>(_, _, bs, offset, _). length bs - offset)") auto

declare decode_fields.simps [simp del]

text \<open>The loop without offsets: the fields of a byte string, front to back.\<close>

function wire_fields ::
    "(WireError \<Rightarrow> 'e) \<Rightarrow> ('acc, 'e) field \<Rightarrow> bytes \<Rightarrow> 'acc \<Rightarrow> ('acc, 'e) result" where
  "wire_fields from_wire field bs acc =
     (if bs = [] then Ok acc
      else and_then (map_err from_wire (decode_tag bs)) (\<lambda>(tag, tag_len).
        if tag_len = 0 then Panic else
        and_then (field tag (drop tag_len bs) acc) (\<lambda>(acc', consumed).
        wire_fields from_wire field (drop (tag_len + consumed) bs) acc')))"
  by pat_completeness auto
termination
proof (relation "measure (\<lambda>(_, _, bs, _). length bs)", goal_cases)
  case (2 from_wire field bs acc x tag tag_len y acc' consumed)
  then have "tag_len \<noteq> 0" "bs \<noteq> []" by simp_all
  then show ?case by (cases bs) auto
qed simp

declare wire_fields.simps [simp del]

lemma fields_Nil [simp]: "wire_fields from_wire field [] acc = Ok acc"
  by (simp add: wire_fields.simps)

text \<open>What the loop needs of the arms: they stay within the bytes they are given.\<close>

locale message_fields =
  fixes from_wire :: "WireError \<Rightarrow> 'e"
    and field :: "('acc, 'e) field"
  assumes field_bounds: "field t bs acc = Ok (acc', n) \<Longrightarrow> n \<le> length bs"
    and field_no_panic: "field t bs acc \<noteq> Panic"
begin

lemma decode_fields_eq:
  "offset \<le> length bs \<Longrightarrow> decode_fields from_wire field bs offset acc = wire_fields from_wire field (drop offset bs) acc"
proof (induction "length bs - offset" arbitrary: offset acc rule: less_induct)
  case less
  show ?case
  proof (cases "offset < length bs")
    case True
    show ?thesis
    proof (cases "decode_tag (drop offset bs)")
      case (Ok r)
      obtain t n where r: "r = (t, n)" by fastforce
      have n: "0 < n" "offset + n \<le> length bs" using decode_tag_bounds [OF Ok [unfolded r]] True by auto
      show ?thesis
      proof (cases "field t (drop (offset + n) bs) acc")
        case step: (Ok p)
        obtain acc' k where p: "p = (acc', k)" by fastforce
        have "offset + n + k \<le> length bs" using field_bounds [OF step [unfolded p]] n by simp
        then have "decode_fields from_wire field bs (offset + n + k) acc'
            = wire_fields from_wire field (drop (offset + n + k) bs) acc'"
          using n True by (intro less.hyps) simp_all
        with Ok r step p n True show ?thesis
          by (subst decode_fields.simps, subst wire_fields.simps) (simp add: add.commute add.left_commute)
      qed (use Ok r n True in \<open>subst decode_fields.simps, subst wire_fields.simps, simp add: add.commute\<close>)+
    qed (use True in \<open>subst decode_fields.simps, subst wire_fields.simps, simp\<close>)+
  qed (use less.prems in \<open>subst decode_fields.simps, subst wire_fields.simps, simp\<close>)
qed

lemma fields_no_panic: "wire_fields from_wire field bs acc \<noteq> Panic"
proof (induction "length bs" arbitrary: bs acc rule: less_induct)
  case less
  show ?case
  proof (cases "bs = []")
    case False
    show ?thesis
    proof (cases "decode_tag bs")
      case (Ok r)
      obtain t n where r: "r = (t, n)" by fastforce
      have n: "0 < n" using decode_tag_bounds [OF Ok [unfolded r]] by simp
      show ?thesis
      proof (cases "field t (drop n bs) acc")
        case step: (Ok p)
        obtain acc' k where p: "p = (acc', k)" by fastforce
        have "length (drop (n + k) bs) < length bs" using n False by (cases bs) auto
        from less.hyps [OF this] Ok r step p n False show ?thesis
          by (subst wire_fields.simps) simp
      qed (use Ok r n False field_no_panic in \<open>subst wire_fields.simps, simp\<close>)+
    qed (use False wire_decoders_not_Panic(1) in \<open>subst wire_fields.simps, simp\<close>)+
  qed (simp add: wire_fields.simps)
qed

lemma decode_no_panic: "decode_fields from_wire field bs 0 acc \<noteq> Panic"
  using decode_fields_eq [of 0 bs acc] fields_no_panic by simp

end

section \<open>What an encoder appends\<close>

text \<open>Each encoder appends a fixed byte string to its buffer; these are the strings.\<close>

named_theorems appends

definition varint_bytes_of :: "u64 \<Rightarrow> bytes" where
  "varint_bytes_of v = encode_varint v []"

definition tag_bytes :: "Tag \<Rightarrow> bytes" where
  "tag_bytes t = encode_tag t []"

definition delimited_bytes :: "bytes \<Rightarrow> bytes" where
  "delimited_bytes value = encode_length_delimited value []"

lemma encode_appends [appends]:
  "encode_varint v buffer = buffer @ varint_bytes_of v"
  "encode_tag t buffer = buffer @ tag_bytes t"
  "encode_length_delimited value buffer = buffer @ delimited_bytes value"
  "encode_fixed32 w buffer = buffer @ le_bytes 4 w"
  "encode_fixed64 x buffer = buffer @ le_bytes 8 x"
proof -
  show varint: "encode_varint v buffer = buffer @ varint_bytes_of v" for v buffer
    using encode_varint_append [of v buffer] by (simp only: varint_bytes_of_def)
  show "encode_tag t buffer = buffer @ tag_bytes t"
    by (simp add: encode_tag_def tag_bytes_def varint)
  show "encode_length_delimited value buffer = buffer @ delimited_bytes value"
    by (simp add: encode_length_delimited_def delimited_bytes_def varint)
  show "encode_fixed32 w buffer = buffer @ le_bytes 4 w" "encode_fixed64 x buffer = buffer @ le_bytes 8 x"
    by (simp_all add: encode_fixed32_def encode_fixed64_def)
qed

lemma decode_appended [simp]:
  "decode_varint (varint_bytes_of v @ rest) = Ok (v, length (varint_bytes_of v))"
  "decode_fixed32 (le_bytes 4 w @ rest) = Ok (w, 4)"
  "decode_fixed64 (le_bytes 8 x @ rest) = Ok (x, 8)"
  "length content < 2 ^ 64 \<Longrightarrow>
     decode_length_delimited (delimited_bytes content @ rest) = Ok (content, length (delimited_bytes content))"
  using decode_varint_encode [of v rest] decode_fixed_encode(1) [of w rest]
    decode_fixed_encode(2) [of x rest] decode_length_delimited_encode [of content rest]
  by (simp_all add: varint_bytes_of_def delimited_bytes_def encode_fixed32_def encode_fixed64_def)

lemma length_delimited_bytes: "length value < length (delimited_bytes value)"
  using length_encode_varint [of "of_nat (length value)"]
  by (simp add: delimited_bytes_def encode_length_delimited_def)

text \<open>A well-formed field is read and the loop goes on behind it.\<close>

lemma fields_tag:
  assumes "field_number t \<noteq> 0"
  shows "wire_fields from_wire field (tag_bytes t @ rest) acc =
     and_then (field t rest acc) (\<lambda>(acc', consumed). wire_fields from_wire field (drop consumed rest) acc')"
proof -
  have "encode_tag t [] \<noteq> []" using length_encode_varint by (auto simp: encode_tag_def)
  with assms show ?thesis
    unfolding tag_bytes_def by (subst wire_fields.simps) simp
qed

text \<open>A repeated field: each occurrence is pushed, in order.\<close>

lemma fields_repeated:
  assumes "\<And>x acc rest. x \<in> set xs \<Longrightarrow>
      wire_fields f field (encode x @ rest) acc = wire_fields f field rest (push x acc)"
  shows "wire_fields f field (concat (map encode xs) @ rest) acc = wire_fields f field rest (fold push xs acc)"
  using assms by (induction xs arbitrary: acc) simp_all

lemma fold_encode_append:
  assumes "\<And>x buffer. encode x buffer = buffer @ one x"
  shows "fold encode xs buffer = buffer @ concat (map one xs)"
  using assms by (induction xs arbitrary: buffer) simp_all

lemma length_concat_member: "x \<in> set xs \<Longrightarrow> length (f x) \<le> length (concat (map f xs))"
  by (induction xs) auto

lemma length_delimited_bound: "length (delimited_bytes bs) \<le> n \<Longrightarrow> n < 2 ^ 64 \<Longrightarrow> length bs < 2 ^ 64"
  using length_delimited_bytes [of bs] by simp

lemma ucast_u32_u64 [simp]: "(ucast (ucast (x :: u32) :: u64) :: u32) = x"
  by (simp add: ucast_up_ucast_id is_up)

section \<open>Arms\<close>

text \<open>
  The shape every arm of a decoder's \<open>match\<close> has: one wire decoder reads at the field, what it
  found changes the fields collected so far, and the offset advances by what was consumed.
\<close>

definition arm ::
    "(WireError \<Rightarrow> 'e) \<Rightarrow> (bytes \<Rightarrow> ('a \<times> nat, WireError) result) \<Rightarrow> ('a \<Rightarrow> ('acc, 'e) result)
     \<Rightarrow> bytes \<Rightarrow> ('acc \<times> nat, 'e) result" where
  "arm from_wire decode update at_field =
     and_then (map_err from_wire (decode at_field)) (\<lambda>(x, consumed).
     and_then (update x) (\<lambda>acc. Ok (acc, consumed)))"

text \<open>The last arm: a field of an unknown number is skipped by its wire type.\<close>

definition skip_arm :: "(WireError \<Rightarrow> 'e) \<Rightarrow> ('acc, 'e) field" where
  "skip_arm from_wire tag at_field acc =
     and_then (map_err from_wire (skip_field (wire_type tag) at_field)) (\<lambda>consumed. Ok (acc, consumed))"

definition wire_decoder :: "(bytes \<Rightarrow> ('a \<times> nat, WireError) result) \<Rightarrow> bool" where
  "wire_decoder decode \<longleftrightarrow>
     (\<forall>bs. decode bs \<noteq> Panic \<and> (\<forall>x n. decode bs = Ok (x, n) \<longrightarrow> n \<le> length bs))"

lemma wire_decoders [simp]:
  "wire_decoder decode_varint" "wire_decoder decode_length_delimited"
  "wire_decoder decode_fixed32" "wire_decoder decode_fixed64"
  unfolding wire_decoder_def
  by (auto simp: wire_decoders_not_Panic decode_varint_not_Panic
      dest: decode_varint_bounds decode_length_delimited_bounds decode_fixed_bounds)

lemma arm_bounds:
  "arm f decode u bs = Ok (acc, n) \<Longrightarrow> wire_decoder decode \<Longrightarrow> n \<le> length bs"
  by (auto simp: arm_def wire_decoder_def and_then_eq_Ok_iff split: prod.splits)

lemma skip_arm_bounds: "skip_arm f t bs acc = Ok (acc', n) \<Longrightarrow> n \<le> length bs"
  using skip_field_bounds [of "wire_type t" bs] by (auto simp: skip_arm_def and_then_eq_Ok_iff)

lemma arm_no_panic:
  "wire_decoder decode \<Longrightarrow> (\<And>x. u x \<noteq> Panic) \<Longrightarrow> arm f decode u bs \<noteq> Panic"
  by (auto simp: arm_def wire_decoder_def and_then_eq_Panic_iff split: prod.splits)

lemma skip_arm_no_panic [simp]: "skip_arm f t bs acc \<noteq> Panic"
  by (auto simp: skip_arm_def and_then_eq_Panic_iff wire_decoders_not_Panic)

lemma arm_appended [simp]:
  "arm f decode_varint u (varint_bytes_of v @ rest)
     = and_then (u v) (\<lambda>acc. Ok (acc, length (varint_bytes_of v)))"
  "arm f decode_fixed32 u' (le_bytes 4 w @ rest) = and_then (u' w) (\<lambda>acc. Ok (acc, 4))"
  "arm f decode_fixed64 u'' (le_bytes 8 x @ rest) = and_then (u'' x) (\<lambda>acc. Ok (acc, 8))"
  by (simp_all add: arm_def)

lemma arm_last [simp]:
  "arm f decode_varint u (varint_bytes_of v) = and_then (u v) (\<lambda>acc. Ok (acc, length (varint_bytes_of v)))"
  "arm f decode_fixed32 u' (le_bytes 4 w) = and_then (u' w) (\<lambda>acc. Ok (acc, 4))"
  "arm f decode_fixed64 u'' (le_bytes 8 x) = and_then (u'' x) (\<lambda>acc. Ok (acc, 8))"
  using arm_appended [where rest = "[]"] by simp_all

lemma arm_delimited [simp]:
  "length content < 2 ^ 64 \<Longrightarrow>
     arm f decode_length_delimited u (delimited_bytes content @ rest)
       = and_then (u content) (\<lambda>acc. Ok (acc, length (delimited_bytes content)))"
  by (simp add: arm_def)

lemma arm_delimited_last [simp]:
  "length content < 2 ^ 64 \<Longrightarrow>
     arm f decode_length_delimited u (delimited_bytes content)
       = and_then (u content) (\<lambda>acc. Ok (acc, length (delimited_bytes content)))"
  using arm_delimited [where rest = "[]"] by simp

end
