(* ===== verification/Sparkplug_Property.thy ===== *)
theory Sparkplug_Property
  imports Sparkplug_Wire
begin

text \<open>
  The data type codes of the Sparkplug payload (\<open>sparkplug/src/data_type.rs\<close>) and the property
  messages of \<open>sparkplug/src/property.rs\<close>. A float is its bit pattern, so \<open>to_bits\<close> and
  \<open>from_bits\<close> are the identity. An error struct that only carries the code is that code.
\<close>

section \<open>Data types\<close>

datatype SparkplugDataType =
    Unknown
  | Int8 | Int16 | Int32 | Int64 | UInt8 | UInt16 | UInt32 | UInt64 | Float | Double | Boolean
  | String | DateTime | Text | Uuid | DataSet | Bytes | File | Template | PropertySet
  | PropertySetList | Int8Array | Int16Array | Int32Array | Int64Array | UInt8Array
  | UInt16Array | UInt32Array | UInt64Array | FloatArray | DoubleArray | BooleanArray
  | StringArray | DateTimeArray

fun data_type_code :: "SparkplugDataType \<Rightarrow> u32" where
  "data_type_code SparkplugDataType.Unknown = 0"
| "data_type_code SparkplugDataType.Int8 = 1"
| "data_type_code SparkplugDataType.Int16 = 2"
| "data_type_code SparkplugDataType.Int32 = 3"
| "data_type_code SparkplugDataType.Int64 = 4"
| "data_type_code SparkplugDataType.UInt8 = 5"
| "data_type_code SparkplugDataType.UInt16 = 6"
| "data_type_code SparkplugDataType.UInt32 = 7"
| "data_type_code SparkplugDataType.UInt64 = 8"
| "data_type_code SparkplugDataType.Float = 9"
| "data_type_code SparkplugDataType.Double = 10"
| "data_type_code SparkplugDataType.Boolean = 11"
| "data_type_code SparkplugDataType.String = 12"
| "data_type_code SparkplugDataType.DateTime = 13"
| "data_type_code SparkplugDataType.Text = 14"
| "data_type_code SparkplugDataType.Uuid = 15"
| "data_type_code SparkplugDataType.DataSet = 16"
| "data_type_code SparkplugDataType.Bytes = 17"
| "data_type_code SparkplugDataType.File = 18"
| "data_type_code SparkplugDataType.Template = 19"
| "data_type_code SparkplugDataType.PropertySet = 20"
| "data_type_code SparkplugDataType.PropertySetList = 21"
| "data_type_code SparkplugDataType.Int8Array = 22"
| "data_type_code SparkplugDataType.Int16Array = 23"
| "data_type_code SparkplugDataType.Int32Array = 24"
| "data_type_code SparkplugDataType.Int64Array = 25"
| "data_type_code SparkplugDataType.UInt8Array = 26"
| "data_type_code SparkplugDataType.UInt16Array = 27"
| "data_type_code SparkplugDataType.UInt32Array = 28"
| "data_type_code SparkplugDataType.UInt64Array = 29"
| "data_type_code SparkplugDataType.FloatArray = 30"
| "data_type_code SparkplugDataType.DoubleArray = 31"
| "data_type_code SparkplugDataType.BooleanArray = 32"
| "data_type_code SparkplugDataType.StringArray = 33"
| "data_type_code SparkplugDataType.DateTimeArray = 34"

definition data_type_of_code :: "u32 \<Rightarrow> (SparkplugDataType, u32) result" where
  "data_type_of_code code =
     (if code = 0 then Ok SparkplugDataType.Unknown
      else if code = 1 then Ok SparkplugDataType.Int8
      else if code = 2 then Ok SparkplugDataType.Int16
      else if code = 3 then Ok SparkplugDataType.Int32
      else if code = 4 then Ok SparkplugDataType.Int64
      else if code = 5 then Ok SparkplugDataType.UInt8
      else if code = 6 then Ok SparkplugDataType.UInt16
      else if code = 7 then Ok SparkplugDataType.UInt32
      else if code = 8 then Ok SparkplugDataType.UInt64
      else if code = 9 then Ok SparkplugDataType.Float
      else if code = 10 then Ok SparkplugDataType.Double
      else if code = 11 then Ok SparkplugDataType.Boolean
      else if code = 12 then Ok SparkplugDataType.String
      else if code = 13 then Ok SparkplugDataType.DateTime
      else if code = 14 then Ok SparkplugDataType.Text
      else if code = 15 then Ok SparkplugDataType.Uuid
      else if code = 16 then Ok SparkplugDataType.DataSet
      else if code = 17 then Ok SparkplugDataType.Bytes
      else if code = 18 then Ok SparkplugDataType.File
      else if code = 19 then Ok SparkplugDataType.Template
      else if code = 20 then Ok SparkplugDataType.PropertySet
      else if code = 21 then Ok SparkplugDataType.PropertySetList
      else if code = 22 then Ok SparkplugDataType.Int8Array
      else if code = 23 then Ok SparkplugDataType.Int16Array
      else if code = 24 then Ok SparkplugDataType.Int32Array
      else if code = 25 then Ok SparkplugDataType.Int64Array
      else if code = 26 then Ok SparkplugDataType.UInt8Array
      else if code = 27 then Ok SparkplugDataType.UInt16Array
      else if code = 28 then Ok SparkplugDataType.UInt32Array
      else if code = 29 then Ok SparkplugDataType.UInt64Array
      else if code = 30 then Ok SparkplugDataType.FloatArray
      else if code = 31 then Ok SparkplugDataType.DoubleArray
      else if code = 32 then Ok SparkplugDataType.BooleanArray
      else if code = 33 then Ok SparkplugDataType.StringArray
      else if code = 34 then Ok SparkplugDataType.DateTimeArray
      else Err code)"

lemma data_type_of_code_code [simp]: "data_type_of_code (data_type_code t) = Ok t"
  by (cases t) (simp_all add: data_type_of_code_def)

lemma data_type_of_code_no_panic [simp]: "data_type_of_code code \<noteq> Panic"
  by (simp add: data_type_of_code_def)

text \<open>The codes of properties are another enumeration.\<close>

datatype PropertyDataType =
    Unknown
  | Int32 | Int64 | UInt32 | UInt64 | Float | Double | Boolean | String | DateTime | Text
  | Uuid | DataSet | Bytes | File | PropertySet | PropertySetList

fun property_data_type_code :: "PropertyDataType \<Rightarrow> u32" where
  "property_data_type_code PropertyDataType.Unknown = 0"
| "property_data_type_code PropertyDataType.Int32 = 1"
| "property_data_type_code PropertyDataType.Int64 = 2"
| "property_data_type_code PropertyDataType.UInt32 = 3"
| "property_data_type_code PropertyDataType.UInt64 = 4"
| "property_data_type_code PropertyDataType.Float = 5"
| "property_data_type_code PropertyDataType.Double = 6"
| "property_data_type_code PropertyDataType.Boolean = 7"
| "property_data_type_code PropertyDataType.String = 8"
| "property_data_type_code PropertyDataType.DateTime = 9"
| "property_data_type_code PropertyDataType.Text = 10"
| "property_data_type_code PropertyDataType.Uuid = 11"
| "property_data_type_code PropertyDataType.DataSet = 12"
| "property_data_type_code PropertyDataType.Bytes = 13"
| "property_data_type_code PropertyDataType.File = 14"
| "property_data_type_code PropertyDataType.PropertySet = 15"
| "property_data_type_code PropertyDataType.PropertySetList = 16"

definition property_data_type_of_code :: "u32 \<Rightarrow> (PropertyDataType, u32) result" where
  "property_data_type_of_code code =
     (if code = 0 then Ok PropertyDataType.Unknown
      else if code = 1 then Ok PropertyDataType.Int32
      else if code = 2 then Ok PropertyDataType.Int64
      else if code = 3 then Ok PropertyDataType.UInt32
      else if code = 4 then Ok PropertyDataType.UInt64
      else if code = 5 then Ok PropertyDataType.Float
      else if code = 6 then Ok PropertyDataType.Double
      else if code = 7 then Ok PropertyDataType.Boolean
      else if code = 8 then Ok PropertyDataType.String
      else if code = 9 then Ok PropertyDataType.DateTime
      else if code = 10 then Ok PropertyDataType.Text
      else if code = 11 then Ok PropertyDataType.Uuid
      else if code = 12 then Ok PropertyDataType.DataSet
      else if code = 13 then Ok PropertyDataType.Bytes
      else if code = 14 then Ok PropertyDataType.File
      else if code = 15 then Ok PropertyDataType.PropertySet
      else if code = 16 then Ok PropertyDataType.PropertySetList
      else Err code)"

lemma property_data_type_of_code_code [simp]: "property_data_type_of_code (property_data_type_code t) = Ok t"
  by (cases t) (simp_all add: property_data_type_of_code_def)

lemma property_data_type_of_code_no_panic [simp]: "property_data_type_of_code code \<noteq> Panic"
  by (simp add: property_data_type_of_code_def)

section \<open>Properties\<close>

definition PROPERTY_FIELD_TYPE :: u32 where [simp]: "PROPERTY_FIELD_TYPE = 1"
definition PROPERTY_FIELD_INT_VALUE :: u32 where [simp]: "PROPERTY_FIELD_INT_VALUE = 3"
definition PROPERTY_FIELD_LONG_VALUE :: u32 where [simp]: "PROPERTY_FIELD_LONG_VALUE = 4"
definition PROPERTY_FIELD_FLOAT_VALUE :: u32 where [simp]: "PROPERTY_FIELD_FLOAT_VALUE = 5"
definition PROPERTY_FIELD_DOUBLE_VALUE :: u32 where [simp]: "PROPERTY_FIELD_DOUBLE_VALUE = 6"
definition PROPERTY_FIELD_BOOLEAN_VALUE :: u32 where [simp]: "PROPERTY_FIELD_BOOLEAN_VALUE = 7"
definition PROPERTY_FIELD_STRING_VALUE :: u32 where [simp]: "PROPERTY_FIELD_STRING_VALUE = 8"
definition PROPERTY_FIELD_BYTES_VALUE :: u32 where [simp]: "PROPERTY_FIELD_BYTES_VALUE = 9"

definition PROPERTY_SET_FIELD_KEYS :: u32 where [simp]: "PROPERTY_SET_FIELD_KEYS = 1"
definition PROPERTY_SET_FIELD_VALUES :: u32 where [simp]: "PROPERTY_SET_FIELD_VALUES = 2"

datatype PropertyValue =
    Int u32
  | Long u64
  | Float u32
  | Double u64
  | Boolean bool
  | String string
  | Bytes bytes

record Property =
  property_type :: PropertyDataType
  property_value :: PropertyValue

record PropertySet =
  entries :: "(string \<times> Property) list"

datatype PropertyError =
    PropertyWire WireError
  | PropertyMissingDataType
  | PropertyMissingValue
  | PropertyUnknownDataTypeCode u32
  | MismatchedKeyValueCounts nat nat

abbreviation tag_of :: "u32 \<Rightarrow> WireType \<Rightarrow> Tag" where
  "tag_of n wt \<equiv> \<lparr>field_number = n, wire_type = wt\<rparr>"

definition encode_property :: "Property \<Rightarrow> bytes \<Rightarrow> bytes" where
  "encode_property property buffer =
     (let buffer = encode_tag (tag_of PROPERTY_FIELD_TYPE Varint) buffer;
          buffer = encode_varint (ucast (property_data_type_code (property_type property))) buffer
      in case property_value property of
        PropertyValue.Int v \<Rightarrow>
          encode_varint (ucast v) (encode_tag (tag_of PROPERTY_FIELD_INT_VALUE Varint) buffer)
      | PropertyValue.Long v \<Rightarrow>
          encode_varint v (encode_tag (tag_of PROPERTY_FIELD_LONG_VALUE Varint) buffer)
      | PropertyValue.Float v \<Rightarrow>
          encode_fixed32 v (encode_tag (tag_of PROPERTY_FIELD_FLOAT_VALUE Fixed32) buffer)
      | PropertyValue.Double v \<Rightarrow>
          encode_fixed64 v (encode_tag (tag_of PROPERTY_FIELD_DOUBLE_VALUE Fixed64) buffer)
      | PropertyValue.Boolean v \<Rightarrow>
          encode_varint (of_bool v) (encode_tag (tag_of PROPERTY_FIELD_BOOLEAN_VALUE Varint) buffer)
      | PropertyValue.String v \<Rightarrow>
          encode_length_delimited (as_bytes v)
            (encode_tag (tag_of PROPERTY_FIELD_STRING_VALUE LengthDelimited) buffer)
      | PropertyValue.Bytes v \<Rightarrow>
          encode_length_delimited v
            (encode_tag (tag_of PROPERTY_FIELD_BYTES_VALUE LengthDelimited) buffer))"

text \<open>The arms of the loop of \<open>decode_property\<close>, on the type and the value found so far.\<close>

definition property_field ::
    "(PropertyDataType option \<times> PropertyValue option, PropertyError) field" where
  "property_field tag at acc =
     (let (dt, v) = acc; n = field_number tag in
      if n = PROPERTY_FIELD_TYPE then
        arm PropertyWire decode_varint (\<lambda>raw.
          let code = ucast raw :: u32 in
          map_ok (\<lambda>t. (Some t, v))
            (map_err (\<lambda>_. PropertyUnknownDataTypeCode code) (property_data_type_of_code code))) at
      else if n = PROPERTY_FIELD_INT_VALUE then
        arm PropertyWire decode_varint (\<lambda>raw. Ok (dt, Some (PropertyValue.Int (ucast raw)))) at
      else if n = PROPERTY_FIELD_LONG_VALUE then
        arm PropertyWire decode_varint (\<lambda>raw. Ok (dt, Some (PropertyValue.Long raw))) at
      else if n = PROPERTY_FIELD_FLOAT_VALUE then
        arm PropertyWire decode_fixed32 (\<lambda>raw. Ok (dt, Some (PropertyValue.Float raw))) at
      else if n = PROPERTY_FIELD_DOUBLE_VALUE then
        arm PropertyWire decode_fixed64 (\<lambda>raw. Ok (dt, Some (PropertyValue.Double raw))) at
      else if n = PROPERTY_FIELD_BOOLEAN_VALUE then
        arm PropertyWire decode_varint (\<lambda>raw. Ok (dt, Some (PropertyValue.Boolean (raw \<noteq> 0)))) at
      else if n = PROPERTY_FIELD_STRING_VALUE then
        arm PropertyWire decode_length_delimited
          (\<lambda>bs. Ok (dt, Some (PropertyValue.String (from_utf8_lossy bs)))) at
      else if n = PROPERTY_FIELD_BYTES_VALUE then
        arm PropertyWire decode_length_delimited (\<lambda>bs. Ok (dt, Some (PropertyValue.Bytes bs))) at
      else skip_arm PropertyWire tag at acc)"

definition decode_property :: "bytes \<Rightarrow> (Property, PropertyError) result" where
  "decode_property bs =
     and_then (decode_fields PropertyWire property_field bs 0 (None, None)) (\<lambda>(dt, v).
     and_then (ok_or PropertyMissingDataType dt) (\<lambda>dt.
     and_then (ok_or PropertyMissingValue v) (\<lambda>v.
     Ok \<lparr>property_type = dt, property_value = v\<rparr>)))"

interpretation property: message_fields PropertyWire property_field
proof
  show "n \<le> length bs" if "property_field t bs acc = Ok (acc', n)" for t bs acc acc' n
    using that by (auto simp: property_field_def Let_def split: prod.splits if_splits
        dest: arm_bounds skip_arm_bounds)
  show "property_field t bs acc \<noteq> Panic" for t bs acc
    by (auto simp: property_field_def Let_def arm_no_panic split: prod.splits)
qed


text \<open>A property set: the keys and the values are two repeated fields, paired up by position.\<close>

definition encode_property_set :: "PropertySet \<Rightarrow> bytes \<Rightarrow> bytes" where
  "encode_property_set property_set buffer =
     fold (\<lambda>(key, property) buffer.
       let buffer = encode_tag (tag_of PROPERTY_SET_FIELD_KEYS LengthDelimited) buffer;
           buffer = encode_length_delimited (as_bytes key) buffer;
           buffer = encode_tag (tag_of PROPERTY_SET_FIELD_VALUES LengthDelimited) buffer;
           property_bytes = encode_property property []
       in encode_length_delimited property_bytes buffer) (entries property_set) buffer"

definition property_set_field :: "(string list \<times> Property list, PropertyError) field" where
  "property_set_field tag at acc =
     (let (keys, vals) = acc; n = field_number tag in
      if n = PROPERTY_SET_FIELD_KEYS then
        arm PropertyWire decode_length_delimited (\<lambda>bs. Ok (keys @ [from_utf8_lossy bs], vals)) at
      else if n = PROPERTY_SET_FIELD_VALUES then
        arm PropertyWire decode_length_delimited
          (\<lambda>bs. map_ok (\<lambda>p. (keys, vals @ [p])) (decode_property bs)) at
      else skip_arm PropertyWire tag at acc)"

definition decode_property_set :: "bytes \<Rightarrow> (PropertySet, PropertyError) result" where
  "decode_property_set bs =
     and_then (decode_fields PropertyWire property_set_field bs 0 ([], [])) (\<lambda>(keys, vals).
     if length keys \<noteq> length vals then Err (MismatchedKeyValueCounts (length keys) (length vals))
     else Ok \<lparr>entries = zip keys vals\<rparr>)"

lemma decode_property_no_panic [simp]: "decode_property bs \<noteq> Panic"
  using property.decode_no_panic by (auto simp: decode_property_def and_then_eq_Panic_iff)

interpretation property_set: message_fields PropertyWire property_set_field
proof
  show "n \<le> length bs" if "property_set_field t bs acc = Ok (acc', n)" for t bs acc acc' n
    using that by (auto simp: property_set_field_def Let_def split: prod.splits if_splits
        dest: arm_bounds skip_arm_bounds)
  show "property_set_field t bs acc \<noteq> Panic" for t bs acc
    by (auto simp: property_set_field_def Let_def arm_no_panic split: prod.splits)
qed

lemma decode_property_set_no_panic [simp]: "decode_property_set bs \<noteq> Panic"
  using property_set.decode_no_panic by (auto simp: decode_property_set_def and_then_eq_Panic_iff)

section \<open>Properties round trip\<close>

text \<open>A string survives \<open>from_utf8_lossy\<close> when its bytes are UTF-8, which a Rust \<open>String\<close> is.\<close>

definition utf8_string :: "string \<Rightarrow> bool" where
  "utf8_string s \<longleftrightarrow> valid_utf8 (as_bytes s)"

lemma from_utf8_lossy_utf8_string [simp]: "utf8_string s \<Longrightarrow> from_utf8_lossy (as_bytes s) = s"
  by (simp add: utf8_string_def)

fun property_value_ok :: "PropertyValue \<Rightarrow> bool" where
  "property_value_ok (PropertyValue.String s) = utf8_string s"
| "property_value_ok _ = True"

definition property_set_ok :: "PropertySet \<Rightarrow> bool" where
  "property_set_ok ps \<longleftrightarrow>
     list_all (\<lambda>(key, p). utf8_string key \<and> property_value_ok (property_value p)) (entries ps)"

lemma decode_encode_property [simp]:
  assumes "property_value_ok (property_value p)" and "length (encode_property p []) < 2 ^ 64"
  shows "decode_property (encode_property p []) = Ok p"
proof -
  let ?t = "property_type p"
  have short: "length bs < 2 ^ 64"
    if "property_value p = PropertyValue.Bytes bs \<or> (\<exists>s. property_value p = PropertyValue.String s \<and> bs = as_bytes s)" for bs
    using that assms(2) length_delimited_bytes [of bs] by (auto simp: encode_property_def Let_def appends)
  have "wire_fields PropertyWire property_field (encode_property p []) (None, None)
      = Ok (Some ?t, Some (property_value p))"
    using assms(1) short
    by (cases "property_value p")
      (simp_all add: encode_property_def Let_def appends fields_tag property_field_def)
  then show ?thesis by (simp add: decode_property_def property.decode_fields_eq)
qed

definition entry_bytes :: "string \<times> Property \<Rightarrow> bytes" where
  "entry_bytes e =
     tag_bytes (tag_of PROPERTY_SET_FIELD_KEYS LengthDelimited) @ delimited_bytes (as_bytes (fst e))
     @ tag_bytes (tag_of PROPERTY_SET_FIELD_VALUES LengthDelimited)
     @ delimited_bytes (encode_property (snd e) [])"

lemma encode_property_set_append:
  "encode_property_set ps buffer = buffer @ concat (map entry_bytes (entries ps))"
  unfolding encode_property_set_def
  by (rule fold_encode_append) (simp add: appends entry_bytes_def Let_def split: prod.splits)

lemma decode_encode_property_set [simp]:
  assumes ok: "property_set_ok ps" and short: "length (encode_property_set ps []) < 2 ^ 64"
  shows "decode_property_set (encode_property_set ps []) = Ok ps"
proof -
  let ?push = "\<lambda>e (keys, vals). (keys @ [fst e], vals @ [snd e])"
  have entry: "wire_fields PropertyWire property_set_field (entry_bytes e @ rest) acc
      = wire_fields PropertyWire property_set_field rest (?push e acc)"
    if "e \<in> set (entries ps)" for e acc rest
  proof -
    have "length (entry_bytes e) < 2 ^ 64"
      using length_concat_member [OF that, of entry_bytes] short by (simp add: encode_property_set_append)
    then have "length (as_bytes (fst e)) < 2 ^ 64" "length (encode_property (snd e) []) < 2 ^ 64"
      using length_delimited_bytes [of "as_bytes (fst e)"] length_delimited_bytes [of "encode_property (snd e) []"]
      by (simp_all add: entry_bytes_def)
    with that ok show ?thesis
      by (cases acc) (auto simp: property_set_ok_def list_all_iff entry_bytes_def fields_tag property_set_field_def)
  qed
  have push: "fold ?push es (keys, vals) = (keys @ map fst es, vals @ map snd es)" for es keys vals
    by (induction es arbitrary: keys vals) simp_all
  show ?thesis
    using fields_repeated [of "entries ps" PropertyWire property_set_field entry_bytes ?push "[]" "([], [])", OF entry]
    by (simp add: decode_property_set_def property_set.decode_fields_eq encode_property_set_append push zip_map_fst_snd)
qed

end
