(* ===== verification/Sparkplug_Data_Set.thy ===== *)
theory Sparkplug_Data_Set
  imports Sparkplug_Property
begin

text \<open>
  The table message of a Sparkplug payload (\<open>sparkplug/src/data_set.rs\<close>): values, rows, and the
  table with its named and typed columns.
\<close>

section \<open>Values and rows\<close>

definition ROW_FIELD_ELEMENTS :: u32 where [simp]: "ROW_FIELD_ELEMENTS = 1"

definition DATA_SET_FIELD_COLUMNS :: u32 where [simp]: "DATA_SET_FIELD_COLUMNS = 2"
definition DATA_SET_FIELD_TYPES :: u32 where [simp]: "DATA_SET_FIELD_TYPES = 3"
definition DATA_SET_FIELD_ROWS :: u32 where [simp]: "DATA_SET_FIELD_ROWS = 4"

definition VALUE_FIELD_INT :: u32 where [simp]: "VALUE_FIELD_INT = 1"
definition VALUE_FIELD_LONG :: u32 where [simp]: "VALUE_FIELD_LONG = 2"
definition VALUE_FIELD_FLOAT :: u32 where [simp]: "VALUE_FIELD_FLOAT = 3"
definition VALUE_FIELD_DOUBLE :: u32 where [simp]: "VALUE_FIELD_DOUBLE = 4"
definition VALUE_FIELD_BOOLEAN :: u32 where [simp]: "VALUE_FIELD_BOOLEAN = 5"
definition VALUE_FIELD_STRING :: u32 where [simp]: "VALUE_FIELD_STRING = 6"
definition VALUE_FIELD_BYTES :: u32 where [simp]: "VALUE_FIELD_BYTES = 7"

datatype DataSetValue =
    Int u32
  | Long u64
  | Float u32
  | Double u64
  | Boolean bool
  | String string
  | Bytes bytes

record Row =
  elements :: "DataSetValue list"

record DataSet =
  columns :: "string list"
  types :: "SparkplugDataType list"
  rows :: "Row list"

datatype DataSetError =
    DataSetWire WireError
  | DataSetMissingValue
  | DataSetUnknownDataTypeCode u32
  | MismatchedColumnsAndTypes nat nat
  | RowLengthMismatch nat nat nat

fun encode_data_set_value :: "DataSetValue \<Rightarrow> bytes \<Rightarrow> bytes" where
  "encode_data_set_value (DataSetValue.Int v) buffer =
     encode_varint (ucast v) (encode_tag (tag_of VALUE_FIELD_INT Varint) buffer)"
| "encode_data_set_value (DataSetValue.Long v) buffer =
     encode_varint v (encode_tag (tag_of VALUE_FIELD_LONG Varint) buffer)"
| "encode_data_set_value (DataSetValue.Float v) buffer =
     encode_fixed32 v (encode_tag (tag_of VALUE_FIELD_FLOAT Fixed32) buffer)"
| "encode_data_set_value (DataSetValue.Double v) buffer =
     encode_fixed64 v (encode_tag (tag_of VALUE_FIELD_DOUBLE Fixed64) buffer)"
| "encode_data_set_value (DataSetValue.Boolean v) buffer =
     encode_varint (of_bool v) (encode_tag (tag_of VALUE_FIELD_BOOLEAN Varint) buffer)"
| "encode_data_set_value (DataSetValue.String v) buffer =
     encode_length_delimited (as_bytes v) (encode_tag (tag_of VALUE_FIELD_STRING LengthDelimited) buffer)"
| "encode_data_set_value (DataSetValue.Bytes v) buffer =
     encode_length_delimited v (encode_tag (tag_of VALUE_FIELD_BYTES LengthDelimited) buffer)"

definition data_set_value_field :: "(DataSetValue option, DataSetError) field" where
  "data_set_value_field tag at acc =
     (let n = field_number tag in
      if n = VALUE_FIELD_INT then
        arm DataSetWire decode_varint (\<lambda>raw. Ok (Some (DataSetValue.Int (ucast raw)))) at
      else if n = VALUE_FIELD_LONG then
        arm DataSetWire decode_varint (\<lambda>raw. Ok (Some (DataSetValue.Long raw))) at
      else if n = VALUE_FIELD_FLOAT then
        arm DataSetWire decode_fixed32 (\<lambda>raw. Ok (Some (DataSetValue.Float raw))) at
      else if n = VALUE_FIELD_DOUBLE then
        arm DataSetWire decode_fixed64 (\<lambda>raw. Ok (Some (DataSetValue.Double raw))) at
      else if n = VALUE_FIELD_BOOLEAN then
        arm DataSetWire decode_varint (\<lambda>raw. Ok (Some (DataSetValue.Boolean (raw \<noteq> 0)))) at
      else if n = VALUE_FIELD_STRING then
        arm DataSetWire decode_length_delimited
          (\<lambda>bs. Ok (Some (DataSetValue.String (from_utf8_lossy bs)))) at
      else if n = VALUE_FIELD_BYTES then
        arm DataSetWire decode_length_delimited (\<lambda>bs. Ok (Some (DataSetValue.Bytes bs))) at
      else skip_arm DataSetWire tag at acc)"

definition decode_data_set_value :: "bytes \<Rightarrow> (DataSetValue, DataSetError) result" where
  "decode_data_set_value bs =
     and_then (decode_fields DataSetWire data_set_value_field bs 0 None) (ok_or DataSetMissingValue)"

definition encode_row :: "Row \<Rightarrow> bytes \<Rightarrow> bytes" where
  "encode_row row buffer =
     fold (\<lambda>element buffer.
       let buffer = encode_tag (tag_of ROW_FIELD_ELEMENTS LengthDelimited) buffer;
           element_bytes = encode_data_set_value element []
       in encode_length_delimited element_bytes buffer) (elements row) buffer"

definition row_field :: "(DataSetValue list, DataSetError) field" where
  "row_field tag at acc =
     (if field_number tag = ROW_FIELD_ELEMENTS then
        arm DataSetWire decode_length_delimited
          (\<lambda>bs. map_ok (\<lambda>v. acc @ [v]) (decode_data_set_value bs)) at
      else skip_arm DataSetWire tag at acc)"

definition decode_row :: "bytes \<Rightarrow> (Row, DataSetError) result" where
  "decode_row bs =
     map_ok (\<lambda>es. \<lparr>elements = es\<rparr>) (decode_fields DataSetWire row_field bs 0 [])"

section \<open>Tables\<close>

definition encode_data_set :: "DataSet \<Rightarrow> bytes \<Rightarrow> bytes" where
  "encode_data_set data_set buffer =
     (let buffer = fold (\<lambda>column buffer.
            let buffer = encode_tag (tag_of DATA_SET_FIELD_COLUMNS LengthDelimited) buffer
            in encode_length_delimited (as_bytes column) buffer) (columns data_set) buffer;
          buffer = fold (\<lambda>data_type buffer.
            let buffer = encode_tag (tag_of DATA_SET_FIELD_TYPES Varint) buffer
            in encode_varint (ucast (data_type_code data_type)) buffer) (types data_set) buffer
      in fold (\<lambda>row buffer.
            let buffer = encode_tag (tag_of DATA_SET_FIELD_ROWS LengthDelimited) buffer;
                row_bytes = encode_row row []
            in encode_length_delimited row_bytes buffer) (rows data_set) buffer)"

definition data_set_field :: "(string list \<times> SparkplugDataType list \<times> Row list, DataSetError) field" where
  "data_set_field tag at acc =
     (let (cs, ts, rs) = acc; n = field_number tag in
      if n = DATA_SET_FIELD_COLUMNS then
        arm DataSetWire decode_length_delimited (\<lambda>bs. Ok (cs @ [from_utf8_lossy bs], ts, rs)) at
      else if n = DATA_SET_FIELD_TYPES then
        arm DataSetWire decode_varint (\<lambda>raw.
          let code = ucast raw :: u32 in
          map_ok (\<lambda>t. (cs, ts @ [t], rs))
            (map_err (\<lambda>_. DataSetUnknownDataTypeCode code) (data_type_of_code code))) at
      else if n = DATA_SET_FIELD_ROWS then
        arm DataSetWire decode_length_delimited
          (\<lambda>bs. map_ok (\<lambda>r. (cs, ts, rs @ [r])) (decode_row bs)) at
      else skip_arm DataSetWire tag at acc)"

text \<open>The check of the rows, on \<open>rows.iter().enumerate()\<close>.\<close>

definition check_rows :: "nat \<Rightarrow> Row list \<Rightarrow> (unit, DataSetError) result" where
  "check_rows width rs =
     for_each (\<lambda>(row_index, row) _.
       if length (elements row) \<noteq> width
       then Err (RowLengthMismatch row_index width (length (elements row))) else Ok ())
       (enumerate 0 rs) ()"

definition decode_data_set :: "bytes \<Rightarrow> (DataSet, DataSetError) result" where
  "decode_data_set bs =
     and_then (decode_fields DataSetWire data_set_field bs 0 ([], [], [])) (\<lambda>(cs, ts, rs).
     if length cs \<noteq> length ts then Err (MismatchedColumnsAndTypes (length cs) (length ts))
     else and_then (check_rows (length cs) rs) (\<lambda>_.
     Ok \<lparr>columns = cs, types = ts, rows = rs\<rparr>))"

section \<open>No panics\<close>

interpretation data_set_value: message_fields DataSetWire data_set_value_field
proof
  show "n \<le> length bs" if "data_set_value_field t bs acc = Ok (acc', n)" for t bs acc acc' n
    using that by (auto simp: data_set_value_field_def Let_def split: if_splits
        dest: arm_bounds skip_arm_bounds)
  show "data_set_value_field t bs acc \<noteq> Panic" for t bs acc
    by (auto simp: data_set_value_field_def Let_def arm_no_panic)
qed

lemma decode_data_set_value_no_panic [simp]: "decode_data_set_value bs \<noteq> Panic"
  using data_set_value.decode_no_panic by (auto simp: decode_data_set_value_def and_then_eq_Panic_iff)

interpretation row: message_fields DataSetWire row_field
proof
  show "n \<le> length bs" if "row_field t bs acc = Ok (acc', n)" for t bs acc acc' n
    using that by (auto simp: row_field_def split: if_splits dest: arm_bounds skip_arm_bounds)
  show "row_field t bs acc \<noteq> Panic" for t bs acc
    by (auto simp: row_field_def arm_no_panic)
qed

lemma decode_row_no_panic [simp]: "decode_row bs \<noteq> Panic"
  using row.decode_no_panic by (auto simp: decode_row_def)

interpretation data_set: message_fields DataSetWire data_set_field
proof
  show "n \<le> length bs" if "data_set_field t bs acc = Ok (acc', n)" for t bs acc acc' n
    using that by (auto simp: data_set_field_def Let_def split: prod.splits if_splits
        dest: arm_bounds skip_arm_bounds)
  show "data_set_field t bs acc \<noteq> Panic" for t bs acc
    by (auto simp: data_set_field_def Let_def arm_no_panic split: prod.splits)
qed

lemma check_rows_iff: "check_rows width rs = Ok u \<longleftrightarrow> list_all (\<lambda>r. length (elements r) = width) rs"
proof -
  have "for_each (\<lambda>(row_index, row) _.
       if length (elements row) \<noteq> width
       then Err (RowLengthMismatch row_index width (length (elements row))) else Ok ())
       (enumerate i rs) () = Ok () \<longleftrightarrow> list_all (\<lambda>r. length (elements r) = width) rs" for i
    by (induction rs arbitrary: i) auto
  then show ?thesis by (simp add: check_rows_def)
qed

lemma check_rows_no_panic [simp]: "check_rows width rs \<noteq> Panic"
proof -
  have "for_each (\<lambda>(row_index, row) _.
       if length (elements row) \<noteq> width
       then Err (RowLengthMismatch row_index width (length (elements row))) else Ok ())
       (enumerate i rs) () \<noteq> Panic" for i
    by (induction rs arbitrary: i) auto
  then show ?thesis by (simp add: check_rows_def)
qed

lemma decode_data_set_no_panic [simp]: "decode_data_set bs \<noteq> Panic"
  using data_set.decode_no_panic by (auto simp: decode_data_set_def and_then_eq_Panic_iff)

section \<open>Tables are rectangular and round trip\<close>

definition rectangular :: "DataSet \<Rightarrow> bool" where
  "rectangular ds \<longleftrightarrow> length (types ds) = length (columns ds)
     \<and> list_all (\<lambda>r. length (elements r) = length (columns ds)) (rows ds)"

lemma decode_data_set_rectangular: "decode_data_set bs = Ok ds \<Longrightarrow> rectangular ds"
  by (auto simp: decode_data_set_def and_then_eq_Ok_iff rectangular_def check_rows_iff split: if_splits)

fun data_set_value_ok :: "DataSetValue \<Rightarrow> bool" where
  "data_set_value_ok (DataSetValue.String s) = utf8_string s"
| "data_set_value_ok _ = True"

definition data_set_ok :: "DataSet \<Rightarrow> bool" where
  "data_set_ok ds \<longleftrightarrow> rectangular ds \<and> list_all utf8_string (columns ds)
     \<and> list_all (\<lambda>r. list_all data_set_value_ok (elements r)) (rows ds)"

lemma decode_encode_data_set_value:
  assumes "data_set_value_ok v" and "length (encode_data_set_value v []) < 2 ^ 64"
  shows "decode_data_set_value (encode_data_set_value v []) = Ok v"
proof -
  have short: "length bs < 2 ^ 64"
    if "v = DataSetValue.Bytes bs \<or> (\<exists>s. v = DataSetValue.String s \<and> bs = as_bytes s)" for bs
    using that assms(2) length_delimited_bytes [of bs] by (auto simp: appends)
  show ?thesis
    using assms(1) short
    by (cases v) (simp_all add: decode_data_set_value_def data_set_value.decode_fields_eq appends
        fields_tag data_set_value_field_def)
qed

definition element_bytes :: "DataSetValue \<Rightarrow> bytes" where
  "element_bytes v =
     tag_bytes (tag_of ROW_FIELD_ELEMENTS LengthDelimited) @ delimited_bytes (encode_data_set_value v [])"

lemma encode_row_append:
  "encode_row row buffer = buffer @ concat (map element_bytes (elements row))"
  unfolding encode_row_def by (rule fold_encode_append) (simp add: appends element_bytes_def Let_def)

lemma decode_encode_row:
  assumes ok: "list_all data_set_value_ok (elements row)" and short: "length (encode_row row []) < 2 ^ 64"
  shows "decode_row (encode_row row []) = Ok row"
proof -
  have element: "wire_fields DataSetWire row_field (element_bytes v @ rest) acc
      = wire_fields DataSetWire row_field rest (acc @ [v])"
    if "v \<in> set (elements row)" for v acc rest
  proof -
    have "length (element_bytes v) < 2 ^ 64"
      using length_concat_member [OF that, of element_bytes] short by (simp add: encode_row_append)
    then have "length (encode_data_set_value v []) < 2 ^ 64"
      using length_delimited_bytes [of "encode_data_set_value v []"] by (simp add: element_bytes_def)
    with that ok show ?thesis
      by (simp add: element_bytes_def fields_tag row_field_def decode_encode_data_set_value list_all_iff)
  qed
  have push: "fold (\<lambda>v acc. acc @ [v]) es acc = acc @ es" for es acc :: "DataSetValue list"
    by (induction es arbitrary: acc) simp_all
  show ?thesis
    using fields_repeated [of "elements row" DataSetWire row_field element_bytes "\<lambda>v acc. acc @ [v]" "[]" "[]",
      OF element]
    by (simp add: decode_row_def row.decode_fields_eq encode_row_append push)
qed

definition column_bytes :: "string \<Rightarrow> bytes" where
  "column_bytes c = tag_bytes (tag_of DATA_SET_FIELD_COLUMNS LengthDelimited) @ delimited_bytes (as_bytes c)"

definition type_bytes :: "SparkplugDataType \<Rightarrow> bytes" where
  "type_bytes t = tag_bytes (tag_of DATA_SET_FIELD_TYPES Varint) @ varint_bytes_of (ucast (data_type_code t))"

definition row_bytes :: "Row \<Rightarrow> bytes" where
  "row_bytes r = tag_bytes (tag_of DATA_SET_FIELD_ROWS LengthDelimited) @ delimited_bytes (encode_row r [])"

lemma encode_data_set_append:
  "encode_data_set ds buffer = buffer @ concat (map column_bytes (columns ds))
     @ concat (map type_bytes (types ds)) @ concat (map row_bytes (rows ds))"
proof -
  have c: "fold (\<lambda>column buffer.
            let buffer = encode_tag (tag_of DATA_SET_FIELD_COLUMNS LengthDelimited) buffer
            in encode_length_delimited (as_bytes column) buffer) cs b = b @ concat (map column_bytes cs)" for cs b
    by (rule fold_encode_append) (simp add: appends column_bytes_def Let_def)
  have t: "fold (\<lambda>data_type buffer.
            let buffer = encode_tag (tag_of DATA_SET_FIELD_TYPES Varint) buffer
            in encode_varint (ucast (data_type_code data_type)) buffer) ts b = b @ concat (map type_bytes ts)" for ts b
    by (rule fold_encode_append) (simp add: appends type_bytes_def Let_def)
  have r: "fold (\<lambda>row buffer.
            let buffer = encode_tag (tag_of DATA_SET_FIELD_ROWS LengthDelimited) buffer;
                row_bytes = encode_row row []
            in encode_length_delimited row_bytes buffer) rs b = b @ concat (map row_bytes rs)" for rs b
    by (rule fold_encode_append) (simp add: appends row_bytes_def Let_def)
  show ?thesis unfolding encode_data_set_def Let_def c [unfolded Let_def] t [unfolded Let_def] r [unfolded Let_def]
    by simp
qed

lemma decode_encode_data_set [simp]:
  assumes ok: "data_set_ok ds" and short: "length (encode_data_set ds []) < 2 ^ 64"
  shows "decode_data_set (encode_data_set ds []) = Ok ds"
proof -
  let ?run = "wire_fields DataSetWire data_set_field"
  let ?column = "\<lambda>c (cs, more). (cs @ [c], more)" and ?type = "\<lambda>t (cs, ts, rs). (cs, ts @ [t], rs)"
    and ?row = "\<lambda>r (cs, ts, rs). (cs, ts, rs @ [r])"
  have column: "?run (column_bytes c @ rest) acc = ?run rest (?column c acc)" if "c \<in> set (columns ds)" for c acc rest
  proof -
    have "length (as_bytes c) < 2 ^ 64"
      using length_concat_member [OF that, of column_bytes] short length_delimited_bytes [of "as_bytes c"]
      by (simp add: encode_data_set_append column_bytes_def)
    with that ok show ?thesis
      by (cases acc) (simp add: column_bytes_def fields_tag data_set_field_def data_set_ok_def list_all_iff)
  qed
  have ty: "?run (type_bytes t @ rest) acc = ?run rest (?type t acc)" for t acc rest
    by (cases acc) (simp add: type_bytes_def fields_tag data_set_field_def)
  have row: "?run (row_bytes r @ rest) acc = ?run rest (?row r acc)" if "r \<in> set (rows ds)" for r acc rest
  proof -
    have "length (encode_row r []) < 2 ^ 64"
      using length_concat_member [OF that, of row_bytes] short length_delimited_bytes [of "encode_row r []"]
      by (simp add: encode_data_set_append row_bytes_def)
    with that ok show ?thesis
      by (cases acc) (simp add: row_bytes_def fields_tag data_set_field_def data_set_ok_def list_all_iff
          decode_encode_row)
  qed
  have push: "fold ?column cs (a, b, c) = (a @ cs, b, c)" "fold ?type ts (a, b, c) = (a, b @ ts, c)"
    "fold ?row rs (a, b, c) = (a, b, c @ rs)" for cs ts rs a b c
    by (induction cs arbitrary: a, simp_all) (induction ts arbitrary: b, simp_all, induction rs arbitrary: c, simp_all)
  have "?run (encode_data_set ds []) ([], [], []) = Ok (columns ds, types ds, rows ds)"
    using fields_repeated [of "columns ds" DataSetWire data_set_field column_bytes ?column, OF column]
      fields_repeated [of "types ds" DataSetWire data_set_field type_bytes ?type, OF ty]
      fields_repeated [of "rows ds" DataSetWire data_set_field row_bytes ?row "[]", OF row]
    by (simp add: encode_data_set_append push)
  with ok show ?thesis
    by (simp add: decode_data_set_def data_set.decode_fields_eq data_set_ok_def rectangular_def
        check_rows_iff [THEN iffD2, of _ _ "()"])
qed

end
