(* ===== verification/Sparkplug_Payload.thy ===== *)
theory Sparkplug_Payload
  imports Sparkplug_Data_Set
begin

text \<open>
  The metrics of a Sparkplug payload and the payload itself (\<open>sparkplug/src/metric.rs\<close>,
  \<open>metric_value.rs\<close> and \<open>payload.rs\<close>).
\<close>

section \<open>Metrics\<close>

definition FIELD_NAME :: u32 where [simp]: "FIELD_NAME = 1"
definition FIELD_ALIAS :: u32 where [simp]: "FIELD_ALIAS = 2"
definition FIELD_TIMESTAMP :: u32 where [simp]: "FIELD_TIMESTAMP = 3"
definition FIELD_DATATYPE :: u32 where [simp]: "FIELD_DATATYPE = 4"
definition FIELD_IS_NULL :: u32 where [simp]: "FIELD_IS_NULL = 7"
definition FIELD_PROPERTIES :: u32 where [simp]: "FIELD_PROPERTIES = 9"
definition FIELD_INT_VALUE :: u32 where [simp]: "FIELD_INT_VALUE = 10"
definition FIELD_LONG_VALUE :: u32 where [simp]: "FIELD_LONG_VALUE = 11"
definition FIELD_FLOAT_VALUE :: u32 where [simp]: "FIELD_FLOAT_VALUE = 12"
definition FIELD_DOUBLE_VALUE :: u32 where [simp]: "FIELD_DOUBLE_VALUE = 13"
definition FIELD_BOOLEAN_VALUE :: u32 where [simp]: "FIELD_BOOLEAN_VALUE = 14"
definition FIELD_STRING_VALUE :: u32 where [simp]: "FIELD_STRING_VALUE = 15"
definition FIELD_BYTES_VALUE :: u32 where [simp]: "FIELD_BYTES_VALUE = 16"
definition FIELD_DATASET_VALUE :: u32 where [simp]: "FIELD_DATASET_VALUE = 17"

datatype MetricValue =
    Int u32
  | Long u64
  | Float u32
  | Double u64
  | Boolean bool
  | String string
  | Bytes bytes
  | DataSet DataSet

record Metric =
  metric_name :: string
  metric_alias :: "u64 option"
  metric_timestamp :: "u64 option"
  metric_type :: SparkplugDataType
  is_null :: bool
  properties :: "PropertySet option"
  metric_value :: MetricValue

datatype MetricError =
    MetricWire WireError
  | MissingIdentifier
  | MetricMissingDataType
  | MetricMissingValue
  | MetricUnknownDataTypeCode u32
  | MetricProperty PropertyError
  | MetricDataSet DataSetError

text \<open>\<open>if let Some(x) = field { ... }\<close> around an encoder.\<close>

definition if_some :: "('a \<Rightarrow> bytes \<Rightarrow> bytes) \<Rightarrow> 'a option \<Rightarrow> bytes \<Rightarrow> bytes" where
  "if_some encode field buffer = (case field of Some x \<Rightarrow> encode x buffer | None \<Rightarrow> buffer)"

fun encode_metric_value :: "MetricValue \<Rightarrow> bytes \<Rightarrow> bytes" where
  "encode_metric_value (MetricValue.Int v) buffer =
     encode_varint (ucast v) (encode_tag (tag_of FIELD_INT_VALUE Varint) buffer)"
| "encode_metric_value (MetricValue.Long v) buffer =
     encode_varint v (encode_tag (tag_of FIELD_LONG_VALUE Varint) buffer)"
| "encode_metric_value (MetricValue.Float v) buffer =
     encode_fixed32 v (encode_tag (tag_of FIELD_FLOAT_VALUE Fixed32) buffer)"
| "encode_metric_value (MetricValue.Double v) buffer =
     encode_fixed64 v (encode_tag (tag_of FIELD_DOUBLE_VALUE Fixed64) buffer)"
| "encode_metric_value (MetricValue.Boolean v) buffer =
     encode_varint (of_bool v) (encode_tag (tag_of FIELD_BOOLEAN_VALUE Varint) buffer)"
| "encode_metric_value (MetricValue.String v) buffer =
     encode_length_delimited (as_bytes v) (encode_tag (tag_of FIELD_STRING_VALUE LengthDelimited) buffer)"
| "encode_metric_value (MetricValue.Bytes v) buffer =
     encode_length_delimited v (encode_tag (tag_of FIELD_BYTES_VALUE LengthDelimited) buffer)"
| "encode_metric_value (MetricValue.DataSet v) buffer =
     (let buffer = encode_tag (tag_of FIELD_DATASET_VALUE LengthDelimited) buffer;
          data_set_bytes = encode_data_set v []
      in encode_length_delimited data_set_bytes buffer)"

definition encode_metric :: "Metric \<Rightarrow> bytes \<Rightarrow> bytes" where
  "encode_metric metric buffer =
     (let buffer = encode_tag (tag_of FIELD_NAME LengthDelimited) buffer;
          buffer = encode_length_delimited (as_bytes (metric_name metric)) buffer;
          buffer = if_some (\<lambda>alias buffer.
            encode_varint alias (encode_tag (tag_of FIELD_ALIAS Varint) buffer)) (metric_alias metric) buffer;
          buffer = if_some (\<lambda>timestamp buffer.
            encode_varint timestamp (encode_tag (tag_of FIELD_TIMESTAMP Varint) buffer))
            (metric_timestamp metric) buffer;
          buffer = encode_tag (tag_of FIELD_DATATYPE Varint) buffer;
          buffer = encode_varint (ucast (data_type_code (metric_type metric))) buffer;
          buffer = (if is_null metric
            then encode_varint 1 (encode_tag (tag_of FIELD_IS_NULL Varint) buffer) else buffer);
          buffer = if_some (\<lambda>properties buffer.
            let buffer = encode_tag (tag_of FIELD_PROPERTIES LengthDelimited) buffer;
                properties_bytes = encode_property_set properties []
            in encode_length_delimited properties_bytes buffer) (properties metric) buffer
      in encode_metric_value (metric_value metric) buffer)"

text \<open>The local variables of \<open>decode_metric\<close>.\<close>

record MetricFields =
  got_name :: "string option"
  got_alias :: "u64 option"
  got_timestamp :: "u64 option"
  got_type :: "SparkplugDataType option"
  got_is_null :: bool
  got_properties :: "PropertySet option"
  got_value :: "MetricValue option"

definition metric_field :: "(MetricFields, MetricError) field" where
  "metric_field tag at acc =
     (let n = field_number tag; found = (\<lambda>v. Ok (acc\<lparr>got_value := Some v\<rparr>)) in
      if n = FIELD_NAME then
        arm MetricWire decode_length_delimited
          (\<lambda>bs. Ok (acc\<lparr>got_name := Some (from_utf8_lossy bs)\<rparr>)) at
      else if n = FIELD_ALIAS then
        arm MetricWire decode_varint (\<lambda>v. Ok (acc\<lparr>got_alias := Some v\<rparr>)) at
      else if n = FIELD_TIMESTAMP then
        arm MetricWire decode_varint (\<lambda>v. Ok (acc\<lparr>got_timestamp := Some v\<rparr>)) at
      else if n = FIELD_DATATYPE then
        arm MetricWire decode_varint (\<lambda>raw.
          let code = ucast raw :: u32 in
          map_ok (\<lambda>t. acc\<lparr>got_type := Some t\<rparr>)
            (map_err (\<lambda>_. MetricUnknownDataTypeCode code) (data_type_of_code code))) at
      else if n = FIELD_IS_NULL then
        arm MetricWire decode_varint (\<lambda>raw. Ok (acc\<lparr>got_is_null := raw \<noteq> 0\<rparr>)) at
      else if n = FIELD_PROPERTIES then
        arm MetricWire decode_length_delimited (\<lambda>bs.
          map_ok (\<lambda>ps. acc\<lparr>got_properties := Some ps\<rparr>) (map_err MetricProperty (decode_property_set bs))) at
      else if n = FIELD_INT_VALUE then
        arm MetricWire decode_varint (\<lambda>raw. found (MetricValue.Int (ucast raw))) at
      else if n = FIELD_LONG_VALUE then
        arm MetricWire decode_varint (\<lambda>raw. found (MetricValue.Long raw)) at
      else if n = FIELD_FLOAT_VALUE then
        arm MetricWire decode_fixed32 (\<lambda>raw. found (MetricValue.Float raw)) at
      else if n = FIELD_DOUBLE_VALUE then
        arm MetricWire decode_fixed64 (\<lambda>raw. found (MetricValue.Double raw)) at
      else if n = FIELD_BOOLEAN_VALUE then
        arm MetricWire decode_varint (\<lambda>raw. found (MetricValue.Boolean (raw \<noteq> 0))) at
      else if n = FIELD_STRING_VALUE then
        arm MetricWire decode_length_delimited (\<lambda>bs. found (MetricValue.String (from_utf8_lossy bs))) at
      else if n = FIELD_BYTES_VALUE then
        arm MetricWire decode_length_delimited (\<lambda>bs. found (MetricValue.Bytes bs)) at
      else if n = FIELD_DATASET_VALUE then
        arm MetricWire decode_length_delimited (\<lambda>bs.
          and_then (map_err MetricDataSet (decode_data_set bs)) (\<lambda>ds. found (MetricValue.DataSet ds))) at
      else skip_arm MetricWire tag at acc)"

definition no_fields :: MetricFields where
  "no_fields = \<lparr>got_name = None, got_alias = None, got_timestamp = None, got_type = None,
     got_is_null = False, got_properties = None, got_value = None\<rparr>"

definition decode_metric :: "bytes \<Rightarrow> (Metric, MetricError) result" where
  "decode_metric bs =
     and_then (decode_fields MetricWire metric_field bs 0 no_fields) (\<lambda>acc.
     if got_name acc = None \<and> got_alias acc = None then Err MissingIdentifier
     else and_then (ok_or MetricMissingDataType (got_type acc)) (\<lambda>t.
     and_then (ok_or MetricMissingValue (got_value acc)) (\<lambda>v.
     Ok \<lparr>metric_name = (case got_name acc of Some s \<Rightarrow> s | None \<Rightarrow> []), metric_alias = got_alias acc,
         metric_timestamp = got_timestamp acc, metric_type = t, is_null = got_is_null acc,
         properties = got_properties acc, metric_value = v\<rparr>)))"

section \<open>Payloads\<close>

definition PAYLOAD_FIELD_TIMESTAMP :: u32 where [simp]: "PAYLOAD_FIELD_TIMESTAMP = 1"
definition PAYLOAD_FIELD_METRICS :: u32 where [simp]: "PAYLOAD_FIELD_METRICS = 2"
definition PAYLOAD_FIELD_SEQ :: u32 where [simp]: "PAYLOAD_FIELD_SEQ = 3"

record Payload =
  payload_timestamp :: "u64 option"
  metrics :: "Metric list"
  seq :: "u64 option"

datatype PayloadError = PayloadWire WireError | PayloadMetric MetricError

definition encode_payload :: "Payload \<Rightarrow> bytes \<Rightarrow> bytes" where
  "encode_payload payload buffer =
     (let buffer = if_some (\<lambda>timestamp buffer.
            encode_varint timestamp (encode_tag (tag_of PAYLOAD_FIELD_TIMESTAMP Varint) buffer))
            (payload_timestamp payload) buffer;
          buffer = fold (\<lambda>metric buffer.
            let buffer = encode_tag (tag_of PAYLOAD_FIELD_METRICS LengthDelimited) buffer;
                metric_bytes = encode_metric metric []
            in encode_length_delimited metric_bytes buffer) (metrics payload) buffer
      in if_some (\<lambda>seq buffer.
            encode_varint seq (encode_tag (tag_of PAYLOAD_FIELD_SEQ Varint) buffer)) (seq payload) buffer)"

definition payload_field :: "(Payload, PayloadError) field" where
  "payload_field tag at acc =
     (let n = field_number tag in
      if n = PAYLOAD_FIELD_TIMESTAMP then
        arm PayloadWire decode_varint (\<lambda>v. Ok (acc\<lparr>payload_timestamp := Some v\<rparr>)) at
      else if n = PAYLOAD_FIELD_METRICS then
        arm PayloadWire decode_length_delimited (\<lambda>bs.
          map_ok (\<lambda>m. acc\<lparr>metrics := metrics acc @ [m]\<rparr>) (map_err PayloadMetric (decode_metric bs))) at
      else if n = PAYLOAD_FIELD_SEQ then
        arm PayloadWire decode_varint (\<lambda>v. Ok (acc\<lparr>seq := Some v\<rparr>)) at
      else skip_arm PayloadWire tag at acc)"

definition decode_payload :: "bytes \<Rightarrow> (Payload, PayloadError) result" where
  "decode_payload bs =
     decode_fields PayloadWire payload_field bs 0 \<lparr>payload_timestamp = None, metrics = [], seq = None\<rparr>"

section \<open>No panics\<close>

interpretation metric: message_fields MetricWire metric_field
proof
  show "n \<le> length bs" if "metric_field t bs acc = Ok (acc', n)" for t bs acc acc' n
    using that by (auto simp: metric_field_def Let_def split: if_splits
        dest: arm_bounds skip_arm_bounds)
  show "metric_field t bs acc \<noteq> Panic" for t bs acc
    by (auto simp: metric_field_def Let_def arm_no_panic and_then_eq_Panic_iff)
qed

lemma decode_metric_no_panic [simp]: "decode_metric bs \<noteq> Panic"
  using metric.decode_no_panic by (auto simp: decode_metric_def and_then_eq_Panic_iff)

interpretation payload: message_fields PayloadWire payload_field
proof
  show "n \<le> length bs" if "payload_field t bs acc = Ok (acc', n)" for t bs acc acc' n
    using that by (auto simp: payload_field_def Let_def split: if_splits
        dest: arm_bounds skip_arm_bounds)
  show "payload_field t bs acc \<noteq> Panic" for t bs acc
    by (auto simp: payload_field_def Let_def arm_no_panic)
qed

text \<open>C26: Decoding a Sparkplug payload never panics, whatever bytes the broker delivers: the
  offset arithmetic of all six nested message loops stays inside the buffer.\<close>

theorem decode_payload_never_panics: "decode_payload bs \<noteq> Panic"
  using payload.decode_no_panic by (simp add: decode_payload_def)

section \<open>Payloads round trip\<close>

fun metric_value_ok :: "MetricValue \<Rightarrow> bool" where
  "metric_value_ok (MetricValue.String s) = utf8_string s"
| "metric_value_ok (MetricValue.DataSet ds) = data_set_ok ds"
| "metric_value_ok _ = True"

definition metric_ok :: "Metric \<Rightarrow> bool" where
  "metric_ok m \<longleftrightarrow> utf8_string (metric_name m) \<and> pred_option property_set_ok (properties m)
     \<and> metric_value_ok (metric_value m)"

definition payload_ok :: "Payload \<Rightarrow> bool" where
  "payload_ok p \<longleftrightarrow> list_all metric_ok (metrics p)"

definition metric_value_bytes :: "MetricValue \<Rightarrow> bytes" where
  "metric_value_bytes v = encode_metric_value v []"

lemma encode_metric_value_append: "encode_metric_value v buffer = buffer @ metric_value_bytes v"
  by (cases v) (simp_all add: appends metric_value_bytes_def Let_def)

lemma metric_value_read:
  assumes "metric_value_ok v" and "length (metric_value_bytes v) < 2 ^ 64"
  shows "wire_fields MetricWire metric_field (metric_value_bytes v) acc = Ok (acc\<lparr>got_value := Some v\<rparr>)"
proof -
  have short: "length bs < 2 ^ 64"
    if "v = MetricValue.Bytes bs \<or> (\<exists>s. v = MetricValue.String s \<and> bs = as_bytes s)
      \<or> (\<exists>ds. v = MetricValue.DataSet ds \<and> bs = encode_data_set ds [])" for bs
    using that assms(2) length_delimited_bytes [of bs]
    by (auto simp: metric_value_bytes_def appends Let_def)
  show ?thesis
    using assms(1) short
    by (cases v) (simp_all add: metric_value_bytes_def appends Let_def fields_tag metric_field_def)
qed

text \<open>The bytes of a metric in front of its value.\<close>

definition metric_head_bytes :: "Metric \<Rightarrow> bytes" where
  "metric_head_bytes m =
     tag_bytes (tag_of FIELD_NAME LengthDelimited) @ delimited_bytes (as_bytes (metric_name m))
     @ (case metric_alias m of Some x \<Rightarrow> tag_bytes (tag_of FIELD_ALIAS Varint) @ varint_bytes_of x | None \<Rightarrow> [])
     @ (case metric_timestamp m of
          Some x \<Rightarrow> tag_bytes (tag_of FIELD_TIMESTAMP Varint) @ varint_bytes_of x | None \<Rightarrow> [])
     @ tag_bytes (tag_of FIELD_DATATYPE Varint) @ varint_bytes_of (ucast (data_type_code (metric_type m)))
     @ (if is_null m then tag_bytes (tag_of FIELD_IS_NULL Varint) @ varint_bytes_of 1 else [])
     @ (case properties m of
          Some x \<Rightarrow> tag_bytes (tag_of FIELD_PROPERTIES LengthDelimited)
            @ delimited_bytes (encode_property_set x []) | None \<Rightarrow> [])"

lemma encode_metric_append:
  "encode_metric m buffer = buffer @ metric_head_bytes m @ metric_value_bytes (metric_value m)"
  by (cases "metric_alias m"; cases "metric_timestamp m"; cases "properties m")
    (simp_all add: encode_metric_def metric_head_bytes_def appends
      encode_metric_value_append Let_def if_some_def)

lemma metric_head_read:
  assumes ok: "metric_ok m" and short: "length (metric_head_bytes m) < 2 ^ 64"
  shows "wire_fields MetricWire metric_field (metric_head_bytes m @ rest) no_fields =
    wire_fields MetricWire metric_field rest
      \<lparr>got_name = Some (metric_name m), got_alias = metric_alias m, got_timestamp = metric_timestamp m,
       got_type = Some (metric_type m), got_is_null = is_null m, got_properties = properties m,
       got_value = None\<rparr>"
proof -
  have "length (as_bytes (metric_name m)) < 2 ^ 64"
    using short length_delimited_bytes [of "as_bytes (metric_name m)"] by (simp add: metric_head_bytes_def)
  moreover have "length (encode_property_set ps []) < 2 ^ 64" if "properties m = Some ps" for ps
    using short that length_delimited_bytes [of "encode_property_set ps []"] by (simp add: metric_head_bytes_def)
  ultimately show ?thesis
    using ok
    by (cases "metric_alias m"; cases "metric_timestamp m"; cases "is_null m"; cases "properties m")
      (simp_all add: metric_ok_def metric_head_bytes_def no_fields_def fields_tag metric_field_def)
qed

lemma decode_encode_metric [simp]:
  assumes "metric_ok m" and "length (encode_metric m []) < 2 ^ 64"
  shows "decode_metric (encode_metric m []) = Ok m"
  using assms metric_head_read [of m "metric_value_bytes (metric_value m)"]
  by (simp add: decode_metric_def metric.decode_fields_eq encode_metric_append metric_value_read metric_ok_def)

definition metric_entry_bytes :: "Metric \<Rightarrow> bytes" where
  "metric_entry_bytes m =
     tag_bytes (tag_of PAYLOAD_FIELD_METRICS LengthDelimited) @ delimited_bytes (encode_metric m [])"

lemma encode_payload_append:
  "encode_payload p buffer = buffer
     @ (case payload_timestamp p of
          Some x \<Rightarrow> tag_bytes (tag_of PAYLOAD_FIELD_TIMESTAMP Varint) @ varint_bytes_of x | None \<Rightarrow> [])
     @ concat (map metric_entry_bytes (metrics p))
     @ (case seq p of Some x \<Rightarrow> tag_bytes (tag_of PAYLOAD_FIELD_SEQ Varint) @ varint_bytes_of x | None \<Rightarrow> [])"
proof -
  have m: "fold (\<lambda>metric buffer.
            let buffer = encode_tag (tag_of PAYLOAD_FIELD_METRICS LengthDelimited) buffer;
                metric_bytes = encode_metric metric []
            in encode_length_delimited metric_bytes buffer) ms b = b @ concat (map metric_entry_bytes ms)" for ms b
    by (rule fold_encode_append) (simp add: appends metric_entry_bytes_def Let_def)
  show ?thesis
    unfolding encode_payload_def Let_def m [unfolded Let_def]
    by (simp add: appends if_some_def split: option.split)
qed

lemma decode_encode_payload:
  assumes ok: "payload_ok p" and short: "length (encode_payload p []) < 2 ^ 64"
  shows "decode_payload (encode_payload p []) = Ok p"
proof -
  let ?run = "wire_fields PayloadWire payload_field"
  have metric: "?run (metric_entry_bytes m @ rest) acc = ?run rest (acc\<lparr>metrics := metrics acc @ [m]\<rparr>)"
    if "m \<in> set (metrics p)" for m acc rest
  proof -
    have "length (encode_metric m []) < 2 ^ 64"
      using length_concat_member [OF that, of metric_entry_bytes] short
        length_delimited_bytes [of "encode_metric m []"]
      by (simp add: encode_payload_append metric_entry_bytes_def)
    with that ok show ?thesis
      by (simp add: metric_entry_bytes_def fields_tag payload_field_def payload_ok_def list_all_iff)
  qed
  have push: "fold (\<lambda>m acc. acc\<lparr>metrics := metrics acc @ [m]\<rparr>) ms acc = acc\<lparr>metrics := metrics acc @ ms\<rparr>"
    for ms and acc :: Payload
    by (induction ms arbitrary: acc) simp_all
  have ms: "?run (concat (map metric_entry_bytes (metrics p)) @ rest) acc = ?run rest (acc\<lparr>metrics := metrics acc @ metrics p\<rparr>)"
    for rest acc
    using fields_repeated [of "metrics p" PayloadWire payload_field metric_entry_bytes
        "\<lambda>m acc. acc\<lparr>metrics := metrics acc @ [m]\<rparr>", OF metric] by (simp add: push)
  show ?thesis
    using ms ms [of "[]"]
    by (cases p; cases "payload_timestamp p"; cases "seq p")
      (simp_all add: decode_payload_def payload.decode_fields_eq encode_payload_append fields_tag payload_field_def)
qed

text \<open>C27: A Sparkplug payload decodes back to itself: timestamps, sequence number, every metric with its
  alias, null flag, properties and value, tables included, whenever its strings are UTF-8 and its
  tables rectangular.\<close>

theorem payload_round_trip:
  assumes "payload_ok p" and "length (encode_payload p []) < 2 ^ 64"
  shows "decode_payload (encode_payload p []) = Ok p"
  using assms by (rule decode_encode_payload)

end
