(* ===== verification/Sparkplug_Session.thy ===== *)
theory Sparkplug_Session
  imports Sparkplug_Payload
begin

text \<open>
  Sessions of a Sparkplug edge node: the sequence counters (\<open>sparkplug/src/seq_counter.rs\<close>), the
  payloads of a session (\<open>session.rs\<close>) and the topics they go to (\<open>topic.rs\<close>). A counter is
  taken and returned; \<open>+= 1\<close> at the largest number is a panic, as with overflow checks on.
\<close>

section \<open>Counters\<close>

record SeqCounter =
  current :: u8

definition new_seq_counter :: SeqCounter where
  "new_seq_counter = \<lparr>current = 0\<rparr>"

definition next_seq :: "SeqCounter \<Rightarrow> u8 \<times> SeqCounter" where
  "next_seq counter = (let n = current counter in (n, counter\<lparr>current := current counter + 1\<rparr>))"

definition reset_seq :: "SeqCounter \<Rightarrow> SeqCounter" where
  "reset_seq counter = counter\<lparr>current := 0\<rparr>"

record BdSeqCounter =
  next_bd :: u64

definition new_bd_seq_counter :: BdSeqCounter where
  "new_bd_seq_counter = \<lparr>next_bd = 0\<rparr>"

definition next_bd_seq :: "BdSeqCounter \<Rightarrow> (u64 \<times> BdSeqCounter, 'e) result" where
  "next_bd_seq counter =
     (let n = next_bd counter in
      if n = - 1 then Panic else Ok (n, counter\<lparr>next_bd := n + 1\<rparr>))"

section \<open>Payloads of a session\<close>

definition BD_SEQ_METRIC_NAME :: string where [simp]: "BD_SEQ_METRIC_NAME = ''bdSeq''"
definition REBIRTH_METRIC_NAME :: string where [simp]: "REBIRTH_METRIC_NAME = ''Node Control/Rebirth''"

definition bd_seq_metric :: "u64 \<Rightarrow> u64 option \<Rightarrow> Metric" where
  "bd_seq_metric bd_seq timestamp_millis =
     \<lparr>metric_name = BD_SEQ_METRIC_NAME, metric_alias = None, metric_timestamp = timestamp_millis,
      metric_type = SparkplugDataType.UInt64, is_null = False, properties = None,
      metric_value = MetricValue.Long bd_seq\<rparr>"

definition rebirth_metric :: "u64 option \<Rightarrow> Metric" where
  "rebirth_metric timestamp_millis =
     \<lparr>metric_name = REBIRTH_METRIC_NAME, metric_alias = None, metric_timestamp = timestamp_millis,
      metric_type = SparkplugDataType.Boolean, is_null = False, properties = None,
      metric_value = MetricValue.Boolean False\<rparr>"

definition build_ndeath_payload :: "u64 \<Rightarrow> Payload" where
  "build_ndeath_payload bd_seq =
     \<lparr>payload_timestamp = None, metrics = [bd_seq_metric bd_seq None], seq = None\<rparr>"

definition build_nbirth_payload :: "u64 \<Rightarrow> u64 \<Rightarrow> SeqCounter \<Rightarrow> Payload \<times> SeqCounter" where
  "build_nbirth_payload bd_seq timestamp_millis seq_counter =
     (let seq_counter = reset_seq seq_counter; (n, seq_counter) = next_seq seq_counter
      in (\<lparr>payload_timestamp = Some timestamp_millis,
           metrics = [bd_seq_metric bd_seq (Some timestamp_millis), rebirth_metric (Some timestamp_millis)],
           seq = Some (ucast n)\<rparr>, seq_counter))"

definition build_metrics_payload :: "Metric list \<Rightarrow> u64 \<Rightarrow> SeqCounter \<Rightarrow> Payload \<times> SeqCounter" where
  "build_metrics_payload ms timestamp_millis seq_counter =
     (let (n, seq_counter) = next_seq seq_counter
      in (\<lparr>payload_timestamp = Some timestamp_millis, metrics = ms, seq = Some (ucast n)\<rparr>, seq_counter))"

definition build_dbirth_payload :: "Metric list \<Rightarrow> u64 \<Rightarrow> SeqCounter \<Rightarrow> Payload \<times> SeqCounter" where
  "build_dbirth_payload ms timestamp_millis seq_counter = build_metrics_payload ms timestamp_millis seq_counter"

definition build_ddata_payload :: "Metric list \<Rightarrow> u64 \<Rightarrow> SeqCounter \<Rightarrow> Payload \<times> SeqCounter" where
  "build_ddata_payload ms timestamp_millis seq_counter = build_metrics_payload ms timestamp_millis seq_counter"

definition build_ndata_payload :: "Metric list \<Rightarrow> u64 \<Rightarrow> SeqCounter \<Rightarrow> Payload \<times> SeqCounter" where
  "build_ndata_payload ms timestamp_millis seq_counter = build_metrics_payload ms timestamp_millis seq_counter"

definition build_ddeath_payload :: "u64 \<Rightarrow> SeqCounter \<Rightarrow> Payload \<times> SeqCounter" where
  "build_ddeath_payload timestamp_millis seq_counter =
     (let (n, seq_counter) = next_seq seq_counter
      in (\<lparr>payload_timestamp = Some timestamp_millis, metrics = [], seq = Some (ucast n)\<rparr>, seq_counter))"

text \<open>What an edge node publishes after its NBIRTH, in any order, on the one counter it has.\<close>

datatype Publication =
    DBirth_of "Metric list" u64
  | DData_of "Metric list" u64
  | NData_of "Metric list" u64
  | DDeath_of u64

fun publish :: "Publication \<Rightarrow> SeqCounter \<Rightarrow> Payload \<times> SeqCounter" where
  "publish (DBirth_of ms t) c = build_dbirth_payload ms t c"
| "publish (DData_of ms t) c = build_ddata_payload ms t c"
| "publish (NData_of ms t) c = build_ndata_payload ms t c"
| "publish (DDeath_of t) c = build_ddeath_payload t c"

fun publish_all :: "Publication list \<Rightarrow> SeqCounter \<Rightarrow> Payload list" where
  "publish_all [] c = []"
| "publish_all (p # ps) c = (let (payload, c') = publish p c in payload # publish_all ps c')"

definition session_payloads :: "u64 \<Rightarrow> u64 \<Rightarrow> Publication list \<Rightarrow> SeqCounter \<Rightarrow> Payload list" where
  "session_payloads bd_seq timestamp_millis ps c =
     (let (nbirth, c') = build_nbirth_payload bd_seq timestamp_millis c in nbirth # publish_all ps c')"

lemma publish_seq:
  "seq (fst (publish p c)) = Some (ucast (current c))" "current (snd (publish p c)) = current c + 1"
  by (cases p; simp add: build_dbirth_payload_def build_ddata_payload_def build_ndata_payload_def
      build_ddeath_payload_def build_metrics_payload_def next_seq_def Let_def)+

lemma publish_all_seq:
  "map seq (publish_all ps c) = map (\<lambda>i. Some (ucast (current c + of_nat i))) [0..<length ps]"
proof (induction ps arbitrary: c)
  case (Cons p ps)
  have "map seq (publish_all (p # ps) c)
      = Some (ucast (current c)) # map seq (publish_all ps (snd (publish p c)))"
    by (simp add: publish_seq(1) Let_def split: prod.split)
      (metis fst_conv publish_seq(1))
  also have "\<dots> = map (\<lambda>i. Some (ucast (current c + of_nat i))) [0..<length (p # ps)]"
    unfolding Cons.IH publish_seq(2) list.size(4) add_Suc_right add_0_right map_upt_Suc
    by (simp add: add.assoc)
  finally show ?case .
qed simp

text \<open>The sequence numbers of a session are 0, 1, 2, and so on modulo 256, whatever the counter
  held before: NBIRTH restarts it, and every later publication, of whatever kind and order, takes
  the next number, so a host can tell a lost message from a gap.\<close>

theorem session_sequence_numbers:
  "map seq (session_payloads bd_seq t ps c) = map (\<lambda>i. Some (of_nat (i mod 256))) [0..<Suc (length ps)]"
proof -
  have u: "(ucast (of_nat i :: u8) :: u64) = of_nat (i mod 256)" for i
    by (rule word_unat_eq_iff [THEN iffD2]) (simp add: unsigned_ucast_eq unat_of_nat take_bit_eq_mod)
  have "map seq (session_payloads bd_seq t ps c)
      = Some 0 # map (\<lambda>i. Some (ucast (1 + of_nat i :: u8))) [0..<length ps]"
    by (simp add: session_payloads_def build_nbirth_payload_def next_seq_def reset_seq_def publish_all_seq)
  also have "\<dots> = map (\<lambda>i. Some (of_nat (i mod 256))) [0..<Suc (length ps)]"
    unfolding map_upt_Suc by (simp flip: u)
  finally show ?thesis .
qed

section \<open>Topics\<close>

datatype MessageType = NBirth | NDeath | NData | NCmd | DBirth | DDeath | DData | DCmd

fun message_type_str :: "MessageType \<Rightarrow> string" where
  "message_type_str NBirth = ''NBIRTH''"
| "message_type_str NDeath = ''NDEATH''"
| "message_type_str NData = ''NDATA''"
| "message_type_str NCmd = ''NCMD''"
| "message_type_str DBirth = ''DBIRTH''"
| "message_type_str DDeath = ''DDEATH''"
| "message_type_str DData = ''DDATA''"
| "message_type_str DCmd = ''DCMD''"

definition is_device_scoped :: "MessageType \<Rightarrow> bool" where
  "is_device_scoped mt \<longleftrightarrow> mt = DBirth \<or> mt = DDeath \<or> mt = DData \<or> mt = DCmd"

datatype TopicError = MissingDeviceId | UnexpectedDeviceId

definition build_topic ::
    "string \<Rightarrow> MessageType \<Rightarrow> string \<Rightarrow> string option \<Rightarrow> (string, TopicError) result" where
  "build_topic group_id message_type edge_node_id device_id =
     (case (is_device_scoped message_type, device_id) of
        (True, Some device_id) \<Rightarrow>
          Ok (''spBv1.0/'' @ group_id @ ''/'' @ message_type_str message_type @ ''/'' @ edge_node_id
              @ ''/'' @ device_id)
      | (True, None) \<Rightarrow> Err MissingDeviceId
      | (False, None) \<Rightarrow>
          Ok (''spBv1.0/'' @ group_id @ ''/'' @ message_type_str message_type @ ''/'' @ edge_node_id)
      | (False, Some _) \<Rightarrow> Err UnexpectedDeviceId)"

definition build_state_topic :: "string \<Rightarrow> string" where
  "build_state_topic host_id = ''spBv1.0/STATE/'' @ host_id"

lemma segment_unique:
  assumes "a @ CHR ''/'' # s = b @ CHR ''/'' # s'" and "CHR ''/'' \<notin> set a" and "CHR ''/'' \<notin> set b"
  shows "a = b \<and> s = s'"
proof -
  have "takeWhile (\<lambda>c. c \<noteq> CHR ''/'') (a @ CHR ''/'' # s) = a"
    "takeWhile (\<lambda>c. c \<noteq> CHR ''/'') (b @ CHR ''/'' # s') = b"
    using assms(2,3) by (auto simp: takeWhile_append)
  with assms(1) show ?thesis by auto
qed

lemma message_type_str_inj: "message_type_str a = message_type_str b \<longleftrightarrow> a = b"
  by (cases a; cases b) simp_all

lemma message_type_str_no_slash: "CHR ''/'' \<notin> set (message_type_str a)"
  by (cases a) simp_all

text \<open>Topics identify messages: with identifiers free of slashes, two messages share a topic only
  if they have the same group, type, edge node and device.\<close>

theorem topics_identify_messages:
  assumes a: "build_topic g mt e d = Ok s" and b: "build_topic g' mt' e' d' = Ok s"
    and g: "CHR ''/'' \<notin> set g" "CHR ''/'' \<notin> set g'" and e: "CHR ''/'' \<notin> set e" "CHR ''/'' \<notin> set e'"
  shows "g = g' \<and> mt = mt' \<and> e = e' \<and> d = d'"
proof -
  let ?tail = "\<lambda>d. case d of None \<Rightarrow> [] | Some x \<Rightarrow> CHR ''/'' # x"
  have form: "s = ''spBv1.0/'' @ g @ CHR ''/'' # message_type_str mt @ CHR ''/'' # e @ ?tail d
      \<and> is_device_scoped mt = (d \<noteq> None)"
    if "build_topic g mt e d = Ok s" for g mt e d s
    using that by (auto simp: build_topic_def split: bool.splits option.splits)
  have "g @ CHR ''/'' # message_type_str mt @ CHR ''/'' # e @ ?tail d
      = g' @ CHR ''/'' # message_type_str mt' @ CHR ''/'' # e' @ ?tail d'"
    using form [OF a] form [OF b] by simp
  from segment_unique [OF this g] have gg: "g = g'"
    and rest: "message_type_str mt @ CHR ''/'' # e @ ?tail d = message_type_str mt' @ CHR ''/'' # e' @ ?tail d'"
    by simp_all
  from segment_unique [OF rest message_type_str_no_slash message_type_str_no_slash]
  have mm: "mt = mt'" and tail: "e @ ?tail d = e' @ ?tail d'" by (simp_all add: message_type_str_inj)
  from form [OF a, THEN conjunct2] form [OF b, THEN conjunct2] mm have n: "(d = None) = (d' = None)" by metis
  have "e = e' \<and> d = d'"
  proof (cases d)
    case None
    with n tail show ?thesis by simp
  next
    case (Some x)
    then obtain y where y: "d' = Some y" using n by auto
    from tail have "e @ CHR ''/'' # x = e' @ CHR ''/'' # y" unfolding Some y option.case .
    from segment_unique [OF this e] show ?thesis unfolding Some y by simp
  qed
  with gg mm show ?thesis by simp
qed

theorem topics_identify_messages_witness:
  "build_topic ''G'' DData ''E'' (Some ''pump'') = Ok ''spBv1.0/G/DDATA/E/pump''
   \<and> build_topic ''H'' NData ''E'' None \<noteq> Ok ''spBv1.0/G/DDATA/E/pump''"
proof
  show t: "build_topic ''G'' DData ''E'' (Some ''pump'') = Ok ''spBv1.0/G/DDATA/E/pump''"
    by (simp add: build_topic_def is_device_scoped_def)
  show "build_topic ''H'' NData ''E'' None \<noteq> Ok ''spBv1.0/G/DDATA/E/pump''"
    using topics_identify_messages [OF _ t, of "''H''" NData "''E''" None] by auto
qed

section \<open>The birth of a session on the wire\<close>

lemma encoded_lengths:
  "length (varint_bytes_of v) \<le> 10" "length (tag_bytes tag) \<le> 10"
  "length (delimited_bytes bs) \<le> 10 + length bs"
  using length_encode_varint [of v] length_encode_varint [of "of_nat (length bs)"]
    length_encode_varint [of "push_bit 3 (ucast (field_number tag)) OR wire_type_bits (wire_type tag)"]
  by (simp_all add: varint_bytes_of_def tag_bytes_def encode_tag_def delimited_bytes_def
      encode_length_delimited_def)

lemma session_metric_lengths:
  "length (encode_metric (bd_seq_metric b t) []) \<le> 120" "length (encode_metric (rebirth_metric t) []) \<le> 120"
proof -
  note e = encode_metric_append metric_head_bytes_def metric_value_bytes_def appends
    bd_seq_metric_def rebirth_metric_def
  note l = encoded_lengths(1) encoded_lengths(2) encoded_lengths(3)
  show "length (encode_metric (bd_seq_metric b t) []) \<le> 120"
    using l(1) [of b] l(2) [of "tag_of 1 LengthDelimited"] l(3) [of "as_bytes BD_SEQ_METRIC_NAME"]
      l(1) [of "the t"] l(2) [of "tag_of 3 Varint"] l(2) [of "tag_of 4 Varint"]
      l(2) [of "tag_of 11 Varint"] l(1) [of "ucast (data_type_code SparkplugDataType.UInt64)"]
    by (cases t) (simp_all add: e)
  show "length (encode_metric (rebirth_metric t) []) \<le> 120"
    using l(1) [of 0] l(2) [of "tag_of 1 LengthDelimited"] l(3) [of "as_bytes REBIRTH_METRIC_NAME"]
      l(1) [of "the t"] l(2) [of "tag_of 3 Varint"] l(2) [of "tag_of 4 Varint"]
      l(2) [of "tag_of 14 Varint"] l(1) [of "ucast (data_type_code SparkplugDataType.Boolean)"]
    by (cases t) (simp_all add: e)
qed

lemma utf8_names [simp]: "utf8_string ''bdSeq''" "utf8_string ''Node Control/Rebirth''"
  by (auto simp: utf8_string_def as_bytes_def intro!: valid_utf8_ascii)

lemma session_metrics_ok [simp]: "metric_ok (bd_seq_metric b t)" "metric_ok (rebirth_metric t)"
  by (simp_all add: metric_ok_def bd_seq_metric_def rebirth_metric_def)

lemma session_payloads_ok:
  "payload_ok (build_ndeath_payload b)" "length (encode_payload (build_ndeath_payload b) []) < 2 ^ 64"
  "payload_ok (fst (build_nbirth_payload b t c))"
  "length (encode_payload (fst (build_nbirth_payload b t c)) []) < 2 ^ 64"
proof -
  have entry: "length (metric_entry_bytes m) \<le> 140" if "length (encode_metric m []) \<le> 120" for m
    using that encoded_lengths(2) [of "tag_of 2 LengthDelimited"] encoded_lengths(3) [of "encode_metric m []"]
    by (simp add: metric_entry_bytes_def)
  note entries = entry [OF session_metric_lengths(1)] entry [OF session_metric_lengths(2)]
  note v = encoded_lengths(1) [of t] encoded_lengths(1) [of 0] encoded_lengths(2) [of "tag_of 1 Varint"]
    encoded_lengths(2) [of "tag_of 3 Varint"]
  show "payload_ok (build_ndeath_payload b)" "payload_ok (fst (build_nbirth_payload b t c))"
    by (simp_all add: payload_ok_def build_ndeath_payload_def build_nbirth_payload_def next_seq_def Let_def)
  show "length (encode_payload (build_ndeath_payload b) []) < 2 ^ 64"
    using entries(1) [of b None] by (simp add: encode_payload_append build_ndeath_payload_def)
  show "length (encode_payload (fst (build_nbirth_payload b t c)) []) < 2 ^ 64"
    using entries(1) [of b "Some t"] entries(2) [of "Some t"] v
    by (simp add: encode_payload_append build_nbirth_payload_def next_seq_def reset_seq_def)
qed

theorem payload_round_trip_witness:
  "decode_payload (encode_payload (build_ndeath_payload 7) []) = Ok (build_ndeath_payload 7)"
  by (rule payload_round_trip [OF session_payloads_ok(1) session_payloads_ok(2)])

text \<open>What a host reads of a session: its NBIRTH carries sequence number 0, the session's bdSeq and
  the rebirth control, and the NDEATH left with the broker carries the same bdSeq.\<close>

theorem birth_and_death_match_on_the_wire:
  "decode_payload (encode_payload (fst (build_nbirth_payload b t c)) []) =
     Ok \<lparr>payload_timestamp = Some t, metrics = [bd_seq_metric b (Some t), rebirth_metric (Some t)],
         seq = Some 0\<rparr>
   \<and> map_ok (\<lambda>p. map metric_value (metrics p)) (decode_payload (encode_payload (build_ndeath_payload b) []))
     = Ok [MetricValue.Long b]"
  using decode_encode_payload [OF session_payloads_ok(3) session_payloads_ok(4), of b t c]
    decode_encode_payload [OF session_payloads_ok(1) session_payloads_ok(2), of b]
  by (simp add: build_nbirth_payload_def next_seq_def reset_seq_def build_ndeath_payload_def bd_seq_metric_def)

end
