(* ===== verification/Sparkplug_Translation.thy ===== *)
theory Sparkplug_Translation
  imports Sparkplug_Session Data_Stores
begin

text \<open>
  From Modbus to Sparkplug and back: the aliases of an edge node
  (\<open>client/src/sparkplug_alias.rs\<close>), the metrics of a machine and the values a host writes
  (\<open>sparkplug_translator.rs\<close>), which metrics are published (\<open>sparkplug_change_tracker.rs\<close>) and
  which commands a payload carries (\<open>sparkplug_command.rs\<close>). A message logged and dropped is
  dropped; the clock is an argument.
\<close>

section \<open>Aliases\<close>

definition file_record_metric_name :: "u16 \<Rightarrow> u16 \<Rightarrow> string" where
  "file_record_metric_name f r = show_nat (unat f) @ '':'' @ show_nat (unat r)"

record AliasAllocator =
  aliases :: "string \<times> string \<rightharpoonup> u64"
  reverse :: "u64 \<rightharpoonup> string \<times> string"

text \<open>The names a machine gives aliases to, in the order of the loops of \<open>build\<close>.\<close>

definition data_point_names :: "MachineDescription \<Rightarrow> string list" where
  "data_point_names machine =
     map RegisterDescription.name (MachineDescription.registers machine)
     @ map CoilDescription.name (MachineDescription.coils machine)
     @ map DiscreteInputDescription.name (MachineDescription.discrete_inputs machine)
     @ map InputRegisterDescription.name (MachineDescription.input_registers machine)
     @ map (\<lambda>fr. file_record_metric_name (FileRecordDescription.file_number fr)
           (FileRecordDescription.record_number fr)) (MachineDescription.file_records machine)"

definition data_points :: "MachineDescription list \<Rightarrow> (string \<times> string) list" where
  "data_points ms = concat (map (\<lambda>m. map (Pair (MachineDescription.name m)) (data_point_names m)) ms)"

definition insert_alias ::
    "string \<times> string \<Rightarrow> (string \<times> string \<rightharpoonup> u64) \<times> u64 \<Rightarrow> (string \<times> string \<rightharpoonup> u64) \<times> u64" where
  "insert_alias key s = (let (found, next_alias) = s in (found(key \<mapsto> next_alias), next_alias + 1))"

text \<open>The reverse map is collected from the entries of the forward one.\<close>

definition AliasAllocator_build :: "MachineDescription list \<Rightarrow> AliasAllocator" where
  "AliasAllocator_build ms =
     (let found = fst (fold insert_alias (data_points ms) (Map.empty, 0))
      in \<lparr>aliases = found,
          reverse = map_of (List.map_filter (\<lambda>key. map_option (\<lambda>a. (a, key)) (found key))
            (remdups (data_points ms)))\<rparr>)"

definition alias_for :: "AliasAllocator \<Rightarrow> string \<Rightarrow> string \<Rightarrow> u64 option" where
  "alias_for alloc machine_name nm = aliases alloc (machine_name, nm)"

definition metric_for_alias :: "AliasAllocator \<Rightarrow> u64 \<Rightarrow> (string \<times> string) option" where
  "metric_for_alias alloc a = reverse alloc a"

section \<open>Values\<close>

fun map_data_type :: "DataType \<Rightarrow> SparkplugDataType" where
  "map_data_type U8 = SparkplugDataType.UInt8"
| "map_data_type I8 = SparkplugDataType.Int8"
| "map_data_type U16 = SparkplugDataType.UInt16"
| "map_data_type I16 = SparkplugDataType.Int16"
| "map_data_type U24 = SparkplugDataType.UInt32"
| "map_data_type I24 = SparkplugDataType.Int32"
| "map_data_type U32 = SparkplugDataType.UInt32"
| "map_data_type I32 = SparkplugDataType.Int32"
| "map_data_type U64 = SparkplugDataType.UInt64"
| "map_data_type I64 = SparkplugDataType.Int64"
| "map_data_type F32 = SparkplugDataType.Float"
| "map_data_type F64 = SparkplugDataType.Double"

fun map_register_value :: "RegisterValue \<Rightarrow> MetricValue" where
  "map_register_value (RegU8 v) = MetricValue.Int (ucast v)"
| "map_register_value (RegI8 v) = MetricValue.Int (scast v)"
| "map_register_value (RegU16 v) = MetricValue.Int (ucast v)"
| "map_register_value (RegI16 v) = MetricValue.Int (scast v)"
| "map_register_value (RegU24 v) = MetricValue.Int v"
| "map_register_value (RegI24 v) = MetricValue.Int v"
| "map_register_value (RegU32 v) = MetricValue.Int v"
| "map_register_value (RegI32 v) = MetricValue.Int v"
| "map_register_value (RegU64 v) = MetricValue.Long v"
| "map_register_value (RegI64 v) = MetricValue.Long v"
| "map_register_value (RegF32 v) = MetricValue.Float v"
| "map_register_value (RegF64 v) = MetricValue.Double v"

fun map_coil_value :: "CoilValue \<Rightarrow> MetricValue" where
  "map_coil_value (CoilValue b) = MetricValue.Boolean b"

definition unit_property :: "string option \<Rightarrow> PropertySet option" where
  "unit_property u = map_option (\<lambda>s. \<lparr>PropertySet.entries =
     [(''unit'', \<lparr>property_type = PropertyDataType.String, property_value = PropertyValue.String s\<rparr>)]\<rparr>) u"

text \<open>Why a written value is refused; the source builds a text.\<close>

datatype Rejection =
    DoesNotFit u32 DataType
  | ShapeMismatch DataType
  | CoilNeedsBoolean string
  | NotWritable string
  | RecordNeedsBytes string
  | UnknownMetric string string

fun metric_value_to_register_value :: "MetricValue \<Rightarrow> DataType \<Rightarrow> (RegisterValue, Rejection) result" where
  "metric_value_to_register_value (MetricValue.Int raw) U8 = Ok (RegU8 (ucast raw))"
| "metric_value_to_register_value (MetricValue.Int raw) I8 = Ok (RegI8 (ucast raw))"
| "metric_value_to_register_value (MetricValue.Int raw) U16 = Ok (RegU16 (ucast raw))"
| "metric_value_to_register_value (MetricValue.Int raw) I16 = Ok (RegI16 (ucast raw))"
| "metric_value_to_register_value (MetricValue.Int raw) U24 =
     (if 0x00FFFFFF < raw then Err (DoesNotFit raw U24) else Ok (RegU24 raw))"
| "metric_value_to_register_value (MetricValue.Int raw) I24 =
     (if \<not> (- 0x00800000 \<le> sint raw \<and> sint raw \<le> 0x007FFFFF) then Err (DoesNotFit raw I24)
      else Ok (RegI24 raw))"
| "metric_value_to_register_value (MetricValue.Int raw) U32 = Ok (RegU32 raw)"
| "metric_value_to_register_value (MetricValue.Int raw) I32 = Ok (RegI32 raw)"
| "metric_value_to_register_value (MetricValue.Long raw) U64 = Ok (RegU64 raw)"
| "metric_value_to_register_value (MetricValue.Long raw) I64 = Ok (RegI64 raw)"
| "metric_value_to_register_value (MetricValue.Float raw) F32 = Ok (RegF32 raw)"
| "metric_value_to_register_value (MetricValue.Double raw) F64 = Ok (RegF64 raw)"
| "metric_value_to_register_value _ dt = Err (ShapeMismatch dt)"

definition metric_value_to_staged_value ::
    "MachineDescription \<Rightarrow> string \<Rightarrow> MetricValue \<Rightarrow> (StagedValue, Rejection) result" where
  "metric_value_to_staged_value machine nm v =
     (case find (\<lambda>r. RegisterDescription.name r = nm) (MachineDescription.registers machine) of
        Some register \<Rightarrow>
          map_ok StagedRegister (metric_value_to_register_value v (RegisterDescription.data_type register))
      | None \<Rightarrow>
      if list_ex (\<lambda>coil. CoilDescription.name coil = nm) (MachineDescription.coils machine) then
        (case v of MetricValue.Boolean flag \<Rightarrow> Ok (StagedCoil (CoilValue flag))
                 | _ \<Rightarrow> Err (CoilNeedsBoolean nm))
      else if list_ex (\<lambda>e. DiscreteInputDescription.name e = nm)
            (MachineDescription.discrete_inputs machine)
          \<or> list_ex (\<lambda>e. InputRegisterDescription.name e = nm)
            (MachineDescription.input_registers machine)
        then Err (NotWritable nm)
      else (case parse_file_record_name nm of
          Some (f, r) \<Rightarrow>
            if list_ex (\<lambda>e. FileRecordDescription.file_number e = f \<and> FileRecordDescription.record_number e = r)
                (MachineDescription.file_records machine)
            then (case v of MetricValue.Bytes bs \<Rightarrow> Ok (StagedFileRecord f r bs)
                          | _ \<Rightarrow> Err (RecordNeedsBytes nm))
            else Err (UnknownMetric nm (MachineDescription.name machine))
        | None \<Rightarrow> Err (UnknownMetric nm (MachineDescription.name machine))))"

section \<open>The metrics of a machine\<close>

text \<open>One metric as the loops build it; \<open>is_null\<close> and the value are what differs between births.\<close>

definition data_metric ::
    "AliasAllocator \<Rightarrow> MachineDescription \<Rightarrow> u64 \<Rightarrow> bool \<Rightarrow> string \<Rightarrow> SparkplugDataType
     \<Rightarrow> PropertySet option \<Rightarrow> MetricValue \<Rightarrow> Metric" where
  "data_metric alloc machine now null nm dt props v =
     \<lparr>metric_name = nm, metric_alias = alias_for alloc (MachineDescription.name machine) nm,
      metric_timestamp = Some now, metric_type = dt, is_null = null, properties = props, metric_value = v\<rparr>"

definition build_machine_metrics ::
    "u64 \<Rightarrow> MachineDescription \<Rightarrow> MachineStores \<Rightarrow> AliasAllocator \<Rightarrow> Metric list" where
  "build_machine_metrics now machine stores alloc =
     (let metric = data_metric alloc machine now False;
          or_default = (\<lambda>dt v. case v of Some x \<Rightarrow> x | None \<Rightarrow> default_register_value dt);
          or_off = (\<lambda>v. case v of Some x \<Rightarrow> x | None \<Rightarrow> CoilValue False)
      in map (\<lambda>r. metric (RegisterDescription.name r) (map_data_type (RegisterDescription.data_type r))
              (unit_property (RegisterDescription.unit r))
              (map_register_value (or_default (RegisterDescription.data_type r)
                (RegisterStore_get (MachineStores.registers stores) (RegisterDescription.name r)))))
           (MachineDescription.registers machine)
         @ map (\<lambda>c. metric (CoilDescription.name c) SparkplugDataType.Boolean None
              (map_coil_value (or_off (CoilStore_get (MachineStores.coils stores) (CoilDescription.name c)))))
           (MachineDescription.coils machine)
         @ map (\<lambda>d. metric (DiscreteInputDescription.name d) SparkplugDataType.Boolean None
              (map_coil_value (or_off (DiscreteInputStore_get (MachineStores.discrete_inputs stores)
                (DiscreteInputDescription.name d)))))
           (MachineDescription.discrete_inputs machine)
         @ map (\<lambda>r. metric (InputRegisterDescription.name r)
              (map_data_type (InputRegisterDescription.data_type r))
              (unit_property (InputRegisterDescription.unit r))
              (map_register_value (or_default (InputRegisterDescription.data_type r)
                (InputRegisterStore_get (MachineStores.input_registers stores) (InputRegisterDescription.name r)))))
           (MachineDescription.input_registers machine)
         @ map (\<lambda>f. metric
              (file_record_metric_name (FileRecordDescription.file_number f) (FileRecordDescription.record_number f))
              SparkplugDataType.Bytes None
              (MetricValue.Bytes (case FileRecordStore_get (MachineStores.file_records stores)
                  (FileRecordDescription.file_number f, FileRecordDescription.record_number f) of
                Some bs \<Rightarrow> bs | None \<Rightarrow> replicate (2 * unat (FileRecordDescription.record_length f)) 0)))
           (MachineDescription.file_records machine))"

definition build_machine_metrics_null_placeholders ::
    "u64 \<Rightarrow> MachineDescription \<Rightarrow> AliasAllocator \<Rightarrow> Metric list" where
  "build_machine_metrics_null_placeholders now machine alloc =
     (let metric = data_metric alloc machine now True
      in map (\<lambda>r. metric (RegisterDescription.name r) (map_data_type (RegisterDescription.data_type r))
              (unit_property (RegisterDescription.unit r))
              (map_register_value (default_register_value (RegisterDescription.data_type r))))
           (MachineDescription.registers machine)
         @ map (\<lambda>c. metric (CoilDescription.name c) SparkplugDataType.Boolean None
              (map_coil_value (CoilValue False)))
           (MachineDescription.coils machine)
         @ map (\<lambda>d. metric (DiscreteInputDescription.name d) SparkplugDataType.Boolean None
              (map_coil_value (CoilValue False)))
           (MachineDescription.discrete_inputs machine)
         @ map (\<lambda>r. metric (InputRegisterDescription.name r)
              (map_data_type (InputRegisterDescription.data_type r))
              (unit_property (InputRegisterDescription.unit r))
              (map_register_value (default_register_value (InputRegisterDescription.data_type r))))
           (MachineDescription.input_registers machine)
         @ map (\<lambda>f. metric
              (file_record_metric_name (FileRecordDescription.file_number f) (FileRecordDescription.record_number f))
              SparkplugDataType.Bytes None
              (MetricValue.Bytes (replicate (2 * unat (FileRecordDescription.record_length f)) 0)))
           (MachineDescription.file_records machine))"

section \<open>What is published\<close>

text \<open>The derived \<open>PartialEq\<close> of metric values: floats compare as IEEE numbers, not as bit patterns.\<close>

definition f32_eq :: "u32 \<Rightarrow> u32 \<Rightarrow> bool" where
  "f32_eq a b \<longleftrightarrow> a AND 0x7FFFFFFF \<le> 0x7F800000 \<and> b AND 0x7FFFFFFF \<le> 0x7F800000
     \<and> (a = b \<or> a AND 0x7FFFFFFF = 0 \<and> b AND 0x7FFFFFFF = 0)"

definition f64_eq :: "u64 \<Rightarrow> u64 \<Rightarrow> bool" where
  "f64_eq a b \<longleftrightarrow> a AND 0x7FFFFFFFFFFFFFFF \<le> 0x7FF0000000000000 \<and> b AND 0x7FFFFFFFFFFFFFFF \<le> 0x7FF0000000000000
     \<and> (a = b \<or> a AND 0x7FFFFFFFFFFFFFFF = 0 \<and> b AND 0x7FFFFFFFFFFFFFFF = 0)"

fun data_set_value_eq :: "DataSetValue \<Rightarrow> DataSetValue \<Rightarrow> bool" where
  "data_set_value_eq (DataSetValue.Float a) (DataSetValue.Float b) = f32_eq a b"
| "data_set_value_eq (DataSetValue.Double a) (DataSetValue.Double b) = f64_eq a b"
| "data_set_value_eq a b = (a = b)"

definition data_set_eq :: "DataSet \<Rightarrow> DataSet \<Rightarrow> bool" where
  "data_set_eq a b \<longleftrightarrow> columns a = columns b \<and> types a = types b
     \<and> list_all2 (\<lambda>r s. list_all2 data_set_value_eq (elements r) (elements s)) (rows a) (rows b)"

fun metric_value_eq :: "MetricValue \<Rightarrow> MetricValue \<Rightarrow> bool" where
  "metric_value_eq (MetricValue.Float a) (MetricValue.Float b) = f32_eq a b"
| "metric_value_eq (MetricValue.Double a) (MetricValue.Double b) = f64_eq a b"
| "metric_value_eq (MetricValue.DataSet a) (MetricValue.DataSet b) = data_set_eq a b"
| "metric_value_eq a b = (a = b)"

record ChangeTracker =
  last_published :: "u64 \<rightharpoonup> MetricValue"

definition ChangeTracker_new :: ChangeTracker where
  "ChangeTracker_new = \<lparr>last_published = Map.empty\<rparr>"

text \<open>One turn of the loop of \<open>changed_metrics\<close>, on the tracker and the metrics collected.\<close>

definition track_metric ::
    "Metric \<Rightarrow> ChangeTracker \<times> Metric list \<Rightarrow> (ChangeTracker \<times> Metric list, 'e) result" where
  "track_metric metric s =
     (let (tracker, changed) = s in
      case metric_alias metric of
        None \<Rightarrow> Panic
      | Some a \<Rightarrow>
          (case last_published tracker a of
             Some old \<Rightarrow>
               if metric_value_eq old (metric_value metric) then Ok (tracker, changed)
               else Ok (tracker\<lparr>last_published := (last_published tracker)(a \<mapsto> metric_value metric)\<rparr>,
                        changed @ [metric])
           | None \<Rightarrow>
               Ok (tracker\<lparr>last_published := (last_published tracker)(a \<mapsto> metric_value metric)\<rparr>,
                   changed @ [metric])))"

definition changed_metrics :: "Metric list \<Rightarrow> ChangeTracker \<Rightarrow> (ChangeTracker \<times> Metric list, 'e) result" where
  "changed_metrics ms tracker = for_each track_metric ms (tracker, [])"

section \<open>Commands\<close>

definition SUBSCRIBE_METRIC_NAME :: string where "SUBSCRIBE_METRIC_NAME = ''Node Control/Subscribe''"
definition UNSUBSCRIBE_METRIC_NAME :: string where "UNSUBSCRIBE_METRIC_NAME = ''Node Control/Unsubscribe''"

definition is_rebirth_request :: "Payload \<Rightarrow> bool" where
  "is_rebirth_request payload \<longleftrightarrow>
     list_ex (\<lambda>m. metric_name m = REBIRTH_METRIC_NAME \<and> metric_value_eq (metric_value m) (MetricValue.Boolean True))
       (metrics payload)"

definition requested_machine_names :: "Payload \<Rightarrow> string \<Rightarrow> string list" where
  "requested_machine_names payload nm =
     List.map_filter (\<lambda>m. case metric_value m of MetricValue.String s \<Rightarrow> Some s | _ \<Rightarrow> None)
       (filter (\<lambda>m. metric_name m = nm) (metrics payload))"

definition subscribe_requests :: "Payload \<Rightarrow> string list" where
  "subscribe_requests payload = requested_machine_names payload SUBSCRIBE_METRIC_NAME"

definition unsubscribe_requests :: "Payload \<Rightarrow> string list" where
  "unsubscribe_requests payload = requested_machine_names payload UNSUBSCRIBE_METRIC_NAME"

text \<open>The name a command metric resolves to, if it resolves.\<close>

definition resolve_metric_name :: "MachineDescription \<Rightarrow> AliasAllocator \<Rightarrow> Metric \<Rightarrow> string option" where
  "resolve_metric_name machine alloc metric =
     (case metric_alias metric of
        Some a \<Rightarrow>
          (case metric_for_alias alloc a of
             Some (owning_machine, nm) \<Rightarrow>
               if owning_machine = MachineDescription.name machine then Some nm else None
           | None \<Rightarrow> None)
      | None \<Rightarrow> if metric_name metric \<noteq> [] then Some (metric_name metric) else None)"

definition decode_dcmd_metrics ::
    "MachineDescription \<Rightarrow> AliasAllocator \<Rightarrow> Payload \<Rightarrow> (string \<rightharpoonup> StagedValue)" where
  "decode_dcmd_metrics machine alloc payload =
     fold (\<lambda>metric staged.
       case resolve_metric_name machine alloc metric of
         None \<Rightarrow> staged
       | Some nm \<Rightarrow>
           (case metric_value_to_staged_value machine nm (metric_value metric) of
              Ok v \<Rightarrow> staged(nm \<mapsto> v)
            | _ \<Rightarrow> staged)) (metrics payload) Map.empty"

section \<open>Aliases are one to one\<close>

lemma insert_aliases:
  "fold insert_alias ks (Map.empty, 0) = (found, next_alias) \<Longrightarrow>
     next_alias = of_nat (length ks)
     \<and> (\<forall>key a. found key = Some a \<longleftrightarrow>
          (\<exists>i < length ks. ks ! i = key \<and> key \<notin> set (drop (Suc i) ks) \<and> a = of_nat i))"
proof (induction ks arbitrary: found next_alias rule: rev_induct)
  case (snoc k ks)
  obtain f n where f: "fold insert_alias ks (Map.empty, 0) = (f, n)" by fastforce
  from snoc.IH [OF f] have n: "n = of_nat (length ks)"
    and IH: "\<And>key a. f key = Some a \<longleftrightarrow>
      (\<exists>i < length ks. ks ! i = key \<and> key \<notin> set (drop (Suc i) ks) \<and> a = of_nat i)" by auto
  have found: "found = f(k \<mapsto> n)" "next_alias = n + 1"
    using snoc.prems by (auto simp: f) (auto simp: insert_alias_def)
  have "found key = Some a \<longleftrightarrow> (\<exists>i < length (ks @ [k]). (ks @ [k]) ! i = key
      \<and> key \<notin> set (drop (Suc i) (ks @ [k])) \<and> a = of_nat i)" for key a
  proof (cases "key = k")
    case True
    show ?thesis unfolding found True n by (auto simp: less_Suc_eq nth_append)
  next
    case False
    show ?thesis unfolding found using False IH [of key a] by (auto simp: less_Suc_eq nth_append)
  qed
  then show ?case using found n by simp
qed simp

lemma alias_for_iff:
  "alias_for (AliasAllocator_build ms) mn nm = Some a \<longleftrightarrow>
     (\<exists>i < length (data_points ms). data_points ms ! i = (mn, nm)
        \<and> (mn, nm) \<notin> set (drop (Suc i) (data_points ms)) \<and> a = of_nat i)"
  using insert_aliases [of "data_points ms"]
  by (cases "fold insert_alias (data_points ms) (Map.empty, 0)")
    (simp add: alias_for_def AliasAllocator_build_def Let_def)

lemma last_occurrence:
  "x \<in> set xs \<Longrightarrow> \<exists>i < length xs. xs ! i = x \<and> x \<notin> set (drop (Suc i) xs)"
proof (induction xs)
  case (Cons y ys)
  show ?case
  proof (cases "x \<in> set ys")
    case True
    with Cons.IH obtain i where "i < length ys" "ys ! i = x" "x \<notin> set (drop (Suc i) ys)" by blast
    then show ?thesis by (intro exI [of _ "Suc i"]) simp
  next
    case False
    with Cons.prems show ?thesis by (intro exI [of _ 0]) auto
  qed
qed simp

lemma alias_for_defined:
  "alias_for (AliasAllocator_build ms) mn nm \<noteq> None \<longleftrightarrow> (mn, nm) \<in> set (data_points ms)"
proof
  assume "alias_for (AliasAllocator_build ms) mn nm \<noteq> None"
  then obtain a where "alias_for (AliasAllocator_build ms) mn nm = Some a" by blast
  then show "(mn, nm) \<in> set (data_points ms)" unfolding alias_for_iff by (metis nth_mem)
next
  assume "(mn, nm) \<in> set (data_points ms)"
  from last_occurrence [OF this] show "alias_for (AliasAllocator_build ms) mn nm \<noteq> None"
    using alias_for_iff by blast
qed

lemma of_nat_u64_inject: "i < 2 ^ 64 \<Longrightarrow> j < 2 ^ 64 \<Longrightarrow> (of_nat i :: u64) = of_nat j \<longleftrightarrow> i = j"
  by (simp add: word_of_nat_eq_iff take_bit_nat_eq_self)

lemma alias_for_inject:
  assumes "length (data_points ms) < 2 ^ 64"
    and "alias_for (AliasAllocator_build ms) mn nm = Some a" and "alias_for (AliasAllocator_build ms) mn' nm' = Some a"
  shows "mn = mn' \<and> nm = nm'"
proof -
  obtain i j where "i < length (data_points ms)" "data_points ms ! i = (mn, nm)" "a = of_nat i"
    "j < length (data_points ms)" "data_points ms ! j = (mn', nm')" "a = of_nat j"
    using assms(2,3) unfolding alias_for_iff by blast
  with assms(1) of_nat_u64_inject [of i j] show ?thesis by auto
qed

lemma distinct_inverse:
  assumes "distinct ks" and "\<And>key key' x. f key = Some x \<Longrightarrow> f key' = Some x \<Longrightarrow> key = key'"
  shows "distinct (map fst (List.map_filter (\<lambda>key. map_option (\<lambda>a. (a, key)) (f key)) ks))"
proof -
  have "map fst (List.map_filter (\<lambda>key. map_option (\<lambda>a. (a, key)) (f key)) ks)
      = map (\<lambda>key. the (f key)) (filter (\<lambda>key. f key \<noteq> None) ks)"
    by (induction ks) (auto simp: map_filter_def)
  moreover have "inj_on (\<lambda>key. the (f key)) (set (filter (\<lambda>key. f key \<noteq> None) ks))"
    by (rule inj_onI) (use assms(2) in force)
  ultimately show ?thesis using assms(1) by (simp add: distinct_map)
qed

lemma metric_for_alias_iff:
  assumes "length (data_points ms) < 2 ^ 64"
  shows "metric_for_alias (AliasAllocator_build ms) a = Some (mn, nm)
     \<longleftrightarrow> alias_for (AliasAllocator_build ms) mn nm = Some a"
proof -
  let ?f = "aliases (AliasAllocator_build ms)" and ?keys = "remdups (data_points ms)"
  let ?pairs = "List.map_filter (\<lambda>key. map_option (\<lambda>a. (a, key)) (?f key)) ?keys"
  have inj: "key = key'" if "?f key = Some x" "?f key' = Some x" for key key' x
    using alias_for_inject [OF assms, of "fst key" "snd key" x "fst key'" "snd key'"] that
    by (simp add: alias_for_def prod_eq_iff)
  have dom: "?f key \<noteq> None \<longleftrightarrow> key \<in> set ?keys" for key
    using alias_for_defined [of ms "fst key" "snd key"] by (simp add: alias_for_def)
  have d: "distinct (map fst ?pairs)"
    by (rule distinct_inverse [OF distinct_remdups]) (erule (1) inj)
  have "reverse (AliasAllocator_build ms) = map_of ?pairs"
    by (simp add: AliasAllocator_build_def Let_def)
  then have "metric_for_alias (AliasAllocator_build ms) a = Some (mn, nm) \<longleftrightarrow> (a, (mn, nm)) \<in> set ?pairs"
    by (simp add: metric_for_alias_def map_of_eq_Some_iff [OF d])
  also have "\<dots> \<longleftrightarrow> ?f (mn, nm) = Some a"
    using dom [of "(mn, nm)"] by (force simp: map_filter_def)
  finally show ?thesis by (simp add: alias_for_def)
qed

end
