(* ===== verification/Sparkplug_Client.thy ===== *)
theory Sparkplug_Client
  imports Sparkplug_Translation
begin

text \<open>
  What the Sparkplug side of the client promises: aliases name data points one to one, values
  survive the way to a host and back, a command reaches the register it is meant for, and what is
  published keeps a host's view current, except for what the placeholder births hide.
\<close>

section \<open>Aliases\<close>

definition sample_points :: "MachineDescription list" where
  "sample_points =
     [\<lparr>MachineDescription.name = ''pump'', unit_id = 1,
       registers = [\<lparr>RegisterDescription.name = ''speed'', address = 0, data_type = U16,
         access = ReadWrite, unit = None\<rparr>],
       coils = [\<lparr>CoilDescription.name = ''run'', address = 0\<rparr>], discrete_inputs = [], input_registers = [],
       file_records = [], mem_layout = Abcd, input_register_mem_layout = Abcd, server_id = None\<rparr>]"

text \<open>An alias stands for exactly one data point of the whole edge node: looking up the alias of a
  point and the point of an alias are inverse, and exactly the declared points have one.\<close>

theorem aliases_are_one_to_one:
  assumes "length (data_points ms) < 2 ^ 64"
  shows "(metric_for_alias (AliasAllocator_build ms) a = Some (mn, nm)
           \<longleftrightarrow> alias_for (AliasAllocator_build ms) mn nm = Some a)
    \<and> (alias_for (AliasAllocator_build ms) mn nm \<noteq> None \<longleftrightarrow> (mn, nm) \<in> set (data_points ms))"
  using metric_for_alias_iff [OF assms] alias_for_defined by blast

lemma sample_data_points: "data_points sample_points = [(''pump'', ''speed''), (''pump'', ''run'')]"
  by (simp add: data_points_def sample_points_def data_point_names_def)

theorem aliases_are_one_to_one_witness:
  "(metric_for_alias (AliasAllocator_build sample_points) 1 = Some (''pump'', ''run'')
     \<longleftrightarrow> alias_for (AliasAllocator_build sample_points) ''pump'' ''run'' = Some 1)
   \<and> (alias_for (AliasAllocator_build sample_points) ''pump'' ''run'' \<noteq> None
      \<longleftrightarrow> (''pump'', ''run'') \<in> set (data_points sample_points))"
  by (rule aliases_are_one_to_one) (simp add: sample_data_points)

section \<open>Values\<close>

lemma top_bit: "7 \<le> n \<Longrightarrow> n < 8 \<Longrightarrow> n = (7 :: nat)" "15 \<le> n \<Longrightarrow> n < 16 \<Longrightarrow> n = (15 :: nat)"
  by simp_all

lemma scast_back:
  "(ucast (scast (b :: u8) :: u32) :: u8) = b" "(ucast (scast (w :: u16) :: u32) :: u16) = w"
  "(ucast (ucast (b :: u8) :: u32) :: u8) = b" "(ucast (ucast (w :: u16) :: u32) :: u16) = w"
  by (rule bit_word_eqI; auto simp: bit_simps min_def dest!: top_bit)+

text \<open>A register value, signed or not and of any width, survives the way to a host and back.\<close>

theorem register_value_reaches_host_and_back:
  assumes "value_in_range v"
  shows "metric_value_to_register_value (map_register_value v) (data_type_of v) = Ok v"
  using assms by (cases v) (simp_all add: scast_back not_less)

theorem register_value_reaches_host_and_back_witness:
  "metric_value_to_register_value (map_register_value (RegI16 0xFFFE)) I16 = Ok (RegI16 0xFFFE)"
  using register_value_reaches_host_and_back [of "RegI16 0xFFFE"] by simp

text \<open>What is accepted from a host has the declared type and lies within it.\<close>

lemma metric_value_to_register_value_typed:
  "metric_value_to_register_value mv dt = Ok v \<Longrightarrow> data_type_of v = dt \<and> value_in_range v"
  by (cases "(mv, dt)" rule: metric_value_to_register_value.cases) (auto split: if_splits)

section \<open>What is published\<close>

text \<open>
  The last entry for each alias: of the tracker the value, of a host the value unless the metric
  is null, which means that there is no value.
\<close>

definition applied :: "(Metric \<Rightarrow> 'v) \<Rightarrow> Metric list \<Rightarrow> (u64 \<rightharpoonup> 'v) \<Rightarrow> (u64 \<rightharpoonup> 'v)" where
  "applied f ms view =
     fold (\<lambda>m view. case metric_alias m of Some a \<Rightarrow> view(a \<mapsto> f m) | None \<Rightarrow> view) ms view"

definition shown_value :: "Metric \<Rightarrow> MetricValue option" where
  "shown_value m = (if is_null m then None else Some (metric_value m))"

definition apply_published :: "Metric list \<Rightarrow> (u64 \<rightharpoonup> MetricValue option) \<Rightarrow> (u64 \<rightharpoonup> MetricValue option)" where
  "apply_published ms view = applied shown_value ms view"

definition differs :: "(u64 \<rightharpoonup> MetricValue) \<Rightarrow> Metric \<Rightarrow> bool" where
  "differs view m \<longleftrightarrow>
     (case metric_alias m of
        Some a \<Rightarrow> (case view a of Some old \<Rightarrow> \<not> metric_value_eq old (metric_value m) | None \<Rightarrow> True)
      | None \<Rightarrow> False)"

definition well_aliased :: "Metric list \<Rightarrow> bool" where
  "well_aliased ms \<longleftrightarrow> distinct (map metric_alias ms) \<and> None \<notin> set (map metric_alias ms)"

lemma differs_other: "metric_alias m \<noteq> Some a \<Longrightarrow> differs (view(a \<mapsto> v)) m \<longleftrightarrow> differs view m"
  by (auto simp: differs_def split: option.splits)

lemma applied_other:
  "Some a \<notin> set (map metric_alias ms) \<Longrightarrow> applied f ms view a = view a"
proof (induction ms arbitrary: view)
  case (Cons m ms)
  then show ?case by (cases "metric_alias m") (auto simp: applied_def)
qed (simp add: applied_def)

lemma applied_Cons:
  "applied f (m # ms) view =
     applied f ms (case metric_alias m of Some a \<Rightarrow> view(a \<mapsto> f m) | None \<Rightarrow> view)"
  by (simp add: applied_def)

lemma applied_value:
  "distinct (map metric_alias ms) \<Longrightarrow> m \<in> set ms \<Longrightarrow> metric_alias m = Some a
     \<Longrightarrow> applied f ms view a = Some (f m)"
proof (induction ms arbitrary: view)
  case (Cons x ms)
  show ?case
  proof (cases "m = x")
    case True
    with Cons.prems show ?thesis by (simp add: applied_Cons applied_other)
  next
    case False
    with Cons.prems Cons.IH show ?thesis by (simp add: applied_Cons)
  qed
qed simp

lemma track_metrics:
  "well_aliased ms \<Longrightarrow>
     (for_each track_metric ms (t, changed) :: (ChangeTracker \<times> Metric list, 'e) result) =
       Ok (t\<lparr>last_published := applied metric_value (filter (differs (last_published t)) ms) (last_published t)\<rparr>,
           changed @ filter (differs (last_published t)) ms)"
proof (induction ms arbitrary: t changed)
  case (Cons m ms)
  from Cons.prems obtain a where a: "metric_alias m = Some a" by (cases "metric_alias m") (auto simp: well_aliased_def)
  have ms: "well_aliased ms" using Cons.prems by (simp add: well_aliased_def)
  have other: "differs ((last_published t)(a \<mapsto> v)) x \<longleftrightarrow> differs (last_published t) x" if "x \<in> set ms" for x v
    using Cons.prems a that by (intro differs_other) (auto simp: well_aliased_def intro: rev_image_eqI)
  have f: "filter (differs ((last_published t)(a \<mapsto> v))) ms = filter (differs (last_published t)) ms" for v
    using other by (intro filter_cong) auto
  show ?case
  proof (cases "differs (last_published t) m")
    case True
    then have "(track_metric m (t, changed) :: (ChangeTracker \<times> Metric list, 'e) result)
        = Ok (t\<lparr>last_published := (last_published t)(a \<mapsto> metric_value m)\<rparr>, changed @ [m])"
      by (auto simp: track_metric_def differs_def a split: option.splits)
    with True show ?thesis
      by (simp add: Cons.IH [OF ms] f applied_Cons a del: fun_upd_apply)
  next
    case False
    then have "(track_metric m (t, changed) :: (ChangeTracker \<times> Metric list, 'e) result) = Ok (t, changed)"
      by (auto simp: track_metric_def differs_def a split: option.splits)
    with False show ?thesis by (simp add: Cons.IH [OF ms])
  qed
qed (simp add: applied_def)

lemma changed_metrics_exact:
  "well_aliased ms \<Longrightarrow>
     changed_metrics ms t =
       Ok (t\<lparr>last_published := applied metric_value (filter (differs (last_published t)) ms) (last_published t)\<rparr>,
           filter (differs (last_published t)) ms)"
  by (simp add: changed_metrics_def track_metrics)

text \<open>The publications of a ticker: the change tracker runs over the metrics of each tick.\<close>

fun publish_ticks :: "Metric list list \<Rightarrow> ChangeTracker \<Rightarrow> (ChangeTracker \<times> Metric list, 'e) result" where
  "publish_ticks [] t = Ok (t, [])"
| "publish_ticks (ms # ticks) t =
     and_then (changed_metrics ms t) (\<lambda>(t', pub).
     and_then (publish_ticks ticks t') (\<lambda>(t'', more). Ok (t'', pub @ more)))"

lemma applied_append: "applied f (xs @ ys) view = applied f ys (applied f xs view)"
  by (simp add: applied_def)

lemma publish_ticks_view:
  "list_all well_aliased ticks \<Longrightarrow>
     \<exists>pub. (publish_ticks ticks t :: (ChangeTracker \<times> Metric list, 'e) result)
       = Ok (t\<lparr>last_published := applied metric_value pub (last_published t)\<rparr>, pub)"
proof (induction ticks arbitrary: t)
  case Nil
  show ?case by (intro exI [of _ "[]"]) (simp add: applied_def)
next
  case (Cons ms ticks)
  let ?pub = "filter (differs (last_published t)) ms"
  let ?t = "t\<lparr>last_published := applied metric_value ?pub (last_published t)\<rparr>"
  from Cons.IH [of ?t] Cons.prems obtain more
    where "(publish_ticks ticks ?t :: (ChangeTracker \<times> Metric list, 'e) result)
      = Ok (?t\<lparr>last_published := applied metric_value more (last_published ?t)\<rparr>, more)" by auto
  with Cons.prems show ?case
    by (intro exI [of _ "?pub @ more"]) (simp add: changed_metrics_exact applied_append)
qed

text \<open>A tick publishes the metric of an alias if the tracker holds another value for it.\<close>

lemma tick_entry:
  assumes ms: "well_aliased ms" and m: "m \<in> set ms" "metric_alias m = Some a"
  shows "applied f (filter (differs T) ms) view a = (if differs T m then Some (f m) else view a)"
proof (cases "differs T m")
  case True
  have "distinct (map metric_alias (filter (differs T) ms))"
    using ms by (simp add: well_aliased_def distinct_map_filter)
  from applied_value [OF this _ m(2)] m(1) True show ?thesis by simp
next
  case False
  have "Some a \<notin> set (map metric_alias (filter (differs T) ms))"
  proof
    assume "Some a \<in> set (map metric_alias (filter (differs T) ms))"
    then obtain x where "x \<in> set ms" "metric_alias x = Some a" "differs T x" by auto
    moreover have "inj_on metric_alias (set ms)" using ms by (simp add: well_aliased_def distinct_map)
    ultimately have "x = m" using m by (auto dest: inj_onD [of _ _ x m])
    with \<open>differs T x\<close> False show False by simp
  qed
  from applied_other [OF this] False show ?thesis by simp
qed

section \<open>What the placeholder births hide\<close>

text \<open>Every point of the machine has been polled and reads as the default of its type.\<close>

definition stores_at_default :: "MachineDescription \<Rightarrow> MachineStores \<Rightarrow> bool" where
  "stores_at_default machine stores \<longleftrightarrow>
     list_all (\<lambda>r. RegisterStore_get (MachineStores.registers stores) (RegisterDescription.name r)
        = Some (default_register_value (RegisterDescription.data_type r))) (MachineDescription.registers machine)
     \<and> list_all (\<lambda>c. CoilStore_get (MachineStores.coils stores) (CoilDescription.name c) = Some (CoilValue False))
         (MachineDescription.coils machine)
     \<and> list_all (\<lambda>d. DiscreteInputStore_get (MachineStores.discrete_inputs stores)
         (DiscreteInputDescription.name d) = Some (CoilValue False)) (MachineDescription.discrete_inputs machine)
     \<and> list_all (\<lambda>r. InputRegisterStore_get (MachineStores.input_registers stores)
         (InputRegisterDescription.name r) = Some (default_register_value (InputRegisterDescription.data_type r)))
         (MachineDescription.input_registers machine)
     \<and> list_all (\<lambda>f. FileRecordStore_get (MachineStores.file_records stores)
         (FileRecordDescription.file_number f, FileRecordDescription.record_number f)
         = Some (replicate (2 * unat (FileRecordDescription.record_length f)) 0))
         (MachineDescription.file_records machine)"

lemma metrics_at_default:
  assumes "stores_at_default machine stores"
  shows "build_machine_metrics now' machine stores alloc =
     map (\<lambda>m. m\<lparr>metric_timestamp := Some now', is_null := False\<rparr>)
       (build_machine_metrics_null_placeholders now machine alloc)"
  using assms
  by (simp add: build_machine_metrics_def build_machine_metrics_null_placeholders_def stores_at_default_def
      list_all_iff data_metric_def Let_def)

lemma placeholder_aliases:
  "map metric_alias (build_machine_metrics_null_placeholders now machine alloc) =
     map (alias_for alloc (MachineDescription.name machine)) (data_point_names machine)"
  by (simp add: build_machine_metrics_null_placeholders_def data_point_names_def data_metric_def Let_def)

lemma machine_metrics_well_aliased:
  assumes "length (data_points ms) < 2 ^ 64" and "machine \<in> set ms" and "distinct (data_point_names machine)"
  shows "well_aliased (build_machine_metrics_null_placeholders now machine (AliasAllocator_build ms))"
proof -
  let ?a = "alias_for (AliasAllocator_build ms) (MachineDescription.name machine)"
  have some: "?a nm \<noteq> None" if "nm \<in> set (data_point_names machine)" for nm
    using that assms(2) by (subst alias_for_defined) (auto simp: data_points_def)
  have "inj_on ?a (set (data_point_names machine))"
  proof (rule inj_onI)
    fix x y assume "x \<in> set (data_point_names machine)" "?a x = ?a y"
    with some obtain n where "?a x = Some n" "?a y = Some n" by (metis not_None_eq)
    then show "x = y" using alias_for_inject [OF assms(1)] by blast
  qed
  moreover have "None \<notin> ?a ` set (data_point_names machine)"
  proof
    assume "None \<in> ?a ` set (data_point_names machine)"
    then obtain nm where "nm \<in> set (data_point_names machine)" "?a nm = None" by auto
    with some show False by blast
  qed
  ultimately show ?thesis
    using assms(3) by (simp add: well_aliased_def placeholder_aliases distinct_map del: set_map map_map)
      (simp add: comp_def)
qed

lemma default_eq_default:
  "metric_value_eq (map_register_value (default_register_value dt)) (map_register_value (default_register_value dt))"
  by (cases dt) (simp_all add: f32_eq_def f64_eq_def)

lemma placeholder_value_eq:
  "m \<in> set (build_machine_metrics_null_placeholders now machine alloc)
     \<Longrightarrow> is_null m \<and> metric_value_eq (metric_value m) (metric_value m)"
  by (auto simp: build_machine_metrics_null_placeholders_def data_metric_def Let_def default_eq_default)

text \<open>The metrics of a tick have the aliases of the birth, and none of them is null.\<close>

lemma metric_aliases:
  "map metric_alias (build_machine_metrics now machine stores alloc) =
     map (alias_for alloc (MachineDescription.name machine)) (data_point_names machine)"
  by (simp add: build_machine_metrics_def data_point_names_def data_metric_def Let_def)

lemma metrics_not_null: "m \<in> set (build_machine_metrics now machine stores alloc) \<Longrightarrow> \<not> is_null m"
  by (auto simp: build_machine_metrics_def data_metric_def Let_def)

lemma publish_ticks_snoc:
  "(publish_ticks (ticks @ [ms]) t :: (ChangeTracker \<times> Metric list, 'e) result) = and_then (publish_ticks ticks t) (\<lambda>(t', pub).
     and_then (changed_metrics ms t') (\<lambda>(t'', more). Ok (t'', pub @ more)))"
  by (induction ticks arbitrary: t) (auto simp: and_then_assoc case_prod_unfold)

text \<open>
  A host starts from null where the tracker starts from \<open>z\<close>. It stays so as long as every tick has a value
  equal to \<open>z\<close>; from the first other value on it holds what the tracker holds.
\<close>

definition regular_tick :: "u64 \<Rightarrow> Metric list \<Rightarrow> bool" where
  "regular_tick a ms \<longleftrightarrow> well_aliased ms \<and> (\<exists>x \<in> set ms. metric_alias x = Some a) \<and> (\<forall>x \<in> set ms. \<not> is_null x)"

lemma ticks_on_host:
  assumes "list_all (regular_tick a) L" and "T a = Some z" and "H a = Some None"
  shows "\<exists>pub. (publish_ticks L (t\<lparr>last_published := T\<rparr>) :: (ChangeTracker \<times> Metric list, 'e) result)
         = Ok (t\<lparr>last_published := applied metric_value pub T\<rparr>, pub)
     \<and> (applied metric_value pub T a = Some z \<and> applied shown_value pub H a = Some None
          \<and> (\<forall>ms \<in> set L. \<forall>x \<in> set ms. metric_alias x = Some a \<longrightarrow> metric_value_eq z (metric_value x))
        \<or> (\<exists>v. applied metric_value pub T a = Some v \<and> applied shown_value pub H a = Some (Some v)
          \<and> (\<exists>ms \<in> set L. \<exists>x \<in> set ms. metric_alias x = Some a \<and> \<not> metric_value_eq z (metric_value x))
          \<and> (\<forall>x \<in> set (last L). metric_alias x = Some a \<longrightarrow> v = metric_value x \<or> metric_value_eq v (metric_value x))))"
  using assms(1)
proof (induction L rule: rev_induct)
  case Nil
  show ?case using assms(2,3) by (intro exI [of _ "[]"]) (simp add: applied_def)
next
  case (snoc ms L)
  then obtain pub where pub: "(publish_ticks L (t\<lparr>last_published := T\<rparr>) :: (ChangeTracker \<times> Metric list, 'e) result)
        = Ok (t\<lparr>last_published := applied metric_value pub T\<rparr>, pub)"
    and state: "applied metric_value pub T a = Some z \<and> applied shown_value pub H a = Some None
          \<and> (\<forall>ms \<in> set L. \<forall>x \<in> set ms. metric_alias x = Some a \<longrightarrow> metric_value_eq z (metric_value x))
        \<or> (\<exists>v. applied metric_value pub T a = Some v \<and> applied shown_value pub H a = Some (Some v)
          \<and> (\<exists>ms \<in> set L. \<exists>x \<in> set ms. metric_alias x = Some a \<and> \<not> metric_value_eq z (metric_value x)))"
    by auto
  let ?T = "applied metric_value pub T" and ?H = "applied shown_value pub H"
  let ?pub = "filter (differs ?T) ms"
  from snoc.prems have ms: "well_aliased ms" by (simp add: regular_tick_def)
  from snoc.prems obtain x where x: "x \<in> set ms" "metric_alias x = Some a" "\<not> is_null x" by (auto simp: regular_tick_def)
  have only: "y = x" if "y \<in> set ms" "metric_alias y = Some a" for y
    using ms x that by (auto simp: well_aliased_def distinct_map inj_on_def)
  have run: "(publish_ticks (L @ [ms]) (t\<lparr>last_published := T\<rparr>) :: (ChangeTracker \<times> Metric list, 'e) result)
      = Ok (t\<lparr>last_published := applied metric_value (pub @ ?pub) T\<rparr>, pub @ ?pub)"
    by (simp add: publish_ticks_snoc pub changed_metrics_exact [OF ms] applied_append)
  have entries: "applied metric_value (pub @ ?pub) T a = (if differs ?T x then Some (metric_value x) else ?T a)"
    "applied shown_value (pub @ ?pub) H a = (if differs ?T x then Some (Some (metric_value x)) else ?H a)"
    using x(3) by (simp_all add: applied_append tick_entry [OF ms x(1,2)] shown_value_def)
  let ?moved = "\<lambda>L. \<exists>ms \<in> set L. \<exists>x \<in> set ms. metric_alias x = Some a \<and> \<not> metric_value_eq z (metric_value x)"
  show ?case
  proof (cases "differs ?T x")
    case True
    from state have "?moved (L @ [ms])"
    proof
      assume "?T a = Some z \<and> ?H a = Some None
          \<and> (\<forall>ms \<in> set L. \<forall>x \<in> set ms. metric_alias x = Some a \<longrightarrow> metric_value_eq z (metric_value x))"
      with True x(1,2) show ?thesis by (auto simp: differs_def)
    qed auto
    moreover have "v = metric_value y" if "y \<in> set (last (L @ [ms]))" "metric_alias y = Some a" "v = metric_value x" for v y
      using only that by simp
    ultimately show ?thesis using run entries True by (intro exI [of _ "pub @ ?pub"] conjI disjI2) auto
  next
    case False
    then have same: "metric_value_eq w (metric_value x)" if "?T a = Some w" for w
      using that x(2) by (simp add: differs_def)
    from state show ?thesis
    proof
      assume "?T a = Some z \<and> ?H a = Some None
          \<and> (\<forall>ms \<in> set L. \<forall>x \<in> set ms. metric_alias x = Some a \<longrightarrow> metric_value_eq z (metric_value x))"
      with run entries only same False show ?thesis by (intro exI [of _ "pub @ ?pub"] conjI disjI1) auto
    next
      assume "\<exists>v. ?T a = Some v \<and> ?H a = Some (Some v) \<and> ?moved L"
      with run entries only same False show ?thesis by (intro exI [of _ "pub @ ?pub"] conjI disjI2) auto
    qed
  qed
qed

lemma placeholders_seed:
  assumes "length (data_points ms) < 2 ^ 64" and "machine \<in> set ms" and "distinct (data_point_names machine)"
  shows "changed_metrics (build_machine_metrics_null_placeholders now machine (AliasAllocator_build ms)) ChangeTracker_new
    = Ok (ChangeTracker_new\<lparr>last_published := applied metric_value
            (build_machine_metrics_null_placeholders now machine (AliasAllocator_build ms)) Map.empty\<rparr>,
          build_machine_metrics_null_placeholders now machine (AliasAllocator_build ms))"
proof -
  let ?births = "build_machine_metrics_null_placeholders now machine (AliasAllocator_build ms)"
  have births: "well_aliased ?births" by (rule machine_metrics_well_aliased [OF assms])
  have "differs Map.empty m" if "m \<in> set ?births" for m
    using births that by (cases "metric_alias m") (force simp: differs_def well_aliased_def image_iff)+
  then have "filter (differs Map.empty) ?births = ?births" by (simp add: filter_id_conv)
  then show ?thesis
    using changed_metrics_exact [OF births, of ChangeTracker_new] by (simp add: ChangeTracker_new_def)
qed

lemma regular_ticks:
  assumes "length (data_points ms) < 2 ^ 64" and "machine \<in> set ms" and "distinct (data_point_names machine)"
    and "m \<in> set (build_machine_metrics now machine stores (AliasAllocator_build ms))" and "metric_alias m = Some a"
  shows "regular_tick a (build_machine_metrics now' machine stores' (AliasAllocator_build ms))"
proof -
  let ?ms = "build_machine_metrics now' machine stores' (AliasAllocator_build ms)"
  have same: "map metric_alias ?ms = map metric_alias (build_machine_metrics now machine stores (AliasAllocator_build ms))"
    "map metric_alias ?ms = map metric_alias (build_machine_metrics_null_placeholders now machine (AliasAllocator_build ms))"
    by (simp_all only: metric_aliases placeholder_aliases)
  have "well_aliased ?ms"
    using machine_metrics_well_aliased [OF assms(1-3), of now] unfolding well_aliased_def same(2) .
  moreover have "Some a \<in> set (map metric_alias ?ms)" unfolding same(1) using assms(4,5) by force
  ultimately show ?thesis using metrics_not_null by (auto simp: regular_tick_def)
qed

text \<open>
  C28: Publishing only changes keeps a host's view current, but for zeros that are never sent. From the
  birth of a machine, whose metrics are null placeholders, and the subscription, which seeds the change
  tracker with them, and after any number of ticks on any stores: a host that applied everything
  published, null metrics as no value, holds the current value of a point, up to the float
  equality the tracker compares by, unless at every tick so far the value equalled the zero of its
  placeholder; then, and only then, the host still shows it as null.
\<close>

theorem host_view_stays_current:
  assumes "length (data_points ms) < 2 ^ 64" and "machine \<in> set ms" and "distinct (data_point_names machine)"
    and "m \<in> set (build_machine_metrics now machine stores (AliasAllocator_build ms))" and "metric_alias m = Some a"
  shows "let alloc = AliasAllocator_build ms;
           births = build_machine_metrics_null_placeholders birth machine alloc;
           metrics_at = (\<lambda>(now, stores). build_machine_metrics now machine stores alloc) in
     \<exists>t0 t pub. changed_metrics births ChangeTracker_new = (Ok (t0, births) :: (ChangeTracker \<times> Metric list, 'e) result)
       \<and> (publish_ticks (map metrics_at (ticks @ [(now, stores)])) t0 :: (ChangeTracker \<times> Metric list, 'e) result) = Ok (t, pub)
       \<and> (\<exists>p \<in> set births. metric_alias p = Some a
          \<and> (if \<forall>tick \<in> set (ticks @ [(now, stores)]). \<forall>x \<in> set (metrics_at tick).
                 metric_alias x = Some a \<longrightarrow> metric_value_eq (metric_value p) (metric_value x)
             then apply_published pub (apply_published births Map.empty) a = Some None
             else \<exists>v. apply_published pub (apply_published births Map.empty) a = Some (Some v)
               \<and> (v = metric_value m \<or> metric_value_eq v (metric_value m))))"
proof -
  let ?alloc = "AliasAllocator_build ms"
  let ?births = "build_machine_metrics_null_placeholders birth machine ?alloc"
  let ?at = "\<lambda>(now, stores). build_machine_metrics now machine stores ?alloc"
  let ?L = "map ?at (ticks @ [(now, stores)])" and ?T = "applied metric_value ?births Map.empty"
  have "map metric_alias ?births = map metric_alias (build_machine_metrics now machine stores ?alloc)"
    by (simp only: metric_aliases placeholder_aliases)
  moreover have "Some a \<in> set (map metric_alias (build_machine_metrics now machine stores ?alloc))"
    using assms(4,5) by force
  ultimately have "Some a \<in> set (map metric_alias ?births)" by simp
  then obtain p where p: "p \<in> set ?births" "metric_alias p = Some a" by auto
  have births: "distinct (map metric_alias ?births)"
    using machine_metrics_well_aliased [OF assms(1-3)] by (simp add: well_aliased_def)
  have T: "?T a = Some (metric_value p)" by (rule applied_value [OF births p])
  have H: "applied shown_value ?births Map.empty a = Some None"
    using applied_value [OF births p, of shown_value] placeholder_value_eq [OF p(1)] by (simp add: shown_value_def)
  have ticks: "list_all (regular_tick a) ?L"
    using regular_ticks [OF assms] by (auto simp: list_all_iff)
  from ticks_on_host [where T = ?T and H = "applied shown_value ?births Map.empty" and ?'e = 'e and t = ChangeTracker_new,
      OF ticks T H] obtain pub where
    run: "(publish_ticks ?L (ChangeTracker_new\<lparr>last_published := ?T\<rparr>) :: (ChangeTracker \<times> Metric list, 'e) result)
       = Ok (ChangeTracker_new\<lparr>last_published := applied metric_value pub ?T\<rparr>, pub)"
    and view: "applied shown_value pub (applied shown_value ?births Map.empty) a = Some None
          \<and> (\<forall>ms \<in> set ?L. \<forall>x \<in> set ms. metric_alias x = Some a \<longrightarrow> metric_value_eq (metric_value p) (metric_value x))
        \<or> (\<exists>v. applied shown_value pub (applied shown_value ?births Map.empty) a = Some (Some v)
          \<and> (\<exists>ms \<in> set ?L. \<exists>x \<in> set ms. metric_alias x = Some a \<and> \<not> metric_value_eq (metric_value p) (metric_value x))
          \<and> (\<forall>x \<in> set (last ?L). metric_alias x = Some a \<longrightarrow> v = metric_value x \<or> metric_value_eq v (metric_value x)))"
    by blast
  let ?still = "\<forall>tick \<in> set (ticks @ [(now, stores)]). \<forall>x \<in> set (?at tick).
      metric_alias x = Some a \<longrightarrow> metric_value_eq (metric_value p) (metric_value x)"
  have still: "?still \<longleftrightarrow> (\<forall>ms \<in> set ?L. \<forall>x \<in> set ms. metric_alias x = Some a \<longrightarrow> metric_value_eq (metric_value p) (metric_value x))"
    by auto
  have "if ?still then apply_published pub (apply_published ?births Map.empty) a = Some None
      else \<exists>v. apply_published pub (apply_published ?births Map.empty) a = Some (Some v)
        \<and> (v = metric_value m \<or> metric_value_eq v (metric_value m))"
    unfolding still using view assms(4,5) by (auto simp: apply_published_def)
  then show ?thesis
    unfolding Let_def using placeholders_seed [OF assms(1-3), of birth] run p by blast
qed

text \<open>After a subscription a machine whose points all read zero is never published: its birth declared
  every metric null, the tracker is seeded with the zeros of that birth, and a real zero counts as
  no change. A host keeps seeing null for values that are known.\<close>

theorem real_zeros_stay_null:
  assumes "length (data_points ms) < 2 ^ 64" and "machine \<in> set ms" and "distinct (data_point_names machine)"
    and "stores_at_default machine stores"
  shows "\<exists>t. changed_metrics (build_machine_metrics_null_placeholders now machine (AliasAllocator_build ms))
        ChangeTracker_new
      = Ok (t, build_machine_metrics_null_placeholders now machine (AliasAllocator_build ms))
    \<and> list_all is_null (build_machine_metrics_null_placeholders now machine (AliasAllocator_build ms))
    \<and> changed_metrics (build_machine_metrics now' machine stores (AliasAllocator_build ms)) t = Ok (t, [])"
proof -
  let ?births = "build_machine_metrics_null_placeholders now machine (AliasAllocator_build ms)"
  let ?now = "build_machine_metrics now' machine stores (AliasAllocator_build ms)"
  let ?view = "applied metric_value ?births Map.empty"
  let ?t = "ChangeTracker_new\<lparr>last_published := ?view\<rparr>"
  have births: "well_aliased ?births" by (rule machine_metrics_well_aliased [OF assms(1-3)])
  have now: "?now = map (\<lambda>m. m\<lparr>metric_timestamp := Some now', is_null := False\<rparr>) ?births"
    by (rule metrics_at_default [OF assms(4)])
  then have aliases: "map metric_alias ?now = map metric_alias ?births" by simp
  have "differs Map.empty m" if "m \<in> set ?births" for m
    using births that by (cases "metric_alias m") (force simp: differs_def well_aliased_def image_iff)+
  then have "filter (differs Map.empty) ?births = ?births" by (simp add: filter_id_conv)
  then have first: "changed_metrics ?births ChangeTracker_new = Ok (?t, ?births)"
    using changed_metrics_exact [OF births, of ChangeTracker_new] by (simp add: ChangeTracker_new_def)
  have "\<not> differs ?view (m\<lparr>metric_timestamp := Some now', is_null := False\<rparr>)" if m: "m \<in> set ?births" for m
  proof -
    from births m obtain a where a: "metric_alias m = Some a" by (cases "metric_alias m") (auto simp: well_aliased_def image_iff)
    from applied_value [OF _ m a, of metric_value] births have "?view a = Some (metric_value m)" by (simp add: well_aliased_def)
    with a placeholder_value_eq [OF m] show ?thesis by (simp add: differs_def)
  qed
  then have "filter (differs ?view) ?now = []" by (simp add: now filter_empty_conv)
  moreover have "well_aliased ?now" using births aliases by (simp add: well_aliased_def)
  ultimately have "changed_metrics ?now ?t = Ok (?t, [])"
    by (simp add: changed_metrics_exact) (simp add: applied_def)
  with first show ?thesis using placeholder_value_eq by (intro exI [of _ ?t]) (auto simp: list_all_iff)
qed

definition sample_stores :: MachineStores where
  "sample_stores = MachineStores_new
     \<lparr>MachineStores.registers := RegisterStore_set ''speed'' (RegU16 0) RegisterStore_new,
      coils := CoilStore_set ''run'' (CoilValue False) CoilStore_new\<rparr>"

definition sample_metric :: "u64 \<Rightarrow> u32 \<Rightarrow> Metric" where
  "sample_metric a v = data_metric \<lparr>aliases = (\<lambda>_. Some a), reverse = Map.empty\<rparr> (hd sample_points) 0 False
     ''speed'' SparkplugDataType.UInt16 None (MetricValue.Int v)"

lemma sample_metric_simps [simp]:
  "metric_alias (sample_metric a v) = Some a" "metric_value (sample_metric a v) = MetricValue.Int v"
  by (simp_all add: sample_metric_def data_metric_def alias_for_def)

definition moved_stores :: MachineStores where
  "moved_stores = sample_stores\<lparr>MachineStores.registers := RegisterStore_set ''speed'' (RegU16 7) RegisterStore_new\<rparr>"

theorem host_view_stays_current_witness:
  "let alloc = AliasAllocator_build sample_points;
       births = build_machine_metrics_null_placeholders 1 (hd sample_points) alloc;
       metrics_at = (\<lambda>(now, stores). build_machine_metrics now (hd sample_points) stores alloc) in
     \<exists>t0 t pub. changed_metrics births ChangeTracker_new = (Ok (t0, births) :: (ChangeTracker \<times> Metric list, unit) result)
       \<and> (publish_ticks (map metrics_at ([(2, sample_stores)] @ [(3, moved_stores)])) t0
           :: (ChangeTracker \<times> Metric list, unit) result) = Ok (t, pub)
       \<and> (\<exists>v. apply_published pub (apply_published births Map.empty) 0 = Some (Some v)
            \<and> (v = MetricValue.Int 7 \<or> metric_value_eq v (MetricValue.Int 7)))"
proof -
  let ?alloc = "AliasAllocator_build sample_points"
  let ?now = "build_machine_metrics 3 (hd sample_points) moved_stores ?alloc"
  let ?before = "build_machine_metrics 2 (hd sample_points) sample_stores ?alloc"
  have first: "alias_for ?alloc (MachineDescription.name (hd sample_points)) ''speed'' = Some 0"
    unfolding alias_for_iff sample_data_points by (rule exI [of _ 0]) (simp add: sample_points_def)
  have hyps: "length (data_points sample_points) < 2 ^ 64" "hd sample_points \<in> set sample_points"
    "distinct (data_point_names (hd sample_points))"
    by (simp_all add: sample_data_points, simp_all add: sample_points_def data_point_names_def)
  have m: "hd ?now \<in> set ?now" "metric_alias (hd ?now) = Some 0" "metric_value (hd ?now) = MetricValue.Int 7"
    "hd ?before \<in> set ?before" "metric_alias (hd ?before) = Some 0" "metric_value (hd ?before) = MetricValue.Int 0"
    using first by (simp_all add: build_machine_metrics_def data_metric_def
        sample_points_def moved_stores_def sample_stores_def store_defs Let_def)
  have moved: "\<not> (\<forall>tick \<in> set ([(2, sample_stores)] @ [(3, moved_stores)]).
      \<forall>x \<in> set ((\<lambda>(now, stores). build_machine_metrics now (hd sample_points) stores ?alloc) tick).
        metric_alias x = Some 0 \<longrightarrow> metric_value_eq (metric_value p) (metric_value x))" for p
  proof
    assume "\<forall>tick \<in> set ([(2, sample_stores)] @ [(3, moved_stores)]).
      \<forall>x \<in> set ((\<lambda>(now, stores). build_machine_metrics now (hd sample_points) stores ?alloc) tick).
        metric_alias x = Some 0 \<longrightarrow> metric_value_eq (metric_value p) (metric_value x)"
    then have "metric_value_eq (metric_value p) (MetricValue.Int 7)" "metric_value_eq (metric_value p) (MetricValue.Int 0)"
      using m by (metis (no_types, lifting) case_prod_conv list.set_intros(1) list.set_intros(2) append_Cons append_Nil)+
    then show False by (cases "metric_value p") simp_all
  qed
  show ?thesis
    using host_view_stays_current [OF hyps m(1,2), of 1 "[(2, sample_stores)]", where ?'e = unit]
    unfolding Let_def if_not_P [OF moved] m(3) by blast
qed

theorem real_zeros_stay_null_witness:
  "\<exists>t. changed_metrics (build_machine_metrics_null_placeholders 1 (hd sample_points) (AliasAllocator_build sample_points))
        ChangeTracker_new
      = Ok (t, build_machine_metrics_null_placeholders 1 (hd sample_points) (AliasAllocator_build sample_points))
    \<and> list_all is_null (build_machine_metrics_null_placeholders 1 (hd sample_points) (AliasAllocator_build sample_points))
    \<and> changed_metrics (build_machine_metrics 2 (hd sample_points) sample_stores (AliasAllocator_build sample_points)) t
      = Ok (t, [])"
proof (rule real_zeros_stay_null)
  show "stores_at_default (hd sample_points) sample_stores"
    by (simp add: stores_at_default_def sample_points_def sample_stores_def MachineStores_new_def store_defs)
qed (simp_all add: sample_data_points, simp_all add: sample_points_def data_point_names_def)

section \<open>Commands\<close>

lemma find_by_name:
  "distinct (map f xs) \<Longrightarrow> x \<in> set xs \<Longrightarrow> find (\<lambda>y. f y = f x) xs = Some x"
  by (induction xs) auto

text \<open>C29: A host's write to an alias reaches the register of that alias, with the value it wrote,
  whatever name the message carries.\<close>

theorem command_reaches_its_register:
  assumes "length (data_points ms) < 2 ^ 64" and "machine \<in> set ms" and "distinct (data_point_names machine)"
    and r: "r \<in> set (MachineDescription.registers machine)"
    and a: "alias_for (AliasAllocator_build ms) (MachineDescription.name machine) (RegisterDescription.name r) = Some a"
    and v: "value_in_range v" "data_type_of v = RegisterDescription.data_type r"
  shows "decode_dcmd_metrics machine (AliasAllocator_build ms)
      (p\<lparr>metrics := [m\<lparr>metric_alias := Some a, metric_value := map_register_value v\<rparr>]\<rparr>)
    = [RegisterDescription.name r \<mapsto> StagedRegister v]"
proof -
  have "find (\<lambda>x. RegisterDescription.name x = RegisterDescription.name r) (MachineDescription.registers machine) = Some r"
    using find_by_name [of RegisterDescription.name, OF _ r] assms(3) by (simp add: data_point_names_def)
  moreover have "metric_value_to_register_value (map_register_value v) (RegisterDescription.data_type r) = Ok v"
    using v(1) unfolding v(2) [symmetric] by (cases v) (simp_all add: scast_back not_less)
  moreover have "metric_for_alias (AliasAllocator_build ms) a
      = Some (MachineDescription.name machine, RegisterDescription.name r)"
    using a by (simp add: metric_for_alias_iff [OF assms(1)])
  ultimately show ?thesis
    by (simp add: decode_dcmd_metrics_def resolve_metric_name_def metric_value_to_staged_value_def)
qed

theorem command_reaches_its_register_witness:
  "decode_dcmd_metrics (hd sample_points) (AliasAllocator_build sample_points)
      (build_ndeath_payload 0\<lparr>metrics :=
         [rebirth_metric None\<lparr>metric_alias := Some 0, metric_value := map_register_value (RegU16 7)\<rparr>]\<rparr>)
    = [RegisterDescription.name (hd (MachineDescription.registers (hd sample_points))) \<mapsto> StagedRegister (RegU16 7)]"
proof (rule command_reaches_its_register)
  show "alias_for (AliasAllocator_build sample_points) (MachineDescription.name (hd sample_points))
      (RegisterDescription.name (hd (MachineDescription.registers (hd sample_points)))) = Some 0"
    unfolding alias_for_iff sample_data_points by (rule exI [of _ 0]) (simp add: sample_points_def)
qed (simp_all add: sample_data_points, simp_all add: sample_points_def data_point_names_def)

end
