(* ===== verification/Edge_Node.thy ===== *)
theory Edge_Node
  imports Sparkplug_Client
begin

text \<open>
  The Sparkplug edge node of the client: publishing (\<open>client/src/edge_node.rs\<close>), the commands a host
  sends (\<open>sparkplug_command.rs\<close>) with the subscriptions they start and stop
  (\<open>subscription_state.rs\<close>), the persisted session number (\<open>bd_seq_persistence.rs\<close>) and the state
  message of a primary host (\<open>primary_host_state.rs\<close>). The MQTT client is third-party code and an
  argument: a function from its state, a topic and the payload bytes, which returns or fails with
  an error. A running pair of tasks of
  a machine is the change tracker its ticker owns.
\<close>

section \<open>Publishing\<close>

record 'mq EdgeNodeConnection =
  client :: 'mq
  group_id :: string
  edge_node_id :: string
  seq_counter :: SeqCounter
  bd_seq :: u64

type_synonym ('mq, 'e) mqtt_publish = "'mq \<Rightarrow> string \<Rightarrow> bytes \<Rightarrow> 'e option \<times> 'mq"

text \<open>The end every publish function has: encode, build the topic, hand both to the client.\<close>

definition publish_payload ::
    "('mq, 'e) mqtt_publish \<Rightarrow> MessageType \<Rightarrow> string option \<Rightarrow> Payload \<Rightarrow> 'mq EdgeNodeConnection
     \<Rightarrow> (unit, 'e) result \<times> 'mq EdgeNodeConnection" where
  "publish_payload mqtt message_type device_id payload node =
     (let payload_bytes = encode_payload payload []
      in case expect (build_topic (group_id node) message_type (edge_node_id node) device_id) :: (string, 'e) result of
           Ok topic \<Rightarrow>
             (let (failure, client') = mqtt (client node) topic payload_bytes
              in (case failure of None \<Rightarrow> Ok () | Some e \<Rightarrow> Err e, node\<lparr>client := client'\<rparr>))
         | _ \<Rightarrow> (Panic, node))"

text \<open>Where an error of publishing is only logged.\<close>

definition logged :: "(unit, 'e) result \<times> 'mq EdgeNodeConnection \<Rightarrow> ('mq EdgeNodeConnection, 'e) result" where
  "logged outcome = (if fst outcome = Panic then Panic else Ok (snd outcome))"

definition publish_nbirth ::
    "('mq, 'e) mqtt_publish \<Rightarrow> u64 \<Rightarrow> 'mq EdgeNodeConnection \<Rightarrow> (unit, 'e) result \<times> 'mq EdgeNodeConnection" where
  "publish_nbirth mqtt now node =
     (let (payload, c) = build_nbirth_payload (bd_seq node) now (seq_counter node)
      in publish_payload mqtt NBirth None payload (node\<lparr>seq_counter := c\<rparr>))"

definition publish_dbirth ::
    "('mq, 'e) mqtt_publish \<Rightarrow> u64 \<Rightarrow> string \<Rightarrow> Metric list \<Rightarrow> 'mq EdgeNodeConnection
     \<Rightarrow> (unit, 'e) result \<times> 'mq EdgeNodeConnection" where
  "publish_dbirth mqtt now device_id ms node =
     (let (payload, c) = build_dbirth_payload ms now (seq_counter node)
      in publish_payload mqtt DBirth (Some device_id) payload (node\<lparr>seq_counter := c\<rparr>))"

definition publish_ddeath ::
    "('mq, 'e) mqtt_publish \<Rightarrow> u64 \<Rightarrow> string \<Rightarrow> 'mq EdgeNodeConnection
     \<Rightarrow> (unit, 'e) result \<times> 'mq EdgeNodeConnection" where
  "publish_ddeath mqtt now device_id node =
     (let (payload, c) = build_ddeath_payload now (seq_counter node)
      in publish_payload mqtt DDeath (Some device_id) payload (node\<lparr>seq_counter := c\<rparr>))"

definition publish_ddata ::
    "('mq, 'e) mqtt_publish \<Rightarrow> u64 \<Rightarrow> string \<Rightarrow> Metric list \<Rightarrow> 'mq EdgeNodeConnection
     \<Rightarrow> (unit, 'e) result \<times> 'mq EdgeNodeConnection" where
  "publish_ddata mqtt now device_id ms node =
     (if ms = [] then (Ok (), node)
      else let (payload, c) = build_ddata_payload ms now (seq_counter node)
           in publish_payload mqtt DData (Some device_id) payload (node\<lparr>seq_counter := c\<rparr>))"

definition publish_ndata ::
    "('mq, 'e) mqtt_publish \<Rightarrow> u64 \<Rightarrow> Metric list \<Rightarrow> 'mq EdgeNodeConnection
     \<Rightarrow> (unit, 'e) result \<times> 'mq EdgeNodeConnection" where
  "publish_ndata mqtt now ms node =
     (if ms = [] then (Ok (), node)
      else let (payload, c) = build_ndata_payload ms now (seq_counter node)
           in publish_payload mqtt NData None payload (node\<lparr>seq_counter := c\<rparr>))"

section \<open>Subscriptions\<close>

record SubscriptionState =
  active :: "string \<rightharpoonup> ChangeTracker"

definition SubscriptionState_new :: SubscriptionState where
  "SubscriptionState_new = \<lparr>active = Map.empty\<rparr>"

definition is_active :: "string \<Rightarrow> SubscriptionState \<Rightarrow> bool" where
  "is_active nm s \<longleftrightarrow> active s nm \<noteq> None"

definition activate :: "string \<Rightarrow> ChangeTracker \<Rightarrow> SubscriptionState \<Rightarrow> SubscriptionState" where
  "activate nm tasks s = s\<lparr>active := (active s)(nm \<mapsto> tasks)\<rparr>"

definition deactivate :: "string \<Rightarrow> SubscriptionState \<Rightarrow> bool \<times> SubscriptionState" where
  "deactivate nm s = (active s nm \<noteq> None, s\<lparr>active := (active s)(nm := None)\<rparr>)"

definition is_dormant :: "SubscriptionState \<Rightarrow> bool" where
  "is_dormant s \<longleftrightarrow> active s = Map.empty"

text \<open>What the command handler and the tickers share.\<close>

record 'mq ClientState =
  edge_node :: "'mq EdgeNodeConnection"
  subscriptions :: SubscriptionState

record Site =
  site_machines :: "MachineDescription list"
  stores_by_machine :: "string \<rightharpoonup> MachineStores"
  site_aliases :: AliasAllocator

definition machine_named :: "MachineDescription list \<Rightarrow> string \<Rightarrow> MachineDescription option" where
  "machine_named ms nm = find (\<lambda>m. MachineDescription.name m = nm) ms"

definition handle_subscribe :: "u64 \<Rightarrow> Site \<Rightarrow> string \<Rightarrow> 'mq ClientState \<Rightarrow> ('mq ClientState, 'e) result" where
  "handle_subscribe now site nm s =
     (if is_active nm (subscriptions s) then Ok s
      else case machine_named (site_machines site) nm of
        None \<Rightarrow> Ok s
      | Some machine \<Rightarrow>
          (case stores_by_machine site nm of
             None \<Rightarrow> Ok s
           | Some stores \<Rightarrow>
               and_then (changed_metrics (build_machine_metrics_null_placeholders now machine (site_aliases site))
                 ChangeTracker_new) (\<lambda>(tracker, _).
               Ok (s\<lparr>subscriptions := activate nm tracker (subscriptions s)\<rparr>))))"

definition handle_unsubscribe ::
    "('mq, 'e) mqtt_publish \<Rightarrow> u64 \<Rightarrow> Site \<Rightarrow> string \<Rightarrow> 'mq ClientState \<Rightarrow> ('mq ClientState, 'e) result" where
  "handle_unsubscribe mqtt now site nm s =
     (if machine_named (site_machines site) nm = None then Ok s
      else let (was_active, subs) = deactivate nm (subscriptions s)
           in if \<not> was_active then Ok s
              else map_ok (\<lambda>node. s\<lparr>subscriptions := subs, edge_node := node\<rparr>)
                (logged (publish_ddeath mqtt now nm (edge_node s))))"

text \<open>A turn of the loop of \<open>spawn_machine_ddata_ticker\<close>, for a machine whose tasks run.\<close>

definition ddata_tick ::
    "('mq, 'e) mqtt_publish \<Rightarrow> u64 \<Rightarrow> Site \<Rightarrow> string \<Rightarrow> 'mq ClientState \<Rightarrow> ('mq ClientState, 'e) result" where
  "ddata_tick mqtt now site nm s =
     (case (active (subscriptions s) nm, machine_named (site_machines site) nm, stores_by_machine site nm) of
        (Some tracker, Some machine, Some stores) \<Rightarrow>
          and_then (changed_metrics (build_machine_metrics now machine stores (site_aliases site)) tracker)
            (\<lambda>(tracker', changed).
            let s' = s\<lparr>subscriptions := activate nm tracker' (subscriptions s)\<rparr>
            in if changed = [] then Ok s'
               else map_ok (\<lambda>node. s'\<lparr>edge_node := node\<rparr>) (logged (publish_ddata mqtt now nm changed (edge_node s))))
      | _ \<Rightarrow> Ok s)"

text \<open>The births a rebirth request republishes.\<close>

definition republish_births ::
    "('mq, 'e) mqtt_publish \<Rightarrow> u64 \<Rightarrow> Site \<Rightarrow> 'mq EdgeNodeConnection \<Rightarrow> ('mq EdgeNodeConnection, 'e) result" where
  "republish_births mqtt now site node =
     for_each (\<lambda>machine node.
       case stores_by_machine site (MachineDescription.name machine) of
         None \<Rightarrow> Ok node
       | Some stores \<Rightarrow>
           logged (publish_dbirth mqtt now (MachineDescription.name machine)
             (build_machine_metrics now machine stores (site_aliases site)) node))
       (site_machines site) node"

text \<open>A turn of the loop of \<open>run_ncmd_handler\<close> on the bytes of a command.\<close>

definition handle_ncmd ::
    "('mq, 'e) mqtt_publish \<Rightarrow> u64 \<Rightarrow> Site \<Rightarrow> bytes \<Rightarrow> 'mq ClientState \<Rightarrow> ('mq ClientState, 'e) result" where
  "handle_ncmd mqtt now site payload_bytes s =
     (case decode_payload payload_bytes of
        Ok payload \<Rightarrow>
          if is_rebirth_request payload then
            (case publish_nbirth mqtt now (edge_node s) of
               (Ok _, node) \<Rightarrow> map_ok (\<lambda>node. s\<lparr>edge_node := node\<rparr>) (republish_births mqtt now site node)
             | (Err _, node) \<Rightarrow> Ok (s\<lparr>edge_node := node\<rparr>)
             | (Panic, _) \<Rightarrow> Panic)
          else
            and_then (for_each (handle_subscribe now site) (subscribe_requests payload) s) (\<lambda>s.
            for_each (handle_unsubscribe mqtt now site) (unsubscribe_requests payload) s)
      | Err _ \<Rightarrow> Ok s
      | Panic \<Rightarrow> Panic)"

section \<open>Writes\<close>

text \<open>A turn of the loop of \<open>run_dcmd_forwarder\<close>: what is sent to the transaction consumer.\<close>

definition forward_dcmd ::
    "Site \<Rightarrow> string \<Rightarrow> bytes \<Rightarrow> ((string \<times> (string \<rightharpoonup> StagedValue)) option, 'e) result" where
  "forward_dcmd site device_id payload_bytes =
     (case decode_payload payload_bytes of
        Ok payload \<Rightarrow>
          (case machine_named (site_machines site) device_id of
             None \<Rightarrow> Ok None
           | Some machine \<Rightarrow>
               let staged = decode_dcmd_metrics machine (site_aliases site) payload
               in if staged = Map.empty then Ok None else Ok (Some (device_id, staged)))
      | Err _ \<Rightarrow> Ok None
      | Panic \<Rightarrow> Panic)"

section \<open>Session numbers across restarts\<close>

text \<open>The content of the file, if it can be read, and what is written back; \<open>+ 1\<close> on the
  largest number is a panic, as with overflow checks on.\<close>

definition persisted_next_bd_seq :: "string option \<Rightarrow> (nat \<times> string, 'e) result" where
  "persisted_next_bd_seq content =
     (let now = (case content of
                   None \<Rightarrow> 0
                 | Some txt \<Rightarrow> (case from_str_radix_unsigned 64 10 (trim txt) of Some n \<Rightarrow> n | None \<Rightarrow> 0))
      in if 2 ^ 64 \<le> now + 1 then Panic else Ok (now, show_nat (now + 1)))"

section \<open>The state of a primary host\<close>

definition trim_start :: "string \<Rightarrow> string" where
  "trim_start s = concat (dropWhile is_whitespace (str_chars s))"

text \<open>\<open>str::find\<close> of a text: what follows its first occurrence.\<close>

fun after_first :: "string \<Rightarrow> string \<Rightarrow> string option" where
  "after_first p s =
     (case strip_prefix p s of
        Some rest \<Rightarrow> Some rest
      | None \<Rightarrow> (case s of [] \<Rightarrow> None | _ # cs \<Rightarrow> after_first p cs))"

declare after_first.simps [simp del]

definition parse_online :: "bytes \<Rightarrow> bool option" where
  "parse_online payload =
     (case from_utf8 payload of
        Ok txt \<Rightarrow>
          (case after_first ''\"online\"'' txt of
             None \<Rightarrow> None
           | Some after_key \<Rightarrow>
               (case strip_prefix '':'' (trim_start after_key) of
                  None \<Rightarrow> None
                | Some rest \<Rightarrow>
                    let after_colon = trim_start rest
                    in if strip_prefix ''true'' after_colon \<noteq> None then Some True
                       else if strip_prefix ''false'' after_colon \<noteq> None then Some False
                       else None))
      | _ \<Rightarrow> None)"

end
