(* ===== verification/Edge_Node_Session.thy ===== *)
theory Edge_Node_Session
  imports Edge_Node "HOL-Library.Multiset"
begin

text \<open>
  What the edge node does over a session: the commands of a host maintain the set of machines it
  subscribed to, messages of concurrent tasks keep their numbers but not their order, a machine
  subscribed again speaks without a birth, and session numbers grow across restarts.
\<close>

section \<open>Subscriptions are a set\<close>

text \<open>The contract: the machines a host has asked for and not given back.\<close>

definition subscribed :: "'mq ClientState \<Rightarrow> string set" where
  "subscribed s = dom (active (subscriptions s))"

definition known_machine :: "Site \<Rightarrow> string \<Rightarrow> bool" where
  "known_machine site nm \<longleftrightarrow> machine_named (site_machines site) nm \<noteq> None \<and> stores_by_machine site nm \<noteq> None"

definition subscription_spec :: "Site \<Rightarrow> Payload \<Rightarrow> string set \<Rightarrow> string set" where
  "subscription_spec site payload S =
     (if is_rebirth_request payload then S
      else (S \<union> {nm \<in> set (subscribe_requests payload). known_machine site nm})
        - {nm \<in> set (unsubscribe_requests payload). machine_named (site_machines site) nm \<noteq> None})"

text \<open>A site whose aliases were built from its machines.\<close>

definition site_ok :: "Site \<Rightarrow> bool" where
  "site_ok site \<longleftrightarrow> site_aliases site = AliasAllocator_build (site_machines site)"

lemma machine_named_Some:
  "machine_named ms nm = Some m \<Longrightarrow> m \<in> set ms \<and> MachineDescription.name m = nm"
  unfolding machine_named_def by (rule find_Some_set)

lemma track_metrics_total:
  "None \<notin> set (map metric_alias ms) \<Longrightarrow> \<exists>s'. (for_each track_metric ms s :: (ChangeTracker \<times> Metric list, 'e) result) = Ok s'"
proof (induction ms arbitrary: s)
  case (Cons m ms)
  from Cons.prems obtain a where "metric_alias m = Some a" by (cases "metric_alias m") auto
  then obtain s' where "(track_metric m s :: (ChangeTracker \<times> Metric list, 'e) result) = Ok s'"
    by (cases s; cases "last_published (fst s) a"; cases "metric_value_eq (the (last_published (fst s) a)) (metric_value m)")
      (auto simp: track_metric_def)
  with Cons show ?case by auto
qed simp

lemma changed_metrics_total: "None \<notin> set (map metric_alias ms) \<Longrightarrow> \<exists>r. (changed_metrics ms t :: (ChangeTracker \<times> Metric list, 'e) result) = Ok r"
  unfolding changed_metrics_def by (rule track_metrics_total)

lemma placeholders_aliased:
  assumes "machine \<in> set ms"
  shows "None \<notin> set (map metric_alias (build_machine_metrics_null_placeholders now machine (AliasAllocator_build ms)))"
proof -
  have "alias_for (AliasAllocator_build ms) (MachineDescription.name machine) nm \<noteq> None"
    if "nm \<in> set (data_point_names machine)" for nm
    using that assms by (subst alias_for_defined) (auto simp: data_points_def)
  then have "None \<notin> alias_for (AliasAllocator_build ms) (MachineDescription.name machine) ` set (data_point_names machine)"
    by (metis imageE)
  then show ?thesis unfolding placeholder_aliases by simp
qed

lemma handle_subscribe_subscribed:
  assumes "site_ok site"
  shows "\<exists>s'. (handle_subscribe now site nm s :: ('mq ClientState, 'e) result) = Ok s'
     \<and> subscribed s' = subscribed s \<union> {n. n = nm \<and> known_machine site nm} \<and> edge_node s' = edge_node s"
proof (cases "is_active nm (subscriptions s)")
  case True
  then show ?thesis by (auto simp: handle_subscribe_def subscribed_def is_active_def)
next
  case False
  show ?thesis
  proof (cases "machine_named (site_machines site) nm")
    case None
    with False show ?thesis by (auto simp: handle_subscribe_def known_machine_def)
  next
    case (Some m)
    note m = machine_named_Some [OF Some]
    show ?thesis
    proof (cases "stores_by_machine site nm")
      case None
      with False Some show ?thesis by (auto simp: handle_subscribe_def known_machine_def)
    next
      case stores: (Some st)
      from changed_metrics_total [OF placeholders_aliased [OF m [THEN conjunct1]]] assms
      obtain t ch where "(changed_metrics (build_machine_metrics_null_placeholders now m (site_aliases site))
          ChangeTracker_new :: (ChangeTracker \<times> Metric list, 'e) result) = Ok (t, ch)"
        by (metis site_ok_def surj_pair)
      with False Some stores show ?thesis
        by (auto simp: handle_subscribe_def known_machine_def activate_def subscribed_def)
    qed
  qed
qed

text \<open>The topics of an edge node can always be built, so publishing does not panic.\<close>

lemma publish_no_panic [simp]:
  "fst (publish_nbirth mqtt now node) \<noteq> Panic" "fst (publish_dbirth mqtt now d ms node) \<noteq> Panic"
  "fst (publish_ddeath mqtt now d node) \<noteq> Panic" "fst (publish_ddata mqtt now d ms node) \<noteq> Panic"
  by (simp_all add: publish_nbirth_def publish_dbirth_def publish_ddeath_def publish_ddata_def publish_payload_def
      build_topic_def is_device_scoped_def Let_def split: prod.splits option.splits)

lemma handle_unsubscribe_subscribed:
  "\<exists>s'. handle_unsubscribe mqtt now site nm s = Ok s'
     \<and> subscribed s' = subscribed s - {n. n = nm \<and> machine_named (site_machines site) nm \<noteq> None}"
  by (auto simp: handle_unsubscribe_def deactivate_def subscribed_def logged_def Let_def split: prod.splits)

lemma republish_births_total: "\<exists>node'. republish_births mqtt now site node = Ok node'"
proof -
  have "\<exists>node'. for_each (\<lambda>machine node. case stores_by_machine site (MachineDescription.name machine) of
       None \<Rightarrow> Ok node
     | Some stores \<Rightarrow> logged (publish_dbirth mqtt now (MachineDescription.name machine)
         (build_machine_metrics now machine stores (site_aliases site)) node)) ms node = Ok node'" for ms node
  proof (induction ms arbitrary: node)
    case (Cons m ms)
    then show ?case by (cases "stores_by_machine site (MachineDescription.name m)") (simp_all add: logged_def)
  qed simp
  then show ?thesis unfolding republish_births_def .
qed

text \<open>C30: The commands of a host maintain exactly the set it asked for: a subscription adds a known machine,
  giving one back removes it, a rebirth request, an unknown machine or bytes that are no payload
  change nothing, and no command stops the handler.\<close>

theorem commands_maintain_subscriptions:
  fixes s :: "'mq ClientState" and mqtt :: "('mq, 'm) mqtt_publish"
  assumes "site_ok site"
  shows "\<exists>s'. (handle_ncmd mqtt now site bs s :: ('mq ClientState, 'm) result) = Ok s'
     \<and> subscribed s' = (case decode_payload bs of
         Ok payload \<Rightarrow> subscription_spec site payload (subscribed s) | _ \<Rightarrow> subscribed s)"
proof -
  have subs: "\<exists>s'. (for_each (handle_subscribe now site) nms s :: ('mq ClientState, 'm) result) = Ok s'
      \<and> subscribed s' = subscribed s \<union> {n \<in> set nms. known_machine site n}" for nms and s :: "'mq ClientState"
  proof (induction nms arbitrary: s)
    case (Cons nm nms)
    from handle_subscribe_subscribed [OF assms(1), of now nm s] obtain s1 where
      s1: "(handle_subscribe now site nm s :: ('mq ClientState, 'm) result) = Ok s1"
        "subscribed s1 = subscribed s \<union> {n. n = nm \<and> known_machine site nm}" by blast
    from Cons.IH [of s1] s1 show ?case by auto
  qed simp
  have unsubs: "\<exists>s'. for_each (handle_unsubscribe mqtt now site) nms s = Ok s'
      \<and> subscribed s' = subscribed s - {n \<in> set nms. machine_named (site_machines site) n \<noteq> None}" for nms s
  proof (induction nms arbitrary: s)
    case (Cons nm nms)
    from handle_unsubscribe_subscribed [of mqtt now site nm s] obtain s1 where
      s1: "handle_unsubscribe mqtt now site nm s = Ok s1"
        "subscribed s1 = subscribed s - {n. n = nm \<and> machine_named (site_machines site) nm \<noteq> None}" by blast
    from Cons.IH [of s1] s1 show ?case by auto
  qed simp
  show ?thesis
  proof (cases "decode_payload bs")
    case (Ok payload)
    show ?thesis
    proof (cases "is_rebirth_request payload")
      case True
      obtain r node where node: "publish_nbirth mqtt now (edge_node s) = (r, node)" by fastforce
      then have "r \<noteq> Panic" using publish_no_panic(1) [of mqtt now "edge_node s"] by simp
      with node True Ok republish_births_total [of mqtt now site node] show ?thesis
        by (cases r) (auto simp: handle_ncmd_def subscription_spec_def subscribed_def)
    next
      case False
      from subs [of "subscribe_requests payload" s] obtain s1 where
        s1: "(for_each (handle_subscribe now site) (subscribe_requests payload) s :: ('mq ClientState, 'm) result) = Ok s1"
          "subscribed s1 = subscribed s \<union> {n \<in> set (subscribe_requests payload). known_machine site n}" by blast
      with unsubs [of "unsubscribe_requests payload" s1] False Ok show ?thesis
        by (auto simp: handle_ncmd_def subscription_spec_def)
    qed
  next
    case (Err e)
    then show ?thesis by (simp add: handle_ncmd_def)
  next
    case Panic
    then show ?thesis using payload.decode_no_panic by (simp add: decode_payload_def)
  qed
qed

text \<open>A recording MQTT client, a machine with a running pump, and a host that subscribes to it.\<close>

definition recording :: "((string \<times> bytes) list, unit) mqtt_publish" where
  "recording sent topic payload_bytes = (None, sent @ [(topic, payload_bytes)])"

definition sample_site :: Site where
  "sample_site = \<lparr>site_machines = sample_points,
     stores_by_machine = [''pump'' \<mapsto> MachineStores_new
       \<lparr>MachineStores.registers := RegisterStore_set ''speed'' (RegU16 5) RegisterStore_new\<rparr>],
     site_aliases = AliasAllocator_build sample_points\<rparr>"

definition sample_client :: "(string \<times> bytes) list ClientState" where
  "sample_client = \<lparr>edge_node = \<lparr>client = [], group_id = ''G'', edge_node_id = ''E'',
     seq_counter = new_seq_counter, bd_seq = 0\<rparr>, subscriptions = SubscriptionState_new\<rparr>"

definition subscribe_command :: "string \<Rightarrow> Payload" where
  "subscribe_command nm = \<lparr>payload_timestamp = None,
     metrics = [\<lparr>metric_name = SUBSCRIBE_METRIC_NAME, metric_alias = None, metric_timestamp = None,
       metric_type = SparkplugDataType.String, is_null = False, properties = None,
       metric_value = MetricValue.String nm\<rparr>], seq = None\<rparr>"

lemma sample_site_ok: "site_ok sample_site"
  by (simp add: site_ok_def sample_site_def)

lemma decode_subscribe_command:
  "decode_payload (encode_payload (subscribe_command ''pump'') []) = Ok (subscribe_command ''pump'')"
proof (rule decode_encode_payload)
  have "utf8_string ''Node Control/Subscribe''" "utf8_string ''pump''"
    by (auto simp: utf8_string_def as_bytes_def intro!: valid_utf8_ascii)
  then show "payload_ok (subscribe_command ''pump'')"
    by (simp add: payload_ok_def subscribe_command_def metric_ok_def SUBSCRIBE_METRIC_NAME_def)
  note l = encoded_lengths(1) encoded_lengths(2) encoded_lengths(3)
  let ?m = "hd (metrics (subscribe_command ''pump''))"
  have "length (encode_metric ?m []) \<le> 200"
    using l(2) [of "tag_of 1 LengthDelimited"] l(3) [of "as_bytes SUBSCRIBE_METRIC_NAME"]
      l(2) [of "tag_of 4 Varint"] l(1) [of "ucast (data_type_code SparkplugDataType.String)"]
      l(2) [of "tag_of 15 LengthDelimited"] l(3) [of "as_bytes ''pump''"]
    by (simp add: encode_metric_append metric_head_bytes_def metric_value_bytes_def appends
        subscribe_command_def SUBSCRIBE_METRIC_NAME_def)
  then show "length (encode_payload (subscribe_command ''pump'') []) < 2 ^ 64"
    using l(2) [of "tag_of 2 LengthDelimited"] l(3) [of "encode_metric ?m []"]
    by (simp add: encode_payload_append metric_entry_bytes_def subscribe_command_def)
qed

theorem commands_maintain_subscriptions_witness:
  "\<exists>s'. handle_ncmd recording 0 sample_site (encode_payload (subscribe_command ''pump'') []) sample_client = Ok s'
     \<and> subscribed s' = {''pump''}"
proof -
  have "subscription_spec sample_site (subscribe_command ''pump'') (subscribed sample_client) = {''pump''}"
    by (simp add: subscription_spec_def is_rebirth_request_def subscribe_requests_def
        unsubscribe_requests_def requested_machine_names_def subscribe_command_def SUBSCRIBE_METRIC_NAME_def
        UNSUBSCRIBE_METRIC_NAME_def map_filter_simps known_machine_def machine_named_def sample_site_def
        sample_points_def subscribed_def sample_client_def SubscriptionState_new_def)
  then show ?thesis
    using commands_maintain_subscriptions [OF sample_site_ok, where mqtt = recording and now = 0 and s = sample_client
        and bs = "encode_payload (subscribe_command ''pump'') []"]
    by (simp add: decode_subscribe_command)
qed

section \<open>Speaking after death\<close>

lemma publish_recording:
  "map fst (client (snd (publish_nbirth recording now node)))
     = map fst (client node) @ [''spBv1.0/'' @ group_id node @ ''/NBIRTH/'' @ edge_node_id node]"
  "map fst (client (snd (publish_dbirth recording now d ms node)))
     = map fst (client node) @ [''spBv1.0/'' @ group_id node @ ''/DBIRTH/'' @ edge_node_id node @ ''/'' @ d]"
  "map fst (client (snd (publish_ddeath recording now d node)))
     = map fst (client node) @ [''spBv1.0/'' @ group_id node @ ''/DDEATH/'' @ edge_node_id node @ ''/'' @ d]"
  "map fst (client (snd (publish_ddata recording now d (m # ms) node)))
     = map fst (client node) @ [''spBv1.0/'' @ group_id node @ ''/DDATA/'' @ edge_node_id node @ ''/'' @ d]"
  by (simp_all add: publish_nbirth_def publish_dbirth_def publish_ddeath_def publish_ddata_def publish_payload_def
      build_topic_def is_device_scoped_def recording_def Let_def split: prod.splits)

lemma publish_recording_ids [simp]:
  "group_id (snd (publish_nbirth recording now node)) = group_id node"
  "edge_node_id (snd (publish_nbirth recording now node)) = edge_node_id node"
  "group_id (snd (publish_dbirth recording now d ms node)) = group_id node"
  "edge_node_id (snd (publish_dbirth recording now d ms node)) = edge_node_id node"
  "group_id (snd (publish_ddeath recording now d node)) = group_id node"
  "edge_node_id (snd (publish_ddeath recording now d node)) = edge_node_id node"
  by (simp_all add: publish_nbirth_def publish_dbirth_def publish_ddeath_def publish_payload_def
      build_topic_def is_device_scoped_def recording_def Let_def split: prod.splits)

text \<open>A machine that is subscribed to, given back and subscribed to again publishes data after its
  DDEATH with no DBIRTH in between: subscribing never births the device.\<close>

theorem resubscribed_machine_speaks_while_dead:
  "map_ok (\<lambda>s. map fst (client (edge_node s)))
     (let node = snd (publish_nbirth recording 0 (edge_node sample_client));
          births = build_machine_metrics_null_placeholders 0 (hd sample_points) (site_aliases sample_site);
          s = sample_client\<lparr>edge_node := snd (publish_dbirth recording 0 ''pump'' births node)\<rparr>
      in and_then (handle_subscribe 1 sample_site ''pump'' s) (\<lambda>s.
         and_then (handle_unsubscribe recording 2 sample_site ''pump'' s) (\<lambda>s.
         and_then (handle_subscribe 3 sample_site ''pump'' s)
           (ddata_tick recording 4 sample_site ''pump''))))
   = Ok [''spBv1.0/G/NBIRTH/E'', ''spBv1.0/G/DBIRTH/E/pump'', ''spBv1.0/G/DDEATH/E/pump'', ''spBv1.0/G/DDATA/E/pump'']"
proof -
  have names: "alias_for (AliasAllocator_build sample_points) ''pump'' ''speed'' = Some 0"
    "alias_for (AliasAllocator_build sample_points) ''pump'' ''run'' = Some 1"
    unfolding alias_for_iff sample_data_points by (rule exI [of _ 0], simp) (rule exI [of _ 1], simp)
  have machine: "machine_named (site_machines sample_site) ''pump'' = Some (hd sample_points)"
    by (simp add: machine_named_def sample_site_def sample_points_def)
  have births: "build_machine_metrics_null_placeholders now (hd sample_points) (AliasAllocator_build sample_points)
      = [sample_metric 0 0\<lparr>metric_timestamp := Some now, is_null := True\<rparr>,
         \<lparr>metric_name = ''run'', metric_alias = Some 1, metric_timestamp = Some now,
          metric_type = SparkplugDataType.Boolean, is_null = True, properties = None,
          metric_value = MetricValue.Boolean False\<rparr>]" for now
    using names by (simp add: build_machine_metrics_null_placeholders_def sample_points_def data_metric_def
        sample_metric_def unit_property_def alias_for_def)
  let ?t = "\<lparr>last_published = [0 \<mapsto> MetricValue.Int 0, 1 \<mapsto> MetricValue.Boolean False]\<rparr>"
  have seed: "(changed_metrics (build_machine_metrics_null_placeholders now (hd sample_points)
        (AliasAllocator_build sample_points)) ChangeTracker_new :: (ChangeTracker \<times> Metric list, unit) result)
      = Ok (?t, build_machine_metrics_null_placeholders now (hd sample_points) (AliasAllocator_build sample_points))"
    for now
    by (simp add: births changed_metrics_def track_metric_def ChangeTracker_new_def)
  have tick: "\<exists>t' m. (changed_metrics (build_machine_metrics now (hd sample_points)
        (the (stores_by_machine sample_site ''pump'')) (AliasAllocator_build sample_points)) ?t :: (ChangeTracker \<times> Metric list, unit) result) = Ok (t', [m])" for now
    using names by (simp add: build_machine_metrics_def sample_points_def data_metric_def sample_site_def store_defs
        MachineStores_new_def changed_metrics_def track_metric_def)
  have subscribe: "(handle_subscribe now sample_site ''pump'' s :: (_, unit) result)
      = Ok (s\<lparr>subscriptions := activate ''pump'' ?t (subscriptions s)\<rparr>)"
    if "\<not> is_active ''pump'' (subscriptions s)" for now and s :: "(string \<times> bytes) list ClientState"
    using that seed [of now] machine
    by (simp add: handle_subscribe_def) (simp add: sample_site_def)
  have unsubscribe: "handle_unsubscribe recording now sample_site ''pump'' s
      = Ok (s\<lparr>subscriptions := (subscriptions s)\<lparr>active := (active (subscriptions s))(''pump'' := None)\<rparr>,
          edge_node := snd (publish_ddeath recording now ''pump'' (edge_node s))\<rparr>)"
    if "is_active ''pump'' (subscriptions s)" for now s
    using that machine
    by (simp add: handle_unsubscribe_def deactivate_def is_active_def logged_def Let_def split: prod.split)
  have data: "\<exists>s' m. (ddata_tick recording now sample_site ''pump'' s :: (_, unit) result) = Ok s'
      \<and> edge_node s' = snd (publish_ddata recording now ''pump'' [m] (edge_node s))"
    if "active (subscriptions s) ''pump'' = Some ?t" for now s
  proof -
    from tick [of now] obtain t' m where "(changed_metrics (build_machine_metrics now (hd sample_points)
        (the (stores_by_machine sample_site ''pump'')) (site_aliases sample_site)) ?t :: (_, unit) result) = Ok (t', [m])"
      by (auto simp: sample_site_def)
    moreover have "stores_by_machine sample_site ''pump'' \<noteq> None" by (simp add: sample_site_def)
    ultimately show ?thesis
      using that machine
      by (intro exI [of _ "s\<lparr>subscriptions := activate ''pump'' t' (subscriptions s),
            edge_node := snd (publish_ddata recording now ''pump'' [m] (edge_node s))\<rparr>"] exI [of _ m])
        (auto simp: ddata_tick_def logged_def split: prod.split)
  qed
  let ?births = "build_machine_metrics_null_placeholders 0 (hd sample_points) (site_aliases sample_site)"
  let ?node = "snd (publish_dbirth recording 0 ''pump'' ?births (snd (publish_nbirth recording 0 (edge_node sample_client))))"
  let ?s1 = "sample_client\<lparr>edge_node := ?node, subscriptions := activate ''pump'' ?t SubscriptionState_new\<rparr>"
  let ?dead = "snd (publish_ddeath recording 2 ''pump'' ?node)"
  let ?s3 = "sample_client\<lparr>edge_node := ?dead, subscriptions := activate ''pump'' ?t SubscriptionState_new\<rparr>"
  have s1: "(handle_subscribe 1 sample_site ''pump'' (sample_client\<lparr>edge_node := ?node\<rparr>) :: (_, unit) result) = Ok ?s1"
    by (subst subscribe) (simp_all add: is_active_def sample_client_def SubscriptionState_new_def)
  have s3: "and_then (handle_unsubscribe recording 2 sample_site ''pump'' ?s1) (\<lambda>s.
      and_then (handle_subscribe 3 sample_site ''pump'' s) f) = f ?s3" for f :: "_ \<Rightarrow> (_, unit) result"
    by (subst unsubscribe, simp add: is_active_def activate_def, unfold and_then.simps, subst subscribe)
      (simp_all add: is_active_def activate_def SubscriptionState_new_def)
  obtain s4 m where s4: "(ddata_tick recording 4 sample_site ''pump'' ?s3 :: (_, unit) result) = Ok s4"
    "edge_node s4 = snd (publish_ddata recording 4 ''pump'' [m] ?dead)"
    using data [of ?s3 4] by (auto simp: activate_def)
  show ?thesis
    unfolding Let_def s1 and_then.simps s3 s4(1) map_ok.simps s4(2) publish_recording
    by (simp add: sample_client_def)
qed

section \<open>Concurrent publications\<close>

text \<open>
  The tasks of an edge node share the counter, but its lock is released before the message is
  handed to the client: taking a number and sending are two steps, and the steps of tasks
  interleave. A state is the counter, the payloads built and not yet sent, and those sent, since
  the NBIRTH of the session.
\<close>

inductive publishing :: "SeqCounter \<Rightarrow> Payload list \<Rightarrow> Payload list \<Rightarrow> bool" where
  birth: "build_nbirth_payload b t c = (nbirth, c') \<Longrightarrow> publishing c' [] [nbirth]"
| take_number: "publishing c pending sent \<Longrightarrow> publish p c = (payload, c')
    \<Longrightarrow> publishing c' (pending @ [payload]) sent"
| send: "publishing c (before @ payload # after) sent
    \<Longrightarrow> publishing c (before @ after) (sent @ [payload])"

inductive_cases publishing_sent: "publishing c [] sent"

lemma publishing_numbers:
  "publishing c pending sent \<Longrightarrow>
     current c = of_nat (length (sent @ pending))
     \<and> mset (map seq (sent @ pending)) = mset (map (\<lambda>i. Some (of_nat (i mod 256))) [0..<length (sent @ pending)])"
proof (induction rule: publishing.induct)
  case (birth b t c nbirth c')
  then show ?case
    by (auto simp: build_nbirth_payload_def next_seq_def reset_seq_def Let_def)
next
  case (take_number c pending sent p payload c')
  have u: "(ucast (of_nat i :: u8) :: u64) = of_nat (i mod 256)" for i
    by (rule word_unat_eq_iff [THEN iffD2]) (simp add: unsigned_ucast_eq unat_of_nat take_bit_eq_mod)
  from take_number.hyps(2) have "payload = fst (publish p c)" "c' = snd (publish p c)" by simp_all
  moreover have "(ucast (current c) :: u64) = of_nat (length (sent @ pending) mod 256)"
    unfolding take_number.IH [THEN conjunct1] by (rule u)
  ultimately show ?case using take_number.IH by (simp add: publish_seq algebra_simps)
next
  case (send c before payload after sent)
  then show ?case by (simp add: ac_simps)
qed

lemma message_overtakes:
  "\<exists>c sent. publishing c [] sent \<and> map seq sent = [Some 0, Some 2, Some 1]"
proof -
  let ?birth = "build_nbirth_payload 0 0 new_seq_counter"
  let ?p1 = "publish (DData_of [] 1) (snd ?birth)"
  let ?p2 = "publish (DData_of [] 2) (snd ?p1)"
  have "publishing (snd ?birth) [] [fst ?birth]" by (rule publishing.birth) simp
  from publishing.take_number [OF this, of "DData_of [] 1" "fst ?p1" "snd ?p1"]
  have "publishing (snd ?p1) [fst ?p1] [fst ?birth]" by simp
  from publishing.take_number [OF this, of "DData_of [] 2" "fst ?p2" "snd ?p2"]
  have "publishing (snd ?p2) ([fst ?p1] @ fst ?p2 # []) [fst ?birth]" by simp
  from publishing.send [OF this] have "publishing (snd ?p2) ([] @ fst ?p1 # []) [fst ?birth, fst ?p2]" by simp
  from publishing.send [OF this] have sent: "publishing (snd ?p2) [] [fst ?birth, fst ?p2, fst ?p1]" by simp
  have "map seq [fst ?birth, fst ?p2, fst ?p1] = [Some 0, Some 2, Some 1]"
    by (simp add: publish_seq build_nbirth_payload_def next_seq_def reset_seq_def Let_def del: publish.simps)
  with sent show ?thesis by (intro exI conjI)
qed

text \<open>However the tasks interleave, the numbers taken since NBIRTH are 0, 1, 2 and so on modulo 256,
  each by exactly one message sent or waiting. That is all the lock gives: the witness is a
  session in which a message overtakes one with a smaller number.\<close>

theorem sequence_numbers_are_unique:
  assumes "publishing c pending sent"
  shows "mset (map seq (sent @ pending)) = mset (map (\<lambda>i. Some (of_nat (i mod 256))) [0..<length (sent @ pending)])"
  using assms by (rule publishing_numbers [THEN conjunct2])

theorem sequence_numbers_are_unique_witness:
  "\<exists>sent :: Payload list. map seq sent = [Some 0, Some 2, Some 1]
     \<and> mset (map seq (sent @ [])) = mset (map (\<lambda>i. Some (of_nat (i mod 256))) [0..<length (sent @ [])])"
proof -
  from message_overtakes obtain c sent where s: "publishing c [] sent" "map seq sent = [Some 0, Some 2, Some 1]"
    by (elim exE conjE)
  from s(2) sequence_numbers_are_unique [OF s(1)] show ?thesis by (intro exI [of _ sent] conjI)
qed

section \<open>Session numbers across restarts\<close>

lemma trim_show_nat [simp]: "trim (show_nat n) = show_nat n"
  using trim_plain [of "show_nat n" "[]" "[]"] plain_show_nat by auto

text \<open>Every restart of the client uses a larger session number than the last one, as long as the
  file it left can be read.\<close>

theorem session_numbers_grow_across_restarts:
  assumes "persisted_next_bd_seq content = Ok (n, written)" and "Suc (Suc n) < 2 ^ 64"
  shows "persisted_next_bd_seq (Some written) = Ok (Suc n, show_nat (Suc (Suc n)))"
proof -
  have "written = show_nat (Suc n)"
    using assms(1) by (auto simp: persisted_next_bd_seq_def Let_def split: if_splits)
  moreover have "from_str_radix_unsigned 64 10 (show_nat (Suc n)) = Some (Suc n)"
    using assms(2) by (intro parse_unsigned_show_nat) simp
  ultimately show ?thesis using assms(2) by (simp add: persisted_next_bd_seq_def)
qed

theorem session_numbers_grow_across_restarts_witness:
  "persisted_next_bd_seq (Some ''1'') = Ok (Suc 0, show_nat (Suc (Suc 0)))"
proof -
  have one: "show_nat (Suc 0) = ''1''" by code_simp
  have "persisted_next_bd_seq None = Ok (0, ''1'')"
    using one by (simp add: persisted_next_bd_seq_def)
  from session_numbers_grow_across_restarts [OF this] show ?thesis by simp
qed

end
