(* ===== verification/Batching.thy ===== *)
theory Batching
  imports Prelude "HOL-Library.Sublist"
begin

text \<open>
  Grouping items at consecutive addresses into requests (\<open>client/src/batching.rs\<close>), shared by
  polling and writing. Additions on \<open>u16\<close> that the source does not wrap are checked: a panic
  where they overflow. The batches are proved to be the fewest that cover the items in order.
\<close>

section \<open>The routine\<close>

record 'a Batch =
  starting_address :: u16
  items :: "'a list"
  quantity :: u16

definition add_u16 :: "u16 \<Rightarrow> u16 \<Rightarrow> (u16, 'e) result" where
  "add_u16 a b = (if unat a + unat b < 2 ^ 16 then Ok (a + b) else Panic)"

definition batch_of :: "u16 \<Rightarrow> u16 \<Rightarrow> 'a \<Rightarrow> 'a Batch" where
  "batch_of a n item = \<lparr>starting_address = a, items = [item], quantity = n\<rparr>"

text \<open>The body of the loop.\<close>

definition push_item ::
    "('a \<Rightarrow> u16) \<Rightarrow> ('a \<Rightarrow> u16) \<Rightarrow> u16 \<Rightarrow> 'a \<Rightarrow> 'a Batch list \<Rightarrow> ('a Batch list, 'e) result" where
  "push_item address_of size_of max_batch_size item batches =
     (let a = address_of item; n = size_of item in
      and_then
        (if batches = [] then Ok False
         else let batch = last batches in
           if a = starting_address batch + quantity batch
           then and_then (add_u16 (quantity batch) n) (\<lambda>total. Ok (total \<le> max_batch_size))
           else Ok False) (\<lambda>extends_last_batch.
      if extends_last_batch then
        let batch = last batches in
        and_then (add_u16 (quantity batch) n) (\<lambda>total.
        Ok (butlast batches @ [batch\<lparr>items := items batch @ [item], quantity := total\<rparr>]))
      else Ok (batches @ [batch_of a n item])))"

definition build_batches ::
    "'a list \<Rightarrow> ('a \<Rightarrow> u16) \<Rightarrow> ('a \<Rightarrow> u16) \<Rightarrow> u16 \<Rightarrow> ('a Batch list, 'e) result" where
  "build_batches xs address_of size_of max_batch_size =
     for_each (push_item address_of size_of max_batch_size) (sort_key address_of xs) []"

section \<open>Runs\<close>

text \<open>Items that lie back to back from an address on, and those that fit one request.\<close>

fun tiled :: "('a \<Rightarrow> u16) \<Rightarrow> ('a \<Rightarrow> u16) \<Rightarrow> u16 \<Rightarrow> 'a list \<Rightarrow> bool" where
  "tiled address_of size_of a [] = True"
| "tiled address_of size_of a (x # xs) = (address_of x = a \<and> tiled address_of size_of (a + size_of x) xs)"

definition total_size :: "('a \<Rightarrow> u16) \<Rightarrow> 'a list \<Rightarrow> nat" where
  "total_size size_of xs = (\<Sum>x\<leftarrow>xs. unat (size_of x))"

definition fits :: "('a \<Rightarrow> u16) \<Rightarrow> ('a \<Rightarrow> u16) \<Rightarrow> u16 \<Rightarrow> 'a list \<Rightarrow> bool" where
  "fits address_of size_of max_batch_size xs \<longleftrightarrow> xs \<noteq> [] \<and> tiled address_of size_of (address_of (hd xs)) xs
     \<and> total_size size_of xs \<le> unat max_batch_size"

definition batch_ok :: "('a \<Rightarrow> u16) \<Rightarrow> ('a \<Rightarrow> u16) \<Rightarrow> u16 \<Rightarrow> 'a Batch \<Rightarrow> bool" where
  "batch_ok address_of size_of max_batch_size b \<longleftrightarrow>
     fits address_of size_of max_batch_size (items b) \<and> starting_address b = address_of (hd (items b))
     \<and> unat (quantity b) = total_size size_of (items b)"

lemma total_size_simps [simp]:
  "total_size size_of [] = 0" "total_size size_of (x # xs) = unat (size_of x) + total_size size_of xs"
  "total_size size_of (xs @ ys) = total_size size_of xs + total_size size_of ys"
  by (simp_all add: total_size_def)

lemma tiled_append:
  "tiled address_of size_of a (xs @ ys) \<longleftrightarrow> tiled address_of size_of a xs
     \<and> tiled address_of size_of (a + of_nat (total_size size_of xs)) ys"
  by (induction xs arbitrary: a) (auto simp: add.assoc)

lemma tiled_hd: "tiled address_of size_of a (x # xs) \<Longrightarrow> tiled address_of size_of (address_of x) (x # xs)"
  by simp

lemma fits_prefix: "fits address_of size_of mx (xs @ ys) \<Longrightarrow> xs \<noteq> [] \<Longrightarrow> fits address_of size_of mx xs"
  by (auto simp: fits_def tiled_append)

lemma fits_suffix: "fits address_of size_of mx (xs @ ys) \<Longrightarrow> ys \<noteq> [] \<Longrightarrow> fits address_of size_of mx ys"
  by (cases ys) (auto simp: fits_def tiled_append)

lemma fits_snoc:
  assumes "fits address_of size_of mx xs"
  shows "fits address_of size_of mx (xs @ [x]) \<longleftrightarrow>
     address_of x = address_of (hd xs) + of_nat (total_size size_of xs)
     \<and> total_size size_of xs + unat (size_of x) \<le> unat mx"
  using assms by (auto simp: fits_def tiled_append)

text \<open>An item either extends the last batch, exactly when it fits, or opens one.\<close>

lemma push_item_cases:
  assumes bs: "list_all (batch_ok address_of size_of mx) bs"
    and size: "size_of x \<le> mx" and mx: "unat mx < 2 ^ 15"
  shows "\<exists>bs'. (push_item address_of size_of mx x bs :: ('a Batch list, 'e) result) = Ok bs' \<and> list_all (batch_ok address_of size_of mx) bs'
     \<and> map items bs' =
         (if bs \<noteq> [] \<and> fits address_of size_of mx (items (last bs) @ [x])
          then map items (butlast bs) @ [items (last bs) @ [x]] else map items bs @ [[x]])"
proof (cases "bs = []")
  case True
  with size show ?thesis
    by (simp add: push_item_def batch_of_def batch_ok_def fits_def word_le_nat_alt)
next
  case False
  let ?b = "last bs"
  have b: "batch_ok address_of size_of mx ?b" and rest: "list_all (batch_ok address_of size_of mx) (butlast bs)"
    using bs False by (auto simp: list_all_iff dest: in_set_butlastD)
  have "unat (quantity ?b) \<le> unat mx" "unat (size_of x) \<le> unat mx"
    using b size by (simp_all add: batch_ok_def fits_def word_le_nat_alt)
  then have sum: "unat (quantity ?b) + unat (size_of x) < 2 ^ 16" using mx by simp
  then have add: "add_u16 (quantity ?b) (size_of x) = (Ok (quantity ?b + size_of x) :: (u16, 'e) result)"
    "unat (quantity ?b + size_of x) = unat (quantity ?b) + unat (size_of x)"
    by (simp_all add: add_u16_def unat_add_lem [THEN iffD1])
  have q: "quantity ?b = of_nat (total_size size_of (items ?b))"
  proof -
    have "quantity ?b = word_of_nat (unat (quantity ?b))" by simp
    with b show ?thesis by (simp add: batch_ok_def)
  qed
  have fit: "fits address_of size_of mx (items ?b @ [x]) \<longleftrightarrow>
      address_of x = starting_address ?b + quantity ?b \<and> quantity ?b + size_of x \<le> mx"
  proof -
    have "fits address_of size_of mx (items ?b)" "starting_address ?b = address_of (hd (items ?b))"
      "unat (quantity ?b) = total_size size_of (items ?b)"
      using b by (simp_all add: batch_ok_def)
    then show ?thesis
      by (simp add: fits_snoc word_le_nat_alt add(2) flip: q)
  qed
  have new: "batch_ok address_of size_of mx (batch_of (address_of x) (size_of x) x)"
    using size by (simp add: batch_of_def batch_ok_def fits_def word_le_nat_alt)
  show ?thesis
  proof (cases "fits address_of size_of mx (items ?b @ [x])")
    case True
    then have "batch_ok address_of size_of mx (?b\<lparr>items := items ?b @ [x], quantity := quantity ?b + size_of x\<rparr>)"
      using b add(2) by (auto simp: batch_ok_def fits_def)
    with True False fit add(1) rest show ?thesis
      by (simp add: push_item_def Let_def)
  next
    case F: False
    with False fit add(1) new bs show ?thesis
      by (auto simp: push_item_def batch_of_def Let_def)
  qed
qed

section \<open>The batches are the fewest\<close>

text \<open>What the loop maintains: the items seen so far in order, in batches that fit; against any other
  way of cutting them into runs that fit, either there are fewer batches, or as many and the last
  one starts no earlier.\<close>

lemma push_items:
  assumes "list_all (\<lambda>x. size_of x \<le> mx) xs" and mx: "unat mx < 2 ^ 15"
  shows "\<exists>bs. (for_each (push_item address_of size_of mx) xs [] :: ('a Batch list, 'e) result) = Ok bs
     \<and> list_all (batch_ok address_of size_of mx) bs \<and> concat (map items bs) = xs
     \<and> (\<forall>cut. concat cut = xs \<and> list_all (fits address_of size_of mx) cut \<longrightarrow>
           length bs < length cut
           \<or> length bs = length cut \<and> (bs = [] \<or> suffix (items (last bs)) (last cut)))"
  using assms(1)
proof (induction xs rule: rev_induct)
  case Nil
  have "cut = []" if "concat cut = []" "list_all (fits address_of size_of mx) cut" for cut
    using that by (cases cut) (auto simp: fits_def)
  then show ?case by auto
next
  case (snoc x xs)
  let ?fits = "fits address_of size_of mx"
  from snoc obtain bs where bs: "(for_each (push_item address_of size_of mx) xs [] :: ('a Batch list, 'e) result) = Ok bs"
    "list_all (batch_ok address_of size_of mx) bs" "concat (map items bs) = xs"
    and opt: "\<And>cut. concat cut = xs \<Longrightarrow> list_all ?fits cut \<Longrightarrow>
      length bs < length cut \<or> length bs = length cut \<and> (bs = [] \<or> suffix (items (last bs)) (last cut))"
    by auto
  have "size_of x \<le> mx" using snoc.prems by simp
  from push_item_cases [OF bs(2) this mx] obtain bs' where bs':
    "(push_item address_of size_of mx x bs :: ('a Batch list, 'e) result) = Ok bs'" "list_all (batch_ok address_of size_of mx) bs'"
    "map items bs' = (if bs \<noteq> [] \<and> ?fits (items (last bs) @ [x])
      then map items (butlast bs) @ [items (last bs) @ [x]] else map items bs @ [[x]])"
    by blast
  have len: "length bs' = (if bs \<noteq> [] \<and> ?fits (items (last bs) @ [x]) then length bs else Suc (length bs))"
    using arg_cong [OF bs'(3), of length] by (auto split: if_splits)
  have nonempty: "bs' \<noteq> []" using len by (auto split: if_splits)
  then have lst: "items (last bs') = (if bs \<noteq> [] \<and> ?fits (items (last bs) @ [x]) then items (last bs) @ [x] else [x])"
    using arg_cong [OF bs'(3), of last] by (simp add: last_map split: if_splits)
  have "concat (map items bs') = xs @ [x]"
    using bs(3) unfolding bs'(3)
    by (cases bs rule: rev_cases) auto
  moreover have "length bs' < length cut \<or> length bs' = length cut \<and> suffix (items (last bs')) (last cut)"
    if cut: "concat cut = xs @ [x]" "list_all ?fits cut" for cut
  proof -
    from cut(1) obtain cs d where "cut = cs @ [d]" by (cases cut rule: rev_cases) auto
    moreover from this cut have "d \<noteq> []" by (auto simp: fits_def)
    ultimately obtain e where e: "cut = cs @ [e @ [x]]" "concat cs @ e = xs"
      using cut(1) by (cases d rule: rev_cases) auto
    show ?thesis
    proof (cases "e = []")
      case True
      with opt [of cs] e cut(2) len lst show ?thesis by (auto split: if_splits)
    next
      case False
      with cut(2) e(1) fits_prefix [of address_of size_of mx e "[x]"] have "?fits e" by simp
      with opt [of "cs @ [e]"] e cut(2)
      have cases: "length bs < length cut \<or> length bs = length cut \<and> suffix (items (last bs)) e"
        using False by auto
      have ext: "?fits (items (last bs) @ [x])" if suf: "suffix (items (last bs)) e"
        using suf cut(2) e(1) fits_suffix [of address_of size_of mx _ "items (last bs) @ [x]"]
        by (auto simp: suffix_def)
      from cases show ?thesis
      proof
        assume "length bs < length cut"
        with len lst e(1) show ?thesis by (auto split: if_splits simp: suffix_def)
      next
        assume *: "length bs = length cut \<and> suffix (items (last bs)) e"
        then have "bs \<noteq> []" using e(1) by auto
        with * ext len lst e(1) show ?thesis by (auto simp: suffix_def)
      qed
    qed
  qed
  ultimately show ?case
    using bs(1) bs'(1,2) nonempty by (intro exI [of _ bs']) (auto simp: for_each_append)
qed

text \<open>C31: The batches cover the items in address order, every batch lies back to back and keeps within
  the limit, no addition overflows, and no other way of cutting the items into such requests
  needs fewer.\<close>

theorem batches_are_fewest:
  assumes "list_all (\<lambda>x. size_of x \<le> mx) xs" and "unat mx < 2 ^ 15"
  shows "\<exists>bs. (build_batches xs address_of size_of mx :: ('a Batch list, 'e) result) = Ok bs
     \<and> concat (map items bs) = sort_key address_of xs
     \<and> list_all (batch_ok address_of size_of mx) bs
     \<and> (\<forall>cut. concat cut = sort_key address_of xs \<and> list_all (fits address_of size_of mx) cut
           \<longrightarrow> length bs \<le> length cut)"
proof -
  have "list_all (\<lambda>x. size_of x \<le> mx) (sort_key address_of xs)"
    using assms(1) by (simp add: list_all_iff)
  from push_items [OF this assms(2), of address_of] show ?thesis
    unfolding build_batches_def by (elim exE conjE, intro exI conjI) auto
qed

theorem batches_are_fewest_witness:
  "\<exists>bs. (build_batches [7, 4, 5 :: u16] id (\<lambda>_. 1) 125 :: (u16 Batch list, unit) result) = Ok bs
     \<and> concat (map items bs) = [4, 5, 7] \<and> list_all (batch_ok id (\<lambda>_. 1) 125) bs \<and> length bs \<le> 2"
proof -
  have cut: "concat [[4, 5], [7 :: u16]] = sort_key id [7, 4, 5]" "sort_key id [7, 4, 5 :: u16] = [4, 5, 7]"
    by simp_all
  have fits: "list_all (fits id (\<lambda>_. 1) 125) [[4, 5], [7 :: u16]]" by (simp add: fits_def)
  from batches_are_fewest [of "\<lambda>_. 1" 125 "[7, 4, 5 :: u16]" id] obtain bs where
    bs: "(build_batches [7, 4, 5 :: u16] id (\<lambda>_. 1) 125 :: (u16 Batch list, unit) result) = Ok bs"
    "concat (map items bs) = sort_key id [7, 4, 5]" "list_all (batch_ok id (\<lambda>_. 1) 125) bs"
    and least: "\<And>cut. concat cut = sort_key id [7, 4, 5 :: u16] \<Longrightarrow> list_all (fits id (\<lambda>_. 1) 125) cut
      \<Longrightarrow> length bs \<le> length cut"
    by auto
  have "length bs \<le> 2" using least [OF cut(1) fits] by simp
  with bs cut(2) show ?thesis by auto
qed

end
