(* ===== verification/Polling.thy ===== *)
theory Polling
  imports Batching Discovery
begin

text \<open>
  The client's polling task (\<open>client/src/polling.rs\<close>): what is described is read in batches and
  what the device answers is stored. Proved: no device can make the task panic or store anything
  but described points with values of their type. The theory \<open>Polling_Mirror\<close> puts the task
  against the server of this repository.
\<close>

section \<open>Batches\<close>

definition MAX_READ_BATCH_SIZE :: u16 where [simp]: "MAX_READ_BATCH_SIZE = 125"
definition MAX_PACKED_BIT_READ_BATCH_SIZE :: u16 where [simp]: "MAX_PACKED_BIT_READ_BATCH_SIZE = 2000"

definition build_read_batches :: "RegisterDescription list \<Rightarrow> (RegisterDescription Batch list, 'e) result" where
  "build_read_batches rs =
     build_batches rs RegisterDescription.address (\<lambda>r. register_count (RegisterDescription.data_type r))
       MAX_READ_BATCH_SIZE"

definition build_input_register_read_batches ::
    "InputRegisterDescription list \<Rightarrow> (InputRegisterDescription Batch list, 'e) result" where
  "build_input_register_read_batches rs =
     build_batches rs InputRegisterDescription.address
       (\<lambda>r. register_count (InputRegisterDescription.data_type r)) MAX_READ_BATCH_SIZE"

definition build_coil_read_batches :: "CoilDescription list \<Rightarrow> (CoilDescription Batch list, 'e) result" where
  "build_coil_read_batches cs =
     build_batches cs CoilDescription.address (\<lambda>_. 1) MAX_PACKED_BIT_READ_BATCH_SIZE"

definition build_discrete_input_read_batches ::
    "DiscreteInputDescription list \<Rightarrow> (DiscreteInputDescription Batch list, 'e) result" where
  "build_discrete_input_read_batches ds =
     build_batches ds DiscreteInputDescription.address (\<lambda>_. 1) MAX_PACKED_BIT_READ_BATCH_SIZE"

section \<open>One request\<close>

text \<open>
  What a polling task works on: the shared connection, the machine's stores and the flag of the
  reconnect signal. A failed request marks the connection broken and goes on to the next batch
  (\<open>continue\<close>); otherwise the answer goes to \<open>store_answer\<close>.
\<close>

record 's Poller =
  connection :: 's
  mirror :: MachineStores
  broken :: bool

definition mark_broken :: "'s Poller \<Rightarrow> 's Poller" where
  "mark_broken p = p\<lparr>broken := True\<rparr>"

definition read_once ::
    "'s link \<Rightarrow> u8 \<Rightarrow> bytes \<Rightarrow> (bytes \<Rightarrow> MachineStores \<Rightarrow> (MachineStores, 'e) result) \<Rightarrow> 's Poller
     \<Rightarrow> ('s Poller, 'e) result" where
  "read_once request uid request_pdu store_answer p =
     (case request uid request_pdu (connection p) of
        (Panic, s) \<Rightarrow> Panic
      | (Err e, s) \<Rightarrow> Ok (mark_broken (p\<lparr>connection := s\<rparr>))
      | (Ok response_pdu, s) \<Rightarrow>
          and_then (store_answer response_pdu (mirror p)) (\<lambda>st. Ok (p\<lparr>connection := s, mirror := st\<rparr>)))"

text \<open>The inner loop over the registers of a batch.\<close>

fun store_words ::
    "('r \<Rightarrow> DataType) \<Rightarrow> ('r \<Rightarrow> RegisterValue \<Rightarrow> 'st \<Rightarrow> 'st) \<Rightarrow> MemLayout \<Rightarrow> u16 list \<Rightarrow> nat \<Rightarrow> 'r list \<Rightarrow> 'st
     \<Rightarrow> ('st, 'e) result" where
  "store_words type_of set_value layout ws off [] st = Ok st"
| "store_words type_of set_value layout ws off (r # rs) st =
     (let n = unat (register_count (type_of r)) in
      and_then (slice ws off (off + n)) (\<lambda>words.
      and_then (register_value_from_words (type_of r) words layout) (\<lambda>v.
      store_words type_of set_value layout ws (off + n) rs
        (case v of Some x \<Rightarrow> set_value r x st | None \<Rightarrow> st))))"

section \<open>The five polls\<close>

definition set_register :: "RegisterDescription \<Rightarrow> RegisterValue \<Rightarrow> MachineStores \<Rightarrow> MachineStores" where
  "set_register r v st =
     st\<lparr>MachineStores.registers := RegisterStore_set (RegisterDescription.name r) v (MachineStores.registers st)\<rparr>"

definition poll_register_batch ::
    "'s link \<Rightarrow> MemLayout \<Rightarrow> u8 \<Rightarrow> RegisterDescription Batch \<Rightarrow> 's Poller \<Rightarrow> ('s Poller, 'e) result" where
  "poll_register_batch request layout uid batch =
     read_once request uid
       (ReadHoldingRegistersRequest_encode
          \<lparr>ReadHoldingRegistersRequest.starting_address = Batch.starting_address batch,
           quantity = Batch.quantity batch\<rparr>)
       (\<lambda>response_pdu st.
          case ReadHoldingRegistersResponse_decode response_pdu of
            Panic \<Rightarrow> Panic
          | Err _ \<Rightarrow> Ok st
          | Ok decoded \<Rightarrow>
              if length (ReadHoldingRegistersResponse.register_values decoded) = unat (Batch.quantity batch)
              then store_words RegisterDescription.data_type set_register layout
                     (ReadHoldingRegistersResponse.register_values decoded) 0 (items batch) st
              else Ok st)"

definition poll_once ::
    "'s link \<Rightarrow> MemLayout \<Rightarrow> u8 \<Rightarrow> RegisterDescription Batch list \<Rightarrow> 's Poller \<Rightarrow> ('s Poller, 'e) result" where
  "poll_once request layout uid batches = for_each (poll_register_batch request layout uid) batches"

definition set_input_register :: "InputRegisterDescription \<Rightarrow> RegisterValue \<Rightarrow> MachineStores \<Rightarrow> MachineStores" where
  "set_input_register r v st =
     st\<lparr>MachineStores.input_registers :=
          InputRegisterStore_set (InputRegisterDescription.name r) v (MachineStores.input_registers st)\<rparr>"

definition poll_input_register_batch ::
    "'s link \<Rightarrow> MemLayout \<Rightarrow> u8 \<Rightarrow> InputRegisterDescription Batch \<Rightarrow> 's Poller \<Rightarrow> ('s Poller, 'e) result" where
  "poll_input_register_batch request layout uid batch =
     read_once request uid
       (ReadInputRegistersRequest_encode
          \<lparr>ReadInputRegistersRequest.starting_address = Batch.starting_address batch,
           quantity = Batch.quantity batch\<rparr>)
       (\<lambda>response_pdu st.
          case ReadInputRegistersResponse_decode response_pdu of
            Panic \<Rightarrow> Panic
          | Err _ \<Rightarrow> Ok st
          | Ok decoded \<Rightarrow>
              if length (ReadInputRegistersResponse.register_values decoded) = unat (Batch.quantity batch)
              then store_words InputRegisterDescription.data_type set_input_register layout
                     (ReadInputRegistersResponse.register_values decoded) 0 (items batch) st
              else Ok st)"

definition poll_input_registers_once ::
    "'s link \<Rightarrow> MemLayout \<Rightarrow> u8 \<Rightarrow> InputRegisterDescription Batch list \<Rightarrow> 's Poller \<Rightarrow> ('s Poller, 'e) result" where
  "poll_input_registers_once request layout uid batches =
     for_each (poll_input_register_batch request layout uid) batches"

definition set_coil :: "CoilDescription \<Rightarrow> bool \<Rightarrow> MachineStores \<Rightarrow> MachineStores" where
  "set_coil c v st =
     st\<lparr>MachineStores.coils := CoilStore_set (CoilDescription.name c) (CoilValue v) (MachineStores.coils st)\<rparr>"

definition poll_coil_batch ::
    "'s link \<Rightarrow> u8 \<Rightarrow> CoilDescription Batch \<Rightarrow> 's Poller \<Rightarrow> ('s Poller, 'e) result" where
  "poll_coil_batch request uid batch =
     read_once request uid
       (ReadCoilsRequest_encode
          \<lparr>ReadCoilsRequest.starting_address = Batch.starting_address batch, quantity = Batch.quantity batch\<rparr>)
       (\<lambda>response_pdu st.
          case ReadCoilsResponse_decode response_pdu of
            Panic \<Rightarrow> Panic
          | Err _ \<Rightarrow> Ok st
          | Ok decoded \<Rightarrow>
              if length (items batch) \<le> length (ReadCoilsResponse.coil_values decoded)
              then Ok (fold (\<lambda>(c, v). set_coil c v)
                     (zip (items batch) (ReadCoilsResponse.coil_values decoded)) st)
              else Ok st)"

definition poll_coils_once ::
    "'s link \<Rightarrow> u8 \<Rightarrow> CoilDescription Batch list \<Rightarrow> 's Poller \<Rightarrow> ('s Poller, 'e) result" where
  "poll_coils_once request uid batches = for_each (poll_coil_batch request uid) batches"

definition set_discrete_input :: "DiscreteInputDescription \<Rightarrow> bool \<Rightarrow> MachineStores \<Rightarrow> MachineStores" where
  "set_discrete_input d v st =
     st\<lparr>MachineStores.discrete_inputs :=
          DiscreteInputStore_set (DiscreteInputDescription.name d) (CoilValue v) (MachineStores.discrete_inputs st)\<rparr>"

definition poll_discrete_input_batch ::
    "'s link \<Rightarrow> u8 \<Rightarrow> DiscreteInputDescription Batch \<Rightarrow> 's Poller \<Rightarrow> ('s Poller, 'e) result" where
  "poll_discrete_input_batch request uid batch =
     read_once request uid
       (ReadDiscreteInputsRequest_encode
          \<lparr>ReadDiscreteInputsRequest.starting_address = Batch.starting_address batch,
           quantity = Batch.quantity batch\<rparr>)
       (\<lambda>response_pdu st.
          case ReadDiscreteInputsResponse_decode response_pdu of
            Panic \<Rightarrow> Panic
          | Err _ \<Rightarrow> Ok st
          | Ok decoded \<Rightarrow>
              if length (items batch) \<le> length (ReadDiscreteInputsResponse.discrete_input_values decoded)
              then Ok (fold (\<lambda>(d, v). set_discrete_input d v)
                     (zip (items batch) (ReadDiscreteInputsResponse.discrete_input_values decoded)) st)
              else Ok st)"

definition poll_discrete_inputs_once ::
    "'s link \<Rightarrow> u8 \<Rightarrow> DiscreteInputDescription Batch list \<Rightarrow> 's Poller \<Rightarrow> ('s Poller, 'e) result" where
  "poll_discrete_inputs_once request uid batches = for_each (poll_discrete_input_batch request uid) batches"

definition set_file_record :: "FileRecordDescription \<Rightarrow> bytes \<Rightarrow> MachineStores \<Rightarrow> MachineStores" where
  "set_file_record d bs st =
     st\<lparr>MachineStores.file_records :=
          FileRecordStore_set (FileRecordDescription.file_number d, FileRecordDescription.record_number d) bs
            (MachineStores.file_records st)\<rparr>"

definition file_record_request :: "FileRecordDescription \<Rightarrow> ReadFileRecordRequest" where
  "file_record_request d =
     \<lparr>ReadFileRecordRequest.sub_requests =
        [\<lparr>FileRecordSubRequest.file_number = FileRecordDescription.file_number d,
          record_number = FileRecordDescription.record_number d,
          record_length = FileRecordDescription.record_length d\<rparr>]\<rparr>"

definition poll_file_record ::
    "'s link \<Rightarrow> u8 \<Rightarrow> FileRecordDescription \<Rightarrow> 's Poller \<Rightarrow> ('s Poller, 'e) result" where
  "poll_file_record request uid d =
     read_once request uid (ReadFileRecordRequest_encode (file_record_request d))
       (\<lambda>response_pdu st.
          case ReadFileRecordResponse_decode response_pdu of
            Panic \<Rightarrow> Panic
          | Err _ \<Rightarrow> Ok st
          | Ok decoded \<Rightarrow>
             (case ReadFileRecordResponse.records decoded of
                [r] \<Rightarrow> Ok (set_file_record d r st)
              | _ \<Rightarrow> Ok st))"

definition poll_file_records_once ::
    "'s link \<Rightarrow> u8 \<Rightarrow> FileRecordDescription list \<Rightarrow> 's Poller \<Rightarrow> ('s Poller, 'e) result" where
  "poll_file_records_once request uid ds = for_each (poll_file_record request uid) ds"

section \<open>The loop\<close>

text \<open>The batches are built once; \<open>ticks\<close> is how often the interval has elapsed, as the loop never ends.\<close>

definition polling_turn ::
    "'s link \<Rightarrow> MachineDescription \<Rightarrow> RegisterDescription Batch list \<Rightarrow> CoilDescription Batch list
     \<Rightarrow> DiscreteInputDescription Batch list \<Rightarrow> InputRegisterDescription Batch list \<Rightarrow> 's Poller
     \<Rightarrow> ('s Poller, 'e) result" where
  "polling_turn request m register_batches coil_batches discrete_input_batches input_register_batches p =
     (let uid = MachineDescription.unit_id m in
      and_then (poll_once request (MachineDescription.mem_layout m) uid register_batches p) (\<lambda>p.
      and_then (poll_coils_once request uid coil_batches p) (\<lambda>p.
      and_then (poll_discrete_inputs_once request uid discrete_input_batches p) (\<lambda>p.
      and_then (poll_input_registers_once request (MachineDescription.input_register_mem_layout m) uid
                  input_register_batches p) (\<lambda>p.
      poll_file_records_once request uid (MachineDescription.file_records m) p)))))"

definition run_polling_loop ::
    "'s link \<Rightarrow> MachineDescription \<Rightarrow> nat \<Rightarrow> 's Poller \<Rightarrow> ('s Poller, 'e) result" where
  "run_polling_loop request m ticks p =
     and_then (build_read_batches (MachineDescription.registers m)) (\<lambda>register_batches.
     and_then (build_coil_read_batches (MachineDescription.coils m)) (\<lambda>coil_batches.
     and_then (build_discrete_input_read_batches (MachineDescription.discrete_inputs m)) (\<lambda>discrete_input_batches.
     and_then (build_input_register_read_batches (MachineDescription.input_registers m)) (\<lambda>input_register_batches.
     for_each (\<lambda>_. polling_turn request m register_batches coil_batches discrete_input_batches
       input_register_batches) [0..<ticks] p))))"

section \<open>Any device\<close>

text \<open>A link that never panics: the wire in either framing, and the server itself.\<close>

locale steady_link =
  fixes request :: "'s link"
  assumes steady: "fst (request uid body s) \<noteq> Panic"

lemma send_request_not_Panic:
  "fst (tcp_send_request a s) \<noteq> Panic" "fst (rtu_send_request b s) \<noteq> Panic"
proof -
  obtain w s1 where w: "with_timeout (write_all (TcpAdu_encode a)) s = (w, s1)" by fastforce
  obtain r s2 where r: "receive_tcp s1 = (r, s2)" by fastforce
  from with_timeout_write_all_cases [OF w] tcp.receive_no_panic [of s1] r w
  show "fst (tcp_send_request a s) \<noteq> Panic"
    by (cases w; cases r) (auto simp: tcp_send_request_def io_return_def receive_tcp_def)
  obtain w' s1' where w': "with_timeout (write_all (RtuAdu_encode b)) s = (w', s1')" by fastforce
  from with_timeout_write_all_cases [OF w'] rtu.receive_no_panic [of s1'] w'
  show "fst (rtu_send_request b s) \<noteq> Panic"
    by (cases w') (auto simp: rtu_send_request_eq)
qed

interpretation wire: steady_link connection_request
proof
  fix uid body and c :: Connection
  show "fst (connection_request uid body c) \<noteq> Panic"
    using send_request_not_Panic
    by (cases c) (auto simp: mbap_request_def Let_def split: prod.splits, (metis fst_conv)+)
qed

lemma for_each_invariant:
  assumes "\<And>x s. x \<in> set xs \<Longrightarrow> P s \<Longrightarrow> \<exists>s'. f x s = (Ok s' :: ('s, 'e) result) \<and> P s'" and "P s"
  shows "\<exists>s'. for_each f xs s = (Ok s' :: ('s, 'e) result) \<and> P s'"
  using assms
proof (induction xs arbitrary: s)
  case (Cons x xs)
  then obtain s' where "f x s = (Ok s' :: ('s, 'e) result)" "P s'" by (meson list.set_intros(1))
  with Cons show ?case by simp
qed simp

text \<open>What a polling task may do to the stores of its machine.\<close>

definition polled_update :: "MachineDescription \<Rightarrow> MachineStores \<Rightarrow> MachineStores \<Rightarrow> bool" where
  "polled_update m st st' \<longleftrightarrow>
     (\<forall>nm. RegisterStore_get (MachineStores.registers st') nm = RegisterStore_get (MachineStores.registers st) nm
        \<or> (\<exists>r \<in> set (MachineDescription.registers m). \<exists>v. RegisterDescription.name r = nm
             \<and> RegisterStore_get (MachineStores.registers st') nm = Some v
             \<and> data_type_of v = RegisterDescription.data_type r))
     \<and> (\<forall>nm. InputRegisterStore_get (MachineStores.input_registers st') nm
            = InputRegisterStore_get (MachineStores.input_registers st) nm
        \<or> (\<exists>r \<in> set (MachineDescription.input_registers m). \<exists>v. InputRegisterDescription.name r = nm
             \<and> InputRegisterStore_get (MachineStores.input_registers st') nm = Some v
             \<and> data_type_of v = InputRegisterDescription.data_type r))
     \<and> (\<forall>nm. CoilStore_get (MachineStores.coils st') nm = CoilStore_get (MachineStores.coils st) nm
        \<or> nm \<in> CoilDescription.name ` set (MachineDescription.coils m))
     \<and> (\<forall>nm. DiscreteInputStore_get (MachineStores.discrete_inputs st') nm
            = DiscreteInputStore_get (MachineStores.discrete_inputs st) nm
        \<or> nm \<in> DiscreteInputDescription.name ` set (MachineDescription.discrete_inputs m))
     \<and> (\<forall>k. FileRecordStore_get (MachineStores.file_records st') k
            = FileRecordStore_get (MachineStores.file_records st) k
        \<or> (\<exists>d \<in> set (MachineDescription.file_records m).
             k = (FileRecordDescription.file_number d, FileRecordDescription.record_number d)))
     \<and> MachineStores.report st' = MachineStores.report st"

lemma polled_update_refl [simp]: "polled_update m st st"
  by (simp add: polled_update_def)

lemma polled_update_trans:
  assumes "polled_update m st st'" and "polled_update m st' st''"
  shows "polled_update m st st''"
  using assms unfolding polled_update_def by (intro conjI) metis+

lemma polled_update_sets:
  "r \<in> set (MachineDescription.registers m) \<Longrightarrow> data_type_of v = RegisterDescription.data_type r \<Longrightarrow>
     polled_update m st (set_register r v st)"
  "ir \<in> set (MachineDescription.input_registers m) \<Longrightarrow> data_type_of v = InputRegisterDescription.data_type ir \<Longrightarrow>
     polled_update m st (set_input_register ir v st)"
  "c \<in> set (MachineDescription.coils m) \<Longrightarrow> polled_update m st (set_coil c b st)"
  "d \<in> set (MachineDescription.discrete_inputs m) \<Longrightarrow> polled_update m st (set_discrete_input d b st)"
  "f \<in> set (MachineDescription.file_records m) \<Longrightarrow> polled_update m st (set_file_record f bs st)"
  by (auto simp: polled_update_def set_register_def set_input_register_def set_coil_def set_discrete_input_def
      set_file_record_def register_store.get_set input_register_store.get_set coil_store.get_set
      discrete_input_store.get_set file_record_store.get_set)

lemma store_words_update:
  assumes "off + (\<Sum>r\<leftarrow>rs. unat (register_count (type_of r))) \<le> length ws"
    and "\<And>r v st. r \<in> set rs \<Longrightarrow> data_type_of v = type_of r \<Longrightarrow> polled_update m st (set_value r v st)"
  shows "\<exists>st'. store_words type_of set_value layout ws off rs st = (Ok st' :: (MachineStores, 'e) result)
     \<and> polled_update m st st'"
  using assms
proof (induction rs arbitrary: off st)
  case (Cons r rs)
  let ?n = "unat (register_count (type_of r))"
  have len: "length (take ?n (drop off ws)) = ?n" using Cons.prems(1) by simp
  obtain v where v: "register_value_from_words (type_of r) (take ?n (drop off ws)) layout
      = (Ok (Some v) :: (RegisterValue option, 'e) result)" "data_type_of v = type_of r"
    using from_words_wire_view [OF len, where ?'e = 'e] by blast
  have "\<exists>st'. store_words type_of set_value layout ws (off + ?n) rs (set_value r v st)
      = (Ok st' :: (MachineStores, 'e) result) \<and> polled_update m (set_value r v st) st'"
    using Cons.prems by (intro Cons.IH) (auto simp: add.assoc)
  then obtain st' where "store_words type_of set_value layout ws (off + ?n) rs (set_value r v st)
      = (Ok st' :: (MachineStores, 'e) result)" "polled_update m (set_value r v st) st'" by blast
  moreover have "polled_update m st (set_value r v st)" using Cons.prems(2) v(2) by simp
  ultimately show ?case
    using v(1) Cons.prems(1) polled_update_trans by (auto simp: Let_def)
qed simp

lemma fold_update:
  assumes "\<And>x st. x \<in> set xs \<Longrightarrow> polled_update m st (f x st)"
  shows "polled_update m st (fold f xs st)"
  using assms by (induction xs arbitrary: st) (auto intro: polled_update_trans)

context steady_link
begin

lemma read_once_update:
  assumes "\<And>body st. \<exists>st'. store_answer body st = (Ok st' :: (MachineStores, 'e) result) \<and> polled_update m st st'"
    and "polled_update m st0 (mirror p)"
  shows "\<exists>p'. read_once request uid body store_answer p = (Ok p' :: ('s Poller, 'e) result)
     \<and> polled_update m st0 (mirror p')"
proof -
  obtain r s where r: "request uid body (connection p) = (r, s)" by fastforce
  show ?thesis
  proof (cases r)
    case (Ok bs)
    obtain st' where "store_answer bs (mirror p) = (Ok st' :: (MachineStores, 'e) result)"
      "polled_update m (mirror p) st'"
      using assms(1) by blast
    with r Ok assms(2) polled_update_trans show ?thesis by (auto simp: read_once_def)
  qed (use r assms(2) steady [of uid body "connection p"] in \<open>auto simp: read_once_def mark_broken_def\<close>)
qed

text \<open>A batch the loop builds: its items are described and take its quantity.\<close>

lemma poll_register_batch_update:
  assumes "unat (Batch.quantity b) = (\<Sum>r\<leftarrow>items b. unat (register_count (RegisterDescription.data_type r)))"
    and "set (items b) \<subseteq> set (MachineDescription.registers m)" and "polled_update m st0 (mirror p)"
  shows "\<exists>p'. poll_register_batch request layout uid b p = (Ok p' :: ('s Poller, 'e) result)
     \<and> polled_update m st0 (mirror p')"
  unfolding poll_register_batch_def
proof (rule read_once_update [OF _ assms(3)])
  fix body st
  show "\<exists>st'. (case ReadHoldingRegistersResponse_decode body of
            Panic \<Rightarrow> Panic
          | Err _ \<Rightarrow> Ok st
          | Ok decoded \<Rightarrow>
              if length (ReadHoldingRegistersResponse.register_values decoded) = unat (Batch.quantity b)
              then store_words RegisterDescription.data_type set_register layout
                     (ReadHoldingRegistersResponse.register_values decoded) 0 (items b) st
              else Ok st) = (Ok st' :: (MachineStores, 'e) result) \<and> polled_update m st st'"
    using pdu_decoders_not_Panic [of body] assms(1,2)
    by (auto split: result.split intro!: store_words_update polled_update_sets)
qed

lemma poll_input_register_batch_update:
  assumes "unat (Batch.quantity b) = (\<Sum>r\<leftarrow>items b. unat (register_count (InputRegisterDescription.data_type r)))"
    and "set (items b) \<subseteq> set (MachineDescription.input_registers m)" and "polled_update m st0 (mirror p)"
  shows "\<exists>p'. poll_input_register_batch request layout uid b p = (Ok p' :: ('s Poller, 'e) result)
     \<and> polled_update m st0 (mirror p')"
  unfolding poll_input_register_batch_def
proof (rule read_once_update [OF _ assms(3)])
  fix body st
  show "\<exists>st'. (case ReadInputRegistersResponse_decode body of
            Panic \<Rightarrow> Panic
          | Err _ \<Rightarrow> Ok st
          | Ok decoded \<Rightarrow>
              if length (ReadInputRegistersResponse.register_values decoded) = unat (Batch.quantity b)
              then store_words InputRegisterDescription.data_type set_input_register layout
                     (ReadInputRegistersResponse.register_values decoded) 0 (items b) st
              else Ok st) = (Ok st' :: (MachineStores, 'e) result) \<and> polled_update m st st'"
    using pdu_decoders_not_Panic [of body] assms(1,2)
    by (auto split: result.split intro!: store_words_update polled_update_sets)
qed

lemma poll_coil_batch_update:
  assumes "set (items b) \<subseteq> set (MachineDescription.coils m)" and "polled_update m st0 (mirror p)"
  shows "\<exists>p'. poll_coil_batch request uid b p = (Ok p' :: ('s Poller, 'e) result)
     \<and> polled_update m st0 (mirror p')"
  unfolding poll_coil_batch_def
proof (rule read_once_update [OF _ assms(2)])
  fix body st
  show "\<exists>st'. (case ReadCoilsResponse_decode body of
            Panic \<Rightarrow> Panic
          | Err _ \<Rightarrow> Ok st
          | Ok decoded \<Rightarrow>
              if length (items b) \<le> length (ReadCoilsResponse.coil_values decoded)
              then Ok (fold (\<lambda>(c, v). set_coil c v) (zip (items b) (ReadCoilsResponse.coil_values decoded)) st)
              else Ok st) = (Ok st' :: (MachineStores, 'e) result) \<and> polled_update m st st'"
    using pdu_decoders_not_Panic [of body] assms(1)
    by (auto split: result.split intro!: fold_update polled_update_sets dest: set_zip_leftD)
qed

lemma poll_discrete_input_batch_update:
  assumes "set (items b) \<subseteq> set (MachineDescription.discrete_inputs m)" and "polled_update m st0 (mirror p)"
  shows "\<exists>p'. poll_discrete_input_batch request uid b p = (Ok p' :: ('s Poller, 'e) result)
     \<and> polled_update m st0 (mirror p')"
  unfolding poll_discrete_input_batch_def
proof (rule read_once_update [OF _ assms(2)])
  fix body st
  show "\<exists>st'. (case ReadDiscreteInputsResponse_decode body of
            Panic \<Rightarrow> Panic
          | Err _ \<Rightarrow> Ok st
          | Ok decoded \<Rightarrow>
              if length (items b) \<le> length (ReadDiscreteInputsResponse.discrete_input_values decoded)
              then Ok (fold (\<lambda>(d, v). set_discrete_input d v)
                     (zip (items b) (ReadDiscreteInputsResponse.discrete_input_values decoded)) st)
              else Ok st) = (Ok st' :: (MachineStores, 'e) result) \<and> polled_update m st st'"
    using pdu_decoders_not_Panic [of body] assms(1)
    by (auto split: result.split intro!: fold_update polled_update_sets dest: set_zip_leftD)
qed

lemma poll_file_record_update:
  assumes "d \<in> set (MachineDescription.file_records m)" and "polled_update m st0 (mirror p)"
  shows "\<exists>p'. poll_file_record request uid d p = (Ok p' :: ('s Poller, 'e) result)
     \<and> polled_update m st0 (mirror p')"
  unfolding poll_file_record_def
proof (rule read_once_update [OF _ assms(2)])
  fix body st
  show "\<exists>st'. (case ReadFileRecordResponse_decode body of
            Panic \<Rightarrow> Panic
          | Err _ \<Rightarrow> Ok st
          | Ok decoded \<Rightarrow>
             (case ReadFileRecordResponse.records decoded of
                [r] \<Rightarrow> Ok (set_file_record d r st)
              | _ \<Rightarrow> Ok st)) = (Ok st' :: (MachineStores, 'e) result) \<and> polled_update m st st'"
    using decoder_totality assms(1)
    by (auto split: result.split list.split intro!: polled_update_sets)
qed

end

text \<open>What the batches of a table promise the polls.\<close>

lemma build_batches_ok:
  assumes "\<And>x. size_of x \<le> mx" and "unat mx < 2 ^ 15"
  obtains bs where "build_batches xs address_of size_of mx = (Ok bs :: ('a Batch list, 'e) result)"
    "concat (map items bs) = sort_key address_of xs"
    "\<And>b. b \<in> set bs \<Longrightarrow> batch_ok address_of size_of mx b"
    "\<And>b. b \<in> set bs \<Longrightarrow> set (items b) \<subseteq> set xs"
proof -
  from push_items [where ?'e = 'e, of size_of mx "sort_key address_of xs" address_of] assms obtain bs where
    bs: "for_each (push_item address_of size_of mx) (sort_key address_of xs) [] = (Ok bs :: ('a Batch list, 'e) result)"
    "list_all (batch_ok address_of size_of mx) bs" "concat (map items bs) = sort_key address_of xs"
    by (auto simp: list_all_iff)
  have "set (items b) \<subseteq> set xs" if "b \<in> set bs" for b
    using arg_cong [OF bs(3), of set] that by auto
  with bs show thesis by (intro that [of bs]) (auto simp: build_batches_def list_all_iff)
qed

lemma register_count_fits: "register_count dt \<le> 125"
  by (cases dt) simp_all

lemma register_count_fits_writes: "register_count dt \<le> 123"
  by (cases dt) simp_all

text \<open>The batches of a whole machine.\<close>

definition batched :: "MachineDescription \<Rightarrow> RegisterDescription Batch list \<Rightarrow> CoilDescription Batch list
     \<Rightarrow> DiscreteInputDescription Batch list \<Rightarrow> InputRegisterDescription Batch list \<Rightarrow> bool" where
  "batched m rbs cbs dbs ibs \<longleftrightarrow>
     concat (map items rbs) = sort_key RegisterDescription.address (MachineDescription.registers m)
     \<and> concat (map items cbs) = sort_key CoilDescription.address (MachineDescription.coils m)
     \<and> concat (map items dbs) = sort_key DiscreteInputDescription.address (MachineDescription.discrete_inputs m)
     \<and> concat (map items ibs) = sort_key InputRegisterDescription.address (MachineDescription.input_registers m)
     \<and> list_all (batch_ok RegisterDescription.address
          (\<lambda>r. register_count (RegisterDescription.data_type r)) 125) rbs
     \<and> list_all (batch_ok CoilDescription.address (\<lambda>_. 1) 2000) cbs
     \<and> list_all (batch_ok DiscreteInputDescription.address (\<lambda>_. 1) 2000) dbs
     \<and> list_all (batch_ok InputRegisterDescription.address
          (\<lambda>r. register_count (InputRegisterDescription.data_type r)) 125) ibs"

lemma run_polling_loop_batched:
  obtains rbs cbs dbs ibs where "batched m rbs cbs dbs ibs"
    "\<And>request ticks p. run_polling_loop request m ticks p
       = (for_each (\<lambda>_. polling_turn request m rbs cbs dbs ibs) [0..<ticks] p :: ('s Poller, 'e) result)"
proof -
  have one: "1 \<le> (2000 :: u16)" by simp
  obtain rbs where rbs: "build_read_batches (MachineDescription.registers m)
        = (Ok rbs :: (RegisterDescription Batch list, 'e) result)"
      "concat (map items rbs) = sort_key RegisterDescription.address (MachineDescription.registers m)"
      "list_all (batch_ok RegisterDescription.address
          (\<lambda>r. register_count (RegisterDescription.data_type r)) 125) rbs"
    unfolding build_read_batches_def list_all_iff
    by (rule build_batches_ok [where ?'e = 'e, of "\<lambda>r. register_count (RegisterDescription.data_type r)" 125])
       (auto simp: register_count_fits)
  obtain cbs where cbs: "build_coil_read_batches (MachineDescription.coils m)
        = (Ok cbs :: (CoilDescription Batch list, 'e) result)"
      "concat (map items cbs) = sort_key CoilDescription.address (MachineDescription.coils m)"
      "list_all (batch_ok CoilDescription.address (\<lambda>_. 1) 2000) cbs"
    unfolding build_coil_read_batches_def list_all_iff
    by (rule build_batches_ok [where ?'e = 'e, of "\<lambda>_. 1" 2000]) (auto simp: one)
  obtain dbs where dbs: "build_discrete_input_read_batches (MachineDescription.discrete_inputs m)
        = (Ok dbs :: (DiscreteInputDescription Batch list, 'e) result)"
      "concat (map items dbs) = sort_key DiscreteInputDescription.address (MachineDescription.discrete_inputs m)"
      "list_all (batch_ok DiscreteInputDescription.address (\<lambda>_. 1) 2000) dbs"
    unfolding build_discrete_input_read_batches_def list_all_iff
    by (rule build_batches_ok [where ?'e = 'e, of "\<lambda>_. 1" 2000]) (auto simp: one)
  obtain ibs where ibs: "build_input_register_read_batches (MachineDescription.input_registers m)
        = (Ok ibs :: (InputRegisterDescription Batch list, 'e) result)"
      "concat (map items ibs) = sort_key InputRegisterDescription.address (MachineDescription.input_registers m)"
      "list_all (batch_ok InputRegisterDescription.address
          (\<lambda>r. register_count (InputRegisterDescription.data_type r)) 125) ibs"
    unfolding build_input_register_read_batches_def list_all_iff
    by (rule build_batches_ok [where ?'e = 'e, of "\<lambda>r. register_count (InputRegisterDescription.data_type r)" 125])
       (auto simp: register_count_fits)
  show thesis
    using rbs cbs dbs ibs
    by (intro that [of rbs cbs dbs ibs]) (simp_all add: batched_def run_polling_loop_def)
qed

lemma batch_items:
  assumes "concat (map items bs) = sort_key address_of xs" and "b \<in> set bs"
  shows "set (items b) \<subseteq> set xs"
  using arg_cong [OF assms(1), of set] assms(2) by auto

context steady_link
begin

lemma polling_turn_update:
  assumes "batched m rbs cbs dbs ibs" and "polled_update m st (mirror p)"
  shows "\<exists>p'. polling_turn request m rbs cbs dbs ibs p = (Ok p' :: ('s Poller, 'e) result)
     \<and> polled_update m st (mirror p')"
proof -
  let ?uid = "MachineDescription.unit_id m" and ?P = "\<lambda>p. polled_update m st (mirror p)"
  note b = assms(1) [unfolded batched_def]
  obtain p1 where p1: "poll_once request (MachineDescription.mem_layout m) ?uid rbs p
      = (Ok p1 :: ('s Poller, 'e) result)" "?P p1"
    unfolding poll_once_def
    using for_each_invariant [where ?'e = 'e, of rbs ?P "poll_register_batch request (MachineDescription.mem_layout m) ?uid" p]
      poll_register_batch_update [where ?'e = 'e] b batch_items [of rbs] assms(2)
    by (fastforce simp: list_all_iff batch_ok_def total_size_def)
  obtain p2 where p2: "poll_coils_once request ?uid cbs p1 = (Ok p2 :: ('s Poller, 'e) result)" "?P p2"
    unfolding poll_coils_once_def
    using for_each_invariant [where ?'e = 'e, of cbs ?P "poll_coil_batch request ?uid" p1]
      poll_coil_batch_update [where ?'e = 'e] b batch_items [of cbs] p1(2) by fastforce
  obtain p3 where p3: "poll_discrete_inputs_once request ?uid dbs p2 = (Ok p3 :: ('s Poller, 'e) result)" "?P p3"
    unfolding poll_discrete_inputs_once_def
    using for_each_invariant [where ?'e = 'e, of dbs ?P "poll_discrete_input_batch request ?uid" p2]
      poll_discrete_input_batch_update [where ?'e = 'e] b batch_items [of dbs] p2(2) by fastforce
  obtain p4 where p4: "poll_input_registers_once request (MachineDescription.input_register_mem_layout m) ?uid ibs p3
      = (Ok p4 :: ('s Poller, 'e) result)" "?P p4"
    unfolding poll_input_registers_once_def
    using for_each_invariant [where ?'e = 'e, of ibs ?P
        "poll_input_register_batch request (MachineDescription.input_register_mem_layout m) ?uid" p3]
      poll_input_register_batch_update [where ?'e = 'e] b batch_items [of ibs] p3(2)
    by (fastforce simp: list_all_iff batch_ok_def total_size_def)
  obtain p5 where "poll_file_records_once request ?uid (MachineDescription.file_records m) p4
      = (Ok p5 :: ('s Poller, 'e) result)" "?P p5"
    unfolding poll_file_records_once_def
    using for_each_invariant [where ?'e = 'e, of "MachineDescription.file_records m" ?P "poll_file_record request ?uid" p4]
      poll_file_record_update [where ?'e = 'e] p4(2) by fastforce
  with p1 p2 p3 p4 show ?thesis by (simp add: polling_turn_def)
qed

lemma polling_update:
  "\<exists>p'. run_polling_loop request m ticks p = (Ok p' :: ('s Poller, 'e) result)
     \<and> polled_update m (mirror p) (mirror p')"
proof (rule run_polling_loop_batched [where ?'e = 'e and ?'s = 's, of m])
  fix rbs cbs dbs ibs
  assume b: "batched m rbs cbs dbs ibs"
    and run: "\<And>(request :: 's link) ticks p. run_polling_loop request m ticks p
       = (for_each (\<lambda>_. polling_turn request m rbs cbs dbs ibs) [0..<ticks] p :: ('s Poller, 'e) result)"
  show ?thesis
    unfolding run
    using polling_turn_update [where ?'e = 'e, OF b] by (intro for_each_invariant) simp_all
qed

end

text \<open>
  C32: No device can disturb a polling task. Over a connection of any kind, whatever arrives on it and
  whenever, and for as many turns as it runs, polling a described machine does not panic; the only
  entries it changes are those of described points, and a register or input register is only ever
  set to a value of its declared type. (A described file record may get any bytes of any length: the
  loop does not check the length.)
\<close>

theorem polling_survives_any_device:
  fixes p :: "Connection Poller"
  shows "\<exists>p'. run_polling_loop connection_request m ticks p = (Ok p' :: (Connection Poller, 'e) result)
     \<and> polled_update m (mirror p) (mirror p')"
  by (rule wire.polling_update)

end
