(* ===== verification/Write_Confirmation.thy ===== *)
theory Write_Confirmation
  imports Discovery
begin

text \<open>
  The client's writes (\<open>client/src/write_confirmation.rs\<close>): a staged value becomes a request, and the
  answer of the device becomes a \<open>WriteStatus\<close>. The text of an I/O error is the argument \<open>display\<close>,
  since the model keeps where an error was created and not its text.
\<close>

section \<open>Texts\<close>

text \<open>The derived \<open>Debug\<close> of the types that appear in a reason.\<close>

fun debug_data_type :: "DataType \<Rightarrow> string" where
  "debug_data_type U8 = ''U8''" | "debug_data_type I8 = ''I8''" | "debug_data_type U16 = ''U16''"
| "debug_data_type I16 = ''I16''" | "debug_data_type U24 = ''U24''" | "debug_data_type I24 = ''I24''"
| "debug_data_type U32 = ''U32''" | "debug_data_type I32 = ''I32''" | "debug_data_type U64 = ''U64''"
| "debug_data_type I64 = ''I64''" | "debug_data_type F32 = ''F32''" | "debug_data_type F64 = ''F64''"

definition show_word :: "'a :: len word \<Rightarrow> string" where
  "show_word w = show_nat (unat w)"

fun debug_decode_error :: "DecodeError \<Rightarrow> string" where
  "debug_decode_error TooShort = ''TooShort''"
| "debug_decode_error (UnexpectedFunctionCode e a) =
     ''UnexpectedFunctionCode { expected: '' @ show_word e @ '', actual: '' @ show_word a @ '' }''"
| "debug_decode_error (OddByteCount n) = ''OddByteCount { byte_count: '' @ show_word n @ '' }''"
| "debug_decode_error (NotAnExceptionResponse fc) =
     ''NotAnExceptionResponse { function_code: '' @ show_word fc @ '' }''"
| "debug_decode_error (InvalidCoilValue a) = ''InvalidCoilValue { actual: '' @ show_word a @ '' }''"
| "debug_decode_error (QuantityByteCountMismatch q n) =
     ''QuantityByteCountMismatch { quantity: '' @ show_word q @ '', byte_count: '' @ show_word n @ '' }''"
| "debug_decode_error (UnexpectedMeiType e a) =
     ''UnexpectedMeiType { expected: '' @ show_word e @ '', actual: '' @ show_word a @ '' }''"
| "debug_decode_error (UnexpectedProtocolId a) = ''UnexpectedProtocolId { actual: '' @ show_word a @ '' }''"
| "debug_decode_error (InvalidAduLength n) = ''InvalidAduLength { length: '' @ show_word n @ '' }''"
| "debug_decode_error (CrcMismatch e a) =
     ''CrcMismatch { expected: '' @ show_word e @ '', actual: '' @ show_word a @ '' }''"
| "debug_decode_error (InvalidFileRecordByteCount n) =
     ''InvalidFileRecordByteCount { byte_count: '' @ show_word n @ '' }''"
| "debug_decode_error (InvalidFileRecordReferenceType a) =
     ''InvalidFileRecordReferenceType { actual: '' @ show_word a @ '' }''"
| "debug_decode_error (InvalidFileRecordSubResponseLength n) =
     ''InvalidFileRecordSubResponseLength { length: '' @ show_word n @ '' }''"

fun debug_encode_error :: "EncodeError \<Rightarrow> string" where
  "debug_encode_error (TooManyRegisters n mx) =
     ''TooManyRegisters { count: '' @ show_nat n @ '', max: '' @ show_nat mx @ '' }''"
| "debug_encode_error (OddFileRecordDataLength f r n) =
     ''OddFileRecordDataLength { file_number: '' @ show_word f @ '', record_number: '' @ show_word r
       @ '', length: '' @ show_nat n @ '' }''"

section \<open>Requests and answers\<close>

definition encode_write_request ::
    "RegisterDescription \<Rightarrow> RegisterValue \<Rightarrow> MemLayout \<Rightarrow> (bytes, string) result" where
  "encode_write_request register v layout =
     (let nm = RegisterDescription.name register; dt = RegisterDescription.data_type register in
      if register_count dt \<noteq> 1 then
        Err (''register '' @ nm @ '': '' @ debug_data_type dt @ '' needs '' @ show_word (register_count dt)
          @ '' registers, Write Single Register can't carry it'')
      else if data_type_of v \<noteq> dt then
        Err (''register '' @ nm @ '': expected a '' @ debug_data_type dt @ '' value but got a ''
          @ debug_data_type (data_type_of v) @ '' one'')
      else and_then (index (register_value_to_words v layout) 0) (\<lambda>word.
        Ok (WriteSingleRegisterRequest_encode
          \<lparr>WriteSingleRegisterRequest.register_address = RegisterDescription.address register,
           register_value = word\<rparr>)))"

definition encode_coil_write_request :: "CoilDescription \<Rightarrow> bool \<Rightarrow> bytes" where
  "encode_coil_write_request coil v =
     WriteSingleCoilRequest_encode
       \<lparr>WriteSingleCoilRequest.coil_address = CoilDescription.address coil, coil_value = v\<rparr>"

definition interpret_write_response :: "bytes \<Rightarrow> (WriteStatus, 'e) result" where
  "interpret_write_response response_pdu =
     (case ExceptionResponse_decode response_pdu of
        Panic \<Rightarrow> Panic
      | Ok ex \<Rightarrow>
          Ok (WriteFailed (''device returned Modbus exception code ''
            @ show_word (ExceptionResponse.exception_code ex)))
      | Err (NotAnExceptionResponse fc) \<Rightarrow> Ok WriteOk
      | Err e \<Rightarrow> Ok (WriteFailed (''malformed write response: '' @ debug_decode_error e)))"

definition interpret_write_file_record_response ::
    "bytes \<Rightarrow> WriteFileRecordSubRequest list \<Rightarrow> (WriteStatus, 'e) result" where
  "interpret_write_file_record_response response_pdu sent =
     (case ExceptionResponse_decode response_pdu of
        Panic \<Rightarrow> Panic
      | Ok ex \<Rightarrow>
          Ok (WriteFailed (''device returned Modbus exception code ''
            @ show_word (ExceptionResponse.exception_code ex)))
      | Err (NotAnExceptionResponse fc) \<Rightarrow>
          (case WriteFileRecordResponse_decode response_pdu of
             Panic \<Rightarrow> Panic
           | Ok response \<Rightarrow>
               if WriteFileRecordResponse.sub_requests response = sent then Ok WriteOk
               else Ok (WriteFailed ''device echoed a different file record than what was written'')
           | Err e \<Rightarrow> Ok (WriteFailed (''malformed write response: '' @ debug_decode_error e)))
      | Err e \<Rightarrow> Ok (WriteFailed (''malformed write response: '' @ debug_decode_error e)))"

section \<open>Confirmed writes\<close>

text \<open>The \<open>match connection.request(...)\<close> that ends every one of them.\<close>

definition request_and_interpret ::
    "(io_error \<Rightarrow> string) \<Rightarrow> 's link \<Rightarrow> u8 \<Rightarrow> bytes \<Rightarrow> (bytes \<Rightarrow> (WriteStatus, 'e) result) \<Rightarrow> 's
     \<Rightarrow> (WriteStatus, 'e) result \<times> 's" where
  "request_and_interpret display request uid body interpret s =
     (case request uid body s of
        (Panic, s') \<Rightarrow> (Panic, s')
      | (Err e, s') \<Rightarrow> (Ok (WriteFailed (''write failed: '' @ display e)), s')
      | (Ok response_pdu, s') \<Rightarrow> (interpret response_pdu, s'))"

definition confirm_write ::
    "(io_error \<Rightarrow> string) \<Rightarrow> 's link \<Rightarrow> RegisterDescription \<Rightarrow> RegisterValue \<Rightarrow> MemLayout \<Rightarrow> u8 \<Rightarrow> 's
     \<Rightarrow> (WriteStatus, 'e) result \<times> 's" where
  "confirm_write display request register v layout uid s =
     (case encode_write_request register v layout of
        Panic \<Rightarrow> (Panic, s)
      | Err reason \<Rightarrow> (Ok (WriteFailed reason), s)
      | Ok body \<Rightarrow> request_and_interpret display request uid body interpret_write_response s)"

definition confirm_coil_write ::
    "(io_error \<Rightarrow> string) \<Rightarrow> 's link \<Rightarrow> CoilDescription \<Rightarrow> bool \<Rightarrow> u8 \<Rightarrow> 's \<Rightarrow> (WriteStatus, 'e) result \<times> 's" where
  "confirm_coil_write display request coil v uid s =
     request_and_interpret display request uid (encode_coil_write_request coil v) interpret_write_response s"

definition confirm_write_multiple ::
    "(io_error \<Rightarrow> string) \<Rightarrow> 's link \<Rightarrow> u16 \<Rightarrow> u16 list \<Rightarrow> u8 \<Rightarrow> 's \<Rightarrow> (WriteStatus, 'e) result \<times> 's" where
  "confirm_write_multiple display request start vals uid s =
     (case WriteMultipleRegistersRequest_encode
             \<lparr>WriteMultipleRegistersRequest.starting_address = start, register_values = vals\<rparr> of
        Panic \<Rightarrow> (Panic, s)
      | Err e \<Rightarrow> (Ok (WriteFailed (''failed to build write request: '' @ debug_encode_error e)), s)
      | Ok body \<Rightarrow> request_and_interpret display request uid body interpret_write_response s)"

definition confirm_mask_write ::
    "(io_error \<Rightarrow> string) \<Rightarrow> 's link \<Rightarrow> RegisterDescription \<Rightarrow> u16 \<Rightarrow> u16 \<Rightarrow> u8 \<Rightarrow> 's
     \<Rightarrow> (WriteStatus, 'e) result \<times> 's" where
  "confirm_mask_write display request register amask omask uid s =
     request_and_interpret display request uid
       (MaskWriteRegisterRequest_encode
          \<lparr>MaskWriteRegisterRequest.reference_address = RegisterDescription.address register,
           and_mask = amask, or_mask = omask\<rparr>) interpret_write_response s"

definition confirm_file_record_write ::
    "(io_error \<Rightarrow> string) \<Rightarrow> 's link \<Rightarrow> u16 \<Rightarrow> u16 \<Rightarrow> bytes \<Rightarrow> u8 \<Rightarrow> 's \<Rightarrow> (WriteStatus, 'e) result \<times> 's" where
  "confirm_file_record_write display request f r v uid s =
     (let sub_requests = [\<lparr>WriteFileRecordSubRequest.file_number = f, record_number = r, record_data = v\<rparr>] in
      case WriteFileRecordRequest_encode \<lparr>WriteFileRecordRequest.sub_requests = sub_requests\<rparr> of
        Panic \<Rightarrow> (Panic, s)
      | Err e \<Rightarrow> (Ok (WriteFailed (''failed to build write request: '' @ debug_encode_error e)), s)
      | Ok body \<Rightarrow>
          request_and_interpret display request uid body
            (\<lambda>response_pdu. interpret_write_file_record_response response_pdu sub_requests) s)"

definition confirm_coil_write_multiple ::
    "(io_error \<Rightarrow> string) \<Rightarrow> 's link \<Rightarrow> u16 \<Rightarrow> bool list \<Rightarrow> u8 \<Rightarrow> 's \<Rightarrow> (WriteStatus, 'e) result \<times> 's" where
  "confirm_coil_write_multiple display request start vals uid s =
     (case WriteMultipleCoilsRequest_encode
             \<lparr>WriteMultipleCoilsRequest.starting_address = start, coil_values = vals\<rparr> of
        Ok body \<Rightarrow> request_and_interpret display request uid body interpret_write_response s
      | Err e \<Rightarrow> (Err e, s)
      | Panic \<Rightarrow> (Panic, s))"

end
