(* ===== verification/Transaction_Consumer.thy ===== *)
theory Transaction_Consumer
  imports Polling Write_Confirmation "HOL-Library.Multiset"
begin

text \<open>
  The client's transactions (\<open>client/src/transaction_consumer.rs\<close>): the staged values are resolved
  against the description, what is valid is written in batches of neighbours, and the outcome of
  every name is reported. A transaction is a \<open>HashMap\<close>, so its entries come in any order; a list
  with distinct names stands for one such order.
\<close>

section \<open>Batches\<close>

definition MAX_REGISTER_WRITE_BATCH_SIZE :: u16 where [simp]: "MAX_REGISTER_WRITE_BATCH_SIZE = 123"
definition MAX_COIL_WRITE_BATCH_SIZE :: u16 where [simp]: "MAX_COIL_WRITE_BATCH_SIZE = 1968"

definition build_register_write_batches ::
    "(RegisterDescription \<times> RegisterValue) list \<Rightarrow> ((RegisterDescription \<times> RegisterValue) Batch list, 'e) result" where
  "build_register_write_batches xs =
     build_batches xs (\<lambda>(r, _). RegisterDescription.address r)
       (\<lambda>(r, _). register_count (RegisterDescription.data_type r)) MAX_REGISTER_WRITE_BATCH_SIZE"

definition build_coil_write_batches ::
    "(CoilDescription \<times> bool) list \<Rightarrow> ((CoilDescription \<times> bool) Batch list, 'e) result" where
  "build_coil_write_batches xs =
     build_batches xs (\<lambda>(c, _). CoilDescription.address c) (\<lambda>_. 1) MAX_COIL_WRITE_BATCH_SIZE"

section \<open>Resolving a transaction\<close>

text \<open>The configuration of a machine; the report behind its mutex is state of its own.\<close>

record MachineTransactionConfig =
  registers :: "RegisterDescription list"
  coils :: "CoilDescription list"
  file_records :: "FileRecordDescription list"
  mem_layout :: MemLayout
  unit_id :: u8

text \<open>The four lists the first loop fills, and the report.\<close>

record Resolution =
  register_entries :: "(RegisterDescription \<times> RegisterValue) list"
  coil_entries :: "(CoilDescription \<times> bool) list"
  masked_register_entries :: "(RegisterDescription \<times> u16 \<times> u16) list"
  file_record_entries :: "(string \<times> u16 \<times> u16 \<times> bytes) list"
  report :: WriteReport

definition fail_entry :: "string \<Rightarrow> string \<Rightarrow> Resolution \<Rightarrow> Resolution" where
  "fail_entry nm reason res = res\<lparr>Resolution.report := WriteReport_set nm (WriteFailed reason) (Resolution.report res)\<rparr>"

fun resolve_entry :: "MachineTransactionConfig \<Rightarrow> string \<times> StagedValue \<Rightarrow> Resolution \<Rightarrow> Resolution" where
  "resolve_entry config (nm, StagedRegister v) res =
     (case List.find (\<lambda>r. RegisterDescription.name r = nm) (MachineTransactionConfig.registers config) of
        Some r \<Rightarrow>
          if RegisterDescription.data_type r = data_type_of v
          then res\<lparr>register_entries := register_entries res @ [(r, v)]\<rparr>
          else fail_entry nm (''register '' @ nm @ '': expected a '' @ debug_data_type (RegisterDescription.data_type r)
                 @ '' value but got a '' @ debug_data_type (data_type_of v) @ '' one'') res
      | None \<Rightarrow> fail_entry nm (''unknown register: '' @ nm) res)"
| "resolve_entry config (nm, StagedCoil (CoilValue b)) res =
     (case List.find (\<lambda>c. CoilDescription.name c = nm) (MachineTransactionConfig.coils config) of
        Some c \<Rightarrow> res\<lparr>coil_entries := coil_entries res @ [(c, b)]\<rparr>
      | None \<Rightarrow> fail_entry nm (''unknown coil: '' @ nm) res)"
| "resolve_entry config (nm, StagedDiscreteInput v) res =
     fail_entry nm (''discrete input '' @ nm @ '': never writable via Modbus'') res"
| "resolve_entry config (nm, StagedInputRegister v) res =
     fail_entry nm (''input register '' @ nm @ '': never writable via Modbus'') res"
| "resolve_entry config (nm, StagedFileRecord f rn v) res =
     (case List.find (\<lambda>d. FileRecordDescription.file_number d = f \<and> FileRecordDescription.record_number d = rn)
             (MachineTransactionConfig.file_records config) of
        Some d \<Rightarrow>
          if length v = unat (FileRecordDescription.record_length d) * 2
          then res\<lparr>file_record_entries := file_record_entries res @ [(nm, f, rn, v)]\<rparr>
          else fail_entry nm (''file record '' @ show_word f @ '':'' @ show_word rn @ '': expected ''
                 @ show_nat (unat (FileRecordDescription.record_length d) * 2) @ '' bytes but got ''
                 @ show_nat (length v)) res
      | None \<Rightarrow> fail_entry nm (''unknown file record: '' @ show_word f @ '':'' @ show_word rn) res)"
| "resolve_entry config (nm, MaskedRegister amask omask) res =
     (case List.find (\<lambda>r. RegisterDescription.name r = nm) (MachineTransactionConfig.registers config) of
        Some r \<Rightarrow>
          if register_count (RegisterDescription.data_type r) = 1
          then res\<lparr>masked_register_entries := masked_register_entries res @ [(r, amask, omask)]\<rparr>
          else fail_entry nm (''register '' @ nm @ '': '' @ debug_data_type (RegisterDescription.data_type r)
                 @ '' needs '' @ show_word (register_count (RegisterDescription.data_type r))
                 @ '' registers, Mask Write Register can only target a single register'') res
      | None \<Rightarrow> fail_entry nm (''unknown register: '' @ nm) res)"

definition resolve_transaction ::
    "MachineTransactionConfig \<Rightarrow> (string \<times> StagedValue) list \<Rightarrow> WriteReport \<Rightarrow> Resolution" where
  "resolve_transaction config transaction rep =
     fold (resolve_entry config) transaction
       \<lparr>register_entries = [], coil_entries = [], masked_register_entries = [], file_record_entries = [],
        report = rep\<rparr>"

section \<open>Writing\<close>

text \<open>The bodies of the four loops, on the connection and the report.\<close>

definition report_all :: "string list \<Rightarrow> WriteStatus \<Rightarrow> WriteReport \<Rightarrow> WriteReport" where
  "report_all nms status rep = fold (\<lambda>nm. WriteReport_set nm status) nms rep"

definition reporting ::
    "string list \<Rightarrow> ('s \<Rightarrow> (WriteStatus, 'e) result \<times> 's) \<Rightarrow> 's \<times> WriteReport \<Rightarrow> ('s \<times> WriteReport, 'e) result" where
  "reporting nms confirm st =
     (let (r, s') = confirm (fst st) in and_then r (\<lambda>status. Ok (s', report_all nms status (snd st))))"

definition write_register_batch ::
    "(io_error \<Rightarrow> string) \<Rightarrow> 's link \<Rightarrow> MachineTransactionConfig \<Rightarrow> (RegisterDescription \<times> RegisterValue) Batch
     \<Rightarrow> 's \<times> WriteReport \<Rightarrow> ('s \<times> WriteReport, 'e) result" where
  "write_register_batch display request config batch =
     (let layout = MachineTransactionConfig.mem_layout config; uid = MachineTransactionConfig.unit_id config in
      reporting (map (\<lambda>(r, _). RegisterDescription.name r) (items batch))
        (\<lambda>s. if Batch.quantity batch = 1 then
               (case items batch of
                  [] \<Rightarrow> (Panic, s)
                | (r, v) # _ \<Rightarrow> confirm_write display request r v layout uid s)
             else
               let vals = concat (map (\<lambda>(_, v). register_value_to_words v layout) (items batch)) in
               confirm_write_multiple display request (Batch.starting_address batch) vals uid s))"

definition write_coil_batch ::
    "(io_error \<Rightarrow> string) \<Rightarrow> 's link \<Rightarrow> MachineTransactionConfig \<Rightarrow> (CoilDescription \<times> bool) Batch
     \<Rightarrow> 's \<times> WriteReport \<Rightarrow> ('s \<times> WriteReport, 'e) result" where
  "write_coil_batch display request config batch =
     (let uid = MachineTransactionConfig.unit_id config in
      reporting (map (\<lambda>(c, _). CoilDescription.name c) (items batch))
        (\<lambda>s. case items batch of
               [(c, v)] \<Rightarrow> confirm_coil_write display request c v uid s
             | _ \<Rightarrow> confirm_coil_write_multiple display request (Batch.starting_address batch)
                      (map snd (items batch)) uid s))"

definition write_mask ::
    "(io_error \<Rightarrow> string) \<Rightarrow> 's link \<Rightarrow> MachineTransactionConfig \<Rightarrow> RegisterDescription \<times> u16 \<times> u16
     \<Rightarrow> 's \<times> WriteReport \<Rightarrow> ('s \<times> WriteReport, 'e) result" where
  "write_mask display request config entry =
     (case entry of (r, amask, omask) \<Rightarrow>
        reporting [RegisterDescription.name r]
          (confirm_mask_write display request r amask omask (MachineTransactionConfig.unit_id config)))"

definition write_file_record_entry ::
    "(io_error \<Rightarrow> string) \<Rightarrow> 's link \<Rightarrow> MachineTransactionConfig \<Rightarrow> string \<times> u16 \<times> u16 \<times> bytes
     \<Rightarrow> 's \<times> WriteReport \<Rightarrow> ('s \<times> WriteReport, 'e) result" where
  "write_file_record_entry display request config entry =
     (case entry of (nm, f, rn, v) \<Rightarrow>
        reporting [nm] (confirm_file_record_write display request f rn v (MachineTransactionConfig.unit_id config)))"

definition process_transaction ::
    "(io_error \<Rightarrow> string) \<Rightarrow> 's link \<Rightarrow> MachineTransactionConfig \<Rightarrow> (string \<times> StagedValue) list
     \<Rightarrow> 's \<times> WriteReport \<Rightarrow> ('s \<times> WriteReport, 'e) result" where
  "process_transaction display request config transaction st =
     (let res = resolve_transaction config transaction (snd st) in
      and_then (build_register_write_batches (register_entries res)) (\<lambda>register_batches.
      and_then (for_each (write_register_batch display request config) register_batches
                  (fst st, Resolution.report res)) (\<lambda>st.
      and_then (build_coil_write_batches (coil_entries res)) (\<lambda>coil_batches.
      and_then (for_each (write_coil_batch display request config) coil_batches st) (\<lambda>st.
      and_then (for_each (write_mask display request config) (masked_register_entries res) st) (\<lambda>st.
      for_each (write_file_record_entry display request config) (file_record_entries res) st))))))"

text \<open>The consumer, on the transactions it receives: the machines by name, and their reports.\<close>

definition run_transaction_consumer ::
    "(io_error \<Rightarrow> string) \<Rightarrow> 's link \<Rightarrow> (string \<rightharpoonup> MachineTransactionConfig)
     \<Rightarrow> (string \<times> (string \<times> StagedValue) list) list \<Rightarrow> 's \<times> (string \<Rightarrow> WriteReport)
     \<Rightarrow> ('s \<times> (string \<Rightarrow> WriteReport), 'e) result" where
  "run_transaction_consumer display request configs received =
     for_each (\<lambda>(machine_name, transaction) (s, reports).
       case configs machine_name of
         None \<Rightarrow> Ok (s, reports)
       | Some config \<Rightarrow>
           and_then (process_transaction display request config transaction (s, reports machine_name))
             (\<lambda>(s', rep). Ok (s', reports(machine_name := rep)))) received"

section \<open>Reports\<close>

definition entry_names :: "Resolution \<Rightarrow> string list" where
  "entry_names res = map (\<lambda>(r, _). RegisterDescription.name r) (register_entries res)
     @ map (\<lambda>(c, _). CoilDescription.name c) (coil_entries res)
     @ map (\<lambda>(r, _). RegisterDescription.name r) (masked_register_entries res)
     @ map fst (file_record_entries res)"

definition set_all :: "(string \<times> WriteStatus) list \<Rightarrow> WriteReport \<Rightarrow> WriteReport" where
  "set_all outcomes rep = fold (\<lambda>(nm, status). WriteReport_set nm status) outcomes rep"

lemma set_all_simps [simp]:
  "set_all [] rep = rep" "set_all (o1 @ o2) rep = set_all o2 (set_all o1 rep)"
  "set_all [(nm, status)] rep = WriteReport_set nm status rep"
  by (simp_all add: set_all_def)

lemma report_all_set_all: "report_all nms status rep = set_all (map (\<lambda>nm. (nm, status)) nms) rep"
  by (induction nms arbitrary: rep) (simp_all add: report_all_def set_all_def)

text \<open>An entry is either reported as failed at once or put on one of the lists.\<close>

lemma resolve_entry_names:
  obtains fails where "Resolution.report (resolve_entry config (nm, v) res) = set_all fails (Resolution.report res)"
    "mset (map fst fails) + mset (entry_names (resolve_entry config (nm, v) res)) = {#nm#} + mset (entry_names res)"
proof -
  let ?res = "resolve_entry config (nm, v) res"
  have "(\<exists>reason. ?res = fail_entry nm reason res)
      \<or> Resolution.report ?res = Resolution.report res \<and> mset (entry_names ?res) = {#nm#} + mset (entry_names res)"
    by (cases "(config, (nm, v), res)" rule: resolve_entry.cases)
       (auto simp: entry_names_def split: option.splits dest!: find_Some_set)
  then show thesis
  proof
    assume "\<exists>reason. ?res = fail_entry nm reason res"
    then obtain reason where "?res = fail_entry nm reason res" by blast
    then show thesis
      by (intro that [of "[(nm, WriteFailed reason)]"]) (simp_all add: fail_entry_def entry_names_def)
  qed (use that [of "[]"] in simp)
qed

lemma resolve_names:
  "\<exists>fails. Resolution.report (fold (resolve_entry config) transaction res) = set_all fails (Resolution.report res)
     \<and> mset (map fst fails) + mset (entry_names (fold (resolve_entry config) transaction res))
         = mset (map fst transaction) + mset (entry_names res)"
proof (induction transaction arbitrary: res)
  case Nil
  then show ?case by (intro exI [of _ "[]"]) simp
next
  case (Cons entry transaction)
  obtain nm v where entry: "entry = (nm, v)" by fastforce
  obtain f1 where f1: "Resolution.report (resolve_entry config entry res) = set_all f1 (Resolution.report res)"
    "mset (map fst f1) + mset (entry_names (resolve_entry config entry res)) = {#nm#} + mset (entry_names res)"
    unfolding entry by (rule resolve_entry_names)
  from Cons [of "resolve_entry config entry res"] obtain f2 where f2:
    "Resolution.report (fold (resolve_entry config) transaction (resolve_entry config entry res))
       = set_all f2 (Resolution.report (resolve_entry config entry res))"
    "mset (map fst f2) + mset (entry_names (fold (resolve_entry config) transaction (resolve_entry config entry res)))
       = mset (map fst transaction) + mset (entry_names (resolve_entry config entry res))" by blast
  let ?E = "\<lambda>es res. mset (entry_names (fold (resolve_entry config) es res))"
  have "mset (map fst f1) + (mset (map fst f2) + ?E (entry # transaction) res)
      = mset (map fst transaction) + (mset (map fst f1) + mset (entry_names (resolve_entry config entry res)))"
    using f2(2) by (simp add: add.left_commute)
  also have "\<dots> = mset (map fst (entry # transaction)) + mset (entry_names res)"
    unfolding f1(2) using entry by simp
  finally show ?case
    using f1(1) f2(1) by (intro exI [of _ "f1 @ f2"]) (simp add: add.assoc)
qed

lemma for_each_reports:
  assumes "\<And>x s rep. x \<in> set xs \<Longrightarrow>
      \<exists>s' status. f x (s, rep) = (Ok (s', report_all (names x) status rep) :: ('s \<times> WriteReport, 'e) result)"
  shows "\<exists>s' outcomes. for_each f xs (s, rep) = (Ok (s', set_all outcomes rep) :: ('s \<times> WriteReport, 'e) result)
     \<and> map fst outcomes = concat (map names xs)"
  using assms
proof (induction xs arbitrary: s rep)
  case Nil
  then show ?case by (auto intro: exI [of _ "[]"])
next
  case (Cons x xs)
  obtain s1 status where 1: "f x (s, rep) = (Ok (s1, report_all (names x) status rep) :: ('s \<times> WriteReport, 'e) result)"
    using Cons.prems [of x s rep] by auto
  obtain s2 outcomes where 2: "for_each f xs (s1, report_all (names x) status rep)
      = (Ok (s2, set_all outcomes (report_all (names x) status rep)) :: ('s \<times> WriteReport, 'e) result)"
    "map fst outcomes = concat (map names xs)"
    using Cons.IH [of s1 "report_all (names x) status rep"] Cons.prems by auto
  show ?case
    using 1 2 by (intro exI [of _ s2] exI [of _ "map (\<lambda>nm. (nm, status)) (names x) @ outcomes"])
      (simp add: report_all_set_all comp_def)
qed

lemma mset_batched:
  assumes "concat (map items bs) = sort_key k xs"
  shows "mset (concat (map (\<lambda>b. map f (items b)) bs)) = mset (map f xs)"
proof -
  have "concat (map (\<lambda>b. map f (items b)) bs) = map f (concat (map items bs))"
    by (simp add: map_concat comp_def)
  then show ?thesis by (simp add: assms)
qed

lemma register_write_batches:
  obtains bs where "build_register_write_batches xs = (Ok bs :: ((RegisterDescription \<times> RegisterValue) Batch list, 'e) result)"
    "concat (map items bs) = sort_key (\<lambda>(r, _). RegisterDescription.address r) xs"
    "\<And>b. b \<in> set bs \<Longrightarrow> batch_ok (\<lambda>(r, _). RegisterDescription.address r)
       (\<lambda>(r, _). register_count (RegisterDescription.data_type r)) 123 b"
    "\<And>b. b \<in> set bs \<Longrightarrow> set (items b) \<subseteq> set xs"
proof (rule build_batches_ok [where ?'e = 'e and xs = xs and mx = 123 and address_of = "\<lambda>(r, _). RegisterDescription.address r"
    and size_of = "\<lambda>(r, _). register_count (RegisterDescription.data_type r)"])
qed (auto simp: build_register_write_batches_def register_count_fits_writes intro: that)

lemma coil_write_batches:
  obtains bs where "build_coil_write_batches xs = (Ok bs :: ((CoilDescription \<times> bool) Batch list, 'e) result)"
    "concat (map items bs) = sort_key (\<lambda>(c, _). CoilDescription.address c) xs"
    "\<And>b. b \<in> set bs \<Longrightarrow> batch_ok (\<lambda>(c, _). CoilDescription.address c) (\<lambda>_. 1) 1968 b"
    "\<And>b. b \<in> set bs \<Longrightarrow> set (items b) \<subseteq> set xs"
proof (rule build_batches_ok [where ?'e = 'e and xs = xs and mx = 1968 and address_of = "\<lambda>(c, _). CoilDescription.address c"
    and size_of = "\<lambda>_. 1"])
qed (auto simp: build_coil_write_batches_def intro: that)

context steady_link
begin

lemma request_and_interpret_answers:
  assumes "\<And>body. \<exists>status. interpret body = (Ok status :: (WriteStatus, 'e) result)"
  shows "\<exists>status s'. request_and_interpret display request uid body interpret s
     = (Ok status :: (WriteStatus, 'e) result, s')"
proof -
  obtain r s' where r: "request uid body s = (r, s')" by fastforce
  with steady [of uid body s] assms show ?thesis
    by (cases r) (auto simp: request_and_interpret_def)
qed

lemma interpret_answers:
  "\<exists>status. interpret_write_response body = (Ok status :: (WriteStatus, 'e) result)"
  "\<exists>status. interpret_write_file_record_response body sent = (Ok status :: (WriteStatus, 'e) result)"
  using decoder_totality pdu_decoders_not_Panic [of body]
  by (auto simp: interpret_write_response_def interpret_write_file_record_response_def
      split: result.split DecodeError.split)

lemma reporting_answers:
  assumes "\<exists>status s'. confirm s = (Ok status :: (WriteStatus, 'e) result, s')"
  shows "\<exists>s' status. reporting nms confirm (s, rep) = (Ok (s', report_all nms status rep) :: ('s \<times> WriteReport, 'e) result)"
  using assms by (auto simp: reporting_def)

lemma confirm_write_answers:
  "\<exists>status s'. confirm_write display request r v layout uid s = (Ok status :: (WriteStatus, 'e) result, s')"
proof -
  have "encode_write_request r v layout \<noteq> Panic"
    by (auto simp: encode_write_request_def Let_def and_then_eq_Panic_iff index_def)
  then show ?thesis
    using request_and_interpret_answers [OF interpret_answers(1) [where ?'e = 'e]]
    by (cases "encode_write_request r v layout") (auto simp: confirm_write_def)
qed

lemma confirm_multiple_answers:
  "\<exists>status s'. confirm_write_multiple display request a vals uid s = (Ok status :: (WriteStatus, 'e) result, s')"
  "\<exists>status s'. confirm_coil_write_multiple display request a bs uid s = (Ok status :: (WriteStatus, 'e) result, s')"
  "\<exists>status s'. confirm_file_record_write display request f rn v uid s = (Ok status :: (WriteStatus, 'e) result, s')"
proof -
  show "\<exists>status s'. confirm_write_multiple display request a vals uid s = (Ok status :: (WriteStatus, 'e) result, s')"
    using request_and_interpret_answers [OF interpret_answers(1) [where ?'e = 'e]]
    by (auto simp: confirm_write_multiple_def WriteMultipleRegistersRequest_encode_def Let_def)
  show "\<exists>status s'. confirm_coil_write_multiple display request a bs uid s = (Ok status :: (WriteStatus, 'e) result, s')"
    using request_and_interpret_answers [OF interpret_answers(1) [where ?'e = 'e]]
    by (auto simp: confirm_coil_write_multiple_def WriteMultipleCoilsRequest_encode_eq Let_def)
  show "\<exists>status s'. confirm_file_record_write display request f rn v uid s = (Ok status :: (WriteStatus, 'e) result, s')"
    using request_and_interpret_answers [OF interpret_answers(2) [where ?'e = 'e]]
    by (auto simp: confirm_file_record_write_def Let_def WriteFileRecordRequest_encode_def encode_write_file_record_def
        split: result.split)
qed

lemma write_batches_answer:
  "items rb \<noteq> [] \<Longrightarrow> \<exists>s' status. write_register_batch display request config rb (s, rep)
     = (Ok (s', report_all (map (\<lambda>(r, _). RegisterDescription.name r) (items rb)) status rep) :: ('s \<times> WriteReport, 'e) result)"
  "\<exists>s' status. write_coil_batch display request config cb (s, rep)
     = (Ok (s', report_all (map (\<lambda>(c, _). CoilDescription.name c) (items cb)) status rep) :: ('s \<times> WriteReport, 'e) result)"
proof -
  show "\<exists>s' status. write_register_batch display request config rb (s, rep)
      = (Ok (s', report_all (map (\<lambda>(r, _). RegisterDescription.name r) (items rb)) status rep) :: ('s \<times> WriteReport, 'e) result)"
    if "items rb \<noteq> []"
    unfolding write_register_batch_def Let_def using that
    by (intro reporting_answers) (auto simp: confirm_write_answers confirm_multiple_answers split: list.split)
  show "\<exists>s' status. write_coil_batch display request config cb (s, rep)
      = (Ok (s', report_all (map (\<lambda>(c, _). CoilDescription.name c) (items cb)) status rep) :: ('s \<times> WriteReport, 'e) result)"
    unfolding write_coil_batch_def Let_def
    by (intro reporting_answers)
       (auto simp: confirm_multiple_answers confirm_coil_write_def
          request_and_interpret_answers [OF interpret_answers(1)] split: list.split)
qed

lemma single_writes_answer:
  "\<exists>s' status. write_mask display request config m (s, rep)
     = (Ok (s', report_all [RegisterDescription.name (fst m)] status rep) :: ('s \<times> WriteReport, 'e) result)"
  "\<exists>s' status. write_file_record_entry display request config f (s, rep)
     = (Ok (s', report_all [fst f] status rep) :: ('s \<times> WriteReport, 'e) result)"
  unfolding write_mask_def write_file_record_entry_def confirm_mask_write_def
  by (cases m, simp, intro reporting_answers request_and_interpret_answers interpret_answers)
     (cases f, simp, intro reporting_answers confirm_multiple_answers)

lemma process_transaction_reports:
  "\<exists>s' outcomes. process_transaction display request config transaction (s, rep)
      = (Ok (s', set_all outcomes rep) :: ('s \<times> WriteReport, 'e) result)
     \<and> mset (map fst outcomes) = mset (map fst transaction)"
proof -
  define res where "res = resolve_transaction config transaction rep"
  obtain fails where fails: "Resolution.report res = set_all fails rep"
    "mset (map fst fails) + mset (entry_names res) = mset (map fst transaction)"
    using resolve_names [of config transaction "\<lparr>register_entries = [], coil_entries = [],
      masked_register_entries = [], file_record_entries = [], report = rep\<rparr>"]
    by (auto simp: res_def resolve_transaction_def entry_names_def)
  obtain rbs where rbs: "build_register_write_batches (register_entries res)
        = (Ok rbs :: ((RegisterDescription \<times> RegisterValue) Batch list, 'e) result)"
      "concat (map items rbs) = sort_key (\<lambda>(r, _). RegisterDescription.address r) (register_entries res)"
      "\<And>b. b \<in> set rbs \<Longrightarrow> items b \<noteq> []"
    using register_write_batches [where ?'e = 'e, of "register_entries res"]
    by (metis (no_types, lifting) batch_ok_def fits_def)
  obtain cbs where cbs: "build_coil_write_batches (coil_entries res)
        = (Ok cbs :: ((CoilDescription \<times> bool) Batch list, 'e) result)"
      "concat (map items cbs) = sort_key (\<lambda>(c, _). CoilDescription.address c) (coil_entries res)"
    using coil_write_batches [where ?'e = 'e, of "coil_entries res"] by metis
  obtain s1 o1 where 1: "for_each (write_register_batch display request config) rbs (s, set_all fails rep)
      = (Ok (s1, set_all o1 (set_all fails rep)) :: ('s \<times> WriteReport, 'e) result)"
    "map fst o1 = concat (map (\<lambda>b. map (\<lambda>(r, _). RegisterDescription.name r) (items b)) rbs)"
    using for_each_reports [where ?'e = 'e, of rbs "write_register_batch display request config"]
      write_batches_answer(1) [where ?'e = 'e] rbs(3) by meson
  obtain s2 o2 where 2: "for_each (write_coil_batch display request config) cbs (s1, set_all o1 (set_all fails rep))
      = (Ok (s2, set_all o2 (set_all o1 (set_all fails rep))) :: ('s \<times> WriteReport, 'e) result)"
    "map fst o2 = concat (map (\<lambda>b. map (\<lambda>(c, _). CoilDescription.name c) (items b)) cbs)"
    using for_each_reports [where ?'e = 'e, of cbs "write_coil_batch display request config"]
      write_batches_answer(2) [where ?'e = 'e] by meson
  obtain s3 o3 where 3: "for_each (write_mask display request config) (masked_register_entries res)
      (s2, set_all o2 (set_all o1 (set_all fails rep)))
      = (Ok (s3, set_all o3 (set_all o2 (set_all o1 (set_all fails rep)))) :: ('s \<times> WriteReport, 'e) result)"
    "map fst o3 = concat (map (\<lambda>m. [RegisterDescription.name (fst m)]) (masked_register_entries res))"
    using for_each_reports [where ?'e = 'e, of "masked_register_entries res" "write_mask display request config"]
      single_writes_answer(1) [where ?'e = 'e] by meson
  obtain s4 o4 where 4: "for_each (write_file_record_entry display request config) (file_record_entries res)
      (s3, set_all o3 (set_all o2 (set_all o1 (set_all fails rep))))
      = (Ok (s4, set_all o4 (set_all o3 (set_all o2 (set_all o1 (set_all fails rep))))) :: ('s \<times> WriteReport, 'e) result)"
    "map fst o4 = concat (map (\<lambda>f. [fst f]) (file_record_entries res))"
    using for_each_reports [where ?'e = 'e, of "file_record_entries res" "write_file_record_entry display request config"]
      single_writes_answer(2) [where ?'e = 'e] by meson
  have "mset (map fst o1) + mset (map fst o2) + mset (map fst o3) + mset (map fst o4) = mset (entry_names res)"
    unfolding 1(2) 2(2) 3(2) 4(2) mset_batched [OF rbs(2)] mset_batched [OF cbs(2)]
    by (simp add: entry_names_def comp_def case_prod_unfold)
  with fails show ?thesis
    using rbs(1) cbs(1) 1(1) 2(1) 3(1) 4(1)
    by (intro exI [of _ s4] exI [of _ "fails @ o1 @ o2 @ o3 @ o4"])
       (simp add: process_transaction_def Let_def add.assoc flip: res_def)
qed

end

text \<open>
  C33: Every staged name is answered for. Over a connection of any kind and whatever the device does, a
  transaction is processed to its end without a panic, and the report is updated exactly once for
  every name in it, valid or not, and for no other name.
\<close>

theorem every_staged_name_is_reported_once:
  "\<exists>s' outcomes. process_transaction display connection_request config transaction (s, rep)
      = (Ok (s', set_all outcomes rep) :: (Connection \<times> WriteReport, 'e) result)
     \<and> mset (map fst outcomes) = mset (map fst transaction)"
  by (rule wire.process_transaction_reports)

end
