(* ===== verification/Polling_Mirror.thy ===== *)
theory Polling_Mirror
  imports Polling Server
begin

text \<open>
  The client's polling task against the server's handlers: one turn leaves the client's stores equal
  to the server's, through the batches, the codecs and the handlers' walks over the descriptions.
\<close>

section \<open>The server of this repository\<close>

text \<open>A request the machine answers without changing.\<close>

lemma loopback_read:
  assumes "is_enabled opts fc" and "fc \<noteq> 43" and "ms uid = Some m"
    and "handle_machine_request fc (fc # rest) m = (Ok reply :: (bytes, io_error) result, m)"
    and "fc = 20 \<Longrightarrow> bulk_transfer_request 20 opts (20 # rest) = (Ok None :: (ReadFileRecordRequest option, io_error) result)"
  shows "loopback opts src bulk uid (fc # rest) ms = (Ok reply, ms)"
proof -
  have "bulk_transfer_request fc opts (fc # rest) = (Ok None :: (ReadFileRecordRequest option, io_error) result)"
    using assms(5) by (cases "fc = 20") (simp_all add: bulk_transfer_request_def)
  moreover have "ms(uid \<mapsto> m) = ms" using assms(3) by (simp add: fun_upd_idem)
  ultimately show ?thesis using assms(1-4) by (simp add: loopback_def handle_request_def)
qed

lemma find_key: "distinct (map f xs) \<Longrightarrow> x \<in> set xs \<Longrightarrow> f x = a \<Longrightarrow> List.find (\<lambda>y. f y = a) xs = Some x"
  by (induction xs) auto

lemma tiled_run:
  assumes "tiled address_of (\<lambda>r. register_count (type_of r)) a xs" and "set xs \<subseteq> set rs"
    and "distinct (map address_of rs)"
  shows "register_run address_of type_of (\<lambda>_. True) rs a xs"
  using assms
proof (induction xs arbitrary: a)
  case (Cons x xs)
  have "List.find (\<lambda>r. address_of r = a) rs = Some x"
    using Cons.prems by (intro find_key) auto
  with Cons show ?case by simp
qed simp

lemma store_words_stored:
  assumes "\<And>r. data_type_of (val r) = type_of r"
  shows "store_words type_of set_value layout (pre @ concat (map (\<lambda>r. register_value_to_words (val r) layout) rs))
      (length pre) rs st = (Ok (fold (\<lambda>r. set_value r (val r)) rs st) :: ('st, 'e) result)"
proof (induction rs arbitrary: pre st)
  case (Cons r rs)
  have "register_value_from_words (type_of r) (register_value_to_words (val r) layout) layout
      = (Ok (Some (val r)) :: (RegisterValue option, 'e) result)"
    using register_value_from_to_words [where ?'a = 'e, of "val r" layout] assms by simp
  moreover have "length (register_value_to_words (val r) layout) = unat (register_count (type_of r))"
    using assms by simp
  ultimately show ?case
    using Cons.IH [of "pre @ register_value_to_words (val r) layout"] by (simp add: Let_def)
qed simp

lemma read_bits_tiled:
  assumes "tiled address_of (\<lambda>_. 1) (start + of_nat k) xs" and "set xs \<subseteq> set bs" and "distinct (map address_of bs)"
  shows "read_bits address_of name_of bs get start [k..<k + length xs]
      = Some (map (\<lambda>x. case get (name_of x) of Some (CoilValue v) \<Rightarrow> v | None \<Rightarrow> False) xs)"
  using assms
proof (induction xs arbitrary: k)
  case (Cons x xs)
  have "List.find (\<lambda>b. address_of b = start + of_nat k) bs = Some x"
    using Cons.prems by (intro find_key) auto
  then show ?case
    using Cons.IH [of "Suc k"] Cons.prems
    by (simp add: upt_conv_Cons add.assoc add.commute [of "1 :: u16"] del: upt_Suc)
qed simp

text \<open>What the server would show for a described point.\<close>

definition shown_register :: "ServerMachineState \<Rightarrow> RegisterDescription \<Rightarrow> RegisterValue" where
  "shown_register m r = current_value (RegisterStore_get (store m)) (RegisterDescription.name r)
     (RegisterDescription.data_type r)"

definition shown_input_register :: "ServerMachineState \<Rightarrow> InputRegisterDescription \<Rightarrow> RegisterValue" where
  "shown_input_register m r = current_value (InputRegisterStore_get (input_register_store m))
     (InputRegisterDescription.name r) (InputRegisterDescription.data_type r)"

definition shown_coil :: "ServerMachineState \<Rightarrow> CoilDescription \<Rightarrow> bool" where
  "shown_coil m c = (case CoilStore_get (coil_store m) (CoilDescription.name c) of
     Some (CoilValue v) \<Rightarrow> v | None \<Rightarrow> False)"

definition shown_discrete_input :: "ServerMachineState \<Rightarrow> DiscreteInputDescription \<Rightarrow> bool" where
  "shown_discrete_input m d =
     (case DiscreteInputStore_get (discrete_input_store m) (DiscreteInputDescription.name d) of
        Some (CoilValue v) \<Rightarrow> v | None \<Rightarrow> False)"

lemma batch_okD:
  assumes "batch_ok address_of size_of mx b"
  shows "tiled address_of size_of (Batch.starting_address b) (items b)"
    and "unat (Batch.quantity b) = total_size size_of (items b)" and "unat (Batch.quantity b) \<le> unat mx"
  using assms by (simp_all add: batch_ok_def fits_def)

lemma total_size_width: "total_size (\<lambda>r. register_count (type_of r)) xs = run_width type_of xs"
  by (simp add: total_size_def run_width_def)

lemma poll_register_batch_served:
  assumes "is_enabled opts 3" and "connection p uid = Some m"
    and "batch_ok RegisterDescription.address (\<lambda>r. register_count (RegisterDescription.data_type r)) 125 b"
    and "set (items b) \<subseteq> set (ServerMachineState.registers m)"
    and "distinct (map RegisterDescription.address (ServerMachineState.registers m))"
  shows "poll_register_batch (loopback opts src bulk) (ServerMachineState.mem_layout m) uid b p
     = (Ok (p\<lparr>mirror := fold (\<lambda>r. set_register r (shown_register m r)) (items b) (mirror p)\<rparr>) :: (machines Poller, 'e) result)"
proof -
  let ?layout = "ServerMachineState.mem_layout m"
  let ?words = "concat (map (\<lambda>r. register_value_to_words (shown_register m r) ?layout) (items b))"
  let ?request = "\<lparr>ReadHoldingRegistersRequest.starting_address = Batch.starting_address b,
      quantity = Batch.quantity b\<rparr>"
  let ?reply = "ReadHoldingRegistersResponse_encode \<lparr>ReadHoldingRegistersResponse.register_values = ?words\<rparr>"
  note ok = batch_okD [OF assms(3)]
  have run: "readable_run (ServerMachineState.registers m) (Batch.starting_address b) (items b)"
    "width (items b) = unat (Batch.quantity b)"
    using tiled_run [OF ok(1) assms(4,5)] ok(2) by (simp_all add: total_size_width)
  obtain rest where pdu: "ReadHoldingRegistersRequest_encode ?request = 3 # rest"
    by (simp add: ReadHoldingRegistersRequest_encode_def encode_address_and_quantity_def)
  have "handle_read (3 # rest) (ServerMachineState.registers m) (store m) ?layout = (Ok ?reply :: (bytes, io_error) result)"
    using handle_read_run(1) [OF request_round_trips(1) run, where st = "store m" and layout = ?layout]
    by (simp add: shown_register_def flip: pdu)
  then have "loopback opts src bulk uid (3 # rest) (connection p) = (Ok ?reply, connection p)"
    using assms(1,2) by (intro loopback_read) (simp_all add: handle_machine_request_def Let_def)
  moreover have len: "length ?words = unat (Batch.quantity b)"
    using run(2) by (simp add: length_concat comp_def shown_register_def run_width_def)
  moreover from this ok(3) have "ReadHoldingRegistersResponse_decode ?reply
      = Ok \<lparr>ReadHoldingRegistersResponse.register_values = ?words\<rparr>"
    using ReadHoldingRegistersResponse_codec.round_trip [of "\<lparr>ReadHoldingRegistersResponse.register_values = ?words\<rparr>"]
    by simp
  moreover have "store_words RegisterDescription.data_type set_register ?layout ?words 0 (items b) (mirror p)
      = (Ok (fold (\<lambda>r. set_register r (shown_register m r)) (items b) (mirror p)) :: (MachineStores, 'e) result)"
    using store_words_stored [where ?'e = 'e and pre = "[]" and val = "shown_register m"
        and type_of = RegisterDescription.data_type]
    by (simp add: shown_register_def)
  ultimately show ?thesis
    by (simp add: poll_register_batch_def read_once_def pdu)
qed

lemma poll_input_register_batch_served:
  assumes "is_enabled opts 4" and "connection p uid = Some m"
    and "batch_ok InputRegisterDescription.address (\<lambda>r. register_count (InputRegisterDescription.data_type r)) 125 b"
    and "set (items b) \<subseteq> set (ServerMachineState.input_registers m)"
    and "distinct (map InputRegisterDescription.address (ServerMachineState.input_registers m))"
  shows "poll_input_register_batch (loopback opts src bulk) (ServerMachineState.input_register_mem_layout m) uid b p
     = (Ok (p\<lparr>mirror := fold (\<lambda>r. set_input_register r (shown_input_register m r)) (items b) (mirror p)\<rparr>)
          :: (machines Poller, 'e) result)"
proof -
  let ?layout = "ServerMachineState.input_register_mem_layout m" and ?rs = "ServerMachineState.input_registers m"
  let ?words = "concat (map (\<lambda>r. register_value_to_words (shown_input_register m r) ?layout) (items b))"
  let ?request = "\<lparr>ReadInputRegistersRequest.starting_address = Batch.starting_address b,
      quantity = Batch.quantity b\<rparr>"
  let ?reply = "ReadInputRegistersResponse_encode \<lparr>ReadInputRegistersResponse.register_values = ?words\<rparr>"
  note ok = batch_okD [OF assms(3)]
  have run: "register_run InputRegisterDescription.address InputRegisterDescription.data_type (\<lambda>_. True) ?rs
      (Batch.starting_address b) (items b)" "run_width InputRegisterDescription.data_type (items b) = unat (Batch.quantity b)"
    using tiled_run [OF ok(1) assms(4,5)] ok(2) by (simp_all add: total_size_width)
  obtain rest where pdu: "ReadInputRegistersRequest_encode ?request = 4 # rest"
    by (simp add: ReadInputRegistersRequest_encode_def encode_address_and_quantity_def)
  have "read_words InputRegisterDescription.address InputRegisterDescription.name
      InputRegisterDescription.data_type ?rs (InputRegisterStore_get (input_register_store m)) ?layout
      (unat (Batch.quantity b)) (Batch.starting_address b) (Batch.starting_address b + Batch.quantity b) []
      = Some ?words"
    using run by (subst read_words_iff) (auto simp: shown_input_register_def)
  then have "handle_read_input_registers (4 # rest) ?rs (input_register_store m) ?layout
      = (Ok ?reply :: (bytes, io_error) result)"
    by (simp add: handle_read_input_registers_def flip: pdu)
  then have "loopback opts src bulk uid (4 # rest) (connection p) = (Ok ?reply, connection p)"
    using assms(1,2) by (intro loopback_read) (simp_all add: handle_machine_request_def Let_def)
  moreover have len: "length ?words = unat (Batch.quantity b)"
    using run(2) by (simp add: length_concat comp_def shown_input_register_def run_width_def)
  moreover from this ok(3) have "ReadInputRegistersResponse_decode ?reply
      = Ok \<lparr>ReadInputRegistersResponse.register_values = ?words\<rparr>"
    using ReadInputRegistersResponse_codec.round_trip [of "\<lparr>ReadInputRegistersResponse.register_values = ?words\<rparr>"]
    by simp
  moreover have "store_words InputRegisterDescription.data_type set_input_register ?layout ?words 0 (items b) (mirror p)
      = (Ok (fold (\<lambda>r. set_input_register r (shown_input_register m r)) (items b) (mirror p)) :: (MachineStores, 'e) result)"
    using store_words_stored [where ?'e = 'e and pre = "[]" and val = "shown_input_register m"
        and type_of = InputRegisterDescription.data_type]
    by (simp add: shown_input_register_def)
  ultimately show ?thesis
    by (simp add: poll_input_register_batch_def read_once_def pdu)
qed

lemma fold_zip_map: "fold (\<lambda>(x, v). f x v) (zip xs (map g xs @ ys)) s = fold (\<lambda>x. f x (g x)) xs s"
  by (induction xs arbitrary: s) simp_all

lemma bits_of_tiled:
  assumes "batch_ok address_of (\<lambda>_. 1) 2000 b" and "set (items b) \<subseteq> set bs" and "distinct (map address_of bs)"
  shows "unat (Batch.quantity b) = length (items b)" and "length (items b) \<le> 2000"
    and "read_bits address_of name_of bs get (Batch.starting_address b) [0..<length (items b)]
      = Some (map (\<lambda>x. case get (name_of x) of Some (CoilValue v) \<Rightarrow> v | None \<Rightarrow> False) (items b))"
proof -
  note ok = batch_okD [OF assms(1)]
  show len: "unat (Batch.quantity b) = length (items b)"
    using ok(2) by (simp add: total_size_def sum_list_triv)
  show "length (items b) \<le> 2000" using len ok(3) by simp
  show "read_bits address_of name_of bs get (Batch.starting_address b) [0..<length (items b)]
      = Some (map (\<lambda>x. case get (name_of x) of Some (CoilValue v) \<Rightarrow> v | None \<Rightarrow> False) (items b))"
    using read_bits_tiled [of address_of "Batch.starting_address b" 0 "items b" bs name_of get] ok(1) assms(2,3) by simp
qed

lemma bit_replies:
  assumes "length vs \<le> 2000"
  obtains bs cs pad where
    "ReadCoilsResponse_encode \<lparr>ReadCoilsResponse.coil_values = vs\<rparr> = (Ok bs :: (bytes, 'e) result)"
    "ReadCoilsResponse_decode bs = Ok \<lparr>ReadCoilsResponse.coil_values = vs @ pad\<rparr>"
    "ReadDiscreteInputsResponse_encode \<lparr>ReadDiscreteInputsResponse.discrete_input_values = vs\<rparr>
       = (Ok cs :: (bytes, 'e) result)"
    "ReadDiscreteInputsResponse_decode cs
       = Ok \<lparr>ReadDiscreteInputsResponse.discrete_input_values = vs @ pad\<rparr>"
proof -
  have "length vs \<le> 2040" using assms by simp
  from decode_bitfield_response_packed [OF this, of 1 "[]"] decode_bitfield_response_packed [OF this, of 2 "[]"]
  show thesis
    by (intro that [of "[1, of_nat (div_ceil (length vs) 8)] @ packed_bits vs"
          "replicate (8 * div_ceil (length vs) 8 - length vs) False"
          "[2, of_nat (div_ceil (length vs) 8)] @ packed_bits vs"])
       (simp_all add: pdu_defs encode_bitfield_response_eq)
qed

lemma poll_coil_batch_served:
  assumes "is_enabled opts 1" and "connection p uid = Some m"
    and "batch_ok CoilDescription.address (\<lambda>_. 1) 2000 b"
    and "set (items b) \<subseteq> set (ServerMachineState.coils m)"
    and "distinct (map CoilDescription.address (ServerMachineState.coils m))"
  shows "poll_coil_batch (loopback opts src bulk) uid b p
     = (Ok (p\<lparr>mirror := fold (\<lambda>c. set_coil c (shown_coil m c)) (items b) (mirror p)\<rparr>)
          :: (machines Poller, 'e) result)"
proof -
  let ?vs = "map (shown_coil m) (items b)"
  let ?request = "\<lparr>ReadCoilsRequest.starting_address = Batch.starting_address b, quantity = Batch.quantity b\<rparr>"
  note bits = bits_of_tiled [OF assms(3-5)]
  obtain rest where pdu: "ReadCoilsRequest_encode ?request = 1 # rest"
    by (simp add: ReadCoilsRequest_encode_def encode_address_and_quantity_def)
  have "length ?vs \<le> 2000" using bits(2) by simp
  then obtain reply pad where reply: "ReadCoilsResponse_encode \<lparr>ReadCoilsResponse.coil_values = ?vs\<rparr>
        = (Ok reply :: (bytes, io_error) result)"
    "ReadCoilsResponse_decode reply = Ok \<lparr>ReadCoilsResponse.coil_values = ?vs @ pad\<rparr>"
    by (rule bit_replies [where ?'e = io_error])
  have "handle_read_coils (1 # rest) (ServerMachineState.coils m) (coil_store m) = (Ok reply :: (bytes, io_error) result)"
    using bits reply(1)
    by (simp add: handle_read_coils_def shown_coil_def [abs_def] flip: pdu)
  then have "loopback opts src bulk uid (1 # rest) (connection p) = (Ok reply, connection p)"
    using assms(1,2) by (intro loopback_read) (simp_all add: handle_machine_request_def Let_def)
  with reply(2) show ?thesis
    by (auto simp: poll_coil_batch_def read_once_def pdu fold_zip_map)
qed

lemma poll_discrete_input_batch_served:
  assumes "is_enabled opts 2" and "connection p uid = Some m"
    and "batch_ok DiscreteInputDescription.address (\<lambda>_. 1) 2000 b"
    and "set (items b) \<subseteq> set (ServerMachineState.discrete_inputs m)"
    and "distinct (map DiscreteInputDescription.address (ServerMachineState.discrete_inputs m))"
  shows "poll_discrete_input_batch (loopback opts src bulk) uid b p
     = (Ok (p\<lparr>mirror := fold (\<lambda>d. set_discrete_input d (shown_discrete_input m d)) (items b) (mirror p)\<rparr>)
          :: (machines Poller, 'e) result)"
proof -
  let ?vs = "map (shown_discrete_input m) (items b)"
  let ?request = "\<lparr>ReadDiscreteInputsRequest.starting_address = Batch.starting_address b,
      quantity = Batch.quantity b\<rparr>"
  note bits = bits_of_tiled [OF assms(3-5)]
  obtain rest where pdu: "ReadDiscreteInputsRequest_encode ?request = 2 # rest"
    by (simp add: ReadDiscreteInputsRequest_encode_def encode_address_and_quantity_def)
  have "length ?vs \<le> 2000" using bits(2) by simp
  then obtain reply pad where reply:
    "ReadDiscreteInputsResponse_encode \<lparr>ReadDiscreteInputsResponse.discrete_input_values = ?vs\<rparr>
        = (Ok reply :: (bytes, io_error) result)"
    "ReadDiscreteInputsResponse_decode reply
        = Ok \<lparr>ReadDiscreteInputsResponse.discrete_input_values = ?vs @ pad\<rparr>"
    by (rule bit_replies [where ?'e = io_error])
  have "handle_read_discrete_inputs (2 # rest) (ServerMachineState.discrete_inputs m) (discrete_input_store m)
      = (Ok reply :: (bytes, io_error) result)"
    using bits reply(1)
    by (simp add: handle_read_discrete_inputs_def shown_discrete_input_def [abs_def] flip: pdu)
  then have "loopback opts src bulk uid (2 # rest) (connection p) = (Ok reply, connection p)"
    using assms(1,2) by (intro loopback_read) (simp_all add: handle_machine_request_def Let_def)
  with reply(2) show ?thesis
    by (auto simp: poll_discrete_input_batch_def read_once_def pdu fold_zip_map)
qed

lemma poll_file_record_served:
  assumes "is_enabled opts 20" and "connection p uid = Some m" and "d \<in> set (ServerMachineState.file_records m)"
    and "distinct (map (\<lambda>d. (FileRecordDescription.file_number d, FileRecordDescription.record_number d))
           (ServerMachineState.file_records m))"
    and "FileRecordDescription.file_number d \<noteq> 0xFFFF" and "length (stored_record (file_record_store m) d) \<le> 249"
  shows "poll_file_record (loopback opts src bulk) uid d p
     = (Ok (p\<lparr>mirror := set_file_record d (stored_record (file_record_store m) d) (mirror p)\<rparr>)
          :: (machines Poller, 'e) result)"
proof -
  let ?data = "stored_record (file_record_store m) d"
  let ?reply = "ReadFileRecordResponse_encode \<lparr>ReadFileRecordResponse.records = [?data]\<rparr>"
  obtain rest where pdu: "ReadFileRecordRequest_encode (file_record_request d) = 20 # rest"
    by (simp add: ReadFileRecordRequest_encode_def)
  have decode: "ReadFileRecordRequest_decode (20 # rest) = Ok (file_record_request d)"
    using ReadFileRecordRequest_decode_encode [of "file_record_request d" "[]"] pdu
    by (simp add: file_record_request_def)
  have found: "find_file_record (ServerMachineState.file_records m) (FileRecordDescription.file_number d)
      (FileRecordDescription.record_number d) = Some d"
    using find_key [OF assms(4,3), of "(FileRecordDescription.file_number d, FileRecordDescription.record_number d)"]
    by (simp add: find_file_record_def)
  have "length ?reply \<le> 253"
    using assms(6) by (simp add: ReadFileRecordResponse_encode_def encode_file_record_def)
  with decode found have "handle_read_file_record (20 # rest) (ServerMachineState.file_records m) (file_record_store m)
      = (Ok ?reply :: (bytes, io_error) result)"
    by (simp add: handle_read_file_record_def file_record_request_def Let_def)
  moreover have "bulk_transfer_request 20 opts (20 # rest) = (Ok None :: (ReadFileRecordRequest option, io_error) result)"
    using assms(5) decode by (simp add: bulk_transfer_request_def file_record_request_def)
  ultimately have "loopback opts src bulk uid (20 # rest) (connection p) = (Ok ?reply, connection p)"
    using assms(1,2) by (intro loopback_read) (simp_all add: handle_machine_request_def Let_def)
  moreover have "ReadFileRecordResponse_decode ?reply = Ok \<lparr>ReadFileRecordResponse.records = [?data]\<rparr>"
    using ReadFileRecordResponse_decode_encode [of "\<lparr>ReadFileRecordResponse.records = [?data]\<rparr>" "[]"] assms(6) by simp
  ultimately show ?thesis
    by (simp add: poll_file_record_def read_once_def pdu)
qed

section \<open>A turn\<close>

lemma for_each_served:
  assumes "\<And>b p. b \<in> set bs \<Longrightarrow> connection p = s \<Longrightarrow>
      f b p = (Ok (p\<lparr>mirror := fold h (part b) (mirror p)\<rparr>) :: ('s Poller, 'e) result)"
    and "connection p = s"
  shows "for_each f bs p = (Ok (p\<lparr>mirror := fold h (concat (map part bs)) (mirror p)\<rparr>) :: ('s Poller, 'e) result)"
  using assms by (induction bs arbitrary: p) simp_all

lemma batches_served:
  assumes "concat (map items bs) = sort_key address_of xs" and "list_all (batch_ok address_of size_of mx) bs"
    and "\<And>b p. connection p = s \<Longrightarrow> batch_ok address_of size_of mx b \<Longrightarrow> set (items b) \<subseteq> set xs \<Longrightarrow>
      f b p = (Ok (p\<lparr>mirror := fold h (items b) (mirror p)\<rparr>) :: ('s Poller, 'e) result)"
    and "connection p = s"
  shows "for_each f bs p = (Ok (p\<lparr>mirror := fold h (sort_key address_of xs) (mirror p)\<rparr>) :: ('s Poller, 'e) result)"
  unfolding assms(1) [symmetric]
  using assms(2,4) batch_items [OF assms(1)] assms(3)
  by (intro for_each_served [where s = s]) (simp_all add: list_all_iff)

lemma fold_sets:
  "fold (\<lambda>r. set_register r (f1 r)) rs st = st\<lparr>MachineStores.registers :=
     fold (\<lambda>(k, v). RegisterStore_set k v) (map (\<lambda>r. (RegisterDescription.name r, f1 r)) rs) (MachineStores.registers st)\<rparr>"
  "fold (\<lambda>r. set_input_register r (f2 r)) irs st = st\<lparr>MachineStores.input_registers :=
     fold (\<lambda>(k, v). InputRegisterStore_set k v) (map (\<lambda>r. (InputRegisterDescription.name r, f2 r)) irs)
       (MachineStores.input_registers st)\<rparr>"
  "fold (\<lambda>c. set_coil c (f3 c)) cs st = st\<lparr>MachineStores.coils :=
     fold (\<lambda>(k, v). CoilStore_set k v) (map (\<lambda>c. (CoilDescription.name c, CoilValue (f3 c))) cs) (MachineStores.coils st)\<rparr>"
  "fold (\<lambda>d. set_discrete_input d (f4 d)) ds st = st\<lparr>MachineStores.discrete_inputs :=
     fold (\<lambda>(k, v). DiscreteInputStore_set k v) (map (\<lambda>d. (DiscreteInputDescription.name d, CoilValue (f4 d))) ds)
       (MachineStores.discrete_inputs st)\<rparr>"
  "fold (\<lambda>d. set_file_record d (f5 d)) fs st = st\<lparr>MachineStores.file_records :=
     fold (\<lambda>(k, v). FileRecordStore_set k v)
       (map (\<lambda>d. ((FileRecordDescription.file_number d, FileRecordDescription.record_number d), f5 d)) fs)
       (MachineStores.file_records st)\<rparr>"
  by (induction rs arbitrary: st, simp_all add: set_register_def)
     (induction irs arbitrary: st, simp_all add: set_input_register_def,
      induction cs arbitrary: st, simp_all add: set_coil_def,
      induction ds arbitrary: st, simp_all add: set_discrete_input_def,
      induction fs arbitrary: st, simp_all add: set_file_record_def)

text \<open>The client and the server work from the same description.\<close>

definition describes :: "MachineDescription \<Rightarrow> ServerMachineState \<Rightarrow> bool" where
  "describes d m \<longleftrightarrow>
     MachineDescription.registers d = ServerMachineState.registers m
     \<and> MachineDescription.coils d = ServerMachineState.coils m
     \<and> MachineDescription.discrete_inputs d = ServerMachineState.discrete_inputs m
     \<and> MachineDescription.input_registers d = ServerMachineState.input_registers m
     \<and> MachineDescription.file_records d = ServerMachineState.file_records m
     \<and> MachineDescription.mem_layout d = ServerMachineState.mem_layout m
     \<and> MachineDescription.input_register_mem_layout d = ServerMachineState.input_register_mem_layout m"

text \<open>
  An address or a name stands for one point of its table, no file is the reserved one, and every
  record fits a response.
\<close>

definition pollable :: "ServerMachineState \<Rightarrow> bool" where
  "pollable m \<longleftrightarrow>
     distinct (map RegisterDescription.address (ServerMachineState.registers m))
     \<and> distinct (map RegisterDescription.name (ServerMachineState.registers m))
     \<and> distinct (map CoilDescription.address (ServerMachineState.coils m))
     \<and> distinct (map CoilDescription.name (ServerMachineState.coils m))
     \<and> distinct (map DiscreteInputDescription.address (ServerMachineState.discrete_inputs m))
     \<and> distinct (map DiscreteInputDescription.name (ServerMachineState.discrete_inputs m))
     \<and> distinct (map InputRegisterDescription.address (ServerMachineState.input_registers m))
     \<and> distinct (map InputRegisterDescription.name (ServerMachineState.input_registers m))
     \<and> distinct (map (\<lambda>d. (FileRecordDescription.file_number d, FileRecordDescription.record_number d))
          (ServerMachineState.file_records m))
     \<and> list_all (\<lambda>d. FileRecordDescription.file_number d \<noteq> 0xFFFF
          \<and> length (stored_record (file_record_store m) d) \<le> 249) (ServerMachineState.file_records m)"

text \<open>The client's stores show what the server shows.\<close>

definition mirrors :: "ServerMachineState \<Rightarrow> MachineStores \<Rightarrow> bool" where
  "mirrors m st \<longleftrightarrow>
     list_all (\<lambda>r. RegisterStore_get (MachineStores.registers st) (RegisterDescription.name r)
        = Some (shown_register m r)) (ServerMachineState.registers m)
     \<and> list_all (\<lambda>c. CoilStore_get (MachineStores.coils st) (CoilDescription.name c)
        = Some (CoilValue (shown_coil m c))) (ServerMachineState.coils m)
     \<and> list_all (\<lambda>d. DiscreteInputStore_get (MachineStores.discrete_inputs st) (DiscreteInputDescription.name d)
        = Some (CoilValue (shown_discrete_input m d))) (ServerMachineState.discrete_inputs m)
     \<and> list_all (\<lambda>r. InputRegisterStore_get (MachineStores.input_registers st) (InputRegisterDescription.name r)
        = Some (shown_input_register m r)) (ServerMachineState.input_registers m)
     \<and> list_all (\<lambda>d. FileRecordStore_get (MachineStores.file_records st)
          (FileRecordDescription.file_number d, FileRecordDescription.record_number d)
        = Some (stored_record (file_record_store m) d)) (ServerMachineState.file_records m)"

definition reads_enabled :: "ServerOptions \<Rightarrow> bool" where
  "reads_enabled opts \<longleftrightarrow> list_all (is_enabled opts) [1, 2, 3, 4, 20]"

text \<open>The four batched tables.\<close>

lemma poll_once_served:
  assumes "is_enabled opts 3" and "ms uid = Some m" and "connection p = ms"
    and "distinct (map RegisterDescription.address (ServerMachineState.registers m))"
    and "concat (map items bs) = sort_key RegisterDescription.address (ServerMachineState.registers m)"
    and "list_all (batch_ok RegisterDescription.address (\<lambda>r. register_count (RegisterDescription.data_type r)) 125) bs"
  shows "poll_once (loopback opts src bulk) (ServerMachineState.mem_layout m) uid bs p
     = (Ok (p\<lparr>mirror := fold (\<lambda>x. set_register x (shown_register m x))
          (sort_key RegisterDescription.address (ServerMachineState.registers m)) (mirror p)\<rparr>) :: (machines Poller, 'e) result)"
  unfolding poll_once_def
  by (rule batches_served [OF assms(5,6) _ assms(3)], rule poll_register_batch_served) (use assms in simp_all)

lemma poll_coils_once_served:
  assumes "is_enabled opts 1" and "ms uid = Some m" and "connection p = ms"
    and "distinct (map CoilDescription.address (ServerMachineState.coils m))"
    and "concat (map items bs) = sort_key CoilDescription.address (ServerMachineState.coils m)"
    and "list_all (batch_ok CoilDescription.address (\<lambda>_. 1) 2000) bs"
  shows "poll_coils_once (loopback opts src bulk) uid bs p
     = (Ok (p\<lparr>mirror := fold (\<lambda>x. set_coil x (shown_coil m x))
          (sort_key CoilDescription.address (ServerMachineState.coils m)) (mirror p)\<rparr>) :: (machines Poller, 'e) result)"
  unfolding poll_coils_once_def
  by (rule batches_served [OF assms(5,6) _ assms(3)], rule poll_coil_batch_served) (use assms in simp_all)

lemma poll_discrete_inputs_once_served:
  assumes "is_enabled opts 2" and "ms uid = Some m" and "connection p = ms"
    and "distinct (map DiscreteInputDescription.address (ServerMachineState.discrete_inputs m))"
    and "concat (map items bs) = sort_key DiscreteInputDescription.address (ServerMachineState.discrete_inputs m)"
    and "list_all (batch_ok DiscreteInputDescription.address (\<lambda>_. 1) 2000) bs"
  shows "poll_discrete_inputs_once (loopback opts src bulk) uid bs p
     = (Ok (p\<lparr>mirror := fold (\<lambda>x. set_discrete_input x (shown_discrete_input m x))
          (sort_key DiscreteInputDescription.address (ServerMachineState.discrete_inputs m)) (mirror p)\<rparr>) :: (machines Poller, 'e) result)"
  unfolding poll_discrete_inputs_once_def
  by (rule batches_served [OF assms(5,6) _ assms(3)], rule poll_discrete_input_batch_served) (use assms in simp_all)

lemma poll_input_registers_once_served:
  assumes "is_enabled opts 4" and "ms uid = Some m" and "connection p = ms"
    and "distinct (map InputRegisterDescription.address (ServerMachineState.input_registers m))"
    and "concat (map items bs) = sort_key InputRegisterDescription.address (ServerMachineState.input_registers m)"
    and "list_all (batch_ok InputRegisterDescription.address (\<lambda>r. register_count (InputRegisterDescription.data_type r)) 125) bs"
  shows "poll_input_registers_once (loopback opts src bulk) (ServerMachineState.input_register_mem_layout m) uid bs p
     = (Ok (p\<lparr>mirror := fold (\<lambda>x. set_input_register x (shown_input_register m x))
          (sort_key InputRegisterDescription.address (ServerMachineState.input_registers m)) (mirror p)\<rparr>) :: (machines Poller, 'e) result)"
  unfolding poll_input_registers_once_def
  by (rule batches_served [OF assms(5,6) _ assms(3)], rule poll_input_register_batch_served) (use assms in simp_all)

lemma poll_file_records_once_served:
  assumes "is_enabled opts 20" and "ms uid = Some m" and "connection p = ms" and "pollable m"
  shows "poll_file_records_once (loopback opts src bulk) uid (ServerMachineState.file_records m) p
     = (Ok (p\<lparr>mirror := fold (\<lambda>d. set_file_record d (stored_record (file_record_store m) d))
          (ServerMachineState.file_records m) (mirror p)\<rparr>) :: (machines Poller, 'e) result)"
proof -
  have "poll_file_record (loopback opts src bulk) uid d q
      = (Ok (q\<lparr>mirror := fold (\<lambda>d. set_file_record d (stored_record (file_record_store m) d)) [d] (mirror q)\<rparr>)
          :: (machines Poller, 'e) result)"
    if "d \<in> set (ServerMachineState.file_records m)" "connection q = ms" for d q
    using poll_file_record_served [where ?'e = 'e, of opts q uid m d src bulk] assms that
    by (simp add: pollable_def list_all_iff)
  from for_each_served [where part = "\<lambda>d. [d]", OF this assms(3)] show ?thesis
    by (simp add: poll_file_records_once_def)
qed

lemma polling_turn_served:
  assumes "describes d m" and "pollable m" and "reads_enabled opts" and "ms (MachineDescription.unit_id d) = Some m"
    and "batched d rbs cbs dbs ibs" and "connection p = ms"
  shows "\<exists>st. polling_turn (loopback opts src bulk) d rbs cbs dbs ibs p
      = (Ok (p\<lparr>mirror := st\<rparr>) :: (machines Poller, 'e) result) \<and> mirrors m st"
proof -
  note d = assms(1) [unfolded describes_def] and pm = assms(2) [unfolded pollable_def]
    and on = assms(3) [unfolded reads_enabled_def] and b = assms(5) [unfolded batched_def]
  let ?st = "fold (\<lambda>x. set_file_record x (stored_record (file_record_store m) x)) (ServerMachineState.file_records m)
     (fold (\<lambda>x. set_input_register x (shown_input_register m x))
        (sort_key InputRegisterDescription.address (ServerMachineState.input_registers m))
     (fold (\<lambda>x. set_discrete_input x (shown_discrete_input m x))
        (sort_key DiscreteInputDescription.address (ServerMachineState.discrete_inputs m))
     (fold (\<lambda>x. set_coil x (shown_coil m x)) (sort_key CoilDescription.address (ServerMachineState.coils m))
     (fold (\<lambda>x. set_register x (shown_register m x))
        (sort_key RegisterDescription.address (ServerMachineState.registers m)) (mirror p)))))"
  have "polling_turn (loopback opts src bulk) d rbs cbs dbs ibs p
      = (Ok (p\<lparr>mirror := ?st\<rparr>) :: (machines Poller, 'e) result)"
    using d pm on b assms(2,4,6)
    by (simp add: polling_turn_def Let_def poll_once_served poll_coils_once_served poll_discrete_inputs_once_served
        poll_input_registers_once_served poll_file_records_once_served)
  moreover have "mirrors m ?st"
    using pm unfolding mirrors_def list_all_iff fold_sets
    by (auto simp: distinct_map comp_def intro!: register_store.get_fold_distinct coil_store.get_fold_distinct
        discrete_input_store.get_fold_distinct input_register_store.get_fold_distinct
        file_record_store.get_fold_distinct)
  ultimately show ?thesis by blast
qed

section \<open>The mirror\<close>

lemma polling_mirror:
  assumes "describes d m" and "pollable m" and "reads_enabled opts"
    and "connection p (MachineDescription.unit_id d) = Some m" and "0 < ticks"
  shows "\<exists>st. run_polling_loop (loopback opts src bulk) d ticks p
      = (Ok (p\<lparr>mirror := st\<rparr>) :: (machines Poller, 'e) result) \<and> mirrors m st"
proof (rule run_polling_loop_batched [where ?'e = 'e and ?'s = machines, of d])
  fix rbs cbs dbs ibs
  assume b: "batched d rbs cbs dbs ibs"
    and run: "\<And>(request :: machines link) ticks p. run_polling_loop request d ticks p
       = (for_each (\<lambda>_. polling_turn request d rbs cbs dbs ibs) [0..<ticks] p :: (machines Poller, 'e) result)"
  let ?turn = "polling_turn (loopback opts src bulk) d rbs cbs dbs ibs"
  have turn: "\<exists>st. ?turn (p\<lparr>mirror := st'\<rparr>) = (Ok (p\<lparr>mirror := st\<rparr>) :: (machines Poller, 'e) result) \<and> mirrors m st"
    for st'
    using polling_turn_served [where ?'e = 'e and ms = "connection p", OF assms(1-4) b, of "p\<lparr>mirror := st'\<rparr>"] by simp
  have "\<exists>q. for_each (\<lambda>_. ?turn) [0..<ticks - 1] p = (Ok q :: (machines Poller, 'e) result) \<and> (\<exists>st. q = p\<lparr>mirror := st\<rparr>)"
  proof (rule for_each_invariant)
    show "\<exists>st. p = p\<lparr>mirror := st\<rparr>" by (intro exI [of _ "mirror p"]) simp
  qed (use turn in blast)
  then obtain st' where before: "for_each (\<lambda>_. ?turn) [0..<ticks - 1] p
      = (Ok (p\<lparr>mirror := st'\<rparr>) :: (machines Poller, 'e) result)" by blast
  obtain st where "?turn (p\<lparr>mirror := st'\<rparr>) = (Ok (p\<lparr>mirror := st\<rparr>) :: (machines Poller, 'e) result)" "mirrors m st"
    using turn by blast
  moreover have "[0..<ticks] = [0..<ticks - 1] @ [ticks - 1]"
    using assms(5) upt_Suc_append [of 0 "ticks - 1"] by simp
  ultimately show ?thesis 
    unfolding run using before by (intro exI [of _ st]) (simp add: for_each_append)
qed

text \<open>
  C5: Polling mirrors the server. When the client and the server work from the same description, one
  turn of the polling task, and every later one, leaves each of the client's five stores showing what
  the server's stores show: a typed default where nothing was written, and otherwise the very value,
  whatever its width and the memory layout. The server and the reconnect signal are left alone. An
  address, a name and a file record key must each stand for one point, the read function codes must be
  enabled, and a record must fit a response.
\<close>

theorem polling_mirrors_the_server:
  assumes "describes d m" and "pollable m" and "reads_enabled opts"
    and "connection p (MachineDescription.unit_id d) = Some m" and "0 < ticks"
  shows "\<exists>st. run_polling_loop (loopback opts src bulk) d ticks p
      = (Ok (p\<lparr>mirror := st\<rparr>) :: (machines Poller, 'e) result) \<and> mirrors m st"
  using assms by (rule polling_mirror)

definition sample_polled :: ServerMachineState where
  "sample_polled =
     \<lparr>ServerMachineState.registers =
        [\<lparr>RegisterDescription.name = ''flow'', address = 2, data_type = F32, access = ReadWrite, unit = None\<rparr>,
         \<lparr>RegisterDescription.name = ''level'', address = 1, data_type = U16, access = ReadOnly, unit = None\<rparr>],
      store = RegisterStore_set ''level'' (RegU16 7) RegisterStore_new,
      coils = [\<lparr>CoilDescription.name = ''pump'', address = 9\<rparr>],
      coil_store = CoilStore_set ''pump'' (CoilValue True) CoilStore_new,
      discrete_inputs = [], discrete_input_store = DiscreteInputStore_new,
      input_registers = [], input_register_store = InputRegisterStore_new,
      file_records = [\<lparr>FileRecordDescription.file_number = 4, record_number = 1, record_length = 2\<rparr>],
      file_record_store = FileRecordStore_new,
      mem_layout = Cdab, input_register_mem_layout = Abcd, server_id = None\<rparr>"

definition sample_description :: MachineDescription where
  "sample_description =
     \<lparr>MachineDescription.name = ''plant'', unit_id = 1, registers = ServerMachineState.registers sample_polled,
      coils = ServerMachineState.coils sample_polled, discrete_inputs = [], input_registers = [],
      file_records = ServerMachineState.file_records sample_polled,
      mem_layout = Cdab, input_register_mem_layout = Abcd, server_id = None\<rparr>"

definition sample_poller :: "machines Poller" where
  "sample_poller = \<lparr>connection = [1 \<mapsto> sample_polled], mirror = MachineStores_new, broken = False\<rparr>"

theorem polling_mirrors_the_server_witness:
  "\<exists>st. run_polling_loop (loopback all_options [] no_bulk) sample_description 3 sample_poller
      = (Ok (sample_poller\<lparr>mirror := st\<rparr>) :: (machines Poller, unit) result)
     \<and> RegisterStore_get (MachineStores.registers st) ''level'' = Some (RegU16 7)
     \<and> RegisterStore_get (MachineStores.registers st) ''flow'' = Some (RegF32 0)
     \<and> CoilStore_get (MachineStores.coils st) ''pump'' = Some (CoilValue True)
     \<and> FileRecordStore_get (MachineStores.file_records st) (4, 1) = Some (replicate 4 0)"
proof -
  have "describes sample_description sample_polled" "pollable sample_polled" "reads_enabled all_options"
    "connection sample_poller (MachineDescription.unit_id sample_description) = Some sample_polled" "(0 :: nat) < 3"
    by (simp_all add: describes_def sample_description_def sample_polled_def pollable_def reads_enabled_def
        sample_poller_def stored_record_def file_record_store.get_new all_options_def is_enabled_def)
  from polling_mirrors_the_server [OF this, where ?'e = unit and src = "[]" and bulk = no_bulk]
  obtain st where "run_polling_loop (loopback all_options [] no_bulk) sample_description 3 sample_poller
      = (Ok (sample_poller\<lparr>mirror := st\<rparr>) :: (machines Poller, unit) result)" "mirrors sample_polled st" by blast
  then show ?thesis
    by (intro exI [of _ st] conjI)
       (simp_all add: mirrors_def sample_polled_def shown_register_def shown_coil_def stored_record_def
          current_value_def register_store.get_new register_store.get_set coil_store.get_set file_record_store.get_new)
qed

end
