(* ===== verification/Confirmed_Writes.thy ===== *)
theory Confirmed_Writes
  imports Transaction_Consumer Polling_Mirror
begin

text \<open>
  The client's transactions against the server's handlers: the report tells the truth. What it calls
  OK is what the server now stores, what it calls failed changed nothing, and the next turn of the
  polling task brings the confirmed values back to the client.
\<close>

section \<open>Targets and contents\<close>

text \<open>What an entry aims at, and what the server holds there.\<close>

datatype target =
    RegisterNamed string
  | CoilNamed string
  | FileAt u16 u16
  | InputNamed string

fun target_of :: "string \<times> StagedValue \<Rightarrow> target" where
  "target_of (nm, StagedRegister v) = RegisterNamed nm"
| "target_of (nm, MaskedRegister amask omask) = RegisterNamed nm"
| "target_of (nm, StagedCoil v) = CoilNamed nm"
| "target_of (nm, StagedFileRecord f rn v) = FileAt f rn"
| "target_of (nm, StagedDiscreteInput v) = InputNamed nm"
| "target_of (nm, StagedInputRegister v) = InputNamed nm"

datatype held =
    RegisterHeld "RegisterValue option"
  | CoilHeld "CoilValue option"
  | FileHeld "bytes option"
  | Untold

fun held_at :: "ServerMachineState \<Rightarrow> target \<Rightarrow> held" where
  "held_at m (RegisterNamed nm) = RegisterHeld (RegisterStore_get (store m) nm)"
| "held_at m (CoilNamed nm) = CoilHeld (CoilStore_get (coil_store m) nm)"
| "held_at m (FileAt f rn) = FileHeld (FileRecordStore_get (file_record_store m) (f, rn))"
| "held_at m (InputNamed nm) = Untold"

text \<open>What an accepted entry makes of what was held: the staged value, or the masked word.\<close>

fun accepted :: "MachineTransactionConfig \<Rightarrow> string \<times> StagedValue \<Rightarrow> held \<Rightarrow> held \<Rightarrow> bool" where
  "accepted config (nm, StagedRegister v) old new \<longleftrightarrow>
     list_ex (\<lambda>r. RegisterDescription.name r = nm \<and> RegisterDescription.data_type r = data_type_of v)
       (MachineTransactionConfig.registers config) \<and> new = RegisterHeld (Some v)"
| "accepted config (nm, MaskedRegister amask omask) old new \<longleftrightarrow>
     list_ex (\<lambda>r. RegisterDescription.name r = nm \<and>
       (\<exists>before w v. old = RegisterHeld before
          \<and> register_value_to_words (current_value (\<lambda>_. before) nm (RegisterDescription.data_type r))
              (MachineTransactionConfig.mem_layout config) = [w]
          \<and> register_value_from_words (RegisterDescription.data_type r)
              [(w AND amask) OR (omask AND NOT amask)] (MachineTransactionConfig.mem_layout config)
              = (Ok (Some v) :: (RegisterValue option, unit) result)
          \<and> new = RegisterHeld (Some v)))
       (MachineTransactionConfig.registers config)"
| "accepted config (nm, StagedCoil v) old new \<longleftrightarrow>
     list_ex (\<lambda>c. CoilDescription.name c = nm) (MachineTransactionConfig.coils config)
     \<and> new = CoilHeld (Some v)"
| "accepted config (nm, StagedFileRecord f rn v) old new \<longleftrightarrow>
     list_ex (\<lambda>d. FileRecordDescription.file_number d = f \<and> FileRecordDescription.record_number d = rn
       \<and> length v = unat (FileRecordDescription.record_length d) * 2)
       (MachineTransactionConfig.file_records config) \<and> new = FileHeld (Some v)"
| "accepted config (nm, StagedDiscreteInput v) old new \<longleftrightarrow> False"
| "accepted config (nm, StagedInputRegister v) old new \<longleftrightarrow> False"

text \<open>
  The report of a list of entries is true: what is reported OK was accepted, what is not left its
  target alone, nothing else changed and no other name was reported.
\<close>

definition settled ::
    "MachineTransactionConfig \<Rightarrow> (string \<times> StagedValue) list \<Rightarrow> ServerMachineState \<times> WriteReport
     \<Rightarrow> ServerMachineState \<times> WriteReport \<Rightarrow> bool" where
  "settled config es st st' \<longleftrightarrow>
     same_layout (fst st) (fst st')
     \<and> (\<forall>nm. nm \<notin> fst ` set es \<longrightarrow> WriteReport_get (snd st') nm = WriteReport_get (snd st) nm)
     \<and> (\<forall>t. t \<notin> target_of ` set es \<longrightarrow> held_at (fst st') t = held_at (fst st) t)
     \<and> (\<forall>e \<in> set es. if WriteReport_get (snd st') (fst e) = Some WriteOk
          then accepted config e (held_at (fst st) (target_of e)) (held_at (fst st') (target_of e))
          else held_at (fst st') (target_of e) = held_at (fst st) (target_of e))"

lemma settled_Nil [simp]: "settled config [] st st"
  by (simp add: settled_def same_layout_def)

lemma settled_append:
  assumes 1: "settled config es1 st st1" and 2: "settled config es2 st1 st2"
    and names: "fst ` set es1 \<inter> fst ` set es2 = {}" and targets: "target_of ` set es1 \<inter> target_of ` set es2 = {}"
  shows "settled config (es1 @ es2) st st2"
proof -
  have later: "WriteReport_get (snd st2) (fst e) = WriteReport_get (snd st1) (fst e)"
      "held_at (fst st2) (target_of e) = held_at (fst st1) (target_of e)" if "e \<in> set es1" for e
    using that 2 names targets unfolding settled_def by blast+
  have earlier: "held_at (fst st1) (target_of e) = held_at (fst st) (target_of e)" if "e \<in> set es2" for e
    using that 1 targets unfolding settled_def by blast
  have "same_layout (fst st) (fst st2)" using 1 2 by (simp add: settled_def same_layout_def)
  moreover have "\<forall>e \<in> set (es1 @ es2). if WriteReport_get (snd st2) (fst e) = Some WriteOk
          then accepted config e (held_at (fst st) (target_of e)) (held_at (fst st2) (target_of e))
          else held_at (fst st2) (target_of e) = held_at (fst st) (target_of e)"
    using 1 2 later earlier unfolding settled_def by (auto split: if_splits)
  ultimately show ?thesis using 1 2 unfolding settled_def by (simp add: image_Un)
qed

lemma settled_cong: "set es = set es' \<Longrightarrow> settled config es st st' \<longleftrightarrow> settled config es' st st'"
  by (simp add: settled_def)

text \<open>Entries that are reported as failed without a request.\<close>

lemma settled_failed:
  assumes "\<And>e. e \<in> set es \<Longrightarrow> \<exists>reason. WriteReport_get rep' (fst e) = Some (WriteFailed reason)"
    and "\<And>nm. nm \<notin> fst ` set es \<Longrightarrow> WriteReport_get rep' nm = WriteReport_get rep nm"
  shows "settled config es (m, rep) (m, rep')"
  using assms by (force simp: settled_def same_layout_def)

section \<open>One write\<close>

lemma loopback_write:
  assumes "ms uid = Some m" and "fc \<noteq> 43" and "fc \<noteq> 20"
    and "handle_machine_request fc (fc # rest) m = (Ok reply :: (bytes, io_error) result, m')"
  shows "loopback opts src bulk uid (fc # rest) ms
     = (if is_enabled opts fc then (Ok reply, ms(uid \<mapsto> m')) else (Ok (exception fc 1), ms))"
  using assms by (simp add: loopback_def handle_request_def bulk_transfer_request_def)

lemma interpret_exception:
  assumes "fc AND 0x80 = 0"
  shows "interpret_write_response (exception fc code)
      = Ok (WriteFailed (''device returned Modbus exception code '' @ show_word code))"
    and "interpret_write_file_record_response (exception fc code) sent
      = Ok (WriteFailed (''device returned Modbus exception code '' @ show_word code))"
  using ExceptionResponse_decode_encode [of "\<lparr>ExceptionResponse.function_code = fc, exception_code = code\<rparr>" "[]"] assms
  by (simp_all add: interpret_write_response_def interpret_write_file_record_response_def exception_def)

text \<open>A request either runs its handler, which accepts or refuses it, or is refused before.\<close>

lemma confirm_loopback:
  assumes "ms uid = Some m" and "fc \<noteq> 43" and "fc \<noteq> 20"
    and "handle_machine_request fc (fc # rest) m
           = (Ok (if ok then response else exception fc code) :: (bytes, io_error) result, if ok then m' else m)"
    and "interpret response = (Ok WriteOk :: (WriteStatus, 'e) result)"
    and "\<And>c. interpret (exception fc c) = (Ok (WriteFailed (refusal c)) :: (WriteStatus, 'e) result)"
  shows "\<exists>status m''. request_and_interpret display (loopback opts src bulk) uid (fc # rest) interpret ms
       = (Ok status :: (WriteStatus, 'e) result, ms(uid \<mapsto> m''))
     \<and> (if status = WriteOk then ok \<and> m'' = m' else m'' = m)"
proof -
  have same: "ms(uid \<mapsto> m) = ms" using assms(1) by (simp add: fun_upd_idem)
  note reply = loopback_write [where ms = ms and uid = uid, OF assms(1-4)]
  consider (accept) "is_enabled opts fc" ok | (refuse) "is_enabled opts fc" "\<not> ok" | (disabled) "\<not> is_enabled opts fc"
    by blast
  then show ?thesis
  proof cases
    case accept
    with reply assms(5) show ?thesis
      by (intro exI [of _ WriteOk] exI [of _ m']) (simp add: request_and_interpret_def)
  next
    case refuse
    with reply assms(6) show ?thesis
      by (intro exI [of _ "WriteFailed (refusal code)"] exI [of _ m]) (simp add: request_and_interpret_def)
  next
    case disabled
    with reply assms(6) same show ?thesis
      by (intro exI [of _ "WriteFailed (refusal 1)"] exI [of _ m]) (simp add: request_and_interpret_def)
  qed
qed

lemma report_all_get:
  "WriteReport_get (report_all nms status rep) nm = (if nm \<in> set nms then Some status else WriteReport_get rep nm)"
  by (induction nms arbitrary: rep) (auto simp: report_all_def write_report.get_set)

lemma reporting_settled:
  assumes "\<exists>status m'. confirm ms = (Ok status :: (WriteStatus, 'e) result, ms(uid \<mapsto> m'))
      \<and> (if status = WriteOk then ok \<and> m' = new else m' = m)"
    and "set nms = fst ` set es" and "same_layout m new"
    and "ok \<Longrightarrow> (\<forall>t. t \<notin> target_of ` set es \<longrightarrow> held_at new t = held_at m t)
      \<and> (\<forall>e \<in> set es. accepted config e (held_at m (target_of e)) (held_at new (target_of e)))"
  shows "\<exists>m' rep'. reporting nms confirm (ms, rep) = (Ok (ms(uid \<mapsto> m'), rep') :: (machines \<times> WriteReport, 'e) result)
     \<and> settled config es (m, rep) (m', rep')"
proof -
  obtain status m' where conf: "confirm ms = (Ok status :: (WriteStatus, 'e) result, ms(uid \<mapsto> m'))"
    and m': "if status = WriteOk then ok \<and> m' = new else m' = m" using assms(1) by blast
  have "settled config es (m, rep) (m', report_all nms status rep)"
    using m' assms(2-) by (cases "status = WriteOk") (auto simp: settled_def report_all_get same_layout_def)
  with conf show ?thesis by (auto simp: reporting_def)
qed

section \<open>Registers\<close>

lemma find_key_cond:
  "distinct (map f xs) \<Longrightarrow> x \<in> set xs \<Longrightarrow> f x = a \<Longrightarrow>
     List.find (\<lambda>y. f y = a \<and> Q y) xs = (if Q x then Some x else None)"
proof (induction xs)
  case (Cons y xs)
  then show ?case
    by (cases "y = x") (auto simp: find_None_iff, metis image_eqI)
qed simp

abbreviation entry_words :: "MemLayout \<Rightarrow> (RegisterDescription \<times> RegisterValue) list \<Rightarrow> u16 list" where
  "entry_words layout xs \<equiv> concat (map (\<lambda>(_, v). register_value_to_words v layout) xs)"

abbreviation entry_size :: "RegisterDescription \<times> RegisterValue \<Rightarrow> u16" where
  "entry_size \<equiv> \<lambda>(r, _). register_count (RegisterDescription.data_type r)"

abbreviation entry_address :: "RegisterDescription \<times> RegisterValue \<Rightarrow> u16" where
  "entry_address \<equiv> \<lambda>(r, _). RegisterDescription.address r"

abbreviation writable :: "RegisterDescription \<times> RegisterValue \<Rightarrow> bool" where
  "writable \<equiv> \<lambda>(r, _). RegisterDescription.access r = ReadWrite"

lemma length_entry_words:
  "list_all (\<lambda>(r, v). data_type_of v = RegisterDescription.data_type r) xs \<Longrightarrow>
     length (entry_words layout xs) = total_size entry_size xs"
  by (induction xs) auto

lemma resolve_writes_entries:
  assumes "tiled entry_address entry_size a xs" and "fst ` set xs \<subseteq> set rs"
    and "list_all (\<lambda>(r, v). data_type_of v = RegisterDescription.data_type r) xs"
    and "distinct (map RegisterDescription.address rs)" and "total_size entry_size xs < 65536"
  shows "resolve_writes rs (pre @ entry_words layout xs) layout a (a + of_nat (total_size entry_size xs)) (length pre) acc
     = (if list_all writable xs then Ok (acc @ xs) else Err ())"
  using assms
proof (induction xs arbitrary: a pre acc)
  case Nil
  then show ?case by (subst resolve_writes.simps) simp
next
  case (Cons x xs)
  obtain r v where x: "x = (r, v)" by fastforce
  let ?n = "unat (register_count (RegisterDescription.data_type r))"
  let ?stop = "a + of_nat (total_size entry_size (x # xs))"
  have a: "RegisterDescription.address r = a" "r \<in> set rs" and ty: "data_type_of v = RegisterDescription.data_type r"
    using Cons.prems by (auto simp: x)
  have ne: "a \<noteq> ?stop"
  proof -
    have "total_size entry_size (x # xs) \<noteq> 0"
      using register_count_positive [of "RegisterDescription.data_type r"] by (simp add: x)
    then show ?thesis using Cons.prems(5) of_nat_u16_eq_0 [of "total_size entry_size (x # xs)"] by auto
  qed
  have find: "List.find (\<lambda>r. RegisterDescription.address r = a \<and> RegisterDescription.access r = ReadWrite) rs
      = (if RegisterDescription.access r = ReadWrite then Some r else None)"
    using find_key_cond [OF Cons.prems(4) a(2,1)] .
  have len: "length (register_value_to_words v layout) = ?n" using ty by simp
  have decode: "register_value_from_words (RegisterDescription.data_type r) (register_value_to_words v layout) layout
      = (Ok (Some v) :: (RegisterValue option, unit) result)"
    using register_value_from_to_words [where ?'a = unit, of v layout] ty by simp
  have IH: "resolve_writes rs ((pre @ register_value_to_words v layout) @ entry_words layout xs) layout
      (a + register_count (RegisterDescription.data_type r)) ?stop (length pre + ?n) (acc @ [(r, v)])
      = (if list_all writable xs then Ok ((acc @ [(r, v)]) @ xs) else Err ())"
    using Cons.IH [of "a + register_count (RegisterDescription.data_type r)"
        "pre @ register_value_to_words v layout" "acc @ [(r, v)]"] Cons.prems len
    by (simp add: x add.assoc)
  show ?case
  proof (cases "RegisterDescription.access r = ReadWrite")
    case True
    with ne find IH len decode show ?thesis
      by (subst resolve_writes.simps) (simp add: x Let_def)
  next
    case False
    with ne find show ?thesis by (subst resolve_writes.simps) (simp add: x)
  qed
qed

text \<open>The configuration of the consumer describes the machine it writes to.\<close>

definition configured :: "MachineTransactionConfig \<Rightarrow> ServerMachineState \<Rightarrow> bool" where
  "configured config m \<longleftrightarrow>
     MachineTransactionConfig.registers config = ServerMachineState.registers m
     \<and> MachineTransactionConfig.coils config = ServerMachineState.coils m
     \<and> MachineTransactionConfig.file_records config = ServerMachineState.file_records m
     \<and> MachineTransactionConfig.mem_layout config = ServerMachineState.mem_layout m
     \<and> distinct (map RegisterDescription.address (ServerMachineState.registers m))
     \<and> distinct (map CoilDescription.address (ServerMachineState.coils m))
     \<and> list_all (\<lambda>d. unat (FileRecordDescription.record_length d) \<le> 124) (ServerMachineState.file_records m)"

lemma configured_layout: "configured config m \<Longrightarrow> same_layout m m' \<Longrightarrow> configured config m'"
  by (simp add: configured_def same_layout_def)

lemma interpret_reply: "fc AND 0x80 = 0 \<Longrightarrow> rest \<noteq> [] \<Longrightarrow> interpret_write_response (fc # rest) = Ok WriteOk"
  by (cases rest) (simp_all add: interpret_write_response_def ExceptionResponse_decode_def)

definition register_staged :: "(RegisterDescription \<times> RegisterValue) list \<Rightarrow> (string \<times> StagedValue) list" where
  "register_staged xs = map (\<lambda>(r, v). (RegisterDescription.name r, StagedRegister v)) xs"

lemma apply_register_writes_effect:
  assumes "distinct (map (\<lambda>(r, _). RegisterDescription.name r) xs)"
    and "list_all (\<lambda>(r, v). data_type_of v = RegisterDescription.data_type r) xs"
    and "fst ` set xs \<subseteq> set (MachineTransactionConfig.registers config)"
    and "m' = m\<lparr>store := apply_register_writes xs (store m)\<rparr>"
  shows "(\<forall>t. t \<notin> target_of ` set (register_staged xs) \<longrightarrow> held_at m' t = held_at m t)
     \<and> (\<forall>e \<in> set (register_staged xs). accepted config e (held_at m (target_of e)) (held_at m' (target_of e)))"
proof (intro conjI allI impI ballI)
  fix t assume t: "t \<notin> target_of ` set (register_staged xs)"
  show "held_at m' t = held_at m t"
  proof (cases t)
    case (RegisterNamed nm)
    have "nm \<notin> RegisterDescription.name ` set (map fst xs)"
      using t RegisterNamed by (force simp: register_staged_def)
    then show ?thesis by (simp add: RegisterNamed assms(4) apply_register_writes_other)
  qed (simp_all add: assms(4))
next
  fix e assume "e \<in> set (register_staged xs)"
  then obtain r v where e: "(r, v) \<in> set xs" "e = (RegisterDescription.name r, StagedRegister v)"
    by (auto simp: register_staged_def)
  have "distinct (map RegisterDescription.name (map fst xs))"
    using assms(1) by (simp add: comp_def case_prod_unfold)
  from apply_register_writes_get [OF this e(1)] e assms(2-4)
  show "accepted config e (held_at m (target_of e)) (held_at m' (target_of e))"
    by (fastforce simp: list_ex_iff list_all_iff)
qed

lemma confirm_write_multiple_settled:
  assumes "configured config m" and "ms uid = Some m"
    and "tiled entry_address entry_size a xs" and "fst ` set xs \<subseteq> set (ServerMachineState.registers m)"
    and "list_all (\<lambda>(r, v). data_type_of v = RegisterDescription.data_type r) xs"
    and "total_size entry_size xs \<le> 123"
  shows "\<exists>status m'. confirm_write_multiple display (loopback opts src bulk) a
        (entry_words (ServerMachineState.mem_layout m) xs) uid ms = (Ok status :: (WriteStatus, 'e) result, ms(uid \<mapsto> m'))
     \<and> (if status = WriteOk then list_all writable xs \<and> m' = m\<lparr>store := apply_register_writes xs (store m)\<rparr> else m' = m)"
proof -
  let ?layout = "ServerMachineState.mem_layout m" and ?rs = "ServerMachineState.registers m"
  let ?vals = "entry_words ?layout xs"
  let ?request = "\<lparr>WriteMultipleRegistersRequest.starting_address = a, register_values = ?vals\<rparr>"
  let ?response = "WriteMultipleRegistersResponse_encode \<lparr>WriteMultipleRegistersResponse.starting_address = a,
      quantity = of_nat (length ?vals)\<rparr>"
  have len: "length ?vals = total_size entry_size xs" by (rule length_entry_words [OF assms(5)])
  obtain rest where pdu: "WriteMultipleRegistersRequest_encode ?request = Ok (16 # rest)"
    using len assms(6) by (simp add: WriteMultipleRegistersRequest_encode_def Let_def)
  have decode: "WriteMultipleRegistersRequest_decode (16 # rest) = Ok ?request"
    using WriteMultipleRegistersRequest_decode_encode [OF pdu, of "[]"] by simp
  have resolve: "resolve_register_writes ?rs a ?vals ?layout = (if list_all writable xs then Ok xs else Err ())"
    using resolve_writes_entries [of a xs ?rs "[]" ?layout "[]"] assms(1,3-6) len
    by (simp add: resolve_register_writes_def configured_def)
  let ?ok = "list_all writable xs"
  have "handle_machine_request 16 (16 # rest) m
      = (Ok (if ?ok then ?response else exception 16 2) :: (bytes, io_error) result,
         if ?ok then m\<lparr>store := apply_register_writes xs (store m)\<rparr> else m)"
    using decode resolve
    by (simp add: handle_machine_request_def handle_write_multiple_registers_def)
  moreover have "interpret_write_response ?response = (Ok WriteOk :: (WriteStatus, 'e) result)"
    by (simp add: WriteMultipleRegistersResponse_encode_def encode_address_and_quantity_def interpret_reply to_be_bytes_def)
  ultimately show ?thesis
    unfolding confirm_write_multiple_def pdu result.case
    by (intro confirm_loopback [where refusal = "\<lambda>c. ''device returned Modbus exception code '' @ show_word c"])
       (simp_all add: assms(2) interpret_exception)
qed

lemma confirm_write_settled:
  assumes "configured config m" and "ms uid = Some m" and "r \<in> set (ServerMachineState.registers m)"
    and ty: "data_type_of v = RegisterDescription.data_type r"
    and one: "register_count (RegisterDescription.data_type r) = 1"
  shows "\<exists>status m'. confirm_write display (loopback opts src bulk) r v (ServerMachineState.mem_layout m) uid ms
       = (Ok status :: (WriteStatus, 'e) result, ms(uid \<mapsto> m'))
     \<and> (if status = WriteOk then writable (r, v) \<and> m' = m\<lparr>store := apply_register_writes [(r, v)] (store m)\<rparr> else m' = m)"
proof -
  let ?layout = "ServerMachineState.mem_layout m" and ?rs = "ServerMachineState.registers m"
  obtain w where w: "register_value_to_words v ?layout = [w]"
  proof -
    have "length (register_value_to_words v ?layout) = 1" using one by (simp add: ty)
    then show thesis using that by (metis One_nat_def length_0_conv length_Suc_conv)
  qed
  let ?request = "\<lparr>WriteSingleRegisterRequest.register_address = RegisterDescription.address r, register_value = w\<rparr>"
  let ?response = "WriteSingleRegisterResponse_encode
      \<lparr>WriteSingleRegisterResponse.register_address = RegisterDescription.address r, register_value = w\<rparr>"
  obtain rest where pdu: "WriteSingleRegisterRequest_encode ?request = 6 # rest"
    by (simp add: WriteSingleRegisterRequest_encode_def encode_address_and_quantity_def)
  have body: "encode_write_request r v ?layout = Ok (6 # rest)"
    using ty one w pdu by (simp add: encode_write_request_def Let_def)
  have decode: "WriteSingleRegisterRequest_decode (6 # rest) = Ok ?request"
    using request_round_trips(5) [of ?request] pdu by simp
  have find: "find_single_word_read_write_register ?rs (RegisterDescription.address r)
      = (if writable (r, v) then Some r else None)"
    using find_key_cond [OF _ assms(3) refl, of RegisterDescription.address
        "\<lambda>r. register_count (RegisterDescription.data_type r) = 1 \<and> RegisterDescription.access r = ReadWrite"] assms(1) one
    by (simp add: find_single_word_read_write_register_def configured_def)
  have from_words: "register_value_from_words (RegisterDescription.data_type r) [w] ?layout
      = (Ok (Some v) :: (RegisterValue option, io_error) result)"
    using register_value_from_to_words [where ?'a = io_error, of v ?layout] ty w by simp
  have "handle_machine_request 6 (6 # rest) m
      = (Ok (if writable (r, v) then ?response else exception 6 2) :: (bytes, io_error) result,
         if writable (r, v) then m\<lparr>store := apply_register_writes [(r, v)] (store m)\<rparr> else m)"
    using decode find from_words
    by (simp add: handle_machine_request_def handle_write_single_def apply_register_writes_def)
  moreover have "interpret_write_response ?response = (Ok WriteOk :: (WriteStatus, 'e) result)"
    by (simp add: WriteSingleRegisterResponse_encode_def encode_address_and_quantity_def interpret_reply to_be_bytes_def)
  ultimately show ?thesis
    unfolding confirm_write_def body result.case
    by (intro confirm_loopback [where refusal = "\<lambda>c. ''device returned Modbus exception code '' @ show_word c"])
       (simp_all add: assms(2) interpret_exception)
qed

lemma write_register_batch_settled:
  assumes "configured config m" and "ms uid = Some m" and "uid = MachineTransactionConfig.unit_id config"
    and "batch_ok entry_address entry_size 123 b" and "fst ` set (items b) \<subseteq> set (ServerMachineState.registers m)"
    and "list_all (\<lambda>(r, v). data_type_of v = RegisterDescription.data_type r) (items b)"
    and "distinct (map (\<lambda>(r, _). RegisterDescription.name r) (items b))"
  shows "\<exists>m' rep'. write_register_batch display (loopback opts src bulk) config b (ms, rep)
       = (Ok (ms(uid \<mapsto> m'), rep') :: (machines \<times> WriteReport, 'e) result)
     \<and> settled config (register_staged (items b)) (m, rep) (m', rep')"
proof -
  have layout: "MachineTransactionConfig.mem_layout config = ServerMachineState.mem_layout m"
    and regs: "MachineTransactionConfig.registers config = ServerMachineState.registers m"
    using assms(1) by (simp_all add: configured_def)
  note ok = batch_okD [OF assms(4)]
  obtain x xs where items: "items b = x # xs" using assms(4) by (auto simp: batch_ok_def fits_def neq_Nil_conv)
  obtain r v where x: "x = (r, v)" by fastforce
  let ?confirm = "\<lambda>s. if Batch.quantity b = 1 then
               (case items b of
                  [] \<Rightarrow> (Panic, s)
                | (r, v) # _ \<Rightarrow> confirm_write display (loopback opts src bulk) r v (ServerMachineState.mem_layout m) uid s)
             else
               confirm_write_multiple display (loopback opts src bulk) (Batch.starting_address b)
                 (entry_words (ServerMachineState.mem_layout m) (items b)) uid s"
  have sent: "\<exists>status m'. ?confirm ms = (Ok status :: (WriteStatus, 'e) result, ms(uid \<mapsto> m'))
      \<and> (if status = WriteOk then True \<and> m' = m\<lparr>store := apply_register_writes (items b) (store m)\<rparr> else m' = m)"
  proof (cases "Batch.quantity b = 1")
    case True
    then have total: "total_size entry_size (items b) = 1" using ok(2) by simp
    have pos: "0 < unat (register_count (RegisterDescription.data_type r))" by simp
    have "unat (register_count (RegisterDescription.data_type r)) + total_size entry_size xs = 1"
      using total by (simp add: items x)
    with pos have one: "unat (register_count (RegisterDescription.data_type r)) = 1" "total_size entry_size xs = 0"
      by linarith+
    have "xs = []"
    proof (cases xs)
      case (Cons y ys)
      have "0 < unat (register_count (RegisterDescription.data_type (fst y)))" by simp
      then show ?thesis using one(2) by (simp add: Cons case_prod_unfold del: register_count_positive)
    qed
    moreover have "register_count (RegisterDescription.data_type r) = 1"
      using one(1) by (simp add: word_unat_eq_iff)
    ultimately show ?thesis
      using confirm_write_settled [where ?'e = 'e and ms = ms and uid = uid, OF assms(1,2), of r v display opts src bulk] True assms(5,6)
      by (auto simp: items x split: if_splits)
  next
    case False
    have "total_size entry_size (items b) \<le> 123" using ok(2,3) by simp
    from confirm_write_multiple_settled [where ?'e = 'e and ms = ms and uid = uid, OF assms(1,2) ok(1) assms(5,6) this] False
    show ?thesis by (fastforce split: if_splits)
  qed
  have sub: "fst ` set (items b) \<subseteq> set (MachineTransactionConfig.registers config)" using assms(5) by (simp add: regs)
  show ?thesis
    unfolding write_register_batch_def Let_def layout assms(3) [symmetric]
  proof (rule reporting_settled [where ok = True and new = "m\<lparr>store := apply_register_writes (items b) (store m)\<rparr>"])
    show "set (map (\<lambda>(r, _). RegisterDescription.name r) (items b)) = fst ` set (register_staged (items b))"
      by (auto simp: register_staged_def image_image case_prod_unfold)
  qed (rule sent, simp add: same_layout_def, rule apply_register_writes_effect [OF assms(7,6) sub refl])
qed

section \<open>Coils\<close>

abbreviation coil_address :: "CoilDescription \<times> bool \<Rightarrow> u16" where
  "coil_address \<equiv> \<lambda>(c, _). CoilDescription.address c"

definition coil_staged :: "(CoilDescription \<times> bool) list \<Rightarrow> (string \<times> StagedValue) list" where
  "coil_staged xs = map (\<lambda>(c, v). (CoilDescription.name c, StagedCoil (CoilValue v))) xs"

lemma apply_coil_writes_effect:
  assumes "distinct (map (\<lambda>(c, _). CoilDescription.name c) xs)"
    and "fst ` set xs \<subseteq> set (MachineTransactionConfig.coils config)"
    and "m' = m\<lparr>coil_store := apply_coil_writes xs (coil_store m)\<rparr>"
  shows "(\<forall>t. t \<notin> target_of ` set (coil_staged xs) \<longrightarrow> held_at m' t = held_at m t)
     \<and> (\<forall>e \<in> set (coil_staged xs). accepted config e (held_at m (target_of e)) (held_at m' (target_of e)))"
proof (intro conjI allI impI ballI)
  let ?kvs = "map (\<lambda>(c, v). (CoilDescription.name c, CoilValue v)) xs"
  fix t assume t: "t \<notin> target_of ` set (coil_staged xs)"
  show "held_at m' t = held_at m t"
  proof (cases t)
    case (CoilNamed nm)
    have "nm \<notin> fst ` set ?kvs" using t CoilNamed by (force simp: coil_staged_def)
    then show ?thesis by (simp add: CoilNamed assms(3) apply_coil_writes_def coil_store.get_fold_untouched)
  qed (simp_all add: assms(3))
next
  let ?kvs = "map (\<lambda>(c, v). (CoilDescription.name c, CoilValue v)) xs"
  fix e assume "e \<in> set (coil_staged xs)"
  then obtain c v where e: "(c, v) \<in> set xs" "e = (CoilDescription.name c, StagedCoil (CoilValue v))"
    by (auto simp: coil_staged_def)
  have "distinct (map fst ?kvs)" using assms(1) by (simp add: comp_def case_prod_unfold)
  moreover have "(CoilDescription.name c, CoilValue v) \<in> set ?kvs" using e(1) by force
  ultimately have "CoilStore_get (coil_store m') (CoilDescription.name c) = Some (CoilValue v)"
    unfolding assms(3) apply_coil_writes_def by (simp add: coil_store.get_fold_distinct)
  with e assms(2) show "accepted config e (held_at m (target_of e)) (held_at m' (target_of e))"
    by (fastforce simp: list_ex_iff)
qed

lemma resolve_coil_entries:
  assumes "tiled coil_address (\<lambda>_. 1) (start + of_nat k) xs" and "fst ` set xs \<subseteq> set cs"
    and "distinct (map CoilDescription.address cs)"
  shows "resolve_coil_writes cs start (enumerate k (map snd xs)) = Some xs"
  using assms
proof (induction xs arbitrary: k)
  case (Cons x xs)
  obtain c v where x: "x = (c, v)" by fastforce
  have "List.find (\<lambda>c. CoilDescription.address c = start + of_nat k) cs = Some c"
    using Cons.prems by (intro find_key) (auto simp: x)
  then show ?case
    using Cons.IH [of "Suc k"] Cons.prems by (simp add: x add.assoc add.commute [of "1 :: u16"])
qed simp

lemma confirm_coils_settled:
  assumes "configured config m" and "ms uid = Some m"
    and "tiled coil_address (\<lambda>_. 1) a xs" and "fst ` set xs \<subseteq> set (ServerMachineState.coils m)" and "length xs \<le> 1968"
  shows "\<exists>status m'. (case xs of
          [(c, v)] \<Rightarrow> confirm_coil_write display (loopback opts src bulk) c v uid ms
        | _ \<Rightarrow> confirm_coil_write_multiple display (loopback opts src bulk) a (map snd xs) uid ms)
       = (Ok status :: (WriteStatus, 'e) result, ms(uid \<mapsto> m'))
     \<and> (if status = WriteOk then True \<and> m' = m\<lparr>coil_store := apply_coil_writes xs (coil_store m)\<rparr> else m' = m)"
proof -
  let ?new = "m\<lparr>coil_store := apply_coil_writes xs (coil_store m)\<rparr>"
  let ?request = "\<lparr>WriteMultipleCoilsRequest.starting_address = a, coil_values = map snd xs\<rparr>"
  have coils: "distinct (map CoilDescription.address (ServerMachineState.coils m))"
    using assms(1) by (simp add: configured_def)
  have multiple: "\<exists>status m'. confirm_coil_write_multiple display (loopback opts src bulk) a (map snd xs) uid ms
       = (Ok status :: (WriteStatus, 'e) result, ms(uid \<mapsto> m'))
     \<and> (if status = WriteOk then True \<and> m' = ?new else m' = m)"
  proof -
    obtain rest where pdu: "WriteMultipleCoilsRequest_encode ?request = (Ok (15 # rest) :: (bytes, 'e) result)"
      by (simp add: WriteMultipleCoilsRequest_encode_eq Let_def)
    have decode: "WriteMultipleCoilsRequest_decode (15 # rest) = Ok ?request"
      using WriteMultipleCoilsRequest_decode_encode [OF _ pdu, of "[]"] assms(5) by simp
    have "handle_machine_request 15 (15 # rest) m = (Ok (if True then WriteMultipleCoilsResponse_encode
          \<lparr>WriteMultipleCoilsResponse.starting_address = a, quantity = of_nat (length xs)\<rparr> else exception 15 0)
          :: (bytes, io_error) result, if True then ?new else m)"
      using decode resolve_coil_entries [of a 0 xs "ServerMachineState.coils m"] assms(3,4) coils
      by (simp add: handle_machine_request_def handle_write_multiple_coils_def)
    moreover have "interpret_write_response (WriteMultipleCoilsResponse_encode
        \<lparr>WriteMultipleCoilsResponse.starting_address = a, quantity = of_nat (length xs)\<rparr>) = (Ok WriteOk :: (WriteStatus, 'e) result)"
      by (simp add: WriteMultipleCoilsResponse_encode_def encode_address_and_quantity_def interpret_reply to_be_bytes_def)
    ultimately show ?thesis
      unfolding confirm_coil_write_multiple_def pdu result.case
      by (intro confirm_loopback [where refusal = "\<lambda>c. ''device returned Modbus exception code '' @ show_word c"])
         (simp_all add: assms(2) interpret_exception)
  qed
  show ?thesis
  proof (cases "\<exists>c v. xs = [(c, v)]")
    case True
    then obtain c v where xs: "xs = [(c, v)]" by blast
    obtain rest where pdu: "encode_coil_write_request c v = 5 # rest"
      by (simp add: encode_coil_write_request_def WriteSingleCoilRequest_encode_def encode_write_single_coil_def
        encode_address_and_quantity_def)
    have decode: "WriteSingleCoilRequest_decode (5 # rest)
        = Ok \<lparr>WriteSingleCoilRequest.coil_address = CoilDescription.address c, coil_value = v\<rparr>"
      using request_round_trips(6) pdu by (simp add: encode_coil_write_request_def flip: pdu)
    have "List.find (\<lambda>x. CoilDescription.address x = CoilDescription.address c) (ServerMachineState.coils m) = Some c"
      using assms(4) by (intro find_key [OF coils]) (auto simp: xs)
    then have "handle_machine_request 5 (5 # rest) m = (Ok (if True then WriteSingleCoilResponse_encode
          \<lparr>WriteSingleCoilResponse.coil_address = CoilDescription.address c, coil_value = v\<rparr> else exception 5 0)
          :: (bytes, io_error) result, if True then ?new else m)"
      using decode by (simp add: handle_machine_request_def handle_write_single_coil_def apply_coil_writes_def xs)
    moreover have "interpret_write_response (WriteSingleCoilResponse_encode
        \<lparr>WriteSingleCoilResponse.coil_address = CoilDescription.address c, coil_value = v\<rparr>)
        = (Ok WriteOk :: (WriteStatus, 'e) result)"
      by (simp add: WriteSingleCoilResponse_encode_def encode_write_single_coil_def encode_address_and_quantity_def
          interpret_reply to_be_bytes_def)
    ultimately show ?thesis
      unfolding xs list.case prod.case confirm_coil_write_def pdu
      by (intro confirm_loopback [where refusal = "\<lambda>c. ''device returned Modbus exception code '' @ show_word c"])
         (simp_all add: assms(2) interpret_exception)
  next
    case False
    then have "(case xs of
          [(c, v)] \<Rightarrow> confirm_coil_write display (loopback opts src bulk) c v uid ms
        | _ \<Rightarrow> confirm_coil_write_multiple display (loopback opts src bulk) a (map snd xs) uid ms)
        = (confirm_coil_write_multiple display (loopback opts src bulk) a (map snd xs) uid ms
            :: (WriteStatus, 'e) result \<times> machines)"
      by (auto split: list.split)
    with multiple show ?thesis by (simp only:)
  qed
qed

lemma write_coil_batch_settled:
  assumes "configured config m" and "ms uid = Some m" and "uid = MachineTransactionConfig.unit_id config"
    and "batch_ok coil_address (\<lambda>_. 1) 1968 b" and "fst ` set (items b) \<subseteq> set (ServerMachineState.coils m)"
    and "distinct (map (\<lambda>(c, _). CoilDescription.name c) (items b))"
  shows "\<exists>m' rep'. write_coil_batch display (loopback opts src bulk) config b (ms, rep)
       = (Ok (ms(uid \<mapsto> m'), rep') :: (machines \<times> WriteReport, 'e) result)
     \<and> settled config (coil_staged (items b)) (m, rep) (m', rep')"
proof -
  note ok = batch_okD [OF assms(4)]
  have "length (items b) \<le> 1968" using ok(2,3) by (simp add: total_size_def sum_list_triv)
  note sent = confirm_coils_settled [where ?'e = 'e and ms = ms and uid = uid, OF assms(1,2) ok(1) assms(5) this]
  have sub: "fst ` set (items b) \<subseteq> set (MachineTransactionConfig.coils config)"
    using assms(1,5) by (simp add: configured_def)
  show ?thesis
    unfolding write_coil_batch_def Let_def assms(3) [symmetric]
  proof (rule reporting_settled [where ok = True and new = "m\<lparr>coil_store := apply_coil_writes (items b) (coil_store m)\<rparr>"])
    show "set (map (\<lambda>(c, _). CoilDescription.name c) (items b)) = fst ` set (coil_staged (items b))"
      by (auto simp: coil_staged_def image_image case_prod_unfold)
  qed (rule sent, simp add: same_layout_def, rule apply_coil_writes_effect [OF assms(6) sub refl])
qed

section \<open>Masks and file records\<close>

lemma from_words_infallible:
  "register_value_from_words dt ws layout = (Ok x :: (RegisterValue option, 'a) result) \<Longrightarrow>
     register_value_from_words dt ws layout = (Ok x :: (RegisterValue option, 'b) result)"
  by (cases dt) (auto simp: register_value_from_words_def Let_def be_array_def index_def split: if_splits)

lemma write_mask_settled:
  assumes "configured config m" and "ms uid = Some m" and "uid = MachineTransactionConfig.unit_id config"
    and "r \<in> set (ServerMachineState.registers m)" and one: "register_count (RegisterDescription.data_type r) = 1"
  shows "\<exists>m' rep'. write_mask display (loopback opts src bulk) config (r, amask, omask) (ms, rep)
       = (Ok (ms(uid \<mapsto> m'), rep') :: (machines \<times> WriteReport, 'e) result)
     \<and> settled config [(RegisterDescription.name r, MaskedRegister amask omask)] (m, rep) (m', rep')"
proof -
  let ?layout = "ServerMachineState.mem_layout m" and ?nm = "RegisterDescription.name r"
    and ?dt = "RegisterDescription.data_type r" and ?rs = "ServerMachineState.registers m"
  let ?request = "\<lparr>MaskWriteRegisterRequest.reference_address = RegisterDescription.address r,
      and_mask = amask, or_mask = omask\<rparr>"
  let ?old = "RegisterStore_get (store m) ?nm"
  have "length (register_value_to_words (current_value (\<lambda>_. ?old) ?nm ?dt) ?layout) = 1" using one by simp
  then obtain w where w: "register_value_to_words (current_value (\<lambda>_. ?old) ?nm ?dt) ?layout = [w]"
    by (metis One_nat_def length_0_conv length_Suc_conv)
  have same: "current_value (RegisterStore_get (store m)) ?nm ?dt = current_value (\<lambda>_. ?old) ?nm ?dt"
    by (simp add: current_value_def)
  let ?word = "(w AND amask) OR (omask AND NOT amask)"
  have "length [?word] = unat (register_count ?dt)" using one by simp
  then obtain v where v: "register_value_from_words ?dt [?word] ?layout = (Ok (Some v) :: (RegisterValue option, unit) result)"
    by (rule from_words_wire_view [where ?'e = unit])
  note v_io = from_words_infallible [where ?'b = io_error, OF v]
  obtain rest where pdu: "MaskWriteRegisterRequest_encode ?request = 22 # rest"
    by (simp add: MaskWriteRegisterRequest_encode_def encode_mask_write_register_def)
  have decode: "MaskWriteRegisterRequest_decode (22 # rest) = Ok ?request"
    using request_round_trips(7) [of ?request] pdu by simp
  let ?ok = "RegisterDescription.access r = ReadWrite" and ?new = "m\<lparr>store := RegisterStore_set ?nm v (store m)\<rparr>"
  have find: "find_single_word_read_write_register ?rs (RegisterDescription.address r) = (if ?ok then Some r else None)"
    using find_key_cond [OF _ assms(4) refl, of RegisterDescription.address
        "\<lambda>r. register_count (RegisterDescription.data_type r) = 1 \<and> RegisterDescription.access r = ReadWrite"] assms(1) one
    by (simp add: find_single_word_read_write_register_def configured_def)
  let ?response = "MaskWriteRegisterResponse_encode \<lparr>MaskWriteRegisterResponse.reference_address
      = RegisterDescription.address r, and_mask = amask, or_mask = omask\<rparr>"
  have handled: "handle_machine_request 22 (22 # rest) m
      = (Ok (if ?ok then ?response else exception 22 2) :: (bytes, io_error) result, if ?ok then ?new else m)"
    using decode find v_io w same
    by (simp add: handle_machine_request_def handle_mask_write_register_def Let_def)
  have "interpret_write_response ?response = (Ok WriteOk :: (WriteStatus, 'e) result)"
    by (simp add: MaskWriteRegisterResponse_encode_def encode_mask_write_register_def interpret_reply to_be_bytes_def)
  with handled have sent: "\<exists>status m'. confirm_mask_write display (loopback opts src bulk) r amask omask uid ms
      = (Ok status :: (WriteStatus, 'e) result, ms(uid \<mapsto> m')) \<and> (if status = WriteOk then ?ok \<and> m' = ?new else m' = m)"
    unfolding confirm_mask_write_def pdu
    by (intro confirm_loopback [where refusal = "\<lambda>c. ''device returned Modbus exception code '' @ show_word c"])
       (simp_all add: assms(2) interpret_exception)
  have effect: "(\<forall>t. t \<notin> target_of ` set [(?nm, MaskedRegister amask omask)] \<longrightarrow> held_at ?new t = held_at m t)
      \<and> (\<forall>e \<in> set [(?nm, MaskedRegister amask omask)]. accepted config e (held_at m (target_of e)) (held_at ?new (target_of e)))"
  proof (intro conjI allI impI)
    fix t assume "t \<notin> target_of ` set [(?nm, MaskedRegister amask omask)]"
    then show "held_at ?new t = held_at m t" by (cases t) (auto simp: register_store.get_set)
  qed (use v w assms(1,4) in \<open>auto simp: list_ex_iff configured_def register_store.get_set\<close>)
  show ?thesis
    unfolding write_mask_def prod.case assms(3) [symmetric]
    by (rule reporting_settled [where ok = ?ok and new = ?new])
       (rule sent, simp, simp add: same_layout_def, rule effect)
qed

lemma write_file_record_settled:
  assumes "configured config m" and "ms uid = Some m" and "uid = MachineTransactionConfig.unit_id config"
    and "List.find (\<lambda>d. FileRecordDescription.file_number d = f \<and> FileRecordDescription.record_number d = rn)
           (ServerMachineState.file_records m) = Some d"
    and len: "length v = unat (FileRecordDescription.record_length d) * 2"
  shows "\<exists>m' rep'. write_file_record_entry display (loopback opts src bulk) config (nm, f, rn, v) (ms, rep)
       = (Ok (ms(uid \<mapsto> m'), rep') :: (machines \<times> WriteReport, 'e) result)
     \<and> settled config [(nm, StagedFileRecord f rn v)] (m, rep) (m', rep')"
proof -
  let ?srs = "[\<lparr>WriteFileRecordSubRequest.file_number = f, record_number = rn, record_data = v\<rparr>]"
  let ?ds = "ServerMachineState.file_records m"
  let ?new = "m\<lparr>file_record_store := FileRecordStore_set (f, rn) v (file_record_store m)\<rparr>"
  have d: "d \<in> set ?ds" "FileRecordDescription.file_number d = f" "FileRecordDescription.record_number d = rn"
    using find_Some_set [OF assms(4)] by auto
  have small: "sum_list (map (\<lambda>sr. 7 + length (WriteFileRecordSubRequest.record_data sr)) ?srs) < 256"
    using assms(1) d(1) len by (auto simp: configured_def list_all_iff)
  define rest where "rest = (7 + of_nat (length v)) # encode_write_sub_request (hd ?srs)"
  have body: "encode_write_file_record 21 ?srs = Ok (21 # rest)"
    using len by (simp add: encode_write_file_record_def Let_def rest_def)
  have pdu: "WriteFileRecordRequest_encode \<lparr>WriteFileRecordRequest.sub_requests = ?srs\<rparr> = Ok (21 # rest)"
    using body by (simp add: WriteFileRecordRequest_encode_def)
  have decode: "decode_write_file_record (21 # rest) 21 = Ok ?srs"
    using decode_encode_write_file_record [OF small body, of "[]"] by simp
  have check: "check_file_writes ?ds ?srs = Ok ()" using assms(4) len by (simp add: find_file_record_def)
  have handled: "handle_machine_request 21 (21 # rest) m
      = (Ok (if True then 21 # rest else exception 21 0) :: (bytes, io_error) result, if True then ?new else m)"
    using body decode check
    by (simp add: handle_machine_request_def handle_write_file_record_def WriteFileRecordRequest_decode_def
        WriteFileRecordResponse_encode_def apply_file_writes_def)
  have "rest \<noteq> []" by (simp add: rest_def)
  then have "interpret_write_file_record_response (21 # rest) ?srs = (Ok WriteOk :: (WriteStatus, 'e) result)"
    using decode by (cases rest) (simp_all add: interpret_write_file_record_response_def ExceptionResponse_decode_def
      WriteFileRecordResponse_decode_def)
  with handled have sent: "\<exists>status m'. confirm_file_record_write display (loopback opts src bulk) f rn v uid ms
      = (Ok status :: (WriteStatus, 'e) result, ms(uid \<mapsto> m')) \<and> (if status = WriteOk then True \<and> m' = ?new else m' = m)"
    unfolding confirm_file_record_write_def Let_def pdu result.case
    by (intro confirm_loopback [where refusal = "\<lambda>c. ''device returned Modbus exception code '' @ show_word c"])
       (simp_all add: assms(2) interpret_exception)
  have effect: "(\<forall>t. t \<notin> target_of ` set [(nm, StagedFileRecord f rn v)] \<longrightarrow> held_at ?new t = held_at m t)
      \<and> (\<forall>e \<in> set [(nm, StagedFileRecord f rn v)]. accepted config e (held_at m (target_of e)) (held_at ?new (target_of e)))"
  proof (intro conjI allI impI)
    fix t assume "t \<notin> target_of ` set [(nm, StagedFileRecord f rn v)]"
    then show "held_at ?new t = held_at m t" by (cases t) (auto simp: file_record_store.get_set)
  qed (use d len assms(1) in \<open>auto simp: list_ex_iff configured_def file_record_store.get_set\<close>)
  show ?thesis
    unfolding write_file_record_entry_def prod.case assms(3) [symmetric]
    by (rule reporting_settled [where ok = True and new = ?new])
       (rule sent, simp, simp add: same_layout_def, rule effect)
qed

section \<open>Whole transactions\<close>

text \<open>A part of the consumer that settles its entries on the server, from any state.\<close>

definition settles ::
    "MachineTransactionConfig \<Rightarrow> u8 \<Rightarrow> (string \<times> StagedValue) list
     \<Rightarrow> (machines \<times> WriteReport \<Rightarrow> (machines \<times> WriteReport, 'e) result) \<Rightarrow> bool" where
  "settles config uid es f \<longleftrightarrow>
     (\<forall>ms m rep. configured config m \<longrightarrow> ms uid = Some m \<longrightarrow>
        (\<exists>m' rep'. f (ms, rep) = Ok (ms(uid \<mapsto> m'), rep') \<and> settled config es (m, rep) (m', rep')))"

lemma settles_Nil: "settles config uid [] Ok"
  unfolding settles_def
proof (intro allI impI)
  fix ms :: machines and m rep assume "ms uid = Some m"
  then have "ms(uid \<mapsto> m) = ms" by (simp add: fun_upd_idem)
  then show "\<exists>m' rep'. Ok (ms, rep) = Ok (ms(uid \<mapsto> m'), rep') \<and> settled config [] (m, rep) (m', rep')"
    by (intro exI [of _ m] exI [of _ rep]) simp
qed

lemma settles_then:
  assumes f: "settles config uid es1 f" and g: "settles config uid es2 g"
    and "distinct (map fst (es1 @ es2))" and "distinct (map target_of (es1 @ es2))"
  shows "settles config uid (es1 @ es2) (\<lambda>st. and_then (f st) g)"
  unfolding settles_def
proof (intro allI impI)
  fix ms m rep assume "configured config m" "ms uid = Some m"
  with f obtain m1 rep1 where 1: "f (ms, rep) = Ok (ms(uid \<mapsto> m1), rep1)" "settled config es1 (m, rep) (m1, rep1)"
    unfolding settles_def by blast
  have "configured config m1"
    using 1(2) \<open>configured config m\<close> by (auto simp: settled_def intro: configured_layout)
  moreover have "(ms(uid \<mapsto> m1)) uid = Some m1" by simp
  ultimately obtain m2 rep2 where 2: "g (ms(uid \<mapsto> m1), rep1) = Ok (ms(uid \<mapsto> m1, uid \<mapsto> m2), rep2)"
    "settled config es2 (m1, rep1) (m2, rep2)"
    using g unfolding settles_def by blast
  have "settled config (es1 @ es2) (m, rep) (m2, rep2)"
    using assms(3,4) by (intro settled_append [OF 1(2) 2(2)]) auto
  moreover have "and_then (f (ms, rep)) g = Ok (ms(uid \<mapsto> m2), rep2)"
    unfolding 1(1) and_then.simps using 2(1) by (simp only: fun_upd_upd)
  ultimately show "\<exists>m' rep'. and_then (f (ms, rep)) g = Ok (ms(uid \<mapsto> m'), rep')
      \<and> settled config (es1 @ es2) (m, rep) (m', rep')" by blast
qed

lemma for_each_settles:
  assumes "\<And>x. x \<in> set xs \<Longrightarrow> settles config uid (part x) (f x)"
    and "distinct (map fst (concat (map part xs)))" and "distinct (map target_of (concat (map part xs)))"
  shows "settles config uid (concat (map part xs)) (for_each f xs)"
  using assms
proof (induction xs)
  case Nil
  have "for_each f [] = Ok" by (rule ext) simp
  then show ?case using settles_Nil by simp
next
  case (Cons x xs)
  have "for_each f (x # xs) = (\<lambda>st. and_then (f x st) (for_each f xs))" by (rule ext) simp
  moreover have "settles config uid (concat (map part xs)) (for_each f xs)"
    using Cons.prems by (intro Cons.IH) auto
  ultimately show ?case
    using Cons.prems settles_then [of config uid "part x" "f x" "concat (map part xs)" "for_each f xs"] by simp
qed

definition mask_staged :: "RegisterDescription \<times> u16 \<times> u16 \<Rightarrow> string \<times> StagedValue" where
  "mask_staged = (\<lambda>(r, amask, omask). (RegisterDescription.name r, MaskedRegister amask omask))"

definition file_staged :: "string \<times> u16 \<times> u16 \<times> bytes \<Rightarrow> string \<times> StagedValue" where
  "file_staged = (\<lambda>(nm, f, rn, v). (nm, StagedFileRecord f rn v))"

definition all_staged :: "Resolution \<Rightarrow> (string \<times> StagedValue) list" where
  "all_staged res = register_staged (register_entries res) @ coil_staged (coil_entries res)
     @ map mask_staged (masked_register_entries res) @ map file_staged (file_record_entries res)"

definition resolved :: "MachineTransactionConfig \<Rightarrow> Resolution \<Rightarrow> bool" where
  "resolved config res \<longleftrightarrow>
     list_all (\<lambda>(r, v). r \<in> set (MachineTransactionConfig.registers config)
       \<and> data_type_of v = RegisterDescription.data_type r) (register_entries res)
     \<and> list_all (\<lambda>(c, _). c \<in> set (MachineTransactionConfig.coils config)) (coil_entries res)
     \<and> list_all (\<lambda>(r, _, _). r \<in> set (MachineTransactionConfig.registers config)
          \<and> register_count (RegisterDescription.data_type r) = 1) (masked_register_entries res)
     \<and> list_all (\<lambda>(_, f, rn, v). \<exists>d. List.find (\<lambda>d. FileRecordDescription.file_number d = f
            \<and> FileRecordDescription.record_number d = rn) (MachineTransactionConfig.file_records config) = Some d
          \<and> length v = unat (FileRecordDescription.record_length d) * 2) (file_record_entries res)"

lemma resolve_entry_cases:
  "(\<exists>reason. resolve_entry config e res = fail_entry (fst e) reason res)
   \<or> mset (all_staged (resolve_entry config e res)) = {#e#} + mset (all_staged res)
     \<and> Resolution.report (resolve_entry config e res) = Resolution.report res
     \<and> (resolved config res \<longrightarrow> resolved config (resolve_entry config e res))"
  by (cases "(config, e, res)" rule: resolve_entry.cases)
     (auto simp: all_staged_def register_staged_def coil_staged_def mask_staged_def file_staged_def resolved_def
       split: option.splits dest!: find_Some_set)

lemma resolve_settled:
  assumes "resolved config res"
  shows "\<exists>failed. mset failed + mset (all_staged (fold (resolve_entry config) transaction res))
        = mset transaction + mset (all_staged res)
     \<and> (\<forall>e \<in> set failed. \<exists>reason. WriteReport_get (Resolution.report (fold (resolve_entry config) transaction res)) (fst e)
          = Some (WriteFailed reason))
     \<and> (\<forall>nm. nm \<notin> fst ` set failed \<longrightarrow> WriteReport_get (Resolution.report (fold (resolve_entry config) transaction res)) nm
          = WriteReport_get (Resolution.report res) nm)
     \<and> resolved config (fold (resolve_entry config) transaction res)"
  using assms
proof (induction transaction arbitrary: res)
  case Nil
  then show ?case by (intro exI [of _ "[]"]) simp
next
  case (Cons e transaction)
  let ?res1 = "resolve_entry config e res" and ?res2 = "fold (resolve_entry config) (e # transaction) res"
  have "resolved config ?res1"
    using resolve_entry_cases [of config e res] Cons.prems by (auto simp: fail_entry_def resolved_def)
  from Cons.IH [OF this] obtain failed where f:
    "mset failed + mset (all_staged ?res2) = mset transaction + mset (all_staged ?res1)"
    "\<forall>e \<in> set failed. \<exists>reason. WriteReport_get (Resolution.report ?res2) (fst e) = Some (WriteFailed reason)"
    "\<forall>nm. nm \<notin> fst ` set failed \<longrightarrow> WriteReport_get (Resolution.report ?res2) nm = WriteReport_get (Resolution.report ?res1) nm"
    "resolved config ?res2" by auto
  from resolve_entry_cases [of config e res] show ?case
  proof
    assume "\<exists>reason. ?res1 = fail_entry (fst e) reason res"
    then obtain reason where 1: "?res1 = fail_entry (fst e) reason res" by blast
    have failed_e: "\<exists>reason. WriteReport_get (Resolution.report ?res2) (fst e) = Some (WriteFailed reason)"
      using f(2,3) by (cases "fst e \<in> fst ` set failed") (auto simp: 1 fail_entry_def write_report.get_set)
    have "mset (e # failed) + mset (all_staged ?res2) = mset (e # transaction) + mset (all_staged res)"
      using f(1) by (simp add: 1 fail_entry_def all_staged_def)
    with f failed_e show ?thesis
      by (intro exI [of _ "e # failed"]) (auto simp: 1 fail_entry_def write_report.get_set)
  next
    assume "mset (all_staged ?res1) = {#e#} + mset (all_staged res) \<and> Resolution.report ?res1 = Resolution.report res
      \<and> (resolved config res \<longrightarrow> resolved config ?res1)"
    with f show ?thesis by (intro exI [of _ failed]) simp
  qed
qed

lemma distinct_map_mset: "mset xs = mset ys \<Longrightarrow> distinct (map f xs) \<longleftrightarrow> distinct (map f ys)"
  by (metis mset_eq_imp_distinct_iff mset_map)

lemma distinct_map_part: "distinct (map f (concat xss)) \<Longrightarrow> xs \<in> set xss \<Longrightarrow> distinct (map f xs)"
  by (induction xss) auto

lemma register_loop_settles:
  assumes "uid = MachineTransactionConfig.unit_id config"
    and "\<And>b. b \<in> set bs \<Longrightarrow> batch_ok entry_address entry_size 123 b"
    and "\<And>b. b \<in> set bs \<Longrightarrow> set (items b) \<subseteq> set xs"
    and "list_all (\<lambda>(r, v). r \<in> set (MachineTransactionConfig.registers config)
       \<and> data_type_of v = RegisterDescription.data_type r) xs"
    and "distinct (map fst (concat (map (\<lambda>b. register_staged (items b)) bs)))"
    and "distinct (map target_of (concat (map (\<lambda>b. register_staged (items b)) bs)))"
  shows "settles config uid (concat (map (\<lambda>b. register_staged (items b)) bs))
     (for_each (write_register_batch display (loopback opts src bulk) config) bs)"
proof (rule for_each_settles [OF _ assms(5,6)])
  fix b assume b: "b \<in> set bs"
  have "distinct (map fst (register_staged (items b)))" using distinct_map_part [OF assms(5)] b by auto
  then have names: "distinct (map (\<lambda>(r, _). RegisterDescription.name r) (items b))"
    by (simp add: register_staged_def comp_def case_prod_unfold)
  have typed: "list_all (\<lambda>(r, v). data_type_of v = RegisterDescription.data_type r) (items b)"
    "fst ` set (items b) \<subseteq> set (MachineTransactionConfig.registers config)"
    using assms(3) [OF b] assms(4) by (fastforce simp: list_all_iff)+
  show "settles config uid (register_staged (items b)) (write_register_batch display (loopback opts src bulk) config b)"
    unfolding settles_def using typed(2) b
    by (intro allI impI write_register_batch_settled typed(1) names assms(1,2)) (auto simp: configured_def)
qed

lemma coil_loop_settles:
  assumes "uid = MachineTransactionConfig.unit_id config"
    and "\<And>b. b \<in> set bs \<Longrightarrow> batch_ok coil_address (\<lambda>_. 1) 1968 b"
    and "\<And>b. b \<in> set bs \<Longrightarrow> set (items b) \<subseteq> set xs"
    and "list_all (\<lambda>(c, _). c \<in> set (MachineTransactionConfig.coils config)) xs"
    and "distinct (map fst (concat (map (\<lambda>b. coil_staged (items b)) bs)))"
    and "distinct (map target_of (concat (map (\<lambda>b. coil_staged (items b)) bs)))"
  shows "settles config uid (concat (map (\<lambda>b. coil_staged (items b)) bs))
     (for_each (write_coil_batch display (loopback opts src bulk) config) bs)"
proof (rule for_each_settles [OF _ assms(5,6)])
  fix b assume b: "b \<in> set bs"
  have "distinct (map fst (coil_staged (items b)))" using distinct_map_part [OF assms(5)] b by auto
  then have names: "distinct (map (\<lambda>(c, _). CoilDescription.name c) (items b))"
    by (simp add: coil_staged_def comp_def case_prod_unfold)
  have "fst ` set (items b) \<subseteq> set (MachineTransactionConfig.coils config)"
    using assms(3) [OF b] assms(4) by (fastforce simp: list_all_iff)
  then show "settles config uid (coil_staged (items b)) (write_coil_batch display (loopback opts src bulk) config b)"
    unfolding settles_def using b
    by (intro allI impI write_coil_batch_settled names assms(1,2)) (auto simp: configured_def)
qed

lemma mask_loop_settles:
  assumes "uid = MachineTransactionConfig.unit_id config"
    and "list_all (\<lambda>(r, _, _). r \<in> set (MachineTransactionConfig.registers config)
          \<and> register_count (RegisterDescription.data_type r) = 1) xs"
    and "distinct (map fst (concat (map (\<lambda>x. [mask_staged x]) xs)))"
    and "distinct (map target_of (concat (map (\<lambda>x. [mask_staged x]) xs)))"
  shows "settles config uid (concat (map (\<lambda>x. [mask_staged x]) xs))
     (for_each (write_mask display (loopback opts src bulk) config) xs)"
proof (rule for_each_settles [OF _ assms(3,4)])
  fix x assume x: "x \<in> set xs"
  obtain r amask omask where e: "x = (r, amask, omask)" by (cases x)
  have "r \<in> set (MachineTransactionConfig.registers config)" "register_count (RegisterDescription.data_type r) = 1"
    using x assms(2) by (auto simp: e list_all_iff)
  then show "settles config uid [mask_staged x] (write_mask display (loopback opts src bulk) config x)"
    unfolding settles_def e mask_staged_def prod.case
    by (intro allI impI write_mask_settled assms(1)) (auto simp: configured_def)
qed

lemma file_loop_settles:
  assumes "uid = MachineTransactionConfig.unit_id config"
    and "list_all (\<lambda>(_, f, rn, v). \<exists>d. List.find (\<lambda>d. FileRecordDescription.file_number d = f
            \<and> FileRecordDescription.record_number d = rn) (MachineTransactionConfig.file_records config) = Some d
          \<and> length v = unat (FileRecordDescription.record_length d) * 2) xs"
    and "distinct (map fst (concat (map (\<lambda>x. [file_staged x]) xs)))"
    and "distinct (map target_of (concat (map (\<lambda>x. [file_staged x]) xs)))"
  shows "settles config uid (concat (map (\<lambda>x. [file_staged x]) xs))
     (for_each (write_file_record_entry display (loopback opts src bulk) config) xs)"
proof (rule for_each_settles [OF _ assms(3,4)])
  fix x assume x: "x \<in> set xs"
  obtain nm f rn v where e: "x = (nm, f, rn, v)" by (cases x)
  obtain d where "List.find (\<lambda>d. FileRecordDescription.file_number d = f \<and> FileRecordDescription.record_number d = rn)
      (MachineTransactionConfig.file_records config) = Some d" "length v = unat (FileRecordDescription.record_length d) * 2"
    using x assms(2) by (auto simp: e list_all_iff)
  then show "settles config uid [file_staged x] (write_file_record_entry display (loopback opts src bulk) config x)"
    unfolding settles_def e file_staged_def prod.case
    by (intro allI impI write_file_record_settled assms(1)) (auto simp: configured_def)
qed

lemma distinct_map_parts: "distinct (map f (xs @ ys)) \<Longrightarrow> f ` set xs \<inter> f ` set ys = {}"
  by (simp only: map_append distinct_append set_map)

lemma process_transaction_settled:
  assumes conf: "configured config m" and ms: "ms uid = Some m" and uid: "uid = MachineTransactionConfig.unit_id config"
    and names: "distinct (map fst transaction)" and targets: "distinct (map target_of transaction)"
  shows "\<exists>m' rep'. process_transaction display (loopback opts src bulk) config transaction (ms, rep)
       = (Ok (ms(uid \<mapsto> m'), rep') :: (machines \<times> WriteReport, 'e) result)
     \<and> settled config transaction (m, rep) (m', rep')"
proof -
  define res where "res = resolve_transaction config transaction rep"
  obtain failed where f: "mset failed + mset (all_staged res) = mset transaction"
    "\<forall>e \<in> set failed. \<exists>reason. WriteReport_get (Resolution.report res) (fst e) = Some (WriteFailed reason)"
    "\<forall>nm. nm \<notin> fst ` set failed \<longrightarrow> WriteReport_get (Resolution.report res) nm = WriteReport_get rep nm"
    "resolved config res"
    using resolve_settled [of config "\<lparr>register_entries = [], coil_entries = [], masked_register_entries = [],
      file_record_entries = [], report = rep\<rparr>" transaction]
    by (auto simp: resolved_def all_staged_def register_staged_def coil_staged_def res_def resolve_transaction_def)
  obtain rbs where rbs: "build_register_write_batches (register_entries res)
        = (Ok rbs :: ((RegisterDescription \<times> RegisterValue) Batch list, 'e) result)"
      "concat (map items rbs) = sort_key entry_address (register_entries res)"
      "\<And>b. b \<in> set rbs \<Longrightarrow> batch_ok entry_address entry_size 123 b"
      "\<And>b. b \<in> set rbs \<Longrightarrow> set (items b) \<subseteq> set (register_entries res)"
    by (rule register_write_batches [where ?'e = 'e and xs = "register_entries res"]) (rule that; blast)
  obtain cbs where cbs: "build_coil_write_batches (coil_entries res)
        = (Ok cbs :: ((CoilDescription \<times> bool) Batch list, 'e) result)"
      "concat (map items cbs) = sort_key coil_address (coil_entries res)"
      "\<And>b. b \<in> set cbs \<Longrightarrow> batch_ok coil_address (\<lambda>_. 1) 1968 b"
      "\<And>b. b \<in> set cbs \<Longrightarrow> set (items b) \<subseteq> set (coil_entries res)"
    by (rule coil_write_batches [where ?'e = 'e and xs = "coil_entries res"]) (rule that; blast)
  let ?R = "concat (map (\<lambda>b. register_staged (items b)) rbs)" and ?C = "concat (map (\<lambda>b. coil_staged (items b)) cbs)"
    and ?M = "concat (map (\<lambda>x. [mask_staged x]) (masked_register_entries res))"
    and ?F = "concat (map (\<lambda>x. [file_staged x]) (file_record_entries res))"
  have "mset ?R = mset (register_staged (register_entries res))" "mset ?C = mset (coil_staged (coil_entries res))"
    unfolding register_staged_def coil_staged_def by (rule mset_batched [OF rbs(2)], rule mset_batched [OF cbs(2)])
  then have all: "mset (failed @ ?R @ ?C @ ?M @ ?F) = mset transaction"
    using f(1) by (simp add: all_staged_def)
  have distinct: "distinct (map fst (failed @ ?R @ ?C @ ?M @ ?F))" "distinct (map target_of (failed @ ?R @ ?C @ ?M @ ?F))"
    using names targets distinct_map_mset [OF all] by blast+
  let ?run = "\<lambda>st. and_then (for_each (write_register_batch display (loopback opts src bulk) config) rbs st) (\<lambda>st.
      and_then (for_each (write_coil_batch display (loopback opts src bulk) config) cbs st) (\<lambda>st.
      and_then (for_each (write_mask display (loopback opts src bulk) config) (masked_register_entries res) st) (\<lambda>st.
      for_each (write_file_record_entry display (loopback opts src bulk) config) (file_record_entries res) st)))
        :: (machines \<times> WriteReport, 'e) result"
  have "settles config uid (?R @ ?C @ ?M @ ?F) ?run"
    using distinct f(4)
    by (intro settles_then register_loop_settles [OF uid rbs(3,4)] coil_loop_settles [OF uid cbs(3,4)]
        mask_loop_settles [OF uid] file_loop_settles [OF uid]) (simp_all add: resolved_def)
  then obtain m' rep' where run: "?run (ms, Resolution.report res) = Ok (ms(uid \<mapsto> m'), rep')"
    "settled config (?R @ ?C @ ?M @ ?F) (m, Resolution.report res) (m', rep')"
    unfolding settles_def using conf ms by blast
  have "settled config failed (m, rep) (m, Resolution.report res)"
    using f(2,3) by (intro settled_failed) auto
  then have "settled config (failed @ ?R @ ?C @ ?M @ ?F) (m, rep) (m', rep')"
    by (rule settled_append [OF _ run(2) distinct_map_parts [OF distinct(1)] distinct_map_parts [OF distinct(2)]])
  then have "settled config transaction (m, rep) (m', rep')"
    using settled_cong [OF mset_eq_setD [OF all]] by blast
  moreover have "process_transaction display (loopback opts src bulk) config transaction (ms, rep)
       = (Ok (ms(uid \<mapsto> m'), rep') :: (machines \<times> WriteReport, 'e) result)"
    using rbs(1) cbs(1) run(1) by (simp add: process_transaction_def Let_def flip: res_def)
  ultimately show ?thesis by blast
qed

section \<open>The report tells the truth\<close>

text \<open>
  C4: The report tells the truth. When the client's transaction reaches the server of this repository,
  every name it reports OK is what the server now holds: the staged value, in full width, or the
  masked word. A name it reports as failed left its target as it was, no other point of the machine
  changes and no other name is reported. Staged names and their targets must be distinct, as keys of
  one transaction are, registers and coils must have distinct addresses, and a file record must fit a
  request.
\<close>

theorem reports_tell_the_truth:
  assumes "configured config m" and "ms uid = Some m" and "uid = MachineTransactionConfig.unit_id config"
    and "distinct (map fst transaction)" and "distinct (map target_of transaction)"
  shows "\<exists>m' rep'. process_transaction display (loopback opts src bulk) config transaction (ms, rep)
       = (Ok (ms(uid \<mapsto> m'), rep') :: (machines \<times> WriteReport, 'e) result)
     \<and> settled config transaction (m, rep) (m', rep')"
  using assms by (rule process_transaction_settled)

definition sample_config :: MachineTransactionConfig where
  "sample_config =
     \<lparr>MachineTransactionConfig.registers = ServerMachineState.registers sample_polled,
      coils = ServerMachineState.coils sample_polled, file_records = ServerMachineState.file_records sample_polled,
      mem_layout = Cdab, unit_id = 1\<rparr>"

definition sample_transaction :: "(string \<times> StagedValue) list" where
  "sample_transaction =
     [(''flow'', StagedRegister (RegF32 0x3F800000)), (''level'', StagedRegister (RegU16 9)),
      (''pump'', StagedCoil (CoilValue False)), (''4:1'', StagedFileRecord 4 1 [1, 2, 3, 4]),
      (''nowhere'', StagedRegister (RegU16 1))]"

lemma sample_configured:
  "configured sample_config sample_polled" "distinct (map fst sample_transaction)"
  "distinct (map target_of sample_transaction)" "1 = MachineTransactionConfig.unit_id sample_config"
  by (simp_all add: sample_config_def sample_polled_def configured_def sample_transaction_def)

theorem reports_tell_the_truth_witness:
  "\<exists>m' rep'. process_transaction (\<lambda>_. ''io'') (loopback all_options [] no_bulk) sample_config sample_transaction
        ([1 \<mapsto> sample_polled], WriteReport_new)
      = (Ok ([1 \<mapsto> sample_polled, 1 \<mapsto> m'], rep') :: (machines \<times> WriteReport, unit) result)
     \<and> settled sample_config sample_transaction (sample_polled, WriteReport_new) (m', rep')"
  by (rule reports_tell_the_truth [where ms = "[1 \<mapsto> sample_polled]" and uid = 1, OF sample_configured(1) _ sample_configured(4,2,3)])
     simp

section \<open>Read your writes\<close>

lemma settled_pollable:
  assumes "settled config transaction (m, rep) (m', rep')" and "configured config m" and "pollable m"
  shows "pollable m'"
proof -
  have layout: "same_layout m m'" using assms(1) by (simp add: settled_def)
  have "length (stored_record (file_record_store m') d) \<le> 249"
    if d: "d \<in> set (ServerMachineState.file_records m)" for d
  proof -
    let ?t = "FileAt (FileRecordDescription.file_number d) (FileRecordDescription.record_number d)"
    show ?thesis
    proof (cases "held_at m' ?t = held_at m ?t")
      case True
      with assms(3) d show ?thesis by (simp add: pollable_def list_all_iff stored_record_def)
    next
      case False
      have "?t \<in> target_of ` set transaction"
        using False assms(1) unfolding settled_def fst_conv snd_conv by blast
      then obtain e where e: "e \<in> set transaction" "?t = target_of e" by blast
      have "accepted config e (held_at m ?t) (held_at m' ?t)"
        using False assms(1) e(1) unfolding settled_def fst_conv snd_conv e(2) by meson
      moreover obtain nm v where "e = (nm, StagedFileRecord (FileRecordDescription.file_number d)
          (FileRecordDescription.record_number d) v)"
        using e(2) by (cases e rule: target_of.cases) simp_all
      ultimately show ?thesis
        using assms(2) by (force simp: list_ex_iff list_all_iff configured_def stored_record_def)
    qed
  qed
  with assms(3) layout show ?thesis by (simp add: pollable_def same_layout_def list_all_iff)
qed

text \<open>The client's own stores show what was staged; a mask stages no value to show.\<close>

fun polled_back :: "MachineStores \<Rightarrow> string \<times> StagedValue \<Rightarrow> bool" where
  "polled_back st (nm, StagedRegister v) \<longleftrightarrow> RegisterStore_get (MachineStores.registers st) nm = Some v"
| "polled_back st (nm, StagedCoil v) \<longleftrightarrow> CoilStore_get (MachineStores.coils st) nm = Some v"
| "polled_back st (nm, StagedFileRecord f rn v) \<longleftrightarrow>
     FileRecordStore_get (MachineStores.file_records st) (f, rn) = Some v"
| "polled_back st (nm, MaskedRegister amask omask) \<longleftrightarrow> True"
| "polled_back st (nm, StagedDiscreteInput v) \<longleftrightarrow> False"
| "polled_back st (nm, StagedInputRegister v) \<longleftrightarrow> False"

lemma accepted_polled_back:
  assumes "accepted config e old (held_at m (target_of e))" and "configured config m" and "mirrors m st"
  shows "polled_back st e"
proof (cases "(config, e, old, held_at m (target_of e))" rule: accepted.cases)
  case (1 config' nm v old' new)
  then obtain r where "r \<in> set (ServerMachineState.registers m)" "RegisterDescription.name r = nm"
    "RegisterDescription.data_type r = data_type_of v" "RegisterStore_get (store m) nm = Some v"
    using assms(1,2) by (auto simp: list_ex_iff configured_def)
  with 1 assms(3) show ?thesis
    by (auto simp: mirrors_def list_all_iff shown_register_def current_value_def)
next
  case (3 config' nm v old' new)
  then obtain c where "c \<in> set (ServerMachineState.coils m)" "CoilDescription.name c = nm"
    "CoilStore_get (coil_store m) nm = Some v"
    using assms(1,2) by (auto simp: list_ex_iff configured_def)
  with 3 assms(3) show ?thesis
    by (auto simp: mirrors_def list_all_iff shown_coil_def split: CoilValue.splits)
next
  case (4 config' nm f rn v old' new)
  then obtain d where "d \<in> set (ServerMachineState.file_records m)" "FileRecordDescription.file_number d = f"
    "FileRecordDescription.record_number d = rn" "FileRecordStore_get (file_record_store m) (f, rn) = Some v"
    using assms(1,2) by (auto simp: list_ex_iff configured_def)
  with 4 assms(3) show ?thesis by (auto simp: mirrors_def list_all_iff stored_record_def)
qed (use assms(1) in auto)

text \<open>A transaction, and then turns of the polling task over the same connection.\<close>

definition write_then_poll ::
    "(io_error \<Rightarrow> string) \<Rightarrow> 's link \<Rightarrow> MachineTransactionConfig \<Rightarrow> MachineDescription
     \<Rightarrow> (string \<times> StagedValue) list \<Rightarrow> nat \<Rightarrow> 's \<times> WriteReport \<Rightarrow> MachineStores
     \<Rightarrow> ('s Poller \<times> WriteReport, 'e) result" where
  "write_then_poll display request config d transaction ticks st stores =
     and_then (process_transaction display request config transaction st) (\<lambda>(s, rep).
     map_ok (\<lambda>p. (p, rep))
       (run_polling_loop request d ticks \<lparr>connection = s, mirror = stores, broken = False\<rparr>))"

text \<open>
  C3: A client reads its own writes. After a transaction, any number of turns of the polling task
  bring back to the client's stores the value of every name the report calls OK, whatever the batches,
  the width of the value and the memory layout. The client and the server work from one description
  that can be polled.
\<close>

theorem confirmed_writes_are_polled_back:
  assumes "configured config m" and "describes d m" and "pollable m" and "reads_enabled opts"
    and "ms uid = Some m" and "uid = MachineTransactionConfig.unit_id config" and "uid = MachineDescription.unit_id d"
    and "distinct (map fst transaction)" and "distinct (map target_of transaction)" and "0 < ticks"
  shows "\<exists>p rep'. write_then_poll display (loopback opts src bulk) config d transaction ticks (ms, rep) stores
       = (Ok (p, rep') :: (machines Poller \<times> WriteReport, 'e) result)
     \<and> list_all (\<lambda>e. WriteReport_get rep' (fst e) = Some WriteOk \<longrightarrow> polled_back (mirror p) e) transaction"
proof -
  obtain m' rep' where w: "process_transaction display (loopback opts src bulk) config transaction (ms, rep)
       = (Ok (ms(uid \<mapsto> m'), rep') :: (machines \<times> WriteReport, 'e) result)"
    and settled: "settled config transaction (m, rep) (m', rep')"
    using process_transaction_settled [where ms = ms and uid = uid and ?'e = 'e, OF assms(1,5,6,8,9)] by blast
  let ?p = "\<lparr>connection = ms(uid \<mapsto> m'), mirror = stores, broken = False\<rparr>"
  have layout: "same_layout m m'" using settled by (simp add: settled_def)
  have "describes d m'" using assms(2) layout by (simp add: describes_def same_layout_def)
  moreover have "pollable m'" using settled_pollable [OF settled assms(1,3)] .
  moreover have "connection ?p (MachineDescription.unit_id d) = Some m'" using assms(7) by simp
  ultimately have "\<exists>st. run_polling_loop (loopback opts src bulk) d ticks ?p
      = (Ok (?p\<lparr>mirror := st\<rparr>) :: (machines Poller, 'e) result) \<and> mirrors m' st"
    using assms(4,10) by (intro polling_mirror)
  then obtain st where st: "run_polling_loop (loopback opts src bulk) d ticks ?p
      = (Ok (?p\<lparr>mirror := st\<rparr>) :: (machines Poller, 'e) result)" "mirrors m' st" by blast
  have conf: "configured config m'" by (rule configured_layout [OF assms(1) layout])
  have "polled_back st e" if "e \<in> set transaction" "WriteReport_get rep' (fst e) = Some WriteOk" for e
  proof (rule accepted_polled_back [OF _ conf st(2)])
    show "accepted config e (held_at m (target_of e)) (held_at m' (target_of e))"
      using settled that unfolding settled_def fst_conv snd_conv by meson
  qed
  with w st(1) show ?thesis
    by (intro exI [of _ "?p\<lparr>mirror := st\<rparr>"] exI [of _ rep']) (simp add: write_then_poll_def list_all_iff)
qed

theorem confirmed_writes_are_polled_back_witness:
  "\<exists>p rep'. write_then_poll (\<lambda>_. ''io'') (loopback all_options [] no_bulk) sample_config sample_description
        sample_transaction 1 ([1 \<mapsto> sample_polled], WriteReport_new) MachineStores_new
      = (Ok (p, rep') :: (machines Poller \<times> WriteReport, unit) result)
     \<and> list_all (\<lambda>e. WriteReport_get rep' (fst e) = Some WriteOk \<longrightarrow> polled_back (mirror p) e) sample_transaction"
proof (rule confirmed_writes_are_polled_back [where uid = 1 and ms = "[1 \<mapsto> sample_polled]" and m = sample_polled])
  show "describes sample_description sample_polled" "pollable sample_polled" "reads_enabled all_options"
    by (simp_all add: describes_def sample_description_def sample_polled_def pollable_def reads_enabled_def
        stored_record_def file_record_store.get_new all_options_def is_enabled_def)
qed (simp_all add: sample_configured(1-3), simp_all add: sample_config_def sample_description_def)

section \<open>Late answers on a serial line\<close>

lemma rtu_request_answered:
  assumes "length (RtuAdu.pdu a) \<le> 253"
  shows "connection_request uid body (ConnectionRtu \<lparr>reads = map Byte (RtuAdu_encode a) @ Elapsed # es,
        writes = Accepted # ws, written = out\<rparr>)
     = (Ok (RtuAdu.pdu a), ConnectionRtu \<lparr>reads = es, writes = ws,
        written = out @ RtuAdu_encode \<lparr>RtuAdu.unit_id = uid, pdu = body\<rparr>\<rparr>)"
  using assms rtu.receive_arrived [of a "\<lparr>reads = map Byte (RtuAdu_encode a) @ Elapsed # es, writes = ws,
      written = out @ RtuAdu_encode \<lparr>RtuAdu.unit_id = uid, pdu = body\<rparr>\<rparr>" es]
  by (simp add: rtu_send_request_eq with_timeout_write_accepted)

lemma rtu_request_unanswered:
  "connection_request uid body (ConnectionRtu \<lparr>reads = Elapsed # es, writes = Accepted # ws, written = out\<rparr>)
     = (Err OperationTimedOut, ConnectionRtu \<lparr>reads = es, writes = ws,
        written = out @ RtuAdu_encode \<lparr>RtuAdu.unit_id = uid, pdu = body\<rparr>\<rparr>)"
  by (simp add: rtu_send_request_eq with_timeout_write_accepted receive_rtu_def read_rtu_frame.simps io_return_def)

definition word_register :: "string \<Rightarrow> u16 \<Rightarrow> RegisterDescription" where
  "word_register nm a =
     \<lparr>RegisterDescription.name = nm, address = a, data_type = U16, access = ReadWrite, unit = None\<rparr>"

definition word_answer :: "u16 \<Rightarrow> bytes" where
  "word_answer w = ReadHoldingRegistersResponse_encode \<lparr>ReadHoldingRegistersResponse.register_values = [w]\<rparr>"

definition late_line :: "bytes \<Rightarrow> Connection" where
  "late_line answer = ConnectionRtu \<lparr>
     reads = Elapsed # map Byte (RtuAdu_encode \<lparr>RtuAdu.unit_id = 1, pdu = answer\<rparr>) @ [Elapsed],
     writes = [Accepted, Accepted], written = []\<rparr>"

text \<open>
  C34: On a serial line nothing ties an answer to its request. When the answer to one read arrives only
  after its timeout, the next read takes it for its own: two registers polled one after the other on
  a line that is late by one answer leave the first register's word under the second one's name. The
  same late answer to a read is taken for the confirmation of a write.
\<close>

theorem late_answers_are_misattributed:
  "(\<exists>p. poll_once connection_request Abcd 1
        [batch_of a 1 (word_register first a), batch_of b 1 (word_register second b)]
        \<lparr>connection = late_line (word_answer w), mirror = MachineStores_new, broken = False\<rparr>
        = (Ok p :: (Connection Poller, 'e) result)
      \<and> RegisterStore_get (MachineStores.registers (mirror p)) second = Some (RegU16 w))
   \<and> fst (confirm_write display connection_request (word_register second b) (RegU16 v) Abcd 1
        (snd (connection_request 1 (ReadHoldingRegistersRequest_encode
          \<lparr>ReadHoldingRegistersRequest.starting_address = a, quantity = 1\<rparr>) (late_line (word_answer w)))))
      = (Ok WriteOk :: (WriteStatus, 'e) result)"
proof -
  let ?line = "\<lambda>out. ConnectionRtu \<lparr>reads = map Byte (RtuAdu_encode \<lparr>RtuAdu.unit_id = 1, pdu = word_answer w\<rparr>) @ [Elapsed],
      writes = [Accepted], written = out\<rparr>"
  have lost: "\<exists>out. connection_request 1 body (late_line (word_answer w)) = (Err OperationTimedOut, ?line out)" for body
    unfolding late_line_def rtu_request_unanswered by blast
  have short: "length (RtuAdu.pdu \<lparr>RtuAdu.unit_id = 1, pdu = word_answer w\<rparr>) \<le> 253"
    by (simp add: word_answer_def ReadHoldingRegistersResponse_encode_def encode_register_array_response_def)
  have taken: "\<exists>c. connection_request 1 body (?line out) = (Ok (word_answer w), c)" for body out
    using rtu_request_answered [OF short, of 1 body "[]" "[]" out] by simp
  have decode: "ReadHoldingRegistersResponse_decode (word_answer w)
      = Ok \<lparr>ReadHoldingRegistersResponse.register_values = [w]\<rparr>"
    using ReadHoldingRegistersResponse_codec.round_trip [of "\<lparr>ReadHoldingRegistersResponse.register_values = [w]\<rparr>"]
    by (simp add: word_answer_def)
  let ?read = "\<lambda>a. ReadHoldingRegistersRequest_encode \<lparr>ReadHoldingRegistersRequest.starting_address = a, quantity = 1\<rparr>"
  obtain out where 1: "connection_request 1 (?read a) (late_line (word_answer w)) = (Err OperationTimedOut, ?line out)"
    using lost by blast
  obtain c where 2: "connection_request 1 (?read b) (?line out) = (Ok (word_answer w), c)" using taken by blast
  have "\<exists>p. poll_once connection_request Abcd 1
        [batch_of a 1 (word_register first a), batch_of b 1 (word_register second b)]
        \<lparr>connection = late_line (word_answer w), mirror = MachineStores_new, broken = False\<rparr>
        = (Ok p :: (Connection Poller, 'e) result)
      \<and> RegisterStore_get (MachineStores.registers (mirror p)) second = Some (RegU16 w)"
    using 1 2 decode
    by (simp add: poll_once_def poll_register_batch_def read_once_def batch_of_def mark_broken_def word_register_def
        register_value_from_words_def set_register_def register_store.get_set)
  moreover have "fst (confirm_write display connection_request (word_register second b) (RegU16 v) Abcd 1 (?line out))
      = (Ok WriteOk :: (WriteStatus, 'e) result)"
  proof -
    obtain body where body: "encode_write_request (word_register second b) (RegU16 v) Abcd = Ok body"
      by (simp add: encode_write_request_def word_register_def)
    obtain c' where "connection_request 1 body (?line out) = (Ok (word_answer w), c')" using taken by blast
    moreover have "interpret_write_response (word_answer w) = (Ok WriteOk :: (WriteStatus, 'e) result)"
      by (simp add: word_answer_def ReadHoldingRegistersResponse_encode_def encode_register_array_response_def interpret_reply)
    ultimately show ?thesis by (simp add: confirm_write_def body request_and_interpret_def)
  qed
  ultimately show ?thesis using 1 by simp
qed

end
