(* ===== verification/Core_Containers.thy ===== *)
theory Core_Containers
  imports Pdu_Codec Adu
begin

text \<open>
  The fixed-capacity containers of \<open>protocol-core/src\<close>: \<open>PduBytes\<close>, \<open>AduBytes\<close>, \<open>RegisterValues\<close>,
  \<open>BitValues\<close> and the tables of file records and device identification objects. A container is an
  array, here a list that never changes its length, and the number of its used slots. The locale
  \<open>bounded_list\<close> is what all of them promise: pushed items are kept in order as long as they
  fit, an item that does not fit is refused and leaves no trace. The values reached by pushing
  are the images of lists, written \<open>pdu_bytes xs\<close>, \<open>bit_values vs\<close> and so on.
\<close>

section \<open>The contract\<close>

datatype CapacityExceeded = CapacityExceeded

locale bounded_list =
  fixes new :: 'b
    and push :: "'a \<Rightarrow> 'b \<Rightarrow> ('b, CapacityExceeded) result"
    and of_list :: "'a list \<Rightarrow> 'b"
    and fits :: "'a list \<Rightarrow> bool"
  assumes new_empty: "new = of_list []"
    and fits_empty: "fits []"
    and fits_prefix: "fits (xs @ ys) \<Longrightarrow> fits xs"
    and push_fits: "fits (xs @ [x]) \<Longrightarrow> push x (of_list xs) = Ok (of_list (xs @ [x]))"
    and push_full: "fits xs \<Longrightarrow> \<not> fits (xs @ [x]) \<Longrightarrow> push x (of_list xs) = Err CapacityExceeded"
begin

lemma push_eq: "fits xs \<Longrightarrow> push x (of_list xs) = (if fits (xs @ [x]) then Ok (of_list (xs @ [x])) else Err CapacityExceeded)"
  using push_fits push_full by simp

lemma push_all:
  assumes "fits xs"
  shows "for_each push ys (of_list xs) = (if fits (xs @ ys) then Ok (of_list (xs @ ys)) else Err CapacityExceeded)"
  using assms
proof (induction ys arbitrary: xs)
  case (Cons y ys)
  show ?case
  proof (cases "fits (xs @ [y])")
    case True
    then show ?thesis using Cons.IH [OF True] by (simp add: push_fits)
  next
    case False
    moreover have "\<not> fits (xs @ y # ys)" using False fits_prefix [of "xs @ [y]" ys] by auto
    ultimately show ?thesis using Cons.prems by (simp add: push_full)
  qed
qed simp

text \<open>What any number of pushes leaves holds the items in order and fits.\<close>

lemma pushed: "for_each push ys new = Ok b \<Longrightarrow> fits ys \<and> b = of_list ys"
  using push_all [OF fits_empty, of ys] by (simp add: new_empty split: if_splits)

end

text \<open>A container that also takes many items at once: all of them or none.\<close>

locale bounded_buffer = bounded_list +
  fixes extend :: "'a list \<Rightarrow> 'b \<Rightarrow> ('b, CapacityExceeded) result"
  assumes extend_eq: "fits xs \<Longrightarrow>
    extend ys (of_list xs) = (if fits (xs @ ys) then Ok (of_list (xs @ ys)) else Err CapacityExceeded)"
begin

lemma extend_is_push_all: "fits xs \<Longrightarrow> extend ys (of_list xs) = for_each push ys (of_list xs)"
  by (simp add: extend_eq push_all)

end

section \<open>Arrays\<close>

text \<open>An array of \<open>n\<close> slots whose first ones hold \<open>xs\<close> and the others the initial value \<open>z\<close>.\<close>

definition padded :: "nat \<Rightarrow> 'a \<Rightarrow> 'a list \<Rightarrow> 'a list" where
  "padded n z xs = xs @ replicate (n - length xs) z"

lemma length_padded [simp]: "length xs \<le> n \<Longrightarrow> length (padded n z xs) = n"
  by (simp add: padded_def)

lemma take_padded [simp]: "take (length xs) (padded n z xs) = xs"
  by (simp add: padded_def)

lemma padded_Nil [simp]: "padded n z [] = replicate n z"
  by (simp add: padded_def)

lemma nth_padded [simp]: "i < length xs \<Longrightarrow> padded n z xs ! i = xs ! i"
  by (simp add: padded_def nth_append)

lemma take_padded_le [simp]: "k \<le> length xs \<Longrightarrow> take k (padded n z xs) = take k xs"
  by (simp add: padded_def)

lemma padded_snoc [simp]: "length xs < n \<Longrightarrow> (padded n z xs)[length xs := x] = padded n z (xs @ [x])"
  by (simp add: padded_def list_update_append Suc_diff_Suc [symmetric])

lemma padded_append [simp]:
  "length xs + length ys \<le> n \<Longrightarrow> xs @ ys @ drop (length xs + length ys) (padded n z xs) = padded n z (xs @ ys)"
  by (simp add: padded_def)

section \<open>Bytes of a PDU\<close>

definition MAX_PDU_LEN_core :: nat where [simp]: "MAX_PDU_LEN_core = 253"

record PduBytes =
  data :: bytes
  len :: nat

definition PduBytes_new :: PduBytes where
  "PduBytes_new = \<lparr>PduBytes.data = replicate MAX_PDU_LEN_core 0, len = 0\<rparr>"

definition PduBytes_push :: "u8 \<Rightarrow> PduBytes \<Rightarrow> (PduBytes, CapacityExceeded) result" where
  "PduBytes_push byte b =
     (if PduBytes.len b = MAX_PDU_LEN_core then Err CapacityExceeded
      else and_then (assign (PduBytes.data b) (PduBytes.len b) byte) (\<lambda>d.
      Ok \<lparr>PduBytes.data = d, len = PduBytes.len b + 1\<rparr>))"

definition PduBytes_extend_from_slice :: "bytes \<Rightarrow> PduBytes \<Rightarrow> (PduBytes, CapacityExceeded) result" where
  "PduBytes_extend_from_slice bs b =
     (let new_len = PduBytes.len b + length bs in
      if new_len > MAX_PDU_LEN_core then Err CapacityExceeded
      else and_then (copy_from_slice (PduBytes.data b) (PduBytes.len b) bs) (\<lambda>d.
      Ok \<lparr>PduBytes.data = d, len = new_len\<rparr>))"

definition PduBytes_as_slice :: "PduBytes \<Rightarrow> (bytes, 'e) result" where
  "PduBytes_as_slice b = slice (PduBytes.data b) 0 (PduBytes.len b)"

definition PduBytes_is_empty :: "PduBytes \<Rightarrow> bool" where
  "PduBytes_is_empty b \<longleftrightarrow> PduBytes.len b = 0"

text \<open>\<open>PartialEq\<close>.\<close>

definition PduBytes_eq :: "PduBytes \<Rightarrow> PduBytes \<Rightarrow> (bool, 'e) result" where
  "PduBytes_eq a b = and_then (PduBytes_as_slice a) (\<lambda>x. and_then (PduBytes_as_slice b) (\<lambda>y. Ok (x = y)))"

definition pdu_bytes :: "bytes \<Rightarrow> PduBytes" where
  "pdu_bytes xs = \<lparr>PduBytes.data = padded MAX_PDU_LEN_core 0 xs, len = length xs\<rparr>"

interpretation pdu_buffer: bounded_buffer PduBytes_new PduBytes_push pdu_bytes "\<lambda>xs. length xs \<le> 253"
    PduBytes_extend_from_slice
  by unfold_locales
     (simp_all add: PduBytes_new_def PduBytes_push_def PduBytes_extend_from_slice_def pdu_bytes_def Let_def)

lemma PduBytes_as_slice_eq [simp]: "length xs \<le> 253 \<Longrightarrow> PduBytes_as_slice (pdu_bytes xs) = Ok xs"
  by (simp add: PduBytes_as_slice_def pdu_bytes_def)

lemma PduBytes_eq_iff: "length xs \<le> 253 \<Longrightarrow> length ys \<le> 253 \<Longrightarrow> PduBytes_eq (pdu_bytes xs) (pdu_bytes ys) = Ok (xs = ys)"
  by (simp add: PduBytes_eq_def)

lemma len_pdu_bytes [simp]: "PduBytes.len (pdu_bytes xs) = length xs"
  by (simp add: pdu_bytes_def)

section \<open>Bytes of a frame\<close>

definition MAX_ADU_LEN :: nat where [simp]: "MAX_ADU_LEN = MBAP_HEADER_LEN + MAX_PDU_LEN_core"

record AduBytes =
  data :: bytes
  len :: nat

definition AduBytes_new :: AduBytes where
  "AduBytes_new = \<lparr>AduBytes.data = replicate MAX_ADU_LEN 0, len = 0\<rparr>"

definition AduBytes_push :: "u8 \<Rightarrow> AduBytes \<Rightarrow> (AduBytes, CapacityExceeded) result" where
  "AduBytes_push byte b =
     (if AduBytes.len b = MAX_ADU_LEN then Err CapacityExceeded
      else and_then (assign (AduBytes.data b) (AduBytes.len b) byte) (\<lambda>d.
      Ok \<lparr>AduBytes.data = d, len = AduBytes.len b + 1\<rparr>))"

definition AduBytes_extend_from_slice :: "bytes \<Rightarrow> AduBytes \<Rightarrow> (AduBytes, CapacityExceeded) result" where
  "AduBytes_extend_from_slice bs b =
     (let new_len = AduBytes.len b + length bs in
      if new_len > MAX_ADU_LEN then Err CapacityExceeded
      else and_then (copy_from_slice (AduBytes.data b) (AduBytes.len b) bs) (\<lambda>d.
      Ok \<lparr>AduBytes.data = d, len = new_len\<rparr>))"

definition AduBytes_as_slice :: "AduBytes \<Rightarrow> (bytes, 'e) result" where
  "AduBytes_as_slice b = slice (AduBytes.data b) 0 (AduBytes.len b)"

definition AduBytes_is_empty :: "AduBytes \<Rightarrow> bool" where
  "AduBytes_is_empty b \<longleftrightarrow> AduBytes.len b = 0"

definition AduBytes_eq :: "AduBytes \<Rightarrow> AduBytes \<Rightarrow> (bool, 'e) result" where
  "AduBytes_eq a b = and_then (AduBytes_as_slice a) (\<lambda>x. and_then (AduBytes_as_slice b) (\<lambda>y. Ok (x = y)))"

definition adu_bytes :: "bytes \<Rightarrow> AduBytes" where
  "adu_bytes xs = \<lparr>AduBytes.data = padded MAX_ADU_LEN 0 xs, len = length xs\<rparr>"

interpretation adu_buffer: bounded_buffer AduBytes_new AduBytes_push adu_bytes "\<lambda>xs. length xs \<le> 260"
    AduBytes_extend_from_slice
  by unfold_locales
     (simp_all add: AduBytes_new_def AduBytes_push_def AduBytes_extend_from_slice_def adu_bytes_def Let_def)

lemma AduBytes_as_slice_eq [simp]: "length xs \<le> 260 \<Longrightarrow> AduBytes_as_slice (adu_bytes xs) = Ok xs"
  by (simp add: AduBytes_as_slice_def adu_bytes_def)

lemma AduBytes_eq_iff: "length xs \<le> 260 \<Longrightarrow> length ys \<le> 260 \<Longrightarrow> AduBytes_eq (adu_bytes xs) (adu_bytes ys) = Ok (xs = ys)"
  by (simp add: AduBytes_eq_def)

section \<open>Register values\<close>

definition MAX_REGISTER_COUNT :: nat where [simp]: "MAX_REGISTER_COUNT = 125"

record RegisterValues =
  data :: "u16 list"
  len :: nat

definition RegisterValues_new :: RegisterValues where
  "RegisterValues_new = \<lparr>RegisterValues.data = replicate MAX_REGISTER_COUNT 0, len = 0\<rparr>"

definition RegisterValues_push :: "u16 \<Rightarrow> RegisterValues \<Rightarrow> (RegisterValues, CapacityExceeded) result" where
  "RegisterValues_push v b =
     (if RegisterValues.len b = MAX_REGISTER_COUNT then Err CapacityExceeded
      else and_then (assign (RegisterValues.data b) (RegisterValues.len b) v) (\<lambda>d.
      Ok \<lparr>RegisterValues.data = d, len = RegisterValues.len b + 1\<rparr>))"

text \<open>The iterator's items are a list; each is stored in the slot it is zipped with.\<close>

definition RegisterValues_extend_from_iter ::
    "u16 list \<Rightarrow> RegisterValues \<Rightarrow> (RegisterValues, CapacityExceeded) result" where
  "RegisterValues_extend_from_iter vs b =
     (let new_len = RegisterValues.len b + length vs in
      if new_len > MAX_REGISTER_COUNT then Err CapacityExceeded
      else and_then (slice (RegisterValues.data b) (RegisterValues.len b) new_len) (\<lambda>slots.
      Ok \<lparr>RegisterValues.data = take (RegisterValues.len b) (RegisterValues.data b)
              @ map (\<lambda>(slot, v). v) (zip slots vs) @ drop new_len (RegisterValues.data b),
          len = new_len\<rparr>))"

definition RegisterValues_extend_from_slice ::
    "u16 list \<Rightarrow> RegisterValues \<Rightarrow> (RegisterValues, CapacityExceeded) result" where
  "RegisterValues_extend_from_slice vs b =
     (let new_len = RegisterValues.len b + length vs in
      if new_len > MAX_REGISTER_COUNT then Err CapacityExceeded
      else and_then (copy_from_slice (RegisterValues.data b) (RegisterValues.len b) vs) (\<lambda>d.
      Ok \<lparr>RegisterValues.data = d, len = new_len\<rparr>))"

definition RegisterValues_as_slice :: "RegisterValues \<Rightarrow> (u16 list, 'e) result" where
  "RegisterValues_as_slice b = slice (RegisterValues.data b) 0 (RegisterValues.len b)"

definition RegisterValues_is_empty :: "RegisterValues \<Rightarrow> bool" where
  "RegisterValues_is_empty b \<longleftrightarrow> RegisterValues.len b = 0"

definition RegisterValues_eq :: "RegisterValues \<Rightarrow> RegisterValues \<Rightarrow> (bool, 'e) result" where
  "RegisterValues_eq a b =
     and_then (RegisterValues_as_slice a) (\<lambda>x. and_then (RegisterValues_as_slice b) (\<lambda>y. Ok (x = y)))"

definition register_list :: "u16 list \<Rightarrow> RegisterValues" where
  "register_list vs = \<lparr>RegisterValues.data = padded MAX_REGISTER_COUNT 0 vs, len = length vs\<rparr>"

lemma map_zip_second: "length xs = length ys \<Longrightarrow> map (\<lambda>(x, y). y) (zip xs ys) = ys"
  by (induction xs ys rule: list_induct2) simp_all

interpretation registers: bounded_buffer RegisterValues_new RegisterValues_push register_list
    "\<lambda>vs. length vs \<le> 125" RegisterValues_extend_from_slice
  by unfold_locales
     (simp_all add: RegisterValues_new_def RegisterValues_push_def RegisterValues_extend_from_slice_def
       register_list_def Let_def)

interpretation register_iter: bounded_buffer RegisterValues_new RegisterValues_push register_list
    "\<lambda>vs. length vs \<le> 125" RegisterValues_extend_from_iter
  by unfold_locales
     (simp_all add: RegisterValues_extend_from_iter_def register_list_def Let_def map_zip_second)

lemma RegisterValues_as_slice_eq [simp]: "length vs \<le> 125 \<Longrightarrow> RegisterValues_as_slice (register_list vs) = Ok vs"
  by (simp add: RegisterValues_as_slice_def register_list_def)

lemma RegisterValues_eq_iff:
  "length xs \<le> 125 \<Longrightarrow> length ys \<le> 125 \<Longrightarrow> RegisterValues_eq (register_list xs) (register_list ys) = Ok (xs = ys)"
  by (simp add: RegisterValues_eq_def)

lemma len_register_list [simp]: "RegisterValues.len (register_list vs) = length vs"
  by (simp add: register_list_def)

section \<open>Bits\<close>

text \<open>
  The bits are packed eight to a byte in the order of the wire. The bits of the array beyond
  \<open>len\<close> are zero in every list built by pushing.
\<close>

definition MAX_BIT_COUNT :: nat where [simp]: "MAX_BIT_COUNT = 2000"
definition MAX_BIT_BYTES :: nat where [simp]: "MAX_BIT_BYTES = MAX_BIT_COUNT div 8"

record BitValues =
  data :: bytes
  len :: nat

definition BitValues_new :: BitValues where
  "BitValues_new = \<lparr>BitValues.data = replicate MAX_BIT_BYTES 0, len = 0\<rparr>"

text \<open>\<open>data[i / 8] |= 1 << (i % 8)\<close> is \<open>pack_bit\<close> of the other codec.\<close>

definition BitValues_push :: "bool \<Rightarrow> BitValues \<Rightarrow> (BitValues, CapacityExceeded) result" where
  "BitValues_push v b =
     (if BitValues.len b = MAX_BIT_COUNT then Err CapacityExceeded
      else and_then (if v then pack_bit (BitValues.data b) (BitValues.len b) else Ok (BitValues.data b)) (\<lambda>d.
      Ok \<lparr>BitValues.data = d, len = BitValues.len b + 1\<rparr>))"

text \<open>\<open>extend_from_slice\<close> and \<open>extend_from_iter\<close> have the same body.\<close>

definition BitValues_extend :: "bool list \<Rightarrow> BitValues \<Rightarrow> (BitValues, CapacityExceeded) result" where
  "BitValues_extend vs b =
     (let new_len = BitValues.len b + length vs in
      if new_len > MAX_BIT_COUNT then Err CapacityExceeded
      else and_then (for_each (\<lambda>(off, v) d. if v then pack_bit d (BitValues.len b + off) else Ok d)
                       (enumerate 0 vs) (BitValues.data b)) (\<lambda>d.
      Ok \<lparr>BitValues.data = d, len = new_len\<rparr>))"

text \<open>The alignment is a \<open>debug_assert\<close>, a panic here.\<close>

definition BitValues_extend_from_packed_bytes ::
    "bytes \<Rightarrow> nat \<Rightarrow> BitValues \<Rightarrow> (BitValues, CapacityExceeded) result" where
  "BitValues_extend_from_packed_bytes packed bit_count b =
     (if BitValues.len b mod 8 \<noteq> 0 then Panic
      else let new_len = BitValues.len b + bit_count in
      if new_len > MAX_BIT_COUNT then Err CapacityExceeded
      else let byte_start = BitValues.len b div 8; byte_count = div_ceil bit_count 8 in
      and_then (slice packed 0 byte_count) (\<lambda>source.
      and_then (copy_from_slice (BitValues.data b) byte_start source) (\<lambda>d.
      Ok \<lparr>BitValues.data = d, len = new_len\<rparr>)))"

definition BitValues_get :: "BitValues \<Rightarrow> nat \<Rightarrow> (bool option, 'e) result" where
  "BitValues_get b i =
     (if i \<ge> BitValues.len b then Ok None else map_ok Some (unpack_bit (BitValues.data b) i))"

definition BitValues_is_empty :: "BitValues \<Rightarrow> bool" where
  "BitValues_is_empty b \<longleftrightarrow> BitValues.len b = 0"

definition BitValues_as_packed_bytes :: "BitValues \<Rightarrow> (bytes, 'e) result" where
  "BitValues_as_packed_bytes b = slice (BitValues.data b) 0 (div_ceil (BitValues.len b) 8)"

definition BitValues_eq :: "BitValues \<Rightarrow> BitValues \<Rightarrow> (bool, 'e) result" where
  "BitValues_eq a b =
     and_then (BitValues_as_packed_bytes a) (\<lambda>x. and_then (BitValues_as_packed_bytes b) (\<lambda>y.
     Ok (BitValues.len a = BitValues.len b \<and> x = y)))"

text \<open>The iterator, and \<open>collect\<close> on it.\<close>

record BitValuesIter =
  iter_values :: BitValues
  iter_index :: nat

definition BitValuesIter_next :: "BitValuesIter \<Rightarrow> (bool option \<times> BitValuesIter, 'e) result" where
  "BitValuesIter_next it =
     and_then (BitValues_get (iter_values it) (iter_index it)) (\<lambda>item.
     case item of
       None \<Rightarrow> Ok (None, it)
     | Some v \<Rightarrow> Ok (Some v, it\<lparr>iter_index := iter_index it + 1\<rparr>))"

lemma BitValuesIter_next_Some:
  assumes "BitValuesIter_next it = Ok (Some v, it')"
  shows "iter_index it < BitValues.len (iter_values it) \<and> it' = it\<lparr>iter_index := iter_index it + 1\<rparr>"
proof -
  from assms obtain item where item: "BitValues_get (iter_values it) (iter_index it) = (Ok item :: (bool option, 'a) result)"
    "(case item of None \<Rightarrow> Ok (None, it) | Some v \<Rightarrow> Ok (Some v, it\<lparr>iter_index := iter_index it + 1\<rparr>)) = (Ok (Some v, it') :: (_, 'a) result)"
    unfolding BitValuesIter_next_def and_then_eq_Ok_iff by blast
  then obtain w where "item = Some w" by (cases item) simp_all
  with item show ?thesis by (simp add: BitValues_get_def split: if_splits)
qed

function collect_bits :: "BitValuesIter \<Rightarrow> (bool list, 'e) result" where
  "collect_bits it =
     and_then (BitValuesIter_next it) (\<lambda>(item, it').
     case item of None \<Rightarrow> Ok [] | Some v \<Rightarrow> map_ok ((#) v) (collect_bits it'))"
  by pat_completeness auto
termination
proof (relation "measure (\<lambda>it. BitValues.len (iter_values it) - iter_index it)")
  fix it it' :: BitValuesIter and x :: "bool option \<times> BitValuesIter" and item v
  assume "BitValuesIter_next it = (Ok x :: (_, 'a) result)" "(item, it') = x" "item = Some v"
  then have "BitValuesIter_next it = (Ok (Some v, it') :: (_, 'a) result)" by simp
  from BitValuesIter_next_Some [OF this]
  show "(it', it) \<in> measure (\<lambda>it. BitValues.len (iter_values it) - iter_index it)" by auto
qed simp

declare collect_bits.simps [simp del]

definition bit_list :: "bool list \<Rightarrow> BitValues" where
  "bit_list vs = \<lparr>BitValues.data = set_bits 0 0 vs (replicate MAX_BIT_BYTES 0), len = length vs\<rparr>"

lemma len_bit_list [simp]: "BitValues.len (bit_list vs) = length vs"
  by (simp add: bit_list_def)

lemma set_bits_append:
  "set_bits start n (vs @ ws) buf = set_bits start (n + length vs) ws (set_bits start n vs buf)"
  by (induction vs arbitrary: n buf) simp_all

lemma set_bits_prefix:
  "n + length vs \<le> 8 * length a \<Longrightarrow> set_bits 0 n vs (a @ b) = set_bits 0 n vs a @ b"
  by (induction vs arbitrary: n a) (auto simp: or_bit_def list_update_append nth_append)

lemma bit_list_data:
  assumes "length vs \<le> 2000"
  shows "BitValues.data (bit_list vs) = padded 250 0 (packed_bits vs)"
proof -
  have k: "div_ceil (length vs) 8 \<le> 250" using assms by (simp add: div_ceil_8_le)
  have "replicate 250 (0 :: u8) = replicate (div_ceil (length vs) 8) 0 @ replicate (250 - div_ceil (length vs) 8) 0"
    using k by (simp flip: replicate_add)
  moreover have "set_bits 0 0 vs (replicate (div_ceil (length vs) 8) 0) = packed_bits vs"
    using set_bits_zeroed [of "[]" vs] by simp
  ultimately show ?thesis
    using set_bits_prefix [of 0 vs "replicate (div_ceil (length vs) 8) 0"] div_ceil_8_bounds(1) [of "length vs"]
    by (simp add: bit_list_def padded_def)
qed

lemma pack_bit_eq: "i div 8 < length buf \<Longrightarrow> pack_bit buf i = Ok (or_bit 0 i buf)"
  by (simp add: pack_bit_def or_bit_def)

lemma BitValues_extend_eq:
  assumes "length xs \<le> 2000"
  shows "BitValues_extend ys (bit_list xs)
     = (if length (xs @ ys) \<le> 2000 then Ok (bit_list (xs @ ys)) else Err CapacityExceeded)"
proof (cases "length xs + length ys \<le> 2000")
  case True
  let ?buf = "set_bits 0 0 xs (replicate 250 0) :: bytes"
  have "for_each (\<lambda>(off, v) d. if v then pack_bit d (length xs + off) else Ok d) (enumerate n ys) buf
      = (Ok (set_bits 0 (length xs + n) ys buf) :: (bytes, CapacityExceeded) result)"
    if "length xs + n + length ys \<le> 8 * length buf" for n buf
    using that by (induction ys arbitrary: n buf) (simp_all add: pack_bit_eq)
  from this [of 0 ?buf] True show ?thesis
    unfolding BitValues_extend_def Let_def len_bit_list by (simp add: bit_list_def set_bits_append)
qed (simp add: BitValues_extend_def bit_list_def)

interpretation bits: bounded_buffer BitValues_new BitValues_push bit_list "\<lambda>vs. length vs \<le> 2000" BitValues_extend
  by unfold_locales
     (simp_all add: BitValues_extend_eq, simp_all add: BitValues_new_def BitValues_push_def bit_list_def
       pack_bit_eq set_bits_append)

text \<open>Any array of 250 bytes and the bits it shows.\<close>

definition bit_contents :: "BitValues \<Rightarrow> bool list" where
  "bit_contents b = take (BitValues.len b) (bits_of (BitValues.data b))"

definition bits_ok :: "BitValues \<Rightarrow> bool" where
  "bits_ok b \<longleftrightarrow> length (BitValues.data b) = 250 \<and> BitValues.len b \<le> 2000"

lemma bits_ok_bit_list [simp]: "length vs \<le> 2000 \<Longrightarrow> bits_ok (bit_list vs)"
  by (simp add: bits_ok_def bit_list_def)

lemma bits_of_append: "bits_of (xs @ ys) = bits_of xs @ bits_of ys"
  by (simp add: bits_of_def)

lemma bit_contents_bit_list [simp]: "length vs \<le> 2000 \<Longrightarrow> bit_contents (bit_list vs) = vs"
  by (simp add: bit_contents_def bit_list_data padded_def bits_of_append bits_of_packed_bits)

lemma length_bit_contents: "bits_ok b \<Longrightarrow> length (bit_contents b) = BitValues.len b"
  by (simp add: bit_contents_def bits_ok_def)

lemma BitValues_get_eq:
  "bits_ok b \<Longrightarrow> BitValues_get b i = Ok (if i < length (bit_contents b) then Some (bit_contents b ! i) else None)"
  by (auto simp: BitValues_get_def length_bit_contents) (simp add: bits_ok_def unpack_bit_ok bit_contents_def)

lemma collect_bits_eq:
  assumes "bits_ok b"
  shows "collect_bits \<lparr>iter_values = b, iter_index = i\<rparr> = (Ok (drop i (bit_contents b)) :: (bool list, 'e) result)"
proof (induction "length (bit_contents b) - i" arbitrary: i)
  case 0
  then show ?case using assms by (subst collect_bits.simps) (simp add: BitValuesIter_next_def BitValues_get_eq)
next
  case (Suc n)
  then have i: "i < length (bit_contents b)" by linarith
  then have "collect_bits \<lparr>iter_values = b, iter_index = Suc i\<rparr> = (Ok (drop (Suc i) (bit_contents b)) :: (bool list, 'e) result)"
    using Suc.hyps by simp
  with i show ?case
    using assms by (subst collect_bits.simps) (simp add: BitValuesIter_next_def BitValues_get_eq Cons_nth_drop_Suc)
qed

lemma BitValues_as_packed_bytes_eq [simp]:
  "length vs \<le> 2000 \<Longrightarrow> BitValues_as_packed_bytes (bit_list vs) = Ok (packed_bits vs)"
  using div_ceil_8_le [of "length vs" 250] take_padded [of "packed_bits vs" 250 0]
  by (simp add: BitValues_as_packed_bytes_def bit_list_data slice_def del: take_padded take_padded_le)

end
