(* ===== verification/Core_Tables.thy ===== *)
theory Core_Tables
  imports Core_Containers
begin

text \<open>
  The tables of \<open>protocol-core/src/file_record.rs\<close> and \<open>device_identification.rs\<close>: lists of file
  record sub-requests, records and identification objects. The variable parts of the entries share
  one \<open>PduBytes\<close> and are found by adding up the lengths before them. An entry is written with the
  record of \<open>Wire_Types\<close> for it.
\<close>

section \<open>Slicing a shared buffer\<close>

definition part_start :: "bytes list \<Rightarrow> nat \<Rightarrow> nat" where
  "part_start parts i = length (concat (take i parts))"

lemma length_concat_split:
  "i < length parts \<Longrightarrow> part_start parts i + length (parts ! i) \<le> length (concat parts)"
proof -
  assume i: "i < length parts"
  have "concat parts = concat (take i parts) @ parts ! i @ concat (drop (Suc i) parts)"
    by (subst id_take_nth_drop [OF i]) simp
  then show ?thesis unfolding part_start_def by simp
qed

lemma take_drop_concat:
  assumes "i < length parts"
  shows "take (length (parts ! i)) (drop (part_start parts i) (concat parts)) = parts ! i"
proof -
  have "concat parts = concat (take i parts) @ parts ! i @ concat (drop (Suc i) parts)"
    by (subst id_take_nth_drop [OF assms]) simp
  then show ?thesis unfolding part_start_def by (simp only: append_eq_conv_conj) simp
qed

lemma slice_concat:
  assumes "i < length parts"
  shows "slice (concat parts) (part_start parts i) (part_start parts i + length (parts ! i)) = Ok (parts ! i)"
  using length_concat_split [OF assms] take_drop_concat [OF assms] by (simp add: slice_def)

lemma slice_concat_map:
  "i < length xs \<Longrightarrow> slice (concat (map f xs)) (part_start (map f xs) i)
     (part_start (map f xs) i + length (f (xs ! i))) = Ok (f (xs ! i))"
  using slice_concat [of i "map f xs"] by (simp add: slice_def split: if_splits)

lemma part_le: "p \<in> set parts \<Longrightarrow> length p \<le> length (concat parts)"
  by (induction parts) auto

lemma sum_lengths:
  assumes "length (concat parts) < 2 ^ LENGTH('w :: len)"
  shows "sum_list (map unat (take i (map (\<lambda>p. of_nat (length p) :: 'w word) parts))) = part_start parts i"
proof -
  have "unat (of_nat (length p) :: 'w word) = length p" if "p \<in> set parts" for p
    using that part_le [of p parts] assms by (simp add: unat_of_nat take_bit_nat_eq_self)
  then have "map unat (take i (map (\<lambda>p. of_nat (length p) :: 'w word) parts)) = map length (take i parts)"
    unfolding take_map map_map comp_def by (intro map_cong refl) (metis in_set_takeD)
  then show ?thesis by (simp add: part_start_def length_concat)
qed

lemma unat_length_part:
  "length (concat parts) < 2 ^ LENGTH('w :: len) \<Longrightarrow> i < length parts \<Longrightarrow>
     unat (of_nat (length (parts ! i)) :: 'w word) = length (parts ! i)"
  using part_le [of "parts ! i" parts] by (simp add: unat_of_nat take_bit_nat_eq_self)

text \<open>\<open>Iterator::all\<close> with a test that may panic.\<close>

fun all_result :: "('a \<Rightarrow> (bool, 'e) result) \<Rightarrow> 'a list \<Rightarrow> (bool, 'e) result" where
  "all_result f [] = Ok True"
| "all_result f (x # xs) = and_then (f x) (\<lambda>b. if b then all_result f xs else Ok False)"

lemma all_result_Ok: "(\<And>x. x \<in> set xs \<Longrightarrow> f x = Ok (P x)) \<Longrightarrow> all_result f xs = Ok (list_all P xs)"
  by (induction xs) simp_all

lemma list_all_nth_eq:
  "length xs = length ys \<Longrightarrow> list_all (\<lambda>i. xs ! i = ys ! i) [0..<length ys] \<longleftrightarrow> xs = ys"
  unfolding list_all_iff list_eq_iff_nth_eq by (simp only: set_upt Ball_def atLeastLessThan_iff) blast

section \<open>Read sub-requests\<close>

definition MAX_FILE_RECORD_SUB_REQUESTS :: nat where [simp]: "MAX_FILE_RECORD_SUB_REQUESTS = 35"

definition ZERO_SUB_REQUEST :: FileRecordSubRequest where
  "ZERO_SUB_REQUEST = \<lparr>FileRecordSubRequest.file_number = 0, record_number = 0, record_length = 0\<rparr>"

record FileRecordSubRequests =
  data :: "FileRecordSubRequest list"
  len :: nat

definition FileRecordSubRequests_new :: FileRecordSubRequests where
  "FileRecordSubRequests_new =
     \<lparr>FileRecordSubRequests.data = replicate MAX_FILE_RECORD_SUB_REQUESTS ZERO_SUB_REQUEST, len = 0\<rparr>"

definition FileRecordSubRequests_push ::
    "FileRecordSubRequest \<Rightarrow> FileRecordSubRequests \<Rightarrow> (FileRecordSubRequests, CapacityExceeded) result" where
  "FileRecordSubRequests_push sr b =
     (if FileRecordSubRequests.len b = MAX_FILE_RECORD_SUB_REQUESTS then Err CapacityExceeded
      else and_then (assign (FileRecordSubRequests.data b) (FileRecordSubRequests.len b) sr) (\<lambda>d.
      Ok \<lparr>FileRecordSubRequests.data = d, len = FileRecordSubRequests.len b + 1\<rparr>))"

definition FileRecordSubRequests_as_slice :: "FileRecordSubRequests \<Rightarrow> (FileRecordSubRequest list, 'e) result" where
  "FileRecordSubRequests_as_slice b = slice (FileRecordSubRequests.data b) 0 (FileRecordSubRequests.len b)"

definition FileRecordSubRequests_is_empty :: "FileRecordSubRequests \<Rightarrow> bool" where
  "FileRecordSubRequests_is_empty b \<longleftrightarrow> FileRecordSubRequests.len b = 0"

definition FileRecordSubRequests_eq :: "FileRecordSubRequests \<Rightarrow> FileRecordSubRequests \<Rightarrow> (bool, 'e) result" where
  "FileRecordSubRequests_eq a b =
     and_then (FileRecordSubRequests_as_slice a) (\<lambda>x. and_then (FileRecordSubRequests_as_slice b) (\<lambda>y. Ok (x = y)))"

definition sub_request_list :: "FileRecordSubRequest list \<Rightarrow> FileRecordSubRequests" where
  "sub_request_list srs =
     \<lparr>FileRecordSubRequests.data = padded MAX_FILE_RECORD_SUB_REQUESTS ZERO_SUB_REQUEST srs, len = length srs\<rparr>"

interpretation sub_requests: bounded_list FileRecordSubRequests_new FileRecordSubRequests_push sub_request_list
    "\<lambda>srs. length srs \<le> 35"
  by unfold_locales (simp_all add: FileRecordSubRequests_new_def FileRecordSubRequests_push_def sub_request_list_def)

lemma FileRecordSubRequests_as_slice_eq [simp]:
  "length srs \<le> 35 \<Longrightarrow> FileRecordSubRequests_as_slice (sub_request_list srs) = Ok srs"
  by (simp add: FileRecordSubRequests_as_slice_def sub_request_list_def)

lemma FileRecordSubRequests_eq_iff:
  "length xs \<le> 35 \<Longrightarrow> length ys \<le> 35 \<Longrightarrow>
     FileRecordSubRequests_eq (sub_request_list xs) (sub_request_list ys) = Ok (xs = ys)"
  by (simp add: FileRecordSubRequests_eq_def)

lemma len_sub_request_list [simp]: "FileRecordSubRequests.len (sub_request_list srs) = length srs"
  by (simp add: sub_request_list_def)

section \<open>Records\<close>

definition MAX_FILE_RECORDS :: nat where [simp]: "MAX_FILE_RECORDS = MAX_FILE_RECORD_SUB_REQUESTS"

record FileRecordResponseData =
  data :: PduBytes
  record_lengths :: "u16 list"
  record_count :: nat

definition FileRecordResponseData_new :: FileRecordResponseData where
  "FileRecordResponseData_new =
     \<lparr>FileRecordResponseData.data = PduBytes_new, record_lengths = replicate MAX_FILE_RECORDS 0, record_count = 0\<rparr>"

definition push_record :: "bytes \<Rightarrow> FileRecordResponseData \<Rightarrow> (FileRecordResponseData, CapacityExceeded) result" where
  "push_record rec b =
     (if record_count b = MAX_FILE_RECORDS then Err CapacityExceeded
      else and_then (PduBytes_extend_from_slice rec (FileRecordResponseData.data b)) (\<lambda>d.
      and_then (assign (record_lengths b) (record_count b) (of_nat (length rec))) (\<lambda>lengths.
      Ok \<lparr>FileRecordResponseData.data = d, record_lengths = lengths, record_count = record_count b + 1\<rparr>)))"

definition record_at :: "FileRecordResponseData \<Rightarrow> nat \<Rightarrow> (bytes option, 'e) result" where
  "record_at b i =
     (if i \<ge> record_count b then Ok None
      else and_then (slice (record_lengths b) 0 i) (\<lambda>before.
      let start = sum_list (map unat before) in
      and_then (index (record_lengths b) i) (\<lambda>n.
      let stop = start + unat n in
      and_then (PduBytes_as_slice (FileRecordResponseData.data b)) (\<lambda>bs.
      map_ok Some (slice bs start stop)))))"

definition FileRecordResponseData_eq :: "FileRecordResponseData \<Rightarrow> FileRecordResponseData \<Rightarrow> (bool, 'e) result" where
  "FileRecordResponseData_eq a b =
     (if record_count a \<noteq> record_count b then Ok False
      else all_result (\<lambda>i. and_then (record_at a i) (\<lambda>x. and_then (record_at b i) (\<lambda>y. Ok (x = y))))
             [0..<record_count a])"

definition record_table :: "bytes list \<Rightarrow> FileRecordResponseData" where
  "record_table recs =
     \<lparr>FileRecordResponseData.data = pdu_bytes (concat recs),
      record_lengths = padded MAX_FILE_RECORDS 0 (map (\<lambda>rec. of_nat (length rec)) recs),
      record_count = length recs\<rparr>"

definition records_fit :: "bytes list \<Rightarrow> bool" where
  "records_fit recs \<longleftrightarrow> length recs \<le> 35 \<and> length (concat recs) \<le> 253"

lemma push_record_eq:
  assumes "records_fit recs"
  shows "push_record rec (record_table recs)
     = (if records_fit (recs @ [rec]) then Ok (record_table (recs @ [rec])) else Err CapacityExceeded)"
  using assms padded_snoc [of "map (\<lambda>rec. of_nat (length rec) :: u16) recs" 35 0]
  by (auto simp: push_record_def record_table_def records_fit_def pdu_buffer.extend_eq)

interpretation record_table: bounded_list FileRecordResponseData_new push_record record_table records_fit
proof unfold_locales
  show "FileRecordResponseData_new = record_table []"
    by (simp add: FileRecordResponseData_new_def record_table_def PduBytes_new_def pdu_bytes_def)
  show prefix: "records_fit xs" if "records_fit (xs @ ys)" for xs ys
    using that by (simp add: records_fit_def)
  show "push_record x (record_table xs) = Ok (record_table (xs @ [x]))" if "records_fit (xs @ [x])" for xs x
    using that push_record_eq [OF prefix [OF that]] by simp
qed (simp_all add: push_record_eq records_fit_def)

lemma record_at_eq:
  assumes "records_fit recs"
  shows "record_at (record_table recs) i = Ok (if i < length recs then Some (recs ! i) else None)"
proof (cases "i < length recs")
  case True
  then show ?thesis
    using assms sum_lengths [where 'w = 16, of recs i] unat_length_part [where 'w = 16, of recs i]
    by (simp add: slice_concat record_at_def record_table_def records_fit_def Let_def)
qed (simp add: record_at_def record_table_def)

lemma FileRecordResponseData_eq_iff:
  assumes "records_fit xs" and "records_fit ys"
  shows "FileRecordResponseData_eq (record_table xs) (record_table ys) = Ok (xs = ys)"
proof (cases "length xs = length ys")
  case True
  have count: "record_count (record_table xs) = length ys" "record_count (record_table ys) = length ys"
    by (simp_all add: record_table_def True)
  have "all_result (\<lambda>i. and_then (record_at (record_table xs) i) (\<lambda>x. and_then (record_at (record_table ys) i) (\<lambda>y. Ok (x = y))))
      [0..<length ys] = (Ok (list_all (\<lambda>i. xs ! i = ys ! i) [0..<length ys]) :: (bool, 'a) result)"
    using True by (intro all_result_Ok) (simp add: record_at_eq assms)
  with True show ?thesis by (simp add: FileRecordResponseData_eq_def count list_all_nth_eq)
qed (auto simp: FileRecordResponseData_eq_def record_table_def)

section \<open>Write sub-requests\<close>

definition MAX_WRITE_FILE_RECORD_SUB_REQUESTS :: nat where [simp]:
  "MAX_WRITE_FILE_RECORD_SUB_REQUESTS = MAX_FILE_RECORD_SUB_REQUESTS"

record WriteFileRecordSubRequests =
  data :: PduBytes
  file_numbers :: "u16 list"
  record_numbers :: "u16 list"
  record_data_lengths :: "u16 list"
  count :: nat

definition WriteFileRecordSubRequests_new :: WriteFileRecordSubRequests where
  "WriteFileRecordSubRequests_new =
     \<lparr>WriteFileRecordSubRequests.data = PduBytes_new,
      file_numbers = replicate MAX_WRITE_FILE_RECORD_SUB_REQUESTS 0,
      record_numbers = replicate MAX_WRITE_FILE_RECORD_SUB_REQUESTS 0,
      record_data_lengths = replicate MAX_WRITE_FILE_RECORD_SUB_REQUESTS 0, count = 0\<rparr>"

definition WriteFileRecordSubRequests_push ::
    "u16 \<Rightarrow> u16 \<Rightarrow> bytes \<Rightarrow> WriteFileRecordSubRequests \<Rightarrow> (WriteFileRecordSubRequests, CapacityExceeded) result" where
  "WriteFileRecordSubRequests_push f r d b =
     (if WriteFileRecordSubRequests.count b = MAX_WRITE_FILE_RECORD_SUB_REQUESTS then Err CapacityExceeded
      else and_then (PduBytes_extend_from_slice d (WriteFileRecordSubRequests.data b)) (\<lambda>bs.
      and_then (assign (file_numbers b) (WriteFileRecordSubRequests.count b) f) (\<lambda>fs.
      and_then (assign (record_numbers b) (WriteFileRecordSubRequests.count b) r) (\<lambda>rs.
      and_then (assign (record_data_lengths b) (WriteFileRecordSubRequests.count b) (of_nat (length d))) (\<lambda>ns.
      Ok \<lparr>WriteFileRecordSubRequests.data = bs, file_numbers = fs, record_numbers = rs,
          record_data_lengths = ns, count = WriteFileRecordSubRequests.count b + 1\<rparr>)))))"

definition sub_request_at :: "WriteFileRecordSubRequests \<Rightarrow> nat \<Rightarrow> ((u16 \<times> u16 \<times> bytes) option, 'e) result" where
  "sub_request_at b i =
     (if i \<ge> WriteFileRecordSubRequests.count b then Ok None
      else and_then (slice (record_data_lengths b) 0 i) (\<lambda>before.
      let start = sum_list (map unat before) in
      and_then (index (record_data_lengths b) i) (\<lambda>n.
      let stop = start + unat n in
      and_then (index (file_numbers b) i) (\<lambda>f.
      and_then (index (record_numbers b) i) (\<lambda>r.
      and_then (PduBytes_as_slice (WriteFileRecordSubRequests.data b)) (\<lambda>bs.
      map_ok (\<lambda>d. Some (f, r, d)) (slice bs start stop)))))))"

definition WriteFileRecordSubRequests_eq ::
    "WriteFileRecordSubRequests \<Rightarrow> WriteFileRecordSubRequests \<Rightarrow> (bool, 'e) result" where
  "WriteFileRecordSubRequests_eq a b =
     (if WriteFileRecordSubRequests.count a \<noteq> WriteFileRecordSubRequests.count b then Ok False
      else all_result (\<lambda>i. and_then (sub_request_at a i) (\<lambda>x. and_then (sub_request_at b i) (\<lambda>y. Ok (x = y))))
             [0..<WriteFileRecordSubRequests.count a])"

abbreviation record_datas :: "WriteFileRecordSubRequest list \<Rightarrow> bytes list" where
  "record_datas \<equiv> map WriteFileRecordSubRequest.record_data"

abbreviation sub_request_fields :: "WriteFileRecordSubRequest \<Rightarrow> u16 \<times> u16 \<times> bytes" where
  "sub_request_fields sr \<equiv> (WriteFileRecordSubRequest.file_number sr, WriteFileRecordSubRequest.record_number sr,
     WriteFileRecordSubRequest.record_data sr)"

definition write_table :: "WriteFileRecordSubRequest list \<Rightarrow> WriteFileRecordSubRequests" where
  "write_table srs =
     \<lparr>WriteFileRecordSubRequests.data = pdu_bytes (concat (record_datas srs)),
      file_numbers = padded MAX_WRITE_FILE_RECORD_SUB_REQUESTS 0 (map WriteFileRecordSubRequest.file_number srs),
      record_numbers = padded MAX_WRITE_FILE_RECORD_SUB_REQUESTS 0 (map WriteFileRecordSubRequest.record_number srs),
      record_data_lengths = padded MAX_WRITE_FILE_RECORD_SUB_REQUESTS 0 (map (\<lambda>d. of_nat (length d)) (record_datas srs)),
      count = length srs\<rparr>"

definition writes_fit :: "WriteFileRecordSubRequest list \<Rightarrow> bool" where
  "writes_fit srs \<longleftrightarrow> length srs \<le> 35 \<and> length (concat (record_datas srs)) \<le> 253"

abbreviation push_write ::
    "WriteFileRecordSubRequest \<Rightarrow> WriteFileRecordSubRequests \<Rightarrow> (WriteFileRecordSubRequests, CapacityExceeded) result" where
  "push_write sr \<equiv> WriteFileRecordSubRequests_push (WriteFileRecordSubRequest.file_number sr)
     (WriteFileRecordSubRequest.record_number sr) (WriteFileRecordSubRequest.record_data sr)"

lemma padded_map_snoc:
  "length xs < n \<Longrightarrow> (padded n z (map f xs))[length xs := f x] = padded n z (map f (xs @ [x]))"
  using padded_snoc [of "map f xs" n z "f x"] by simp

lemma push_write_eq:
  assumes "writes_fit srs"
  shows "push_write sr (write_table srs)
     = (if writes_fit (srs @ [sr]) then Ok (write_table (srs @ [sr])) else Err CapacityExceeded)"
proof -
  have "length srs \<le> 35" "length (concat (record_datas srs)) \<le> 253"
    using assms by (simp_all add: writes_fit_def)
  then show ?thesis
    using padded_map_snoc [of srs 35 0 WriteFileRecordSubRequest.file_number sr]
      padded_map_snoc [of srs 35 0 WriteFileRecordSubRequest.record_number sr]
      padded_map_snoc [of srs 35 0 "\<lambda>sr. of_nat (length (WriteFileRecordSubRequest.record_data sr)) :: u16" sr]
    by (auto simp: WriteFileRecordSubRequests_push_def write_table_def writes_fit_def pdu_buffer.extend_eq comp_def)
qed

interpretation write_table: bounded_list WriteFileRecordSubRequests_new push_write write_table writes_fit
proof unfold_locales
  show "WriteFileRecordSubRequests_new = write_table []"
    by (simp add: WriteFileRecordSubRequests_new_def write_table_def PduBytes_new_def pdu_bytes_def)
  show prefix: "writes_fit xs" if "writes_fit (xs @ ys)" for xs ys
    using that by (simp add: writes_fit_def)
  show "push_write x (write_table xs) = Ok (write_table (xs @ [x]))" if "writes_fit (xs @ [x])" for xs x
    using that push_write_eq [OF prefix [OF that]] by simp
qed (simp_all add: push_write_eq, simp_all add: writes_fit_def)

lemma sub_request_at_eq:
  assumes "writes_fit srs"
  shows "sub_request_at (write_table srs) i = Ok (if i < length srs then Some (sub_request_fields (srs ! i)) else None)"
proof (cases "i < length srs")
  case True
  then show ?thesis
    using assms sum_lengths [where 'w = 16, of "record_datas srs" i]
      unat_length_part [where 'w = 16, of "record_datas srs" i]
    by (simp add: slice_concat_map sub_request_at_def write_table_def writes_fit_def Let_def)
qed (simp add: sub_request_at_def write_table_def)

lemma WriteFileRecordSubRequests_eq_iff:
  assumes "writes_fit xs" and "writes_fit ys"
  shows "WriteFileRecordSubRequests_eq (write_table xs) (write_table ys) = Ok (xs = ys)"
proof (cases "length xs = length ys")
  case True
  have count: "WriteFileRecordSubRequests.count (write_table xs) = length ys"
    "WriteFileRecordSubRequests.count (write_table ys) = length ys"
    by (simp_all add: write_table_def True)
  have "all_result (\<lambda>i. and_then (sub_request_at (write_table xs) i) (\<lambda>x. and_then (sub_request_at (write_table ys) i)
      (\<lambda>y. Ok (x = y)))) [0..<length ys]
      = (Ok (list_all (\<lambda>i. xs ! i = ys ! i) [0..<length ys]) :: (bool, 'a) result)"
    using True by (intro all_result_Ok)
      (auto simp: sub_request_at_eq assms intro: WriteFileRecordSubRequest.equality)
  with True show ?thesis by (simp add: WriteFileRecordSubRequests_eq_def count list_all_nth_eq)
qed (auto simp: WriteFileRecordSubRequests_eq_def write_table_def)

section \<open>Identification objects\<close>

definition MAX_DEVICE_IDENTIFICATION_OBJECTS :: nat where [simp]: "MAX_DEVICE_IDENTIFICATION_OBJECTS = 84"

record DeviceIdentificationObjects =
  data :: PduBytes
  ids :: "u8 list"
  lengths :: "u8 list"
  count :: nat

definition DeviceIdentificationObjects_new :: DeviceIdentificationObjects where
  "DeviceIdentificationObjects_new =
     \<lparr>DeviceIdentificationObjects.data = PduBytes_new, ids = replicate MAX_DEVICE_IDENTIFICATION_OBJECTS 0,
      lengths = replicate MAX_DEVICE_IDENTIFICATION_OBJECTS 0, count = 0\<rparr>"

definition DeviceIdentificationObjects_push ::
    "u8 \<Rightarrow> bytes \<Rightarrow> DeviceIdentificationObjects \<Rightarrow> (DeviceIdentificationObjects, CapacityExceeded) result" where
  "DeviceIdentificationObjects_push oid v b =
     (if DeviceIdentificationObjects.count b = MAX_DEVICE_IDENTIFICATION_OBJECTS \<or> length v > 255
      then Err CapacityExceeded
      else and_then (PduBytes_extend_from_slice v (DeviceIdentificationObjects.data b)) (\<lambda>d.
      and_then (assign (ids b) (DeviceIdentificationObjects.count b) oid) (\<lambda>is.
      and_then (assign (lengths b) (DeviceIdentificationObjects.count b) (of_nat (length v))) (\<lambda>ns.
      Ok \<lparr>DeviceIdentificationObjects.data = d, ids = is, lengths = ns,
          count = DeviceIdentificationObjects.count b + 1\<rparr>))))"

definition object_at :: "DeviceIdentificationObjects \<Rightarrow> nat \<Rightarrow> ((u8 \<times> bytes) option, 'e) result" where
  "object_at b i =
     (if i \<ge> DeviceIdentificationObjects.count b then Ok None
      else and_then (slice (lengths b) 0 i) (\<lambda>before.
      let start = sum_list (map unat before) in
      and_then (index (lengths b) i) (\<lambda>n.
      let stop = start + unat n in
      and_then (index (ids b) i) (\<lambda>oid.
      and_then (PduBytes_as_slice (DeviceIdentificationObjects.data b)) (\<lambda>bs.
      map_ok (\<lambda>v. Some (oid, v)) (slice bs start stop))))))"

definition DeviceIdentificationObjects_eq ::
    "DeviceIdentificationObjects \<Rightarrow> DeviceIdentificationObjects \<Rightarrow> (bool, 'e) result" where
  "DeviceIdentificationObjects_eq a b =
     (if DeviceIdentificationObjects.count a \<noteq> DeviceIdentificationObjects.count b then Ok False
      else all_result (\<lambda>i. and_then (object_at a i) (\<lambda>x. and_then (object_at b i) (\<lambda>y. Ok (x = y))))
             [0..<DeviceIdentificationObjects.count a])"

abbreviation object_values :: "DeviceIdentificationObject list \<Rightarrow> bytes list" where
  "object_values \<equiv> map DeviceIdentificationObject.object_value"

definition object_table :: "DeviceIdentificationObject list \<Rightarrow> DeviceIdentificationObjects" where
  "object_table objs =
     \<lparr>DeviceIdentificationObjects.data = pdu_bytes (concat (object_values objs)),
      ids = padded MAX_DEVICE_IDENTIFICATION_OBJECTS 0 (map DeviceIdentificationObject.id_byte objs),
      lengths = padded MAX_DEVICE_IDENTIFICATION_OBJECTS 0 (map (\<lambda>v. of_nat (length v)) (object_values objs)),
      count = length objs\<rparr>"

definition objects_fit :: "DeviceIdentificationObject list \<Rightarrow> bool" where
  "objects_fit objs \<longleftrightarrow> length objs \<le> 84 \<and> length (concat (object_values objs)) \<le> 253"

abbreviation push_object ::
    "DeviceIdentificationObject \<Rightarrow> DeviceIdentificationObjects \<Rightarrow> (DeviceIdentificationObjects, CapacityExceeded) result" where
  "push_object obj \<equiv> DeviceIdentificationObjects_push (DeviceIdentificationObject.id_byte obj)
     (DeviceIdentificationObject.object_value obj)"

lemma push_object_eq:
  assumes "objects_fit objs"
  shows "push_object obj (object_table objs)
     = (if objects_fit (objs @ [obj]) then Ok (object_table (objs @ [obj])) else Err CapacityExceeded)"
proof -
  have "length objs \<le> 84" "length (concat (object_values objs)) \<le> 253"
    using assms by (simp_all add: objects_fit_def)
  then show ?thesis
    using padded_map_snoc [of objs 84 0 DeviceIdentificationObject.id_byte obj]
      padded_map_snoc [of objs 84 0 "\<lambda>obj. of_nat (length (DeviceIdentificationObject.object_value obj)) :: u8" obj]
    by (auto simp: DeviceIdentificationObjects_push_def object_table_def objects_fit_def pdu_buffer.extend_eq comp_def)
qed

interpretation object_table: bounded_list DeviceIdentificationObjects_new push_object object_table objects_fit
proof unfold_locales
  show "DeviceIdentificationObjects_new = object_table []"
    by (simp add: DeviceIdentificationObjects_new_def object_table_def PduBytes_new_def pdu_bytes_def)
  show prefix: "objects_fit xs" if "objects_fit (xs @ ys)" for xs ys
    using that by (simp add: objects_fit_def)
  show "push_object x (object_table xs) = Ok (object_table (xs @ [x]))" if "objects_fit (xs @ [x])" for xs x
    using that push_object_eq [OF prefix [OF that]] by simp
qed (simp_all add: push_object_eq, simp_all add: objects_fit_def)

lemma object_at_eq:
  assumes "objects_fit objs"
  shows "object_at (object_table objs) i = Ok (if i < length objs
     then Some (DeviceIdentificationObject.id_byte (objs ! i), DeviceIdentificationObject.object_value (objs ! i)) else None)"
proof (cases "i < length objs")
  case True
  then show ?thesis
    using assms sum_lengths [where 'w = 8, of "object_values objs" i]
      unat_length_part [where 'w = 8, of "object_values objs" i]
    by (simp add: slice_concat_map object_at_def object_table_def objects_fit_def Let_def)
qed (simp add: object_at_def object_table_def)

lemma DeviceIdentificationObjects_eq_iff:
  assumes "objects_fit xs" and "objects_fit ys"
  shows "DeviceIdentificationObjects_eq (object_table xs) (object_table ys) = Ok (xs = ys)"
proof (cases "length xs = length ys")
  case True
  have count: "DeviceIdentificationObjects.count (object_table xs) = length ys"
    "DeviceIdentificationObjects.count (object_table ys) = length ys"
    by (simp_all add: object_table_def True)
  have "all_result (\<lambda>i. and_then (object_at (object_table xs) i) (\<lambda>x. and_then (object_at (object_table ys) i)
      (\<lambda>y. Ok (x = y)))) [0..<length ys]
      = (Ok (list_all (\<lambda>i. xs ! i = ys ! i) [0..<length ys]) :: (bool, 'a) result)"
    using True by (intro all_result_Ok)
      (auto simp: object_at_eq assms intro: DeviceIdentificationObject.equality)
  with True show ?thesis by (simp add: DeviceIdentificationObjects_eq_def count list_all_nth_eq)
qed (auto simp: DeviceIdentificationObjects_eq_def object_table_def)

end
