(* ===== verification/Core_Pdu.thy ===== *)
theory Core_Pdu
  imports Core_Tables
begin

text \<open>
  The PDU codec of \<open>protocol-core\<close> (\<open>protocol-core/src/pdu.rs\<close>): the codec of \<open>Pdu\<close> over the
  containers of fixed capacity, with the same wire constants. A definition has the name of the
  one it ports, followed by \<open>_core\<close>. Structs without a container are those of \<open>Wire_Types\<close>; the
  others are records of their own. An \<open>expect\<close> is a panic, and so is a failed \<open>debug_assert\<close>.
\<close>

section \<open>Errors\<close>

text \<open>
  The variants of \<open>protocol\<close>'s enums (\<open>protocol-core/src/error.rs\<close> repeats them) and one more each.
\<close>

datatype DecodeError_core = Shared DecodeError | TooLargeForBuffer
datatype EncodeError_core = SharedEncode EncodeError | EncodeTooLargeForBuffer

section \<open>Structs\<close>

record ReadCoilsResponse_core =
  coil_values :: BitValues

record ReadDiscreteInputsResponse_core =
  discrete_input_values :: BitValues

record ReadHoldingRegistersResponse_core =
  register_values :: RegisterValues

record ReadInputRegistersResponse_core =
  register_values :: RegisterValues

record ReportServerIdResponse_core =
  server_id :: PduBytes
  run_indicator_status :: bool

record ReadWriteMultipleRegistersRequest_core =
  read_starting_address :: u16
  read_quantity :: u16
  write_starting_address :: u16
  write_values :: RegisterValues

record ReadWriteMultipleRegistersResponse_core =
  register_values :: RegisterValues

record WriteMultipleCoilsRequest_core =
  starting_address :: u16
  coil_values :: BitValues

record WriteMultipleRegistersRequest_core =
  starting_address :: u16
  register_values :: RegisterValues

record ReadFileRecordRequest_core =
  sub_requests :: FileRecordSubRequests

record ReadFileRecordResponse_core =
  records :: FileRecordResponseData

record WriteFileRecordRequest_core =
  sub_requests :: WriteFileRecordSubRequests

record WriteFileRecordResponse_core =
  sub_requests :: WriteFileRecordSubRequests

record ReadDeviceIdentificationResponse_core =
  read_device_id_code :: u8
  conformity_level :: u8
  more_follows :: bool
  next_object_id :: u8
  objects :: DeviceIdentificationObjects

section \<open>Building a PDU\<close>

text \<open>\<open>buffer.push(b).expect(..)\<close> and \<open>buffer.extend_from_slice(bs).expect(..)\<close>.\<close>

abbreviation put :: "u8 \<Rightarrow> PduBytes \<Rightarrow> (PduBytes, 'e) result" where
  "put b buffer \<equiv> expect (PduBytes_push b buffer)"

abbreviation put_slice :: "bytes \<Rightarrow> PduBytes \<Rightarrow> (PduBytes, 'e) result" where
  "put_slice bs buffer \<equiv> expect (PduBytes_extend_from_slice bs buffer)"

text \<open>\<open>extend(..).map_err(|_| DecodeError::TooLargeForBuffer)\<close>.\<close>

abbreviation or_too_large :: "('b, CapacityExceeded) result \<Rightarrow> ('b, DecodeError_core) result" where
  "or_too_large \<equiv> map_err (\<lambda>_. TooLargeForBuffer)"

definition check_function_code_core :: "u8 \<Rightarrow> bytes \<Rightarrow> (unit, DecodeError_core) result" where
  "check_function_code_core fc bs =
     and_then (index bs FUNCTION_CODE_BYTE) (\<lambda>actual.
     if actual \<noteq> fc then Err (Shared (UnexpectedFunctionCode fc actual)) else Ok ())"

section \<open>Address and quantity\<close>

definition encode_address_and_quantity_core :: "u8 \<Rightarrow> u16 \<Rightarrow> u16 \<Rightarrow> (PduBytes, 'e) result" where
  "encode_address_and_quantity_core fc address q =
     and_then (put fc PduBytes_new) (\<lambda>buffer.
     and_then (put_slice (to_be_bytes address) buffer) (\<lambda>buffer.
     and_then (put_slice (to_be_bytes q) buffer) (\<lambda>buffer.
     if PduBytes.len buffer \<noteq> TWO_FIELD_PDU_LEN then Panic else Ok buffer)))"

definition decode_address_and_quantity_core ::
    "bytes \<Rightarrow> u8 \<Rightarrow> (AddressAndQuantity, DecodeError_core) result" where
  "decode_address_and_quantity_core bs fc =
     (if length bs < TWO_FIELD_PDU_LEN then Err (Shared TooShort)
      else and_then (check_function_code_core fc bs) (\<lambda>_.
      and_then (read_u16_be bs ADDRESS_FIELD_BYTE) (\<lambda>address.
      and_then (read_u16_be bs QUANTITY_OR_VALUE_FIELD_BYTE) (\<lambda>q.
      Ok \<lparr>AddressAndQuantity.starting_address = address, quantity = q\<rparr>))))"

definition ReadCoilsRequest_encode_core :: "ReadCoilsRequest \<Rightarrow> (PduBytes, 'e) result" where
  "ReadCoilsRequest_encode_core r =
     encode_address_and_quantity_core FUNCTION_CODE_READ_COILS (ReadCoilsRequest.starting_address r) (ReadCoilsRequest.quantity r)"

definition ReadCoilsRequest_decode_core :: "bytes \<Rightarrow> (ReadCoilsRequest, DecodeError_core) result" where
  "ReadCoilsRequest_decode_core bs =
     and_then (decode_address_and_quantity_core bs FUNCTION_CODE_READ_COILS) (\<lambda>aq.
     Ok \<lparr>ReadCoilsRequest.starting_address = AddressAndQuantity.starting_address aq,
         quantity = AddressAndQuantity.quantity aq\<rparr>)"

definition ReadDiscreteInputsRequest_encode_core :: "ReadDiscreteInputsRequest \<Rightarrow> (PduBytes, 'e) result" where
  "ReadDiscreteInputsRequest_encode_core r =
     encode_address_and_quantity_core FUNCTION_CODE_READ_DISCRETE_INPUTS (ReadDiscreteInputsRequest.starting_address r) (ReadDiscreteInputsRequest.quantity r)"

definition ReadDiscreteInputsRequest_decode_core :: "bytes \<Rightarrow> (ReadDiscreteInputsRequest, DecodeError_core) result" where
  "ReadDiscreteInputsRequest_decode_core bs =
     and_then (decode_address_and_quantity_core bs FUNCTION_CODE_READ_DISCRETE_INPUTS) (\<lambda>aq.
     Ok \<lparr>ReadDiscreteInputsRequest.starting_address = AddressAndQuantity.starting_address aq,
         quantity = AddressAndQuantity.quantity aq\<rparr>)"

definition ReadHoldingRegistersRequest_encode_core :: "ReadHoldingRegistersRequest \<Rightarrow> (PduBytes, 'e) result" where
  "ReadHoldingRegistersRequest_encode_core r =
     encode_address_and_quantity_core FUNCTION_CODE_READ_HOLDING_REGISTERS (ReadHoldingRegistersRequest.starting_address r) (ReadHoldingRegistersRequest.quantity r)"

definition ReadHoldingRegistersRequest_decode_core :: "bytes \<Rightarrow> (ReadHoldingRegistersRequest, DecodeError_core) result" where
  "ReadHoldingRegistersRequest_decode_core bs =
     and_then (decode_address_and_quantity_core bs FUNCTION_CODE_READ_HOLDING_REGISTERS) (\<lambda>aq.
     Ok \<lparr>ReadHoldingRegistersRequest.starting_address = AddressAndQuantity.starting_address aq,
         quantity = AddressAndQuantity.quantity aq\<rparr>)"

definition ReadInputRegistersRequest_encode_core :: "ReadInputRegistersRequest \<Rightarrow> (PduBytes, 'e) result" where
  "ReadInputRegistersRequest_encode_core r =
     encode_address_and_quantity_core FUNCTION_CODE_READ_INPUT_REGISTERS (ReadInputRegistersRequest.starting_address r) (ReadInputRegistersRequest.quantity r)"

definition ReadInputRegistersRequest_decode_core :: "bytes \<Rightarrow> (ReadInputRegistersRequest, DecodeError_core) result" where
  "ReadInputRegistersRequest_decode_core bs =
     and_then (decode_address_and_quantity_core bs FUNCTION_CODE_READ_INPUT_REGISTERS) (\<lambda>aq.
     Ok \<lparr>ReadInputRegistersRequest.starting_address = AddressAndQuantity.starting_address aq,
         quantity = AddressAndQuantity.quantity aq\<rparr>)"

section \<open>Bits\<close>

definition encode_bitfield_response_core :: "u8 \<Rightarrow> BitValues \<Rightarrow> (PduBytes, 'e) result" where
  "encode_bitfield_response_core fc values =
     and_then (BitValues_as_packed_bytes values) (\<lambda>packed.
     and_then (put fc PduBytes_new) (\<lambda>buffer.
     and_then (put (of_nat (length packed)) buffer) (\<lambda>buffer.
     put_slice packed buffer)))"

definition decode_bitfield_response_core ::
    "bytes \<Rightarrow> u8 \<Rightarrow> BitValues \<Rightarrow> (BitValues, DecodeError_core) result" where
  "decode_bitfield_response_core bs fc values =
     (if length bs < RESPONSE_HEADER_LEN then Err (Shared TooShort)
      else and_then (check_function_code_core fc bs) (\<lambda>_.
      and_then (index bs BYTE_COUNT_BYTE) (\<lambda>count_byte.
      let byte_count = unat count_byte in
      if length bs < RESPONSE_DATA_START + byte_count then Err (Shared TooShort)
      else and_then (slice bs RESPONSE_DATA_START (RESPONSE_DATA_START + byte_count)) (\<lambda>packed.
      or_too_large (BitValues_extend_from_packed_bytes packed (byte_count * 8) values)))))"

definition ReadCoilsResponse_encode_core :: "ReadCoilsResponse_core \<Rightarrow> (PduBytes, 'e) result" where
  "ReadCoilsResponse_encode_core r = encode_bitfield_response_core FUNCTION_CODE_READ_COILS (ReadCoilsResponse_core.coil_values r)"

definition ReadCoilsResponse_decode_core :: "bytes \<Rightarrow> (ReadCoilsResponse_core, DecodeError_core) result" where
  "ReadCoilsResponse_decode_core bs =
     and_then (decode_bitfield_response_core bs FUNCTION_CODE_READ_COILS BitValues_new) (\<lambda>vs.
     Ok \<lparr>ReadCoilsResponse_core.coil_values = vs\<rparr>)"

definition ReadDiscreteInputsResponse_encode_core :: "ReadDiscreteInputsResponse_core \<Rightarrow> (PduBytes, 'e) result" where
  "ReadDiscreteInputsResponse_encode_core r = encode_bitfield_response_core FUNCTION_CODE_READ_DISCRETE_INPUTS (ReadDiscreteInputsResponse_core.discrete_input_values r)"

definition ReadDiscreteInputsResponse_decode_core :: "bytes \<Rightarrow> (ReadDiscreteInputsResponse_core, DecodeError_core) result" where
  "ReadDiscreteInputsResponse_decode_core bs =
     and_then (decode_bitfield_response_core bs FUNCTION_CODE_READ_DISCRETE_INPUTS BitValues_new) (\<lambda>vs.
     Ok \<lparr>ReadDiscreteInputsResponse_core.discrete_input_values = vs\<rparr>)"

section \<open>Register arrays\<close>

definition encode_register_array_response_core :: "u8 \<Rightarrow> u16 list \<Rightarrow> (PduBytes, 'e) result" where
  "encode_register_array_response_core fc values =
     and_then (put fc PduBytes_new) (\<lambda>buffer.
     and_then (put (of_nat (length values * 2)) buffer) (\<lambda>buffer.
     for_each (\<lambda>v. put_slice (to_be_bytes v)) values buffer))"

definition decode_register_array_response_core ::
    "bytes \<Rightarrow> u8 \<Rightarrow> RegisterValues \<Rightarrow> (RegisterValues, DecodeError_core) result" where
  "decode_register_array_response_core bs fc values =
     (if length bs < RESPONSE_HEADER_LEN then Err (Shared TooShort)
      else and_then (check_function_code_core fc bs) (\<lambda>_.
      and_then (index bs BYTE_COUNT_BYTE) (\<lambda>byte_count.
      if odd (unat byte_count) then Err (Shared (OddByteCount byte_count))
      else if length bs < RESPONSE_DATA_START + unat byte_count then Err (Shared TooShort)
      else and_then (slice bs RESPONSE_DATA_START (RESPONSE_DATA_START + unat byte_count)) (\<lambda>payload.
      or_too_large (RegisterValues_extend_from_iter (words_be payload) values)))))"

definition ReadHoldingRegistersResponse_encode_core :: "ReadHoldingRegistersResponse_core \<Rightarrow> (PduBytes, 'e) result" where
  "ReadHoldingRegistersResponse_encode_core r =
     and_then (RegisterValues_as_slice (ReadHoldingRegistersResponse_core.register_values r)) (\<lambda>values.
     encode_register_array_response_core FUNCTION_CODE_READ_HOLDING_REGISTERS values)"

definition ReadHoldingRegistersResponse_decode_core :: "bytes \<Rightarrow> (ReadHoldingRegistersResponse_core, DecodeError_core) result" where
  "ReadHoldingRegistersResponse_decode_core bs =
     and_then (decode_register_array_response_core bs FUNCTION_CODE_READ_HOLDING_REGISTERS RegisterValues_new) (\<lambda>vs.
     Ok \<lparr>ReadHoldingRegistersResponse_core.register_values = vs\<rparr>)"

definition ReadInputRegistersResponse_encode_core :: "ReadInputRegistersResponse_core \<Rightarrow> (PduBytes, 'e) result" where
  "ReadInputRegistersResponse_encode_core r =
     and_then (RegisterValues_as_slice (ReadInputRegistersResponse_core.register_values r)) (\<lambda>values.
     encode_register_array_response_core FUNCTION_CODE_READ_INPUT_REGISTERS values)"

definition ReadInputRegistersResponse_decode_core :: "bytes \<Rightarrow> (ReadInputRegistersResponse_core, DecodeError_core) result" where
  "ReadInputRegistersResponse_decode_core bs =
     and_then (decode_register_array_response_core bs FUNCTION_CODE_READ_INPUT_REGISTERS RegisterValues_new) (\<lambda>vs.
     Ok \<lparr>ReadInputRegistersResponse_core.register_values = vs\<rparr>)"

section \<open>Single writes\<close>

definition encode_write_single_coil_core :: "u16 \<Rightarrow> bool \<Rightarrow> (PduBytes, 'e) result" where
  "encode_write_single_coil_core address v =
     encode_address_and_quantity_core FUNCTION_CODE_WRITE_SINGLE_COIL address
       (if v then COIL_VALUE_ON else COIL_VALUE_OFF)"

definition decode_write_single_coil_core :: "bytes \<Rightarrow> (u16 \<times> bool, DecodeError_core) result" where
  "decode_write_single_coil_core bs =
     and_then (decode_address_and_quantity_core bs FUNCTION_CODE_WRITE_SINGLE_COIL) (\<lambda>aq.
     let address = AddressAndQuantity.starting_address aq;
         wire_value = AddressAndQuantity.quantity aq in
     if wire_value = COIL_VALUE_ON then Ok (address, True)
     else if wire_value = COIL_VALUE_OFF then Ok (address, False)
     else Err (Shared (InvalidCoilValue wire_value)))"

definition WriteSingleCoilRequest_encode_core :: "WriteSingleCoilRequest \<Rightarrow> (PduBytes, 'e) result" where
  "WriteSingleCoilRequest_encode_core r =
     encode_write_single_coil_core (WriteSingleCoilRequest.coil_address r) (WriteSingleCoilRequest.coil_value r)"

definition WriteSingleCoilRequest_decode_core :: "bytes \<Rightarrow> (WriteSingleCoilRequest, DecodeError_core) result" where
  "WriteSingleCoilRequest_decode_core bs =
     and_then (decode_write_single_coil_core bs) (\<lambda>(address, v).
     Ok \<lparr>WriteSingleCoilRequest.coil_address = address, coil_value = v\<rparr>)"

definition WriteSingleCoilResponse_encode_core :: "WriteSingleCoilResponse \<Rightarrow> (PduBytes, 'e) result" where
  "WriteSingleCoilResponse_encode_core r =
     encode_write_single_coil_core (WriteSingleCoilResponse.coil_address r) (WriteSingleCoilResponse.coil_value r)"

definition WriteSingleCoilResponse_decode_core :: "bytes \<Rightarrow> (WriteSingleCoilResponse, DecodeError_core) result" where
  "WriteSingleCoilResponse_decode_core bs =
     and_then (decode_write_single_coil_core bs) (\<lambda>(address, v).
     Ok \<lparr>WriteSingleCoilResponse.coil_address = address, coil_value = v\<rparr>)"

definition WriteSingleRegisterRequest_encode_core :: "WriteSingleRegisterRequest \<Rightarrow> (PduBytes, 'e) result" where
  "WriteSingleRegisterRequest_encode_core r =
     encode_address_and_quantity_core FUNCTION_CODE_WRITE_SINGLE_REGISTER (WriteSingleRegisterRequest.register_address r) (WriteSingleRegisterRequest.register_value r)"

definition WriteSingleRegisterRequest_decode_core :: "bytes \<Rightarrow> (WriteSingleRegisterRequest, DecodeError_core) result" where
  "WriteSingleRegisterRequest_decode_core bs =
     and_then (decode_address_and_quantity_core bs FUNCTION_CODE_WRITE_SINGLE_REGISTER) (\<lambda>aq.
     Ok \<lparr>WriteSingleRegisterRequest.register_address = AddressAndQuantity.starting_address aq,
         register_value = AddressAndQuantity.quantity aq\<rparr>)"

definition WriteSingleRegisterResponse_encode_core :: "WriteSingleRegisterResponse \<Rightarrow> (PduBytes, 'e) result" where
  "WriteSingleRegisterResponse_encode_core r =
     encode_address_and_quantity_core FUNCTION_CODE_WRITE_SINGLE_REGISTER (WriteSingleRegisterResponse.register_address r) (WriteSingleRegisterResponse.register_value r)"

definition WriteSingleRegisterResponse_decode_core :: "bytes \<Rightarrow> (WriteSingleRegisterResponse, DecodeError_core) result" where
  "WriteSingleRegisterResponse_decode_core bs =
     and_then (decode_address_and_quantity_core bs FUNCTION_CODE_WRITE_SINGLE_REGISTER) (\<lambda>aq.
     Ok \<lparr>WriteSingleRegisterResponse.register_address = AddressAndQuantity.starting_address aq,
         register_value = AddressAndQuantity.quantity aq\<rparr>)"

section \<open>Mask Write Register\<close>

definition encode_mask_write_register_core :: "u16 \<Rightarrow> u16 \<Rightarrow> u16 \<Rightarrow> (PduBytes, 'e) result" where
  "encode_mask_write_register_core address am om =
     and_then (put FUNCTION_CODE_MASK_WRITE_REGISTER PduBytes_new) (\<lambda>buffer.
     and_then (put_slice (to_be_bytes address) buffer) (\<lambda>buffer.
     and_then (put_slice (to_be_bytes am) buffer) (\<lambda>buffer.
     and_then (put_slice (to_be_bytes om) buffer) (\<lambda>buffer.
     if PduBytes.len buffer \<noteq> MASK_WRITE_REGISTER_PDU_LEN then Panic else Ok buffer))))"

definition decode_mask_write_register_core :: "bytes \<Rightarrow> (u16 \<times> u16 \<times> u16, DecodeError_core) result" where
  "decode_mask_write_register_core bs =
     (if length bs < MASK_WRITE_REGISTER_PDU_LEN then Err (Shared TooShort)
      else and_then (check_function_code_core FUNCTION_CODE_MASK_WRITE_REGISTER bs) (\<lambda>_.
      and_then (read_u16_be bs ADDRESS_FIELD_BYTE) (\<lambda>address.
      and_then (read_u16_be bs QUANTITY_OR_VALUE_FIELD_BYTE) (\<lambda>am.
      and_then (read_u16_be bs OR_MASK_FIELD_BYTE) (\<lambda>om.
      Ok (address, am, om))))))"

definition MaskWriteRegisterRequest_encode_core :: "MaskWriteRegisterRequest \<Rightarrow> (PduBytes, 'e) result" where
  "MaskWriteRegisterRequest_encode_core r =
     encode_mask_write_register_core (MaskWriteRegisterRequest.reference_address r) (MaskWriteRegisterRequest.and_mask r) (MaskWriteRegisterRequest.or_mask r)"

definition MaskWriteRegisterRequest_decode_core :: "bytes \<Rightarrow> (MaskWriteRegisterRequest, DecodeError_core) result" where
  "MaskWriteRegisterRequest_decode_core bs =
     and_then (decode_mask_write_register_core bs) (\<lambda>(address, am, om).
     Ok \<lparr>MaskWriteRegisterRequest.reference_address = address, and_mask = am, or_mask = om\<rparr>)"

definition MaskWriteRegisterResponse_encode_core :: "MaskWriteRegisterResponse \<Rightarrow> (PduBytes, 'e) result" where
  "MaskWriteRegisterResponse_encode_core r =
     encode_mask_write_register_core (MaskWriteRegisterResponse.reference_address r) (MaskWriteRegisterResponse.and_mask r) (MaskWriteRegisterResponse.or_mask r)"

definition MaskWriteRegisterResponse_decode_core :: "bytes \<Rightarrow> (MaskWriteRegisterResponse, DecodeError_core) result" where
  "MaskWriteRegisterResponse_decode_core bs =
     and_then (decode_mask_write_register_core bs) (\<lambda>(address, am, om).
     Ok \<lparr>MaskWriteRegisterResponse.reference_address = address, and_mask = am, or_mask = om\<rparr>)"

section \<open>Report Server ID\<close>

definition ReportServerIdRequest_encode_core :: "ReportServerIdRequest \<Rightarrow> (PduBytes, 'e) result" where
  "ReportServerIdRequest_encode_core r = put FUNCTION_CODE_REPORT_SERVER_ID PduBytes_new"

definition ReportServerIdRequest_decode_core :: "bytes \<Rightarrow> (ReportServerIdRequest, DecodeError_core) result" where
  "ReportServerIdRequest_decode_core bs =
     (case bs of
        [] \<Rightarrow> Err (Shared TooShort)
      | fc # _ \<Rightarrow>
          if fc \<noteq> FUNCTION_CODE_REPORT_SERVER_ID
          then Err (Shared (UnexpectedFunctionCode FUNCTION_CODE_REPORT_SERVER_ID fc))
          else Ok ReportServerIdRequest)"

definition ReportServerIdResponse_encode_core ::
    "ReportServerIdResponse_core \<Rightarrow> (PduBytes, EncodeError_core) result" where
  "ReportServerIdResponse_encode_core r =
     (let byte_count = PduBytes.len (ReportServerIdResponse_core.server_id r) + 1 in
      if REPORT_SERVER_ID_RESPONSE_HEADER_LEN + byte_count > MAX_PDU_LEN_core then Err EncodeTooLargeForBuffer
      else and_then (put FUNCTION_CODE_REPORT_SERVER_ID PduBytes_new) (\<lambda>buffer.
      and_then (put (of_nat byte_count) buffer) (\<lambda>buffer.
      and_then (PduBytes_as_slice (ReportServerIdResponse_core.server_id r)) (\<lambda>sid.
      and_then (put_slice sid buffer) (\<lambda>buffer.
      put (if ReportServerIdResponse_core.run_indicator_status r then RUN_INDICATOR_ON
           else RUN_INDICATOR_OFF) buffer)))))"

definition ReportServerIdResponse_decode_core :: "bytes \<Rightarrow> (ReportServerIdResponse_core, DecodeError_core) result" where
  "ReportServerIdResponse_decode_core bs =
     (if length bs < REPORT_SERVER_ID_RESPONSE_HEADER_LEN then Err (Shared TooShort)
      else and_then (check_function_code_core FUNCTION_CODE_REPORT_SERVER_ID bs) (\<lambda>_.
      and_then (index bs REPORT_SERVER_ID_BYTE_COUNT_BYTE) (\<lambda>count_byte.
      let byte_count = unat count_byte in
      if byte_count = 0 then Err (Shared TooShort)
      else if length bs < REPORT_SERVER_ID_DATA_START + byte_count then Err (Shared TooShort)
      else let server_id_end = REPORT_SERVER_ID_DATA_START + byte_count - 1 in
      and_then (slice bs REPORT_SERVER_ID_DATA_START server_id_end) (\<lambda>bytes.
      and_then (or_too_large (PduBytes_extend_from_slice bytes PduBytes_new)) (\<lambda>sid.
      and_then (index bs server_id_end) (\<lambda>status.
      Ok \<lparr>ReportServerIdResponse_core.server_id = sid,
          run_indicator_status = (status \<noteq> RUN_INDICATOR_OFF)\<rparr>))))))"

section \<open>Read/Write Multiple Registers\<close>

definition ReadWriteMultipleRegistersRequest_encode_core ::
    "ReadWriteMultipleRegistersRequest_core \<Rightarrow> (PduBytes, EncodeError_core) result" where
  "ReadWriteMultipleRegistersRequest_encode_core r =
     (let n = RegisterValues.len (ReadWriteMultipleRegistersRequest_core.write_values r) in
      if n > MAX_READ_WRITE_MULTIPLE_REGISTERS_WRITE_COUNT
      then Err (SharedEncode (TooManyRegisters n MAX_READ_WRITE_MULTIPLE_REGISTERS_WRITE_COUNT))
      else and_then (put FUNCTION_CODE_READ_WRITE_MULTIPLE_REGISTERS PduBytes_new) (\<lambda>buffer.
      and_then (put_slice (to_be_bytes (ReadWriteMultipleRegistersRequest_core.read_starting_address r)) buffer) (\<lambda>buffer.
      and_then (put_slice (to_be_bytes (ReadWriteMultipleRegistersRequest_core.read_quantity r)) buffer) (\<lambda>buffer.
      and_then (put_slice (to_be_bytes (ReadWriteMultipleRegistersRequest_core.write_starting_address r)) buffer) (\<lambda>buffer.
      and_then (put_slice (to_be_bytes (of_nat n)) buffer) (\<lambda>buffer.
      and_then (put (of_nat (n * 2)) buffer) (\<lambda>buffer.
      and_then (RegisterValues_as_slice (ReadWriteMultipleRegistersRequest_core.write_values r)) (\<lambda>values.
      for_each (\<lambda>v. put_slice (to_be_bytes v)) values buffer))))))))"

definition ReadWriteMultipleRegistersRequest_decode_core ::
    "bytes \<Rightarrow> (ReadWriteMultipleRegistersRequest_core, DecodeError_core) result" where
  "ReadWriteMultipleRegistersRequest_decode_core bs =
     (if length bs < READ_WRITE_REQUEST_HEADER_LEN then Err (Shared TooShort)
      else and_then (check_function_code_core FUNCTION_CODE_READ_WRITE_MULTIPLE_REGISTERS bs) (\<lambda>_.
      and_then (read_u16_be bs ADDRESS_FIELD_BYTE) (\<lambda>read_address.
      and_then (read_u16_be bs QUANTITY_OR_VALUE_FIELD_BYTE) (\<lambda>read_q.
      and_then (read_u16_be bs READ_WRITE_WRITE_STARTING_ADDRESS_BYTE) (\<lambda>write_address.
      and_then (index bs READ_WRITE_BYTE_COUNT_BYTE) (\<lambda>byte_count.
      if odd (unat byte_count) then Err (Shared (OddByteCount byte_count))
      else if length bs < READ_WRITE_VALUES_START + unat byte_count then Err (Shared TooShort)
      else and_then (slice bs READ_WRITE_VALUES_START (READ_WRITE_VALUES_START + unat byte_count)) (\<lambda>payload.
      and_then (or_too_large (RegisterValues_extend_from_iter (words_be payload) RegisterValues_new)) (\<lambda>vs.
      Ok \<lparr>ReadWriteMultipleRegistersRequest_core.read_starting_address = read_address,
          read_quantity = read_q,
          write_starting_address = write_address,
          write_values = vs\<rparr>))))))))"

definition ReadWriteMultipleRegistersResponse_encode_core :: "ReadWriteMultipleRegistersResponse_core \<Rightarrow> (PduBytes, 'e) result" where
  "ReadWriteMultipleRegistersResponse_encode_core r =
     and_then (RegisterValues_as_slice (ReadWriteMultipleRegistersResponse_core.register_values r)) (\<lambda>values.
     encode_register_array_response_core FUNCTION_CODE_READ_WRITE_MULTIPLE_REGISTERS values)"

definition ReadWriteMultipleRegistersResponse_decode_core :: "bytes \<Rightarrow> (ReadWriteMultipleRegistersResponse_core, DecodeError_core) result" where
  "ReadWriteMultipleRegistersResponse_decode_core bs =
     and_then (decode_register_array_response_core bs FUNCTION_CODE_READ_WRITE_MULTIPLE_REGISTERS RegisterValues_new) (\<lambda>vs.
     Ok \<lparr>ReadWriteMultipleRegistersResponse_core.register_values = vs\<rparr>)"

section \<open>Write Multiple Coils\<close>

definition WriteMultipleCoilsRequest_encode_core :: "WriteMultipleCoilsRequest_core \<Rightarrow> (PduBytes, 'e) result" where
  "WriteMultipleCoilsRequest_encode_core r =
     (let n = BitValues.len (WriteMultipleCoilsRequest_core.coil_values r); byte_count = div_ceil n 8 in
      and_then (put FUNCTION_CODE_WRITE_MULTIPLE_COILS PduBytes_new) (\<lambda>buffer.
      and_then (put_slice (to_be_bytes (WriteMultipleCoilsRequest_core.starting_address r)) buffer) (\<lambda>buffer.
      and_then (put_slice (to_be_bytes (of_nat n)) buffer) (\<lambda>buffer.
      and_then (put (of_nat byte_count) buffer) (\<lambda>buffer.
      and_then (BitValues_as_packed_bytes (WriteMultipleCoilsRequest_core.coil_values r)) (\<lambda>packed.
      put_slice packed buffer))))))"

definition WriteMultipleCoilsRequest_decode_core ::
    "bytes \<Rightarrow> (WriteMultipleCoilsRequest_core, DecodeError_core) result" where
  "WriteMultipleCoilsRequest_decode_core bs =
     (if length bs < WRITE_MULTIPLE_REQUEST_HEADER_LEN then Err (Shared TooShort)
      else and_then (check_function_code_core FUNCTION_CODE_WRITE_MULTIPLE_COILS bs) (\<lambda>_.
      and_then (read_u16_be bs ADDRESS_FIELD_BYTE) (\<lambda>address.
      and_then (read_u16_be bs QUANTITY_OR_VALUE_FIELD_BYTE) (\<lambda>q.
      and_then (index bs WRITE_MULTIPLE_BYTE_COUNT_BYTE) (\<lambda>count_byte.
      if unat count_byte \<noteq> div_ceil (unat q) 8 then Err (Shared (QuantityByteCountMismatch q count_byte))
      else let byte_count = unat count_byte in
      if length bs < WRITE_MULTIPLE_VALUES_START + byte_count then Err (Shared TooShort)
      else and_then (slice bs WRITE_MULTIPLE_VALUES_START (WRITE_MULTIPLE_VALUES_START + byte_count)) (\<lambda>packed.
      and_then (or_too_large (BitValues_extend_from_packed_bytes packed (unat q) BitValues_new)) (\<lambda>vs.
      Ok \<lparr>WriteMultipleCoilsRequest_core.starting_address = address, coil_values = vs\<rparr>)))))))"

definition WriteMultipleCoilsResponse_encode_core :: "WriteMultipleCoilsResponse \<Rightarrow> (PduBytes, 'e) result" where
  "WriteMultipleCoilsResponse_encode_core r =
     encode_address_and_quantity_core FUNCTION_CODE_WRITE_MULTIPLE_COILS (WriteMultipleCoilsResponse.starting_address r) (WriteMultipleCoilsResponse.quantity r)"

definition WriteMultipleCoilsResponse_decode_core :: "bytes \<Rightarrow> (WriteMultipleCoilsResponse, DecodeError_core) result" where
  "WriteMultipleCoilsResponse_decode_core bs =
     and_then (decode_address_and_quantity_core bs FUNCTION_CODE_WRITE_MULTIPLE_COILS) (\<lambda>aq.
     Ok \<lparr>WriteMultipleCoilsResponse.starting_address = AddressAndQuantity.starting_address aq,
         quantity = AddressAndQuantity.quantity aq\<rparr>)"

section \<open>Write Multiple Registers\<close>

definition WriteMultipleRegistersRequest_encode_core ::
    "WriteMultipleRegistersRequest_core \<Rightarrow> (PduBytes, EncodeError_core) result" where
  "WriteMultipleRegistersRequest_encode_core r =
     (let n = RegisterValues.len (WriteMultipleRegistersRequest_core.register_values r) in
      if n > MAX_WRITE_MULTIPLE_REGISTERS_COUNT
      then Err (SharedEncode (TooManyRegisters n MAX_WRITE_MULTIPLE_REGISTERS_COUNT))
      else and_then (put FUNCTION_CODE_WRITE_MULTIPLE_REGISTERS PduBytes_new) (\<lambda>buffer.
      and_then (put_slice (to_be_bytes (WriteMultipleRegistersRequest_core.starting_address r)) buffer) (\<lambda>buffer.
      and_then (put_slice (to_be_bytes (of_nat n)) buffer) (\<lambda>buffer.
      and_then (put (of_nat (n * 2)) buffer) (\<lambda>buffer.
      and_then (RegisterValues_as_slice (WriteMultipleRegistersRequest_core.register_values r)) (\<lambda>values.
      for_each (\<lambda>v. put_slice (to_be_bytes v)) values buffer))))))"

definition WriteMultipleRegistersRequest_decode_core ::
    "bytes \<Rightarrow> (WriteMultipleRegistersRequest_core, DecodeError_core) result" where
  "WriteMultipleRegistersRequest_decode_core bs =
     (if length bs < WRITE_MULTIPLE_REQUEST_HEADER_LEN then Err (Shared TooShort)
      else and_then (check_function_code_core FUNCTION_CODE_WRITE_MULTIPLE_REGISTERS bs) (\<lambda>_.
      and_then (read_u16_be bs ADDRESS_FIELD_BYTE) (\<lambda>address.
      and_then (index bs WRITE_MULTIPLE_BYTE_COUNT_BYTE) (\<lambda>byte_count.
      if odd (unat byte_count) then Err (Shared (OddByteCount byte_count))
      else if length bs < WRITE_MULTIPLE_VALUES_START + unat byte_count then Err (Shared TooShort)
      else and_then (slice bs WRITE_MULTIPLE_VALUES_START (WRITE_MULTIPLE_VALUES_START + unat byte_count)) (\<lambda>payload.
      and_then (or_too_large (RegisterValues_extend_from_iter (words_be payload) RegisterValues_new)) (\<lambda>vs.
      Ok \<lparr>WriteMultipleRegistersRequest_core.starting_address = address, register_values = vs\<rparr>))))))"

definition WriteMultipleRegistersResponse_encode_core :: "WriteMultipleRegistersResponse \<Rightarrow> (PduBytes, 'e) result" where
  "WriteMultipleRegistersResponse_encode_core r =
     encode_address_and_quantity_core FUNCTION_CODE_WRITE_MULTIPLE_REGISTERS (WriteMultipleRegistersResponse.starting_address r) (WriteMultipleRegistersResponse.quantity r)"

definition WriteMultipleRegistersResponse_decode_core :: "bytes \<Rightarrow> (WriteMultipleRegistersResponse, DecodeError_core) result" where
  "WriteMultipleRegistersResponse_decode_core bs =
     and_then (decode_address_and_quantity_core bs FUNCTION_CODE_WRITE_MULTIPLE_REGISTERS) (\<lambda>aq.
     Ok \<lparr>WriteMultipleRegistersResponse.starting_address = AddressAndQuantity.starting_address aq,
         quantity = AddressAndQuantity.quantity aq\<rparr>)"

section \<open>Read Device Identification\<close>

definition ReadDeviceIdentificationRequest_encode_core ::
    "ReadDeviceIdentificationRequest \<Rightarrow> (PduBytes, 'e) result" where
  "ReadDeviceIdentificationRequest_encode_core r =
     put_slice [FUNCTION_CODE_ENCAPSULATED_INTERFACE_TRANSPORT, MEI_TYPE_READ_DEVICE_IDENTIFICATION,
       ReadDeviceIdentificationRequest.read_device_id_code r, ReadDeviceIdentificationRequest.object_id r]
       PduBytes_new"

definition check_mei_type_core :: "bytes \<Rightarrow> (unit, DecodeError_core) result" where
  "check_mei_type_core bs =
     and_then (index bs MEI_TYPE_BYTE) (\<lambda>actual.
     if actual \<noteq> MEI_TYPE_READ_DEVICE_IDENTIFICATION
     then Err (Shared (UnexpectedMeiType MEI_TYPE_READ_DEVICE_IDENTIFICATION actual)) else Ok ())"

definition ReadDeviceIdentificationRequest_decode_core ::
    "bytes \<Rightarrow> (ReadDeviceIdentificationRequest, DecodeError_core) result" where
  "ReadDeviceIdentificationRequest_decode_core bs =
     (if length bs < READ_DEVICE_IDENTIFICATION_REQUEST_LEN then Err (Shared TooShort)
      else and_then (check_function_code_core FUNCTION_CODE_ENCAPSULATED_INTERFACE_TRANSPORT bs) (\<lambda>_.
      and_then (check_mei_type_core bs) (\<lambda>_.
      and_then (index bs READ_DEVICE_ID_CODE_BYTE) (\<lambda>code.
      and_then (index bs REQUEST_OBJECT_ID_BYTE) (\<lambda>oid.
      Ok \<lparr>ReadDeviceIdentificationRequest.read_device_id_code = code, object_id = oid\<rparr>)))))"

text \<open>\<open>objects.object(index).expect(..)\<close>, and the sum over all of them.\<close>

definition expect_some :: "('a option, 'e) result \<Rightarrow> ('a, 'e) result" where
  "expect_some r = and_then r (\<lambda>x. case x of None \<Rightarrow> Panic | Some y \<Rightarrow> Ok y)"

definition total_of :: "(nat \<Rightarrow> (nat, 'e) result) \<Rightarrow> nat \<Rightarrow> (nat, 'e) result" where
  "total_of entry_len n = for_each (\<lambda>i total. map_ok (\<lambda>k. total + k) (entry_len i)) [0..<n] 0"

definition ReadDeviceIdentificationResponse_encode_core ::
    "ReadDeviceIdentificationResponse_core \<Rightarrow> (PduBytes, EncodeError_core) result" where
  "ReadDeviceIdentificationResponse_encode_core r =
     (let objs = ReadDeviceIdentificationResponse_core.objects r; n = DeviceIdentificationObjects.count objs in
      and_then (total_of (\<lambda>i. map_ok (\<lambda>(_, v). 2 + length v) (expect_some (object_at objs i))) n) (\<lambda>data_len.
      if RESPONSE_OBJECTS_START + data_len > MAX_PDU_LEN_core then Err EncodeTooLargeForBuffer
      else and_then (put FUNCTION_CODE_ENCAPSULATED_INTERFACE_TRANSPORT PduBytes_new) (\<lambda>buffer.
      and_then (put MEI_TYPE_READ_DEVICE_IDENTIFICATION buffer) (\<lambda>buffer.
      and_then (put (ReadDeviceIdentificationResponse_core.read_device_id_code r) buffer) (\<lambda>buffer.
      and_then (put (ReadDeviceIdentificationResponse_core.conformity_level r) buffer) (\<lambda>buffer.
      and_then (put (if ReadDeviceIdentificationResponse_core.more_follows r then MORE_FOLLOWS_YES
                     else MORE_FOLLOWS_NO) buffer) (\<lambda>buffer.
      and_then (put (ReadDeviceIdentificationResponse_core.next_object_id r) buffer) (\<lambda>buffer.
      and_then (put (of_nat n) buffer) (\<lambda>buffer.
      for_each (\<lambda>i buffer.
        and_then (expect_some (object_at objs i)) (\<lambda>(oid, v).
        and_then (put oid buffer) (\<lambda>buffer.
        and_then (put (of_nat (length v)) buffer) (\<lambda>buffer.
        put_slice v buffer)))) [0..<n] buffer)))))))))"

text \<open>The \<open>for _ in 0..number_of_objects\<close> loop.\<close>

fun decode_objects_core ::
    "bytes \<Rightarrow> nat \<Rightarrow> nat \<Rightarrow> DeviceIdentificationObjects \<Rightarrow> (DeviceIdentificationObjects, DecodeError_core) result" where
  "decode_objects_core bs 0 off objs = Ok objs"
| "decode_objects_core bs (Suc n) off objs =
     (if length bs < off + 2 then Err (Shared TooShort)
      else and_then (index bs off) (\<lambda>oid.
      and_then (index bs (off + 1)) (\<lambda>len_byte.
      let len = unat len_byte; value_start = off + 2 in
      if length bs < value_start + len then Err (Shared TooShort)
      else and_then (slice bs value_start (value_start + len)) (\<lambda>v.
      and_then (or_too_large (DeviceIdentificationObjects_push oid v objs)) (\<lambda>objs.
      decode_objects_core bs n (value_start + len) objs)))))"

definition ReadDeviceIdentificationResponse_decode_core ::
    "bytes \<Rightarrow> (ReadDeviceIdentificationResponse_core, DecodeError_core) result" where
  "ReadDeviceIdentificationResponse_decode_core bs =
     (if length bs < READ_DEVICE_IDENTIFICATION_RESPONSE_HEADER_LEN then Err (Shared TooShort)
      else and_then (check_function_code_core FUNCTION_CODE_ENCAPSULATED_INTERFACE_TRANSPORT bs) (\<lambda>_.
      and_then (check_mei_type_core bs) (\<lambda>_.
      and_then (index bs READ_DEVICE_ID_CODE_BYTE) (\<lambda>code.
      and_then (index bs CONFORMITY_LEVEL_BYTE) (\<lambda>level.
      and_then (index bs MORE_FOLLOWS_BYTE) (\<lambda>more.
      and_then (index bs NEXT_OBJECT_ID_BYTE) (\<lambda>next_id.
      and_then (index bs NUMBER_OF_OBJECTS_BYTE) (\<lambda>number_of_objects.
      and_then (decode_objects_core bs (unat number_of_objects) RESPONSE_OBJECTS_START
                  DeviceIdentificationObjects_new) (\<lambda>objs.
      Ok \<lparr>ReadDeviceIdentificationResponse_core.read_device_id_code = code,
          conformity_level = level,
          more_follows = (more \<noteq> MORE_FOLLOWS_NO),
          next_object_id = next_id,
          objects = objs\<rparr>)))))))))"

section \<open>Read File Record\<close>

definition ReadFileRecordRequest_encode_core :: "ReadFileRecordRequest_core \<Rightarrow> (PduBytes, 'e) result" where
  "ReadFileRecordRequest_encode_core r =
     and_then (put FUNCTION_CODE_READ_FILE_RECORD PduBytes_new) (\<lambda>buffer.
     and_then (put (of_nat (FileRecordSubRequests.len (ReadFileRecordRequest_core.sub_requests r)
                     * FILE_RECORD_SUB_REQUEST_LEN)) buffer) (\<lambda>buffer.
     and_then (FileRecordSubRequests_as_slice (ReadFileRecordRequest_core.sub_requests r)) (\<lambda>srs.
     for_each (\<lambda>sr buffer.
       and_then (put FILE_RECORD_REFERENCE_TYPE buffer) (\<lambda>buffer.
       and_then (put_slice (to_be_bytes (FileRecordSubRequest.file_number sr)) buffer) (\<lambda>buffer.
       and_then (put_slice (to_be_bytes (FileRecordSubRequest.record_number sr)) buffer) (\<lambda>buffer.
       put_slice (to_be_bytes (FileRecordSubRequest.record_length sr)) buffer)))) srs buffer)))"

text \<open>The \<open>for _ in 0..sub_request_count\<close> loop.\<close>

fun decode_sub_requests_core ::
    "bytes \<Rightarrow> nat \<Rightarrow> nat \<Rightarrow> FileRecordSubRequests \<Rightarrow> (FileRecordSubRequests, DecodeError_core) result" where
  "decode_sub_requests_core bs 0 off srs = Ok srs"
| "decode_sub_requests_core bs (Suc n) off srs =
     and_then (index bs off) (\<lambda>reference_type.
     if reference_type \<noteq> FILE_RECORD_REFERENCE_TYPE
     then Err (Shared (InvalidFileRecordReferenceType reference_type))
     else and_then (read_u16_be bs (off + 1)) (\<lambda>f.
     and_then (read_u16_be bs (off + 3)) (\<lambda>rn.
     and_then (read_u16_be bs (off + 5)) (\<lambda>rl.
     and_then (or_too_large (FileRecordSubRequests_push
       \<lparr>FileRecordSubRequest.file_number = f, record_number = rn, record_length = rl\<rparr> srs)) (\<lambda>srs.
     decode_sub_requests_core bs n (off + FILE_RECORD_SUB_REQUEST_LEN) srs)))))"

definition ReadFileRecordRequest_decode_core :: "bytes \<Rightarrow> (ReadFileRecordRequest_core, DecodeError_core) result" where
  "ReadFileRecordRequest_decode_core bs =
     (if length bs < RESPONSE_DATA_START then Err (Shared TooShort)
      else and_then (check_function_code_core FUNCTION_CODE_READ_FILE_RECORD bs) (\<lambda>_.
      and_then (index bs BYTE_COUNT_BYTE) (\<lambda>byte_count.
      if byte_count = 0 \<or> unat byte_count mod FILE_RECORD_SUB_REQUEST_LEN \<noteq> 0
      then Err (Shared (InvalidFileRecordByteCount byte_count))
      else if length bs < RESPONSE_DATA_START + unat byte_count then Err (Shared TooShort)
      else and_then (decode_sub_requests_core bs (unat byte_count div FILE_RECORD_SUB_REQUEST_LEN)
             RESPONSE_DATA_START FileRecordSubRequests_new) (\<lambda>srs.
      Ok \<lparr>ReadFileRecordRequest_core.sub_requests = srs\<rparr>))))"

definition ReadFileRecordResponse_encode_core ::
    "ReadFileRecordResponse_core \<Rightarrow> (PduBytes, EncodeError_core) result" where
  "ReadFileRecordResponse_encode_core r =
     (let recs = ReadFileRecordResponse_core.records r; n = record_count recs in
      and_then (total_of (\<lambda>i. map_ok (\<lambda>rec. 2 + length rec) (expect_some (record_at recs i))) n) (\<lambda>data_len.
      if RESPONSE_DATA_START + data_len > MAX_PDU_LEN_core then Err EncodeTooLargeForBuffer
      else and_then (put FUNCTION_CODE_READ_FILE_RECORD PduBytes_new) (\<lambda>buffer.
      and_then (put (of_nat data_len) buffer) (\<lambda>buffer.
      for_each (\<lambda>i buffer.
        and_then (expect_some (record_at recs i)) (\<lambda>rec.
        and_then (put (of_nat (1 + length rec)) buffer) (\<lambda>buffer.
        and_then (put FILE_RECORD_REFERENCE_TYPE buffer) (\<lambda>buffer.
        put_slice rec buffer)))) [0..<n] buffer))))"

text \<open>The \<open>while offset < end\<close> loop.\<close>

function decode_file_records_core ::
    "bytes \<Rightarrow> nat \<Rightarrow> nat \<Rightarrow> FileRecordResponseData \<Rightarrow> (FileRecordResponseData, DecodeError_core) result" where
  "decode_file_records_core bs end_offset off recs =
     (if off < end_offset then
        if length bs < off + 1 then Err (Shared TooShort)
        else and_then (index bs off) (\<lambda>sub_response_length.
        if sub_response_length = 0 then Err (Shared (InvalidFileRecordSubResponseLength sub_response_length))
        else let reference_type_offset = off + 1 in
        if length bs < reference_type_offset + 1 then Err (Shared TooShort)
        else and_then (index bs reference_type_offset) (\<lambda>reference_type.
        if reference_type \<noteq> FILE_RECORD_REFERENCE_TYPE
        then Err (Shared (InvalidFileRecordReferenceType reference_type))
        else let data_start = reference_type_offset + 1; data_len = unat sub_response_length - 1 in
        if length bs < data_start + data_len then Err (Shared TooShort)
        else and_then (slice bs data_start (data_start + data_len)) (\<lambda>rec.
        and_then (or_too_large (push_record rec recs)) (\<lambda>recs.
        decode_file_records_core bs end_offset (data_start + data_len) recs))))
      else Ok recs)"
  by pat_completeness auto
termination
  by (relation "measure (\<lambda>(bs, end_offset, off, recs). end_offset - off)") auto

definition ReadFileRecordResponse_decode_core :: "bytes \<Rightarrow> (ReadFileRecordResponse_core, DecodeError_core) result" where
  "ReadFileRecordResponse_decode_core bs =
     (if length bs < RESPONSE_DATA_START then Err (Shared TooShort)
      else and_then (check_function_code_core FUNCTION_CODE_READ_FILE_RECORD bs) (\<lambda>_.
      and_then (index bs BYTE_COUNT_BYTE) (\<lambda>count_byte.
      let byte_count = unat count_byte in
      if length bs < RESPONSE_DATA_START + byte_count then Err (Shared TooShort)
      else and_then (decode_file_records_core bs (RESPONSE_DATA_START + byte_count) RESPONSE_DATA_START
             FileRecordResponseData_new) (\<lambda>recs.
      Ok \<lparr>ReadFileRecordResponse_core.records = recs\<rparr>))))"

section \<open>Write File Record\<close>

text \<open>The loop that rejects record data of odd length.\<close>

definition check_even_record_data_core :: "WriteFileRecordSubRequests \<Rightarrow> (unit, EncodeError_core) result" where
  "check_even_record_data_core srs =
     for_each (\<lambda>i _.
       and_then (expect_some (sub_request_at srs i)) (\<lambda>(f, rn, d).
       if length d mod 2 \<noteq> 0 then Err (SharedEncode (OddFileRecordDataLength f rn (length d))) else Ok ()))
       [0..<WriteFileRecordSubRequests.count srs] ()"

definition encode_write_file_record_core ::
    "u8 \<Rightarrow> WriteFileRecordSubRequests \<Rightarrow> (PduBytes, EncodeError_core) result" where
  "encode_write_file_record_core fc srs =
     (let n = WriteFileRecordSubRequests.count srs in
      and_then (check_even_record_data_core srs) (\<lambda>_.
      and_then (total_of (\<lambda>i. map_ok (\<lambda>(_, _, d). FILE_RECORD_SUB_REQUEST_LEN + length d)
                  (expect_some (sub_request_at srs i))) n) (\<lambda>data_len.
      if RESPONSE_DATA_START + data_len > MAX_PDU_LEN_core then Err EncodeTooLargeForBuffer
      else and_then (put fc PduBytes_new) (\<lambda>buffer.
      and_then (put (of_nat data_len) buffer) (\<lambda>buffer.
      for_each (\<lambda>i buffer.
        and_then (expect_some (sub_request_at srs i)) (\<lambda>(f, rn, d).
        and_then (put FILE_RECORD_REFERENCE_TYPE buffer) (\<lambda>buffer.
        and_then (put_slice (to_be_bytes f) buffer) (\<lambda>buffer.
        and_then (put_slice (to_be_bytes rn) buffer) (\<lambda>buffer.
        and_then (put_slice (to_be_bytes (of_nat (length d div 2))) buffer) (\<lambda>buffer.
        put_slice d buffer)))))) [0..<n] buffer)))))"

text \<open>The \<open>while offset < end\<close> loop.\<close>

function decode_write_sub_requests_core ::
    "bytes \<Rightarrow> nat \<Rightarrow> nat \<Rightarrow> WriteFileRecordSubRequests \<Rightarrow> (WriteFileRecordSubRequests, DecodeError_core) result" where
  "decode_write_sub_requests_core bs end_offset off srs =
     (if off < end_offset then
        if length bs < off + FILE_RECORD_SUB_REQUEST_LEN then Err (Shared TooShort)
        else and_then (index bs off) (\<lambda>reference_type.
        if reference_type \<noteq> FILE_RECORD_REFERENCE_TYPE
        then Err (Shared (InvalidFileRecordReferenceType reference_type))
        else and_then (read_u16_be bs (off + 1)) (\<lambda>f.
        and_then (read_u16_be bs (off + 3)) (\<lambda>rn.
        and_then (read_u16_be bs (off + 5)) (\<lambda>rl.
        let data_start = off + FILE_RECORD_SUB_REQUEST_LEN; data_len = unat rl * 2 in
        if length bs < data_start + data_len then Err (Shared TooShort)
        else and_then (slice bs data_start (data_start + data_len)) (\<lambda>d.
        and_then (or_too_large (WriteFileRecordSubRequests_push f rn d srs)) (\<lambda>srs.
        decode_write_sub_requests_core bs end_offset (data_start + data_len) srs))))))
      else Ok srs)"
  by pat_completeness auto
termination
  by (relation "measure (\<lambda>(bs, end_offset, off, srs). end_offset - off)") auto

definition decode_write_file_record_core ::
    "bytes \<Rightarrow> u8 \<Rightarrow> (WriteFileRecordSubRequests, DecodeError_core) result" where
  "decode_write_file_record_core bs fc =
     (if length bs < RESPONSE_DATA_START then Err (Shared TooShort)
      else and_then (check_function_code_core fc bs) (\<lambda>_.
      and_then (index bs BYTE_COUNT_BYTE) (\<lambda>count_byte.
      let byte_count = unat count_byte in
      if length bs < RESPONSE_DATA_START + byte_count then Err (Shared TooShort)
      else decode_write_sub_requests_core bs (RESPONSE_DATA_START + byte_count) RESPONSE_DATA_START
             WriteFileRecordSubRequests_new)))"

definition WriteFileRecordRequest_encode_core :: "WriteFileRecordRequest_core \<Rightarrow> (PduBytes, EncodeError_core) result" where
  "WriteFileRecordRequest_encode_core r =
     encode_write_file_record_core FUNCTION_CODE_WRITE_FILE_RECORD (WriteFileRecordRequest_core.sub_requests r)"

definition WriteFileRecordRequest_decode_core :: "bytes \<Rightarrow> (WriteFileRecordRequest_core, DecodeError_core) result" where
  "WriteFileRecordRequest_decode_core bs =
     and_then (decode_write_file_record_core bs FUNCTION_CODE_WRITE_FILE_RECORD) (\<lambda>srs.
     Ok \<lparr>WriteFileRecordRequest_core.sub_requests = srs\<rparr>)"

definition WriteFileRecordResponse_encode_core :: "WriteFileRecordResponse_core \<Rightarrow> (PduBytes, EncodeError_core) result" where
  "WriteFileRecordResponse_encode_core r =
     encode_write_file_record_core FUNCTION_CODE_WRITE_FILE_RECORD (WriteFileRecordResponse_core.sub_requests r)"

definition WriteFileRecordResponse_decode_core :: "bytes \<Rightarrow> (WriteFileRecordResponse_core, DecodeError_core) result" where
  "WriteFileRecordResponse_decode_core bs =
     and_then (decode_write_file_record_core bs FUNCTION_CODE_WRITE_FILE_RECORD) (\<lambda>srs.
     Ok \<lparr>WriteFileRecordResponse_core.sub_requests = srs\<rparr>)"

section \<open>Exceptions\<close>

definition ExceptionResponse_encode_core :: "ExceptionResponse \<Rightarrow> (PduBytes, 'e) result" where
  "ExceptionResponse_encode_core r =
     put_slice [ExceptionResponse.function_code r OR EXCEPTION_RESPONSE_FUNCTION_CODE_BIT,
       ExceptionResponse.exception_code r] PduBytes_new"

definition ExceptionResponse_decode_core :: "bytes \<Rightarrow> (ExceptionResponse, DecodeError_core) result" where
  "ExceptionResponse_decode_core bs =
     (if length bs < EXCEPTION_RESPONSE_LEN then Err (Shared TooShort)
      else and_then (index bs FUNCTION_CODE_BYTE) (\<lambda>raw_function_code.
      if raw_function_code AND EXCEPTION_RESPONSE_FUNCTION_CODE_BIT = 0
      then Err (Shared (NotAnExceptionResponse raw_function_code))
      else and_then (index bs EXCEPTION_CODE_BYTE) (\<lambda>code.
      Ok \<lparr>ExceptionResponse.function_code =
            raw_function_code AND NOT EXCEPTION_RESPONSE_FUNCTION_CODE_BIT,
          exception_code = code\<rparr>)))"

declare decode_file_records_core.simps [simp del] decode_write_sub_requests_core.simps [simp del]

end
