(* ===== verification/Core_Codec.thy ===== *)
theory Core_Codec
  imports Core_Pdu
begin

text \<open>
  The two codecs agree. A decoder of \<open>protocol-core\<close> gives what the decoder of \<open>protocol\<close> gives on the
  same bytes, unless its containers are too small for it, and an encoder gives the same bytes,
  unless they exceed a PDU. The one exception is the encoder of Write Multiple Coils, which
  panics on a list its container admits.
\<close>

section \<open>Decoders without a container\<close>

lemma map_err_and_then: "map_err f (and_then r g) = and_then (map_err f r) (\<lambda>x. map_err f (g x))"
  by (cases r) simp_all

lemma map_err_if: "map_err f (if c then r else s) = (if c then map_err f r else map_err f s)"
  by simp

lemma map_err_index [simp]: "map_err f (index bs i) = index bs i"
  by (simp add: index_def)

lemma map_err_slice [simp]: "map_err f (slice bs a b) = slice bs a b"
  by (simp add: slice_def)

lemma map_err_read_u16_be [simp]: "map_err f (read_u16_be bs i) = read_u16_be bs i"
  by (simp add: read_u16_be_def map_err_and_then)

lemmas map_err_push = map_err_and_then map_err_if Let_def split_def

lemma check_core [simp]:
  "check_function_code_core fc bs = map_err Shared (check_function_code fc bs)"
  "check_mei_type_core bs = map_err Shared (check_mei_type bs)"
  by (simp_all add: check_function_code_core_def check_function_code_def check_mei_type_core_def check_mei_type_def
      map_err_push cong: if_cong)

lemma address_and_quantity_core [simp]:
  "decode_address_and_quantity_core bs fc = map_err Shared (decode_address_and_quantity bs fc)"
  by (simp add: decode_address_and_quantity_core_def decode_address_and_quantity_def map_err_push cong: if_cong)

lemma write_single_coil_core [simp]:
  "decode_write_single_coil_core bs = map_err Shared (decode_write_single_coil bs)"
  by (simp add: decode_write_single_coil_core_def decode_write_single_coil_def map_err_push cong: if_cong)

lemma mask_write_register_core [simp]:
  "decode_mask_write_register_core bs = map_err Shared (decode_mask_write_register bs)"
  by (simp add: decode_mask_write_register_core_def decode_mask_write_register_def map_err_push cong: if_cong)

lemma scalar_decoders_core:
  "ReadCoilsRequest_decode_core bs = map_err Shared (ReadCoilsRequest_decode bs)"
  "ReadDiscreteInputsRequest_decode_core bs = map_err Shared (ReadDiscreteInputsRequest_decode bs)"
  "ReadHoldingRegistersRequest_decode_core bs = map_err Shared (ReadHoldingRegistersRequest_decode bs)"
  "ReadInputRegistersRequest_decode_core bs = map_err Shared (ReadInputRegistersRequest_decode bs)"
  "WriteSingleCoilRequest_decode_core bs = map_err Shared (WriteSingleCoilRequest_decode bs)"
  "WriteSingleCoilResponse_decode_core bs = map_err Shared (WriteSingleCoilResponse_decode bs)"
  "WriteSingleRegisterRequest_decode_core bs = map_err Shared (WriteSingleRegisterRequest_decode bs)"
  "WriteSingleRegisterResponse_decode_core bs = map_err Shared (WriteSingleRegisterResponse_decode bs)"
  "MaskWriteRegisterRequest_decode_core bs = map_err Shared (MaskWriteRegisterRequest_decode bs)"
  "MaskWriteRegisterResponse_decode_core bs = map_err Shared (MaskWriteRegisterResponse_decode bs)"
  "ReportServerIdRequest_decode_core bs = map_err Shared (ReportServerIdRequest_decode bs)"
  "WriteMultipleCoilsResponse_decode_core bs = map_err Shared (WriteMultipleCoilsResponse_decode bs)"
  "WriteMultipleRegistersResponse_decode_core bs = map_err Shared (WriteMultipleRegistersResponse_decode bs)"
  "ReadDeviceIdentificationRequest_decode_core bs = map_err Shared (ReadDeviceIdentificationRequest_decode bs)"
  "ExceptionResponse_decode_core bs = map_err Shared (ExceptionResponse_decode bs)"
  unfolding ReadCoilsRequest_decode_core_def ReadDiscreteInputsRequest_decode_core_def
    ReadHoldingRegistersRequest_decode_core_def ReadInputRegistersRequest_decode_core_def
    WriteSingleCoilRequest_decode_core_def WriteSingleCoilResponse_decode_core_def
    WriteSingleRegisterRequest_decode_core_def WriteSingleRegisterResponse_decode_core_def
    MaskWriteRegisterRequest_decode_core_def MaskWriteRegisterResponse_decode_core_def
    ReportServerIdRequest_decode_core_def WriteMultipleCoilsResponse_decode_core_def
    WriteMultipleRegistersResponse_decode_core_def ReadDeviceIdentificationRequest_decode_core_def
    ExceptionResponse_decode_core_def ReportServerIdRequest_decode_def
    ReadDeviceIdentificationRequest_decode_def ExceptionResponse_decode_def pdu_defs
  by (simp_all add: map_err_push cong: if_cong split: list.split)

section \<open>Decoders that fill a container\<close>

text \<open>The result of the other codec, if the container has room for it.\<close>

definition bounded :: "('p \<Rightarrow> bool) \<Rightarrow> ('p \<Rightarrow> 'c) \<Rightarrow> ('p, DecodeError) result \<Rightarrow> ('c, DecodeError_core) result" where
  "bounded fits wrap r = and_then (map_err Shared r) (\<lambda>p. if fits p then Ok (wrap p) else Err TooLargeForBuffer)"

lemma bounded_and_then:
  "bounded fits wrap (and_then r f) = and_then (map_err Shared r) (\<lambda>x. bounded fits wrap (f x))"
  by (simp add: bounded_def map_err_and_then and_then_assoc)

lemma bounded_if: "bounded fits wrap (if c then r else s) = (if c then bounded fits wrap r else bounded fits wrap s)"
  by simp

lemma bounded_simps [simp]:
  "bounded fits wrap (Ok p) = (if fits p then Ok (wrap p) else Err TooLargeForBuffer)"
  "bounded fits wrap (Err e) = Err (Shared e)"
  "bounded fits wrap Panic = Panic"
  by (simp_all add: bounded_def)

lemmas bounded_push = bounded_and_then bounded_if Let_def

text \<open>
  A decoder that stops as soon as the container is full may miss an error further on in the bytes.
\<close>

definition agrees :: "('p \<Rightarrow> bool) \<Rightarrow> ('p \<Rightarrow> 'c) \<Rightarrow> ('c, DecodeError_core) result \<Rightarrow> ('p, DecodeError) result \<Rightarrow> bool" where
  "agrees fits wrap core r \<longleftrightarrow> core = bounded fits wrap r \<or> core = Err TooLargeForBuffer \<and> (\<exists>e. r = Err e)"

lemma agrees_bounded [simp]: "agrees fits wrap (bounded fits wrap r) r"
  by (simp add: agrees_def)

lemma agrees_Err [simp]: "agrees fits wrap (Err (Shared e)) (Err e)"
  by (simp add: agrees_def)

lemma agrees_Ok [simp]: "fits p \<Longrightarrow> agrees fits wrap (Ok (wrap p)) (Ok p)"
  by (simp add: agrees_def)

lemma agrees_full:
  assumes "r \<noteq> Panic" and "\<And>p. r = Ok p \<Longrightarrow> \<not> fits p"
  shows "agrees fits wrap (Err TooLargeForBuffer) r"
  using assms by (cases r) (simp_all add: agrees_def)

lemma agrees_and_then:
  assumes "\<And>x. r = Ok x \<Longrightarrow> agrees fits wrap (g x) (f x)"
  shows "agrees fits wrap (and_then (map_err Shared r) g) (and_then r f)"
  using assms by (cases r) (simp_all add: agrees_def)

lemma agrees_return:
  assumes "agrees fits wrap core r" and "\<And>x. fits' (h x) = fits x" and "\<And>x. wrap' (h x) = g (wrap x)"
  shows "agrees fits' wrap' (and_then core (\<lambda>x. Ok (g x))) (and_then r (\<lambda>x. Ok (h x)))"
  using assms by (cases r) (auto simp: agrees_def)

lemma register_iter_new [simp]:
  "or_too_large (RegisterValues_extend_from_iter vs RegisterValues_new)
     = (if length vs \<le> 125 then Ok (register_list vs) else Err TooLargeForBuffer)"
  using register_iter.extend_eq [of "[]" vs] by (simp add: registers.new_empty)

lemma pdu_bytes_extend_new [simp]:
  "or_too_large (PduBytes_extend_from_slice xs PduBytes_new)
     = (if length xs \<le> 253 then Ok (pdu_bytes xs) else Err TooLargeForBuffer)"
  using pdu_buffer.extend_eq [of "[]" xs] by (simp add: pdu_buffer.new_empty)

lemma packed_bytes_new:
  assumes "div_ceil n 8 = length packed"
  shows "BitValues_extend_from_packed_bytes packed n BitValues_new
     = (if n \<le> 2000 then Ok \<lparr>BitValues.data = padded 250 0 packed, len = n\<rparr> else Err CapacityExceeded)"
proof (cases "n \<le> 2000")
  case True
  then have "length packed \<le> 250" using assms div_ceil_8_le [of n 250] by simp
  then show ?thesis
    using True assms by (simp add: BitValues_extend_from_packed_bytes_def BitValues_new_def padded_def)
qed (simp add: BitValues_extend_from_packed_bytes_def BitValues_new_def)

lemma bit_list_bits_of: "length packed \<le> 250 \<Longrightarrow> bit_list (bits_of packed) = \<lparr>BitValues.data = padded 250 0 packed, len = 8 * length packed\<rparr>"
  using bit_list_data [of "bits_of packed"] by (cases "bit_list (bits_of packed)") (simp add: bit_list_def)

lemma packed_bytes_whole [simp]:
  "n = length packed \<Longrightarrow> or_too_large (BitValues_extend_from_packed_bytes packed (n * 8) BitValues_new)
     = (if length (bits_of packed) \<le> 2000 then Ok (bit_list (bits_of packed)) else Err TooLargeForBuffer)"
  by (subst packed_bytes_new) (auto simp: bit_list_bits_of)

lemma unpack_whole [simp]: "n = length packed \<Longrightarrow> unpack_bits packed [0..<n * 8] = Ok (bits_of packed)"
  using unpack_bits_all [of packed] by (simp add: mult.commute)

lemma register_array_core:
  "decode_register_array_response_core bs fc RegisterValues_new
     = bounded (\<lambda>vs. length vs \<le> 125) register_list (decode_register_array_response bs fc)"
  by (simp add: decode_register_array_response_core_def decode_register_array_response_def bounded_push cong: if_cong)

lemma bitfield_core:
  "decode_bitfield_response_core bs fc BitValues_new
     = bounded (\<lambda>vs. length vs \<le> 2000) bit_list (decode_bitfield_response bs fc)"
  by (auto simp add: decode_bitfield_response_core_def decode_bitfield_response_def bounded_push not_less
      cong: if_cong intro!: and_then_cong)

section \<open>Loops\<close>

lemma push_object_core:
  "objects_fit objs \<Longrightarrow> or_too_large (DeviceIdentificationObjects_push oid v (object_table objs))
     = (let objs' = objs @ [\<lparr>DeviceIdentificationObject.id_byte = oid, object_value = v\<rparr>] in
        if objects_fit objs' then Ok (object_table objs') else Err TooLargeForBuffer)"
  using push_object_eq [of objs "\<lparr>DeviceIdentificationObject.id_byte = oid, object_value = v\<rparr>"] by (simp add: Let_def)

lemma push_record_core:
  "records_fit recs \<Longrightarrow> or_too_large (push_record rec (record_table recs))
     = (if records_fit (recs @ [rec]) then Ok (record_table (recs @ [rec])) else Err TooLargeForBuffer)"
  by (simp add: push_record_eq)

lemma push_write_core:
  "writes_fit srs \<Longrightarrow> or_too_large (WriteFileRecordSubRequests_push f rn d (write_table srs))
     = (let srs' = srs @ [\<lparr>WriteFileRecordSubRequest.file_number = f, record_number = rn, record_data = d\<rparr>] in
        if writes_fit srs' then Ok (write_table srs') else Err TooLargeForBuffer)"
  using push_write_eq [of srs "\<lparr>WriteFileRecordSubRequest.file_number = f, record_number = rn, record_data = d\<rparr>"]
  by (simp add: Let_def)

lemma push_sub_request_core:
  "length srs \<le> 35 \<Longrightarrow> or_too_large (FileRecordSubRequests_push sr (sub_request_list srs))
     = (if length (srs @ [sr]) \<le> 35 then Ok (sub_request_list (srs @ [sr])) else Err TooLargeForBuffer)"
  by (simp add: sub_requests.push_eq)

text \<open>The loops of the other codec only append.\<close>

lemma decode_objects_extends: "decode_objects bs n off objs = Ok res \<Longrightarrow> prefix objs res"
proof (induction n arbitrary: off objs)
  case (Suc n)
  from Suc.prems show ?case
    by (auto simp: and_then_eq_Ok_iff Let_def split: if_splits dest!: Suc.IH append_prefixD)
qed simp

lemma decode_sub_requests_extends: "decode_sub_requests bs n off srs = Ok res \<Longrightarrow> prefix srs res"
proof (induction bs n off srs rule: decode_sub_requests.induct)
  case (2 bs n off srs)
  from "2.prems" show ?case
    by (auto simp: and_then_eq_Ok_iff Let_def split: if_splits dest!: "2.IH" append_prefixD)
qed simp

lemma decode_file_records_extends: "decode_file_records bs stop off recs = Ok res \<Longrightarrow> prefix recs res"
proof (induction bs stop off recs rule: decode_file_records.induct)
  case (1 bs stop off recs)
  from "1.prems" show ?case
    by (subst (asm) decode_file_records.simps)
       (auto simp: and_then_eq_Ok_iff Let_def split: if_splits dest!: "1.IH" append_prefixD)
qed

lemma decode_write_sub_requests_extends: "decode_write_sub_requests bs stop off srs = Ok res \<Longrightarrow> prefix srs res"
proof (induction bs stop off srs rule: decode_write_sub_requests.induct)
  case (1 bs stop off srs)
  from "1.prems" show ?case
    by (subst (asm) decode_write_sub_requests.simps)
       (auto simp: and_then_eq_Ok_iff Let_def split: if_splits dest!: "1.IH" append_prefixD)
qed

text \<open>What the loops append to the containers.\<close>

lemma agrees_step:
  assumes "core = map_err Shared r" and "\<And>x. r = Ok x \<Longrightarrow> agrees fits wrap (g x) (f x)"
  shows "agrees fits wrap (and_then core g) (and_then r f)"
  using assms by (simp add: agrees_and_then)

lemma agrees_if:
  assumes "c \<Longrightarrow> agrees fits wrap a b" and "\<not> c \<Longrightarrow> agrees fits wrap a' b'"
  shows "agrees fits wrap (if c then a else a') (if c then b else b')"
  using assms by simp

lemma agrees_pushed:
  assumes "fits' = fits" and "core = (if fits xs then g (wrap xs) else Err TooLargeForBuffer)"
    and "fits xs \<Longrightarrow> agrees fits wrap (g (wrap xs)) (f xs)"
    and "f xs \<noteq> Panic" and "\<And>p. f xs = Ok p \<Longrightarrow> prefix xs p" and "\<And>xs ys. fits (xs @ ys) \<Longrightarrow> fits xs"
  shows "agrees fits' wrap core (f xs)"
proof (cases "fits xs")
  case False
  have "\<not> fits p" if "f xs = Ok p" for p
    using assms(5) [OF that] assms(6) False by (auto elim!: prefixE)
  then show ?thesis using assms(1,2,4) False by (simp add: agrees_full)
qed (use assms in simp)

lemma decode_objects_core:
  "objects_fit objs \<Longrightarrow>
     agrees objects_fit object_table (decode_objects_core bs n off (object_table objs)) (decode_objects bs n off objs)"
proof (induction n arbitrary: off objs)
  case (Suc n)
  let ?objs = "\<lambda>oid v. objs @ [\<lparr>DeviceIdentificationObject.id_byte = oid, object_value = v\<rparr>]"
  have push: "agrees objects_fit object_table
      (and_then (or_too_large (DeviceIdentificationObjects_push oid v (object_table objs)))
        (decode_objects_core bs n off'))
      (decode_objects bs n off' (?objs oid v))" for oid v off'
  proof (rule agrees_pushed [where f = "decode_objects bs n off'" and g = "decode_objects_core bs n off'"])
    show "and_then (or_too_large (DeviceIdentificationObjects_push oid v (object_table objs))) (decode_objects_core bs n off')
        = (if objects_fit (?objs oid v) then decode_objects_core bs n off' (object_table (?objs oid v)) else Err TooLargeForBuffer)"
      using Suc.prems by (simp add: push_object_core Let_def)
  qed (use Suc.IH object_table.fits_prefix in \<open>simp_all add: decode_objects_not_Panic decode_objects_extends\<close>)
  show ?case
    unfolding decode_objects_core.simps decode_objects.simps Let_def
    by (intro agrees_if agrees_step push) simp_all
qed simp

lemma decode_sub_requests_core:
  "length srs \<le> 35 \<Longrightarrow> off + 7 * n \<le> length bs \<Longrightarrow>
     agrees (\<lambda>srs. length srs \<le> 35) sub_request_list
       (decode_sub_requests_core bs n off (sub_request_list srs)) (decode_sub_requests bs n off srs)"
proof (induction n arbitrary: off srs)
  case (Suc n)
  have push: "agrees (\<lambda>srs. length srs \<le> 35) sub_request_list
      (and_then (or_too_large (FileRecordSubRequests_push sr (sub_request_list srs)))
        (decode_sub_requests_core bs n (off + FILE_RECORD_SUB_REQUEST_LEN)))
      (decode_sub_requests bs n (off + FILE_RECORD_SUB_REQUEST_LEN) (srs @ [sr]))" for sr
  proof (rule agrees_pushed [where f = "decode_sub_requests bs n (off + FILE_RECORD_SUB_REQUEST_LEN)"
        and g = "decode_sub_requests_core bs n (off + FILE_RECORD_SUB_REQUEST_LEN)"])
    show "and_then (or_too_large (FileRecordSubRequests_push sr (sub_request_list srs)))
          (decode_sub_requests_core bs n (off + FILE_RECORD_SUB_REQUEST_LEN))
        = (if length (srs @ [sr]) \<le> 35
           then decode_sub_requests_core bs n (off + FILE_RECORD_SUB_REQUEST_LEN) (sub_request_list (srs @ [sr]))
           else Err TooLargeForBuffer)"
      using Suc.prems by (simp add: push_sub_request_core)
  qed (use Suc.IH Suc.prems in \<open>simp_all add: decode_sub_requests_not_Panic decode_sub_requests_extends\<close>)
  show ?case
    unfolding decode_sub_requests_core.simps decode_sub_requests.simps
    by (intro agrees_if agrees_step push) simp_all
qed simp

lemma decode_file_records_core:
  "records_fit recs \<Longrightarrow>
     agrees records_fit record_table (decode_file_records_core bs stop off (record_table recs)) (decode_file_records bs stop off recs)"
proof (induction "stop - off" arbitrary: off recs rule: less_induct)
  case less
  have push: "agrees records_fit record_table
      (and_then (or_too_large (push_record rec (record_table recs))) (decode_file_records_core bs stop off'))
      (decode_file_records bs stop off' (recs @ [rec]))" if "stop - off' < stop - off" for rec off'
  proof (rule agrees_pushed [where f = "decode_file_records bs stop off'" and g = "decode_file_records_core bs stop off'"])
    show "and_then (or_too_large (push_record rec (record_table recs))) (decode_file_records_core bs stop off')
        = (if records_fit (recs @ [rec]) then decode_file_records_core bs stop off' (record_table (recs @ [rec]))
           else Err TooLargeForBuffer)"
      using less.prems by (simp add: push_record_core)
  qed (use less.hyps [OF that] record_table.fits_prefix in \<open>simp_all add: decode_file_records_not_Panic decode_file_records_extends\<close>)
  show ?case
    unfolding decode_file_records_core.simps [of bs stop off] decode_file_records.simps [of bs stop off] Let_def
    by (intro agrees_if agrees_step push) (simp_all add: less.prems)
qed

lemma decode_write_sub_requests_core:
  "writes_fit srs \<Longrightarrow>
     agrees writes_fit write_table (decode_write_sub_requests_core bs stop off (write_table srs))
       (decode_write_sub_requests bs stop off srs)"
proof (induction "stop - off" arbitrary: off srs rule: less_induct)
  case less
  let ?srs = "\<lambda>f rn d. srs @ [\<lparr>WriteFileRecordSubRequest.file_number = f, record_number = rn, record_data = d\<rparr>]"
  have push: "agrees writes_fit write_table
      (and_then (or_too_large (WriteFileRecordSubRequests_push f rn d (write_table srs))) (decode_write_sub_requests_core bs stop off'))
      (decode_write_sub_requests bs stop off' (?srs f rn d))" if "stop - off' < stop - off" for f rn d off'
  proof (rule agrees_pushed [where f = "decode_write_sub_requests bs stop off'" and g = "decode_write_sub_requests_core bs stop off'"])
    show "and_then (or_too_large (WriteFileRecordSubRequests_push f rn d (write_table srs))) (decode_write_sub_requests_core bs stop off')
        = (if writes_fit (?srs f rn d) then decode_write_sub_requests_core bs stop off' (write_table (?srs f rn d))
           else Err TooLargeForBuffer)"
      using less.prems by (simp add: push_write_core Let_def)
  qed (use less.hyps [OF that] write_table.fits_prefix in
        \<open>simp_all add: decode_write_sub_requests_not_Panic decode_write_sub_requests_extends\<close>)
  show ?case
    unfolding decode_write_sub_requests_core.simps [of bs stop off] decode_write_sub_requests.simps [of bs stop off] Let_def
    by (intro agrees_if agrees_step push) (simp_all add: less.prems)
qed

section \<open>The structs that hold a container\<close>

text \<open>A struct of the other codec in this one.\<close>

definition ReadCoilsResponse_to_core :: "ReadCoilsResponse \<Rightarrow> ReadCoilsResponse_core" where
  "ReadCoilsResponse_to_core r =
     \<lparr>ReadCoilsResponse_core.coil_values = bit_list (ReadCoilsResponse.coil_values r)\<rparr>"

definition ReadDiscreteInputsResponse_to_core :: "ReadDiscreteInputsResponse \<Rightarrow> ReadDiscreteInputsResponse_core" where
  "ReadDiscreteInputsResponse_to_core r =
     \<lparr>ReadDiscreteInputsResponse_core.discrete_input_values = bit_list (ReadDiscreteInputsResponse.discrete_input_values r)\<rparr>"

definition ReadHoldingRegistersResponse_to_core :: "ReadHoldingRegistersResponse \<Rightarrow> ReadHoldingRegistersResponse_core" where
  "ReadHoldingRegistersResponse_to_core r =
     \<lparr>ReadHoldingRegistersResponse_core.register_values = register_list (ReadHoldingRegistersResponse.register_values r)\<rparr>"

definition ReadInputRegistersResponse_to_core :: "ReadInputRegistersResponse \<Rightarrow> ReadInputRegistersResponse_core" where
  "ReadInputRegistersResponse_to_core r =
     \<lparr>ReadInputRegistersResponse_core.register_values = register_list (ReadInputRegistersResponse.register_values r)\<rparr>"

definition ReportServerIdResponse_to_core :: "ReportServerIdResponse \<Rightarrow> ReportServerIdResponse_core" where
  "ReportServerIdResponse_to_core r =
     \<lparr>ReportServerIdResponse_core.server_id = pdu_bytes (ReportServerIdResponse.server_id r),
        run_indicator_status = ReportServerIdResponse.run_indicator_status r\<rparr>"

definition ReadWriteMultipleRegistersRequest_to_core :: "ReadWriteMultipleRegistersRequest \<Rightarrow> ReadWriteMultipleRegistersRequest_core" where
  "ReadWriteMultipleRegistersRequest_to_core r =
     \<lparr>ReadWriteMultipleRegistersRequest_core.read_starting_address = ReadWriteMultipleRegistersRequest.read_starting_address r,
        read_quantity = ReadWriteMultipleRegistersRequest.read_quantity r,
        write_starting_address = ReadWriteMultipleRegistersRequest.write_starting_address r,
        write_values = register_list (ReadWriteMultipleRegistersRequest.write_values r)\<rparr>"

definition ReadWriteMultipleRegistersResponse_to_core :: "ReadWriteMultipleRegistersResponse \<Rightarrow> ReadWriteMultipleRegistersResponse_core" where
  "ReadWriteMultipleRegistersResponse_to_core r =
     \<lparr>ReadWriteMultipleRegistersResponse_core.register_values = register_list (ReadWriteMultipleRegistersResponse.register_values r)\<rparr>"

definition WriteMultipleCoilsRequest_to_core :: "WriteMultipleCoilsRequest \<Rightarrow> WriteMultipleCoilsRequest_core" where
  "WriteMultipleCoilsRequest_to_core r =
     \<lparr>WriteMultipleCoilsRequest_core.starting_address = WriteMultipleCoilsRequest.starting_address r,
        coil_values = bit_list (WriteMultipleCoilsRequest.coil_values r)\<rparr>"

definition WriteMultipleRegistersRequest_to_core :: "WriteMultipleRegistersRequest \<Rightarrow> WriteMultipleRegistersRequest_core" where
  "WriteMultipleRegistersRequest_to_core r =
     \<lparr>WriteMultipleRegistersRequest_core.starting_address = WriteMultipleRegistersRequest.starting_address r,
        register_values = register_list (WriteMultipleRegistersRequest.register_values r)\<rparr>"

definition ReadDeviceIdentificationResponse_to_core :: "ReadDeviceIdentificationResponse \<Rightarrow> ReadDeviceIdentificationResponse_core" where
  "ReadDeviceIdentificationResponse_to_core r =
     \<lparr>ReadDeviceIdentificationResponse_core.read_device_id_code = ReadDeviceIdentificationResponse.read_device_id_code r,
        conformity_level = ReadDeviceIdentificationResponse.conformity_level r,
        more_follows = ReadDeviceIdentificationResponse.more_follows r,
        next_object_id = ReadDeviceIdentificationResponse.next_object_id r,
        objects = object_table (ReadDeviceIdentificationResponse.objects r)\<rparr>"

definition ReadFileRecordRequest_to_core :: "ReadFileRecordRequest \<Rightarrow> ReadFileRecordRequest_core" where
  "ReadFileRecordRequest_to_core r =
     \<lparr>ReadFileRecordRequest_core.sub_requests = sub_request_list (ReadFileRecordRequest.sub_requests r)\<rparr>"

definition ReadFileRecordResponse_to_core :: "ReadFileRecordResponse \<Rightarrow> ReadFileRecordResponse_core" where
  "ReadFileRecordResponse_to_core r =
     \<lparr>ReadFileRecordResponse_core.records = record_table (ReadFileRecordResponse.records r)\<rparr>"

definition WriteFileRecordRequest_to_core :: "WriteFileRecordRequest \<Rightarrow> WriteFileRecordRequest_core" where
  "WriteFileRecordRequest_to_core r =
     \<lparr>WriteFileRecordRequest_core.sub_requests = write_table (WriteFileRecordRequest.sub_requests r)\<rparr>"

definition WriteFileRecordResponse_to_core :: "WriteFileRecordResponse \<Rightarrow> WriteFileRecordResponse_core" where
  "WriteFileRecordResponse_to_core r =
     \<lparr>WriteFileRecordResponse_core.sub_requests = write_table (WriteFileRecordResponse.sub_requests r)\<rparr>"

lemmas to_core_defs =
  ReadCoilsResponse_to_core_def
  ReadDiscreteInputsResponse_to_core_def
  ReadHoldingRegistersResponse_to_core_def
  ReadInputRegistersResponse_to_core_def
  ReportServerIdResponse_to_core_def
  ReadWriteMultipleRegistersRequest_to_core_def
  ReadWriteMultipleRegistersResponse_to_core_def
  WriteMultipleCoilsRequest_to_core_def
  WriteMultipleRegistersRequest_to_core_def
  ReadDeviceIdentificationResponse_to_core_def
  ReadFileRecordRequest_to_core_def
  ReadFileRecordResponse_to_core_def
  WriteFileRecordRequest_to_core_def
  WriteFileRecordResponse_to_core_def

section \<open>Agreement of the decoders\<close>

lemma array_responses_agree:
  "agrees (\<lambda>r. length (ReadCoilsResponse.coil_values r) \<le> 2000) ReadCoilsResponse_to_core
     (ReadCoilsResponse_decode_core bs) (ReadCoilsResponse_decode bs)"
  "agrees (\<lambda>r. length (ReadDiscreteInputsResponse.discrete_input_values r) \<le> 2000) ReadDiscreteInputsResponse_to_core
     (ReadDiscreteInputsResponse_decode_core bs) (ReadDiscreteInputsResponse_decode bs)"
  "agrees (\<lambda>r. length (ReadHoldingRegistersResponse.register_values r) \<le> 125) ReadHoldingRegistersResponse_to_core
     (ReadHoldingRegistersResponse_decode_core bs) (ReadHoldingRegistersResponse_decode bs)"
  "agrees (\<lambda>r. length (ReadInputRegistersResponse.register_values r) \<le> 125) ReadInputRegistersResponse_to_core
     (ReadInputRegistersResponse_decode_core bs) (ReadInputRegistersResponse_decode bs)"
  "agrees (\<lambda>r. length (ReadWriteMultipleRegistersResponse.register_values r) \<le> 125) ReadWriteMultipleRegistersResponse_to_core
     (ReadWriteMultipleRegistersResponse_decode_core bs) (ReadWriteMultipleRegistersResponse_decode bs)"
  unfolding ReadCoilsResponse_decode_core_def ReadDiscreteInputsResponse_decode_core_def
    ReadHoldingRegistersResponse_decode_core_def ReadInputRegistersResponse_decode_core_def
    ReadWriteMultipleRegistersResponse_decode_core_def ReadCoilsResponse_decode_def
    ReadDiscreteInputsResponse_decode_def ReadHoldingRegistersResponse_decode_def
    ReadInputRegistersResponse_decode_def ReadWriteMultipleRegistersResponse_decode_def
    bitfield_core register_array_core
  by (rule agrees_return [OF agrees_bounded], simp_all add: to_core_defs)+

lemma ReportServerIdResponse_agrees:
  "agrees (\<lambda>r. length (ReportServerIdResponse.server_id r) \<le> 253) ReportServerIdResponse_to_core
     (ReportServerIdResponse_decode_core bs) (ReportServerIdResponse_decode bs)"
  unfolding ReportServerIdResponse_decode_core_def ReportServerIdResponse_decode_def Let_def
  by (intro agrees_if agrees_step) (auto simp: agrees_def bounded_def to_core_defs)

lemma ReadWriteMultipleRegistersRequest_agrees:
  "agrees (\<lambda>r. length (ReadWriteMultipleRegistersRequest.write_values r) \<le> 125) ReadWriteMultipleRegistersRequest_to_core
     (ReadWriteMultipleRegistersRequest_decode_core bs) (ReadWriteMultipleRegistersRequest_decode bs)"
  unfolding ReadWriteMultipleRegistersRequest_decode_core_def ReadWriteMultipleRegistersRequest_decode_def Let_def
  by (intro agrees_if agrees_step) (auto simp: agrees_def bounded_def to_core_defs)

lemma WriteMultipleRegistersRequest_agrees:
  "agrees (\<lambda>r. length (WriteMultipleRegistersRequest.register_values r) \<le> 125) WriteMultipleRegistersRequest_to_core
     (WriteMultipleRegistersRequest_decode_core bs) (WriteMultipleRegistersRequest_decode bs)"
  unfolding WriteMultipleRegistersRequest_decode_core_def WriteMultipleRegistersRequest_decode_def Let_def
  by (intro agrees_if agrees_step) (auto simp: agrees_def bounded_def to_core_defs)

lemma ReadDeviceIdentificationResponse_agrees:
  "agrees (\<lambda>r. objects_fit (ReadDeviceIdentificationResponse.objects r)) ReadDeviceIdentificationResponse_to_core
     (ReadDeviceIdentificationResponse_decode_core bs) (ReadDeviceIdentificationResponse_decode bs)"
  unfolding ReadDeviceIdentificationResponse_decode_core_def ReadDeviceIdentificationResponse_decode_def
    object_table.new_empty
  by (intro agrees_if agrees_step agrees_return [OF decode_objects_core])
     (simp_all add: to_core_defs object_table.fits_empty)

lemma ReadFileRecordRequest_agrees:
  "agrees (\<lambda>r. length (ReadFileRecordRequest.sub_requests r) \<le> 35) ReadFileRecordRequest_to_core
     (ReadFileRecordRequest_decode_core bs) (ReadFileRecordRequest_decode bs)"
  unfolding ReadFileRecordRequest_decode_core_def ReadFileRecordRequest_decode_def sub_requests.new_empty
  by (intro agrees_if agrees_step agrees_return [OF decode_sub_requests_core])
     (auto simp: to_core_defs elim: dvdE)

lemma ReadFileRecordResponse_agrees:
  "agrees (\<lambda>r. records_fit (ReadFileRecordResponse.records r)) ReadFileRecordResponse_to_core
     (ReadFileRecordResponse_decode_core bs) (ReadFileRecordResponse_decode bs)"
  unfolding ReadFileRecordResponse_decode_core_def ReadFileRecordResponse_decode_def record_table.new_empty Let_def
  by (intro agrees_if agrees_step agrees_return [OF decode_file_records_core])
     (simp_all add: to_core_defs record_table.fits_empty)

lemma decode_write_file_record_agrees:
  "agrees writes_fit write_table (decode_write_file_record_core bs fc) (decode_write_file_record bs fc)"
  unfolding decode_write_file_record_core_def decode_write_file_record_def write_table.new_empty Let_def
  by (intro agrees_if agrees_step decode_write_sub_requests_core) (simp_all add: write_table.fits_empty)

lemma WriteFileRecordRequest_agrees:
  "agrees (\<lambda>r. writes_fit (WriteFileRecordRequest.sub_requests r)) WriteFileRecordRequest_to_core
     (WriteFileRecordRequest_decode_core bs) (WriteFileRecordRequest_decode bs)"
  unfolding WriteFileRecordRequest_decode_core_def WriteFileRecordRequest_decode_def
  by (intro agrees_return [OF decode_write_file_record_agrees]) (simp_all add: to_core_defs)

lemma WriteFileRecordResponse_agrees:
  "agrees (\<lambda>r. writes_fit (WriteFileRecordResponse.sub_requests r)) WriteFileRecordResponse_to_core
     (WriteFileRecordResponse_decode_core bs) (WriteFileRecordResponse_decode bs)"
  unfolding WriteFileRecordResponse_decode_core_def WriteFileRecordResponse_decode_def
  by (intro agrees_return [OF decode_write_file_record_agrees]) (simp_all add: to_core_defs)

text \<open>
  The decoder of Write Multiple Coils keeps the padding bits of the last byte in the array, so its
  result is compared by the bits it shows.
\<close>

definition WriteMultipleCoilsRequest_of_core :: "WriteMultipleCoilsRequest_core \<Rightarrow> WriteMultipleCoilsRequest" where
  "WriteMultipleCoilsRequest_of_core r =
     \<lparr>WriteMultipleCoilsRequest.starting_address = WriteMultipleCoilsRequest_core.starting_address r,
      coil_values = bit_contents (WriteMultipleCoilsRequest_core.coil_values r)\<rparr>"

lemma bit_contents_packed:
  assumes "div_ceil n 8 = length packed"
  shows "bit_contents \<lparr>BitValues.data = padded 250 0 packed, len = n\<rparr> = take n (bits_of packed)"
  using assms div_ceil_8_bounds(1) [of n] by (simp add: bit_contents_def padded_def bits_of_append)

lemma coils_of_payload: "concat (map (\<lambda>byte. map (\<lambda>b. byte AND push_bit b 1 \<noteq> 0) [0..<8]) payload) = bits_of payload"
  by (simp add: bits_of_def and_exp_eq_0_iff_not_bit)

lemma WriteMultipleCoilsRequest_agrees:
  "agrees (\<lambda>r. length (WriteMultipleCoilsRequest.coil_values r) \<le> 2000) (\<lambda>r. r)
     (map_ok WriteMultipleCoilsRequest_of_core (WriteMultipleCoilsRequest_decode_core bs))
     (WriteMultipleCoilsRequest_decode bs)"
proof -
  have map_ok_and_then: "map_ok f (and_then r g) = and_then r (\<lambda>x. map_ok f (g x))"
    for f :: "'b \<Rightarrow> 'c" and r :: "('a, 'e) result" and g by (cases r) simp_all
  have map_ok_if: "map_ok f (if c then r else s) = (if c then map_ok f r else map_ok f s)"
    for f :: "'b \<Rightarrow> 'c" and r s :: "('b, 'e) result" and c by simp
  have payload: "agrees (\<lambda>r. length (WriteMultipleCoilsRequest.coil_values r) \<le> 2000) (\<lambda>r. r)
      (and_then (or_too_large (BitValues_extend_from_packed_bytes packed (unat q) BitValues_new)) (\<lambda>vs.
        map_ok WriteMultipleCoilsRequest_of_core
          (Ok \<lparr>WriteMultipleCoilsRequest_core.starting_address = a, coil_values = vs\<rparr>)))
      (Ok \<lparr>WriteMultipleCoilsRequest.starting_address = a, coil_values = take (unat q) (bits_of packed)\<rparr>)"
    if "div_ceil (unat q) 8 = length packed" for q :: u16 and packed a
    using that div_ceil_8_bounds(1) [of "unat q"]
    by (simp add: packed_bytes_new agrees_def WriteMultipleCoilsRequest_of_core_def bit_contents_packed min_def)
  show ?thesis
    unfolding WriteMultipleCoilsRequest_decode_core_def WriteMultipleCoilsRequest_decode_def Let_def coils_of_payload
      map_ok_and_then map_ok_if
    by (intro agrees_if agrees_step payload) (simp_all, auto simp: slice_def split: if_splits)
qed

section \<open>Agreement of the encoders\<close>

lemma PduBytes_new_eq [simp]: "PduBytes_new = pdu_bytes []"
  by (rule pdu_buffer.new_empty)

lemma put_eq [simp]: "length xs < 253 \<Longrightarrow> put x (pdu_bytes xs) = Ok (pdu_bytes (xs @ [x]))"
  by (simp add: pdu_buffer.push_fits)

lemma put_slice_eq [simp]: "length xs + length bs \<le> 253 \<Longrightarrow> put_slice bs (pdu_bytes xs) = Ok (pdu_bytes (xs @ bs))"
  by (simp add: pdu_buffer.extend_eq)

lemma put_slice_full: "length xs \<le> 253 \<Longrightarrow> 253 < length xs + length bs \<Longrightarrow> put_slice bs (pdu_bytes xs) = Panic"
  by (simp add: pdu_buffer.extend_eq)

lemma put_each:
  assumes "\<And>x buffer. x \<in> set xs \<Longrightarrow> length buffer + length (enc x) \<le> 253 \<Longrightarrow>
      body x (pdu_bytes buffer) = Ok (pdu_bytes (buffer @ enc x))"
    and "length buffer + length (concat (map enc xs)) \<le> 253"
  shows "for_each body xs (pdu_bytes buffer) = Ok (pdu_bytes (buffer @ concat (map enc xs)))"
  using assms by (induction xs arbitrary: buffer) simp_all

lemma put_words [simp]:
  "length buffer + 2 * length vs \<le> 253 \<Longrightarrow>
     for_each (\<lambda>v. put_slice (to_be_bytes v)) vs (pdu_bytes buffer) = Ok (pdu_bytes (buffer @ bytes_be vs))"
  unfolding bytes_be_def by (rule put_each) (simp_all flip: bytes_be_def)

text \<open>A loop over the indices of a table is a loop over its entries.\<close>

lemma for_each_indexed:
  assumes "\<And>i s. i < length xs \<Longrightarrow> f i s = g (xs ! i) s"
  shows "for_each f [0..<length xs] s = for_each g xs s"
proof -
  have "for_each f is s = for_each g (map (nth xs) is) s" if "set is \<subseteq> {0..<length xs}" for "is"
    using that by (induction "is" arbitrary: s) (auto simp: assms intro!: and_then_cong)
  from this [of "[0..<length xs]"] show ?thesis by (simp add: map_nth)
qed

lemma total_of_eq:
  assumes "\<And>i. i < length xs \<Longrightarrow> entry_len i = Ok (k (xs ! i))"
  shows "total_of entry_len (length xs) = (Ok (sum_list (map k xs)) :: (nat, 'e) result)"
proof -
  have "for_each (\<lambda>x total. Ok (total + k x)) xs n = (Ok (n + sum_list (map k xs)) :: (nat, 'e) result)" for n
    by (induction xs arbitrary: n) (simp_all add: add.assoc)
  moreover have "total_of entry_len (length xs) = for_each (\<lambda>x total. Ok (total + k x)) xs 0"
    unfolding total_of_def by (rule for_each_indexed) (simp add: assms)
  ultimately show ?thesis by simp
qed

text \<open>The bytes of the other codec, if they are a PDU.\<close>

definition fitted :: "bytes \<Rightarrow> (PduBytes, EncodeError_core) result" where
  "fitted bs = (if length bs \<le> 253 then Ok (pdu_bytes bs) else Err EncodeTooLargeForBuffer)"

lemma address_and_quantity_encode_core [simp]:
  "encode_address_and_quantity_core fc a q = Ok (pdu_bytes (encode_address_and_quantity fc a q))"
  by (simp add: encode_address_and_quantity_core_def encode_address_and_quantity_def)

lemma scalar_encoders_core:
  "ReadCoilsRequest_encode_core r1 = Ok (pdu_bytes (ReadCoilsRequest_encode r1))"
  "ReadDiscreteInputsRequest_encode_core r2 = Ok (pdu_bytes (ReadDiscreteInputsRequest_encode r2))"
  "ReadHoldingRegistersRequest_encode_core r3 = Ok (pdu_bytes (ReadHoldingRegistersRequest_encode r3))"
  "ReadInputRegistersRequest_encode_core r4 = Ok (pdu_bytes (ReadInputRegistersRequest_encode r4))"
  "WriteSingleCoilRequest_encode_core r5 = Ok (pdu_bytes (WriteSingleCoilRequest_encode r5))"
  "WriteSingleCoilResponse_encode_core r6 = Ok (pdu_bytes (WriteSingleCoilResponse_encode r6))"
  "WriteSingleRegisterRequest_encode_core r7 = Ok (pdu_bytes (WriteSingleRegisterRequest_encode r7))"
  "WriteSingleRegisterResponse_encode_core r8 = Ok (pdu_bytes (WriteSingleRegisterResponse_encode r8))"
  "MaskWriteRegisterRequest_encode_core r9 = Ok (pdu_bytes (MaskWriteRegisterRequest_encode r9))"
  "MaskWriteRegisterResponse_encode_core r10 = Ok (pdu_bytes (MaskWriteRegisterResponse_encode r10))"
  "ReportServerIdRequest_encode_core r11 = Ok (pdu_bytes (ReportServerIdRequest_encode r11))"
  "WriteMultipleCoilsResponse_encode_core r12 = Ok (pdu_bytes (WriteMultipleCoilsResponse_encode r12))"
  "WriteMultipleRegistersResponse_encode_core r13 = Ok (pdu_bytes (WriteMultipleRegistersResponse_encode r13))"
  "ReadDeviceIdentificationRequest_encode_core r14 = Ok (pdu_bytes (ReadDeviceIdentificationRequest_encode r14))"
  "ExceptionResponse_encode_core r15 = Ok (pdu_bytes (ExceptionResponse_encode r15))"
  unfolding ReadCoilsRequest_encode_core_def ReadDiscreteInputsRequest_encode_core_def
    ReadHoldingRegistersRequest_encode_core_def ReadInputRegistersRequest_encode_core_def
    WriteSingleCoilRequest_encode_core_def WriteSingleCoilResponse_encode_core_def
    WriteSingleRegisterRequest_encode_core_def WriteSingleRegisterResponse_encode_core_def
    MaskWriteRegisterRequest_encode_core_def MaskWriteRegisterResponse_encode_core_def
    ReportServerIdRequest_encode_core_def WriteMultipleCoilsResponse_encode_core_def
    WriteMultipleRegistersResponse_encode_core_def ReadDeviceIdentificationRequest_encode_core_def
    ExceptionResponse_encode_core_def encode_write_single_coil_core_def encode_mask_write_register_core_def
    encode_write_single_coil_def encode_mask_write_register_def ReportServerIdRequest_encode_def
    ReadDeviceIdentificationRequest_encode_def ExceptionResponse_encode_def pdu_defs
  by simp_all

text \<open>The encoders of structs with a container, on every value the container admits.\<close>

lemma bitfield_encode_core:
  "length vs \<le> 2000 \<Longrightarrow>
     encode_bitfield_response_core fc (bit_list vs)
       = Ok (pdu_bytes ([fc, of_nat (div_ceil (length vs) 8)] @ packed_bits vs))"
  using div_ceil_8_le [of "length vs" 250] by (simp add: encode_bitfield_response_core_def)

lemma register_array_encode_core:
  "length vs \<le> 125 \<Longrightarrow>
     encode_register_array_response_core fc vs = Ok (pdu_bytes (encode_register_array_response fc vs))"
  by (simp add: encode_register_array_response_core_def encode_register_array_response_def flip: bytes_be_def)

lemma array_response_encoders_core:
  "length (ReadCoilsResponse.coil_values r1) \<le> 2000 \<Longrightarrow>
     ReadCoilsResponse_encode_core (ReadCoilsResponse_to_core r1) = map_ok pdu_bytes (ReadCoilsResponse_encode r1)"
  "length (ReadDiscreteInputsResponse.discrete_input_values r2) \<le> 2000 \<Longrightarrow>
     ReadDiscreteInputsResponse_encode_core (ReadDiscreteInputsResponse_to_core r2)
       = map_ok pdu_bytes (ReadDiscreteInputsResponse_encode r2)"
  "length (ReadHoldingRegistersResponse.register_values r3) \<le> 125 \<Longrightarrow>
     ReadHoldingRegistersResponse_encode_core (ReadHoldingRegistersResponse_to_core r3)
       = Ok (pdu_bytes (ReadHoldingRegistersResponse_encode r3))"
  "length (ReadInputRegistersResponse.register_values r4) \<le> 125 \<Longrightarrow>
     ReadInputRegistersResponse_encode_core (ReadInputRegistersResponse_to_core r4)
       = Ok (pdu_bytes (ReadInputRegistersResponse_encode r4))"
  "length (ReadWriteMultipleRegistersResponse.register_values r5) \<le> 125 \<Longrightarrow>
     ReadWriteMultipleRegistersResponse_encode_core (ReadWriteMultipleRegistersResponse_to_core r5)
       = Ok (pdu_bytes (ReadWriteMultipleRegistersResponse_encode r5))"
  by (simp_all add: ReadCoilsResponse_encode_core_def ReadDiscreteInputsResponse_encode_core_def
      ReadHoldingRegistersResponse_encode_core_def ReadInputRegistersResponse_encode_core_def
      ReadWriteMultipleRegistersResponse_encode_core_def ReadCoilsResponse_encode_def
      ReadDiscreteInputsResponse_encode_def ReadHoldingRegistersResponse_encode_def
      ReadInputRegistersResponse_encode_def ReadWriteMultipleRegistersResponse_encode_def to_core_defs
      bitfield_encode_core encode_bitfield_response_eq register_array_encode_core)

lemma ReportServerIdResponse_encode_core:
  "length (ReportServerIdResponse.server_id r) \<le> 253 \<Longrightarrow>
     ReportServerIdResponse_encode_core (ReportServerIdResponse_to_core r) = fitted (ReportServerIdResponse_encode r)"
  by (simp add: ReportServerIdResponse_encode_core_def ReportServerIdResponse_encode_def fitted_def
      ReportServerIdResponse_to_core_def Let_def)

lemma multi_register_encoders_core:
  "length (ReadWriteMultipleRegistersRequest.write_values r1) \<le> 125 \<Longrightarrow>
     ReadWriteMultipleRegistersRequest_encode_core (ReadWriteMultipleRegistersRequest_to_core r1)
       = and_then (map_err SharedEncode (ReadWriteMultipleRegistersRequest_encode r1)) fitted"
  "length (WriteMultipleRegistersRequest.register_values r2) \<le> 125 \<Longrightarrow>
     WriteMultipleRegistersRequest_encode_core (WriteMultipleRegistersRequest_to_core r2)
       = and_then (map_err SharedEncode (WriteMultipleRegistersRequest_encode r2)) fitted"
  by (auto simp: ReadWriteMultipleRegistersRequest_encode_core_def ReadWriteMultipleRegistersRequest_encode_def
      WriteMultipleRegistersRequest_encode_core_def WriteMultipleRegistersRequest_encode_def fitted_def
      to_core_defs Let_def simp flip: bytes_be_def)

lemma put_sub_requests:
  "length buffer + length (concat (map encode_file_record_sub_request srs)) \<le> 253 \<Longrightarrow>
     for_each (\<lambda>sr buffer.
       and_then (put FILE_RECORD_REFERENCE_TYPE buffer) (\<lambda>buffer.
       and_then (put_slice (to_be_bytes (FileRecordSubRequest.file_number sr)) buffer) (\<lambda>buffer.
       and_then (put_slice (to_be_bytes (FileRecordSubRequest.record_number sr)) buffer) (\<lambda>buffer.
       put_slice (to_be_bytes (FileRecordSubRequest.record_length sr)) buffer)))) srs (pdu_bytes buffer)
     = Ok (pdu_bytes (buffer @ concat (map encode_file_record_sub_request srs)))"
  by (rule put_each) (simp_all add: encode_file_record_sub_request_def)

lemma ReadFileRecordRequest_encode_core:
  assumes "length (ReadFileRecordRequest.sub_requests r) \<le> 35"
  shows "ReadFileRecordRequest_encode_core (ReadFileRecordRequest_to_core r) = Ok (pdu_bytes (ReadFileRecordRequest_encode r))"
  using assms put_sub_requests
    [of "[20, of_nat (length (ReadFileRecordRequest.sub_requests r)) * 7]" "ReadFileRecordRequest.sub_requests r"]
  by (simp add: ReadFileRecordRequest_encode_core_def ReadFileRecordRequest_encode_def ReadFileRecordRequest_to_core_def)

lemma expect_some_Ok [simp]: "expect_some (Ok (Some x)) = Ok x"
  by (simp add: expect_some_def)

lemma ReadDeviceIdentificationResponse_encode_core:
  assumes "objects_fit (ReadDeviceIdentificationResponse.objects r)"
  shows "ReadDeviceIdentificationResponse_encode_core (ReadDeviceIdentificationResponse_to_core r)
     = fitted (ReadDeviceIdentificationResponse_encode r)"
proof -
  let ?objs = "ReadDeviceIdentificationResponse.objects r"
  let ?body = "\<lambda>obj buffer. and_then (put (DeviceIdentificationObject.id_byte obj) buffer) (\<lambda>buffer.
      and_then (put (of_nat (length (DeviceIdentificationObject.object_value obj))) buffer) (\<lambda>buffer.
      put_slice (DeviceIdentificationObject.object_value obj) buffer))"
  have total: "total_of (\<lambda>i. map_ok (\<lambda>(_, v). 2 + length v) (expect_some (object_at (object_table ?objs) i))) (length ?objs)
      = (Ok (length (concat (map encode_object ?objs))) :: (nat, EncodeError_core) result)"
    by (subst total_of_eq [where k = "\<lambda>obj. length (encode_object obj)"])
       (simp_all add: object_at_eq [OF assms] encode_object_def length_concat comp_def)
  have loop: "for_each (\<lambda>i buffer. and_then (expect_some (object_at (object_table ?objs) i)) (\<lambda>(oid, v).
        and_then (put oid buffer) (\<lambda>buffer. and_then (put (of_nat (length v)) buffer) (\<lambda>buffer. put_slice v buffer))))
        [0..<length ?objs] buffer
      = (for_each ?body ?objs buffer :: (PduBytes, EncodeError_core) result)" for buffer
    by (rule for_each_indexed) (simp add: object_at_eq [OF assms])
  have put: "for_each ?body ?objs (pdu_bytes buffer)
      = (Ok (pdu_bytes (buffer @ concat (map encode_object ?objs))) :: (PduBytes, EncodeError_core) result)"
    if "length buffer + length (concat (map encode_object ?objs)) \<le> 253" for buffer
    using that by (intro put_each) (simp_all add: encode_object_def)
  have count: "DeviceIdentificationObjects.count (object_table ?objs) = length ?objs"
    by (simp add: object_table_def)
  show ?thesis
    unfolding ReadDeviceIdentificationResponse_encode_core_def ReadDeviceIdentificationResponse_to_core_def Let_def
      ReadDeviceIdentificationResponse_core.simps count total loop
    by (simp add: put fitted_def ReadDeviceIdentificationResponse_encode_def)
qed

lemma ReadFileRecordResponse_encode_core:
  assumes "records_fit (ReadFileRecordResponse.records r)"
  shows "ReadFileRecordResponse_encode_core (ReadFileRecordResponse_to_core r) = fitted (ReadFileRecordResponse_encode r)"
proof -
  let ?recs = "ReadFileRecordResponse.records r"
  let ?body = "\<lambda>rec buffer. and_then (put (of_nat (1 + length rec)) buffer) (\<lambda>buffer.
      and_then (put FILE_RECORD_REFERENCE_TYPE buffer) (\<lambda>buffer. put_slice rec buffer))"
  have total: "total_of (\<lambda>i. map_ok (\<lambda>rec. 2 + length rec) (expect_some (record_at (record_table ?recs) i))) (length ?recs)
      = (Ok (sum_list (map (\<lambda>rec. 2 + length rec) ?recs)) :: (nat, EncodeError_core) result)"
    by (subst total_of_eq [where k = "\<lambda>rec. 2 + length rec"]) (simp_all add: record_at_eq [OF assms])
  have loop: "for_each (\<lambda>i buffer. and_then (expect_some (record_at (record_table ?recs) i)) (\<lambda>rec.
        and_then (put (of_nat (1 + length rec)) buffer) (\<lambda>buffer.
        and_then (put FILE_RECORD_REFERENCE_TYPE buffer) (\<lambda>buffer. put_slice rec buffer)))) [0..<length ?recs] buffer
      = (for_each ?body ?recs buffer :: (PduBytes, EncodeError_core) result)" for buffer
    by (rule for_each_indexed) (simp add: record_at_eq [OF assms])
  have put: "for_each ?body ?recs (pdu_bytes buffer)
      = (Ok (pdu_bytes (buffer @ concat (map encode_file_record ?recs))) :: (PduBytes, EncodeError_core) result)"
    if "length buffer + length (concat (map encode_file_record ?recs)) \<le> 253" for buffer
    using that by (intro put_each) (simp_all add: encode_file_record_def)
  have count: "record_count (record_table ?recs) = length ?recs" by (simp add: record_table_def)
  show ?thesis
    unfolding ReadFileRecordResponse_encode_core_def ReadFileRecordResponse_to_core_def Let_def
      ReadFileRecordResponse_core.simps count total loop
    using put [of "[20, of_nat (sum_list (map (\<lambda>rec. 2 + length rec) ?recs))]"]
    by (simp add: fitted_def ReadFileRecordResponse_encode_def Let_def)
qed

lemma check_even_record_data_core:
  assumes "writes_fit srs"
  shows "check_even_record_data_core (write_table srs) = map_err SharedEncode (check_even_record_data srs)"
proof -
  have "check_even_record_data_core (write_table srs) = for_each (\<lambda>sr _.
      if length (WriteFileRecordSubRequest.record_data sr) mod 2 \<noteq> 0
      then Err (SharedEncode (OddFileRecordDataLength (WriteFileRecordSubRequest.file_number sr)
             (WriteFileRecordSubRequest.record_number sr) (length (WriteFileRecordSubRequest.record_data sr))))
      else Ok ()) srs ()"
    unfolding check_even_record_data_core_def
    by (subst write_table_def, simp, rule for_each_indexed) (simp add: sub_request_at_eq [OF assms])
  also have "\<dots> = map_err SharedEncode (check_even_record_data srs)"
    by (induction srs) simp_all
  finally show ?thesis .
qed

lemma encode_write_file_record_core:
  assumes "writes_fit srs"
  shows "encode_write_file_record_core fc (write_table srs)
     = and_then (map_err SharedEncode (encode_write_file_record fc srs)) fitted"
proof -
  let ?body = "\<lambda>sr buffer. and_then (put FILE_RECORD_REFERENCE_TYPE buffer) (\<lambda>buffer.
      and_then (put_slice (to_be_bytes (WriteFileRecordSubRequest.file_number sr)) buffer) (\<lambda>buffer.
      and_then (put_slice (to_be_bytes (WriteFileRecordSubRequest.record_number sr)) buffer) (\<lambda>buffer.
      and_then (put_slice (to_be_bytes (of_nat (length (WriteFileRecordSubRequest.record_data sr) div 2))) buffer) (\<lambda>buffer.
      put_slice (WriteFileRecordSubRequest.record_data sr) buffer))))"
  let ?total = "sum_list (map (\<lambda>sr. FILE_RECORD_SUB_REQUEST_LEN + length (WriteFileRecordSubRequest.record_data sr)) srs)"
  have total: "total_of (\<lambda>i. map_ok (\<lambda>(_, _, d). FILE_RECORD_SUB_REQUEST_LEN + length d)
        (expect_some (sub_request_at (write_table srs) i))) (length srs)
      = (Ok ?total :: (nat, EncodeError_core) result)"
    by (subst total_of_eq [where k = "\<lambda>sr. FILE_RECORD_SUB_REQUEST_LEN + length (WriteFileRecordSubRequest.record_data sr)"])
       (simp_all add: sub_request_at_eq [OF assms])
  have loop: "for_each (\<lambda>i buffer. and_then (expect_some (sub_request_at (write_table srs) i)) (\<lambda>(f, rn, d).
        and_then (put FILE_RECORD_REFERENCE_TYPE buffer) (\<lambda>buffer.
        and_then (put_slice (to_be_bytes f) buffer) (\<lambda>buffer.
        and_then (put_slice (to_be_bytes rn) buffer) (\<lambda>buffer.
        and_then (put_slice (to_be_bytes (of_nat (length d div 2))) buffer) (\<lambda>buffer.
        put_slice d buffer)))))) [0..<length srs] buffer
      = (for_each ?body srs buffer :: (PduBytes, EncodeError_core) result)" for buffer
    by (rule for_each_indexed) (simp add: sub_request_at_eq [OF assms])
  have put: "for_each ?body srs (pdu_bytes buffer)
      = (Ok (pdu_bytes (buffer @ concat (map encode_write_sub_request srs))) :: (PduBytes, EncodeError_core) result)"
    if "length buffer + length (concat (map encode_write_sub_request srs)) \<le> 253" for buffer
    using that by (intro put_each) (simp_all add: encode_write_sub_request_def)
  have count: "WriteFileRecordSubRequests.count (write_table srs) = length srs" by (simp add: write_table_def)
  show ?thesis
    unfolding encode_write_file_record_core_def Let_def count total loop check_even_record_data_core [OF assms]
      encode_write_file_record_def map_err_and_then and_then_assoc
    using put [of "[fc, of_nat ?total]"] by (intro and_then_cong refl) (simp add: fitted_def)
qed

lemma write_file_record_encoders_core:
  "writes_fit (WriteFileRecordRequest.sub_requests r1) \<Longrightarrow>
     WriteFileRecordRequest_encode_core (WriteFileRecordRequest_to_core r1)
       = and_then (map_err SharedEncode (WriteFileRecordRequest_encode r1)) fitted"
  "writes_fit (WriteFileRecordResponse.sub_requests r2) \<Longrightarrow>
     WriteFileRecordResponse_encode_core (WriteFileRecordResponse_to_core r2)
       = and_then (map_err SharedEncode (WriteFileRecordResponse_encode r2)) fitted"
  by (simp_all add: WriteFileRecordRequest_encode_core_def WriteFileRecordRequest_encode_def
      WriteFileRecordResponse_encode_core_def WriteFileRecordResponse_encode_def to_core_defs encode_write_file_record_core)

lemma WriteMultipleCoilsRequest_encode_core:
  assumes "length (WriteMultipleCoilsRequest.coil_values r) \<le> 2000"
  shows "WriteMultipleCoilsRequest_encode_core (WriteMultipleCoilsRequest_to_core r)
     = (if length (WriteMultipleCoilsRequest.coil_values r) \<le> 1976
        then map_ok pdu_bytes (WriteMultipleCoilsRequest_encode r) else Panic :: (PduBytes, 'e) result)"
proof -
  let ?n = "length (WriteMultipleCoilsRequest.coil_values r)"
  have "div_ceil ?n 8 \<le> 247 \<longleftrightarrow> ?n \<le> 1976" by (auto simp: div_ceil_def)
  moreover have "put_slice (packed_bits (WriteMultipleCoilsRequest.coil_values r)) (pdu_bytes buffer)
      = (Panic :: (PduBytes, 'e) result)"
    if "length buffer = 6" "\<not> div_ceil ?n 8 \<le> 247" for buffer
    using that by (simp add: put_slice_full)
  ultimately show ?thesis
    using assms
    by (auto simp: WriteMultipleCoilsRequest_encode_core_def WriteMultipleCoilsRequest_encode_eq to_core_defs Let_def)
qed

end
