(* ===== verification/Core_Agreement.thy ===== *)
theory Core_Agreement
  imports Core_Codec
begin

text \<open>
  What the port keeps of the codec: both decode and encode alike, no PDU of the specification is too
  large for the containers, and what one side encodes the other decodes. Two defects of the
  coils request are shown: its encoder panics on more than 1976 coils, and its decoder leaves the
  padding bits of the last byte in the container.
\<close>

text \<open>
  C23: The port decodes as the original does. On every byte string the fifteen decoders of structs
  without a list give the same struct or the same error. The fourteen decoders that fill a
  container give the same content or the same error, or refuse the bytes as too large, and
  bytes that the original decodes they refuse exactly when the content exceeds the container.
  The original never panics, so neither does the port.
\<close>

theorem core_decoders_agree:
  "ReadCoilsRequest_decode_core bs = map_err Shared (ReadCoilsRequest_decode bs)
   \<and> ReadDiscreteInputsRequest_decode_core bs = map_err Shared (ReadDiscreteInputsRequest_decode bs)
   \<and> ReadHoldingRegistersRequest_decode_core bs = map_err Shared (ReadHoldingRegistersRequest_decode bs)
   \<and> ReadInputRegistersRequest_decode_core bs = map_err Shared (ReadInputRegistersRequest_decode bs)
   \<and> WriteSingleCoilRequest_decode_core bs = map_err Shared (WriteSingleCoilRequest_decode bs)
   \<and> WriteSingleCoilResponse_decode_core bs = map_err Shared (WriteSingleCoilResponse_decode bs)
   \<and> WriteSingleRegisterRequest_decode_core bs = map_err Shared (WriteSingleRegisterRequest_decode bs)
   \<and> WriteSingleRegisterResponse_decode_core bs = map_err Shared (WriteSingleRegisterResponse_decode bs)
   \<and> MaskWriteRegisterRequest_decode_core bs = map_err Shared (MaskWriteRegisterRequest_decode bs)
   \<and> MaskWriteRegisterResponse_decode_core bs = map_err Shared (MaskWriteRegisterResponse_decode bs)
   \<and> ReportServerIdRequest_decode_core bs = map_err Shared (ReportServerIdRequest_decode bs)
   \<and> WriteMultipleCoilsResponse_decode_core bs = map_err Shared (WriteMultipleCoilsResponse_decode bs)
   \<and> WriteMultipleRegistersResponse_decode_core bs = map_err Shared (WriteMultipleRegistersResponse_decode bs)
   \<and> ReadDeviceIdentificationRequest_decode_core bs = map_err Shared (ReadDeviceIdentificationRequest_decode bs)
   \<and> ExceptionResponse_decode_core bs = map_err Shared (ExceptionResponse_decode bs)
   \<and> agrees (\<lambda>r. length (ReadCoilsResponse.coil_values r) \<le> 2000) ReadCoilsResponse_to_core
       (ReadCoilsResponse_decode_core bs) (ReadCoilsResponse_decode bs)
   \<and> agrees (\<lambda>r. length (ReadDiscreteInputsResponse.discrete_input_values r) \<le> 2000) ReadDiscreteInputsResponse_to_core
       (ReadDiscreteInputsResponse_decode_core bs) (ReadDiscreteInputsResponse_decode bs)
   \<and> agrees (\<lambda>r. length (ReadHoldingRegistersResponse.register_values r) \<le> 125) ReadHoldingRegistersResponse_to_core
       (ReadHoldingRegistersResponse_decode_core bs) (ReadHoldingRegistersResponse_decode bs)
   \<and> agrees (\<lambda>r. length (ReadInputRegistersResponse.register_values r) \<le> 125) ReadInputRegistersResponse_to_core
       (ReadInputRegistersResponse_decode_core bs) (ReadInputRegistersResponse_decode bs)
   \<and> agrees (\<lambda>r. length (ReadWriteMultipleRegistersResponse.register_values r) \<le> 125)
       ReadWriteMultipleRegistersResponse_to_core
       (ReadWriteMultipleRegistersResponse_decode_core bs) (ReadWriteMultipleRegistersResponse_decode bs)
   \<and> agrees (\<lambda>r. length (ReportServerIdResponse.server_id r) \<le> 253) ReportServerIdResponse_to_core
       (ReportServerIdResponse_decode_core bs) (ReportServerIdResponse_decode bs)
   \<and> agrees (\<lambda>r. length (ReadWriteMultipleRegistersRequest.write_values r) \<le> 125)
       ReadWriteMultipleRegistersRequest_to_core
       (ReadWriteMultipleRegistersRequest_decode_core bs) (ReadWriteMultipleRegistersRequest_decode bs)
   \<and> agrees (\<lambda>r. length (WriteMultipleRegistersRequest.register_values r) \<le> 125) WriteMultipleRegistersRequest_to_core
       (WriteMultipleRegistersRequest_decode_core bs) (WriteMultipleRegistersRequest_decode bs)
   \<and> agrees (\<lambda>r. length (WriteMultipleCoilsRequest.coil_values r) \<le> 2000) (\<lambda>r. r)
       (map_ok WriteMultipleCoilsRequest_of_core (WriteMultipleCoilsRequest_decode_core bs))
       (WriteMultipleCoilsRequest_decode bs)
   \<and> agrees (\<lambda>r. objects_fit (ReadDeviceIdentificationResponse.objects r)) ReadDeviceIdentificationResponse_to_core
       (ReadDeviceIdentificationResponse_decode_core bs) (ReadDeviceIdentificationResponse_decode bs)
   \<and> agrees (\<lambda>r. length (ReadFileRecordRequest.sub_requests r) \<le> 35) ReadFileRecordRequest_to_core
       (ReadFileRecordRequest_decode_core bs) (ReadFileRecordRequest_decode bs)
   \<and> agrees (\<lambda>r. records_fit (ReadFileRecordResponse.records r)) ReadFileRecordResponse_to_core
       (ReadFileRecordResponse_decode_core bs) (ReadFileRecordResponse_decode bs)
   \<and> agrees (\<lambda>r. writes_fit (WriteFileRecordRequest.sub_requests r)) WriteFileRecordRequest_to_core
       (WriteFileRecordRequest_decode_core bs) (WriteFileRecordRequest_decode bs)
   \<and> agrees (\<lambda>r. writes_fit (WriteFileRecordResponse.sub_requests r)) WriteFileRecordResponse_to_core
       (WriteFileRecordResponse_decode_core bs) (WriteFileRecordResponse_decode bs)"
  by (intro conjI scalar_decoders_core array_responses_agree ReportServerIdResponse_agrees
      ReadWriteMultipleRegistersRequest_agrees WriteMultipleRegistersRequest_agrees WriteMultipleCoilsRequest_agrees
      ReadDeviceIdentificationResponse_agrees ReadFileRecordRequest_agrees ReadFileRecordResponse_agrees
      WriteFileRecordRequest_agrees WriteFileRecordResponse_agrees)

text \<open>
  C24: Every encoder of the port encodes as the original does. A struct whose content fits its
  container is encoded to the bytes of the original, or refused with the same error; the encoders that
  check the size refuse it as too large exactly when these bytes exceed the 253 of a PDU. One
  encoder does not check: Write Multiple Coils panics on the 1977 to 2000 coils that the container
  takes and a PDU does not, and agrees on any other number.
\<close>

theorem core_encoders_agree:
  assumes "length (ReadCoilsResponse.coil_values r1) \<le> 2000"
    and "length (ReadDiscreteInputsResponse.discrete_input_values r2) \<le> 2000"
    and "length (ReadHoldingRegistersResponse.register_values r3) \<le> 125"
    and "length (ReadInputRegistersResponse.register_values r4) \<le> 125"
    and "length (ReadWriteMultipleRegistersResponse.register_values r5) \<le> 125"
    and "length (ReportServerIdResponse.server_id r6) \<le> 253"
    and "length (ReadWriteMultipleRegistersRequest.write_values r7) \<le> 125"
    and "length (WriteMultipleRegistersRequest.register_values r8) \<le> 125"
    and "length (ReadFileRecordRequest.sub_requests r9) \<le> 35"
    and "objects_fit (ReadDeviceIdentificationResponse.objects r10)"
    and "records_fit (ReadFileRecordResponse.records r11)"
    and "writes_fit (WriteFileRecordRequest.sub_requests r12)"
    and "writes_fit (WriteFileRecordResponse.sub_requests r13)"
    and "length (WriteMultipleCoilsRequest.coil_values r14) \<le> 2000"
  shows "ReadCoilsResponse_encode_core (ReadCoilsResponse_to_core r1) = map_ok pdu_bytes (ReadCoilsResponse_encode r1)
   \<and> ReadDiscreteInputsResponse_encode_core (ReadDiscreteInputsResponse_to_core r2)
       = map_ok pdu_bytes (ReadDiscreteInputsResponse_encode r2)
   \<and> ReadHoldingRegistersResponse_encode_core (ReadHoldingRegistersResponse_to_core r3)
       = Ok (pdu_bytes (ReadHoldingRegistersResponse_encode r3))
   \<and> ReadInputRegistersResponse_encode_core (ReadInputRegistersResponse_to_core r4)
       = Ok (pdu_bytes (ReadInputRegistersResponse_encode r4))
   \<and> ReadWriteMultipleRegistersResponse_encode_core (ReadWriteMultipleRegistersResponse_to_core r5)
       = Ok (pdu_bytes (ReadWriteMultipleRegistersResponse_encode r5))
   \<and> ReportServerIdResponse_encode_core (ReportServerIdResponse_to_core r6) = fitted (ReportServerIdResponse_encode r6)
   \<and> ReadWriteMultipleRegistersRequest_encode_core (ReadWriteMultipleRegistersRequest_to_core r7)
       = and_then (map_err SharedEncode (ReadWriteMultipleRegistersRequest_encode r7)) fitted
   \<and> WriteMultipleRegistersRequest_encode_core (WriteMultipleRegistersRequest_to_core r8)
       = and_then (map_err SharedEncode (WriteMultipleRegistersRequest_encode r8)) fitted
   \<and> ReadFileRecordRequest_encode_core (ReadFileRecordRequest_to_core r9) = Ok (pdu_bytes (ReadFileRecordRequest_encode r9))
   \<and> ReadDeviceIdentificationResponse_encode_core (ReadDeviceIdentificationResponse_to_core r10)
       = fitted (ReadDeviceIdentificationResponse_encode r10)
   \<and> ReadFileRecordResponse_encode_core (ReadFileRecordResponse_to_core r11) = fitted (ReadFileRecordResponse_encode r11)
   \<and> WriteFileRecordRequest_encode_core (WriteFileRecordRequest_to_core r12)
       = and_then (map_err SharedEncode (WriteFileRecordRequest_encode r12)) fitted
   \<and> WriteFileRecordResponse_encode_core (WriteFileRecordResponse_to_core r13)
       = and_then (map_err SharedEncode (WriteFileRecordResponse_encode r13)) fitted
   \<and> WriteMultipleCoilsRequest_encode_core (WriteMultipleCoilsRequest_to_core r14)
       = (if length (WriteMultipleCoilsRequest.coil_values r14) \<le> 1976
          then map_ok pdu_bytes (WriteMultipleCoilsRequest_encode r14) else Panic :: (PduBytes, EncodeError_core) result)
   \<and> ReadCoilsRequest_encode_core q1 = Ok (pdu_bytes (ReadCoilsRequest_encode q1))
   \<and> ReadDiscreteInputsRequest_encode_core q2 = Ok (pdu_bytes (ReadDiscreteInputsRequest_encode q2))
   \<and> ReadHoldingRegistersRequest_encode_core q3 = Ok (pdu_bytes (ReadHoldingRegistersRequest_encode q3))
   \<and> ReadInputRegistersRequest_encode_core q4 = Ok (pdu_bytes (ReadInputRegistersRequest_encode q4))
   \<and> WriteSingleCoilRequest_encode_core q5 = Ok (pdu_bytes (WriteSingleCoilRequest_encode q5))
   \<and> WriteSingleCoilResponse_encode_core q6 = Ok (pdu_bytes (WriteSingleCoilResponse_encode q6))
   \<and> WriteSingleRegisterRequest_encode_core q7 = Ok (pdu_bytes (WriteSingleRegisterRequest_encode q7))
   \<and> WriteSingleRegisterResponse_encode_core q8 = Ok (pdu_bytes (WriteSingleRegisterResponse_encode q8))
   \<and> MaskWriteRegisterRequest_encode_core q9 = Ok (pdu_bytes (MaskWriteRegisterRequest_encode q9))
   \<and> MaskWriteRegisterResponse_encode_core q10 = Ok (pdu_bytes (MaskWriteRegisterResponse_encode q10))
   \<and> ReportServerIdRequest_encode_core q11 = Ok (pdu_bytes (ReportServerIdRequest_encode q11))
   \<and> WriteMultipleCoilsResponse_encode_core q12 = Ok (pdu_bytes (WriteMultipleCoilsResponse_encode q12))
   \<and> WriteMultipleRegistersResponse_encode_core q13 = Ok (pdu_bytes (WriteMultipleRegistersResponse_encode q13))
   \<and> ReadDeviceIdentificationRequest_encode_core q14 = Ok (pdu_bytes (ReadDeviceIdentificationRequest_encode q14))
   \<and> ExceptionResponse_encode_core q15 = Ok (pdu_bytes (ExceptionResponse_encode q15))"
  by (intro conjI array_response_encoders_core ReportServerIdResponse_encode_core multi_register_encoders_core
      ReadFileRecordRequest_encode_core ReadDeviceIdentificationResponse_encode_core ReadFileRecordResponse_encode_core
      write_file_record_encoders_core WriteMultipleCoilsRequest_encode_core scalar_encoders_core assms)

theorem core_encoders_agree_witness:
  "let r7 = \<lparr>ReadWriteMultipleRegistersRequest.read_starting_address = 1, read_quantity = 2,
          write_starting_address = 3, write_values = replicate 122 7\<rparr>;
       r11 = \<lparr>ReadFileRecordResponse.records = [replicate 126 1, replicate 126 2]\<rparr>;
       r12 = \<lparr>WriteFileRecordRequest.sub_requests =
          [\<lparr>WriteFileRecordSubRequest.file_number = 4, record_number = 5, record_data = [6, 7]\<rparr>]\<rparr> in
     ReadWriteMultipleRegistersRequest_encode_core (ReadWriteMultipleRegistersRequest_to_core r7)
       = Err (SharedEncode (TooManyRegisters 122 121))
   \<and> ReadFileRecordResponse_encode_core (ReadFileRecordResponse_to_core r11) = Err EncodeTooLargeForBuffer
   \<and> WriteFileRecordRequest_encode_core (WriteFileRecordRequest_to_core r12)
       = Ok (pdu_bytes [0x15, 9, 6, 0, 4, 0, 5, 0, 1, 6, 7])
   \<and> WriteMultipleCoilsRequest_encode_core (WriteMultipleCoilsRequest_to_core
         \<lparr>WriteMultipleCoilsRequest.starting_address = 0, coil_values = replicate 1977 True\<rparr>)
       = (Panic :: (PduBytes, EncodeError_core) result)"
proof -
  let ?r14 = "\<lparr>WriteMultipleCoilsRequest.starting_address = 0, coil_values = replicate 1977 True\<rparr>"
  let ?r7 = "\<lparr>ReadWriteMultipleRegistersRequest.read_starting_address = 1, read_quantity = 2,
      write_starting_address = 3, write_values = replicate 122 7\<rparr>"
  let ?r11 = "\<lparr>ReadFileRecordResponse.records = [replicate 126 1, replicate 126 2]\<rparr>"
  let ?r12 = "\<lparr>WriteFileRecordRequest.sub_requests =
      [\<lparr>WriteFileRecordSubRequest.file_number = 4, record_number = 5, record_data = [6, 7]\<rparr>]\<rparr>"
  have fits: "length (ReadCoilsResponse.coil_values \<lparr>ReadCoilsResponse.coil_values = [True]\<rparr>) \<le> 2000"
    "length (ReadDiscreteInputsResponse.discrete_input_values \<lparr>ReadDiscreteInputsResponse.discrete_input_values = []\<rparr>) \<le> 2000"
    "length (ReadHoldingRegistersResponse.register_values \<lparr>ReadHoldingRegistersResponse.register_values = [1]\<rparr>) \<le> 125"
    "length (ReadInputRegistersResponse.register_values \<lparr>ReadInputRegistersResponse.register_values = [2]\<rparr>) \<le> 125"
    "length (ReadWriteMultipleRegistersResponse.register_values
       \<lparr>ReadWriteMultipleRegistersResponse.register_values = [3]\<rparr>) \<le> 125"
    "length (ReportServerIdResponse.server_id \<lparr>ReportServerIdResponse.server_id = [4], run_indicator_status = True\<rparr>) \<le> 253"
    "length (ReadWriteMultipleRegistersRequest.write_values ?r7) \<le> 125"
    "length (WriteMultipleRegistersRequest.register_values
       \<lparr>WriteMultipleRegistersRequest.starting_address = 0, register_values = [5]\<rparr>) \<le> 125"
    "length (ReadFileRecordRequest.sub_requests \<lparr>ReadFileRecordRequest.sub_requests = []\<rparr>) \<le> 35"
    "objects_fit (ReadDeviceIdentificationResponse.objects \<lparr>ReadDeviceIdentificationResponse.read_device_id_code = 1,
       conformity_level = 2, more_follows = False, next_object_id = 0, objects = []\<rparr>)"
    "records_fit (ReadFileRecordResponse.records ?r11)"
    "writes_fit (WriteFileRecordRequest.sub_requests ?r12)"
    "writes_fit (WriteFileRecordResponse.sub_requests \<lparr>WriteFileRecordResponse.sub_requests = []\<rparr>)"
    "length (WriteMultipleCoilsRequest.coil_values ?r14) \<le> 2000"
    by (simp_all add: objects_fit_def records_fit_def writes_fit_def)
  have "ReadWriteMultipleRegistersRequest_encode_core (ReadWriteMultipleRegistersRequest_to_core ?r7)
        = and_then (map_err SharedEncode (ReadWriteMultipleRegistersRequest_encode ?r7)) fitted
      \<and> ReadFileRecordResponse_encode_core (ReadFileRecordResponse_to_core ?r11) = fitted (ReadFileRecordResponse_encode ?r11)
      \<and> WriteFileRecordRequest_encode_core (WriteFileRecordRequest_to_core ?r12)
        = and_then (map_err SharedEncode (WriteFileRecordRequest_encode ?r12)) fitted
      \<and> WriteMultipleCoilsRequest_encode_core (WriteMultipleCoilsRequest_to_core ?r14)
        = (if length (WriteMultipleCoilsRequest.coil_values ?r14) \<le> 1976
           then map_ok pdu_bytes (WriteMultipleCoilsRequest_encode ?r14) else Panic :: (PduBytes, EncodeError_core) result)"
    using core_encoders_agree [OF fits] by blast
  then show ?thesis
    by (simp add: ReadWriteMultipleRegistersRequest_encode_def ReadFileRecordResponse_encode_def encode_file_record_def fitted_def
        WriteFileRecordRequest_encode_def encode_write_file_record_def encode_write_sub_request_def to_be_bytes_def Let_def)
qed

section \<open>PDUs of the specification\<close>

lemma register_array_length:
  assumes "decode_register_array_response bs fc = Ok vs"
  shows "2 * length vs + 2 \<le> length bs"
  using assms by (auto simp: decode_register_array_response_def and_then_eq_Ok_iff slice_def split: if_splits)

lemma bounded_not_too_large: "bounded fits wrap r = Err TooLargeForBuffer \<longleftrightarrow> (\<exists>p. r = Ok p \<and> \<not> fits p)"
  by (cases r) simp_all

lemma agrees_not_too_large:
  assumes "agrees fits wrap core r" and "\<And>p. r = Ok p \<Longrightarrow> fits p" and "\<And>e. r \<noteq> Err e \<or> core \<noteq> Err TooLargeForBuffer"
  shows "core \<noteq> Err TooLargeForBuffer"
  using assms by (cases r) (auto simp: agrees_def)

lemma sub_requests_room:
  "length srs + n \<le> 35 \<Longrightarrow> decode_sub_requests_core bs n off (sub_request_list srs) \<noteq> Err TooLargeForBuffer"
  by (induction n arbitrary: off srs)
     (auto simp: and_then_eq_Err_iff push_sub_request_core index_def read_u16_be_def split: if_splits)

definition written_size :: "WriteFileRecordSubRequest list \<Rightarrow> nat" where
  "written_size srs = sum_list (map (\<lambda>sr. 7 + length (WriteFileRecordSubRequest.record_data sr)) srs)"

lemma written_size_fits: "written_size srs \<le> 251 \<Longrightarrow> writes_fit srs"
  by (simp add: written_size_def writes_fit_def sum_list_addf sum_list_triv length_concat comp_def)

lemma write_sub_requests_room:
  assumes "length bs \<le> 253"
  shows "2 + written_size srs \<le> off \<Longrightarrow> off \<le> length bs \<Longrightarrow>
     decode_write_sub_requests_core bs stop off (write_table srs) \<noteq> Err TooLargeForBuffer"
proof (induction "stop - off" arbitrary: off srs rule: less_induct)
  case less
  have fits: "writes_fit srs" using less.prems assms by (intro written_size_fits) simp
  have next_one: "and_then (or_too_large (WriteFileRecordSubRequests_push f rn d (write_table srs)))
        (decode_write_sub_requests_core bs stop off') \<noteq> Err TooLargeForBuffer"
    if "off' = off + 7 + length d" "off' \<le> length bs" "off < stop" for f rn d off'
  proof -
    let ?srs = "srs @ [\<lparr>WriteFileRecordSubRequest.file_number = f, record_number = rn, record_data = d\<rparr>]"
    have size: "2 + written_size ?srs \<le> off'" using that less.prems by (simp add: written_size_def)
    then have "writes_fit ?srs" using that(2) assms by (intro written_size_fits) simp
    then show ?thesis using less.hyps [OF _ size that(2)] that by (simp add: push_write_core [OF fits] Let_def)
  qed
  show ?case
    by (subst decode_write_sub_requests_core.simps)
       (auto simp: and_then_eq_Err_iff [of "index _ _"] and_then_eq_Err_iff [of "read_u16_be _ _"]
          and_then_eq_Err_iff [of "slice _ _ _"] index_def read_u16_be_def slice_def Let_def
          dest!: next_one [THEN notE, rotated -1] split: if_splits)
qed

lemma write_file_record_room:
  "length bs \<le> 253 \<Longrightarrow> decode_write_file_record_core bs fc \<noteq> Err TooLargeForBuffer"
  using write_sub_requests_room [of bs "[]" 2]
  by (auto simp: decode_write_file_record_core_def write_table.new_empty written_size_def Let_def and_then_eq_Err_iff
      check_function_code_def index_def split: if_splits)

lemma register_array_room:
  "length bs \<le> 253 \<Longrightarrow> decode_register_array_response_core bs fc RegisterValues_new \<noteq> Err TooLargeForBuffer"
  using register_array_length [of bs fc] by (force simp: register_array_core bounded_not_too_large)

lemma register_responses_room:
  assumes "length bs \<le> 253"
  shows "ReadHoldingRegistersResponse_decode_core bs \<noteq> Err TooLargeForBuffer"
    and "ReadInputRegistersResponse_decode_core bs \<noteq> Err TooLargeForBuffer"
    and "ReadWriteMultipleRegistersResponse_decode_core bs \<noteq> Err TooLargeForBuffer"
  by (simp_all add: ReadHoldingRegistersResponse_decode_core_def ReadInputRegistersResponse_decode_core_def
      ReadWriteMultipleRegistersResponse_decode_core_def and_then_eq_Err_iff register_array_room [OF assms])

lemma ReportServerIdResponse_room:
  "length bs \<le> 253 \<Longrightarrow> ReportServerIdResponse_decode_core bs \<noteq> Err TooLargeForBuffer"
  using pdu_bytes_extend_new
  by (auto simp: ReportServerIdResponse_decode_core_def and_then_eq_Err_iff check_function_code_def index_def
      slice_def Let_def simp del: PduBytes_new_eq split: if_splits)

lemma register_requests_room:
  assumes "length bs \<le> 253"
  shows "ReadWriteMultipleRegistersRequest_decode_core bs \<noteq> Err TooLargeForBuffer"
    and "WriteMultipleRegistersRequest_decode_core bs \<noteq> Err TooLargeForBuffer"
  using assms
  by (auto simp: ReadWriteMultipleRegistersRequest_decode_core_def WriteMultipleRegistersRequest_decode_core_def
      and_then_eq_Err_iff check_function_code_def index_def read_u16_be_def slice_def Let_def split: if_splits)

lemma WriteMultipleCoilsRequest_room:
  "length bs \<le> 253 \<Longrightarrow> WriteMultipleCoilsRequest_decode_core bs \<noteq> Err TooLargeForBuffer"
  using div_ceil_8_bounds(1) [of "unat (from_be_bytes (bs ! 3) (bs ! 4))"]
  by (auto simp: WriteMultipleCoilsRequest_decode_core_def packed_bytes_new and_then_eq_Err_iff check_function_code_def
      index_def read_u16_be_def slice_def Let_def split: if_splits)

lemma ReadFileRecordRequest_room:
  assumes "length bs \<le> 253"
  shows "ReadFileRecordRequest_decode_core bs \<noteq> Err TooLargeForBuffer"
proof -
  have pairs: "decode_sub_requests_core bs n off (sub_request_list []) \<noteq> Err TooLargeForBuffer" if "n \<le> 35" for n off
    using sub_requests_room [of "[]" n bs off] that by simp
  have "unat b div 7 \<le> 35" if "2 + unat b \<le> length bs" for b :: u8 using that assms by linarith
  with pairs show ?thesis
    by (auto simp: ReadFileRecordRequest_decode_core_def sub_requests.new_empty and_then_eq_Err_iff check_function_code_def
        index_def split: if_splits)
qed

text \<open>Lists the original decodes from one PDU that exceed a container.\<close>

lemma bits_of_zeros: "bits_of (replicate n 0) = replicate (8 * n) False"
  by (rule nth_equalityI) (simp_all add: nth_bits_of less_mult_imp_div_less mult.commute)

lemma agrees_oversized: "agrees fits wrap core (Ok p) \<Longrightarrow> \<not> fits p \<Longrightarrow> core = Err TooLargeForBuffer"
  by (simp add: agrees_def)

lemma bits_too_large:
  obtains frame where "length frame \<le> 253"
    "ReadCoilsResponse_decode frame = Ok \<lparr>ReadCoilsResponse.coil_values = replicate 2008 False\<rparr>"
    "ReadCoilsResponse_decode_core frame = Err TooLargeForBuffer"
proof -
  let ?r = "\<lparr>ReadCoilsResponse.coil_values = replicate 2008 False\<rparr>"
  let ?frame = "[1, 251] @ packed_bits (replicate 2008 False)"
  have "ReadCoilsResponse_decode ?frame = Ok ?r"
    using decode_bitfield_response_exact [of "replicate 2008 False" 1 ?frame "[]"]
    by (simp add: ReadCoilsResponse_decode_def encode_bitfield_response_eq div_ceil_def)
  moreover have "ReadCoilsResponse_decode_core ?frame = Err TooLargeForBuffer"
    by (rule agrees_oversized [OF array_responses_agree(1) [of ?frame, unfolded calculation]]) simp
  moreover have "length ?frame \<le> 253" by (simp add: div_ceil_def)
  ultimately show thesis using that by blast
qed

lemma objects_too_large:
  obtains frame r where "length frame \<le> 253"
    "ReadDeviceIdentificationResponse_decode frame = Ok r" "length (ReadDeviceIdentificationResponse.objects r) = 85"
    "ReadDeviceIdentificationResponse_decode_core frame = Err TooLargeForBuffer"
proof -
  let ?r = "\<lparr>ReadDeviceIdentificationResponse.read_device_id_code = 4, conformity_level = 0, more_follows = False,
    next_object_id = 0, objects = replicate 85 \<lparr>DeviceIdentificationObject.id_byte = 0, object_value = []\<rparr>\<rparr>"
  let ?frame = "ReadDeviceIdentificationResponse_encode ?r"
  have "ReadDeviceIdentificationResponse_decode ?frame = Ok ?r"
    using ReadDeviceIdentificationResponse_decode_encode [of ?r "[]"] by simp
  moreover have "ReadDeviceIdentificationResponse_decode_core ?frame = Err TooLargeForBuffer"
    by (rule agrees_oversized [OF ReadDeviceIdentificationResponse_agrees [of ?frame, unfolded calculation]])
       (simp add: objects_fit_def)
  moreover have "length ?frame \<le> 253"
    by (simp add: ReadDeviceIdentificationResponse_encode_def encode_object_def length_concat sum_list_replicate)
  ultimately show thesis using that [of ?frame ?r] by simp
qed

lemma records_too_large:
  obtains frame where "length frame \<le> 253"
    "ReadFileRecordResponse_decode frame = Ok \<lparr>ReadFileRecordResponse.records = replicate 36 []\<rparr>"
    "ReadFileRecordResponse_decode_core frame = Err TooLargeForBuffer"
proof -
  let ?r = "\<lparr>ReadFileRecordResponse.records = replicate 36 []\<rparr>"
  let ?frame = "ReadFileRecordResponse_encode ?r"
  have "ReadFileRecordResponse_decode ?frame = Ok ?r"
    using ReadFileRecordResponse_decode_encode [of ?r "[]"] by (simp add: sum_list_replicate)
  moreover have "ReadFileRecordResponse_decode_core ?frame = Err TooLargeForBuffer"
    by (rule agrees_oversized [OF ReadFileRecordResponse_agrees [of ?frame, unfolded calculation]])
       (simp add: records_fit_def)
  moreover have "length ?frame \<le> 253"
    by (simp add: ReadFileRecordResponse_encode_def encode_file_record_def length_concat sum_list_replicate)
  ultimately show thesis using that by blast
qed

text \<open>
  No PDU of the specification is too large for the port. Of the byte strings within the 253 bytes of a
  PDU, the decoders of register lists, server ids, coil writes and file record requests refuse none
  as too large. Three decoders do refuse some: 2008 bits, 85 empty identification objects
  and 36 empty records fit a PDU, and the original decodes them.
\<close>

theorem pdus_fit_the_containers:
  assumes "length bs \<le> 253"
  shows "ReadHoldingRegistersResponse_decode_core bs \<noteq> Err TooLargeForBuffer
    \<and> ReadInputRegistersResponse_decode_core bs \<noteq> Err TooLargeForBuffer
    \<and> ReadWriteMultipleRegistersResponse_decode_core bs \<noteq> Err TooLargeForBuffer
    \<and> ReportServerIdResponse_decode_core bs \<noteq> Err TooLargeForBuffer
    \<and> ReadWriteMultipleRegistersRequest_decode_core bs \<noteq> Err TooLargeForBuffer
    \<and> WriteMultipleRegistersRequest_decode_core bs \<noteq> Err TooLargeForBuffer
    \<and> WriteMultipleCoilsRequest_decode_core bs \<noteq> Err TooLargeForBuffer
    \<and> ReadFileRecordRequest_decode_core bs \<noteq> Err TooLargeForBuffer
    \<and> WriteFileRecordRequest_decode_core bs \<noteq> Err TooLargeForBuffer
    \<and> WriteFileRecordResponse_decode_core bs \<noteq> Err TooLargeForBuffer
    \<and> (\<exists>frame r. length frame \<le> 253 \<and> ReadCoilsResponse_decode frame = Ok r
         \<and> ReadCoilsResponse_decode_core frame = Err TooLargeForBuffer)
    \<and> (\<exists>frame r. length frame \<le> 253 \<and> ReadDeviceIdentificationResponse_decode frame = Ok r
         \<and> ReadDeviceIdentificationResponse_decode_core frame = Err TooLargeForBuffer)
    \<and> (\<exists>frame r. length frame \<le> 253 \<and> ReadFileRecordResponse_decode frame = Ok r
         \<and> ReadFileRecordResponse_decode_core frame = Err TooLargeForBuffer)"
proof -
  have "\<exists>frame r. length frame \<le> 253 \<and> ReadCoilsResponse_decode frame = Ok r
      \<and> ReadCoilsResponse_decode_core frame = Err TooLargeForBuffer"
    by (rule bits_too_large) blast
  moreover have "\<exists>frame r. length frame \<le> 253 \<and> ReadDeviceIdentificationResponse_decode frame = Ok r
      \<and> ReadDeviceIdentificationResponse_decode_core frame = Err TooLargeForBuffer"
    by (rule objects_too_large) blast
  moreover have "\<exists>frame r. length frame \<le> 253 \<and> ReadFileRecordResponse_decode frame = Ok r
      \<and> ReadFileRecordResponse_decode_core frame = Err TooLargeForBuffer"
    by (rule records_too_large) blast
  moreover have "WriteFileRecordRequest_decode_core bs \<noteq> Err TooLargeForBuffer"
    "WriteFileRecordResponse_decode_core bs \<noteq> Err TooLargeForBuffer"
    using write_file_record_room [OF assms]
    by (simp_all add: WriteFileRecordRequest_decode_core_def WriteFileRecordResponse_decode_core_def and_then_eq_Err_iff)
  ultimately show ?thesis
    using assms
    by (intro conjI register_responses_room ReportServerIdResponse_room register_requests_room
        WriteMultipleCoilsRequest_room ReadFileRecordRequest_room)
qed

theorem pdus_fit_the_containers_witness:
  "WriteMultipleRegistersRequest_decode_core ([0x10, 0, 1, 0, 123, 246] @ replicate 246 0) \<noteq> Err TooLargeForBuffer"
  using pdus_fit_the_containers [of "[0x10, 0, 1, 0, 123, 246] @ replicate 246 0"] by simp

section \<open>One side encodes, the other decodes\<close>

lemma fitted_decodes:
  assumes "and_then (map_err SharedEncode enc) fitted = Ok b"
    and "\<And>bs. enc = Ok bs \<Longrightarrow> length bs \<le> 253 \<Longrightarrow> decode bs = Ok p"
    and "\<And>bs. agrees fits wrap (decode_core bs) (decode bs)" and "fits p"
  shows "\<exists>bs. PduBytes_as_slice b = (Ok bs :: (bytes, 'e) result) \<and> decode bs = Ok p \<and> decode_core bs = Ok (wrap p)"
proof -
  from assms(1) obtain bs where bs: "enc = Ok bs" "length bs \<le> 253" "b = pdu_bytes bs"
    by (cases enc) (auto simp: fitted_def split: if_splits)
  with assms(2) have "decode bs = Ok p" by blast
  moreover from this have "decode_core bs = Ok (wrap p)" using assms(3) [of bs] assms(4) by (simp add: agrees_def)
  ultimately show ?thesis using bs by simp
qed

lemma coils_request_decodes:
  assumes "length (WriteMultipleCoilsRequest.coil_values r) \<le> 1976"
    and "WriteMultipleCoilsRequest_encode r = (Ok bs :: (bytes, 'e) result)"
  shows "WriteMultipleCoilsRequest_decode_core bs = Ok (WriteMultipleCoilsRequest_to_core r)"
proof -
  let ?vs = "WriteMultipleCoilsRequest.coil_values r"
  have n: "div_ceil (length ?vs) 8 \<le> 247" using assms(1) by (simp add: div_ceil_8_le)
  have "or_too_large (BitValues_extend_from_packed_bytes (packed_bits ?vs) (length ?vs) BitValues_new) = Ok (bit_list ?vs)"
    using assms(1) bit_list_data [of ?vs] by (cases "bit_list ?vs") (simp add: packed_bytes_new bit_list_def)
  with assms n show ?thesis
    by (auto simp: WriteMultipleCoilsRequest_encode_eq WriteMultipleCoilsRequest_decode_core_def check_function_code_def
        read_u16_be_def Let_def to_be_bytes_def WriteMultipleCoilsRequest_to_core_def)
qed

text \<open>
  What the port encodes, both codecs decode. Whenever the port encodes a write of registers, of
  coils or of file records, the server's decoder reads from these bytes the request that was meant,
  and the port's decoder the very value that was encoded.
\<close>

theorem port_and_original_interoperate:
  assumes "length (WriteMultipleRegistersRequest.register_values w) \<le> 125"
    and "WriteMultipleRegistersRequest_encode_core (WriteMultipleRegistersRequest_to_core w) = Ok b1"
    and "writes_fit (WriteFileRecordRequest.sub_requests f)"
    and "WriteFileRecordRequest_encode_core (WriteFileRecordRequest_to_core f) = Ok b2"
    and "length (WriteMultipleCoilsRequest.coil_values c) \<le> 2000"
    and "WriteMultipleCoilsRequest_encode_core (WriteMultipleCoilsRequest_to_core c) = (Ok b3 :: (PduBytes, unit) result)"
  shows "(\<exists>bs. PduBytes_as_slice b1 = (Ok bs :: (bytes, unit) result) \<and> WriteMultipleRegistersRequest_decode bs = Ok w
      \<and> WriteMultipleRegistersRequest_decode_core bs = Ok (WriteMultipleRegistersRequest_to_core w))
   \<and> (\<exists>bs. PduBytes_as_slice b2 = (Ok bs :: (bytes, unit) result) \<and> WriteFileRecordRequest_decode bs = Ok f
      \<and> WriteFileRecordRequest_decode_core bs = Ok (WriteFileRecordRequest_to_core f))
   \<and> (\<exists>bs. PduBytes_as_slice b3 = (Ok bs :: (bytes, unit) result) \<and> WriteMultipleCoilsRequest_decode bs = Ok c
      \<and> WriteMultipleCoilsRequest_decode_core bs = Ok (WriteMultipleCoilsRequest_to_core c))"
proof (intro conjI)
  show "\<exists>bs. PduBytes_as_slice b1 = (Ok bs :: (bytes, unit) result) \<and> WriteMultipleRegistersRequest_decode bs = Ok w
      \<and> WriteMultipleRegistersRequest_decode_core bs = Ok (WriteMultipleRegistersRequest_to_core w)"
    using assms(1,2) WriteMultipleRegistersRequest_decode_encode [of w _ "[]"]
    by (intro fitted_decodes [OF _ _ WriteMultipleRegistersRequest_agrees]) (simp_all add: multi_register_encoders_core)
  have decode: "WriteFileRecordRequest_decode bs = Ok f"
    if "WriteFileRecordRequest_encode f = Ok bs" "length bs \<le> 253" for bs
    using that decode_encode_write_file_record [of "WriteFileRecordRequest.sub_requests f" _ bs "[]"]
      encode_write_file_record_cases [where fc = FUNCTION_CODE_WRITE_FILE_RECORD and srs = "WriteFileRecordRequest.sub_requests f"]
    by (auto simp: WriteFileRecordRequest_encode_def WriteFileRecordRequest_decode_def encode_write_file_record_def
        and_then_eq_Ok_iff Let_def)
  show "\<exists>bs. PduBytes_as_slice b2 = (Ok bs :: (bytes, unit) result) \<and> WriteFileRecordRequest_decode bs = Ok f
      \<and> WriteFileRecordRequest_decode_core bs = Ok (WriteFileRecordRequest_to_core f)"
    using assms(3,4)
    by (intro fitted_decodes [OF _ decode WriteFileRecordRequest_agrees]) (simp_all add: write_file_record_encoders_core)
  obtain bs where bs: "WriteMultipleCoilsRequest_encode c = (Ok bs :: (bytes, unit) result)" "b3 = pdu_bytes bs"
      "length (WriteMultipleCoilsRequest.coil_values c) \<le> 1976"
    using assms(5,6) by (cases "WriteMultipleCoilsRequest_encode c :: (bytes, unit) result")
      (auto simp: WriteMultipleCoilsRequest_encode_core split: if_splits)
  then have "length bs \<le> 253"
    using div_ceil_8_le [of "length (WriteMultipleCoilsRequest.coil_values c)" 247]
    by (auto simp: WriteMultipleCoilsRequest_encode_eq Let_def)
  with bs show "\<exists>bs. PduBytes_as_slice b3 = (Ok bs :: (bytes, unit) result) \<and> WriteMultipleCoilsRequest_decode bs = Ok c
      \<and> WriteMultipleCoilsRequest_decode_core bs = Ok (WriteMultipleCoilsRequest_to_core c)"
    using WriteMultipleCoilsRequest_decode_encode [OF _ bs(1), of "[]"] coils_request_decodes [OF bs(3,1)] by simp
qed

theorem port_and_original_interoperate_witness:
  "\<exists>bs. PduBytes_as_slice (pdu_bytes [0x15, 9, 6, 0, 4, 0, 5, 0, 1, 6, 7]) = (Ok bs :: (bytes, unit) result)
     \<and> WriteFileRecordRequest_decode bs = Ok \<lparr>WriteFileRecordRequest.sub_requests =
          [\<lparr>WriteFileRecordSubRequest.file_number = 4, record_number = 5, record_data = [6, 7]\<rparr>]\<rparr>"
proof -
  let ?w = "\<lparr>WriteMultipleRegistersRequest.starting_address = 1, register_values = [2]\<rparr>"
  let ?f = "\<lparr>WriteFileRecordRequest.sub_requests =
      [\<lparr>WriteFileRecordSubRequest.file_number = 4, record_number = 5, record_data = [6, 7]\<rparr>]\<rparr>"
  let ?c = "\<lparr>WriteMultipleCoilsRequest.starting_address = 3, coil_values = [True, False, True]\<rparr>"
  have fits: "length (WriteMultipleRegistersRequest.register_values ?w) \<le> 125"
    "writes_fit (WriteFileRecordRequest.sub_requests ?f)" "length (WriteMultipleCoilsRequest.coil_values ?c) \<le> 2000"
    by (simp_all add: writes_fit_def)
  have w: "WriteMultipleRegistersRequest_encode_core (WriteMultipleRegistersRequest_to_core ?w)
      = Ok (pdu_bytes [0x10, 0, 1, 0, 1, 2, 0, 2])"
    using fits(1) by (simp add: multi_register_encoders_core WriteMultipleRegistersRequest_encode_def fitted_def to_be_bytes_def Let_def)
  have f: "WriteFileRecordRequest_encode_core (WriteFileRecordRequest_to_core ?f)
      = Ok (pdu_bytes [0x15, 9, 6, 0, 4, 0, 5, 0, 1, 6, 7])"
    using fits(2) by (simp add: write_file_record_encoders_core fitted_def WriteFileRecordRequest_encode_def
        encode_write_file_record_def encode_write_sub_request_def to_be_bytes_def Let_def)
  have c: "\<exists>b. WriteMultipleCoilsRequest_encode_core (WriteMultipleCoilsRequest_to_core ?c) = (Ok b :: (PduBytes, unit) result)"
    using fits(3) by (simp add: WriteMultipleCoilsRequest_encode_core WriteMultipleCoilsRequest_encode_eq)
  then obtain b where "WriteMultipleCoilsRequest_encode_core (WriteMultipleCoilsRequest_to_core ?c) = (Ok b :: (PduBytes, unit) result)"
    by blast
  from port_and_original_interoperate [OF fits(1) w fits(2) f fits(3) this] show ?thesis by blast
qed

section \<open>Defects of the coils request\<close>

text \<open>
  A list of coils that the container accepts may panic the encoder. \<open>BitValues\<close> takes 2000 bits one by
  one, but a Write Multiple Coils request with more than 1976 of them exceeds the 253 bytes of a
  PDU, and the \<open>expect\<close> of the encoder, unlike the errors of its neighbours, is a panic.
\<close>

theorem coils_request_can_panic:
  assumes "for_each BitValues_push vs BitValues_new = Ok values"
  shows "WriteMultipleCoilsRequest_encode_core
       \<lparr>WriteMultipleCoilsRequest_core.starting_address = a, coil_values = values\<rparr> = (Panic :: (PduBytes, unit) result)
     \<longleftrightarrow> 1976 < length vs"
proof -
  have built: "length vs \<le> 2000" "values = bit_list vs" using bits.pushed [OF assms] by simp_all
  let ?r = "\<lparr>WriteMultipleCoilsRequest.starting_address = a, coil_values = vs\<rparr>"
  have "\<lparr>WriteMultipleCoilsRequest_core.starting_address = a, coil_values = values\<rparr> = WriteMultipleCoilsRequest_to_core ?r"
    by (simp add: built WriteMultipleCoilsRequest_to_core_def)
  then show ?thesis
    using WriteMultipleCoilsRequest_encode_core [of ?r, where 'e = unit] built
    by (simp add: WriteMultipleCoilsRequest_encode_eq not_le)
qed

theorem coils_request_can_panic_witness:
  "\<exists>values. for_each BitValues_push (replicate 1977 True) BitValues_new = Ok values
     \<and> WriteMultipleCoilsRequest_encode_core \<lparr>WriteMultipleCoilsRequest_core.starting_address = 0, coil_values = values\<rparr>
       = (Panic :: (PduBytes, unit) result)"
proof -
  have "for_each BitValues_push (replicate 1977 True) BitValues_new = Ok (bit_list (replicate 1977 True))"
    using bits.push_all [of "[]" "replicate 1977 True"] by (simp add: bits.new_empty)
  with coils_request_can_panic [OF this, of 0] show ?thesis by auto
qed

text \<open>
  The decoder of the coils request leaves the padding of the last byte in the container. A request for
  one coil whose last byte has another bit set decodes to a list that shows one coil but
  differs from the list of that coil, is encoded with the padding, and reads back a coil pushed as
  false as true.
\<close>

theorem decoded_coils_keep_their_padding:
  "\<exists>r. WriteMultipleCoilsRequest_decode_core [15, hi, lo, 0, 1, 1, 3] = Ok r
    \<and> bit_contents (WriteMultipleCoilsRequest_core.coil_values r) = [True]
    \<and> BitValues_eq (WriteMultipleCoilsRequest_core.coil_values r) (bit_list [True]) = (Ok False :: (bool, unit) result)
    \<and> WriteMultipleCoilsRequest_encode_core r = (Ok (pdu_bytes [15, hi, lo, 0, 1, 1, 3]) :: (PduBytes, unit) result)
    \<and> map_ok bit_contents (BitValues_push False (WriteMultipleCoilsRequest_core.coil_values r)) = Ok [True, True]"
proof -
  let ?vs = "\<lparr>BitValues.data = padded 250 0 [3], len = 1\<rparr>"
  let ?r = "\<lparr>WriteMultipleCoilsRequest_core.starting_address = from_be_bytes hi lo, coil_values = ?vs\<rparr>"
  have one: "from_be_bytes 0 1 = 1" "to_be_bytes 1 = [0, 1]" by (simp_all add: from_be_bytes_def to_be_bytes_def)
  have ceil: "div_ceil 1 8 = 1" "div_ceil (Suc 0) 8 = 1" by (simp_all add: div_ceil_def)
  have "WriteMultipleCoilsRequest_decode_core [15, hi, lo, 0, 1, 1, 3] = Ok ?r"
    using packed_bytes_new [of 1 "[3]"]
    by (simp add: WriteMultipleCoilsRequest_decode_core_def check_function_code_def read_u16_be_def one ceil)
  moreover have "bit_contents ?vs = [True]"
    using bit_contents_packed [of 1 "[3]"] by (simp add: ceil bits_of_Cons upt_rec)
  moreover have "BitValues_as_packed_bytes ?vs = (Ok [3] :: (bytes, unit) result)"
    by (simp add: BitValues_as_packed_bytes_def ceil padded_def)
  moreover have "packed_bits [True] = [1]" by (simp add: packed_bits_def ceil)
  moreover have "map_ok bit_contents (BitValues_push False ?vs) = Ok [True, True]"
    by (simp add: BitValues_push_def bit_contents_def padded_def bits_of_Cons upt_rec)
  ultimately show ?thesis
    by (intro exI [of _ ?r])
       (simp add: BitValues_eq_def WriteMultipleCoilsRequest_encode_core_def ceil one)
qed

end
