(* ===== verification/Core_Adu.thy ===== *)
theory Core_Adu
  imports Core_Codec
begin

text \<open>
  The frames of the port (\<open>protocol-core/src/adu.rs\<close>): \<open>TcpAdu\<close> and \<open>RtuAdu\<close> with the PDU in a
  \<open>PduBytes\<close> and the frame in an \<open>AduBytes\<close>. The body of \<open>crc16_modbus\<close> is that of the original,
  so its model is shared. Every \<open>expect\<close> is a panic here, and none of them is reached.
\<close>

section \<open>Modbus TCP\<close>

record TcpAdu_core =
  transaction_id :: u16
  unit_id :: u8
  pdu :: PduBytes

text \<open>\<open>.expect("fits MAX_ADU_LEN")\<close>\<close>

definition expect_fits :: "('a, CapacityExceeded) result \<Rightarrow> ('a, 'e) result" where
  "expect_fits r = (case r of Ok x \<Rightarrow> Ok x | _ \<Rightarrow> Panic)"

definition TcpAdu_encode_core :: "TcpAdu_core \<Rightarrow> (AduBytes, 'e) result" where
  "TcpAdu_encode_core adu =
     and_then (expect_fits (AduBytes_extend_from_slice (to_be_bytes (TcpAdu_core.transaction_id adu)) AduBytes_new)) (\<lambda>buffer.
     and_then (expect_fits (AduBytes_extend_from_slice (to_be_bytes MBAP_PROTOCOL_ID) buffer)) (\<lambda>buffer.
     let len = of_nat (PduBytes.len (TcpAdu_core.pdu adu) + 1) in
     and_then (expect_fits (AduBytes_extend_from_slice (to_be_bytes len) buffer)) (\<lambda>buffer.
     and_then (expect_fits (AduBytes_push (TcpAdu_core.unit_id adu) buffer)) (\<lambda>buffer.
     and_then (PduBytes_as_slice (TcpAdu_core.pdu adu)) (\<lambda>body.
     expect_fits (AduBytes_extend_from_slice body buffer))))))"

definition TcpAdu_decode_core :: "bytes \<Rightarrow> (TcpAdu_core, DecodeError_core) result" where
  "TcpAdu_decode_core bs =
     (if length bs < MBAP_HEADER_LEN then Err (Shared TooShort)
      else and_then (map_err Shared (read_u16_be bs MBAP_PROTOCOL_ID_BYTE)) (\<lambda>protocol_id.
      if protocol_id \<noteq> MBAP_PROTOCOL_ID then Err (Shared (UnexpectedProtocolId protocol_id))
      else and_then (map_err Shared (read_u16_be bs MBAP_LENGTH_BYTE)) (\<lambda>len.
      if len = 0 \<or> MBAP_MAX_LENGTH < len then Err (Shared (InvalidAduLength len))
      else let pdu_len = unat len - 1 in
      if length bs < MBAP_HEADER_LEN + pdu_len then Err (Shared TooShort)
      else and_then (map_err Shared (read_u16_be bs MBAP_TRANSACTION_ID_BYTE)) (\<lambda>tid.
      and_then (index bs MBAP_UNIT_ID_BYTE) (\<lambda>uid.
      and_then (slice bs MBAP_HEADER_LEN (MBAP_HEADER_LEN + pdu_len)) (\<lambda>body.
      and_then (expect_fits (PduBytes_extend_from_slice body PduBytes_new)) (\<lambda>p.
      Ok \<lparr>TcpAdu_core.transaction_id = tid, unit_id = uid, pdu = p\<rparr>)))))))"

section \<open>Modbus RTU\<close>

record RtuAdu_core =
  unit_id :: u8
  pdu :: PduBytes

definition RtuAdu_encode_core :: "RtuAdu_core \<Rightarrow> (AduBytes, 'e) result" where
  "RtuAdu_encode_core adu =
     and_then (expect_fits (AduBytes_push (RtuAdu_core.unit_id adu) AduBytes_new)) (\<lambda>buffer.
     and_then (PduBytes_as_slice (RtuAdu_core.pdu adu)) (\<lambda>body.
     and_then (expect_fits (AduBytes_extend_from_slice body buffer)) (\<lambda>buffer.
     and_then (AduBytes_as_slice buffer) (\<lambda>covered.
     expect_fits (AduBytes_extend_from_slice (to_le_bytes (crc16_modbus covered)) buffer)))))"

definition RtuAdu_decode_core :: "bytes \<Rightarrow> (RtuAdu_core, DecodeError_core) result" where
  "RtuAdu_decode_core bs =
     (if length bs < RTU_MIN_FRAME_LEN then Err (Shared TooShort)
      else let crc_start = length bs - RTU_CRC_LEN in
      and_then (slice bs 0 crc_start) (\<lambda>unit_id_and_pdu.
      let expected_crc = crc16_modbus unit_id_and_pdu in
      and_then (index bs crc_start) (\<lambda>lo.
      and_then (index bs (crc_start + 1)) (\<lambda>hi.
      let actual_crc = from_le_bytes lo hi in
      if actual_crc \<noteq> expected_crc then Err (Shared (CrcMismatch expected_crc actual_crc))
      else and_then (index bs RTU_UNIT_ID_BYTE) (\<lambda>uid.
      and_then (slice bs 1 crc_start) (\<lambda>body.
      and_then (or_too_large (PduBytes_extend_from_slice body PduBytes_new)) (\<lambda>p.
      Ok \<lparr>RtuAdu_core.unit_id = uid, pdu = p\<rparr>)))))))"

section \<open>The images of the original frames\<close>

definition TcpAdu_to_core :: "TcpAdu \<Rightarrow> TcpAdu_core" where
  "TcpAdu_to_core adu = \<lparr>TcpAdu_core.transaction_id = TcpAdu.transaction_id adu, unit_id = TcpAdu.unit_id adu,
     pdu = pdu_bytes (TcpAdu.pdu adu)\<rparr>"

definition RtuAdu_to_core :: "RtuAdu \<Rightarrow> RtuAdu_core" where
  "RtuAdu_to_core adu = \<lparr>RtuAdu_core.unit_id = RtuAdu.unit_id adu, pdu = pdu_bytes (RtuAdu.pdu adu)\<rparr>"

lemma expect_fits_simps [simp]: "expect_fits (Ok x) = Ok x" "expect_fits (Err e) = Panic"
  by (simp_all add: expect_fits_def)

lemma adu_bytes_extend [simp]:
  "length xs + length ys \<le> 260 \<Longrightarrow> AduBytes_extend_from_slice ys (adu_bytes xs) = Ok (adu_bytes (xs @ ys))"
  using adu_buffer.extend_eq [of xs ys] by simp

lemma adu_bytes_push [simp]: "length xs < 260 \<Longrightarrow> AduBytes_push x (adu_bytes xs) = Ok (adu_bytes (xs @ [x]))"
  using adu_buffer.push_eq [of xs x] by simp

lemma pdu_bytes_extend [simp]:
  "PduBytes_extend_from_slice ys (pdu_bytes []) = (if length ys \<le> 253 then Ok (pdu_bytes ys) else Err CapacityExceeded)"
  using pdu_buffer.extend_eq [of "[]" ys] by simp

lemma TcpAdu_encode_core_eq:
  "length (TcpAdu.pdu adu) \<le> 253 \<Longrightarrow> TcpAdu_encode_core (TcpAdu_to_core adu) = Ok (adu_bytes (TcpAdu_encode adu))"
  by (simp add: TcpAdu_encode_core_def TcpAdu_to_core_def TcpAdu_encode_def adu_buffer.new_empty Let_def)

lemma RtuAdu_encode_core_eq:
  "length (RtuAdu.pdu adu) \<le> 253 \<Longrightarrow> RtuAdu_encode_core (RtuAdu_to_core adu) = Ok (adu_bytes (RtuAdu_encode adu))"
  by (simp add: RtuAdu_encode_core_def RtuAdu_to_core_def RtuAdu_encode_def adu_buffer.new_empty Let_def)

text \<open>A TCP frame that is accepted has at most 253 bytes of PDU, so the container always takes them.\<close>

lemma TcpAdu_decode_core_eq: "TcpAdu_decode_core bs = map_err Shared (map_ok TcpAdu_to_core (TcpAdu_decode bs))"
proof (cases "7 \<le> length bs")
  case True
  then obtain t1 t0 p1 p0 l1 l0 u body where bs: "bs = t1 # t0 # p1 # p0 # l1 # l0 # u # body"
    by (rule split_mbap_header)
  let ?len = "from_be_bytes l1 l0"
  have "unat ?len - 1 \<le> 253" if "\<not> 254 < ?len" using that by (simp add: word_less_nat_alt)
  then show ?thesis
    by (simp add: bs TcpAdu_decode_core_def TcpAdu_decode_def read_u16_be_def TcpAdu_to_core_def Let_def)
qed (simp add: TcpAdu_decode_core_def TcpAdu_decode_def)

lemma RtuAdu_decode_core_eq:
  "RtuAdu_decode_core bs = bounded (\<lambda>adu. length (RtuAdu.pdu adu) \<le> 253) RtuAdu_to_core (RtuAdu_decode bs)"
proof (cases "3 \<le> length bs")
  case True
  then obtain u p lo hi where "bs = (u # p) @ [lo, hi]" by (rule split_rtu_frame)
  then show ?thesis
    by (simp add: RtuAdu_decode_core_def RtuAdu_decode_def RtuAdu_to_core_def bounded_def nth_append Let_def)
qed (simp add: RtuAdu_decode_core_def RtuAdu_decode_def bounded_def)

section \<open>Properties\<close>

text \<open>
  C25: The frames of the port are those of the original. A frame with at most 253 bytes of PDU is
  encoded to the same bytes, without any of the panics of the encoders. Every byte string is decoded as
  TCP to the same frame or error, and as RTU too, except that an RTU frame with more than 253 bytes of PDU,
  which the original accepts, is refused as too large.
\<close>

theorem core_frames_agree:
  assumes "length p \<le> 253"
  shows "TcpAdu_decode_core bs = map_err Shared (map_ok TcpAdu_to_core (TcpAdu_decode bs))
   \<and> RtuAdu_decode_core bs =
       (case RtuAdu_decode bs of
          Ok adu \<Rightarrow> if length (RtuAdu.pdu adu) \<le> 253 then Ok (RtuAdu_to_core adu) else Err TooLargeForBuffer
        | Err e \<Rightarrow> Err (Shared e)
        | Panic \<Rightarrow> Panic)
   \<and> TcpAdu_encode_core (TcpAdu_to_core \<lparr>TcpAdu.transaction_id = t, unit_id = u, pdu = p\<rparr>)
       = (Ok (adu_bytes (TcpAdu_encode \<lparr>TcpAdu.transaction_id = t, unit_id = u, pdu = p\<rparr>)) :: (AduBytes, unit) result)
   \<and> RtuAdu_encode_core (RtuAdu_to_core \<lparr>RtuAdu.unit_id = u, pdu = p\<rparr>)
       = (Ok (adu_bytes (RtuAdu_encode \<lparr>RtuAdu.unit_id = u, pdu = p\<rparr>)) :: (AduBytes, unit) result)"
  using assms
  by (auto simp: bounded_def TcpAdu_decode_core_eq RtuAdu_decode_core_eq TcpAdu_encode_core_eq RtuAdu_encode_core_eq
      split: result.split)

theorem core_frames_agree_witness:
  "TcpAdu_encode_core (TcpAdu_to_core \<lparr>TcpAdu.transaction_id = 0x42, unit_id = 1, pdu = [3, 0, 0, 0, 10]\<rparr>)
       = (Ok (adu_bytes [0, 0x42, 0, 0, 0, 6, 1, 3, 0, 0, 0, 10]) :: (AduBytes, unit) result)"
  using core_frames_agree [of "[3, 0, 0, 0, 10]" "[]" "0x42" 1]
  by (simp add: TcpAdu_encode_def to_be_bytes_def)

end
