(* ===== verification/Text_Words.thy ===== *)
theory Text_Words
  imports Data_Stores
begin

text \<open>
  More of the standard library's string functions, for the line protocols of the two local
  sockets and for fingerprints: \<open>split\<close>, \<open>split_whitespace\<close>, \<open>trim_end\<close> and \<open>join\<close>.
\<close>

fun split_on :: "char \<Rightarrow> string \<Rightarrow> string list" where
  "split_on c [] = [[]]"
| "split_on c (x # xs) =
     (if x = c then [] # split_on c xs
      else (case split_on c xs of [] \<Rightarrow> [[x]] | w # ws \<Rightarrow> (x # w) # ws))"

fun split_words :: "string list \<Rightarrow> string \<Rightarrow> string list" where
  "split_words [] w = (if w = [] then [] else [w])"
| "split_words (c # cs) w =
     (if is_whitespace c then (if w = [] then split_words cs [] else w # split_words cs [])
      else split_words cs (w @ c))"

definition split_whitespace :: "string \<Rightarrow> string list" where
  "split_whitespace s = split_words (str_chars s) []"

definition trim_end :: "string \<Rightarrow> string" where
  "trim_end s = concat (rev (dropWhile is_whitespace (rev (str_chars s))))"

fun join_with :: "string \<Rightarrow> string list \<Rightarrow> string" where
  "join_with sep [] = []"
| "join_with sep [w] = w"
| "join_with sep (w # v # ws) = w @ sep @ join_with sep (v # ws)"

lemma split_on_nonempty [simp]: "split_on c s \<noteq> []"
  by (cases s) (auto split: list.split)

lemma split_on_plain: "c \<notin> set w \<Longrightarrow> split_on c w = [w]"
  by (induction w) auto

lemma split_on_append: "c \<notin> set w \<Longrightarrow> split_on c (w @ c # s) = w # split_on c s"
  by (induction w) auto

lemma split_on_join:
  "ws \<noteq> [] \<Longrightarrow> \<forall>w \<in> set ws. c \<notin> set w \<Longrightarrow> split_on c (join_with [c] ws) = ws"
  by (induction "[c]" ws rule: join_with.induct) (auto simp: split_on_plain split_on_append)

text \<open>Whitespace only separates words: words of text without any survive being joined by a space.\<close>

definition is_word :: "string \<Rightarrow> bool" where
  "is_word w \<longleftrightarrow> w \<noteq> [] \<and> list_all plain w"

lemma str_chars_word: "list_all plain w \<Longrightarrow> str_chars w = map (\<lambda>c. [c]) w"
  by (rule str_chars_ascii) (auto simp: list_all_iff plain_def)

lemma str_chars_append: "list_all plain w \<Longrightarrow> \<not> is_continuation c \<Longrightarrow> str_chars (w @ c # s) = map (\<lambda>c. [c]) w @ str_chars (c # s)"
proof (induction w)
  case (Cons x w)
  then have "takeWhile is_continuation (w @ c # s) = []" "dropWhile is_continuation (w @ c # s) = w @ c # s"
    by (cases w; auto simp: plain_def)+
  with Cons show ?case by simp
qed simp

lemma split_words_word: "list_all plain w \<Longrightarrow> split_words (map (\<lambda>c. [c]) w @ cs) v = split_words cs (v @ w)"
  by (induction w arbitrary: v) (auto simp: plain_def)

lemma space_facts [simp]: "is_whitespace '' ''" "\<not> is_continuation CHR '' ''"
  by (simp_all add: is_whitespace_single is_continuation_def)

lemma word_starts: "is_word w \<Longrightarrow> takeWhile is_continuation (w @ s) = [] \<and> dropWhile is_continuation (w @ s) = w @ s"
  by (cases w) (auto simp: is_word_def plain_def)

lemma join_words_starts:
  "list_all is_word ws \<Longrightarrow> takeWhile is_continuation (join_with s ws) = [] \<and> dropWhile is_continuation (join_with s ws) = join_with s ws"
proof (induction s ws rule: join_with.induct)
  case (2 sep w) then show ?case using word_starts [of w "[]"] by simp
next
  case (3 sep w v ws) then show ?case using word_starts [of w "sep @ join_with sep (v # ws)"] by simp
qed simp

lemma split_whitespace_join: "list_all is_word ws \<Longrightarrow> split_whitespace (join_with '' '' ws) = ws"
proof (induction "'' ''" ws rule: join_with.induct)
  case 1
  then show ?case by (simp add: split_whitespace_def)
next
  case (2 w)
  then show ?case
    using split_words_word [of w "[]" "[]"] by (simp add: split_whitespace_def str_chars_word is_word_def)
next
  case (3 w v ws)
  then have w: "list_all plain w" "w \<noteq> []" by (simp_all add: is_word_def)
  let ?rest = "join_with '' '' (v # ws)"
  have "str_chars (w @ '' '' @ ?rest) = map (\<lambda>c. [c]) w @ '' '' # str_chars ?rest"
    using str_chars_append [OF w(1), of "CHR '' ''" ?rest] join_words_starts [of "v # ws" "'' ''"] 3(2) by simp
  with w 3 show ?case
    by (simp add: split_whitespace_def split_words_word)
qed

lemma trim_end_word: "is_word w \<Longrightarrow> trim_end (s @ w) = s @ w" if "\<forall>c \<in> set s. \<not> is_continuation c" for s
proof -
  assume w: "is_word w"
  then obtain v c where v: "w = v @ [c]" by (metis is_word_def rev_exhaust)
  with w that have "\<forall>c \<in> set (s @ w). \<not> is_continuation c"
    by (auto simp: is_word_def list_all_iff plain_def)
  from str_chars_ascii [OF this] v w show ?thesis
    by (simp add: trim_end_def is_word_def plain_def rev_map)
qed

end
