(* ===== verification/Server_Handle.thy ===== *)
theory Server_Handle
  imports Server Text_Words
begin

text \<open>
  The local side of the server (\<open>server/src/server_handle.rs\<close>): points of the machines read and
  written by name, typed or as text, on the stores the request handlers use. An operation that
  writes returns the new handle, or an error and no handle: every error is returned before
  anything is written. Parsing and printing of floats are arguments.
\<close>

section \<open>State and errors\<close>

datatype ServerHandleError =
    UnknownMachine string
  | UnknownPoint string
  | ReadOnlyPoint string
  | InvalidValue string
  | TypeMismatch DataType DataType

record ServerHandleMachine =
  description :: MachineDescription
  stores :: MachineStores

record ServerHandle =
  machines :: "string \<rightharpoonup> ServerHandleMachine"

definition format_hex :: "bytes \<Rightarrow> string" where
  "format_hex bs = join_with '' '' (map show_hex_byte bs)"

definition mark_write_ok :: "string \<Rightarrow> MachineStores \<Rightarrow> MachineStores" where
  "mark_write_ok point_name st = st\<lparr>MachineStores.report := WriteReport_set point_name WriteOk (MachineStores.report st)\<rparr>"

text \<open>\<open>stores\<close> was built from the same machines: a missing entry is the panic of \<open>expect\<close>.\<close>

definition ServerHandle_new :: "MachineDescription list \<Rightarrow> (string \<rightharpoonup> MachineStores) \<Rightarrow> (ServerHandle, 'e) result" where
  "ServerHandle_new ms sts =
     map_ok (\<lambda>entries. \<lparr>ServerHandle.machines = entries\<rparr>)
       (for_each (\<lambda>machine entries.
          case sts (MachineDescription.name machine) of
            None \<Rightarrow> Panic
          | Some st \<Rightarrow> Ok (entries(MachineDescription.name machine
                \<mapsto> \<lparr>ServerHandleMachine.description = machine, stores = st\<rparr>))) ms Map.empty)"

definition ServerHandle_machine :: "ServerHandle \<Rightarrow> string \<Rightarrow> (ServerHandleMachine, ServerHandleError) result" where
  "ServerHandle_machine h machine_name = ok_or (UnknownMachine machine_name) (ServerHandle.machines h machine_name)"

definition machine_names :: "ServerHandle \<Rightarrow> string set" where
  "machine_names h = dom (ServerHandle.machines h)"

definition ServerHandle_registers :: "ServerHandle \<Rightarrow> string \<Rightarrow> (RegisterDescription list, ServerHandleError) result" where
  "ServerHandle_registers h mn =
     map_ok (\<lambda>m. MachineDescription.registers (ServerHandleMachine.description m)) (ServerHandle_machine h mn)"

definition ServerHandle_coils :: "ServerHandle \<Rightarrow> string \<Rightarrow> (CoilDescription list, ServerHandleError) result" where
  "ServerHandle_coils h mn =
     map_ok (\<lambda>m. MachineDescription.coils (ServerHandleMachine.description m)) (ServerHandle_machine h mn)"

definition ServerHandle_discrete_inputs ::
    "ServerHandle \<Rightarrow> string \<Rightarrow> (DiscreteInputDescription list, ServerHandleError) result" where
  "ServerHandle_discrete_inputs h mn =
     map_ok (\<lambda>m. MachineDescription.discrete_inputs (ServerHandleMachine.description m)) (ServerHandle_machine h mn)"

definition ServerHandle_input_registers ::
    "ServerHandle \<Rightarrow> string \<Rightarrow> (InputRegisterDescription list, ServerHandleError) result" where
  "ServerHandle_input_registers h mn =
     map_ok (\<lambda>m. MachineDescription.input_registers (ServerHandleMachine.description m)) (ServerHandle_machine h mn)"

definition ServerHandle_file_records ::
    "ServerHandle \<Rightarrow> string \<Rightarrow> (FileRecordDescription list, ServerHandleError) result" where
  "ServerHandle_file_records h mn =
     map_ok (\<lambda>m. MachineDescription.file_records (ServerHandleMachine.description m)) (ServerHandle_machine h mn)"

text \<open>What the locks are taken for: one store of one machine is replaced.\<close>

definition update_stores :: "string \<Rightarrow> (MachineStores \<Rightarrow> MachineStores) \<Rightarrow> ServerHandle \<Rightarrow> ServerHandle" where
  "update_stores mn f h = h\<lparr>ServerHandle.machines := (ServerHandle.machines h)
     (mn := map_option (\<lambda>m. m\<lparr>ServerHandleMachine.stores := f (ServerHandleMachine.stores m)\<rparr>)
              (ServerHandle.machines h mn))\<rparr>"

section \<open>Typed access\<close>

definition find_register :: "MachineDescription \<Rightarrow> string \<Rightarrow> RegisterDescription option" where
  "find_register d pn = List.find (\<lambda>r. RegisterDescription.name r = pn) (MachineDescription.registers d)"

definition find_input_register :: "MachineDescription \<Rightarrow> string \<Rightarrow> InputRegisterDescription option" where
  "find_input_register d pn = List.find (\<lambda>r. InputRegisterDescription.name r = pn) (MachineDescription.input_registers d)"

definition has_coil :: "MachineDescription \<Rightarrow> string \<Rightarrow> bool" where
  "has_coil d pn \<longleftrightarrow> list_ex (\<lambda>c. CoilDescription.name c = pn) (MachineDescription.coils d)"

definition has_discrete_input :: "MachineDescription \<Rightarrow> string \<Rightarrow> bool" where
  "has_discrete_input d pn \<longleftrightarrow> list_ex (\<lambda>c. DiscreteInputDescription.name c = pn) (MachineDescription.discrete_inputs d)"

definition file_record_name :: "u16 \<Rightarrow> u16 \<Rightarrow> string" where
  "file_record_name f r = show_nat (unat f) @ '':'' @ show_nat (unat r)"

definition ServerHandle_set_register ::
    "string \<Rightarrow> string \<Rightarrow> RegisterValue \<Rightarrow> ServerHandle \<Rightarrow> (ServerHandle, ServerHandleError) result" where
  "ServerHandle_set_register mn pn v h =
     and_then (ServerHandle_machine h mn) (\<lambda>m.
     and_then (ok_or (UnknownPoint pn) (find_register (ServerHandleMachine.description m) pn)) (\<lambda>register.
     if RegisterDescription.access register \<noteq> ReadWrite then Err (ReadOnlyPoint pn)
     else if data_type_of v \<noteq> RegisterDescription.data_type register
     then Err (TypeMismatch (RegisterDescription.data_type register) (data_type_of v))
     else Ok (update_stores mn (\<lambda>st. mark_write_ok pn
            (st\<lparr>MachineStores.registers := RegisterStore_set pn v (MachineStores.registers st)\<rparr>)) h)))"

definition ServerHandle_get_register ::
    "string \<Rightarrow> string \<Rightarrow> ServerHandle \<Rightarrow> (RegisterValue, ServerHandleError) result" where
  "ServerHandle_get_register mn pn h =
     and_then (ServerHandle_machine h mn) (\<lambda>m.
     and_then (ok_or (UnknownPoint pn) (find_register (ServerHandleMachine.description m) pn)) (\<lambda>register.
     Ok (case RegisterStore_get (MachineStores.registers (ServerHandleMachine.stores m)) pn of
           Some v \<Rightarrow> v | None \<Rightarrow> default_register_value (RegisterDescription.data_type register))))"

definition ServerHandle_set_coil ::
    "string \<Rightarrow> string \<Rightarrow> CoilValue \<Rightarrow> ServerHandle \<Rightarrow> (ServerHandle, ServerHandleError) result" where
  "ServerHandle_set_coil mn pn v h =
     and_then (ServerHandle_machine h mn) (\<lambda>m.
     if \<not> has_coil (ServerHandleMachine.description m) pn then Err (UnknownPoint pn)
     else Ok (update_stores mn (\<lambda>st. mark_write_ok pn
            (st\<lparr>MachineStores.coils := CoilStore_set pn v (MachineStores.coils st)\<rparr>)) h))"

definition ServerHandle_get_coil :: "string \<Rightarrow> string \<Rightarrow> ServerHandle \<Rightarrow> (CoilValue, ServerHandleError) result" where
  "ServerHandle_get_coil mn pn h =
     and_then (ServerHandle_machine h mn) (\<lambda>m.
     if \<not> has_coil (ServerHandleMachine.description m) pn then Err (UnknownPoint pn)
     else Ok (case CoilStore_get (MachineStores.coils (ServerHandleMachine.stores m)) pn of
                Some v \<Rightarrow> v | None \<Rightarrow> CoilValue False))"

definition ServerHandle_set_discrete_input ::
    "string \<Rightarrow> string \<Rightarrow> CoilValue \<Rightarrow> ServerHandle \<Rightarrow> (ServerHandle, ServerHandleError) result" where
  "ServerHandle_set_discrete_input mn pn v h =
     and_then (ServerHandle_machine h mn) (\<lambda>m.
     if \<not> has_discrete_input (ServerHandleMachine.description m) pn then Err (UnknownPoint pn)
     else Ok (update_stores mn (\<lambda>st.
            st\<lparr>MachineStores.discrete_inputs := DiscreteInputStore_set pn v (MachineStores.discrete_inputs st)\<rparr>) h))"

definition ServerHandle_get_discrete_input ::
    "string \<Rightarrow> string \<Rightarrow> ServerHandle \<Rightarrow> (CoilValue, ServerHandleError) result" where
  "ServerHandle_get_discrete_input mn pn h =
     and_then (ServerHandle_machine h mn) (\<lambda>m.
     if \<not> has_discrete_input (ServerHandleMachine.description m) pn then Err (UnknownPoint pn)
     else Ok (case DiscreteInputStore_get (MachineStores.discrete_inputs (ServerHandleMachine.stores m)) pn of
                Some v \<Rightarrow> v | None \<Rightarrow> CoilValue False))"

definition ServerHandle_set_input_register ::
    "string \<Rightarrow> string \<Rightarrow> RegisterValue \<Rightarrow> ServerHandle \<Rightarrow> (ServerHandle, ServerHandleError) result" where
  "ServerHandle_set_input_register mn pn v h =
     and_then (ServerHandle_machine h mn) (\<lambda>m.
     and_then (ok_or (UnknownPoint pn) (find_input_register (ServerHandleMachine.description m) pn)) (\<lambda>input_register.
     if data_type_of v \<noteq> InputRegisterDescription.data_type input_register
     then Err (TypeMismatch (InputRegisterDescription.data_type input_register) (data_type_of v))
     else Ok (update_stores mn (\<lambda>st.
            st\<lparr>MachineStores.input_registers := InputRegisterStore_set pn v (MachineStores.input_registers st)\<rparr>) h)))"

definition ServerHandle_get_input_register ::
    "string \<Rightarrow> string \<Rightarrow> ServerHandle \<Rightarrow> (RegisterValue, ServerHandleError) result" where
  "ServerHandle_get_input_register mn pn h =
     and_then (ServerHandle_machine h mn) (\<lambda>m.
     and_then (ok_or (UnknownPoint pn) (find_input_register (ServerHandleMachine.description m) pn)) (\<lambda>input_register.
     Ok (case InputRegisterStore_get (MachineStores.input_registers (ServerHandleMachine.stores m)) pn of
           Some v \<Rightarrow> v | None \<Rightarrow> default_register_value (InputRegisterDescription.data_type input_register))))"

definition ServerHandle_set_file_record ::
    "string \<Rightarrow> u16 \<Rightarrow> u16 \<Rightarrow> bytes \<Rightarrow> ServerHandle \<Rightarrow> (ServerHandle, ServerHandleError) result" where
  "ServerHandle_set_file_record mn f r bs h =
     and_then (ServerHandle_machine h mn) (\<lambda>m.
     if find_file_record (MachineDescription.file_records (ServerHandleMachine.description m)) f r = None
     then Err (UnknownPoint (file_record_name f r))
     else Ok (update_stores mn (\<lambda>st.
            st\<lparr>MachineStores.file_records := FileRecordStore_set (f, r) bs (MachineStores.file_records st)\<rparr>) h))"

definition ServerHandle_get_file_record ::
    "string \<Rightarrow> u16 \<Rightarrow> u16 \<Rightarrow> ServerHandle \<Rightarrow> (bytes, ServerHandleError) result" where
  "ServerHandle_get_file_record mn f r h =
     and_then (ServerHandle_machine h mn) (\<lambda>m.
     and_then (ok_or (UnknownPoint (file_record_name f r))
        (find_file_record (MachineDescription.file_records (ServerHandleMachine.description m)) f r)) (\<lambda>entry.
     Ok (case FileRecordStore_get (MachineStores.file_records (ServerHandleMachine.stores m)) (f, r) of
           Some bs \<Rightarrow> bs | None \<Rightarrow> replicate (2 * unat (FileRecordDescription.record_length entry)) 0)))"

section \<open>Access as text\<close>

definition ServerHandle_set ::
    "(string \<Rightarrow> u32 option) \<Rightarrow> (string \<Rightarrow> u64 option) \<Rightarrow> string \<Rightarrow> string \<Rightarrow> string \<Rightarrow> ServerHandle
     \<Rightarrow> (ServerHandle, ServerHandleError) result" where
  "ServerHandle_set parse_f32 parse_f64 mn pn raw_value h =
     and_then (ServerHandle_machine h mn) (\<lambda>m.
     let d = ServerHandleMachine.description m in
     case find_register d pn of
       Some register \<Rightarrow>
         and_then (ok_or (InvalidValue raw_value)
             (parse_register_value parse_f32 parse_f64 (RegisterDescription.data_type register) raw_value)) (\<lambda>v.
         ServerHandle_set_register mn pn v h)
     | None \<Rightarrow>
     if has_coil d pn then
       and_then (ok_or (InvalidValue raw_value) (parse_coil_value raw_value)) (\<lambda>v. ServerHandle_set_coil mn pn v h)
     else if has_discrete_input d pn then
       and_then (ok_or (InvalidValue raw_value) (parse_coil_value raw_value)) (\<lambda>v.
       ServerHandle_set_discrete_input mn pn v h)
     else case find_input_register d pn of
       Some input_register \<Rightarrow>
         and_then (ok_or (InvalidValue raw_value)
             (parse_register_value parse_f32 parse_f64 (InputRegisterDescription.data_type input_register) raw_value)) (\<lambda>v.
         ServerHandle_set_input_register mn pn v h)
     | None \<Rightarrow>
     case parse_file_record_name pn of
       Some (f, r) \<Rightarrow>
         if find_file_record (MachineDescription.file_records d) f r \<noteq> None then
           and_then (parse_file_record_value raw_value) (\<lambda>parsed.
           and_then (ok_or (InvalidValue raw_value) parsed) (\<lambda>bs. ServerHandle_set_file_record mn f r bs h))
         else Err (UnknownPoint pn)
     | None \<Rightarrow> Err (UnknownPoint pn))"

definition ServerHandle_get ::
    "(u32 \<Rightarrow> string) \<Rightarrow> (u64 \<Rightarrow> string) \<Rightarrow> string \<Rightarrow> string \<Rightarrow> ServerHandle
     \<Rightarrow> (string, ServerHandleError) result" where
  "ServerHandle_get show_f32 show_f64 mn pn h =
     and_then (ServerHandle_machine h mn) (\<lambda>m.
     let d = ServerHandleMachine.description m in
     if find_register d pn \<noteq> None then
       map_ok (RegisterValue_display show_f32 show_f64) (ServerHandle_get_register mn pn h)
     else if has_coil d pn then map_ok CoilValue_display (ServerHandle_get_coil mn pn h)
     else if has_discrete_input d pn then map_ok CoilValue_display (ServerHandle_get_discrete_input mn pn h)
     else if find_input_register d pn \<noteq> None then
       map_ok (RegisterValue_display show_f32 show_f64) (ServerHandle_get_input_register mn pn h)
     else case parse_file_record_name pn of
       Some (f, r) \<Rightarrow>
         if find_file_record (MachineDescription.file_records d) f r \<noteq> None
         then map_ok format_hex (ServerHandle_get_file_record mn f r h)
         else Err (UnknownPoint pn)
     | None \<Rightarrow> Err (UnknownPoint pn))"

section \<open>What a local write changes\<close>

lemmas handle_defs = ServerHandle_set_register_def ServerHandle_get_register_def ServerHandle_set_coil_def
  ServerHandle_get_coil_def ServerHandle_set_discrete_input_def ServerHandle_get_discrete_input_def
  ServerHandle_set_input_register_def ServerHandle_get_input_register_def ServerHandle_set_file_record_def
  ServerHandle_get_file_record_def ServerHandle_machine_def

text \<open>The value a text stands for at a point, and what it is written to.\<close>

datatype point_write =
    WriteRegister RegisterValue
  | WriteCoil CoilValue
  | WriteDiscreteInput CoilValue
  | WriteInputRegister RegisterValue
  | WriteRecord u16 u16 bytes

fun point_written :: "string \<Rightarrow> point_write \<Rightarrow> MachineStores \<Rightarrow> MachineStores" where
  "point_written pn (WriteRegister v) st = mark_write_ok pn
     (st\<lparr>MachineStores.registers := RegisterStore_set pn v (MachineStores.registers st)\<rparr>)"
| "point_written pn (WriteCoil v) st = mark_write_ok pn
     (st\<lparr>MachineStores.coils := CoilStore_set pn v (MachineStores.coils st)\<rparr>)"
| "point_written pn (WriteDiscreteInput v) st =
     st\<lparr>MachineStores.discrete_inputs := DiscreteInputStore_set pn v (MachineStores.discrete_inputs st)\<rparr>"
| "point_written pn (WriteInputRegister v) st =
     st\<lparr>MachineStores.input_registers := InputRegisterStore_set pn v (MachineStores.input_registers st)\<rparr>"
| "point_written pn (WriteRecord f r bs) st =
     st\<lparr>MachineStores.file_records := FileRecordStore_set (f, r) bs (MachineStores.file_records st)\<rparr>"

text \<open>What a machine admits to be written at a point.\<close>

fun admits :: "MachineDescription \<Rightarrow> string \<Rightarrow> point_write \<Rightarrow> bool" where
  "admits d pn (WriteRegister v) \<longleftrightarrow> (\<exists>r. find_register d pn = Some r \<and> RegisterDescription.access r = ReadWrite
     \<and> data_type_of v = RegisterDescription.data_type r)"
| "admits d pn (WriteCoil v) \<longleftrightarrow> find_register d pn = None \<and> has_coil d pn"
| "admits d pn (WriteDiscreteInput v) \<longleftrightarrow> find_register d pn = None \<and> \<not> has_coil d pn \<and> has_discrete_input d pn"
| "admits d pn (WriteInputRegister v) \<longleftrightarrow> find_register d pn = None \<and> \<not> has_coil d pn \<and> \<not> has_discrete_input d pn
     \<and> (\<exists>r. find_input_register d pn = Some r \<and> data_type_of v = InputRegisterDescription.data_type r)"
| "admits d pn (WriteRecord f r bs) \<longleftrightarrow> find_register d pn = None \<and> \<not> has_coil d pn \<and> \<not> has_discrete_input d pn
     \<and> find_input_register d pn = None \<and> parse_file_record_name pn = Some (f, r)
     \<and> find_file_record (MachineDescription.file_records d) f r \<noteq> None"

text \<open>The text such a value is read back as.\<close>

fun printed :: "(u32 \<Rightarrow> string) \<Rightarrow> (u64 \<Rightarrow> string) \<Rightarrow> point_write \<Rightarrow> string" where
  "printed show_f32 show_f64 (WriteRegister v) = RegisterValue_display show_f32 show_f64 v"
| "printed show_f32 show_f64 (WriteCoil v) = CoilValue_display v"
| "printed show_f32 show_f64 (WriteDiscreteInput v) = CoilValue_display v"
| "printed show_f32 show_f64 (WriteInputRegister v) = RegisterValue_display show_f32 show_f64 v"
| "printed show_f32 show_f64 (WriteRecord f r bs) = format_hex bs"

text \<open>The value a text is parsed to.\<close>

fun parsed_as :: "(string \<Rightarrow> u32 option) \<Rightarrow> (string \<Rightarrow> u64 option) \<Rightarrow> string \<Rightarrow> point_write \<Rightarrow> bool" where
  "parsed_as parse_f32 parse_f64 raw (WriteRegister v) \<longleftrightarrow> parse_register_value parse_f32 parse_f64 (data_type_of v) raw = Some v"
| "parsed_as parse_f32 parse_f64 raw (WriteCoil v) \<longleftrightarrow> parse_coil_value raw = Some v"
| "parsed_as parse_f32 parse_f64 raw (WriteDiscreteInput v) \<longleftrightarrow> parse_coil_value raw = Some v"
| "parsed_as parse_f32 parse_f64 raw (WriteInputRegister v) \<longleftrightarrow> parse_register_value parse_f32 parse_f64 (data_type_of v) raw = Some v"
| "parsed_as parse_f32 parse_f64 raw (WriteRecord f r bs) \<longleftrightarrow> parse_file_record_value raw = (Ok (Some bs) :: (bytes option, ServerHandleError) result)"

lemma machines_update_stores [simp]:
  "ServerHandle.machines (update_stores mn f h) mn' =
     (if mn' = mn then map_option (\<lambda>m. m\<lparr>ServerHandleMachine.stores := f (ServerHandleMachine.stores m)\<rparr>) (ServerHandle.machines h mn)
      else ServerHandle.machines h mn')"
  by (simp add: update_stores_def)

lemma parse_register_value_type:
  "parse_register_value parse_f32 parse_f64 dt raw = Some v \<Longrightarrow> data_type_of v = dt"
  by (cases dt) (auto simp: parse_register_value_def Let_def split: option.splits if_splits)

lemma ok_or_eq_Ok_iff [simp]: "ok_or e x = Ok y \<longleftrightarrow> x = Some y"
  by (cases x) simp_all

text \<open>
  A text is accepted exactly when the point admits the value it stands for, and then that value
  is all that is written.
\<close>

lemmas point_written_fun = point_written.simps [THEN eq_reflection, abs_def, THEN meta_eq_to_obj_eq]

lemma ex_point_write:
  "(\<exists>w. P w) \<longleftrightarrow> (\<exists>v. P (WriteRegister v)) \<or> (\<exists>v. P (WriteCoil v)) \<or> (\<exists>v. P (WriteDiscreteInput v))
     \<or> (\<exists>v. P (WriteInputRegister v)) \<or> (\<exists>f r bs. P (WriteRecord f r bs))"
  by (metis point_write.exhaust)

lemma ServerHandle_set_iff:
  "ServerHandle_set parse_f32 parse_f64 mn pn raw h = Ok h' \<longleftrightarrow>
     (\<exists>m w. ServerHandle.machines h mn = Some m \<and> admits (ServerHandleMachine.description m) pn w
        \<and> parsed_as parse_f32 parse_f64 raw w \<and> h' = update_stores mn (point_written pn w) h)"
proof (cases "ServerHandle.machines h mn")
  case None
  then show ?thesis by (simp add: ServerHandle_set_def ServerHandle_machine_def)
next
  case (Some m)
  let ?d = "ServerHandleMachine.description m"
  note defs = ServerHandle_set_def handle_defs Some Let_def and_then_eq_Ok_iff ex_point_write point_written_fun
  show ?thesis
  proof (cases "find_register ?d pn")
    case r: (Some r)
    then show ?thesis by (auto simp: defs dest: parse_register_value_type)
  next
    case r: None
    show ?thesis
    proof (cases "has_coil ?d pn \<or> has_discrete_input ?d pn")
      case True
      with r show ?thesis by (auto simp: defs)
    next
      case bits: False
      show ?thesis
      proof (cases "find_input_register ?d pn")
        case (Some i)
        with r bits show ?thesis by (auto simp: defs dest: parse_register_value_type)
      next
        case None
        with r bits show ?thesis
          by (cases "parse_file_record_name pn") (auto simp: defs split: prod.split if_splits)
      qed
    qed
  qed
qed

lemma get_written:
  assumes "ServerHandle.machines h mn = Some m" and "admits (ServerHandleMachine.description m) pn w"
  shows "ServerHandle_get show_f32 show_f64 mn pn (update_stores mn (point_written pn w) h) = Ok (printed show_f32 show_f64 w)"
  using assms
  by (cases w) (auto simp: ServerHandle_get_def handle_defs mark_write_ok_def Let_def register_store.get_set
      input_register_store.get_set coil_store.get_set discrete_input_store.get_set file_record_store.get_set)

lemma get_not_written:
  assumes "mn' \<noteq> mn \<or> pn' \<noteq> pn \<and> (parse_file_record_name pn' = None \<or> parse_file_record_name pn' \<noteq> parse_file_record_name pn)"
    and "ServerHandle.machines h mn = Some m" and "admits (ServerHandleMachine.description m) pn w"
  shows "ServerHandle_get show_f32 show_f64 mn' pn' (update_stores mn (point_written pn w) h)
    = ServerHandle_get show_f32 show_f64 mn' pn' h"
proof (cases "mn' = mn")
  case True
  with assms show ?thesis
    by (cases w) (auto simp: ServerHandle_get_def handle_defs mark_write_ok_def Let_def register_store.get_set
      input_register_store.get_set coil_store.get_set discrete_input_store.get_set file_record_store.get_set
      split: option.split)
next
  case False
  then show ?thesis by (simp add: ServerHandle_get_def handle_defs cong: if_cong option.case_cong)
qed

end
