(* ===== verification/Data_Socket.thy ===== *)
theory Data_Socket
  imports Server_Handle Polling_Mirror Write_Confirmation
begin

text \<open>
  The data socket (\<open>server/src/data_daemon.rs\<close>) and the server as a whole: lines on the socket and
  requests of Modbus masters, in any order, on the stores \<open>main.rs\<close> builds and shares. The quoting
  of a string by \<open>{:?}\<close> is an argument, as are the texts of floats.
\<close>

section \<open>The line protocol\<close>

datatype DataCommand =
    DataSet string string string
  | DataGet string string

definition DataCommand_parse :: "(string \<Rightarrow> string) \<Rightarrow> string \<Rightarrow> (DataCommand, string) result" where
  "DataCommand_parse show_debug line =
     (case split_whitespace line of
        [] \<Rightarrow> Err ''empty command''
      | verb # words \<Rightarrow>
          if verb = ''SET'' then
            (case words of
               [] \<Rightarrow> Err ''SET requires a machine argument''
             | machine # words \<Rightarrow>
                 (case words of
                    [] \<Rightarrow> Err ''SET requires a point argument''
                  | point # remaining \<Rightarrow>
                      if remaining = [] then Err ''SET requires a value argument''
                      else Ok (DataSet machine point (join_with '' '' remaining))))
          else if verb = ''GET'' then
            (case words of
               [] \<Rightarrow> Err ''GET requires a machine argument''
             | machine # words \<Rightarrow>
                 (case words of
                    [] \<Rightarrow> Err ''GET requires a point argument''
                  | point # rest \<Rightarrow>
                      if rest \<noteq> [] then Err ''GET takes exactly two arguments''
                      else Ok (DataGet machine point)))
          else Err (''unknown command '' @ show_debug verb))"

fun ServerHandleError_display :: "(string \<Rightarrow> string) \<Rightarrow> ServerHandleError \<Rightarrow> string" where
  "ServerHandleError_display show_debug (UnknownMachine nm) = ''unknown machine '' @ nm"
| "ServerHandleError_display show_debug (UnknownPoint nm) = ''unknown point '' @ nm"
| "ServerHandleError_display show_debug (ReadOnlyPoint nm) = nm @ '' is read-only''"
| "ServerHandleError_display show_debug (InvalidValue v) = ''invalid value '' @ show_debug v @ '' for this point's type''"
| "ServerHandleError_display show_debug (TypeMismatch expected got) =
     ''expected '' @ debug_data_type expected @ '', got '' @ debug_data_type got"

text \<open>The standard library's texts that are arguments.\<close>

record TextFunctions =
  parse_f32 :: "string \<Rightarrow> u32 option"
  parse_f64 :: "string \<Rightarrow> u64 option"
  show_f32 :: "u32 \<Rightarrow> string"
  show_f64 :: "u64 \<Rightarrow> string"
  show_debug :: "string \<Rightarrow> string"

definition apply_data_command ::
    "TextFunctions \<Rightarrow> DataCommand \<Rightarrow> ServerHandle \<Rightarrow> (string \<times> ServerHandle, 'e) result" where
  "apply_data_command tf command h =
     (case command of
        DataSet machine point raw \<Rightarrow>
          (case ServerHandle_set (parse_f32 tf) (parse_f64 tf) machine point raw h of
             Ok h' \<Rightarrow> Ok (''OK SET '' @ machine @ '' '' @ point, h')
           | Err e \<Rightarrow> Ok (''ERROR SET '' @ machine @ '' '' @ point @ '': ''
                 @ ServerHandleError_display (show_debug tf) e, h)
           | Panic \<Rightarrow> Panic)
      | DataGet machine point \<Rightarrow>
          (case ServerHandle_get (show_f32 tf) (show_f64 tf) machine point h of
             Ok v \<Rightarrow> Ok (''OK GET '' @ machine @ '' '' @ point @ '' '' @ v, h)
           | Err e \<Rightarrow> Ok (''ERROR GET '' @ machine @ '' '' @ point @ '': ''
                 @ ServerHandleError_display (show_debug tf) e, h)
           | Panic \<Rightarrow> Panic))"

definition handle_data_line :: "TextFunctions \<Rightarrow> string \<Rightarrow> ServerHandle \<Rightarrow> (string \<times> ServerHandle, 'e) result" where
  "handle_data_line tf line h =
     (case DataCommand_parse (show_debug tf) (trim_end line) of
        Ok command \<Rightarrow> apply_data_command tf command h
      | Err e \<Rightarrow> Ok (''ERROR '' @ e, h)
      | Panic \<Rightarrow> Panic)"

section \<open>The server\<close>

text \<open>
  \<open>main\<close> builds a machine's state for the request handlers from its description and its stores.
  The stores are shared (\<open>Arc\<close>), so what a handler leaves in them is what the handle finds.
\<close>

definition server_machine_state :: "MachineDescription \<Rightarrow> MachineStores \<Rightarrow> ServerMachineState" where
  "server_machine_state machine st =
     \<lparr>ServerMachineState.registers = MachineDescription.registers machine,
      store = MachineStores.registers st,
      coils = MachineDescription.coils machine,
      coil_store = MachineStores.coils st,
      discrete_inputs = MachineDescription.discrete_inputs machine,
      discrete_input_store = MachineStores.discrete_inputs st,
      input_registers = MachineDescription.input_registers machine,
      input_register_store = MachineStores.input_registers st,
      file_records = MachineDescription.file_records machine,
      file_record_store = MachineStores.file_records st,
      mem_layout = MachineDescription.mem_layout machine,
      input_register_mem_layout = MachineDescription.input_register_mem_layout machine,
      server_id = MachineDescription.server_id machine\<rparr>"

definition server_machines :: "MachineDescription list \<Rightarrow> (string \<rightharpoonup> MachineStores) \<Rightarrow> (machines, 'e) result" where
  "server_machines ms sts =
     for_each (\<lambda>machine acc.
        case sts (MachineDescription.name machine) of
          None \<Rightarrow> Panic
        | Some st \<Rightarrow> Ok (acc(MachineDescription.unit_id machine \<mapsto> server_machine_state machine st))) ms Map.empty"

definition shared_stores :: "ServerMachineState \<Rightarrow> MachineStores \<Rightarrow> MachineStores" where
  "shared_stores m st =
     st\<lparr>MachineStores.registers := store m, MachineStores.coils := coil_store m,
       MachineStores.discrete_inputs := discrete_input_store m,
       MachineStores.input_registers := input_register_store m,
       MachineStores.file_records := file_record_store m\<rparr>"

text \<open>The machine that is reached under a unit id: the last of the list, if several have it.\<close>

definition addressed :: "MachineDescription list \<Rightarrow> u8 \<Rightarrow> MachineDescription option" where
  "addressed ms uid = List.find (\<lambda>d. MachineDescription.unit_id d = uid) (rev ms)"

definition site_request ::
    "ServerOptions \<Rightarrow> string \<Rightarrow> Fc43BulkTransfer \<Rightarrow> MachineDescription list \<Rightarrow> u8 \<Rightarrow> bytes
     \<Rightarrow> (string \<rightharpoonup> MachineStores) \<Rightarrow> (bytes option \<times> (string \<rightharpoonup> MachineStores), 'e) result" where
  "site_request opts src bulk ms uid req sts =
     and_then (server_machines ms sts) (\<lambda>view.
     let (reply, view') = handle_request opts src bulk uid req view in
     and_then reply (\<lambda>answer.
     Ok (answer,
       case addressed ms uid of
         None \<Rightarrow> sts
       | Some d \<Rightarrow>
          (case (view' uid, sts (MachineDescription.name d)) of
             (Some m, Some st) \<Rightarrow> sts(MachineDescription.name d \<mapsto> shared_stores m st)
           | _ \<Rightarrow> sts))))"

definition site_line ::
    "TextFunctions \<Rightarrow> MachineDescription list \<Rightarrow> string \<Rightarrow> (string \<rightharpoonup> MachineStores)
     \<Rightarrow> (string \<times> (string \<rightharpoonup> MachineStores), 'e) result" where
  "site_line tf ms line sts =
     and_then (ServerHandle_new ms sts) (\<lambda>h.
     and_then (handle_data_line tf line h) (\<lambda>(response, h').
     Ok (response, \<lambda>nm. case ServerHandle.machines h' nm of
                          Some m \<Rightarrow> Some (ServerHandleMachine.stores m) | None \<Rightarrow> sts nm)))"

text \<open>The states of the server: requests and lines in any order, from the empty stores on.\<close>

inductive site ::
    "TextFunctions \<Rightarrow> ServerOptions \<Rightarrow> string \<Rightarrow> Fc43BulkTransfer \<Rightarrow> MachineDescription list
     \<Rightarrow> (string \<rightharpoonup> MachineStores) \<Rightarrow> bool"
  for tf opts src bulk ms where
  start: "site tf opts src bulk ms (build_machine_stores ms)"
| request: "site tf opts src bulk ms sts \<Longrightarrow>
     site_request opts src bulk ms uid req sts = (Ok (answer, sts') :: (_, io_error) result) \<Longrightarrow>
     site tf opts src bulk ms sts'"
| line: "site tf opts src bulk ms sts \<Longrightarrow>
     site_line tf ms l sts = (Ok (response, sts') :: (_, io_error) result) \<Longrightarrow>
     site tf opts src bulk ms sts'"

section \<open>Lines\<close>

lemma ServerHandle_get_not_Panic: "ServerHandle_get f32 f64 mn pn h \<noteq> Panic"
  by (auto simp: ServerHandle_get_def handle_defs Let_def and_then_eq_Panic_iff split: option.splits if_splits)

lemma DataCommand_parse_not_Panic: "DataCommand_parse sd l \<noteq> Panic"
  by (auto simp: DataCommand_parse_def split: list.splits)

text \<open>A line that changes anything is a SET of a value the point admits, and is answered OK.\<close>

lemma apply_data_command_effect:
  assumes "apply_data_command tf command h = Ok (response, h')" and "h' \<noteq> h"
  shows "\<exists>mn pn raw. response = ''OK SET '' @ mn @ '' '' @ pn
     \<and> ServerHandle_set (parse_f32 tf) (parse_f64 tf) mn pn raw h = Ok h'"
proof (cases command)
  case (DataSet mn pn raw)
  with assms show ?thesis
    by (cases "ServerHandle_set (parse_f32 tf) (parse_f64 tf) mn pn raw h")
       (simp_all only: apply_data_command_def DataCommand.case result.case result.inject prod.inject, blast+)
next
  case (DataGet mn pn)
  with assms show ?thesis
    by (cases "ServerHandle_get (show_f32 tf) (show_f64 tf) mn pn h")
       (simp_all only: apply_data_command_def DataCommand.case result.case result.inject prod.inject, blast+)
qed

lemma handle_data_line_effect:
  assumes "handle_data_line tf l h = (Ok (response, h') :: (_, 'e) result)" and "h' \<noteq> h"
  obtains mn pn raw m w where "response = ''OK SET '' @ mn @ '' '' @ pn" "ServerHandle.machines h mn = Some m"
    "admits (ServerHandleMachine.description m) pn w" "parsed_as (parse_f32 tf) (parse_f64 tf) raw w"
    "h' = update_stores mn (point_written pn w) h"
proof -
  have "\<exists>command. apply_data_command tf command h = (Ok (response, h') :: (_, 'e) result)"
    using assms by (cases "DataCommand_parse (show_debug tf) (trim_end l)") (auto simp: handle_data_line_def)
  then obtain command where "apply_data_command tf command h = (Ok (response, h') :: (_, 'e) result)" by blast
  from apply_data_command_effect [OF this assms(2)] show thesis
    unfolding ServerHandle_set_iff using that by blast
qed

section \<open>The shared stores\<close>

lemma find_append: "List.find P (xs @ ys) = (case List.find P xs of None \<Rightarrow> List.find P ys | Some x \<Rightarrow> Some x)"
  by (induction xs) simp_all

lemma for_each_upd:
  assumes "\<And>x acc. x \<in> set xs \<Longrightarrow> f x acc = (case g x of None \<Rightarrow> Panic | Some v \<Rightarrow> Ok (acc(k x \<mapsto> v)))"
    and "for_each f xs acc = Ok acc'"
  shows "acc' j = (case List.find (\<lambda>x. k x = j) (rev xs) of None \<Rightarrow> acc j | Some x \<Rightarrow> g x)"
  using assms
proof (induction xs arbitrary: acc)
  case (Cons x xs)
  have f: "f x acc = (case g x of None \<Rightarrow> Panic | Some v \<Rightarrow> Ok (acc(k x \<mapsto> v)))" using Cons.prems(1) by simp
  with Cons.prems(2) obtain v where v: "g x = Some v" and rest: "for_each f xs (acc(k x \<mapsto> v)) = Ok acc'"
    by (cases "g x") auto
  have "acc' j = (case List.find (\<lambda>x. k x = j) (rev xs) of None \<Rightarrow> (acc(k x \<mapsto> v)) j | Some x \<Rightarrow> g x)"
    using Cons.IH [OF Cons.prems(1) rest] by simp
  then show ?case using v by (auto simp: find_append split: option.split)
qed simp

lemma for_each_upd_total:
  assumes "\<And>x acc. x \<in> set xs \<Longrightarrow> \<exists>acc'. f x acc = Ok acc'"
  shows "\<exists>acc'. for_each f xs acc = Ok acc'"
  using assms
proof (induction xs arbitrary: acc)
  case (Cons x xs)
  obtain acc1 where "f x acc = Ok acc1" using Cons.prems [of x acc] by auto
  then show ?case using Cons by simp
qed simp

lemma server_machines_lookup:
  "server_machines ms sts = Ok view \<Longrightarrow>
     view uid = (case addressed ms uid of None \<Rightarrow> None | Some d \<Rightarrow>
       map_option (server_machine_state d) (sts (MachineDescription.name d)))"
  unfolding server_machines_def addressed_def
  by (subst for_each_upd [where g = "\<lambda>d. map_option (server_machine_state d) (sts (MachineDescription.name d))"])
     (auto split: option.split)

lemma ServerHandle_new_lookup:
  "ServerHandle_new ms sts = Ok h \<Longrightarrow>
     ServerHandle.machines h nm = (case List.find (\<lambda>d. MachineDescription.name d = nm) (rev ms) of None \<Rightarrow> None | Some d \<Rightarrow>
       map_option (\<lambda>st. \<lparr>ServerHandleMachine.description = d, stores = st\<rparr>) (sts nm))"
  unfolding ServerHandle_new_def
  by (cases "for_each (\<lambda>machine entries.
          case sts (MachineDescription.name machine) of
            None \<Rightarrow> Panic
          | Some st \<Rightarrow> Ok (entries(MachineDescription.name machine
                \<mapsto> \<lparr>ServerHandleMachine.description = machine, stores = st\<rparr>))) ms Map.empty :: (_, 'a) result")
     (auto dest!: for_each_upd [where g = "\<lambda>d. map_option (\<lambda>st. \<lparr>ServerHandleMachine.description = d, stores = st\<rparr>) (sts (MachineDescription.name d))", rotated]
       dest: find_Some_set split: option.splits)

text \<open>What holds of the stores of a machine, whoever writes.\<close>

definition stores_respect :: "MachineDescription \<Rightarrow> MachineStores \<Rightarrow> bool" where
  "stores_respect d st \<longleftrightarrow>
     (\<forall>r \<in> set (MachineDescription.registers d). \<forall>v.
        RegisterStore_get (MachineStores.registers st) (RegisterDescription.name r) = Some v \<longrightarrow>
        RegisterDescription.access r = ReadWrite \<and> data_type_of v = RegisterDescription.data_type r)
     \<and> (\<forall>r \<in> set (MachineDescription.input_registers d). \<forall>v.
        InputRegisterStore_get (MachineStores.input_registers st) (InputRegisterDescription.name r) = Some v \<longrightarrow>
        data_type_of v = InputRegisterDescription.data_type r)"

definition names_distinct :: "MachineDescription \<Rightarrow> bool" where
  "names_distinct d \<longleftrightarrow> distinct (map RegisterDescription.name (MachineDescription.registers d))
     \<and> distinct (map InputRegisterDescription.name (MachineDescription.input_registers d))"

lemma request_respects:
  assumes "machine_update (server_machine_state d st) m" and "names_distinct d" and "stores_respect d st"
  shows "stores_respect d (shared_stores m st)"
proof -
  have regs: "register_update (MachineDescription.registers d) (MachineStores.registers st) (store m)"
    and inputs: "input_register_store m = MachineStores.input_registers st"
    using assms(1) by (simp_all add: machine_update_def same_layout_def server_machine_state_def)
  show ?thesis
    using register_update_value [OF regs] assms(2,3) inputs
    by (force simp: stores_respect_def names_distinct_def shared_stores_def)
qed

lemma register_write_respects:
  assumes "stores_respect d st" and "names_distinct d" and "r \<in> set (MachineDescription.registers d)"
    and "RegisterDescription.access r = ReadWrite" and "data_type_of v = RegisterDescription.data_type r"
  shows "stores_respect d (st\<lparr>MachineStores.registers :=
     RegisterStore_set (RegisterDescription.name r) v (MachineStores.registers st)\<rparr>)"
proof -
  have "r' = r" if "r' \<in> set (MachineDescription.registers d)" "RegisterDescription.name r' = RegisterDescription.name r" for r'
    using inj_on_distinct_map [of RegisterDescription.name "MachineDescription.registers d" r' r] assms(2,3) that
    by (simp add: names_distinct_def)
  with assms show ?thesis by (auto simp: stores_respect_def register_store.get_set)
qed

lemma input_register_write_respects:
  assumes "stores_respect d st" and "names_distinct d" and "r \<in> set (MachineDescription.input_registers d)"
    and "data_type_of v = InputRegisterDescription.data_type r"
  shows "stores_respect d (st\<lparr>MachineStores.input_registers :=
     InputRegisterStore_set (InputRegisterDescription.name r) v (MachineStores.input_registers st)\<rparr>)"
proof -
  have "r' = r" if "r' \<in> set (MachineDescription.input_registers d)"
      "InputRegisterDescription.name r' = InputRegisterDescription.name r" for r'
    using inj_on_distinct_map [of InputRegisterDescription.name "MachineDescription.input_registers d" r' r] assms(2,3) that
    by (simp add: names_distinct_def)
  with assms show ?thesis by (auto simp: stores_respect_def input_register_store.get_set)
qed

lemma local_write_respects:
  assumes "admits d pn w" and "names_distinct d" and "stores_respect d st"
  shows "stores_respect d (point_written pn w st)"
proof (cases w)
  case (WriteRegister v)
  with assms(1) obtain r where "r \<in> set (MachineDescription.registers d)" "RegisterDescription.name r = pn"
    "RegisterDescription.access r = ReadWrite" "data_type_of v = RegisterDescription.data_type r"
    by (auto simp: find_register_def dest: find_Some_set)
  with register_write_respects [OF assms(3,2), of r v] WriteRegister show ?thesis
    by (simp add: mark_write_ok_def stores_respect_def)
next
  case (WriteInputRegister v)
  with assms(1) obtain r where "r \<in> set (MachineDescription.input_registers d)" "InputRegisterDescription.name r = pn"
    "data_type_of v = InputRegisterDescription.data_type r"
    by (auto simp: find_input_register_def dest: find_Some_set)
  with input_register_write_respects [OF assms(3,2), of r v] WriteInputRegister show ?thesis by simp
qed (use assms(3) in \<open>simp_all add: stores_respect_def mark_write_ok_def\<close>)

section \<open>Every state of the server\<close>

lemma find_machine_by_name:
  "distinct (map f xs) \<Longrightarrow> x \<in> set xs \<Longrightarrow> List.find (\<lambda>y. f y = f x) (rev xs) = Some x"
  using find_key [of f "rev xs" x "f x"] by (simp add: rev_map [symmetric])

definition all_respect :: "MachineDescription list \<Rightarrow> (string \<rightharpoonup> MachineStores) \<Rightarrow> bool" where
  "all_respect ms sts \<longleftrightarrow> (\<forall>d \<in> set ms. \<exists>st. sts (MachineDescription.name d) = Some st \<and> stores_respect d st)"

lemma build_machine_stores_lookup:
  "build_machine_stores ms nm = (if nm \<in> MachineDescription.name ` set ms then Some MachineStores_new else None)"
proof -
  have "foldl (\<lambda>stores machine. stores(MachineDescription.name machine \<mapsto> MachineStores_new)) acc ms nm
      = (if nm \<in> MachineDescription.name ` set ms then Some MachineStores_new else acc nm)" for acc
    by (induction ms arbitrary: acc) auto
  then show ?thesis by (simp add: build_machine_stores_def)
qed

lemma new_stores_respect: "stores_respect d MachineStores_new"
  by (simp add: stores_respect_def MachineStores_new_def register_store.get_new input_register_store.get_new)

lemma addressed_member: "addressed ms uid = Some d \<Longrightarrow> d \<in> set ms"
  by (auto simp: addressed_def dest: find_Some_set)

lemma site_request_respects:
  assumes "site_request opts src bulk ms uid req sts = (Ok (answer, sts') :: (_, 'e) result)"
    and "distinct (map MachineDescription.name ms)" and "\<forall>d \<in> set ms. names_distinct d" and "all_respect ms sts"
  shows "all_respect ms sts'"
proof -
  from assms(1) obtain view where view: "server_machines ms sts = (Ok view :: (machines, 'e) result)"
    unfolding site_request_def and_then_eq_Ok_iff by blast
  obtain reply view' where req: "handle_request opts src bulk uid req view = (reply :: (bytes option, 'e) result, view')"
    by fastforce
  have sts': "sts' = (case addressed ms uid of None \<Rightarrow> sts | Some d \<Rightarrow>
          (case (view' uid, sts (MachineDescription.name d)) of
             (Some m, Some st) \<Rightarrow> sts(MachineDescription.name d \<mapsto> shared_stores m st) | _ \<Rightarrow> sts))"
    using assms(1) by (cases reply) (simp_all add: site_request_def view req)
  show ?thesis
  proof (cases "addressed ms uid")
    case None with sts' assms(4) show ?thesis by simp
  next
    case (Some d)
    note d = addressed_member [OF Some]
    then obtain st where st: "sts (MachineDescription.name d) = Some st" "stores_respect d st"
      using assms(4) by (auto simp: all_respect_def)
    then have "view uid = Some (server_machine_state d st)"
      using server_machines_lookup [OF view, of uid] Some by simp
    then obtain m where m: "view' uid = Some m" "machine_update (server_machine_state d st) m"
      using handle_request_effect(2) [OF req] by auto
    have "stores_respect d (shared_stores m st)"
      using request_respects [OF m(2)] d assms(3) st(2) by blast
    moreover have "d' = d" if "d' \<in> set ms" "MachineDescription.name d' = MachineDescription.name d" for d'
      using inj_on_distinct_map [OF assms(2)] that d by blast
    ultimately show ?thesis
      using assms(4) Some m(1) st(1) by (auto simp: sts' all_respect_def)
  qed
qed

lemma site_line_respects:
  assumes "site_line tf ms l sts = (Ok (response, sts') :: (_, 'e) result)"
    and "distinct (map MachineDescription.name ms)" and "\<forall>d \<in> set ms. names_distinct d" and "all_respect ms sts"
  shows "all_respect ms sts'"
proof -
  from assms(1) obtain h h' where h: "ServerHandle_new ms sts = (Ok h :: (ServerHandle, 'e) result)"
    and l: "handle_data_line tf l h = (Ok (response, h') :: (_, 'e) result)"
    and sts': "sts' = (\<lambda>nm. case ServerHandle.machines h' nm of
                          Some m \<Rightarrow> Some (ServerHandleMachine.stores m) | None \<Rightarrow> sts nm)"
    unfolding site_line_def and_then_eq_Ok_iff by (auto simp: and_then_eq_Ok_iff)
  have lookup: "ServerHandle.machines h (MachineDescription.name d)
      = map_option (\<lambda>st. \<lparr>ServerHandleMachine.description = d, stores = st\<rparr>) (sts (MachineDescription.name d))"
    if "d \<in> set ms" for d
    using ServerHandle_new_lookup [OF h] find_machine_by_name [OF assms(2) that] by simp
  show ?thesis
  proof (cases "h' = h")
    case True
    then show ?thesis
      using assms(4) lookup by (force simp: all_respect_def sts')
  next
    case False
    then obtain mn pn raw m w where w: "ServerHandle.machines h mn = Some m"
      "admits (ServerHandleMachine.description m) pn w" "h' = update_stores mn (point_written pn w) h"
      using handle_data_line_effect [OF l] by metis
    show ?thesis
      unfolding all_respect_def
    proof
      fix d assume d: "d \<in> set ms"
      then obtain st where st: "sts (MachineDescription.name d) = Some st" "stores_respect d st"
        using assms(4) by (auto simp: all_respect_def)
      note look = lookup [OF d, unfolded st(1)]
      show "\<exists>st. sts' (MachineDescription.name d) = Some st \<and> stores_respect d st"
      proof (cases "MachineDescription.name d = mn")
        case True
        with w(1) look have "ServerHandleMachine.description m = d" "ServerHandleMachine.stores m = st" by auto
        with w True look local_write_respects [of d pn w st] assms(3) d st(2) show ?thesis
          by (simp add: sts')
      next
        case False
        with w look st show ?thesis by (simp add: sts')
      qed
    qed
  qed
qed

text \<open>
  C12: Nobody breaks the types. In every state the server can be in, after any requests of masters and any
  lines on the data socket in any order, a holding register has a value only if it is
  read-write, and then one of its type; the same holds of the types of input registers. So a register
  declared read-only reads as zero for ever: neither side can give it a value. Every
  request is answered in every such state. Names must be distinct, as the parser demands of machines.
\<close>

theorem every_writer_respects_the_description:
  assumes "site tf opts src bulk ms sts" and "distinct (map MachineDescription.name ms)"
    and "\<forall>d \<in> set ms. names_distinct d"
  shows "(\<forall>d \<in> set ms. \<exists>st. sts (MachineDescription.name d) = Some st
       \<and> (\<forall>r \<in> set (MachineDescription.registers d). \<forall>v.
            RegisterStore_get (MachineStores.registers st) (RegisterDescription.name r) = Some v \<longrightarrow>
            RegisterDescription.access r = ReadWrite \<and> data_type_of v = RegisterDescription.data_type r)
       \<and> (\<forall>r \<in> set (MachineDescription.input_registers d). \<forall>v.
            InputRegisterStore_get (MachineStores.input_registers st) (InputRegisterDescription.name r) = Some v \<longrightarrow>
            data_type_of v = InputRegisterDescription.data_type r))
     \<and> (\<exists>answer sts'. site_request opts src bulk ms uid req sts = (Ok (answer, sts') :: (_, io_error) result))"
proof -
  have all: "all_respect ms sts"
    using assms(1)
  proof induction
    case start
    show ?case by (simp add: all_respect_def build_machine_stores_lookup new_stores_respect)
  next
    case request
    then show ?case using site_request_respects assms(2,3) by blast
  next
    case line
    then show ?case using site_line_respects assms(2,3) by blast
  qed
  have "\<exists>view. server_machines ms sts = (Ok view :: (machines, io_error) result)"
    unfolding server_machines_def
    by (rule for_each_upd_total) (use all in \<open>auto simp: all_respect_def split: option.split\<close>)
  then obtain view where view: "server_machines ms sts = (Ok view :: (machines, io_error) result)" by blast
  obtain reply view' where req: "handle_request opts src bulk uid req view = (reply :: (bytes option, io_error) result, view')"
    by fastforce
  then obtain answer where "reply = Ok answer" using handle_request_effect(1) by blast
  then have "\<exists>answer sts'. site_request opts src bulk ms uid req sts = (Ok (answer, sts') :: (_, io_error) result)"
    by (simp add: site_request_def view req)
  with all show ?thesis by (simp add: all_respect_def stores_respect_def)
qed

definition sample_site :: "MachineDescription list" where
  "sample_site =
     [\<lparr>MachineDescription.name = ''plant'', unit_id = 1,
       registers =
         [\<lparr>RegisterDescription.name = ''flow'', address = 2, data_type = U16, access = ReadWrite, unit = None\<rparr>,
          \<lparr>RegisterDescription.name = ''level'', address = 1, data_type = U16, access = ReadOnly, unit = None\<rparr>],
       coils = [], discrete_inputs = [], input_registers = [],
       file_records = [\<lparr>FileRecordDescription.file_number = 4, record_number = 1, record_length = 2\<rparr>],
       mem_layout = Abcd, input_register_mem_layout = Abcd, server_id = None\<rparr>]"

definition no_floats :: TextFunctions where
  "no_floats = \<lparr>parse_f32 = (\<lambda>_. None), parse_f64 = (\<lambda>_. None), show_f32 = (\<lambda>_. []), show_f64 = (\<lambda>_. []),
     show_debug = (\<lambda>s. s)\<rparr>"

theorem every_writer_respects_the_description_witness:
  "\<exists>answer sts'. site_request all_options [] no_bulk sample_site 1 [6, 0, 2, 0, 9] (build_machine_stores sample_site)
      = (Ok (answer, sts') :: (_, io_error) result)"
  using every_writer_respects_the_description
    [OF site.start [of no_floats all_options "[]" no_bulk sample_site], where uid = 1 and req = "[6, 0, 2, 0, 9]"]
  by (simp add: sample_site_def names_distinct_def)

text \<open>
  C35: A local write is accepted exactly when the point admits what its text stands for: there is a
  machine of that name, a point of that name on it (register, coil, discrete input, input
  register or file record), the text parses as a value of the type of that point, and a
  register is read-write. Once accepted the value is what is read back, in its canonical text, and
  every other point of every machine reads as before (a file record under another spelling of
  its two numbers is the same point).
\<close>

theorem local_writes_read_back:
  "((\<exists>h'. ServerHandle_set pf32 pf64 mn pn raw h = Ok h') \<longleftrightarrow>
      (\<exists>m w. ServerHandle.machines h mn = Some m \<and> admits (ServerHandleMachine.description m) pn w
         \<and> parsed_as pf32 pf64 raw w))
   \<and> (\<forall>h'. ServerHandle_set pf32 pf64 mn pn raw h = Ok h' \<longrightarrow>
      (\<exists>m w. ServerHandle.machines h mn = Some m \<and> admits (ServerHandleMachine.description m) pn w
         \<and> parsed_as pf32 pf64 raw w
         \<and> ServerHandle_get sf32 sf64 mn pn h' = Ok (printed sf32 sf64 w)
         \<and> (\<forall>mn' pn'. mn' \<noteq> mn \<or> pn' \<noteq> pn \<and> (parse_file_record_name pn' = None
                \<or> parse_file_record_name pn' \<noteq> parse_file_record_name pn) \<longrightarrow>
              ServerHandle_get sf32 sf64 mn' pn' h' = ServerHandle_get sf32 sf64 mn' pn' h)))"
proof (intro conjI allI impI)
  show "(\<exists>h'. ServerHandle_set pf32 pf64 mn pn raw h = Ok h') \<longleftrightarrow>
      (\<exists>m w. ServerHandle.machines h mn = Some m \<and> admits (ServerHandleMachine.description m) pn w
         \<and> parsed_as pf32 pf64 raw w)"
    unfolding ServerHandle_set_iff by blast
next
  fix h'
  assume "ServerHandle_set pf32 pf64 mn pn raw h = Ok h'"
  then obtain m w where w: "ServerHandle.machines h mn = Some m" "admits (ServerHandleMachine.description m) pn w"
    "parsed_as pf32 pf64 raw w" "h' = update_stores mn (point_written pn w) h"
    unfolding ServerHandle_set_iff by blast
  then show "\<exists>m w. ServerHandle.machines h mn = Some m \<and> admits (ServerHandleMachine.description m) pn w
     \<and> parsed_as pf32 pf64 raw w
     \<and> ServerHandle_get sf32 sf64 mn pn h' = Ok (printed sf32 sf64 w)
     \<and> (\<forall>mn' pn'. mn' \<noteq> mn \<or> pn' \<noteq> pn \<and> (parse_file_record_name pn' = None
            \<or> parse_file_record_name pn' \<noteq> parse_file_record_name pn) \<longrightarrow>
          ServerHandle_get sf32 sf64 mn' pn' h' = ServerHandle_get sf32 sf64 mn' pn' h)"
    using get_written [OF w(1,2)] get_not_written [OF _ w(1,2)] by blast
qed

definition sample_handle :: ServerHandle where
  "sample_handle = \<lparr>ServerHandle.machines =
     [''plant'' \<mapsto> \<lparr>ServerHandleMachine.description = hd sample_site, stores = MachineStores_new\<rparr>]\<rparr>"

lemma sample_set:
  "\<exists>h'. ServerHandle_set (\<lambda>_. None) (\<lambda>_. None) ''plant'' ''flow'' ''0x1F'' sample_handle = Ok h'
     \<and> ServerHandle.machines h' ''plant'' = Some \<lparr>ServerHandleMachine.description = hd sample_site,
         stores = point_written ''flow'' (WriteRegister (RegU16 0x1F)) MachineStores_new\<rparr>"
proof -
  have "trim ''0x1F'' = ''0x1F''"
    using trim_plain [of "''0x1F''" "[]" "[]"] by (simp add: plain_def is_continuation_def is_whitespace_single)
  then have "parse_register_value (\<lambda>_. None) (\<lambda>_. None) U16 ''0x1F'' = Some (RegU16 0x1F)"
    by (simp add: parse_register_value_def parse_unsigned_def parse_hex_or_decimal_def strip_prefix_def
        from_str_radix_unsigned_def strip_plus_def magnitude_def to_digit_def)
  then show ?thesis
    unfolding ServerHandle_set_iff
    by (intro exI [of _ "update_stores ''plant'' (point_written ''flow'' (WriteRegister (RegU16 0x1F))) sample_handle"]
        conjI exI [of _ "\<lparr>ServerHandleMachine.description = hd sample_site, stores = MachineStores_new\<rparr>"]
        exI [of _ "WriteRegister (RegU16 0x1F)"])
       (simp_all add: sample_handle_def sample_site_def find_register_def)
qed

theorem local_writes_read_back_witness:
  "\<exists>h'. ServerHandle_set (\<lambda>_. None) (\<lambda>_. None) ''plant'' ''flow'' ''0x1F'' sample_handle = Ok h'
     \<and> ServerHandle_get (\<lambda>_. []) (\<lambda>_. []) ''plant'' ''level'' h' = ServerHandle_get (\<lambda>_. []) (\<lambda>_. []) ''plant'' ''level'' sample_handle"
proof -
  obtain h' where h': "ServerHandle_set (\<lambda>_. None) (\<lambda>_. None) ''plant'' ''flow'' ''0x1F'' sample_handle = Ok h'"
    using sample_set by blast
  have "parse_file_record_name ''level'' = None" by (simp add: parse_file_record_name_def split_once_def)
  moreover obtain m w where "\<forall>mn' pn'. mn' \<noteq> ''plant'' \<or> pn' \<noteq> ''flow'' \<and> (parse_file_record_name pn' = None
          \<or> parse_file_record_name pn' \<noteq> parse_file_record_name ''flow'') \<longrightarrow>
        ServerHandle_get (\<lambda>_. []) (\<lambda>_. []) mn' pn' h' = ServerHandle_get (\<lambda>_. []) (\<lambda>_. []) mn' pn' sample_handle"
    using local_writes_read_back [where ?sf32.0 = "\<lambda>_. []" and ?sf64.0 = "\<lambda>_. []"
        and h = sample_handle and ?pf32.0 = "\<lambda>_. None" and ?pf64.0 = "\<lambda>_. None" and mn = "''plant''"
        and pn = "''flow''" and raw = "''0x1F''"] h' by blast
  note this [rule_format, of "''plant''" "''level''"]
  ultimately show ?thesis using h' by simp
qed

section \<open>From the data socket to the client\<close>

lemma describes_state: "describes d (server_machine_state d st)"
  by (simp add: describes_def server_machine_state_def)

text \<open>In a client's stores that mirror the server's, what was written reads as it does there.\<close>

lemma mirrored_write:
  assumes "mirrors (server_machine_state d (point_written pn w st0)) st" and "admits d pn w"
    and "pollable (server_machine_state d (point_written pn w st0))"
  shows "ServerHandle_get sf32 sf64 mn pn \<lparr>ServerHandle.machines = [mn \<mapsto> \<lparr>ServerHandleMachine.description = d, stores = st\<rparr>]\<rparr>
     = Ok (printed sf32 sf64 w)"
proof -
  note mirror = assms(1) [unfolded mirrors_def server_machine_state_def, simplified]
  show ?thesis
  proof (cases w)
    case (WriteRegister v)
    with assms(2) obtain r where r: "find_register d pn = Some r" "data_type_of v = RegisterDescription.data_type r" by auto
    then have "r \<in> set (MachineDescription.registers d)" "RegisterDescription.name r = pn"
      by (auto simp: find_register_def dest: find_Some_set)
    with mirror WriteRegister r have "RegisterStore_get (MachineStores.registers st) pn = Some v"
      by (force simp: list_all_iff shown_register_def current_value_def mark_write_ok_def register_store.get_set)
    with WriteRegister r show ?thesis by (simp add: ServerHandle_get_def handle_defs)
  next
    case (WriteCoil v)
    with assms(2) obtain c where c: "c \<in> set (MachineDescription.coils d)" "CoilDescription.name c = pn"
      by (auto simp: has_coil_def list_ex_iff)
    obtain b where b: "v = CoilValue b" by (cases v)
    with mirror WriteCoil c have "CoilStore_get (MachineStores.coils st) pn = Some v"
      by (force simp: list_all_iff shown_coil_def mark_write_ok_def coil_store.get_set)
    with WriteCoil assms(2) show ?thesis by (simp add: ServerHandle_get_def handle_defs)
  next
    case (WriteDiscreteInput v)
    with assms(2) obtain c where c: "c \<in> set (MachineDescription.discrete_inputs d)" "DiscreteInputDescription.name c = pn"
      by (auto simp: has_discrete_input_def list_ex_iff)
    obtain b where b: "v = CoilValue b" by (cases v)
    with mirror WriteDiscreteInput c have "DiscreteInputStore_get (MachineStores.discrete_inputs st) pn = Some v"
      by (force simp: list_all_iff shown_discrete_input_def discrete_input_store.get_set)
    with WriteDiscreteInput assms(2) show ?thesis by (simp add: ServerHandle_get_def handle_defs)
  next
    case (WriteInputRegister v)
    with assms(2) obtain r where r: "find_input_register d pn = Some r" "data_type_of v = InputRegisterDescription.data_type r" by auto
    then have "r \<in> set (MachineDescription.input_registers d)" "InputRegisterDescription.name r = pn"
      by (auto simp: find_input_register_def dest: find_Some_set)
    with mirror WriteInputRegister r have "InputRegisterStore_get (MachineStores.input_registers st) pn = Some v"
      by (force simp: list_all_iff shown_input_register_def current_value_def input_register_store.get_set)
    with WriteInputRegister assms(2) r show ?thesis by (auto simp: ServerHandle_get_def handle_defs)
  next
    case (WriteRecord f r bs)
    with assms(2) obtain e where e: "find_file_record (MachineDescription.file_records d) f r = Some e" by auto
    then have "e \<in> set (MachineDescription.file_records d)" "FileRecordDescription.file_number e = f"
      "FileRecordDescription.record_number e = r"
      by (auto simp: find_file_record_def dest: find_Some_set)
    with mirror WriteRecord have "FileRecordStore_get (MachineStores.file_records st) (f, r) = Some bs"
      by (force simp: list_all_iff stored_record_def file_record_store.get_set)
    with WriteRecord assms(2) e show ?thesis by (auto simp: ServerHandle_get_def handle_defs)
  qed
qed

text \<open>
  C13: A value set on the server's data socket arrives at the client. After an accepted write, any number of
  turns of polling by a client with the same description leaves stores in which the point, looked
  up in the same way, reads as the value that was set, whichever kind of point it is.
\<close>

theorem local_writes_reach_the_client:
  assumes "ServerHandle_set pf32 pf64 mn pn raw h = Ok h'" and "ServerHandle.machines h' mn = Some m"
    and "pollable (server_machine_state (ServerHandleMachine.description m) (ServerHandleMachine.stores m))"
    and "reads_enabled opts"
    and "connection p (MachineDescription.unit_id (ServerHandleMachine.description m))
      = Some (server_machine_state (ServerHandleMachine.description m) (ServerHandleMachine.stores m))"
    and "0 < ticks"
  shows "\<exists>st w. run_polling_loop (loopback opts src bulk) (ServerHandleMachine.description m) ticks p
       = (Ok (p\<lparr>mirror := st\<rparr>) :: (machines Poller, 'e) result)
     \<and> parsed_as pf32 pf64 raw w
     \<and> ServerHandle_get sf32 sf64 mn pn \<lparr>ServerHandle.machines =
          [mn \<mapsto> \<lparr>ServerHandleMachine.description = ServerHandleMachine.description m, stores = st\<rparr>]\<rparr>
       = Ok (printed sf32 sf64 w)"
proof -
  let ?d = "ServerHandleMachine.description m"
  from assms(1) obtain m0 w where w: "ServerHandle.machines h mn = Some m0"
    "admits (ServerHandleMachine.description m0) pn w" "parsed_as pf32 pf64 raw w"
    "h' = update_stores mn (point_written pn w) h"
    unfolding ServerHandle_set_iff by blast
  with assms(2) have m: "ServerHandleMachine.description m0 = ?d"
    "ServerHandleMachine.stores m = point_written pn w (ServerHandleMachine.stores m0)" by auto
  obtain st where st: "run_polling_loop (loopback opts src bulk) ?d ticks p = (Ok (p\<lparr>mirror := st\<rparr>) :: (machines Poller, 'e) result)"
    "mirrors (server_machine_state ?d (ServerHandleMachine.stores m)) st"
    using polling_mirror [OF describes_state assms(3-6)] by blast
  have "ServerHandle_get sf32 sf64 mn pn \<lparr>ServerHandle.machines = [mn \<mapsto> \<lparr>ServerHandleMachine.description = ?d, stores = st\<rparr>]\<rparr>
      = Ok (printed sf32 sf64 w)"
    using mirrored_write [of ?d pn w "ServerHandleMachine.stores m0" st] w(2) m st(2) assms(3) by simp
  with st(1) w(3) show ?thesis by blast
qed

theorem local_writes_reach_the_client_witness:
  "\<exists>h' m st. ServerHandle_set (\<lambda>_. None) (\<lambda>_. None) ''plant'' ''flow'' ''0x1F'' sample_handle = Ok h'
     \<and> ServerHandle.machines h' ''plant'' = Some m
     \<and> run_polling_loop (loopback all_options [] no_bulk) (hd sample_site) 2
          \<lparr>connection = [1 \<mapsto> server_machine_state (hd sample_site) (ServerHandleMachine.stores m)],
           mirror = MachineStores_new, broken = False\<rparr>
        = (Ok \<lparr>connection = [1 \<mapsto> server_machine_state (hd sample_site) (ServerHandleMachine.stores m)],
           mirror = st, broken = False\<rparr> :: (machines Poller, unit) result)"
proof -
  obtain h' where h': "ServerHandle_set (\<lambda>_. None) (\<lambda>_. None) ''plant'' ''flow'' ''0x1F'' sample_handle = Ok h'"
    "ServerHandle.machines h' ''plant'' = Some \<lparr>ServerHandleMachine.description = hd sample_site,
         stores = point_written ''flow'' (WriteRegister (RegU16 0x1F)) MachineStores_new\<rparr>"
    using sample_set by blast
  let ?m = "\<lparr>ServerHandleMachine.description = hd sample_site,
         stores = point_written ''flow'' (WriteRegister (RegU16 0x1F)) MachineStores_new\<rparr>"
  let ?p = "\<lparr>connection = [1 \<mapsto> server_machine_state (hd sample_site) (ServerHandleMachine.stores ?m)],
           mirror = MachineStores_new, broken = False\<rparr>"
  have "pollable (server_machine_state (ServerHandleMachine.description ?m) (ServerHandleMachine.stores ?m))"
    by (simp add: pollable_def server_machine_state_def sample_site_def stored_record_def mark_write_ok_def
        MachineStores_new_def file_record_store.get_new)
  moreover have "reads_enabled all_options" by (simp add: reads_enabled_def all_options_def is_enabled_def)
  moreover have "connection ?p (MachineDescription.unit_id (ServerHandleMachine.description ?m))
      = Some (server_machine_state (ServerHandleMachine.description ?m) (ServerHandleMachine.stores ?m))"
    by (simp add: sample_site_def)
  ultimately obtain st where
    "run_polling_loop (loopback all_options [] no_bulk) (hd sample_site) 2 ?p = (Ok (?p\<lparr>mirror := st\<rparr>) :: (machines Poller, unit) result)"
    using local_writes_reach_the_client [OF h', of all_options ?p 2, where ?'e = unit and src = "[]" and bulk = no_bulk]
    by auto
  with h' show ?thesis by auto
qed

section \<open>Lines made of words, and two gaps\<close>

lemma trim_end_words:
  assumes "list_all is_word ws" and "ws \<noteq> []"
  shows "trim_end (join_with '' '' ws) = join_with '' '' ws"
proof -
  have last: "\<exists>s w. join_with '' '' ws = s @ w \<and> is_word w \<and> (\<forall>c \<in> set s. \<not> is_continuation c)"
    using assms
  proof (induction "'' ''" ws rule: join_with.induct)
    case (2 w)
    then show ?case by (intro exI [of _ "[]"] exI [of _ w]) simp
  next
    case (3 w v ws)
    then obtain s u where u: "join_with '' '' (v # ws) = s @ u" "is_word u" "\<forall>c \<in> set s. \<not> is_continuation c" by auto
    moreover have "\<forall>c \<in> set w. \<not> is_continuation c" using 3(2) by (auto simp: is_word_def list_all_iff plain_def)
    ultimately show ?case by (intro exI [of _ "w @ '' '' @ s"] exI [of _ u]) auto
  qed simp
  then show ?thesis using trim_end_word by metis
qed

text \<open>A SET or GET whose parts are words means what it says.\<close>

lemma word_lines:
  assumes "is_word mn" and "is_word pn" and "list_all is_word ws" and "ws \<noteq> []"
  shows "handle_data_line tf (join_with '' '' (''SET'' # mn # pn # ws)) h
      = apply_data_command tf (DataSet mn pn (join_with '' '' ws)) h"
    and "handle_data_line tf (join_with '' '' [''GET'', mn, pn]) h = apply_data_command tf (DataGet mn pn) h"
proof -
  have verbs: "is_word ''SET''" "is_word ''GET''"
    by (simp_all add: is_word_def plain_def is_continuation_def is_whitespace_single)
  have words: "list_all is_word (''SET'' # mn # pn # ws)" "list_all is_word [''GET'', mn, pn]"
    using assms verbs by simp_all
  show "handle_data_line tf (join_with '' '' (''SET'' # mn # pn # ws)) h
      = apply_data_command tf (DataSet mn pn (join_with '' '' ws)) h"
    using trim_end_words [OF words(1)] split_whitespace_join [OF words(1)] assms(4)
    by (simp add: handle_data_line_def DataCommand_parse_def del: join_with.simps)
  show "handle_data_line tf (join_with '' '' [''GET'', mn, pn]) h = apply_data_command tf (DataGet mn pn) h"
    using trim_end_words [OF words(2)] split_whitespace_join [OF words(2)]
    by (simp add: handle_data_line_def DataCommand_parse_def del: join_with.simps)
qed

text \<open>
  The declared length of a file record binds no local write, and the read handler serves what
  is stored: a record of two words is read as the single byte that was set.
\<close>

lemma record_length_is_not_enforced:
  "\<exists>h' m. ServerHandle_set_file_record ''plant'' 4 1 [0xAB] sample_handle = Ok h' \<and> ServerHandle.machines h' ''plant'' = Some m
     \<and> FileRecordDescription.record_length (hd (MachineDescription.file_records (ServerHandleMachine.description m))) = 2
     \<and> handle_read_file_record (ReadFileRecordRequest_encode \<lparr>ReadFileRecordRequest.sub_requests =
            [\<lparr>FileRecordSubRequest.file_number = 4, record_number = 1, record_length = 2\<rparr>]\<rparr>)
          (MachineDescription.file_records (ServerHandleMachine.description m))
          (MachineStores.file_records (ServerHandleMachine.stores m))
       = (Ok (ReadFileRecordResponse_encode \<lparr>ReadFileRecordResponse.records = [[0xAB]]\<rparr>) :: (bytes, unit) result)"
proof -
  let ?r = "\<lparr>ReadFileRecordRequest.sub_requests =
      [\<lparr>FileRecordSubRequest.file_number = 4, record_number = 1, record_length = 2\<rparr>]\<rparr>"
  have "ReadFileRecordRequest_decode (ReadFileRecordRequest_encode ?r) = Ok ?r" by code_simp
  moreover have "length (ReadFileRecordResponse_encode \<lparr>ReadFileRecordResponse.records = [[0xAB]]\<rparr>) \<le> 253" by code_simp
  ultimately show ?thesis
    by (simp add: handle_defs sample_handle_def sample_site_def find_file_record_def handle_read_file_record_def
        stored_record_def file_record_store.get_set Let_def)
qed

end
