(* ===== verification/Client_Trust.thy ===== *)
theory Client_Trust
  imports Text_Words Adu "HOL-Library.FSet" "HOL-Library.List_Lexorder"
begin

text \<open>
  Who may connect over TLS: fingerprints (\<open>protocol/src/tls.rs\<close>), the set of approved ones
  (\<open>server/src/client_trust.rs\<close>) and the connections that are open for each
  (\<open>server/src/live_connections.rs\<close>). SHA-256 is an argument, and so is the order in which a
  \<open>HashSet\<close> is iterated.
\<close>

section \<open>Fingerprints\<close>

datatype Fingerprint = Fingerprint (fingerprint_bytes: bytes)

instantiation Fingerprint :: linorder
begin

definition less_eq_Fingerprint :: "Fingerprint \<Rightarrow> Fingerprint \<Rightarrow> bool" where
  "fp \<le> fq \<longleftrightarrow> fingerprint_bytes fp \<le> fingerprint_bytes fq"

definition less_Fingerprint :: "Fingerprint \<Rightarrow> Fingerprint \<Rightarrow> bool" where
  "fp < fq \<longleftrightarrow> fingerprint_bytes fp < fingerprint_bytes fq"

instance
  by standard (auto simp: less_eq_Fingerprint_def less_Fingerprint_def Fingerprint.expand)

end

text \<open>The bytes of a fingerprint are an array of 32.\<close>

definition is_fingerprint :: "Fingerprint \<Rightarrow> bool" where
  "is_fingerprint fp \<longleftrightarrow> length (fingerprint_bytes fp) = 32"

definition Fingerprint_of :: "(bytes \<Rightarrow> bytes) \<Rightarrow> bytes \<Rightarrow> (Fingerprint, 'e) result" where
  "Fingerprint_of sha256 public_key_der =
     (let digest = sha256 public_key_der in
      if length digest = 32 then Ok (Fingerprint digest) else Panic)"

text \<open>\<open>{byte:02x}\<close>.\<close>

definition lower_digit :: "nat \<Rightarrow> char" where
  "lower_digit d = char_of (if d < 10 then 48 + d else 87 + d)"

definition show_hex_byte_lower :: "u8 \<Rightarrow> string" where
  "show_hex_byte_lower b = [lower_digit (unat b div 16), lower_digit (unat b mod 16)]"

definition Fingerprint_display :: "Fingerprint \<Rightarrow> string" where
  "Fingerprint_display fp =
     concat (map (\<lambda>(i, byte). (if 0 < i then '':'' else []) @ show_hex_byte_lower byte)
       (enumerate 0 (fingerprint_bytes fp)))"

text \<open>What the two error messages name.\<close>

datatype FingerprintError =
    WrongByteCount nat string
  | InvalidHexByte string string

definition Fingerprint_from_str :: "string \<Rightarrow> (Fingerprint, FingerprintError) result" where
  "Fingerprint_from_str txt =
     (let byte_strings = split_on CHR '':'' txt in
      if length byte_strings \<noteq> 32 then Err (WrongByteCount (length byte_strings) txt)
      else map_ok Fingerprint
        (for_each (\<lambda>(i, byte_string) bs.
           case from_str_radix_unsigned 8 16 byte_string of
             None \<Rightarrow> Err (InvalidHexByte byte_string txt)
           | Some n \<Rightarrow> assign bs i (of_nat n)) (enumerate 0 byte_strings) (replicate 32 0)))"

section \<open>Approved clients\<close>

record ApprovedClients =
  fingerprints :: "Fingerprint fset"
  max_clients :: "nat option"

datatype ApprovalOutcome = Approved | AlreadyApproved | AtCapacity

definition ApprovedClients_new :: ApprovedClients where
  "ApprovedClients_new = \<lparr>fingerprints = {||}, max_clients = None\<rparr>"

definition with_max_clients :: "nat \<Rightarrow> ApprovedClients" where
  "with_max_clients mx = \<lparr>fingerprints = {||}, max_clients = Some mx\<rparr>"

definition is_at_capacity :: "ApprovedClients \<Rightarrow> bool" where
  "is_at_capacity a \<longleftrightarrow> (case max_clients a of None \<Rightarrow> False | Some mx \<Rightarrow> fcard (fingerprints a) \<ge> mx)"

definition ApprovedClients_contains :: "ApprovedClients \<Rightarrow> Fingerprint \<Rightarrow> bool" where
  "ApprovedClients_contains a fp \<longleftrightarrow> fp |\<in>| fingerprints a"

definition ApprovedClients_insert :: "Fingerprint \<Rightarrow> ApprovedClients \<Rightarrow> ApprovalOutcome \<times> ApprovedClients" where
  "ApprovedClients_insert fp a =
     (if fp |\<in>| fingerprints a then (AlreadyApproved, a)
      else if is_at_capacity a then (AtCapacity, a)
      else (Approved, a\<lparr>fingerprints := finsert fp (fingerprints a)\<rparr>))"

definition ApprovedClients_seed :: "Fingerprint \<Rightarrow> ApprovedClients \<Rightarrow> ApprovedClients" where
  "ApprovedClients_seed fp a = a\<lparr>fingerprints := finsert fp (fingerprints a)\<rparr>"

definition ApprovedClients_remove :: "Fingerprint \<Rightarrow> ApprovedClients \<Rightarrow> bool \<times> ApprovedClients" where
  "ApprovedClients_remove fp a = (fp |\<in>| fingerprints a, a\<lparr>fingerprints := fingerprints a |-| {|fp|}\<rparr>)"

definition ApprovedClients_fingerprints :: "(Fingerprint fset \<Rightarrow> Fingerprint list) \<Rightarrow> ApprovedClients \<Rightarrow> Fingerprint list" where
  "ApprovedClients_fingerprints iter a = iter (fingerprints a)"

section \<open>Live connections\<close>

record ConnectionHandle =
  handle_fingerprint :: Fingerprint
  handle_id :: u64

text \<open>
  The cancellation channel of a connection is known by the id it is registered under. Its sender
  lives in the table; dropping it there is what the receiver sees.
\<close>

record LiveConnections =
  by_fingerprint :: "Fingerprint \<rightharpoonup> u64 fset"
  next_id :: u64
  max_connections_per_fingerprint :: "nat option"

definition LiveConnections_new :: LiveConnections where
  "LiveConnections_new = \<lparr>by_fingerprint = Map.empty, next_id = 0, max_connections_per_fingerprint = None\<rparr>"

definition with_max_connections_per_fingerprint :: "nat \<Rightarrow> LiveConnections" where
  "with_max_connections_per_fingerprint mx =
     \<lparr>by_fingerprint = Map.empty, next_id = 0, max_connections_per_fingerprint = Some mx\<rparr>"

definition open_ids :: "LiveConnections \<Rightarrow> Fingerprint \<Rightarrow> u64 fset" where
  "open_ids l fp = (case by_fingerprint l fp of None \<Rightarrow> {||} | Some ids \<Rightarrow> ids)"

definition LiveConnections_register ::
    "Fingerprint \<Rightarrow> LiveConnections \<Rightarrow> (ConnectionHandle option \<times> LiveConnections, 'e) result" where
  "LiveConnections_register fp l =
     (let current_count = (case by_fingerprint l fp of None \<Rightarrow> 0 | Some ids \<Rightarrow> fcard ids) in
      if (case max_connections_per_fingerprint l of None \<Rightarrow> False | Some mx \<Rightarrow> current_count \<ge> mx)
      then Ok (None, l)
      else if next_id l = - 1 then Panic
      else Ok (Some \<lparr>handle_fingerprint = fp, handle_id = next_id l\<rparr>,
               l\<lparr>next_id := next_id l + 1,
                 by_fingerprint := (by_fingerprint l)(fp \<mapsto> finsert (next_id l) (open_ids l fp))\<rparr>))"

definition LiveConnections_deregister :: "ConnectionHandle \<Rightarrow> LiveConnections \<Rightarrow> LiveConnections" where
  "LiveConnections_deregister h l =
     (case by_fingerprint l (handle_fingerprint h) of
        None \<Rightarrow> l
      | Some connections \<Rightarrow>
          let connections = connections |-| {|handle_id h|} in
          if connections = {||} then l\<lparr>by_fingerprint := (by_fingerprint l)(handle_fingerprint h := None)\<rparr>
          else l\<lparr>by_fingerprint := (by_fingerprint l)(handle_fingerprint h \<mapsto> connections)\<rparr>)"

definition LiveConnections_revoke :: "Fingerprint \<Rightarrow> LiveConnections \<Rightarrow> nat \<times> LiveConnections" where
  "LiveConnections_revoke fp l =
     (case by_fingerprint l fp of
        None \<Rightarrow> (0, l)
      | Some connections \<Rightarrow> (fcard connections, l\<lparr>by_fingerprint := (by_fingerprint l)(fp := None)\<rparr>))"

text \<open>The receiver of a connection resolves: its sender is gone from the table.\<close>

definition is_cancelled :: "LiveConnections \<Rightarrow> ConnectionHandle \<Rightarrow> bool" where
  "is_cancelled l h \<longleftrightarrow> handle_id h |\<notin>| open_ids l (handle_fingerprint h)"

section \<open>The text of a fingerprint\<close>

lemma to_digit_lower: "d < 16 \<Longrightarrow> to_digit 16 (lower_digit d) = Some d"
  by (auto simp: to_digit_def lower_digit_def Let_def)

lemma lower_digit_plain: "d < 16 \<Longrightarrow> lower_digit d \<noteq> CHR ''+'' \<and> lower_digit d \<noteq> CHR '':'' \<and> plain (lower_digit d)"
proof -
  assume d: "d < 16"
  then have "of_char (lower_digit d) = (if d < 10 then 48 + d else 87 + d)" by (simp add: lower_digit_def)
  moreover have "c \<noteq> CHR ''+'' \<and> c \<noteq> CHR '':'' \<and> plain c"
    if "48 \<le> (of_char c :: nat) \<and> (of_char c :: nat) \<le> 57 \<or> 97 \<le> (of_char c :: nat) \<and> (of_char c :: nat) \<le> 102" for c
    using that by (auto simp: plain_def is_continuation_def is_whitespace_single)
  ultimately show ?thesis using d by (cases "d < 10") force+
qed

lemma digit_bounds: "unat (b :: u8) div 16 < 16" "unat b mod 16 < 16"
  using unat_u8_less [of b] by linarith simp

lemma hex_byte_lower_chars: "c \<in> set (show_hex_byte_lower b) \<Longrightarrow> c \<noteq> CHR '':'' \<and> plain c"
  using lower_digit_plain [OF digit_bounds(1) [of b]] lower_digit_plain [OF digit_bounds(2) [of b]]
  by (auto simp: show_hex_byte_lower_def)

lemma parse_hex_byte_lower: "from_str_radix_unsigned 8 16 (show_hex_byte_lower b) = Some (unat b)"
  using lower_digit_plain [OF digit_bounds(1) [of b]] digit_bounds [of b]
  by (simp add: from_str_radix_unsigned_def show_hex_byte_lower_def strip_plus_def magnitude_def to_digit_lower)

lemma Fingerprint_display_join:
  "Fingerprint_display fp = join_with '':'' (map show_hex_byte_lower (fingerprint_bytes fp))"
proof -
  have tail: "concat (map (\<lambda>(i, byte). (if 0 < i then '':'' else []) @ show_hex_byte_lower byte) (enumerate (Suc n) bs))
      = concat (map (\<lambda>b. '':'' @ show_hex_byte_lower b) bs)" for n bs
    by (induction bs arbitrary: n) simp_all
  have join: "join_with '':'' (map show_hex_byte_lower (b # bs))
      = show_hex_byte_lower b @ concat (map (\<lambda>b. '':'' @ show_hex_byte_lower b) bs)" for b bs
    by (induction bs arbitrary: b) simp_all
  show ?thesis
    by (cases "fingerprint_bytes fp") (use tail [of 0] join in \<open>simp_all add: Fingerprint_display_def\<close>)
qed

lemma parse_bytes:
  "for_each (\<lambda>(i, s) bs. case from_str_radix_unsigned 8 16 s of None \<Rightarrow> Err (InvalidHexByte s txt) | Some n \<Rightarrow> assign bs i (of_nat n))
     (enumerate (length pre) (map show_hex_byte_lower bs)) (pre @ replicate (length bs) 0) = Ok (pre @ bs)"
proof (induction bs arbitrary: pre)
  case (Cons b bs)
  have "assign (pre @ 0 # replicate (length bs) 0) (length pre) b = (Ok ((pre @ [b]) @ replicate (length bs) 0) :: (_, FingerprintError) result)"
    by simp
  with Cons [of "pre @ [b]"] show ?case by (simp add: parse_hex_byte_lower)
qed simp

lemma Fingerprint_from_display: "is_fingerprint fp \<Longrightarrow> Fingerprint_from_str (Fingerprint_display fp) = Ok fp"
proof -
  assume fp: "is_fingerprint fp"
  then have "fingerprint_bytes fp \<noteq> []" by (auto simp: is_fingerprint_def)
  then have "split_on CHR '':'' (Fingerprint_display fp) = map show_hex_byte_lower (fingerprint_bytes fp)"
    unfolding Fingerprint_display_join by (intro split_on_join) (auto dest: hex_byte_lower_chars)
  with fp parse_bytes [of "Fingerprint_display fp" "[]" "fingerprint_bytes fp"] show ?thesis
    by (simp add: Fingerprint_from_str_def is_fingerprint_def)
qed

lemma Fingerprint_display_word: "is_fingerprint fp \<Longrightarrow> is_word (Fingerprint_display fp)"
proof -
  assume fp: "is_fingerprint fp"
  have "plain CHR '':''" by (simp add: plain_def is_continuation_def is_whitespace_single)
  then have "list_all plain (join_with '':'' ws)" if "list_all (list_all plain) ws" for ws
    using that by (induction "'':''" ws rule: join_with.induct) simp_all
  moreover have "list_all (list_all plain) (map show_hex_byte_lower (fingerprint_bytes fp))"
    by (auto simp: list_all_iff dest: hex_byte_lower_chars)
  moreover have "Fingerprint_display fp \<noteq> []"
    using fp by (cases "fingerprint_bytes fp") (auto simp: is_fingerprint_def Fingerprint_display_def show_hex_byte_lower_def)
  ultimately show ?thesis by (simp add: is_word_def Fingerprint_display_join)
qed

lemma Fingerprint_display_inject:
  "is_fingerprint fp \<Longrightarrow> is_fingerprint fq \<Longrightarrow> Fingerprint_display fp = Fingerprint_display fq \<longleftrightarrow> fp = fq"
  by (metis Fingerprint_from_display result.inject(1))

section \<open>Approvals and connections\<close>

lemma insert_member: "fq |\<in>| fingerprints (snd (ApprovedClients_insert fp a)) \<Longrightarrow> fq = fp \<or> fq |\<in>| fingerprints a"
  by (auto simp: ApprovedClients_insert_def split: if_splits)

lemma insert_capacity:
  "max_clients a = Some mx \<Longrightarrow> fcard (fingerprints a) \<le> k \<Longrightarrow> mx \<le> k \<Longrightarrow>
     fcard (fingerprints (snd (ApprovedClients_insert fp a))) \<le> k"
  by (auto simp: ApprovedClients_insert_def is_at_capacity_def fcard_finsert_disjoint)

lemma remove_capacity: "fcard (fingerprints (snd (ApprovedClients_remove fp a))) \<le> fcard (fingerprints a)"
  by (simp add: ApprovedClients_remove_def fcard_mono fminus_fsubset_conv fsubsetI)

lemma open_ids_register:
  "LiveConnections_register fp l = Ok (Some h, l') \<Longrightarrow>
     h = \<lparr>handle_fingerprint = fp, handle_id = next_id l\<rparr> \<and> next_id l \<noteq> - 1 \<and> next_id l' = next_id l + 1
     \<and> max_connections_per_fingerprint l' = max_connections_per_fingerprint l
     \<and> open_ids l' = (open_ids l)(fp := finsert (next_id l) (open_ids l fp))
     \<and> (\<forall>mx. max_connections_per_fingerprint l = Some mx \<longrightarrow> fcard (open_ids l fp) < mx)"
  by (auto simp: LiveConnections_register_def Let_def open_ids_def fun_eq_iff fcard_fempty split: if_splits option.splits)

lemma register_refused: "LiveConnections_register fp l = Ok (None, l') \<Longrightarrow> l' = l"
  by (auto simp: LiveConnections_register_def Let_def split: if_splits)

lemma deregister_facts:
  "open_ids (LiveConnections_deregister h l)
     = (open_ids l)(handle_fingerprint h := open_ids l (handle_fingerprint h) |-| {|handle_id h|})"
  "next_id (LiveConnections_deregister h l) = next_id l"
  "max_connections_per_fingerprint (LiveConnections_deregister h l) = max_connections_per_fingerprint l"
  by (auto simp: LiveConnections_deregister_def open_ids_def fun_eq_iff Let_def split: option.splits)

lemma revoke_facts:
  "fst (LiveConnections_revoke fp l) = fcard (open_ids l fp)"
  "open_ids (snd (LiveConnections_revoke fp l)) = (open_ids l)(fp := {||})"
  "next_id (snd (LiveConnections_revoke fp l)) = next_id l"
  "max_connections_per_fingerprint (snd (LiveConnections_revoke fp l)) = max_connections_per_fingerprint l"
  by (auto simp: LiveConnections_revoke_def open_ids_def fun_eq_iff split: option.splits)

end
