(* ===== verification/Access_Control.thy ===== *)
theory Access_Control
  imports Client_Trust "HOL-Library.Multiset"
begin

text \<open>
  Access control of the TLS server: the admin socket (\<open>server/src/admin.rs\<close>), the file of approvals
  (\<open>persistence.rs\<close>), the decision on a client's certificate (\<open>tls.rs\<close>) and the accept loop of
  \<open>main.rs\<close>, whose tasks and the admin commands interleave. The TOML library, the parsing of
  certificates and the texts of errors are arguments.
\<close>

section \<open>The file of approvals\<close>

text \<open>The two paths that are touched; the second is \<open>approved-clients.toml.tmp\<close>.\<close>

record ApprovalFiles =
  target :: "string option"
  temp :: "string option"

text \<open>Where saving stops: at an I/O error, or at a crash of the process.\<close>

datatype SaveStop = OpenStops | WriteStops nat | PermissionsStop | RenameStops

definition save_atomically ::
    "(string list \<Rightarrow> string) \<Rightarrow> SaveStop option \<Rightarrow> Fingerprint list \<Rightarrow> ApprovalFiles \<Rightarrow> (unit, SaveStop) result \<times> ApprovalFiles" where
  "save_atomically toml_of stop fps files =
     (let serialized = toml_of (map Fingerprint_display fps) in
      case stop of
        Some OpenStops \<Rightarrow> (Err OpenStops, files)
      | Some (WriteStops n) \<Rightarrow> (Err (WriteStops n), files\<lparr>temp := Some (take n serialized)\<rparr>)
      | Some PermissionsStop \<Rightarrow> (Err PermissionsStop, files\<lparr>temp := Some serialized\<rparr>)
      | Some RenameStops \<Rightarrow> (Err RenameStops, files\<lparr>temp := Some serialized\<rparr>)
      | None \<Rightarrow> (Ok (), \<lparr>target = Some serialized, temp = None\<rparr>))"

datatype LoadError = LoadToml | LoadInvalidFingerprint FingerprintError

fun parse_fingerprints :: "string list \<Rightarrow> (Fingerprint list, LoadError) result" where
  "parse_fingerprints [] = Ok []"
| "parse_fingerprints (t # ts) =
     and_then (map_err LoadInvalidFingerprint (Fingerprint_from_str t)) (\<lambda>fp.
     map_ok ((#) fp) (parse_fingerprints ts))"

definition load_approvals :: "(string \<Rightarrow> string list option) \<Rightarrow> ApprovalFiles \<Rightarrow> (Fingerprint list, LoadError) result" where
  "load_approvals parse_toml files =
     (case target files of
        None \<Rightarrow> Ok []
      | Some source \<Rightarrow>
          (case parse_toml source of
             None \<Rightarrow> Err LoadToml
           | Some texts \<Rightarrow> parse_fingerprints texts))"

text \<open>\<open>main\<close> starts from the limit on the command line and the approvals of the file.\<close>

definition restored :: "nat option \<Rightarrow> Fingerprint list \<Rightarrow> ApprovedClients" where
  "restored mx fps =
     fold ApprovedClients_seed fps (case mx of None \<Rightarrow> ApprovedClients_new | Some n \<Rightarrow> with_max_clients n)"

section \<open>The admin protocol\<close>

datatype AdminCommand = Approve Fingerprint | Revoke Fingerprint | ListApproved

definition AdminCommand_parse ::
    "(string \<Rightarrow> string) \<Rightarrow> (FingerprintError \<Rightarrow> string) \<Rightarrow> string \<Rightarrow> (AdminCommand, string) result" where
  "AdminCommand_parse show_debug show_error line =
     (case split_whitespace line of
        [] \<Rightarrow> Err ''empty command''
      | verb # words \<Rightarrow>
          if verb = ''APPROVE'' \<or> verb = ''REVOKE'' then
            (case words of
               [] \<Rightarrow> Err (verb @ '' requires a fingerprint argument'')
             | fingerprint_text # rest \<Rightarrow>
                 if rest \<noteq> [] then Err (verb @ '' takes exactly one argument'')
                 else and_then (map_err (\<lambda>e. ''invalid fingerprint: '' @ show_error e)
                        (Fingerprint_from_str fingerprint_text)) (\<lambda>fp.
                      Ok (if verb = ''APPROVE'' then Approve fp else Revoke fp)))
          else if verb = ''LIST'' then
            (if words \<noteq> [] then Err ''LIST takes no arguments'' else Ok ListApproved)
          else Err (''unknown command '' @ show_debug verb))"

record AdminState =
  approved :: ApprovedClients
  live :: LiveConnections
  files :: ApprovalFiles

text \<open>
  What the command needs from outside: the iteration order of the set, the TOML printer and where
  saving stops. An error of saving is only logged.
\<close>

definition persist ::
    "(Fingerprint fset \<Rightarrow> Fingerprint list) \<Rightarrow> (string list \<Rightarrow> string) \<Rightarrow> SaveStop option \<Rightarrow> ApprovedClients \<Rightarrow> ApprovalFiles
     \<Rightarrow> ApprovalFiles" where
  "persist iter toml_of stop a fs = snd (save_atomically toml_of stop (ApprovedClients_fingerprints iter a) fs)"

definition apply_admin_command ::
    "(Fingerprint fset \<Rightarrow> Fingerprint list) \<Rightarrow> (string list \<Rightarrow> string) \<Rightarrow> SaveStop option \<Rightarrow> AdminCommand \<Rightarrow> AdminState
     \<Rightarrow> string \<times> AdminState" where
  "apply_admin_command iter toml_of stop command s =
     (case command of
        Approve fp \<Rightarrow>
          (let (outcome, a) = ApprovedClients_insert fp (approved s) in
           case outcome of
             AtCapacity \<Rightarrow> (''ERROR APPROVE '' @ Fingerprint_display fp @ '': at max-clients capacity'', s\<lparr>approved := a\<rparr>)
           | _ \<Rightarrow> (''OK APPROVE '' @ Fingerprint_display fp,
                  s\<lparr>approved := a, files := persist iter toml_of stop a (files s)\<rparr>))
      | Revoke fp \<Rightarrow>
          (let a = snd (ApprovedClients_remove fp (approved s));
               (terminated, l) = LiveConnections_revoke fp (live s) in
           (''OK REVOKE '' @ Fingerprint_display fp @ '' ('' @ show_nat terminated @ '' connection(s) terminated)'',
            s\<lparr>approved := a, files := persist iter toml_of stop a (files s), live := l\<rparr>))
      | ListApproved \<Rightarrow>
          (''OK LIST '' @ join_with '','' (map Fingerprint_display (ApprovedClients_fingerprints iter (approved s))), s))"

definition handle_admin_line ::
    "(string \<Rightarrow> string) \<Rightarrow> (FingerprintError \<Rightarrow> string) \<Rightarrow> (Fingerprint fset \<Rightarrow> Fingerprint list) \<Rightarrow> (string list \<Rightarrow> string)
     \<Rightarrow> SaveStop option \<Rightarrow> string \<Rightarrow> AdminState \<Rightarrow> (string \<times> AdminState, 'e) result" where
  "handle_admin_line show_debug show_error iter toml_of stop line s =
     (case AdminCommand_parse show_debug show_error (trim_end line) of
        Ok command \<Rightarrow> Ok (apply_admin_command iter toml_of stop command s)
      | Err e \<Rightarrow> Ok (''ERROR '' @ e, s)
      | Panic \<Rightarrow> Panic)"

text \<open>The lines the subcommand \<open>server admin\<close> sends.\<close>

definition run_admin_subcommand :: "string list \<Rightarrow> string option" where
  "run_admin_subcommand args =
     (case args of
        [] \<Rightarrow> None
      | verb # rest \<Rightarrow>
          if verb = ''approve'' \<or> verb = ''revoke'' then
            (case rest of [] \<Rightarrow> None
             | fp # _ \<Rightarrow> Some ((if verb = ''approve'' then ''APPROVE'' else ''REVOKE'') @ '' '' @ fp))
          else if verb = ''list'' then Some ''LIST'' else None)"

section \<open>Commands and restarts\<close>

lemma map_ok_Ok: "map_ok f r = Ok y \<longleftrightarrow> (\<exists>x. r = Ok x \<and> y = f x)"
  by (cases r) auto

lemma Fingerprint_from_str_ok: "Fingerprint_from_str t = Ok fp \<Longrightarrow> is_fingerprint fp"
proof -
  have len: "length bs' = length bs" if "for_each (\<lambda>(i, s) bs. case from_str_radix_unsigned 8 16 s of
      None \<Rightarrow> Err (InvalidHexByte s t) | Some n \<Rightarrow> assign bs i (of_nat n)) xs bs = Ok bs'" for xs and bs bs' :: bytes
    using that by (induction xs arbitrary: bs) (auto simp: and_then_eq_Ok_iff assign_def split: option.splits if_splits)
  assume "Fingerprint_from_str t = Ok fp"
  then show ?thesis
    by (auto simp: Fingerprint_from_str_def Let_def is_fingerprint_def map_ok_Ok split: if_splits dest!: len)
qed

lemma parse_printed_fingerprints:
  "list_all is_fingerprint fps \<Longrightarrow> parse_fingerprints (map Fingerprint_display fps) = Ok fps"
  by (induction fps) (simp_all add: Fingerprint_from_display)

lemma fingerprints_seeded: "fingerprints (fold ApprovedClients_seed fps a) = fset_of_list fps |\<union>| fingerprints a"
  by (induction fps arbitrary: a) (auto simp: ApprovedClients_seed_def)

lemma restored_fingerprints: "fingerprints (restored mx fps) = fset_of_list fps"
  by (cases mx) (simp_all add: restored_def fingerprints_seeded ApprovedClients_new_def with_max_clients_def)

text \<open>Every fingerprint that is approved is an array of 32 bytes.\<close>

definition proper :: "ApprovedClients \<Rightarrow> bool" where
  "proper a \<longleftrightarrow> fBall (fingerprints a) is_fingerprint"

text \<open>What the file holds is what is approved.\<close>

definition saved :: "(string list \<Rightarrow> string) \<Rightarrow> (Fingerprint fset \<Rightarrow> Fingerprint list) \<Rightarrow> AdminState \<Rightarrow> bool" where
  "saved toml_of iter s \<longleftrightarrow>
     target (files s) = Some (toml_of (map Fingerprint_display (iter (fingerprints (approved s)))))"

lemma saved_loads:
  assumes "saved toml_of iter s" and "proper (approved s)" and "\<And>S. fset_of_list (iter S) = S"
    and "\<And>fps. list_all is_fingerprint fps \<Longrightarrow>
        parse_toml (toml_of (map Fingerprint_display fps)) = Some (map Fingerprint_display fps)"
  shows "load_approvals parse_toml (files s) = Ok (iter (fingerprints (approved s)))"
proof -
  have "set (iter (fingerprints (approved s))) = fset (fingerprints (approved s))"
    using assms(3) by (metis fset_of_list.rep_eq)
  then have "list_all is_fingerprint (iter (fingerprints (approved s)))"
    using assms(2) by (auto simp: list_all_iff proper_def)
  then show ?thesis
    using assms(1,4) by (simp add: load_approvals_def saved_def parse_printed_fingerprints)
qed

section \<open>The accept loop\<close>

text \<open>
  A task is spawned for each accepted connection and holds one of 100 permits until it ends. It
  is in the handshake, past the check of the client's certificate, or serving under a
  handle of the table of live connections. The one \<open>ServerConfig\<close> of \<open>build_server_config\<close> keeps
  the session storage that rustls puts there: a full handshake leaves a session with the client's
  certificate in it, and a client that resumes a stored session is taken to be the
  owner of that certificate; \<open>verify_client_cert\<close> is not called again. Which clients have a
  session stored is \<open>sessions\<close>; rustls may drop one at any time. \<open>peer_fingerprint\<close> reads the
  certificate of the connection, which after either handshake is there and has been parsed before, so the
  branch of \<open>main\<close> that serves a connection without a fingerprint is not reached.
\<close>

datatype task =
    Handshaking
  | Verified Fingerprint
  | Serving ConnectionHandle

definition MAX_CONCURRENT_TLS_CONNECTIONS :: nat where "MAX_CONCURRENT_TLS_CONNECTIONS = 100"
definition MAX_CONNECTIONS_PER_FINGERPRINT :: nat where "MAX_CONNECTIONS_PER_FINGERPRINT = 5"

record TlsServer =
  trust :: ApprovedClients
  open_connections :: LiveConnections
  permits :: nat
  tasks :: "task multiset"
  revoking :: "Fingerprint list"
  sessions :: "Fingerprint fset"

datatype TlsError = BadEncoding | NotApproved Fingerprint

definition verify_client_cert ::
    "('cert \<Rightarrow> Fingerprint option) \<Rightarrow> ApprovedClients \<Rightarrow> 'cert \<Rightarrow> (Fingerprint, TlsError) result" where
  "verify_client_cert fingerprint_of_certificate a end_entity =
     (case fingerprint_of_certificate end_entity of
        None \<Rightarrow> Err BadEncoding
      | Some presented_fingerprint \<Rightarrow>
          if ApprovedClients_contains a presented_fingerprint then Ok presented_fingerprint
          else Err (NotApproved presented_fingerprint))"

definition tls_server_start :: "ApprovedClients \<Rightarrow> TlsServer" where
  "tls_server_start a = \<lparr>trust = a,
     open_connections = with_max_connections_per_fingerprint MAX_CONNECTIONS_PER_FINGERPRINT,
     permits = MAX_CONCURRENT_TLS_CONNECTIONS, tasks = {#}, revoking = [], sessions = {||}\<rparr>"

text \<open>\<open>try_acquire_owned\<close>: without a permit the connection is dropped.\<close>

definition accept_connection :: "TlsServer \<Rightarrow> TlsServer" where
  "accept_connection s =
     (if permits s = 0 then s else s\<lparr>permits := permits s - 1, tasks := add_mset Handshaking (tasks s)\<rparr>)"

text \<open>A task ends and its permit is released.\<close>

definition end_task :: "task \<Rightarrow> TlsServer \<Rightarrow> TlsServer" where
  "end_task t s = s\<lparr>permits := permits s + 1, tasks := tasks s - {#t#}\<rparr>"

definition replace_task :: "task \<Rightarrow> task \<Rightarrow> TlsServer \<Rightarrow> TlsServer" where
  "replace_task t t' s = s\<lparr>tasks := add_mset t' (tasks s - {#t#})\<rparr>"

text \<open>The end of a full handshake, whose session is stored.\<close>

definition finish_handshake :: "Fingerprint \<Rightarrow> TlsServer \<Rightarrow> TlsServer" where
  "finish_handshake fp s = (replace_task Handshaking (Verified fp) s)\<lparr>sessions := finsert fp (sessions s)\<rparr>"

definition register_connection :: "Fingerprint \<Rightarrow> TlsServer \<Rightarrow> (TlsServer, 'e) result" where
  "register_connection fp s =
     and_then (LiveConnections_register fp (open_connections s)) (\<lambda>(registered, l).
     case registered of
       None \<Rightarrow> Ok (end_task (Verified fp) (s\<lparr>open_connections := l\<rparr>))
     | Some h \<Rightarrow> Ok (replace_task (Verified fp) (Serving h) (s\<lparr>open_connections := l\<rparr>)))"

definition end_connection :: "ConnectionHandle \<Rightarrow> TlsServer \<Rightarrow> TlsServer" where
  "end_connection h s =
     end_task (Serving h) (s\<lparr>open_connections := LiveConnections_deregister h (open_connections s)\<rparr>)"

text \<open>
  What can happen next. The admin commands are those of \<open>apply_admin_command\<close> without the file;
  Revoke takes the two locks one after the other, so it is two steps.
\<close>

datatype event =
    Accept
  | Present "Fingerprint option"
  | Resume Fingerprint
  | Forget Fingerprint
  | Abort task
  | Register Fingerprint
  | Finish ConnectionHandle
  | AdminApprove Fingerprint
  | AdminRevoke Fingerprint
  | AdminTerminate Fingerprint

inductive tls_step :: "TlsServer \<Rightarrow> event \<Rightarrow> TlsServer \<Rightarrow> bool" where
  accept: "tls_step s Accept (accept_connection s)"
| verified: "Handshaking \<in># tasks s \<Longrightarrow> verify_client_cert (\<lambda>c. c) (trust s) cert = Ok fp \<Longrightarrow>
     tls_step s (Present cert) (finish_handshake fp s)"
| refused: "Handshaking \<in># tasks s \<Longrightarrow> verify_client_cert (\<lambda>c. c) (trust s) cert = Err e \<Longrightarrow>
     tls_step s (Present cert) (end_task Handshaking s)"
| resumed: "Handshaking \<in># tasks s \<Longrightarrow> fp |\<in>| sessions s \<Longrightarrow>
     tls_step s (Resume fp) (replace_task Handshaking (Verified fp) s)"
| forget: "tls_step s (Forget fp) (s\<lparr>sessions := sessions s |-| {|fp|}\<rparr>)"
| abort: "t \<in># tasks s \<Longrightarrow> t = Handshaking \<or> (\<exists>fp. t = Verified fp) \<Longrightarrow> tls_step s (Abort t) (end_task t s)"
| register: "Verified fp \<in># tasks s \<Longrightarrow> register_connection fp s = (Ok s' :: (TlsServer, unit) result) \<Longrightarrow>
     tls_step s (Register fp) s'"
| finish: "Serving h \<in># tasks s \<Longrightarrow> tls_step s (Finish h) (end_connection h s)"
| approve: "tls_step s (AdminApprove fp) (s\<lparr>trust := snd (ApprovedClients_insert fp (trust s))\<rparr>)"
| revoke: "tls_step s (AdminRevoke fp)
     (s\<lparr>trust := snd (ApprovedClients_remove fp (trust s)), revoking := fp # revoking s\<rparr>)"
| terminate: "fp \<in> set (revoking s) \<Longrightarrow> tls_step s (AdminTerminate fp)
     (s\<lparr>open_connections := snd (LiveConnections_revoke fp (open_connections s)), revoking := remove1 fp (revoking s)\<rparr>)"

inductive tls_run :: "TlsServer \<Rightarrow> event list \<Rightarrow> TlsServer \<Rightarrow> bool" where
  stop: "tls_run s [] s"
| step: "tls_step s e s1 \<Longrightarrow> tls_run s1 es s2 \<Longrightarrow> tls_run s (e # es) s2"

inductive_cases tls_step_cases: "tls_step s e s'"
inductive_simps tls_run_simps: "tls_run s [] s'" "tls_run s (e # es) s'"

lemma tls_run_append: "tls_run s es s1 \<Longrightarrow> tls_run s1 fs s2 \<Longrightarrow> tls_run s (es @ fs) s2"
  by (induction rule: tls_run.induct) (auto intro: tls_run.intros)

lemma tls_run_split: "tls_run s (es @ fs) s' \<longleftrightarrow> (\<exists>s1. tls_run s es s1 \<and> tls_run s1 fs s')"
  by (induction es arbitrary: s) (auto simp: tls_run_simps)

section \<open>What holds of every state\<close>

text \<open>
  Permits and tasks add up; the ids of the connections being served are distinct and used; the
  ids of the table are those of connections being served, at most five of a fingerprint.
\<close>

definition handles :: "TlsServer \<Rightarrow> ConnectionHandle multiset" where
  "handles s = image_mset (\<lambda>t. case t of Serving h \<Rightarrow> h) (filter_mset (\<lambda>t. case t of Serving _ \<Rightarrow> True | _ \<Rightarrow> False) (tasks s))"

definition tls_invariant :: "TlsServer \<Rightarrow> bool" where
  "tls_invariant s \<longleftrightarrow>
     permits s + size (tasks s) = 100
     \<and> max_connections_per_fingerprint (open_connections s) = Some 5
     \<and> (\<forall>fp. fcard (open_ids (open_connections s) fp) \<le> 5)
     \<and> (\<forall>h. count (handles s) h \<le> 1 \<and> (h \<in># handles s \<longrightarrow> unat (handle_id h) < unat (next_id (open_connections s))))
     \<and> (\<forall>fp n. n |\<in>| open_ids (open_connections s) fp \<longrightarrow> \<lparr>handle_fingerprint = fp, handle_id = n\<rparr> \<in># handles s)"

lemma handles_simps [simp]:
  "handles (s\<lparr>trust := a\<rparr>) = handles s" "handles (s\<lparr>open_connections := l\<rparr>) = handles s"
  "handles (s\<lparr>revoking := r\<rparr>) = handles s" "handles (s\<lparr>permits := p\<rparr>) = handles s"
  "handles (s\<lparr>sessions := k\<rparr>) = handles s"
  by (simp_all add: handles_def)

lemma handles_end_task:
  "t \<in># tasks s \<Longrightarrow> handles (end_task t s) = (case t of Serving h \<Rightarrow> handles s - {#h#} | _ \<Rightarrow> handles s)"
  by (cases t) (auto simp: handles_def end_task_def image_mset_Diff filter_mset_add_mset dest!: multi_member_split)

lemma handles_add:
  "handles (s\<lparr>tasks := add_mset t M\<rparr>) = (case t of Serving h \<Rightarrow> add_mset h (handles (s\<lparr>tasks := M\<rparr>)) | _ \<Rightarrow> handles (s\<lparr>tasks := M\<rparr>))"
  by (cases t) (simp_all add: handles_def)

lemma handles_Serving: "h \<in># handles s \<longleftrightarrow> Serving h \<in># tasks s"
  by (force simp: handles_def split: task.splits)

section \<open>The invariant of the accept loop\<close>

lemma tls_invariantD:
  assumes "tls_invariant s"
  shows "permits s + size (tasks s) = 100" "max_connections_per_fingerprint (open_connections s) = Some 5"
    "fcard (open_ids (open_connections s) fp) \<le> 5" "count (handles s) h \<le> 1"
    "h \<in># handles s \<Longrightarrow> unat (handle_id h) < unat (next_id (open_connections s))"
    "n |\<in>| open_ids (open_connections s) fp \<Longrightarrow> \<lparr>handle_fingerprint = fp, handle_id = n\<rparr> \<in># handles s"
  using assms by (simp_all add: tls_invariant_def)

lemma tls_invariant_start: "tls_invariant (tls_server_start a)"
  by (simp add: tls_invariant_def tls_server_start_def MAX_CONCURRENT_TLS_CONNECTIONS_def
      MAX_CONNECTIONS_PER_FINGERPRINT_def with_max_connections_per_fingerprint_def open_ids_def handles_def fcard_fempty)

lemma tls_invariant_update:
  "tls_invariant (s\<lparr>trust := a\<rparr>) = tls_invariant s" "tls_invariant (s\<lparr>revoking := r\<rparr>) = tls_invariant s"
  "tls_invariant (s\<lparr>sessions := k\<rparr>) = tls_invariant s"
  by (simp_all add: tls_invariant_def)

lemma handles_accept: "handles (accept_connection s) = handles s"
  by (simp add: accept_connection_def handles_add)

lemma handles_replace:
  "t \<in># tasks s \<Longrightarrow> (\<And>h. t \<noteq> Serving h) \<Longrightarrow>
     handles (replace_task t t' s) = (case t' of Serving h \<Rightarrow> add_mset h (handles s) | _ \<Rightarrow> handles s)"
  by (cases t; cases t') (auto simp: handles_def replace_task_def dest!: multi_member_split)

lemma task_fields [simp]:
  "trust (end_task t s) = trust s" "open_connections (end_task t s) = open_connections s" "revoking (end_task t s) = revoking s"
  "permits (end_task t s) = permits s + 1" "tasks (end_task t s) = tasks s - {#t#}"
  "trust (replace_task t t' s) = trust s" "open_connections (replace_task t t' s) = open_connections s"
  "revoking (replace_task t t' s) = revoking s" "permits (replace_task t t' s) = permits s"
  "tasks (replace_task t t' s) = add_mset t' (tasks s - {#t#})"
  "sessions (end_task t s) = sessions s" "sessions (replace_task t t' s) = sessions s"
  by (simp_all add: end_task_def replace_task_def)

lemma finish_handshake_fields [simp]:
  "trust (finish_handshake fp s) = trust s" "open_connections (finish_handshake fp s) = open_connections s"
  "revoking (finish_handshake fp s) = revoking s" "permits (finish_handshake fp s) = permits s"
  "tasks (finish_handshake fp s) = add_mset (Verified fp) (tasks s - {#Handshaking#})"
  "sessions (finish_handshake fp s) = finsert fp (sessions s)"
  by (simp_all add: finish_handshake_def)

lemma tls_invariant_end_task:
  assumes "tls_invariant s" and "t \<in># tasks s" and "\<And>h. t \<noteq> Serving h"
  shows "tls_invariant (end_task t s)"
proof -
  have "handles (end_task t s) = handles s"
    using assms(2) assms(3) [of "case t of Serving h \<Rightarrow> h | _ \<Rightarrow> undefined"] by (cases t) (simp_all add: handles_end_task)
  with assms(1,2) show ?thesis
    by (auto simp: tls_invariant_def size_Diff_singleton dest: multi_member_split)
qed

lemma tls_invariant_verified:
  assumes "tls_invariant s" and "Handshaking \<in># tasks s"
  shows "tls_invariant (replace_task Handshaking (Verified fp) s)"
  using assms by (auto simp: tls_invariant_def handles_replace dest!: multi_member_split)

lemma tls_invariant_finish_handshake:
  "tls_invariant s \<Longrightarrow> Handshaking \<in># tasks s \<Longrightarrow> tls_invariant (finish_handshake fp s)"
  by (simp add: finish_handshake_def tls_invariant_update tls_invariant_verified)

lemma tls_invariant_finish:
  assumes inv: "tls_invariant s" and t: "Serving h \<in># tasks s"
  shows "tls_invariant (end_connection h s)"
proof -
  let ?s = "end_connection h s"
  have h: "handles ?s = handles s - {#h#}"
    using t by (simp add: end_connection_def handles_end_task)
  have o: "open_ids (open_connections ?s)
      = (open_ids (open_connections s))(handle_fingerprint h := open_ids (open_connections s) (handle_fingerprint h) |-| {|handle_id h|})"
    "next_id (open_connections ?s) = next_id (open_connections s)"
    "max_connections_per_fingerprint (open_connections ?s) = max_connections_per_fingerprint (open_connections s)"
    by (simp_all add: end_connection_def deregister_facts)
  have p: "permits ?s + size (tasks ?s) = permits s + size (tasks s)"
    using t by (auto simp: end_connection_def dest!: multi_member_split)
  have c: "fcard (open_ids (open_connections ?s) fp) \<le> 5" for fp
    using tls_invariantD(3) [OF inv, of fp]
      fcard_mono [of "open_ids (open_connections s) fp |-| {|handle_id h|}" "open_ids (open_connections s) fp"]
    by (auto simp: o fminus_fsubset_conv intro: order_trans)
  have k: "count (handles ?s) g \<le> 1 \<and> (g \<in># handles ?s \<longrightarrow> unat (handle_id g) < unat (next_id (open_connections ?s)))" for g
    using tls_invariantD(4,5) [OF inv, of g] by (auto simp: h o dest: in_diffD)
  have m: "\<lparr>handle_fingerprint = fp, handle_id = n\<rparr> \<in># handles ?s" if "n |\<in>| open_ids (open_connections ?s) fp" for fp n
  proof -
    have i: "n |\<in>| open_ids (open_connections s) fp" using that by (auto simp: o split: if_splits)
    have ne: "\<lparr>handle_fingerprint = fp, handle_id = n\<rparr> \<noteq> h"
    proof
      assume "\<lparr>handle_fingerprint = fp, handle_id = n\<rparr> = h"
      then have "handle_fingerprint h = fp" "handle_id h = n" by auto
      with that show False by (simp add: o)
    qed
    from tls_invariantD(6) [OF inv i] have "\<lparr>handle_fingerprint = fp, handle_id = n\<rparr> \<in># handles s" .
    with ne show ?thesis by (simp add: h in_diff_count)
  qed
  show ?thesis
    unfolding tls_invariant_def using p c k m tls_invariantD(1,2) [OF inv] by (simp add: o)
qed

lemma unat_next_id: "(n :: u64) \<noteq> - 1 \<Longrightarrow> unat (n + 1) = unat n + 1"
  by (metis add.commute add.left_neutral add_diff_cancel_right' diff_0 unatSuc Suc_eq_plus1)

lemma tls_invariant_register:
  assumes inv: "tls_invariant s" and t: "Verified fp \<in># tasks s"
    and r: "register_connection fp s = (Ok s' :: (TlsServer, unit) result)"
  shows "tls_invariant s'"
proof -
  obtain r1 l where l: "LiveConnections_register fp (open_connections s) = (Ok (r1, l) :: (_, unit) result)"
    and s': "s' = (case r1 of None \<Rightarrow> end_task (Verified fp) (s\<lparr>open_connections := l\<rparr>)
       | Some h \<Rightarrow> replace_task (Verified fp) (Serving h) (s\<lparr>open_connections := l\<rparr>))"
    using r by (auto simp: register_connection_def and_then_eq_Ok_iff split: option.splits)
  show ?thesis
  proof (cases r1)
    case None
    then show ?thesis using inv t l s' tls_invariant_end_task [of s "Verified fp"] by (auto dest: register_refused)
  next
    case (Some h)
    note f = open_ids_register [OF l [unfolded Some]]
    have m: "max_connections_per_fingerprint (open_connections s) = Some 5" using inv by (simp add: tls_invariant_def)
    have n: "unat (next_id l) = unat (next_id (open_connections s)) + 1"
      using f by (simp add: unat_next_id)
    have hs: "handles s' = add_mset h (handles s)" and os: "open_connections s' = l"
      using Some s' t by (simp_all add: handles_replace)
    have fresh: "h \<notin># handles s" using inv f by (force simp: tls_invariant_def)
    have p: "permits s' + size (tasks s') = 100"
      using Some s' t inv by (auto simp: tls_invariant_def dest!: multi_member_split)
    have c: "fcard (open_ids l fq) \<le> 5" for fq
      using tls_invariantD(3) [OF inv, of fq] f m by (auto simp: fcard_finsert_if)
    have k: "count (handles s') g \<le> 1 \<and> (g \<in># handles s' \<longrightarrow> unat (handle_id g) < unat (next_id l))" for g
      using tls_invariantD(4,5) [OF inv, of g] fresh f n by (auto simp: hs not_in_iff)
    have m': "\<lparr>handle_fingerprint = fq, handle_id = i\<rparr> \<in># handles s'" if "i |\<in>| open_ids l fq" for fq i
      using that f tls_invariantD(6) [OF inv, of i fq] by (auto simp: hs split: if_splits)
    show ?thesis unfolding tls_invariant_def using p c k m' f m by (simp add: os)
  qed
qed

lemma tls_invariant_step: "tls_step s e s' \<Longrightarrow> tls_invariant s \<Longrightarrow> tls_invariant s'"
proof (induction rule: tls_step.induct)
  case (accept s)
  have o: "open_connections (accept_connection s) = open_connections s"
    and p: "permits (accept_connection s) + size (tasks (accept_connection s)) = permits s + size (tasks s)"
    by (simp_all add: accept_connection_def)
  from accept show ?case unfolding tls_invariant_def handles_accept o p .
next
  case (terminate fp s)
  then show ?case by (auto simp: tls_invariant_def revoke_facts fcard_fempty)
next
  case (abort t s)
  then show ?case by (auto intro: tls_invariant_end_task)
qed (auto simp: tls_invariant_update intro: tls_invariant_verified tls_invariant_finish_handshake tls_invariant_end_task tls_invariant_finish tls_invariant_register)

lemma tls_invariant_run: "tls_run s es s' \<Longrightarrow> tls_invariant s \<Longrightarrow> tls_invariant s'"
  by (induction rule: tls_run.induct) (auto intro: tls_invariant_step)

section \<open>Admission to the server\<close>

text \<open>The connections of a fingerprint that are serving and not cancelled.\<close>

definition serving :: "Fingerprint \<Rightarrow> TlsServer \<Rightarrow> ConnectionHandle multiset" where
  "serving fp s = filter_mset (\<lambda>h. handle_fingerprint h = fp \<and> \<not> is_cancelled (open_connections s) h) (handles s)"

lemma serving_at_most_five:
  assumes inv: "tls_invariant s"
  shows "size (serving fp s) \<le> 5"
proof -
  let ?ids = "fset (open_ids (open_connections s) fp)"
  have one: "count (serving fp s) h \<le> 1" for h
    using tls_invariantD(4) [OF inv, of h] by (simp add: serving_def)
  have "serving fp s = mset_set (set_mset (serving fp s))"
  proof (rule multiset_eqI)
    fix h
    show "count (serving fp s) h = count (mset_set (set_mset (serving fp s))) h"
      using one [of h] by (cases "h \<in># serving fp s") (auto simp: count_mset_set' not_in_iff intro!: le_antisym Suc_leI)
  qed
  then have "size (serving fp s) = card (set_mset (serving fp s))" by (metis size_mset_set)
  also have "\<dots> = card (handle_id ` set_mset (serving fp s))"
    by (subst card_image) (auto simp: inj_on_def serving_def)
  also have "\<dots> \<le> card ?ids"
    by (rule card_mono) (auto simp: serving_def is_cancelled_def)
  also have "\<dots> \<le> 5"
    using tls_invariantD(3) [OF inv, of fp] by (simp add: fcard.rep_eq)
  finally show ?thesis .
qed

lemma trust_accept: "trust (accept_connection s) = trust s"
  by (simp add: accept_connection_def)

lemma trust_register: "register_connection fp s = Ok s' \<Longrightarrow> trust s' = trust s"
  by (auto simp: register_connection_def and_then_eq_Ok_iff split: option.splits)

lemma trust_run:
  "tls_run s es s' \<Longrightarrow> max_clients (trust s') = max_clients (trust s)
     \<and> (\<forall>m. max_clients (trust s) = Some m \<longrightarrow> fcard (fingerprints (trust s)) \<le> k \<longrightarrow> m \<le> k \<longrightarrow> fcard (fingerprints (trust s')) \<le> k)"
proof (induction rule: tls_run.induct)
  case (step s e s1 es s2)
  have "max_clients (trust s1) = max_clients (trust s)
     \<and> (\<forall>m. max_clients (trust s) = Some m \<longrightarrow> fcard (fingerprints (trust s)) \<le> k \<longrightarrow> m \<le> k \<longrightarrow> fcard (fingerprints (trust s1)) \<le> k)"
    using step.hyps(1)
  proof (induction rule: tls_step.induct)
    case (approve s fp)
    then show ?case by (auto simp: insert_capacity) (simp add: ApprovedClients_insert_def)
  next
    case (revoke s fp)
    have "fcard (fingerprints (snd (ApprovedClients_remove fp (trust s)))) \<le> fcard (fingerprints (trust s))"
      by (rule remove_capacity)
    then show ?case by (auto simp: ApprovedClients_remove_def)
  qed (auto simp: trust_accept end_connection_def dest: trust_register)
  with step.IH show ?case by auto
qed simp

text \<open>
  C15: whatever clients and administrators do and however their steps interleave, the
  TLS server never has more than 100 tasks, each holding a permit; never serves more than five
  connections of one fingerprint that are not cancelled, and never has two connections under one
  handle; and the number of approved clients does not pass \<open>--max-clients\<close> unless the file
  of approvals it started from already did.
\<close>

theorem tls_server_is_bounded:
  assumes "tls_run (tls_server_start (restored mx fps)) es s"
  shows "permits s + size (tasks s) = 100
    \<and> size (serving fp s) \<le> 5
    \<and> count (handles s) h \<le> 1
    \<and> (\<forall>m. mx = Some m \<longrightarrow> fcard (fingerprints (trust s)) \<le> max m (fcard (fset_of_list fps)))"
proof (intro conjI)
  have inv: "tls_invariant s"
    using tls_invariant_run [OF assms] tls_invariant_start by blast
  have mx: "max_clients (restored m fps) = m" for m
  proof -
    have "max_clients (fold ApprovedClients_seed fps a) = max_clients a" for a
      by (induction fps arbitrary: a) (simp_all add: ApprovedClients_seed_def)
    then show ?thesis by (cases m) (simp_all add: restored_def ApprovedClients_new_def with_max_clients_def)
  qed
  show "permits s + size (tasks s) = 100" "count (handles s) h \<le> 1"
    using inv tls_invariantD by auto
  show "size (serving fp s) \<le> 5" by (rule serving_at_most_five [OF inv])
  show "\<forall>m. mx = Some m \<longrightarrow> fcard (fingerprints (trust s)) \<le> max m (fcard (fset_of_list fps))"
    using trust_run [OF assms, of "max (the mx) (fcard (fset_of_list fps))"]
    by (auto simp: tls_server_start_def mx restored_fingerprints)
qed

text \<open>
  A client is shut out: it is not approved, no handshake of it is past the check of its
  certificate, and its connections are cancelled.
\<close>

definition shut_out :: "Fingerprint \<Rightarrow> TlsServer \<Rightarrow> bool" where
  "shut_out fp s \<longleftrightarrow> \<not> ApprovedClients_contains (trust s) fp \<and> Verified fp \<notin># tasks s \<and> serving fp s = {#}"

text \<open>Its full handshakes are refused.\<close>

definition unwelcome :: "Fingerprint \<Rightarrow> TlsServer \<Rightarrow> bool" where
  "unwelcome fp s \<longleftrightarrow> \<not> ApprovedClients_contains (trust s) fp \<and> Verified fp \<notin># tasks s"

lemma serving_empty:
  "serving fp s = {#} \<longleftrightarrow> (\<forall>h. Serving h \<in># tasks s \<longrightarrow> handle_fingerprint h = fp \<longrightarrow> is_cancelled (open_connections s) h)"
  by (auto simp: serving_def filter_mset_eq_mempty_iff handles_Serving)

lemma unwelcome_step:
  assumes "tls_step s e s'" and "unwelcome fp s" and "e \<noteq> AdminApprove fp" and "e \<noteq> Resume fp"
  shows "unwelcome fp s'"
  using assms
proof (induction rule: tls_step.induct)
  case (approve s fq)
  then show ?case by (auto simp: unwelcome_def ApprovedClients_contains_def dest!: insert_member)
next
  case (verified s cert fq)
  then show ?case
    by (auto simp: unwelcome_def verify_client_cert_def dest: in_diffD split: option.splits if_splits)
next
  case (register fq s s')
  then show ?case
    by (auto simp: unwelcome_def register_connection_def and_then_eq_Ok_iff split: option.splits) (meson in_diffD)+
qed (auto simp: unwelcome_def accept_connection_def end_connection_def ApprovedClients_contains_def
      ApprovedClients_remove_def dest: in_diffD)

lemma unwelcome_run:
  "tls_run s es s' \<Longrightarrow> unwelcome fp s \<Longrightarrow> AdminApprove fp \<notin> set es \<Longrightarrow> Resume fp \<notin> set es \<Longrightarrow> unwelcome fp s'"
  by (induction rule: tls_run.induct) (auto dest: unwelcome_step)

lemma serving_step:
  assumes "tls_step s e s'" and "unwelcome fp s" and "serving fp s = {#}"
  shows "serving fp s' = {#}"
  using assms
proof (induction rule: tls_step.induct)
  case (register fq s s')
  then have ne: "fq \<noteq> fp" by (auto simp: unwelcome_def)
  obtain r l where l: "LiveConnections_register fq (open_connections s) = (Ok (r, l) :: (_, unit) result)"
    and s': "s' = (case r of None \<Rightarrow> end_task (Verified fq) (s\<lparr>open_connections := l\<rparr>)
       | Some h \<Rightarrow> replace_task (Verified fq) (Serving h) (s\<lparr>open_connections := l\<rparr>))"
    using register.hyps by (auto simp: register_connection_def and_then_eq_Ok_iff split: option.splits)
  show ?case
  proof (cases r)
    case None
    with l s' register.prems show ?thesis by (auto simp: serving_empty dest: register_refused in_diffD)
  next
    case (Some h)
    note f = open_ids_register [OF l [unfolded Some]]
    from Some s' register.prems ne f show ?thesis
      by (auto simp: serving_empty is_cancelled_def dest: in_diffD)
  qed
next
  case (finish h s)
  then show ?case
    by (auto simp: serving_empty end_connection_def is_cancelled_def deregister_facts dest: in_diffD)
qed (auto simp: serving_empty is_cancelled_def accept_connection_def revoke_facts dest: in_diffD)

lemma shut_out_run:
  "tls_run s es s' \<Longrightarrow> shut_out fp s \<Longrightarrow> AdminApprove fp \<notin> set es \<Longrightarrow> Resume fp \<notin> set es \<Longrightarrow> shut_out fp s'"
proof (induction rule: tls_run.induct)
  case (step s e s1 es s2)
  then show ?case using unwelcome_step [of s e s1 fp] serving_step [of s e s1 fp] by (auto simp: shut_out_def unwelcome_def)
qed simp

text \<open>A client that is not approved and has no session stored gets none, so it cannot resume one.\<close>

lemma sessions_register: "register_connection fp s = Ok s' \<Longrightarrow> sessions s' = sessions s"
  by (auto simp: register_connection_def and_then_eq_Ok_iff split: option.splits)

lemma no_session_step:
  assumes "tls_step s e s'" and "unwelcome fp s" and "fp |\<notin>| sessions s"
  shows "fp |\<notin>| sessions s' \<and> e \<noteq> Resume fp"
  using assms
  by (induction rule: tls_step.induct)
    (auto simp: unwelcome_def verify_client_cert_def accept_connection_def end_connection_def sessions_register
      split: option.splits if_splits)

lemma no_session_run:
  "tls_run s es s' \<Longrightarrow> unwelcome fp s \<Longrightarrow> fp |\<notin>| sessions s \<Longrightarrow> AdminApprove fp \<notin> set es \<Longrightarrow> Resume fp \<notin> set es"
proof (induction rule: tls_run.induct)
  case (step s e s1 es s2)
  then show ?case using no_session_step [of s e s1 fp] unwelcome_step [of s e s1 fp] by auto
qed simp

text \<open>
  C14: only two things bring a revoked client back: an approval, and a session that was stored
  before. A client that is revoked while no handshake of it is past the check of its certificate
  is shut out once the command has run: every connection of it is cancelled, and whatever happens
  next, until it is approved again it is never served, provided that no session of it
  is stored when it is revoked or that it resumes none. (That a stored session does bring it back
  is \<open>revoked_client_resumes_its_session\<close> below.)
\<close>

theorem revoked_client_stays_out:
  assumes "tls_run s (AdminRevoke fp # es @ AdminTerminate fp # fs) s'"
    and "Verified fp \<notin># tasks s" and "AdminApprove fp \<notin> set (es @ fs)"
    and "fp |\<notin>| sessions s \<or> Resume fp \<notin> set (es @ fs)"
  shows "shut_out fp s'"
proof -
  obtain s1 s2 s3 where 1: "tls_step s (AdminRevoke fp) s1" and 2: "tls_run s1 es s2"
    and 3: "tls_step s2 (AdminTerminate fp) s3" and 4: "tls_run s3 fs s'"
    using assms(1) by (auto simp: tls_run_simps tls_run_split)
  have "unwelcome fp s1"
    using 1 assms(2) by (auto elim!: tls_step_cases simp: unwelcome_def ApprovedClients_contains_def ApprovedClients_remove_def)
  moreover have "sessions s1 = sessions s" using 1 by (auto elim!: tls_step_cases)
  moreover have "tls_run s1 (es @ AdminTerminate fp # fs) s'" using 2 3 4 by (auto simp: tls_run_simps tls_run_split)
  ultimately have r: "Resume fp \<notin> set es \<and> Resume fp \<notin> set fs"
    using assms(3,4) no_session_run [of s1 "es @ AdminTerminate fp # fs" s' fp] by auto
  have u: "unwelcome fp s2" using \<open>unwelcome fp s1\<close> 2 assms(3) r by (auto intro: unwelcome_run)
  then have "unwelcome fp s3" using 3 by (auto intro: unwelcome_step)
  moreover have "serving fp s3 = {#}"
    using 3 by (auto elim!: tls_step_cases simp: serving_empty is_cancelled_def revoke_facts)
  ultimately have "shut_out fp s3" by (simp add: shut_out_def unwelcome_def)
  then show ?thesis using 4 assms(3) r by (auto intro: shut_out_run)
qed

section \<open>A revocation during a handshake\<close>

lemma register_first:
  assumes "open_ids l fp = {||}" and "max_connections_per_fingerprint l = Some (Suc m)" and "next_id l \<noteq> - 1"
  shows "LiveConnections_register fp l = (Ok (Some \<lparr>handle_fingerprint = fp, handle_id = next_id l\<rparr>,
      l\<lparr>next_id := next_id l + 1, by_fingerprint := (by_fingerprint l)(fp \<mapsto> {|next_id l|})\<rparr>) :: (_, 'e) result)"
  using assms by (auto simp: LiveConnections_register_def Let_def open_ids_def fcard_fempty split: option.splits)

text \<open>One connection of an approved client, up to the end of its handshake.\<close>

definition one_verified :: "Fingerprint \<Rightarrow> ApprovedClients \<Rightarrow> TlsServer" where
  "one_verified fp a = (tls_server_start a)\<lparr>permits := 99, tasks := {#Verified fp#}, sessions := {|fp|}\<rparr>"

lemma one_verified_run:
  assumes "ApprovedClients_contains a fp"
  shows "tls_run (tls_server_start a) [Accept, Present (Some fp)] (one_verified fp a)"
proof -
  let ?s = "(tls_server_start a)\<lparr>permits := 99, tasks := {#Handshaking#}\<rparr>"
  have "tls_step (tls_server_start a) Accept ?s"
    using tls_step.accept [of "tls_server_start a"]
    by (simp add: accept_connection_def tls_server_start_def MAX_CONCURRENT_TLS_CONNECTIONS_def)
  moreover have "tls_step ?s (Present (Some fp)) (one_verified fp a)"
    using tls_step.verified [of ?s "Some fp" fp] assms
    by (simp add: one_verified_def finish_handshake_def replace_task_def tls_server_start_def verify_client_cert_def)
  ultimately show ?thesis by (auto simp: tls_run_simps)
qed

text \<open>
  C36: when the certificate of a client has been checked and its connection is not yet in the
  table of live connections, a revocation misses it: the task registers and serves the
  client after \<open>OK REVOKE\<close> was answered, no longer approved and not cancelled.
\<close>

theorem revocation_misses_a_handshake:
  assumes "ApprovedClients_contains a fp"
  shows "\<exists>s. tls_run (tls_server_start a)
      [Accept, Present (Some fp), AdminRevoke fp, AdminTerminate fp, Register fp] s
    \<and> \<not> ApprovedClients_contains (trust s) fp \<and> size (serving fp s) = 1 \<and> revoking s = []"
proof -
  let ?s1 = "one_verified fp a"
  let ?a = "snd (ApprovedClients_remove fp a)"
  let ?s2 = "?s1\<lparr>trust := ?a, revoking := [fp]\<rparr>"
  let ?s3 = "?s1\<lparr>trust := ?a\<rparr>"
  let ?h = "\<lparr>handle_fingerprint = fp, handle_id = 0\<rparr>"
  let ?l = "(with_max_connections_per_fingerprint 5)\<lparr>next_id := 1, by_fingerprint := [fp \<mapsto> {|0|}]\<rparr>"
  let ?s4 = "replace_task (Verified fp) (Serving ?h) (?s3\<lparr>open_connections := ?l\<rparr>)"
  have "tls_step ?s1 (AdminRevoke fp) ?s2"
    using tls_step.revoke [of ?s1 fp] by (simp add: one_verified_def tls_server_start_def)
  moreover have "tls_step ?s2 (AdminTerminate fp) ?s3"
    using tls_step.terminate [of fp ?s2]
    by (simp add: one_verified_def tls_server_start_def LiveConnections_revoke_def with_max_connections_per_fingerprint_def)
  moreover have "LiveConnections_register fp (with_max_connections_per_fingerprint 5) = (Ok (Some ?h, ?l) :: (_, unit) result)"
    using register_first [of "with_max_connections_per_fingerprint 5" fp 4, where 'e = unit]
    by (simp add: with_max_connections_per_fingerprint_def open_ids_def)
  then have "register_connection fp ?s3 = (Ok ?s4 :: (TlsServer, unit) result)"
    by (simp add: register_connection_def one_verified_def tls_server_start_def MAX_CONNECTIONS_PER_FINGERPRINT_def)
  then have "tls_step ?s3 (Register fp) ?s4"
    by (intro tls_step.register) (simp_all add: one_verified_def)
  ultimately have "tls_run ?s1 [AdminRevoke fp, AdminTerminate fp, Register fp] ?s4"
    by (auto simp: tls_run_simps)
  with one_verified_run [OF assms] have
    "tls_run (tls_server_start a) ([Accept, Present (Some fp)] @ [AdminRevoke fp, AdminTerminate fp, Register fp]) ?s4"
    by (blast intro: tls_run_append)
  moreover have "\<not> ApprovedClients_contains (trust ?s4) fp"
    by (simp add: ApprovedClients_contains_def ApprovedClients_remove_def)
  moreover have "serving fp ?s4 = {#?h#}"
    by (simp add: serving_def handles_def one_verified_def is_cancelled_def open_ids_def)
  moreover have "revoking ?s4 = []" by (simp add: one_verified_def tls_server_start_def)
  ultimately show ?thesis by (intro exI [of _ ?s4]) simp
qed

theorem revocation_misses_a_handshake_witness:
  "\<exists>s. tls_run (tls_server_start (restored None [Fingerprint (replicate 32 7)]))
      [Accept, Present (Some (Fingerprint (replicate 32 7))), AdminRevoke (Fingerprint (replicate 32 7)),
       AdminTerminate (Fingerprint (replicate 32 7)), Register (Fingerprint (replicate 32 7))] s
    \<and> \<not> ApprovedClients_contains (trust s) (Fingerprint (replicate 32 7))
    \<and> size (serving (Fingerprint (replicate 32 7)) s) = 1 \<and> revoking s = []"
  by (rule revocation_misses_a_handshake) (simp add: ApprovedClients_contains_def restored_fingerprints)

theorem tls_server_is_bounded_witness:
  "\<exists>s. tls_run (tls_server_start (restored (Some 1) [Fingerprint (replicate 32 7)]))
      [Accept, Present (Some (Fingerprint (replicate 32 7)))] s
    \<and> permits s + size (tasks s) = 100 \<and> size (serving (Fingerprint (replicate 32 7)) s) \<le> 5"
proof -
  let ?a = "restored (Some 1) [Fingerprint (replicate 32 7)]"
  have "tls_run (tls_server_start ?a) [Accept, Present (Some (Fingerprint (replicate 32 7)))]
      (one_verified (Fingerprint (replicate 32 7)) ?a)"
    by (rule one_verified_run) (simp add: ApprovedClients_contains_def restored_fingerprints)
  then show ?thesis using tls_server_is_bounded by blast
qed

theorem revoked_client_stays_out_witness:
  "\<exists>s. tls_run (one_verified (Fingerprint (replicate 32 7)) ApprovedClients_new)
      (AdminRevoke (Fingerprint (replicate 32 9)) # [] @ AdminTerminate (Fingerprint (replicate 32 9)) # [Accept]) s
    \<and> shut_out (Fingerprint (replicate 32 9)) s"
proof -
  let ?fp = "Fingerprint (replicate 32 9)"
  let ?s = "one_verified (Fingerprint (replicate 32 7)) ApprovedClients_new"
  let ?t = "accept_connection (?s\<lparr>trust := snd (ApprovedClients_remove ?fp ApprovedClients_new)\<rparr>)"
  have 1: "tls_step ?s (AdminRevoke ?fp) (?s\<lparr>trust := snd (ApprovedClients_remove ?fp ApprovedClients_new), revoking := [?fp]\<rparr>)"
    using tls_step.revoke [of ?s ?fp] by (simp add: one_verified_def tls_server_start_def)
  have 2: "tls_step (?s\<lparr>trust := snd (ApprovedClients_remove ?fp ApprovedClients_new), revoking := [?fp]\<rparr>) (AdminTerminate ?fp)
      (?s\<lparr>trust := snd (ApprovedClients_remove ?fp ApprovedClients_new)\<rparr>)"
    using tls_step.terminate [of ?fp "?s\<lparr>trust := snd (ApprovedClients_remove ?fp ApprovedClients_new), revoking := [?fp]\<rparr>"]
    by (simp add: one_verified_def tls_server_start_def LiveConnections_revoke_def with_max_connections_per_fingerprint_def)
  have run: "tls_run ?s (AdminRevoke ?fp # [] @ AdminTerminate ?fp # [Accept]) ?t"
    unfolding append_Nil
    by (rule tls_run.step [OF 1], rule tls_run.step [OF 2], rule tls_run.step [OF tls_step.accept], rule tls_run.stop)
  have "Verified ?fp \<notin># tasks ?s" "?fp |\<notin>| sessions ?s" by (simp_all add: one_verified_def numeral_eq_Suc)
  with revoked_client_stays_out [OF run] run show ?thesis by auto
qed

section \<open>A resumed session\<close>

lemma unapproved_run:
  "tls_run s es s' \<Longrightarrow> \<not> ApprovedClients_contains (trust s) fp \<Longrightarrow> AdminApprove fp \<notin> set es \<Longrightarrow>
     \<not> ApprovedClients_contains (trust s') fp"
proof (induction rule: tls_run.induct)
  case (step s e s1 es s2)
  have "\<not> ApprovedClients_contains (trust s1) fp"
    using step.hyps(1) step.prems
    by (induction rule: tls_step.induct)
      (auto simp: trust_accept end_connection_def ApprovedClients_contains_def ApprovedClients_remove_def
        dest: trust_register insert_member)
  with step show ?case by simp
qed simp

text \<open>A client with a stored session and no connection in the table is admitted, approved or not.\<close>

lemma resumption_is_served:
  assumes inv: "tls_invariant s" and session: "fp |\<in>| sessions s" and free: "0 < permits s"
    and none: "open_ids (open_connections s) fp = {||}" and ids: "next_id (open_connections s) \<noteq> - 1"
  shows "\<exists>s'. tls_run s [Accept, Resume fp, Register fp] s' \<and> trust s' = trust s \<and> size (serving fp s') = 1"
proof -
  let ?l = "open_connections s" and ?h = "\<lparr>handle_fingerprint = fp, handle_id = next_id (open_connections s)\<rparr>"
  let ?l' = "?l\<lparr>next_id := next_id ?l + 1, by_fingerprint := (by_fingerprint ?l)(fp \<mapsto> {|next_id ?l|})\<rparr>"
  let ?s1 = "s\<lparr>permits := permits s - 1, tasks := add_mset Handshaking (tasks s)\<rparr>"
  let ?s2 = "replace_task Handshaking (Verified fp) ?s1"
  let ?s3 = "replace_task (Verified fp) (Serving ?h) (?s2\<lparr>open_connections := ?l'\<rparr>)"
  have "tls_step s Accept ?s1" using tls_step.accept [of s] free by (simp add: accept_connection_def)
  moreover have "tls_step ?s1 (Resume fp) ?s2" using session by (intro tls_step.resumed) simp_all
  moreover have "LiveConnections_register fp ?l = (Ok (Some ?h, ?l') :: (_, unit) result)"
    using register_first [of ?l fp 4] none ids tls_invariantD(2) [OF inv] by simp
  then have "register_connection fp ?s2 = (Ok ?s3 :: (TlsServer, unit) result)" by (simp add: register_connection_def)
  then have "tls_step ?s2 (Register fp) ?s3" by (intro tls_step.register) simp_all
  ultimately have "tls_run s [Accept, Resume fp, Register fp] ?s3" by (auto simp: tls_run_simps)
  moreover have "handles ?s3 = add_mset ?h (handles s)" by (simp add: handles_replace handles_add)
  then have "serving fp ?s3 = {#?h#} + filter_mset (\<lambda>h. handle_fingerprint h = fp \<and> handle_id h = next_id ?l) (handles s)"
    by (auto simp: serving_def is_cancelled_def open_ids_def intro!: filter_mset_cong)
  moreover have "filter_mset (\<lambda>h. handle_fingerprint h = fp \<and> handle_id h = next_id ?l) (handles s) = {#}"
    using tls_invariantD(5) [OF inv] by (fastforce simp: filter_mset_eq_mempty_iff)
  ultimately show ?thesis by (intro exI [of _ ?s3]) simp
qed

text \<open>
  C39: revoking a client does not end its stored session, and a resumed session is served without a look
  at the approvals: after any run of the server that ends with the revocation of a client, its
  connections cancelled, a client whose session rustls still stores connects again, resumes it and
  is served, not approved, as long as a permit is free.
\<close>

theorem revoked_client_resumes_its_session:
  assumes run: "tls_run (tls_server_start a) (es @ AdminRevoke fp # fs @ [AdminTerminate fp]) s"
    and revoked: "AdminApprove fp \<notin> set fs"
    and session: "fp |\<in>| sessions s"
    and room: "0 < permits s" "next_id (open_connections s) \<noteq> - 1"
  shows "\<not> ApprovedClients_contains (trust s) fp \<and> serving fp s = {#}
    \<and> (\<exists>s'. tls_run s [Accept, Resume fp, Register fp] s'
         \<and> \<not> ApprovedClients_contains (trust s') fp \<and> size (serving fp s') = 1)"
proof -
  obtain s1 s2 s3 where 1: "tls_step s1 (AdminRevoke fp) s2" and 2: "tls_run s2 fs s3" and 3: "tls_step s3 (AdminTerminate fp) s"
    using run by (auto simp: tls_run_simps tls_run_split)
  have "\<not> ApprovedClients_contains (trust s2) fp"
    using 1 by (auto elim!: tls_step_cases simp: ApprovedClients_contains_def ApprovedClients_remove_def)
  then have "\<not> ApprovedClients_contains (trust s3) fp" using 2 revoked by (auto dest: unapproved_run)
  then have out: "\<not> ApprovedClients_contains (trust s) fp" using 3 by (auto elim!: tls_step_cases)
  have none: "open_ids (open_connections s) fp = {||}" using 3 by (auto elim!: tls_step_cases simp: revoke_facts)
  then have "serving fp s = {#}" by (simp add: serving_empty is_cancelled_def)
  moreover have inv: "tls_invariant s" using tls_invariant_run [OF run] tls_invariant_start by blast
  ultimately show ?thesis using resumption_is_served [OF inv session room(1) none room(2)] out by auto
qed

theorem revoked_client_resumes_its_session_witness:
  "\<exists>s s'. tls_run (tls_server_start (restored None [Fingerprint (replicate 32 7)]))
      ([Accept, Present (Some (Fingerprint (replicate 32 7))), Abort (Verified (Fingerprint (replicate 32 7)))]
       @ AdminRevoke (Fingerprint (replicate 32 7)) # [] @ [AdminTerminate (Fingerprint (replicate 32 7))]) s
    \<and> tls_run s [Accept, Resume (Fingerprint (replicate 32 7)), Register (Fingerprint (replicate 32 7))] s'
    \<and> \<not> ApprovedClients_contains (trust s') (Fingerprint (replicate 32 7))
    \<and> size (serving (Fingerprint (replicate 32 7)) s') = 1"
proof -
  let ?fp = "Fingerprint (replicate 32 7)"
  let ?a = "restored None [?fp]" and ?gone = "snd (ApprovedClients_remove ?fp (restored None [?fp]))"
  let ?s1 = "(tls_server_start ?a)\<lparr>sessions := {|?fp|}\<rparr>"
  let ?s2 = "?s1\<lparr>trust := ?gone, revoking := [?fp]\<rparr>"
  let ?s3 = "?s1\<lparr>trust := ?gone\<rparr>"
  have "tls_run (tls_server_start ?a) [Accept, Present (Some ?fp)] (one_verified ?fp ?a)"
    by (rule one_verified_run) (simp add: ApprovedClients_contains_def restored_fingerprints)
  moreover have "tls_step (one_verified ?fp ?a) (Abort (Verified ?fp)) ?s1"
    using tls_step.abort [of "Verified ?fp" "one_verified ?fp ?a"]
    by (simp add: one_verified_def end_task_def tls_server_start_def MAX_CONCURRENT_TLS_CONNECTIONS_def)
  moreover have "tls_step ?s1 (AdminRevoke ?fp) ?s2"
    using tls_step.revoke [of ?s1 ?fp] by (simp add: tls_server_start_def)
  moreover have "tls_step ?s2 (AdminTerminate ?fp) ?s3"
    using tls_step.terminate [of ?fp ?s2]
    by (simp add: tls_server_start_def LiveConnections_revoke_def with_max_connections_per_fingerprint_def)
  ultimately have run: "tls_run (tls_server_start ?a)
      ([Accept, Present (Some ?fp), Abort (Verified ?fp)] @ AdminRevoke ?fp # [] @ [AdminTerminate ?fp]) ?s3"
    by (auto simp: tls_run_simps)
  have "?fp |\<in>| sessions ?s3" "0 < permits ?s3" "next_id (open_connections ?s3) \<noteq> - 1"
    by (simp_all add: tls_server_start_def MAX_CONCURRENT_TLS_CONNECTIONS_def with_max_connections_per_fingerprint_def)
  from revoked_client_resumes_its_session [OF run _ this] run show ?thesis by auto
qed

section \<open>Commands and restarts\<close>

text \<open>Commands one after another, each with where its saving stops.\<close>

definition admin_run ::
    "(Fingerprint fset \<Rightarrow> Fingerprint list) \<Rightarrow> (string list \<Rightarrow> string) \<Rightarrow> (SaveStop option \<times> AdminCommand) list \<Rightarrow> AdminState
     \<Rightarrow> AdminState" where
  "admin_run iter toml_of cs s = fold (\<lambda>(stop, c) s. snd (apply_admin_command iter toml_of stop c s)) cs s"

lemma apply_admin_command_trust:
  "approved (snd (apply_admin_command iter toml_of stop (Approve fp) s)) = snd (ApprovedClients_insert fp (approved s))"
  "live (snd (apply_admin_command iter toml_of stop (Approve fp) s)) = live s"
  "approved (snd (apply_admin_command iter toml_of stop (Revoke fp) s)) = snd (ApprovedClients_remove fp (approved s))"
  "live (snd (apply_admin_command iter toml_of stop (Revoke fp) s)) = snd (LiveConnections_revoke fp (live s))"
  "snd (apply_admin_command iter toml_of stop ListApproved s) = s"
  by (simp_all add: apply_admin_command_def Let_def split: prod.splits ApprovalOutcome.splits)

text \<open>A command changes nothing, or it tries to save.\<close>

lemma apply_admin_command_saves:
  "snd (apply_admin_command iter toml_of stop c s) = s
   \<or> files (snd (apply_admin_command iter toml_of stop c s))
     = persist iter toml_of stop (approved (snd (apply_admin_command iter toml_of stop c s))) (files s)"
  by (cases c) (auto simp: apply_admin_command_def Let_def ApprovedClients_insert_def split: prod.splits)

lemma persist_target:
  "target (persist iter toml_of stop a fs)
     = (case stop of None \<Rightarrow> Some (toml_of (map Fingerprint_display (iter (fingerprints a)))) | Some _ \<Rightarrow> target fs)"
  by (simp add: persist_def save_atomically_def ApprovedClients_fingerprints_def Let_def split: option.splits SaveStop.splits)

lemma proper_step:
  assumes "proper (approved s)" and "\<And>fp. c = Approve fp \<Longrightarrow> is_fingerprint fp"
  shows "proper (approved (snd (apply_admin_command iter toml_of stop c s)))"
proof (cases c)
  case (Approve fp)
  with assms show ?thesis by (auto simp: apply_admin_command_trust proper_def dest!: insert_member)
next
  case (Revoke fp)
  with assms show ?thesis by (auto simp: apply_admin_command_trust proper_def ApprovedClients_remove_def)
next
  case ListApproved
  with assms show ?thesis by (simp add: apply_admin_command_trust)
qed

text \<open>What a restart loads from the files: the approvals of the state \<open>s\<close>.\<close>

definition restart_restores :: "(string \<Rightarrow> string list option) \<Rightarrow> AdminState \<Rightarrow> ApprovalFiles \<Rightarrow> bool" where
  "restart_restores parse_toml s fs \<longleftrightarrow>
     (\<exists>fps. load_approvals parse_toml fs = Ok fps \<and> (\<forall>mx. fingerprints (restored mx fps) = fingerprints (approved s)))"

lemma saved_restores:
  assumes "saved toml_of iter s" and "proper (approved s)" and "\<And>S. fset_of_list (iter S) = S"
    and "\<And>fps. list_all is_fingerprint fps \<Longrightarrow>
        parse_toml (toml_of (map Fingerprint_display fps)) = Some (map Fingerprint_display fps)"
  shows "restart_restores parse_toml s (files s)"
  using saved_loads [OF assms] assms(3) by (auto simp: restart_restores_def restored_fingerprints)

lemma admin_run_snoc:
  "admin_run iter toml_of (cs @ [(stop, c)]) s = snd (apply_admin_command iter toml_of stop c (admin_run iter toml_of cs s))"
  by (simp add: admin_run_def)

lemma proper_run:
  "proper (approved s) \<Longrightarrow> \<forall>(stop, c) \<in> set cs. \<forall>fp. c = Approve fp \<longrightarrow> is_fingerprint fp \<Longrightarrow>
     proper (approved (admin_run iter toml_of cs s))"
proof (induction cs rule: rev_induct)
  case (snoc x cs)
  obtain stop c where x: "x = (stop, c)" by fastforce
  with snoc show ?case unfolding x admin_run_snoc by (intro proper_step) auto
qed (simp add: admin_run_def)

text \<open>
  C37: the file of approvals follows the commands. After any commands, whether their saving
  succeeds or stops anywhere, even at a crash while the temporary file is written, a
  restart succeeds and approves exactly the clients approved after some prefix of
  the commands; every later command left the set as it was or had its saving stopped. So
  when nothing stopped the restart brings back the current approvals.
\<close>

theorem approvals_survive_a_restart:
  assumes order: "\<And>S. fset_of_list (iter S) = S"
    and toml: "\<And>fps. list_all is_fingerprint fps \<Longrightarrow>
        parse_toml (toml_of (map Fingerprint_display fps)) = Some (map Fingerprint_display fps)"
    and start: "restart_restores parse_toml s (files s)" "proper (approved s)"
    and commands: "\<forall>(stop, c) \<in> set cs. \<forall>fp. c = Approve fp \<longrightarrow> is_fingerprint fp"
  shows "\<exists>n \<le> length cs.
     restart_restores parse_toml (admin_run iter toml_of (take n cs) s) (files (admin_run iter toml_of cs s))
     \<and> (\<forall>i. n \<le> i \<longrightarrow> i < length cs \<longrightarrow> fst (cs ! i) \<noteq> None
          \<or> fingerprints (approved (admin_run iter toml_of (take (Suc i) cs) s))
            = fingerprints (approved (admin_run iter toml_of (take i cs) s)))"
  using commands
proof (induction cs rule: rev_induct)
  case Nil
  then show ?case using start by (simp add: admin_run_def)
next
  case (snoc x cs)
  obtain stop c where x: "x = (stop, c)" by fastforce
  let ?run = "\<lambda>cs. admin_run iter toml_of cs s"
  let ?s = "?run cs" and ?s' = "?run (cs @ [x])"
  have s': "?s' = snd (apply_admin_command iter toml_of stop c ?s)" by (simp add: x admin_run_snoc)
  have proper: "proper (approved ?s')" using snoc.prems by (intro proper_run start(2)) simp
  obtain n where n: "n \<le> length cs" "restart_restores parse_toml (?run (take n cs)) (files ?s)"
    "\<And>i. n \<le> i \<Longrightarrow> i < length cs \<Longrightarrow> fst (cs ! i) \<noteq> None
        \<or> fingerprints (approved (?run (take (Suc i) cs))) = fingerprints (approved (?run (take i cs)))"
    using snoc by auto
  show ?case
  proof (cases "stop = None \<and> ?s' \<noteq> ?s")
    case True
    then have "saved toml_of iter ?s'"
      using apply_admin_command_saves [of iter toml_of stop c ?s] by (auto simp: s' saved_def persist_target)
    then have "restart_restores parse_toml ?s' (files ?s')"
      by (rule saved_restores [OF _ proper order toml])
    then show ?thesis by (intro exI [of _ "length (cs @ [x])"]) simp
  next
    case False
    then have same: "target (files ?s') = target (files ?s)"
      using apply_admin_command_saves [of iter toml_of stop c ?s] by (auto simp: s' persist_target split: option.splits)
    then have "restart_restores parse_toml (?run (take n (cs @ [x]))) (files ?s')"
      using n(1,2) by (simp add: restart_restores_def load_approvals_def)
    moreover have "fst ((cs @ [x]) ! i) \<noteq> None
        \<or> fingerprints (approved (?run (take (Suc i) (cs @ [x])))) = fingerprints (approved (?run (take i (cs @ [x]))))"
      if "n \<le> i" "i < length (cs @ [x])" for i
      using that n(3) [of i] False by (cases "i < length cs") (auto simp: nth_append x less_Suc_eq)
    ultimately show ?thesis using n(1) by (intro exI [of _ n]) simp
  qed
qed

text \<open>An array of lines stands for the file of the witness.\<close>

lemma lines_read_back:
  "list_all is_fingerprint fps \<Longrightarrow>
     butlast (split_on CHR 0x0A (concat (map (\<lambda>t. t @ [CHR 0x0A]) (map Fingerprint_display fps)))) = map Fingerprint_display fps"
proof -
  assume fps: "list_all is_fingerprint fps"
  have join: "concat (map (\<lambda>t. t @ [CHR 0x0A]) ts) = join_with [CHR 0x0A] (ts @ [[]])" for ts
    by (induction "[CHR 0x0A]" ts rule: join_with.induct) simp_all
  have plain: "\<not> plain CHR 0x0A" by (simp add: plain_def is_continuation_def is_whitespace_single)
  have no: "CHR 0x0A \<notin> set t" if "t \<in> set (map Fingerprint_display fps)" for t
    using that fps plain by (auto simp: list_all_iff is_word_def dest!: Fingerprint_display_word)
  have "split_on CHR 0x0A (join_with [CHR 0x0A] (map Fingerprint_display fps @ [[]])) = map Fingerprint_display fps @ [[]]"
    using no by (intro split_on_join) auto
  then show ?thesis unfolding join by simp
qed

theorem approvals_survive_a_restart_witness:
  "\<exists>n \<le> 2. restart_restores (\<lambda>t. Some (butlast (split_on CHR 0x0A t)))
     (admin_run sorted_list_of_fset (\<lambda>ts. concat (map (\<lambda>t. t @ [CHR 0x0A]) ts))
       (take n [(None, Approve (Fingerprint (replicate 32 7))), (Some (WriteStops 3), Revoke (Fingerprint (replicate 32 7)))])
       \<lparr>approved = ApprovedClients_new, live = LiveConnections_new, files = \<lparr>target = None, temp = None\<rparr>\<rparr>)
     (files (admin_run sorted_list_of_fset (\<lambda>ts. concat (map (\<lambda>t. t @ [CHR 0x0A]) ts))
       [(None, Approve (Fingerprint (replicate 32 7))), (Some (WriteStops 3), Revoke (Fingerprint (replicate 32 7)))]
       \<lparr>approved = ApprovedClients_new, live = LiveConnections_new, files = \<lparr>target = None, temp = None\<rparr>\<rparr>))"
proof -
  let ?iter = "sorted_list_of_fset :: Fingerprint fset \<Rightarrow> Fingerprint list"
  let ?toml = "\<lambda>ts. concat (map (\<lambda>t. t @ [CHR 0x0A]) ts) :: string"
  let ?parse = "\<lambda>t. Some (butlast (split_on CHR 0x0A t))"
  let ?s = "\<lparr>approved = ApprovedClients_new, live = LiveConnections_new, files = \<lparr>target = None, temp = None\<rparr>\<rparr>"
  let ?cs = "[(None, Approve (Fingerprint (replicate 32 7))), (Some (WriteStops 3), Revoke (Fingerprint (replicate 32 7)))]"
  have order: "fset_of_list (?iter S) = S" for S by (simp add: fset_eq_iff fset_of_list_elem)
  have toml: "?parse (?toml (map Fingerprint_display fps)) = Some (map Fingerprint_display fps)"
    if "list_all is_fingerprint fps" for fps using lines_read_back [OF that] by simp
  have "restart_restores ?parse ?s (files ?s)" "proper (approved ?s)"
    by (simp_all add: restart_restores_def load_approvals_def restored_fingerprints ApprovedClients_new_def proper_def)
  moreover have "\<forall>(stop, c) \<in> set ?cs. \<forall>fp. c = Approve fp \<longrightarrow> is_fingerprint fp" by (simp add: is_fingerprint_def)
  ultimately obtain n where n: "n \<le> length ?cs"
    "restart_restores ?parse (admin_run ?iter ?toml (take n ?cs) ?s) (files (admin_run ?iter ?toml ?cs ?s))"
    using approvals_survive_a_restart [of ?iter ?parse ?toml ?s ?cs, OF order toml] by blast
  show ?thesis using n(1) by (intro exI [of _ n] conjI n(2)) simp
qed

section \<open>The lines of the admin protocol\<close>

lemma split_two_words: "is_word a \<Longrightarrow> is_word b \<Longrightarrow> split_whitespace (a @ '' '' @ b) = [a, b]"
  using split_whitespace_join [of "[a, b]"] by simp

text \<open>
  what the subcommand \<open>server admin\<close> sends for a fingerprint in its printed form is read back
  as that command on that fingerprint, and reading a printed fingerprint gives the fingerprint. (The
  reader is more liberal than the printer: \<open>loose_fingerprint_byte\<close> below.)
\<close>

theorem admin_commands_read_back:
  assumes "is_fingerprint fp"
  shows "map_option (AdminCommand_parse show_debug show_error) (run_admin_subcommand [''approve'', Fingerprint_display fp])
      = Some (Ok (Approve fp))"
    and "map_option (AdminCommand_parse show_debug show_error) (run_admin_subcommand [''revoke'', Fingerprint_display fp])
      = Some (Ok (Revoke fp))"
    and "map_option (AdminCommand_parse show_debug show_error) (run_admin_subcommand [''list'']) = Some (Ok ListApproved)"
    and "Fingerprint_from_str (Fingerprint_display fp) = Ok fp"
proof -
  have w: "is_word ''APPROVE''" "is_word ''REVOKE''" "is_word ''LIST''"
    by (simp_all add: is_word_def plain_def is_continuation_def is_whitespace_single)
  note split = split_two_words [OF w(1) Fingerprint_display_word [OF assms]]
    split_two_words [OF w(2) Fingerprint_display_word [OF assms]]
  have l: "split_whitespace ''LIST'' = [''LIST'']"
    using split_whitespace_join [of "[''LIST'']"] w(3) by simp
  show "map_option (AdminCommand_parse show_debug show_error) (run_admin_subcommand [''approve'', Fingerprint_display fp])
      = Some (Ok (Approve fp))"
    using split(1) by (simp add: run_admin_subcommand_def AdminCommand_parse_def Fingerprint_from_display [OF assms])
  show "map_option (AdminCommand_parse show_debug show_error) (run_admin_subcommand [''revoke'', Fingerprint_display fp])
      = Some (Ok (Revoke fp))"
    using split(2) by (simp add: run_admin_subcommand_def AdminCommand_parse_def Fingerprint_from_display [OF assms])
  show "map_option (AdminCommand_parse show_debug show_error) (run_admin_subcommand [''list'']) = Some (Ok ListApproved)"
    using l by (simp add: run_admin_subcommand_def AdminCommand_parse_def)
  show "Fingerprint_from_str (Fingerprint_display fp) = Ok fp" by (rule Fingerprint_from_display [OF assms])
qed

theorem admin_commands_read_back_witness:
  "map_option (AdminCommand_parse (\<lambda>t. t) (\<lambda>e. [])) (run_admin_subcommand [''revoke'', Fingerprint_display (Fingerprint (replicate 32 7))])
     = Some (Ok (Revoke (Fingerprint (replicate 32 7))))"
  by (rule admin_commands_read_back(2)) (simp add: is_fingerprint_def)

text \<open>The reader takes a byte in upper case, with one digit or with a sign, which the printer never writes.\<close>

lemma loose_fingerprint_byte:
  "from_str_radix_unsigned 8 16 ''A'' = Some 10" "from_str_radix_unsigned 8 16 ''+a'' = Some 10"
  "show_hex_byte_lower 10 = ''0a''"
  by code_simp+

end
