(* ===== verification/Line_Socket.thy ===== *)
theory Line_Socket
  imports Data_Socket Access_Control
begin

text \<open>
  The local sockets the admin and the data protocol are spoken on (\<open>server/src/line_socket.rs\<close>,
  \<open>peer_auth.rs\<close>): who may speak, and the loop that answers a connection line by line. Binding the
  socket and the modes of its file are calls of the operating system.
\<close>

definition is_authorized_uid :: "nat \<Rightarrow> nat \<Rightarrow> bool" where
  "is_authorized_uid server_uid peer_uid \<longleftrightarrow> peer_uid = server_uid"

text \<open>
  The task of a connection: the lines that arrive, each with whether its response can be written.
  It ends with the lines, or when a write fails, or when the handler panics; the state
  is what the handler shares with the rest of the server.
\<close>

fun answer_lines ::
    "(string \<Rightarrow> 's \<Rightarrow> (string \<times> 's, 'e) result) \<Rightarrow> (string \<times> bool) list \<Rightarrow> 's \<Rightarrow> string list \<times> 's" where
  "answer_lines handle_line [] s = ([], s)"
| "answer_lines handle_line ((line, sent) # rest) s =
     (case handle_line line s of
        Ok (response, s') \<Rightarrow>
          if sent then (let (responses, s'') = answer_lines handle_line rest s' in ((response @ [CHR 0x0A]) # responses, s''))
          else ([], s')
      | _ \<Rightarrow> ([], s))"

text \<open>The credentials the kernel reports, if it does.\<close>

definition socket_connection ::
    "(string \<Rightarrow> 's \<Rightarrow> (string \<times> 's, 'e) result) \<Rightarrow> nat \<Rightarrow> nat option \<Rightarrow> (string \<times> bool) list \<Rightarrow> 's \<Rightarrow> string list \<times> 's" where
  "socket_connection handle_line server_uid credentials ls s =
     (case credentials of
        Some uid \<Rightarrow> if is_authorized_uid server_uid uid then answer_lines handle_line ls s else ([], s)
      | None \<Rightarrow> ([], s))"

text \<open>Nobody but the user the server runs as is answered, or changes anything.\<close>

lemma strangers_are_ignored:
  "credentials \<noteq> Some server_uid \<Longrightarrow> socket_connection handle_line server_uid credentials ls s = ([], s)"
  by (cases credentials) (auto simp: socket_connection_def is_authorized_uid_def)

lemma answer_lines_total:
  assumes "\<And>l s. \<exists>r s'. handle_line l s = Ok (r, s')" and "list_all snd ls"
  shows "length (fst (answer_lines handle_line ls s)) = length ls
    \<and> snd (answer_lines handle_line ls s) = fold (\<lambda>(l, _) s. case handle_line l s of Ok (_, s') \<Rightarrow> s' | _ \<Rightarrow> s) ls s"
  using assms(2)
proof (induction ls arbitrary: s)
  case (Cons x ls)
  obtain l w where x: "x = (l, w)" by fastforce
  obtain r s1 where "handle_line l s = Ok (r, s1)" using assms(1) by blast
  with Cons x show ?case by (simp add: case_prod_beta)
qed simp

lemma AdminCommand_parse_not_Panic: "AdminCommand_parse sd se l \<noteq> Panic"
proof -
  have len: "for_each (\<lambda>(i, s) bs. case from_str_radix_unsigned 8 16 s of None \<Rightarrow> Err (InvalidHexByte s t)
        | Some n \<Rightarrow> assign bs i (of_nat n)) (enumerate k xs) (bs :: bytes) \<noteq> Panic"
    if "k + length xs \<le> length bs" for k xs bs t
    using that
    by (induction xs arbitrary: k bs) (auto simp: and_then_eq_Panic_iff assign_def split: option.splits if_splits)
  have fp: "Fingerprint_from_str t \<noteq> Panic" for t
  proof (cases "length (split_on CHR '':'' t) = 32")
    case True
    with len [of 0 "split_on CHR '':'' t" "replicate 32 0" t] show ?thesis
      by (cases "for_each (\<lambda>(i, s) bs. case from_str_radix_unsigned 8 16 s of None \<Rightarrow> Err (InvalidHexByte s t)
          | Some n \<Rightarrow> assign bs i (of_nat n)) (enumerate 0 (split_on CHR '':'' t)) (replicate 32 0 :: bytes)")
         (simp_all add: Fingerprint_from_str_def Let_def)
  qed (simp add: Fingerprint_from_str_def Let_def)
  show ?thesis
    using fp by (auto simp: AdminCommand_parse_def and_then_eq_Panic_iff split: list.splits)
qed

text \<open>The admin protocol answers every line; the data protocol does, but for the panic of a record's text.\<close>

lemma admin_lines_are_answered:
  assumes "list_all snd ls"
  shows "length (fst (socket_connection (\<lambda>l s. handle_admin_line sd se iter toml_of stop l s :: (_, unit) result)
      uid (Some uid) ls s)) = length ls"
proof -
  have "\<exists>r s'. (handle_admin_line sd se iter toml_of stop l s :: (_, unit) result) = Ok (r, s')" for l s
    using AdminCommand_parse_not_Panic [of sd se "trim_end l"]
    by (cases "AdminCommand_parse sd se (trim_end l)") (auto simp: handle_admin_line_def)
  from answer_lines_total [OF this assms] show ?thesis
    by (simp add: socket_connection_def is_authorized_uid_def)
qed

end
