(* ===== verification/Reconnect.thy ===== *)
theory Reconnect
  imports Prelude
begin

text \<open>
  The client's repair of a broken connection (\<open>client/src/reconnect.rs\<close>): the signal that the polling
  tasks set and the endless loop that dials again, whose steps interleave with those of the
  tasks. Durations are in seconds; dialing is the choice of an outcome.
\<close>

section \<open>The signal and the loop\<close>

text \<open>\<open>Notify\<close> holds at most one permit.\<close>

record ReconnectSignal =
  notify :: bool
  broken :: bool

definition ReconnectSignal_new :: ReconnectSignal where
  "ReconnectSignal_new = \<lparr>notify = False, broken = False\<rparr>"

definition INITIAL_BACKOFF :: nat where "INITIAL_BACKOFF = 1"
definition MAX_BACKOFF :: nat where "MAX_BACKOFF = 30"

definition next_backoff :: "nat \<Rightarrow> nat" where
  "next_backoff backoff = min (backoff * 2) MAX_BACKOFF"

text \<open>Where the loop is; \<open>Woken\<close> is between taking the permit and reading the flag.\<close>

datatype 'c place =
    Waiting
  | Woken
  | Dialing nat
  | Sleeping nat
  | Replacing 'c

text \<open>
  The loop with the signal, the connection of the client, and the number of tasks that are inside \<open>mark_broken\<close>,
  between its two statements.
\<close>

record 'c Healer =
  signal :: ReconnectSignal
  marking :: nat
  place :: "'c place"
  connection :: 'c

definition Healer_start :: "'c \<Rightarrow> 'c Healer" where
  "Healer_start c = \<lparr>signal = ReconnectSignal_new, marking = 0, place = Waiting, connection = c\<rparr>"

definition mark_flag :: "'c Healer \<Rightarrow> 'c Healer" where
  "mark_flag s = s\<lparr>signal := (signal s)\<lparr>broken := True\<rparr>, marking := marking s + 1\<rparr>"

definition mark_notify :: "'c Healer \<Rightarrow> 'c Healer" where
  "mark_notify s = s\<lparr>signal := (signal s)\<lparr>notify := True\<rparr>, marking := marking s - 1\<rparr>"

definition check_flag :: "'c Healer \<Rightarrow> 'c Healer" where
  "check_flag s = s\<lparr>signal := (signal s)\<lparr>broken := False\<rparr>,
     place := (if broken (signal s) then Dialing INITIAL_BACKOFF else Waiting)\<rparr>"

datatype 'c heal_event =
    MarkFlag
  | MarkNotify
  | Wake
  | Check
  | DialOk 'c
  | DialFails
  | Slept
  | Install

inductive heal_step :: "'c Healer \<Rightarrow> 'c heal_event \<Rightarrow> 'c Healer \<Rightarrow> bool" where
  mark_flag: "heal_step s MarkFlag (mark_flag s)"
| mark_notify: "marking s > 0 \<Longrightarrow> heal_step s MarkNotify (mark_notify s)"
| wake: "place s = Waiting \<Longrightarrow> notify (signal s) \<Longrightarrow>
     heal_step s Wake (s\<lparr>signal := (signal s)\<lparr>notify := False\<rparr>, place := Woken\<rparr>)"
| check: "place s = Woken \<Longrightarrow> heal_step s Check (check_flag s)"
| dial_ok: "place s = Dialing b \<Longrightarrow> heal_step s (DialOk c) (s\<lparr>place := Replacing c\<rparr>)"
| dial_fails: "place s = Dialing b \<Longrightarrow> heal_step s DialFails (s\<lparr>place := Sleeping b\<rparr>)"
| slept: "place s = Sleeping b \<Longrightarrow> heal_step s Slept (s\<lparr>place := Dialing (next_backoff b)\<rparr>)"
| install: "place s = Replacing c \<Longrightarrow> heal_step s Install (s\<lparr>connection := c, place := Waiting\<rparr>)"

inductive heal_run :: "'c Healer \<Rightarrow> 'c heal_event list \<Rightarrow> 'c Healer \<Rightarrow> bool" where
  stop: "heal_run s [] s"
| step: "heal_step s e s1 \<Longrightarrow> heal_run s1 es s2 \<Longrightarrow> heal_run s (e # es) s2"

inductive_simps heal_step_simps:
  "heal_step s MarkFlag s'" "heal_step s MarkNotify s'" "heal_step s Wake s'" "heal_step s Check s'"
  "heal_step s (DialOk c) s'" "heal_step s DialFails s'" "heal_step s Slept s'" "heal_step s Install s'"
inductive_simps heal_run_simps: "heal_run s [] s'" "heal_run s (e # es) s'"

lemma heal_run_append: "heal_run s (es @ fs) s' \<longleftrightarrow> (\<exists>s1. heal_run s es s1 \<and> heal_run s1 fs s')"
  by (induction es arbitrary: s) (auto simp: heal_run_simps)

section \<open>No break is forgotten\<close>

text \<open>A flag that is set will be read: a permit is there, or coming, or was just taken.\<close>

definition flag_will_be_read :: "'c Healer \<Rightarrow> bool" where
  "flag_will_be_read s \<longleftrightarrow> broken (signal s) \<longrightarrow> notify (signal s) \<or> marking s > 0 \<or> place s = Woken"

lemma flag_will_be_read_step: "heal_step s e s' \<Longrightarrow> flag_will_be_read s \<Longrightarrow> flag_will_be_read s'"
  by (induction rule: heal_step.induct)
     (auto simp: flag_will_be_read_def mark_flag_def mark_notify_def check_flag_def)

lemma flag_will_be_read_run: "heal_run s es s' \<Longrightarrow> flag_will_be_read s \<Longrightarrow> flag_will_be_read s'"
  by (induction rule: heal_run.induct) (auto intro: flag_will_be_read_step)

lemma flag_will_be_read_start: "flag_will_be_read (Healer_start c)"
  by (simp add: flag_will_be_read_def Healer_start_def ReconnectSignal_new_def)

text \<open>A dial is due until one succeeds, and its connection is then put in place.\<close>

definition dial_due :: "'c Healer \<Rightarrow> bool" where
  "dial_due s \<longleftrightarrow> broken (signal s) \<or> (\<exists>b. place s = Dialing b \<or> place s = Sleeping b)"

lemma dial_due_step:
  "heal_step s e s' \<Longrightarrow> dial_due s \<Longrightarrow> dial_due s' \<or> (\<exists>c. e = DialOk c \<and> place s' = Replacing c)"
  by (induction rule: heal_step.induct) (auto simp: dial_due_def mark_flag_def mark_notify_def check_flag_def)

lemma replacing_step:
  "heal_step s e s' \<Longrightarrow> place s = Replacing c \<Longrightarrow> place s' = Replacing c \<or> (e = Install \<and> connection s' = c)"
  by (induction rule: heal_step.induct) (auto simp: mark_flag_def mark_notify_def check_flag_def)

lemma replacing_run:
  assumes "heal_run s es s'" and "place s = Replacing c" and "place s' = Waiting"
  shows "\<exists>ys zs s1. es = ys @ Install # zs \<and> heal_run s (ys @ [Install]) s1 \<and> connection s1 = c"
  using assms
proof (induction rule: heal_run.induct)
  case (step s e s1 es s2)
  from replacing_step [OF step.hyps(1) step.prems(1)] show ?case
  proof
    assume "place s1 = Replacing c"
    then obtain ys zs s3 where "es = ys @ Install # zs" "heal_run s1 (ys @ [Install]) s3" "connection s3 = c"
      using step.IH step.prems(2) by blast
    then show ?thesis using step.hyps(1)
      by (intro exI [of _ "e # ys"] exI [of _ zs] exI [of _ s3]) (auto intro: heal_run.step)
  next
    assume i: "e = Install \<and> connection s1 = c"
    have "heal_run s [e] s1" using step.hyps(1) by (auto intro: heal_run.intros)
    then show ?thesis using i by (intro exI [of _ "[]"] exI [of _ es] exI [of _ s1]) auto
  qed
qed simp

lemma dial_due_run:
  assumes "heal_run s es s'" and "dial_due s" and "\<not> dial_due s'" and "place s' = Waiting"
  shows "\<exists>c xs ys zs s1. es = xs @ DialOk c # ys @ Install # zs
     \<and> heal_run s (xs @ DialOk c # ys @ [Install]) s1 \<and> connection s1 = c"
  using assms
proof (induction rule: heal_run.induct)
  case (step s e s1 es s2)
  from dial_due_step [OF step.hyps(1) step.prems(1)] show ?case
  proof
    assume "dial_due s1"
    then obtain c xs ys zs s3 where "es = xs @ DialOk c # ys @ Install # zs"
      "heal_run s1 (xs @ DialOk c # ys @ [Install]) s3" "connection s3 = c"
      using step.IH step.prems(2,3) by blast
    then show ?thesis using step.hyps(1)
      by (intro exI [of _ c] exI [of _ "e # xs"] exI [of _ ys] exI [of _ zs] exI [of _ s3]) (auto intro: heal_run.step)
  next
    assume "\<exists>c. e = DialOk c \<and> place s1 = Replacing c"
    then obtain c where c: "e = DialOk c" "place s1 = Replacing c" by blast
    from replacing_run [OF step.hyps(2) c(2) step.prems(3)] obtain ys zs s3
      where "es = ys @ Install # zs" "heal_run s1 (ys @ [Install]) s3" "connection s3 = c" by blast
    then show ?thesis using step.hyps(1) c(1)
      by (intro exI [of _ c] exI [of _ "[]"] exI [of _ ys] exI [of _ zs] exI [of _ s3]) (auto intro: heal_run.step)
  qed
qed simp

text \<open>The loop has nothing to do: it waits, without a permit there or about to be given.\<close>

definition at_rest :: "'c Healer \<Rightarrow> bool" where
  "at_rest s \<longleftrightarrow> place s = Waiting \<and> \<not> notify (signal s) \<and> marking s = 0"

text \<open>
  C38: no reported break is forgotten. When a task reports the connection broken, in whatever
  place the loop is and however the steps interleave, the loop does not come to rest before it has
  dialed a connection after the report and put it in place.
\<close>

theorem reported_breaks_are_healed:
  assumes "heal_run (Healer_start c0) (before @ MarkFlag # after) s" and "at_rest s"
  shows "\<exists>c xs ys zs s1. after = xs @ DialOk c # ys @ Install # zs
     \<and> heal_run (Healer_start c0) (before @ MarkFlag # xs @ DialOk c # ys @ [Install]) s1 \<and> connection s1 = c"
proof -
  obtain s2 s3 where 1: "heal_run (Healer_start c0) before s2" "heal_step s2 MarkFlag s3" and 2: "heal_run s3 after s"
    using assms(1) by (auto simp: heal_run_append heal_run_simps)
  have "dial_due s3" using 1(2) by (auto simp: heal_step_simps dial_due_def mark_flag_def)
  moreover have "flag_will_be_read s"
    using flag_will_be_read_run [OF assms(1) flag_will_be_read_start] .
  then have "\<not> dial_due s" and "place s = Waiting"
    using assms(2) by (auto simp: flag_will_be_read_def dial_due_def at_rest_def)
  ultimately obtain c xs ys zs s1 where "after = xs @ DialOk c # ys @ Install # zs"
    "heal_run s3 (xs @ DialOk c # ys @ [Install]) s1" "connection s1 = c"
    using dial_due_run [OF 2] by blast
  moreover have "heal_run (Healer_start c0) (before @ [MarkFlag]) s3"
    using 1 by (auto simp: heal_run_append heal_run_simps)
  then have "heal_run (Healer_start c0) ((before @ [MarkFlag]) @ xs @ DialOk c # ys @ [Install]) s1"
    using calculation(2) by (rule heal_run_append [THEN iffD2, OF exI, OF conjI])
  ultimately show ?thesis by force
qed

text \<open>While a break is reported or dialed for, the loop can take a step, or a task must end its report first.\<close>

lemma the_loop_is_never_stuck:
  assumes "heal_run (Healer_start c0) es s" and "\<not> at_rest s"
  shows "\<exists>e s'. e \<noteq> MarkFlag \<and> heal_step s e s'"
proof (cases "place s")
  case Waiting
  with assms(2) have "notify (signal s) \<or> marking s > 0" by (auto simp: at_rest_def)
  with Waiting show ?thesis by (blast intro: heal_step.wake heal_step.mark_notify)
qed (blast intro: heal_step.check heal_step.dial_fails heal_step.slept heal_step.install)+

section \<open>The pauses between attempts\<close>

lemma next_backoff_power: "next_backoff (min (2 ^ n) 30) = min (2 ^ Suc n) 30"
  by (simp add: next_backoff_def MAX_BACKOFF_def min_def)

text \<open>The \<open>n\<close>-th failed attempt of a pass is followed by a pause of \<open>2\<^sup>n\<^sup>-\<^sup>1\<close> seconds, at most 30.\<close>

lemma backoff_doubles:
  assumes "heal_run s es s'" and "place s = Dialing (min (2 ^ n) 30)" and "\<forall>c. DialOk c \<notin> set es"
  shows "place s' = Dialing (min (2 ^ (n + count_list es Slept)) 30) \<and> count_list es DialFails = count_list es Slept
     \<or> place s' = Sleeping (min (2 ^ (n + count_list es Slept)) 30) \<and> count_list es DialFails = Suc (count_list es Slept)"
proof -
  have "place s' = Dialing (min (2 ^ (n + count_list es Slept)) 30) \<and> k + count_list es DialFails = count_list es Slept + j
     \<or> place s' = Sleeping (min (2 ^ (n + count_list es Slept)) 30) \<and> k + count_list es DialFails = Suc (count_list es Slept + j)"
    if "place s = Dialing (min (2 ^ n) 30) \<and> k = j \<or> place s = Sleeping (min (2 ^ n) 30) \<and> k = Suc j" for k j
    using assms(1) that assms(3)
  proof (induction arbitrary: n k j rule: heal_run.induct)
    case (step s e s1 es s2)
    from step.hyps(1) step.prems show ?case
    proof (cases rule: heal_step.cases)
      case (dial_fails b)
      then show ?thesis using step.prems step.IH [of n "Suc k" j] by auto
    next
      case (slept b)
      then show ?thesis using step.prems step.IH [of "Suc n" k "Suc j"] by (auto simp: next_backoff_power)
    qed (use step.prems step.IH [of n k j] in \<open>auto simp: mark_flag_def mark_notify_def\<close>)
  qed auto
  from this [of 0 0] assms(2) show ?thesis by auto
qed

section \<open>A second repair\<close>

text \<open>
  A healthy connection can be replaced: a task whose request fails while the loop is already dialing
  sets the flag again, for the old connection, and there is a run in which the loop finds it set when
  the new connection is in place and dials once more.
\<close>

lemma healthy_connection_is_replaced:
  "\<exists>s s'. heal_run (Healer_start c0)
       [MarkFlag, MarkNotify, Wake, Check, MarkFlag, MarkNotify, DialOk c1, Install] s
     \<and> connection s = c1 \<and> marking s = 0
     \<and> heal_run s [Wake, Check, DialOk c2, Install] s' \<and> connection s' = c2 \<and> at_rest s'"
  by (simp add: heal_run_simps heal_step_simps mark_flag_def mark_notify_def check_flag_def
      Healer_start_def ReconnectSignal_new_def at_rest_def)

theorem reported_breaks_are_healed_witness:
  "\<exists>c xs ys zs s1. [MarkNotify, Wake, Check, DialFails, Slept, DialOk (1 :: nat), Install] = xs @ DialOk c # ys @ Install # zs
     \<and> heal_run (Healer_start 0) ([] @ MarkFlag # xs @ DialOk c # ys @ [Install]) s1 \<and> connection s1 = c"
proof -
  have "\<exists>s. heal_run (Healer_start (0 :: nat))
      ([] @ MarkFlag # [MarkNotify, Wake, Check, DialFails, Slept, DialOk 1, Install]) s \<and> at_rest s"
    by (simp add: heal_run_simps heal_step_simps mark_flag_def mark_notify_def check_flag_def
        Healer_start_def ReconnectSignal_new_def at_rest_def)
  then show ?thesis by (elim exE conjE) (rule reported_breaks_are_healed)
qed

end
