(* ===== verification/Command_Line.thy ===== *)
theory Command_Line
  imports Client_Trust Connection_String Server_Options
begin

text \<open>
  The command lines of the two programs (\<open>client/src/main.rs\<close>, \<open>server/src/main.rs\<close>) and the client's choice of
  how the server proves who it is (\<open>client/src/connection.rs\<close>). A panic ends the program with a
  message; \<open>Usage\<close> stands for the exit with the usage text. \<open>usize\<close> has 64 bits. Reading files, the TOML
  parser and the certificates are arguments.
\<close>

section \<open>Options\<close>

fun position_of :: "string \<Rightarrow> string list \<Rightarrow> nat option" where
  "position_of flag [] = None"
| "position_of flag (arg # args) = (if arg = flag then Some 0 else map_option Suc (position_of flag args))"

definition remove_at :: "nat \<Rightarrow> 'a list \<Rightarrow> 'a list" where
  "remove_at i xs = take i xs @ drop (Suc i) xs"

text \<open>What the functions below have in common: the option and its value leave the list.\<close>

definition take_flag :: "string \<Rightarrow> string list \<Rightarrow> (string option \<times> string list, 'e) result" where
  "take_flag flag args =
     (case position_of flag args of
        None \<Rightarrow> Ok (None, args)
      | Some flag_index \<Rightarrow>
          if flag_index + 1 \<ge> length args then Panic
          else let args = remove_at flag_index args in Ok (Some (args ! flag_index), remove_at flag_index args))"

text \<open>The value of an option that is there must be acceptable.\<close>

definition interpreted :: "('a \<Rightarrow> 'b option) \<Rightarrow> 'a option \<times> string list \<Rightarrow> ('b option \<times> string list, 'e) result" where
  "interpreted f = (\<lambda>(v, args). case v of
      None \<Rightarrow> Ok (None, args)
    | Some v \<Rightarrow> (case f v of None \<Rightarrow> Panic | Some x \<Rightarrow> Ok (Some x, args)))"

definition host_and_port :: "string \<Rightarrow> (string \<times> u16) option" where
  "host_and_port v =
     (case rsplit_once CHR '':'' v of
        None \<Rightarrow> None
      | Some (host, port) \<Rightarrow> map_option (\<lambda>n. (host, of_nat n)) (from_str_radix_unsigned 16 10 port))"

definition extract_mqtt_broker :: "string list \<Rightarrow> ((string \<times> u16) option \<times> string list, 'e) result" where
  "extract_mqtt_broker args = and_then (take_flag ''--mqtt-broker'' args) (interpreted host_and_port)"

definition extract_string_flag :: "string list \<Rightarrow> string \<Rightarrow> string \<Rightarrow> (string \<times> string list, 'e) result" where
  "extract_string_flag args flag default_value =
     and_then (take_flag flag args) (\<lambda>(v, args). Ok (case v of None \<Rightarrow> default_value | Some v \<Rightarrow> v, args))"

definition extract_mqtt_primary_host_id :: "string list \<Rightarrow> (string option \<times> string list, 'e) result" where
  "extract_mqtt_primary_host_id args = take_flag ''--mqtt-primary-host-id'' args"

definition parse_fingerprint :: "string \<Rightarrow> Fingerprint option" where
  "parse_fingerprint v = (case Fingerprint_from_str v of Ok fp \<Rightarrow> Some fp | _ \<Rightarrow> None)"

definition extract_expected_server_fingerprint :: "string list \<Rightarrow> (Fingerprint option \<times> string list, 'e) result" where
  "extract_expected_server_fingerprint args =
     and_then (take_flag ''--expect-server-fingerprint'' args) (interpreted parse_fingerprint)"

definition extract_max_clients :: "string list \<Rightarrow> (nat option \<times> string list, 'e) result" where
  "extract_max_clients args = and_then (take_flag ''--max-clients'' args) (interpreted (from_str_radix_unsigned 64 10))"

definition ServerOptions_default :: ServerOptions where
  "ServerOptions_default = ServerOptions_from
     \<lparr>RawFunctionCodes.read_coils = False, read_discrete_inputs = False, read_holding_registers = False,
      read_input_registers = False, write_single_coil = False, write_single_register = False,
      write_multiple_coils = False, write_multiple_registers = False, report_server_id = False,
      read_file_record = False, write_file_record = False, mask_write_register = False,
      read_write_multiple_registers = False, read_fifo_queue = False, read_device_identification = False\<rparr>"

definition extract_server_options ::
    "(string \<Rightarrow> string option) \<Rightarrow> (string \<Rightarrow> (RawServerOptions, unit) result) \<Rightarrow> string list
     \<Rightarrow> (ServerOptions \<times> string list, 'e) result" where
  "extract_server_options read_file from_toml args =
     and_then (take_flag ''--server-options'' args) (\<lambda>(path, args).
     case path of
       None \<Rightarrow> Ok (ServerOptions_default, args)
     | Some path \<Rightarrow>
         (case read_file path of
            None \<Rightarrow> Panic
          | Some toml_source \<Rightarrow>
              (case ServerOptions_parse from_toml toml_source of Ok opts \<Rightarrow> Ok (opts, args) | _ \<Rightarrow> Panic)))"

section \<open>The client\<close>

datatype Usage = Usage

definition DEFAULT_UNIT_ID :: u8 where "DEFAULT_UNIT_ID = 1"
definition DEFAULT_POLL_INTERVAL_MS :: nat where "DEFAULT_POLL_INTERVAL_MS = 1000"
definition DEFAULT_MQTT_GROUP_ID :: string where "DEFAULT_MQTT_GROUP_ID = ''infused_modbus''"
definition DEFAULT_MQTT_EDGE_NODE_ID :: string where "DEFAULT_MQTT_EDGE_NODE_ID = ''client''"

record ClientArguments =
  expected_server_fingerprint :: "Fingerprint option"
  mqtt_broker :: "(string \<times> u16) option"
  mqtt_group_id :: string
  mqtt_edge_node_id :: string
  mqtt_primary_host_id :: "string option"
  device_description_path :: string
  connection_string :: string
  unit_id :: u8
  poll_interval :: nat

text \<open>The positional arguments; further ones are ignored.\<close>

definition client_positional ::
    "Fingerprint option \<Rightarrow> (string \<times> u16) option \<Rightarrow> string \<Rightarrow> string \<Rightarrow> string option \<Rightarrow> string list \<Rightarrow> (ClientArguments, Usage) result" where
  "client_positional fp broker gid node_id primary args =
     (case args of
        path # conn # rest \<Rightarrow>
          and_then (case rest of
              [] \<Rightarrow> Ok DEFAULT_UNIT_ID
            | v # _ \<Rightarrow> (case from_str_radix_unsigned 8 10 v of None \<Rightarrow> Panic | Some n \<Rightarrow> Ok (of_nat n))) (\<lambda>uid.
          and_then (case rest of
              _ # v # _ \<Rightarrow> (case from_str_radix_unsigned 64 10 v of None \<Rightarrow> Panic | Some n \<Rightarrow> Ok n)
            | _ \<Rightarrow> Ok DEFAULT_POLL_INTERVAL_MS) (\<lambda>interval.
          Ok \<lparr>expected_server_fingerprint = fp, mqtt_broker = broker, mqtt_group_id = gid,
              mqtt_edge_node_id = node_id, mqtt_primary_host_id = primary, device_description_path = path,
              connection_string = conn, unit_id = uid, poll_interval = interval\<rparr>))
      | _ \<Rightarrow> Err Usage)"

definition client_arguments :: "string list \<Rightarrow> (ClientArguments, Usage) result" where
  "client_arguments raw_args =
     and_then (extract_expected_server_fingerprint raw_args) (\<lambda>(fp, raw_args).
     and_then (extract_mqtt_broker raw_args) (\<lambda>(broker, raw_args).
     and_then (extract_string_flag raw_args ''--mqtt-group-id'' DEFAULT_MQTT_GROUP_ID) (\<lambda>(gid, raw_args).
     and_then (extract_string_flag raw_args ''--mqtt-edge-node-id'' DEFAULT_MQTT_EDGE_NODE_ID) (\<lambda>(node_id, raw_args).
     and_then (extract_mqtt_primary_host_id raw_args) (\<lambda>(primary, args).
     client_positional fp broker gid node_id primary args)))))"

section \<open>The server\<close>

datatype ServerStart =
    AdminSubcommand "string list"
  | Serve "nat option" ServerOptions string string

definition server_positional :: "nat option \<Rightarrow> ServerOptions \<Rightarrow> string list \<Rightarrow> (ServerStart, Usage) result" where
  "server_positional mx opts args =
     (case args of
        [] \<Rightarrow> Err Usage
      | first_argument # rest \<Rightarrow>
          if first_argument = ''admin'' then Ok (AdminSubcommand rest)
          else (case rest of [] \<Rightarrow> Err Usage | conn # _ \<Rightarrow> Ok (Serve mx opts first_argument conn)))"

definition server_arguments ::
    "(string \<Rightarrow> string option) \<Rightarrow> (string \<Rightarrow> (RawServerOptions, unit) result) \<Rightarrow> string list \<Rightarrow> (ServerStart, Usage) result" where
  "server_arguments read_file from_toml raw_args =
     and_then (extract_max_clients raw_args) (\<lambda>(mx, raw_args).
     and_then (extract_server_options read_file from_toml raw_args) (\<lambda>(opts, args).
     server_positional mx opts args))"

section \<open>Where the options stand\<close>

text \<open>A command line as words and options with their values.\<close>

datatype item = Word string | Option string string

fun item_args :: "item \<Rightarrow> string list" where
  "item_args (Word w) = [w]"
| "item_args (Option flag v) = [flag, v]"

definition args_of :: "item list \<Rightarrow> string list" where
  "args_of items = concat (map item_args items)"

fun words_of :: "item list \<Rightarrow> string list" where
  "words_of [] = []"
| "words_of (Word w # items) = w # words_of items"
| "words_of (Option flag v # items) = words_of items"

fun options_of :: "item list \<Rightarrow> (string \<times> string) list" where
  "options_of [] = []"
| "options_of (Word w # items) = options_of items"
| "options_of (Option flag v # items) = (flag, v) # options_of items"

text \<open>Each option is one of \<open>flags\<close> and comes once; no other argument is the name of one.\<close>

definition well_formed :: "string set \<Rightarrow> item list \<Rightarrow> bool" where
  "well_formed flags items \<longleftrightarrow> distinct (map fst (options_of items))
     \<and> set (words_of items) \<inter> flags = {} \<and> (\<forall>(flag, v) \<in> set (options_of items). flag \<in> flags \<and> v \<notin> flags)"

definition without :: "string \<Rightarrow> item list \<Rightarrow> item list" where
  "without flag items = filter (\<lambda>item. case item of Word _ \<Rightarrow> True | Option g _ \<Rightarrow> g \<noteq> flag) items"

lemma take_flag_word: "w \<noteq> flag \<Longrightarrow> take_flag flag (w # ws) = map_ok (\<lambda>(v, r). (v, w # r)) (take_flag flag ws)"
  by (auto simp: take_flag_def Let_def remove_at_def split: option.splits)

lemma take_flag_here: "take_flag flag (flag # v # ws) = Ok (Some v, ws)"
  by (simp add: take_flag_def Let_def remove_at_def)

lemma map_ok_map_ok: "map_ok f (map_ok g r) = map_ok (f \<circ> g) r"
  by (cases r) simp_all

lemma words_of_without [simp]: "words_of (without flag items) = words_of items"
  by (induction items rule: words_of.induct) (simp_all add: without_def)

lemma options_of_without: "options_of (without flag items) = filter (\<lambda>(g, v). g \<noteq> flag) (options_of items)"
  by (induction items rule: words_of.induct) (simp_all add: without_def)

lemma without_absent: "flag \<notin> fst ` set (options_of items) \<Longrightarrow> without flag items = items"
  by (induction items rule: words_of.induct) (auto simp: without_def)

lemma well_formed_without: "well_formed flags items \<Longrightarrow> well_formed flags (without flag items)"
  by (auto simp: well_formed_def distinct_map_filter options_of_without)

lemma map_of_without: "g \<noteq> flag \<Longrightarrow> map_of (options_of (without flag items)) g = map_of (options_of items) g"
  by (induction items rule: words_of.induct) (auto simp: without_def)

lemma take_flag_items:
  "well_formed flags items \<Longrightarrow> flag \<in> flags \<Longrightarrow>
     take_flag flag (args_of items) = (Ok (map_of (options_of items) flag, args_of (without flag items)) :: (_, 'e) result)"
proof (induction items rule: words_of.induct)
  case 1
  then show ?case by (simp add: take_flag_def args_of_def without_def)
next
  case (2 w items)
  then have "take_flag flag (args_of items) = (Ok (map_of (options_of items) flag, args_of (without flag items)) :: (_, 'e) result)"
    by (auto simp: well_formed_def)
  moreover have "w \<noteq> flag" using 2 by (auto simp: well_formed_def)
  ultimately show ?case by (simp add: args_of_def without_def take_flag_word)
next
  case (3 g v items)
  show ?case
  proof (cases "g = flag")
    case True
    then have "without flag items = items" using 3 by (intro without_absent) (force simp: well_formed_def)
    with True show ?thesis by (simp add: args_of_def without_def take_flag_here)
  next
    case False
    from 3 have "take_flag flag (args_of items) = (Ok (map_of (options_of items) flag, args_of (without flag items)) :: (_, 'e) result)"
      by (auto simp: well_formed_def)
    moreover have "v \<noteq> flag" using 3 by (auto simp: well_formed_def)
    ultimately show ?thesis using False
      by (simp add: args_of_def without_def take_flag_word)
  qed
qed

lemma args_of_words: "options_of items = [] \<Longrightarrow> args_of items = words_of items"
  by (induction items rule: words_of.induct) (simp_all add: args_of_def)

text \<open>What is left when every option was taken.\<close>

lemma args_of_without_all:
  "well_formed flags items \<Longrightarrow> flags \<subseteq> set fs \<Longrightarrow> args_of (fold without fs items) = words_of items"
proof -
  have o: "options_of (fold without fs items) = filter (\<lambda>(g, v). g \<notin> set fs) (options_of items)" for fs
    by (induction fs arbitrary: items) (auto simp: options_of_without intro!: filter_cong)
  have w: "words_of (fold without fs items) = words_of items" for fs
    by (induction fs arbitrary: items) simp_all
  assume "well_formed flags items" "flags \<subseteq> set fs"
  then have "options_of (fold without fs items) = []" by (auto simp: o well_formed_def filter_empty_conv)
  then show ?thesis by (simp add: args_of_words w)
qed

definition client_flags :: "string list" where
  "client_flags = [''--expect-server-fingerprint'', ''--mqtt-broker'', ''--mqtt-group-id'', ''--mqtt-edge-node-id'',
     ''--mqtt-primary-host-id'']"

definition server_flags :: "string list" where
  "server_flags = [''--max-clients'', ''--server-options'']"

text \<open>The same options and the same words in the same order.\<close>

definition same_arguments :: "item list \<Rightarrow> item list \<Rightarrow> bool" where
  "same_arguments items items' \<longleftrightarrow> words_of items = words_of items' \<and> map_of (options_of items) = map_of (options_of items')"

lemma same_rest:
  "same_arguments items items' \<Longrightarrow> well_formed (set flags) items \<Longrightarrow> well_formed (set flags) items' \<Longrightarrow>
     args_of (fold without flags items) = args_of (fold without flags items')"
  using args_of_without_all [of "set flags" items flags] args_of_without_all [of "set flags" items' flags]
  by (simp add: same_arguments_def)

lemma client_arguments_items:
  assumes "well_formed (set client_flags) items"
  shows "client_arguments (args_of items) =
     (let given = map_of (options_of items) in
      and_then (interpreted parse_fingerprint (given ''--expect-server-fingerprint'', [])) (\<lambda>(fp, _).
      and_then (interpreted host_and_port (given ''--mqtt-broker'', [])) (\<lambda>(broker, _).
      client_positional fp broker
        (case given ''--mqtt-group-id'' of None \<Rightarrow> DEFAULT_MQTT_GROUP_ID | Some v \<Rightarrow> v)
        (case given ''--mqtt-edge-node-id'' of None \<Rightarrow> DEFAULT_MQTT_EDGE_NODE_ID | Some v \<Rightarrow> v)
        (given ''--mqtt-primary-host-id'') (words_of items))))"
proof -
  let ?flags = "set client_flags"
  let ?a = "without ''--expect-server-fingerprint'' items"
  let ?b = "without ''--mqtt-broker'' ?a"
  let ?c = "without ''--mqtt-group-id'' ?b"
  let ?d = "without ''--mqtt-edge-node-id'' ?c"
  let ?e = "without ''--mqtt-primary-host-id'' ?d"
  have w: "well_formed ?flags ?a" "well_formed ?flags ?b" "well_formed ?flags ?c" "well_formed ?flags ?d"
    using assms by (simp_all only: well_formed_without)
  have m: "''--expect-server-fingerprint'' \<in> ?flags" "''--mqtt-broker'' \<in> ?flags" "''--mqtt-group-id'' \<in> ?flags"
    "''--mqtt-edge-node-id'' \<in> ?flags" "''--mqtt-primary-host-id'' \<in> ?flags"
    by (simp_all add: client_flags_def)
  have e: "args_of ?e = words_of items"
    using args_of_without_all [OF assms, of client_flags] by (simp add: client_flags_def)
  let ?given = "map_of (options_of items)"
  have take: "take_flag ''--expect-server-fingerprint'' (args_of items) = (Ok (?given ''--expect-server-fingerprint'', args_of ?a) :: (_, Usage) result)"
    "take_flag ''--mqtt-broker'' (args_of ?a) = (Ok (?given ''--mqtt-broker'', args_of ?b) :: (_, Usage) result)"
    "take_flag ''--mqtt-group-id'' (args_of ?b) = (Ok (?given ''--mqtt-group-id'', args_of ?c) :: (_, Usage) result)"
    "take_flag ''--mqtt-edge-node-id'' (args_of ?c) = (Ok (?given ''--mqtt-edge-node-id'', args_of ?d) :: (_, Usage) result)"
    "take_flag ''--mqtt-primary-host-id'' (args_of ?d) = (Ok (?given ''--mqtt-primary-host-id'', words_of items) :: (_, Usage) result)"
    using take_flag_items [OF assms m(1)] take_flag_items [OF w(1) m(2)] take_flag_items [OF w(2) m(3)]
      take_flag_items [OF w(3) m(4)] take_flag_items [OF w(4) m(5)] e by (simp_all add: map_of_without)
  show ?thesis
    unfolding client_arguments_def extract_expected_server_fingerprint_def extract_mqtt_broker_def extract_string_flag_def
      extract_mqtt_primary_host_id_def take and_then.simps Let_def
    by (cases "?given ''--expect-server-fingerprint''"; cases "?given ''--mqtt-broker''")
       (simp_all add: interpreted_def take split: option.split)
qed

lemma server_arguments_items:
  assumes "well_formed (set server_flags) items"
  shows "server_arguments read_file from_toml (args_of items) =
     (let given = map_of (options_of items) in
      and_then (interpreted (from_str_radix_unsigned 64 10) (given ''--max-clients'', [])) (\<lambda>(mx, _).
      and_then (case given ''--server-options'' of
            None \<Rightarrow> Ok ServerOptions_default
          | Some path \<Rightarrow> (case read_file path of None \<Rightarrow> Panic | Some src \<Rightarrow>
              (case ServerOptions_parse from_toml src of Ok opts \<Rightarrow> Ok opts | _ \<Rightarrow> Panic))) (\<lambda>opts.
      server_positional mx opts (words_of items))))"
proof -
  let ?flags = "set server_flags"
  let ?a = "without ''--max-clients'' items"
  let ?b = "without ''--server-options'' ?a"
  have w: "well_formed ?flags ?a" using assms by (rule well_formed_without)
  have m: "''--max-clients'' \<in> ?flags" "''--server-options'' \<in> ?flags" by (simp_all add: server_flags_def)
  have e: "args_of ?b = words_of items"
    using args_of_without_all [OF assms, of server_flags] by (simp add: server_flags_def)
  let ?given = "map_of (options_of items)"
  have take: "take_flag ''--max-clients'' (args_of items) = (Ok (?given ''--max-clients'', args_of ?a) :: (_, Usage) result)"
    "take_flag ''--server-options'' (args_of ?a) = (Ok (?given ''--server-options'', words_of items) :: (_, Usage) result)"
    using take_flag_items [OF assms m(1)] take_flag_items [OF w m(2)] e by (simp_all add: map_of_without)
  have o: "and_then (and_then (take_flag ''--server-options'' (args_of ?a)) (\<lambda>(path, args).
        case path of None \<Rightarrow> Ok (ServerOptions_default, args) | Some path \<Rightarrow> (case read_file path of None \<Rightarrow> Panic | Some src \<Rightarrow>
          (case ServerOptions_parse from_toml src of Ok opts \<Rightarrow> Ok (opts, args) | _ \<Rightarrow> Panic))))
      (\<lambda>(opts, args). server_positional mx opts args)
    = and_then (case ?given ''--server-options'' of None \<Rightarrow> Ok ServerOptions_default
          | Some path \<Rightarrow> (case read_file path of None \<Rightarrow> Panic | Some src \<Rightarrow>
              (case ServerOptions_parse from_toml src of Ok opts \<Rightarrow> Ok opts | _ \<Rightarrow> Panic)))
      (\<lambda>opts. server_positional mx opts (words_of items))" for mx
  proof (cases "?given ''--server-options''")
    case (Some path)
    show ?thesis
    proof (cases "read_file path")
      case (Some src)
      with \<open>?given ''--server-options'' = Some path\<close> show ?thesis
        by (cases "ServerOptions_parse from_toml src") (simp_all add: take)
    qed (use Some in \<open>simp add: take\<close>)
  qed (simp add: take)
  show ?thesis
    unfolding server_arguments_def extract_max_clients_def extract_server_options_def take(1) and_then.simps Let_def
    by (cases "?given ''--max-clients''") (simp_all add: interpreted_def o split: option.split)
qed

text \<open>
  C40: it does not matter where the options stand. Two command lines of the client, or of the
  server, with the same words in the same order and the same values of the options are read alike,
  errors and panics included.
\<close>

theorem options_may_stand_anywhere:
  assumes "same_arguments items items'"
  shows "(well_formed (set client_flags) items \<longrightarrow> well_formed (set client_flags) items' \<longrightarrow>
        client_arguments (args_of items) = client_arguments (args_of items'))
    \<and> (well_formed (set server_flags) items \<longrightarrow> well_formed (set server_flags) items' \<longrightarrow>
        server_arguments read_file from_toml (args_of items) = server_arguments read_file from_toml (args_of items'))"
  using assms by (simp_all add: client_arguments_items server_arguments_items same_arguments_def)

theorem options_may_stand_anywhere_witness:
  "client_arguments [''d.toml'', ''--mqtt-broker'', ''h:1883'', ''tcp://a:502'', ''7'']
     = client_arguments [''d.toml'', ''tcp://a:502'', ''7'', ''--mqtt-broker'', ''h:1883'']"
proof -
  let ?i = "[Word ''d.toml'', Option ''--mqtt-broker'' ''h:1883'', Word ''tcp://a:502'', Word ''7'']"
  let ?j = "[Word ''d.toml'', Word ''tcp://a:502'', Word ''7'', Option ''--mqtt-broker'' ''h:1883'']"
  have "same_arguments ?i ?j" by (simp add: same_arguments_def)
  moreover have "well_formed (set client_flags) ?i" "well_formed (set client_flags) ?j"
    by (simp_all add: well_formed_def client_flags_def)
  ultimately have "client_arguments (args_of ?i) = client_arguments (args_of ?j)"
    using options_may_stand_anywhere by blast
  then show ?thesis by (simp add: args_of_def)
qed

section \<open>The identity of the server\<close>

datatype ServerCertVerifier =
    InsecureAcceptAnyServerCert
  | PinnedFingerprintServerCertVerifier Fingerprint

datatype ServerCertError = BadServerEncoding | UnexpectedServer Fingerprint Fingerprint

text \<open>The verifier \<open>connect_tls\<close> takes.\<close>

definition choose_verifier :: "Fingerprint option \<Rightarrow> ServerCertVerifier" where
  "choose_verifier expected =
     (case expected of
        Some fp \<Rightarrow> PinnedFingerprintServerCertVerifier fp
      | None \<Rightarrow> InsecureAcceptAnyServerCert)"

fun verify_server_cert :: "('cert \<Rightarrow> bytes option) \<Rightarrow> (bytes \<Rightarrow> bytes) \<Rightarrow> ServerCertVerifier \<Rightarrow> 'cert \<Rightarrow> (unit, ServerCertError) result" where
  "verify_server_cert public_key sha256 InsecureAcceptAnyServerCert cert = Ok ()"
| "verify_server_cert public_key sha256 (PinnedFingerprintServerCertVerifier expected_fingerprint) cert =
     (case public_key cert of
        None \<Rightarrow> Err BadServerEncoding
      | Some k \<Rightarrow>
          and_then (Fingerprint_of sha256 k) (\<lambda>presented_fingerprint.
          if presented_fingerprint = expected_fingerprint then Ok ()
          else Err (UnexpectedServer presented_fingerprint expected_fingerprint)))"

text \<open>
  A client given the printed fingerprint of a server accepts exactly the certificates whose public
  key has it; without one it accepts any.
\<close>

lemma pinned_server:
  assumes "is_fingerprint fp" and "map_of (options_of items) ''--expect-server-fingerprint'' = Some (Fingerprint_display fp)"
    and "well_formed (set client_flags) items" and "client_arguments (args_of items) = Ok arguments"
  shows "verify_server_cert public_key sha256 (choose_verifier (expected_server_fingerprint arguments)) cert = Ok ()
    \<longleftrightarrow> (\<exists>k. public_key cert = Some k \<and> Fingerprint (sha256 k) = fp)"
proof -
  have "expected_server_fingerprint arguments = Some fp"
    using assms(4) unfolding client_arguments_items [OF assms(3)]
    by (auto simp: assms(2) Let_def interpreted_def parse_fingerprint_def Fingerprint_from_display [OF assms(1)]
        and_then_eq_Ok_iff client_positional_def split: option.splits list.splits)
  then show ?thesis using assms(1)
    by (auto simp: choose_verifier_def Fingerprint_of_def Let_def is_fingerprint_def split: option.splits)
qed

end
