(* ===== verification/Spec2Isabelle.thy ===== *)
theory Spec2Isabelle
  imports Pdu_Codec Transport Connection_String Server Handler_Files Discovery Edge_Node_Session Confirmed_Writes
    Core_Agreement Core_Adu Line_Socket Reconnect Command_Line
    Unit_Table
begin

text \<open>
  A verification library for \<open>infused_modbus\<close>, a Modbus server and client in Rust.

  \<^bold>\<open>The program and its model.\<close> The crate \<open>protocol\<close> holds what both sides share, \<open>datafs\<close> the
  stores of a machine's values, \<open>server\<close> the request handlers and \<open>client\<close> the side that
  asks. A theory stands for a file or a few of them:

  \<^item> \<open>Prelude\<close>: results (\<open>Ok\<close>, \<open>Err\<close>, \<open>Panic\<close>), checked slice access, byte order; \<open>Bit_Packing\<close>:
    bit fields; \<open>Text\<close>: the standard library's string and number functions on UTF-8 bytes.
  \<^item> \<open>Wire_Types\<close>, \<open>Pdu\<close>: the constants, structs, \<open>encode\<close> and \<open>decode\<close> of \<open>protocol/src/pdu.rs\<close>.
    \<open>Codec\<close> is their interface, the locale \<open>wire_codec\<close>, interpreted for every PDU in \<open>Pdu_Codec\<close>.
  \<^item> \<open>Adu\<close>: \<open>protocol/src/adu.rs\<close>, the TCP and serial frames and the CRC.
  \<^item> \<open>Transport\<close>: \<open>protocol/src/tcp.rs\<close> and \<open>rtu.rs\<close>, on a stream of read and write events; the
    locale \<open>frame_transport\<close> is what both transports promise.
  \<^item> \<open>Connection_String\<close>, \<open>Unit_Of_Measure\<close>, \<open>Device_Description\<close>: the files of those names in
    \<open>protocol/src\<close>, with the chunking of \<open>device_description_manifest.rs\<close>. \<open>Unit_Table\<close> is the table of
    unit codes, which is in order, so that a lookup finds exactly its codes.
  \<^item> \<open>Register_Encoding\<close>, \<open>Data_Stores\<close>: \<open>datafs/src\<close>; the locale \<open>keyed_store\<close> is the contract of
    its seven stores.
  \<^item> \<open>Server_Options\<close>, \<open>Device_Identification\<close>, \<open>Handler\<close>: \<open>server/src/server_options.rs\<close>,
    \<open>device_identification.rs\<close>, \<open>fc43_bulk_transfer.rs\<close> and \<open>handler.rs\<close>. What the handlers do is
    proved in \<open>Handler_Registers\<close>, \<open>Handler_Coils\<close> and \<open>Handler_Files\<close>.
  \<^item> \<open>Server_Machine\<close>, \<open>Server\<close>: what any request can do to a machine, the states reachable by
    requests, and the connection loops of \<open>server/src/connection.rs\<close>.
  \<^item> \<open>Discovery\<close>: \<open>client/src/device_identification.rs\<close>, \<open>device_description_bulk_transfer.rs\<close> and the
    exchange of \<open>connection.rs\<close>, composed with the server; the locales \<open>identification_server\<close> and
    \<open>bulk_server\<close> are what the client needs of it.
  \<^item> \<open>Batching\<close>, \<open>Polling\<close>: \<open>client/src/batching.rs\<close> and \<open>polling.rs\<close>; the locale \<open>steady_link\<close> is what
    polling needs of a connection. \<open>Polling_Mirror\<close> composes polling with the server's handlers.
  \<^item> \<open>Write_Confirmation\<close>, \<open>Transaction_Consumer\<close>: \<open>client/src/write_confirmation.rs\<close> and
    \<open>transaction_consumer.rs\<close>; \<open>Confirmed_Writes\<close> composes them with the server and with polling.
  \<^item> \<open>Sparkplug_Wire\<close>, \<open>Sparkplug_Property\<close>, \<open>Sparkplug_Data_Set\<close>, \<open>Sparkplug_Payload\<close>: the message
    format of \<open>sparkplug/src\<close>; \<open>Sparkplug_Session\<close>: its session messages, sequence numbers and topics.
  \<^item> \<open>Sparkplug_Translation\<close>, \<open>Edge_Node\<close>: \<open>client/src/sparkplug_alias.rs\<close>, \<open>sparkplug_translator.rs\<close>,
    \<open>sparkplug_change_tracker.rs\<close>; \<open>sparkplug_command.rs\<close>, \<open>edge_node.rs\<close>, \<open>subscription_state.rs\<close>,
    \<open>primary_host_state.rs\<close>, \<open>bd_seq_persistence.rs\<close>. What they do over a session is proved in
    \<open>Sparkplug_Client\<close> and \<open>Edge_Node_Session\<close>.
  \<^item> \<open>Core_Containers\<close>, \<open>Core_Tables\<close>, \<open>Core_Pdu\<close>, \<open>Core_Adu\<close>: \<open>protocol-core/src\<close>, a port of the
    codec that does not allocate; the locales \<open>bounded_list\<close> and \<open>bounded_buffer\<close> are what its containers
    promise. \<open>Core_Codec\<close> and \<open>Core_Agreement\<close> compare it with the codec of \<open>protocol\<close>.
  \<^item> \<open>Server_Handle\<close>, \<open>Data_Socket\<close>: \<open>server/src/server_handle.rs\<close> and \<open>data_daemon.rs\<close>, the local
    side of the server; \<open>Data_Socket\<close> also has the machines \<open>main.rs\<close> builds, on which lines and requests
    interleave (\<open>site\<close>).
  \<^item> \<open>Client_Trust\<close>, \<open>Access_Control\<close>: \<open>protocol/src/tls.rs\<close> (fingerprints), \<open>server/src/client_trust.rs\<close>,
    \<open>live_connections.rs\<close>, \<open>persistence.rs\<close>, \<open>admin.rs\<close>, \<open>tls.rs\<close> and the TLS accept loop of \<open>main.rs\<close>, whose
    tasks and the admin commands are steps of one relation (\<open>tls_step\<close>). \<open>Line_Socket\<close>: the sockets
    of both protocols. \<open>Text_Words\<close>: splitting and joining of lines.
  \<^item> \<open>Reconnect\<close>: \<open>client/src/reconnect.rs\<close>; \<open>Command_Line\<close>: the options of both programs and the choice of
    the server's verifier.

  \<^bold>\<open>Correspondence.\<close> A struct is a record, an enum a datatype, a machine integer a word, a
  \<open>HashMap\<close> a partial map, a \<open>Vec\<close> a list, a string the list of its UTF-8 bytes. A function
  that can panic returns a \<open>result\<close>, whose \<open>Panic\<close> is the panic. An operation on shared state
  takes the state and returns it. Handlers hold their store's lock from the first access to
  the last, so a handler is one step on the machines and concurrency is the interleaving of
  such steps (\<open>served\<close>).

  \<^bold>\<open>What is shown.\<close> The decoders never panic and every PDU and frame decodes back from its
  encoding. A frame with a wrong CRC is refused. A TCP or serial exchange delivers the
  request to the handler and the reply to the client. A device description is resolved
  exactly when it is acceptable. Register values survive encoding, and their text form. The
  handlers answer every request without a panic, reads return exactly the stored words,
  writes are all or nothing and are read back, and in every reachable state read-only
  registers, input stores and descriptions are untouched and stored values have their
  declared type. The connection loop ends and answers in order. The client ends up with the
  description the server was given, also when it needs the bulk transfer.

  Batches are as few as they can be. Whatever a device answers, polling and writing do not panic,
  and every staged name gets one outcome. Against the server of this repository the outcome is
  the truth, one turn of polling makes the client's stores equal to the server's, and a confirmed
  write is polled back. On a serial line an answer that comes late is taken for another's.

  Sparkplug payloads decode back from their encoding and no bytes make the decoder panic. A host
  that applies what is published holds the current values, save those that never left the zero of
  their null placeholder, and its command reaches the register of the alias it names. The commands maintain the set of subscribed machines. Sequence numbers are
  unique, though not always sent in order. Two defects of the publishing are shown as well: zeros
  after a subscription stay null, and a machine subscribed to again speaks without a birth.

  The port encodes and decodes as the original does within the capacity of its containers. Its
  encoder of coil writes can panic, and its decoder of them lets padding bits through.

  Requests of masters and lines on the data socket, in any order, never break a declared type, and give a
  read-only register no value; what is set locally is read back and reaches a polling client. The TLS
  server keeps its limits, a revoked client stays out unless the revocation falls into its handshake or it
  resumes a session that was stored before, which brings it back in; and a restart brings back the
  approvals that were saved last. No reported break of the client's connection is forgotten, but a healthy connection can be replaced once more.

  \<^bold>\<open>Loops and bounds.\<close> Loops are recursive functions with a termination proof, except the
  client's page loop, which may not end and is a \<open>partial_function (option)\<close>, and the endless
  loops of the serial server, of polling and of reconnecting, of which any number of turns is a state. Reading a
  frame takes at most 260 events. No fuel is used.

  \<^bold>\<open>Parameters.\<close> Code outside the repository is an argument: the TOML parser and printer, the
  DEFLATE codec, float printing, the quoting of strings, the text of an I/O error,
  the MQTT client, SHA-256, the parsing of certificates, the order in which a hash set is iterated. Time
  appears as timer events and pauses only.

  \<^bold>\<open>Not modelled.\<close> The TLS handshake and its cryptography (a full handshake asks the verifier and
  stores a session, a resumption does not ask; rustls's storage is the set \<open>sessions\<close>), key files, opening of sockets and serial ports,
  task start-up, fuzz targets and benches are glue around third-party crates; \<open>Display\<close> texts of errors
  are modelled only where a protocol answers with them.
\<close>

end
